(* ===== verification/Prelude.thy ===== *)
theory Prelude
  imports Main "HOL-Library.Word"
begin

text \<open>
  Shared vocabulary of the development: the names of the fixed-width C integer types, the
  collections of simplification rules the component theories add to, and the generic facts about
  bits, words, lists and address arithmetic that several components use.
\<close>

unbundle bit_operations_syntax

section \<open>C integer types\<close>

type_synonym u8 = "8 word"
type_synonym u16 = "16 word"
type_synonym u32 = "32 word"
type_synonym u64 = "64 word"

text \<open>
  \<open>size_t\<close>, \<open>uintptr_t\<close> and pointers are \<open>u64\<close> on this target; \<open>NULL\<close> is \<open>0\<close>.
\<close>

abbreviation NULL :: u64 where
  "NULL \<equiv> 0"

named_theorems pmm_defs \<open>operations of the physical memory manager\<close>
named_theorems bit_facts \<open>reading single bits of updated words\<close>

section \<open>Bits of words\<close>

text \<open>
  The C idiom \<open>x & (1 << k)\<close> reads bit \<open>k\<close>. The simplifier writes the mask
  \<open>push_bit k 1\<close> as \<open>2 ^ k\<close>, so the rules are stated for that form.
\<close>

lemma and_mask_eq_0_iff [bit_facts]:
  "(w AND 2 ^ k = (0 :: 'a::len word)) \<longleftrightarrow> \<not> bit w k"
  by (simp add: bit_iff_and_push_bit_not_eq_0)

lemma bit_or_mask [bit_facts]:
  "k < 8 \<Longrightarrow> bit ((w :: u8) OR 2 ^ k) j \<longleftrightarrow> j = k \<or> bit w j"
  by (auto simp: bit_simps)

lemma bit_and_not_mask [bit_facts]:
  "k < 8 \<Longrightarrow> bit ((w :: u8) AND NOT (2 ^ k)) j \<longleftrightarrow> j \<noteq> k \<and> bit w j"
  by (auto simp: bit_simps dest: bit_imp_le_length)

lemma not_bit_u8_ge: "8 \<le> k \<Longrightarrow> \<not> bit (w :: u8) k"
  by (auto dest: bit_imp_le_length)

lemma and_not_disjoint:
  assumes "a AND b = (0 :: 'a::len word)"
  shows "a AND NOT b = a"
proof (rule bit_word_eqI)
  fix n assume "n < LENGTH('a)"
  moreover have "\<not> (bit a n \<and> bit b n)"
    using assms by (metis bit_and_iff bit_0_eq bot_apply bot_bool_def)
  ultimately show "bit (a AND NOT b) n = bit a n" by (auto simp: bit_simps)
qed

section \<open>Unsigned arithmetic without wrap-around\<close>

lemma unat_add_no_wrap:
  "unat a + unat b < 2 ^ LENGTH('a) \<Longrightarrow> unat (a + b :: 'a::len word) = unat a + unat b"
  by (simp add: unat_word_ariths)

lemma unat_mult_no_wrap:
  "unat a * unat b < 2 ^ LENGTH('a) \<Longrightarrow> unat (a * b :: 'a::len word) = unat a * unat b"
  by (simp add: unat_word_ariths)

lemma unat_sub_le:
  "b \<le> a \<Longrightarrow> unat (a - b :: 'a::len word) = unat a - unat b"
  by (simp add: unat_sub)

lemma unat_of_nat_small:
  "n < 2 ^ LENGTH('a) \<Longrightarrow> unat (of_nat n :: 'a::len word) = n"
  by (simp add: unat_of_nat)

lemma unat_add_of_nat:
  assumes "unat (a :: u64) + n < 2 ^ 64"
  shows "unat (a + of_nat n) = unat a + n"
  using assms by (simp add: unat_word_ariths unat_of_nat)

lemma unat_lt_u64: "unat (w :: u64) < 2 ^ 64"
  using unsigned_less [where 'b = 64 and w = w and 'a = nat] by simp

lemma word_gt_1: "(c :: u64) \<noteq> 0 \<Longrightarrow> c \<noteq> 1 \<Longrightarrow> 1 < c"
  by (simp add: word_less_nat_alt)
    (metis One_nat_def less_one linorder_neqE_nat unat_1 unat_0 word_unat_eq_iff)

lemma unat_mod_4096: "unat (w mod 4096 :: u64) = unat w mod 4096"
  by (simp add: unat_mod)

lemma aligned_unat: "(w :: u64) mod 4096 = 0 \<longleftrightarrow> unat w mod 4096 = 0"
  by (metis unat_mod_4096 unat_0 unat_eq_zero)

section \<open>Counting loops\<close>

text \<open>The number of positions below \<open>n\<close> that satisfy a test, as the C counters compute it.\<close>

fun count_below :: "(nat \<Rightarrow> bool) \<Rightarrow> nat \<Rightarrow> nat" where
  "count_below P 0 = 0"
| "count_below P (Suc n) = count_below P n + (if P n then 1 else 0)"

lemma count_below_card: "count_below P n = card {i. i < n \<and> P i}"
proof (induction n)
  case 0
  then show ?case by simp
next
  case (Suc n)
  have "{i. i < Suc n \<and> P i} = (if P n then insert n {i. i < n \<and> P i} else {i. i < n \<and> P i})"
    by (auto simp: less_Suc_eq)
  with Suc show ?case by simp
qed

lemma count_below_le: "count_below P n \<le> n"
  by (induction n) auto

lemma count_below_compl: "count_below P n + count_below (\<lambda>i. \<not> P i) n = n"
  by (induction n) auto

lemma count_below_cong: "(\<And>i. i < n \<Longrightarrow> P i = Q i) \<Longrightarrow> count_below P n = count_below Q n"
  by (induction n) auto

lemma count_below_remove:
  "k < n \<Longrightarrow> P k \<Longrightarrow> Suc (count_below (\<lambda>i. i \<noteq> k \<and> P i) n) = count_below P n"
proof (induction n)
  case 0
  then show ?case by simp
next
  case (Suc n)
  show ?case
  proof (cases "k = n")
    case True
    with Suc.prems show ?thesis by (auto intro: count_below_cong)
  next
    case False
    with Suc show ?thesis by auto
  qed
qed

text \<open>Updates of a list at a literal index, and the high bits of a small word.\<close>

lemma list_update_Cons_numeral [simp]:
  "(x # xs)[numeral v := y] = x # xs[pred_numeral v := y]"
  by (simp add: numeral_eq_Suc)

lemma not_bit_ge:
  assumes "unat w < 2 ^ k" and "k \<le> n"
  shows "\<not> bit w n"
proof -
  have "(2 :: nat) ^ k \<le> 2 ^ n" using assms(2) by (simp add: power_increasing)
  then have "unat w div 2 ^ n = 0" using assms(1) by (intro div_less) linarith
  then have "\<not> bit (unat w) n" by (simp add: bit_iff_odd)
  then show ?thesis by (auto simp: bit_simps dest: bit_imp_le_length)
qed

text \<open>Masks and shifts as remainder and quotient.\<close>

lemma unat_and_mask: "unat (w AND mask k :: 'a::len word) = unat w mod 2 ^ k"
proof -
  have "unat (w AND mask k) = unat (take_bit k w)" by (simp only: take_bit_eq_mask)
  also have "\<dots> = take_bit k (unat w)" by (rule unsigned_take_bit_eq)
  finally show ?thesis by (simp only: take_bit_eq_mod)
qed

lemma unat_drop_bit: "unat (drop_bit k w :: 'a::len word) = unat w div 2 ^ k"
proof -
  have "unat (drop_bit k w) = drop_bit k (take_bit LENGTH('a) (unat w))" by (rule unsigned_drop_bit_eq)
  also have "take_bit LENGTH('a) (unat w) = unat w" by (simp add: take_bit_nat_eq_self)
  finally show ?thesis by (simp only: drop_bit_eq_div)
qed

lemma unat_ucast_mod: "unat (ucast (w :: 'a::len word) :: 'b::len word) = unat w mod 2 ^ LENGTH('b)"
  by (simp add: unsigned_ucast_eq take_bit_eq_mod)

end
