(* ===== verification/PMM.thy ===== *)
theory PMM
  imports Prelude
begin

text \<open>
  The physical memory manager, \<open>src/kernel/src/memory/pmm.c\<close> and \<open>pmm.h\<close>: a bitmap of
  4 KiB page frames over one managed range of physical memory. The state is the file's static
  variables; \<open>page_bitmap\<close>, which is either \<open>NULL\<close> or the address of \<open>static_bitmap\<close>, is
  the flag \<open>page_bitmap_set\<close>. Log output is left out.
\<close>

section \<open>State\<close>

record pmm_config_t =
  page_size :: u64
  kernel_start :: u64
  kernel_end :: u64
  max_pages :: u32
  total_memory :: u64

record pmm_state =
  pmm_config :: pmm_config_t
  static_bitmap :: "u8 list"
  page_bitmap_set :: bool
  bitmap_size :: u64
  total_allocations :: u64
  failed_allocations :: u64

definition PMM_BLOCK_SIZE :: u64 where
  "PMM_BLOCK_SIZE = 4096"

definition STATIC_BITMAP_SIZE :: nat where
  "STATIC_BITMAP_SIZE = 8192"

text \<open>The values of the static variables when the kernel starts.\<close>

definition pmm_boot :: pmm_state where
  "pmm_boot = \<lparr>pmm_config = \<lparr>page_size = 0, kernel_start = 0, kernel_end = 0, max_pages = 0,
      total_memory = 0\<rparr>,
    static_bitmap = replicate STATIC_BITMAP_SIZE 0, page_bitmap_set = False, bitmap_size = 0,
    total_allocations = 0, failed_allocations = 0\<rparr>"

section \<open>Bitmap accesses\<close>

text \<open>
  \<open>page_bitmap[i / 8] & (1 << (i % 8))\<close>, \<open>|=\<close> and \<open>&= ~\<close>, as every function of the file
  writes them.
\<close>

definition page_used :: "u8 list \<Rightarrow> nat \<Rightarrow> bool" where
  "page_used bm i \<longleftrightarrow> bm ! (i div 8) AND push_bit (i mod 8) 1 \<noteq> 0"

definition mark_used :: "u8 list \<Rightarrow> nat \<Rightarrow> u8 list" where
  "mark_used bm i = bm[i div 8 := bm ! (i div 8) OR push_bit (i mod 8) 1]"

definition mark_free :: "u8 list \<Rightarrow> nat \<Rightarrow> u8 list" where
  "mark_free bm i = bm[i div 8 := bm ! (i div 8) AND NOT (push_bit (i mod 8) 1)]"

text \<open>The number of pages the loops run over.\<close>

abbreviation npages :: "pmm_state \<Rightarrow> nat" where
  "npages s \<equiv> unat (max_pages (pmm_config s))"

text \<open>\<open>kernel_start + i * page_size\<close>\<close>

definition page_addr :: "pmm_state \<Rightarrow> nat \<Rightarrow> u64" where
  "page_addr s i = kernel_start (pmm_config s) + of_nat i * page_size (pmm_config s)"

section \<open>Initialisation\<close>

datatype memmap_type =
    MEMMAP_USABLE | MEMMAP_RESERVED | MEMMAP_ACPI_RECLAIMABLE | MEMMAP_ACPI_NVS
  | MEMMAP_BAD_MEMORY | MEMMAP_BOOTLOADER_RECLAIMABLE | MEMMAP_KERNEL_AND_MODULES
  | MEMMAP_FRAMEBUFFER

text \<open>An entry of the bootloader's memory map.\<close>

record memmap_entry =
  entry_base :: u64
  entry_length :: u64
  entry_type :: memmap_type

text \<open>
  The first loop of \<open>pmm_init\<close>: the total of the usable memory, the length of the largest usable
  region above 1 MiB and its base.
\<close>

fun scan_memmap :: "memmap_entry list \<Rightarrow> u64 \<times> u64 \<times> u64 \<Rightarrow> u64 \<times> u64 \<times> u64" where
  "scan_memmap [] acc = acc"
| "scan_memmap (e # es) (tot, largest, start) =
     (if entry_type e = MEMMAP_USABLE
      then (if largest < entry_length e \<and> 0x100000 \<le> entry_base e
            then scan_memmap es (tot + entry_length e, entry_length e, entry_base e)
            else scan_memmap es (tot + entry_length e, largest, start))
      else scan_memmap es (tot, largest, start))"

text \<open>
  The inner loop that marks one region: \<open>for (addr = region_start; addr < region_end;
  addr += page_size)\<close>. With a region that ends in the last page of the address space \<open>addr\<close>
  wraps around and the loop never ends, which is \<open>None\<close>.
\<close>

partial_function (option) mark_region ::
  "pmm_config_t \<Rightarrow> u64 \<Rightarrow> u64 \<Rightarrow> u8 list \<Rightarrow> u8 list option" where
  "mark_region c addr region_end bm =
     (if addr < region_end
      then (let page_index = unat ((addr - kernel_start c) div page_size c)
            in mark_region c (addr + page_size c) region_end
                 (if page_index < unat (max_pages c) then mark_used bm page_index else bm))
      else Some bm)"

text \<open>The second loop of \<open>pmm_init\<close>.\<close>

fun mark_memmap :: "pmm_config_t \<Rightarrow> memmap_entry list \<Rightarrow> u8 list \<Rightarrow> u8 list option" where
  "mark_memmap c [] bm = Some bm"
| "mark_memmap c (e # es) bm =
     (if entry_type e = MEMMAP_USABLE then mark_memmap c es bm
      else if kernel_end c \<le> entry_base e
              \<or> entry_base e + entry_length e \<le> kernel_start c then mark_memmap c es bm
      else (let region_start = entry_base e;
                region_end = entry_base e + entry_length e;
                region_start = (if region_start < kernel_start c then kernel_start c
                                else region_start);
                region_end = (if kernel_end c < region_end then kernel_end c else region_end)
            in case mark_region c region_start region_end bm of
                 None \<Rightarrow> None
               | Some bm' \<Rightarrow> mark_memmap c es bm'))"

text \<open>The last loop: \<open>for (i = 0; i < 256 && i < max_pages; i++)\<close>.\<close>

fun mark_first :: "nat \<Rightarrow> u8 list \<Rightarrow> u8 list" where
  "mark_first 0 bm = bm"
| "mark_first (Suc n) bm = mark_used (mark_first n bm) n"

text \<open>
  The configuration \<open>pmm_init\<close> computes between the two loops over the map, from the results of
  the first: the managed range is the start of the largest region, cut down to what the bitmap
  covers or to the region.
\<close>

definition init_config :: "u64 \<Rightarrow> u64 \<Rightarrow> u64 \<Rightarrow> pmm_config_t" where
  "init_config largest start tot =
     (let max0 = of_nat (STATIC_BITMAP_SIZE * 8) :: u32;
          manageable_size = ucast max0 * PMM_BLOCK_SIZE;
          maxp = (if largest < manageable_size then ucast (largest div PMM_BLOCK_SIZE) else max0)
      in \<lparr>page_size = PMM_BLOCK_SIZE, kernel_start = start,
          kernel_end = start + ucast maxp * PMM_BLOCK_SIZE, max_pages = maxp,
          total_memory = tot\<rparr>)"

text \<open>\<open>None\<close>: the call does not return (\<open>hcf\<close> on a missing memory map).\<close>

definition pmm_init :: "memmap_entry list option \<Rightarrow> pmm_state \<Rightarrow> pmm_state option" where
  "pmm_init memmap s = (case memmap of
     None \<Rightarrow> None
   | Some es \<Rightarrow>
      (let (tot, largest, start) = scan_memmap es (0, 0, 0x100000);
           c = init_config largest start tot
       in case mark_memmap c es (replicate STATIC_BITMAP_SIZE 0) of
            None \<Rightarrow> None
          | Some bm \<Rightarrow>
             Some (s\<lparr>pmm_config := c,
                     static_bitmap := mark_first (min 256 (unat (max_pages c))) bm,
                     page_bitmap_set := True,
                     bitmap_size := of_nat STATIC_BITMAP_SIZE\<rparr>)))"

section \<open>Allocation\<close>

text \<open>The loop of \<open>pmm_alloc_page\<close> from index \<open>i\<close> on.\<close>

function find_free_page :: "u8 list \<Rightarrow> nat \<Rightarrow> nat \<Rightarrow> nat option" where
  "find_free_page bm n i =
     (if i < n then (if \<not> page_used bm i then Some i else find_free_page bm n (Suc i)) else None)"
  by pat_completeness auto
termination
  by (relation "measure (\<lambda>(bm, n, i). n - i)") auto

declare find_free_page.simps [simp del]

definition pmm_alloc_page :: "pmm_state \<Rightarrow> u64 \<times> pmm_state" where
  "pmm_alloc_page s =
     (if \<not> page_bitmap_set s then (NULL, s)
      else case find_free_page (static_bitmap s) (npages s) 0 of
             Some i \<Rightarrow> (page_addr s i,
               s\<lparr>static_bitmap := mark_used (static_bitmap s) i,
                 total_allocations := total_allocations s + 1\<rparr>)
           | None \<Rightarrow> (NULL, s\<lparr>failed_allocations := failed_allocations s + 1\<rparr>))"

text \<open>
  The loop of \<open>pmm_alloc_pages\<close>: \<open>found\<close> and \<open>start\<close> are \<open>found_pages\<close> and
  \<open>start_page\<close>; the result is the start of the run.
\<close>

function find_free_run ::
  "u8 list \<Rightarrow> nat \<Rightarrow> u64 \<Rightarrow> nat \<Rightarrow> u64 \<Rightarrow> nat \<Rightarrow> nat option" where
  "find_free_run bm n count i found start =
     (if i < n
      then if \<not> page_used bm i
           then (let start' = (if found = 0 then i else start); found' = found + 1
                 in if found' = count then Some start'
                    else find_free_run bm n count (Suc i) found' start')
           else find_free_run bm n count (Suc i) 0 start
      else None)"
  by pat_completeness auto
termination
  by (relation "measure (\<lambda>(bm, n, count, i, found, start). n - i)") auto

declare find_free_run.simps [simp del]

text \<open>\<open>for (j = 0; j < count; j++)\<close> mark \<open>start_page + j\<close>.\<close>

fun mark_run :: "nat \<Rightarrow> nat \<Rightarrow> u8 list \<Rightarrow> u8 list" where
  "mark_run start 0 bm = bm"
| "mark_run start (Suc n) bm = mark_used (mark_run start n bm) (start + n)"

definition pmm_alloc_pages :: "u64 \<Rightarrow> pmm_state \<Rightarrow> u64 \<times> pmm_state" where
  "pmm_alloc_pages count s =
     (if \<not> page_bitmap_set s \<or> count = 0 then (NULL, s)
      else if count = 1 then pmm_alloc_page s
      else case find_free_run (static_bitmap s) (npages s) count 0 0 0 of
             Some start_page \<Rightarrow> (page_addr s start_page,
               s\<lparr>static_bitmap := mark_run start_page (unat count) (static_bitmap s),
                 total_allocations := total_allocations s + 1\<rparr>)
           | None \<Rightarrow> (NULL, s\<lparr>failed_allocations := failed_allocations s + 1\<rparr>))"

section \<open>Release\<close>

text \<open>
  The guards shared by \<open>pmm_free_page\<close>, \<open>pmm_free_pages\<close> and \<open>pmm_is_page_free\<close>: an address
  outside the managed range or not a multiple of the page size is refused.
\<close>

definition invalid_page :: "pmm_state \<Rightarrow> u64 \<Rightarrow> bool" where
  "invalid_page s page \<longleftrightarrow> page < kernel_start (pmm_config s) \<or> kernel_end (pmm_config s) \<le> page
     \<or> page mod page_size (pmm_config s) \<noteq> 0"

text \<open>\<open>(page - kernel_start) / page_size\<close>\<close>

definition page_index :: "pmm_state \<Rightarrow> u64 \<Rightarrow> nat" where
  "page_index s page =
     unat ((page - kernel_start (pmm_config s)) div page_size (pmm_config s))"

definition pmm_free_page :: "u64 \<Rightarrow> pmm_state \<Rightarrow> pmm_state" where
  "pmm_free_page page s =
     (if \<not> page_bitmap_set s then s
      else if invalid_page s page then s
      else if npages s \<le> page_index s page then s
      else if \<not> page_used (static_bitmap s) (page_index s page) then s
      else s\<lparr>static_bitmap := mark_free (static_bitmap s) (page_index s page)\<rparr>)"

text \<open>\<open>for (i = 0; i < count; i++) pmm_free_page(page + i * page_size)\<close>\<close>

fun free_loop :: "u64 \<Rightarrow> nat \<Rightarrow> pmm_state \<Rightarrow> pmm_state" where
  "free_loop page 0 s = s"
| "free_loop page (Suc n) s =
     pmm_free_page (page + of_nat n * page_size (pmm_config s)) (free_loop page n s)"

definition pmm_free_pages :: "u64 \<Rightarrow> u64 \<Rightarrow> pmm_state \<Rightarrow> pmm_state" where
  "pmm_free_pages page count s =
     (if \<not> page_bitmap_set s \<or> count = 0 then s
      else if count = 1 then pmm_free_page page s
      else if invalid_page s page then s
      else (let end_page = page + count * page_size (pmm_config s);
                count' = (if kernel_end (pmm_config s) < end_page
                          then (kernel_end (pmm_config s) - page) div page_size (pmm_config s)
                          else count)
            in free_loop page (unat count') s))"

section \<open>Queries\<close>

definition pmm_is_page_free :: "u64 \<Rightarrow> pmm_state \<Rightarrow> bool" where
  "pmm_is_page_free page s =
     (if \<not> page_bitmap_set s then False
      else if invalid_page s page then False
      else if npages s \<le> page_index s page then False
      else \<not> page_used (static_bitmap s) (page_index s page))"

definition pmm_get_free_memory :: "pmm_state \<Rightarrow> u64" where
  "pmm_get_free_memory s =
     (if \<not> page_bitmap_set s then 0
      else of_nat (count_below (\<lambda>i. \<not> page_used (static_bitmap s) i) (npages s))
             * page_size (pmm_config s))"

definition pmm_get_used_memory :: "pmm_state \<Rightarrow> u64" where
  "pmm_get_used_memory s =
     (if \<not> page_bitmap_set s then 0
      else of_nat (count_below (page_used (static_bitmap s)) (npages s))
             * page_size (pmm_config s))"

text \<open>\<open>pmm_get_info(&config)\<close> with a non-\<open>NULL\<close> argument copies the configuration.\<close>

definition pmm_get_info :: "pmm_state \<Rightarrow> pmm_config_t" where
  "pmm_get_info s = pmm_config s"

end
