(* ===== verification/Memory.thy ===== *)
theory Memory
  imports Prelude
begin

text \<open>
  Byte addressed memory with the little endian loads and stores of x86-64, and filling a range with
  one byte. A memory is a total function from addresses to bytes: which of them are backed by RAM
  is not represented here.
\<close>

type_synonym memory = "u64 \<Rightarrow> u8"

section \<open>Little endian loads and stores\<close>

fun read_le :: "memory \<Rightarrow> u64 \<Rightarrow> nat \<Rightarrow> 'a::len word" where
  "read_le m a 0 = 0"
| "read_le m a (Suc n) = ucast (m a) OR push_bit 8 (read_le m (a + 1) n)"

fun write_le :: "memory \<Rightarrow> u64 \<Rightarrow> 'a::len word \<Rightarrow> nat \<Rightarrow> memory" where
  "write_le m a v 0 = m"
| "write_le m a v (Suc n) = (write_le m (a + 1) (drop_bit 8 v) n)(a := ucast v)"

definition read64 :: "memory \<Rightarrow> u64 \<Rightarrow> u64" where
  "read64 m a = read_le m a 8"

definition write64 :: "memory \<Rightarrow> u64 \<Rightarrow> u64 \<Rightarrow> memory" where
  "write64 m a v = write_le m a v 8"

lemma bit_read_le:
  "bit (read_le m a n :: 'a::len word) k \<longleftrightarrow>
     k < LENGTH('a) \<and> k < 8 * n \<and> bit (m (a + of_nat (k div 8))) (k mod 8)"
proof (induction n arbitrary: a k)
  case 0
  then show ?case by simp
next
  case (Suc n)
  show ?case
  proof (cases "k < 8")
    case True
    then show ?thesis by (auto simp: bit_simps)
  next
    case False
    then obtain j where k: "k = j + 8" by (metis add.commute le_Suc_ex not_less)
    have d: "(j + 8) div 8 = Suc (j div 8)" by simp
    then show ?thesis
      unfolding k using Suc [of "a + 1" j] by (auto simp: bit_simps not_bit_u8_ge add.assoc)
  qed
qed

lemma word_sub_cases:
  fixes a b :: u64
  assumes "b \<noteq> a"
  shows "unat (b - a) = Suc (unat (b - (a + 1)))"
proof -
  have "b - a \<noteq> 0" using assms by simp
  moreover have "b - (a + 1) = (b - a) - 1" by simp
  ultimately show ?thesis by (metis Suc_pred' unat_eq_zero unat_minus_one bot_nat_0.not_eq_extremum)
qed

lemma write_le_apply:
  fixes v :: "'a::len word"
  shows "write_le m a v n b = (if unat (b - a) < n then ucast (drop_bit (8 * unat (b - a)) v) else m b)"
proof (induction n arbitrary: a v)
  case 0
  then show ?case by simp
next
  case (Suc n)
  show ?case
  proof (cases "b = a")
    case True
    then show ?thesis by simp
  next
    case False
    then have u: "unat (b - a) = Suc (unat (b - (a + 1)))" by (rule word_sub_cases)
    then have "8 + 8 * unat (b - (a + 1)) = 8 * unat (b - a)" by simp
    then show ?thesis using False Suc [of "a + 1" "drop_bit 8 v"] u by (simp add: add.commute)
  qed
qed

lemma read_write_le:
  assumes "n \<le> 8"
  shows "read_le (write_le m a v n) a n = take_bit (8 * n) (v :: 'a::len word)"
proof (rule bit_word_eqI)
  fix k assume "k < LENGTH('a)"
  moreover have "unat (of_nat (k div 8) :: u64) = k div 8" if "k < 8 * n"
    using that assms by (intro unat_of_nat_small) simp
  moreover have "k div 8 < n" if "k < 8 * n" using that by auto
  ultimately show "bit (read_le (write_le m a v n) a n :: 'a word) k = bit (take_bit (8 * n) v) k"
    by (auto simp: bit_read_le write_le_apply bit_simps)
qed

lemma read_le_cong:
  assumes "\<And>i. i < n \<Longrightarrow> m (a + of_nat i) = m' (a + of_nat i)"
  shows "read_le m a n = read_le m' a n"
proof (rule bit_word_eqI)
  fix k
  have "k div 8 < n" if "k < 8 * n" using that by auto
  with assms show "bit (read_le m a n :: 'a word) k = bit (read_le m' a n :: 'a word) k"
    by (auto simp: bit_read_le)
qed

lemma read64_write64 [simp]: "read64 (write64 m a v) a = v"
  by (simp add: read64_def write64_def read_write_le take_bit_word_eq_self)

text \<open>Two aligned words are the same or share no byte.\<close>

lemma unat_add_aligned8:
  assumes "(a :: u64) mod 8 = 0" and "i < 8"
  shows "unat (a + of_nat i) = unat a + i"
proof -
  have "unat (a mod 8) = unat a mod 8" by (simp add: unat_mod)
  then have "unat a mod 8 = 0" using assms(1) by simp
  then obtain q where q: "unat a = 8 * q" by auto
  have "unat a < 8 * 2 ^ 61" using unsigned_less [of a] by simp
  then have "q < 2 ^ 61" using q by simp
  then have "unat a + i < 2 ^ 64" using q assms(2) by simp
  moreover have "unat (of_nat i :: u64) = i" using assms(2) by (intro unat_of_nat_small) simp
  ultimately show ?thesis by (subst unat_add_no_wrap) auto
qed


lemma aligned8_disjoint:
  assumes "(a :: u64) mod 8 = 0" "b mod 8 = 0" "a \<noteq> b" "i < 8"
  shows "\<not> unat (b + of_nat i - a) < 8"
proof
  let ?d = "unat (b + of_nat i - a)"
  assume d: "?d < 8"
  have "a + of_nat ?d = b + of_nat i" by simp
  then have "unat a + ?d = unat b + i"
    using unat_add_aligned8 [OF assms(1) d] unat_add_aligned8 [OF assms(2,4)] by simp
  moreover obtain q r where "unat a = 8 * q" "unat b = 8 * r"
    using assms(1,2) unat_mod [of a 8] unat_mod [of b 8] by (auto simp: mod_eq_0_iff_dvd elim!: dvdE)
  ultimately have "unat a = unat b" using d assms(4) by simp
  with assms(3) show False by (simp add: word_unat_eq_iff)
qed

lemma read64_write64_other:
  assumes "a mod 8 = 0" "b mod 8 = 0" "a \<noteq> b"
  shows "read64 (write64 m a v) b = read64 m b"
  unfolding read64_def write64_def
  by (rule read_le_cong) (use aligned8_disjoint [OF assms] in \<open>simp add: write_le_apply\<close>)

lemma write64_write64 [simp]: "write64 (write64 m a v) a w = write64 m a w"
  by (auto simp: write64_def write_le_apply)

lemma read64_cong:
  assumes "\<And>i. i < 8 \<Longrightarrow> m (a + of_nat i) = m' (a + of_nat i)"
  shows "read64 m a = read64 m' a"
  unfolding read64_def using assms by (rule read_le_cong)

lemma read64_zero: "(\<And>i. i < 8 \<Longrightarrow> m (a + of_nat i) = 0) \<Longrightarrow> read64 m a = 0"
proof -
  assume "\<And>i. i < 8 \<Longrightarrow> m (a + of_nat i) = 0"
  then have "read64 m a = read64 (\<lambda>_. 0) a" by (rule read64_cong) 
  also have "\<dots> = 0" unfolding read64_def by (rule bit_word_eqI) (simp add: bit_read_le)
  finally show ?thesis .
qed

end
