(* ===== verification/Strings.thy ===== *)
theory Strings
  imports Memory
begin

text \<open>
  The freestanding string library, \<open>src/kernel/src/lib/string.c\<close>. A function that writes takes the
  memory and returns the pointer it returns in C with the new memory; a loop that runs up to a
  terminator has no bound in C and is a partial function, \<open>None\<close> when the loop never ends.
\<close>

section \<open>Blocks\<close>

text \<open>\<open>for (i = 0; i < n; i++) pdest[i] = psrc[i]\<close>\<close>

fun copy_up :: "u64 \<Rightarrow> u64 \<Rightarrow> nat \<Rightarrow> memory \<Rightarrow> memory" where
  "copy_up dest src 0 m = m"
| "copy_up dest src (Suc n) m =
     (let m' = copy_up dest src n m in m'(dest + of_nat n := m' (src + of_nat n)))"

definition memcpy :: "u64 \<Rightarrow> u64 \<Rightarrow> u64 \<Rightarrow> memory \<Rightarrow> u64 \<times> memory" where
  "memcpy dest src n m = (dest, copy_up dest src (unat n) m)"

fun fill_up :: "u64 \<Rightarrow> u8 \<Rightarrow> nat \<Rightarrow> memory \<Rightarrow> memory" where
  "fill_up s c 0 m = m"
| "fill_up s c (Suc n) m = (fill_up s c n m)(s + of_nat n := c)"

definition memset :: "u64 \<Rightarrow> 32 word \<Rightarrow> u64 \<Rightarrow> memory \<Rightarrow> u64 \<times> memory" where
  "memset s c n m = (s, fill_up s (ucast c) (unat n) m)"

text \<open>\<open>for (i = n; i > 0; i--) pdest[i-1] = psrc[i-1]\<close>\<close>

fun copy_down :: "u64 \<Rightarrow> u64 \<Rightarrow> nat \<Rightarrow> memory \<Rightarrow> memory" where
  "copy_down dest src 0 m = m"
| "copy_down dest src (Suc n) m = copy_down dest src n (m(dest + of_nat n := m (src + of_nat n)))"

definition memmove :: "u64 \<Rightarrow> u64 \<Rightarrow> u64 \<Rightarrow> memory \<Rightarrow> u64 \<times> memory" where
  "memmove dest src n m =
     (if dest < src then (dest, copy_up dest src (unat n) m)
      else if src < dest then (dest, copy_down dest src (unat n) m)
      else (dest, m))"

text \<open>The loop of \<open>memcmp\<close> with \<open>n\<close> bytes left; \<open>int\<close> results are unbounded integers here.\<close>

fun memcmp_loop :: "memory \<Rightarrow> u64 \<Rightarrow> u64 \<Rightarrow> nat \<Rightarrow> int" where
  "memcmp_loop m p1 p2 0 = 0"
| "memcmp_loop m p1 p2 (Suc n) =
     (if m p1 \<noteq> m p2 then (if m p1 < m p2 then -1 else 1)
      else memcmp_loop m (p1 + 1) (p2 + 1) n)"

definition memcmp :: "u64 \<Rightarrow> u64 \<Rightarrow> u64 \<Rightarrow> memory \<Rightarrow> int" where
  "memcmp s1 s2 n m = memcmp_loop m s1 s2 (unat n)"

text \<open>
  \<open>strncpy\<close>: the first loop copies from index \<open>i\<close> while \<open>src[i]\<close> is not the terminator and
  gives the index where it stopped, the second one pads.
\<close>

fun strncpy_copy :: "u64 \<Rightarrow> u64 \<Rightarrow> nat \<Rightarrow> nat \<Rightarrow> memory \<Rightarrow> nat \<times> memory" where
  "strncpy_copy dest src 0 i m = (i, m)"
| "strncpy_copy dest src (Suc k) i m =
     (if m (src + of_nat i) \<noteq> 0
      then strncpy_copy dest src k (Suc i) (m(dest + of_nat i := m (src + of_nat i)))
      else (i, m))"

definition strncpy :: "u64 \<Rightarrow> u64 \<Rightarrow> u64 \<Rightarrow> memory \<Rightarrow> u64 \<times> memory" where
  "strncpy dest src n m =
     (let (i, m') = strncpy_copy dest src (unat n) 0 m
      in (dest, fill_up (dest + of_nat i) 0 (unat n - i) m'))"

section \<open>Terminated strings\<close>

text \<open>\<open>while ((*d++ = *src++) != 0);\<close>\<close>

partial_function (option) strcpy_loop :: "u64 \<Rightarrow> u64 \<Rightarrow> memory \<Rightarrow> memory option" where
  "strcpy_loop d src m =
     (let m' = m(d := m src)
      in if m src = 0 then Some m' else strcpy_loop (d + 1) (src + 1) m')"

definition strcpy :: "u64 \<Rightarrow> u64 \<Rightarrow> memory \<Rightarrow> (u64 \<times> memory) option" where
  "strcpy dest src m = map_option (Pair dest) (strcpy_loop dest src m)"

text \<open>\<open>while (*d) d++;\<close>\<close>

partial_function (option) find_end :: "memory \<Rightarrow> u64 \<Rightarrow> u64 option" where
  "find_end m d = (if m d = 0 then Some d else find_end m (d + 1))"

definition strcat :: "u64 \<Rightarrow> u64 \<Rightarrow> memory \<Rightarrow> (u64 \<times> memory) option" where
  "strcat dest src m = (case find_end m dest of
     None \<Rightarrow> None
   | Some d \<Rightarrow> map_option (Pair dest) (strcpy_loop d src m))"

definition strlen :: "u64 \<Rightarrow> memory \<Rightarrow> u64 option" where
  "strlen s m = map_option (\<lambda>sc. sc - s) (find_end m s)"

partial_function (option) strcmp_loop :: "memory \<Rightarrow> u64 \<Rightarrow> u64 \<Rightarrow> int option" where
  "strcmp_loop m s1 s2 =
     (if m s1 \<noteq> 0 \<and> m s1 = m s2 then strcmp_loop m (s1 + 1) (s2 + 1)
      else Some (uint (m s1) - uint (m s2)))"

definition strcmp :: "u64 \<Rightarrow> u64 \<Rightarrow> memory \<Rightarrow> int option" where
  "strcmp s1 s2 m = strcmp_loop m s1 s2"

text \<open>The do-while loop of \<open>strncmp\<close> with \<open>n\<close> characters left to compare.\<close>

fun strncmp_loop :: "memory \<Rightarrow> u64 \<Rightarrow> u64 \<Rightarrow> nat \<Rightarrow> int" where
  "strncmp_loop m s1 s2 0 = 0"
| "strncmp_loop m s1 s2 (Suc n) =
     (if m s1 \<noteq> m s2 then uint (m s1) - uint (m s2)
      else if m s1 = 0 then 0
      else strncmp_loop m (s1 + 1) (s2 + 1) n)"

definition strncmp :: "u64 \<Rightarrow> u64 \<Rightarrow> u64 \<Rightarrow> memory \<Rightarrow> int" where
  "strncmp s1 s2 n m = (if n = 0 then 0 else strncmp_loop m s1 s2 (unat n))"

text \<open>
  \<open>char\<close> is signed on this target: \<open>*s == c\<close> compares the sign-extended byte with the
  \<open>int\<close> argument.
\<close>

partial_function (option) strrchr_loop ::
  "memory \<Rightarrow> u64 \<Rightarrow> int \<Rightarrow> u64 \<Rightarrow> (u64 \<times> u64) option" where
  "strrchr_loop m s c found =
     (if m s = 0 then Some (s, found)
      else strrchr_loop m (s + 1) c (if sint (m s) = c then s else found))"

definition strrchr :: "u64 \<Rightarrow> 32 word \<Rightarrow> memory \<Rightarrow> u64 option" where
  "strrchr s c m =
     (let c' = uint (ucast c :: u8)
      in map_option (\<lambda>(e, found). if c' = 0 then e else found) (strrchr_loop m s c' NULL))"

partial_function (option) strchr_loop :: "memory \<Rightarrow> u64 \<Rightarrow> int \<Rightarrow> u64 option" where
  "strchr_loop m s c =
     (if m s = 0 then Some (if c = 0 then s else NULL)
      else if sint (m s) = c then Some s
      else strchr_loop m (s + 1) c)"

definition strchr :: "u64 \<Rightarrow> int \<Rightarrow> memory \<Rightarrow> u64 option" where
  "strchr s c m = strchr_loop m s c"

section \<open>Tokens\<close>

text \<open>\<open>while (*str && strchr(delim, *str)) str++\<close> and its negation.\<close>

partial_function (option) skip_delim :: "memory \<Rightarrow> u64 \<Rightarrow> u64 \<Rightarrow> u64 option" where
  "skip_delim m delim str =
     (if m str = 0 then Some str
      else case strchr delim (sint (m str)) m of
             None \<Rightarrow> None
           | Some p \<Rightarrow> if p \<noteq> NULL then skip_delim m delim (str + 1) else Some str)"

partial_function (option) skip_token :: "memory \<Rightarrow> u64 \<Rightarrow> u64 \<Rightarrow> u64 option" where
  "skip_token m delim str =
     (if m str = 0 then Some str
      else case strchr delim (sint (m str)) m of
             None \<Rightarrow> None
           | Some p \<Rightarrow> if p = NULL then skip_token m delim (str + 1) else Some str)"

text \<open>The result is the token, the new \<open>*saveptr\<close> and the memory.\<close>

definition strtok_r ::
  "u64 \<Rightarrow> u64 \<Rightarrow> u64 \<Rightarrow> memory \<Rightarrow> (u64 \<times> u64 \<times> memory) option" where
  "strtok_r str delim saveptr m =
     (let str = (if str = NULL then saveptr else str)
      in case skip_delim m delim str of
           None \<Rightarrow> None
         | Some token_start \<Rightarrow>
             if m token_start = 0 then Some (NULL, token_start, m)
             else case skip_token m delim token_start of
                    None \<Rightarrow> None
                  | Some e \<Rightarrow> if m e = 0 then Some (token_start, e, m)
                              else Some (token_start, e + 1, m(e := 0)))"

text \<open>The inner loops of \<open>strspn\<close> and \<open>strpbrk\<close>: does \<open>accept\<close> contain the character?\<close>

partial_function (option) in_accept :: "memory \<Rightarrow> u8 \<Rightarrow> u64 \<Rightarrow> bool option" where
  "in_accept m c a =
     (if m a = 0 then Some False else if c = m a then Some True else in_accept m c (a + 1))"

partial_function (option) strspn_loop :: "memory \<Rightarrow> u64 \<Rightarrow> u64 \<Rightarrow> u64 option" where
  "strspn_loop m accept p =
     (if m p = 0 then Some p
      else case in_accept m (m p) accept of
             None \<Rightarrow> None
           | Some b \<Rightarrow> if b then strspn_loop m accept (p + 1) else Some p)"

definition strspn :: "u64 \<Rightarrow> u64 \<Rightarrow> memory \<Rightarrow> u64 option" where
  "strspn s accept m = map_option (\<lambda>p. p - s) (strspn_loop m accept s)"

partial_function (option) strpbrk_loop :: "memory \<Rightarrow> u64 \<Rightarrow> u64 \<Rightarrow> u64 option" where
  "strpbrk_loop m accept s =
     (if m s = 0 then Some NULL
      else case in_accept m (m s) accept of
             None \<Rightarrow> None
           | Some b \<Rightarrow> if b then Some s else strpbrk_loop m accept (s + 1))"

definition strpbrk :: "u64 \<Rightarrow> u64 \<Rightarrow> memory \<Rightarrow> u64 option" where
  "strpbrk s accept m = strpbrk_loop m accept s"

end
