(* ===== verification/VMM.thy ===== *)
theory VMM
  imports PMM Strings
begin

text \<open>
  The virtual memory manager, \<open>src/kernel/src/memory/vmm.c\<close> and \<open>vmm.h\<close>: the four-level page
  tables of x86-64, walked and changed through the higher half direct map (HHDM).

  \<^item> \<open>mem\<close> is physical memory. The bootloader maps all of it at \<open>hhdm_offset\<close>, so an access
    through a pointer that \<open>phys_to_virt\<close> made goes to the physical address \<open>ptr - hhdm_offset\<close>
    (\<open>ld64\<close>, \<open>st64\<close>, \<open>hhdm_memset\<close>).
  \<^item> The one access through another pointer is the \<open>memset\<close> of \<open>create_page_table\<close>, which uses a
    physical address as a virtual one. Where it goes depends on the processor's translation, the
    parameter \<open>mmu\<close>; if the address is not mapped the page fault handler stops the machine,
    which is the result \<open>None\<close>.
  \<^item> The physical memory manager's state is part of this state; TLB maintenance is a log of events.
\<close>

section \<open>Constants\<close>

definition PAGE_SIZE_4K :: u64 where "PAGE_SIZE_4K = 0x1000"
definition PAGE_SIZE_2M :: u64 where "PAGE_SIZE_2M = 0x200000"

definition PAGE_PRESENT :: u64 where "PAGE_PRESENT = push_bit 0 1"
definition PAGE_WRITABLE :: u64 where "PAGE_WRITABLE = push_bit 1 1"
definition PAGE_USER :: u64 where "PAGE_USER = push_bit 2 1"
definition PAGE_WRITETHROUGH :: u64 where "PAGE_WRITETHROUGH = push_bit 3 1"
definition PAGE_CACHE_DISABLE :: u64 where "PAGE_CACHE_DISABLE = push_bit 4 1"
definition PAGE_HUGE :: u64 where "PAGE_HUGE = push_bit 7 1"
definition PAGE_GLOBAL :: u64 where "PAGE_GLOBAL = push_bit 8 1"
definition PAGE_NO_EXECUTE :: u64 where "PAGE_NO_EXECUTE = push_bit 63 1"

definition VMM_FLAG_PRESENT :: u64 where "VMM_FLAG_PRESENT = push_bit 0 1"
definition VMM_FLAG_WRITABLE :: u64 where "VMM_FLAG_WRITABLE = push_bit 1 1"
definition VMM_FLAG_USER :: u64 where "VMM_FLAG_USER = push_bit 2 1"
definition VMM_FLAG_WRITETHROUGH :: u64 where "VMM_FLAG_WRITETHROUGH = push_bit 3 1"
definition VMM_FLAG_NOCACHE :: u64 where "VMM_FLAG_NOCACHE = push_bit 4 1"
definition VMM_FLAG_GLOBAL :: u64 where "VMM_FLAG_GLOBAL = push_bit 8 1"
definition VMM_FLAG_NO_EXECUTE :: u64 where "VMM_FLAG_NO_EXECUTE = push_bit 9 1"
definition VMM_FLAG_HUGE :: u64 where "VMM_FLAG_HUGE = push_bit 10 1"

definition PAGE_ADDR_MASK :: u64 where "PAGE_ADDR_MASK = NOT 0xFFF"

definition MAX_MEMORY_AREAS :: nat where "MAX_MEMORY_AREAS = 32"

definition PML4_INDEX :: "u64 \<Rightarrow> u64" where "PML4_INDEX addr = drop_bit 39 addr AND 0x1FF"
definition PDPT_INDEX :: "u64 \<Rightarrow> u64" where "PDPT_INDEX addr = drop_bit 30 addr AND 0x1FF"
definition PD_INDEX :: "u64 \<Rightarrow> u64" where "PD_INDEX addr = drop_bit 21 addr AND 0x1FF"
definition PT_INDEX :: "u64 \<Rightarrow> u64" where "PT_INDEX addr = drop_bit 12 addr AND 0x1FF"

section \<open>State\<close>

record vmm_config_t =
  kernel_pml4 :: u64
  kernel_virtual_base :: u64
  kernel_virtual_size :: u64
  using_nx :: bool
  cfg_hhdm_offset :: u64

record vmm_memory_region_t =
  region_base :: u64
  region_size :: u64
  region_flags :: u32
  is_used :: bool

datatype tlb_event = Invlpg u64 | Write_cr3 u64

record vmm_state =
  pmm :: pmm_state
  mem :: memory
  cr3 :: u64
  tlb_log :: "tlb_event list"
  fault_handler :: bool
  vmm_config :: vmm_config_t
  hhdm_offset :: u64
  kernel_phys_base :: u64
  kernel_virt_base :: u64
  current_pml4_phys :: u64
  user_areas :: "vmm_memory_region_t list"
  kernel_areas :: "vmm_memory_region_t list"
  user_area_count :: nat
  kernel_area_count :: nat
  pages_allocated :: u64
  pages_freed :: u64

section \<open>Memory and processor accesses\<close>

text \<open>\<open>table[idx]\<close> for a \<open>uint64_t *\<close> in the direct map.\<close>

definition entry_pa :: "vmm_state \<Rightarrow> u64 \<Rightarrow> u64 \<Rightarrow> u64" where
  "entry_pa s table idx = table + 8 * idx - hhdm_offset s"

definition ld64 :: "vmm_state \<Rightarrow> u64 \<Rightarrow> u64 \<Rightarrow> u64" where
  "ld64 s table idx = read64 (mem s) (entry_pa s table idx)"

definition st64 :: "u64 \<Rightarrow> u64 \<Rightarrow> u64 \<Rightarrow> vmm_state \<Rightarrow> vmm_state" where
  "st64 table idx v s = s\<lparr>mem := write64 (mem s) (entry_pa s table idx) v\<rparr>"

definition hhdm_memset :: "u64 \<Rightarrow> 32 word \<Rightarrow> u64 \<Rightarrow> vmm_state \<Rightarrow> vmm_state" where
  "hhdm_memset ptr c n s = s\<lparr>mem := snd (memset (ptr - hhdm_offset s) c n (mem s))\<rparr>"

definition invlpg :: "u64 \<Rightarrow> vmm_state \<Rightarrow> vmm_state" where
  "invlpg addr s = s\<lparr>tlb_log := tlb_log s @ [Invlpg addr]\<rparr>"

definition write_cr3 :: "u64 \<Rightarrow> vmm_state \<Rightarrow> vmm_state" where
  "write_cr3 v s = s\<lparr>cr3 := v, tlb_log := tlb_log s @ [Write_cr3 v]\<rparr>"

text \<open>Calls of the physical memory manager.\<close>

definition alloc_frame :: "vmm_state \<Rightarrow> u64 \<times> vmm_state" where
  "alloc_frame s = (let (p, q) = pmm_alloc_page (pmm s) in (p, s\<lparr>pmm := q\<rparr>))"

definition free_frame :: "u64 \<Rightarrow> vmm_state \<Rightarrow> vmm_state" where
  "free_frame p s = s\<lparr>pmm := pmm_free_page p (pmm s)\<rparr>"

section \<open>Address translation\<close>

definition phys_to_virt :: "vmm_state \<Rightarrow> u64 \<Rightarrow> u64" where
  "phys_to_virt s phys = (if phys = 0 then NULL else phys + hhdm_offset s)"

definition present :: "u64 \<Rightarrow> bool" where
  "present e \<longleftrightarrow> e AND PAGE_PRESENT \<noteq> 0"

definition huge :: "u64 \<Rightarrow> bool" where
  "huge e \<longleftrightarrow> e AND PAGE_HUGE \<noteq> 0"

definition virt_to_phys :: "vmm_state \<Rightarrow> u64 \<Rightarrow> u64" where
  "virt_to_phys s addr =
     (if hhdm_offset s \<le> addr then addr - hhdm_offset s
      else
      let pml4_idx = PML4_INDEX addr; pdpt_idx = PDPT_INDEX addr;
          pd_idx = PD_INDEX addr; pt_idx = PT_INDEX addr;
          pml4 = phys_to_virt s (current_pml4_phys s)
      in if pml4 = NULL \<or> \<not> present (ld64 s pml4 pml4_idx) then 0
      else
      let pdpt = phys_to_virt s (ld64 s pml4 pml4_idx AND PAGE_ADDR_MASK)
      in if pdpt = NULL \<or> \<not> present (ld64 s pdpt pdpt_idx) then 0
      else if huge (ld64 s pdpt pdpt_idx)
        then (ld64 s pdpt pdpt_idx AND PAGE_ADDR_MASK) + (addr AND 0x3FFFFFFF)
      else
      let pd = phys_to_virt s (ld64 s pdpt pdpt_idx AND PAGE_ADDR_MASK)
      in if pd = NULL \<or> \<not> present (ld64 s pd pd_idx) then 0
      else if huge (ld64 s pd pd_idx)
        then (ld64 s pd pd_idx AND PAGE_ADDR_MASK) + (addr AND 0x1FFFFF)
      else
      let pt = phys_to_virt s (ld64 s pd pd_idx AND PAGE_ADDR_MASK)
      in if pt = NULL \<or> \<not> present (ld64 s pt pt_idx) then 0
      else (ld64 s pt pt_idx AND PAGE_ADDR_MASK) + (addr AND 0xFFF))"

text \<open>
  The result is the value of \<open>phys_addr\<close>, \<open>0\<close> when no page was allocated. \<open>mmu\<close> translates a
  virtual address the way the processor does in a given state.
\<close>

definition create_page_table ::
  "(vmm_state \<Rightarrow> u64 \<Rightarrow> u64 option) \<Rightarrow> vmm_state \<Rightarrow> (u64 \<times> vmm_state) option" where
  "create_page_table mmu s =
     (let (page, s1) = alloc_frame s
      in if page = NULL then Some (0, s1)
         else let phys_addr = virt_to_phys s1 page
              in case mmu s1 page of
                   None \<Rightarrow> None
                 | Some pa \<Rightarrow>
                     Some (phys_addr, s1\<lparr>mem := snd (memset pa 0 PAGE_SIZE_4K (mem s1))\<rparr>))"

section \<open>Memory areas\<close>

definition register_memory_area ::
  "vmm_memory_region_t list \<Rightarrow> nat \<Rightarrow> u64 \<Rightarrow> u64 \<Rightarrow> u32 \<Rightarrow> vmm_memory_region_t list \<times> nat" where
  "register_memory_area areas count base sz flags =
     (if MAX_MEMORY_AREAS \<le> count then (areas, count)
      else (areas[count := \<lparr>region_base = base, region_size = sz, region_flags = flags,
              is_used = False\<rparr>], count + 1))"

text \<open>\<open>find_free_area\<close>: the index of the area the C function points to, from index \<open>i\<close> on.\<close>

function find_area :: "vmm_memory_region_t list \<Rightarrow> nat \<Rightarrow> u64 \<Rightarrow> nat \<Rightarrow> nat option" where
  "find_area areas count sz i =
     (if i < count
      then (if \<not> is_used (areas ! i) \<and> sz \<le> region_size (areas ! i) then Some i
            else find_area areas count sz (Suc i))
      else None)"
  by pat_completeness auto
termination
  by (relation "measure (\<lambda>(areas, count, sz, i). count - i)") auto

declare find_area.simps [simp del]

definition find_free_area :: "vmm_memory_region_t list \<Rightarrow> nat \<Rightarrow> u64 \<Rightarrow> u32 \<Rightarrow> nat option" where
  "find_free_area areas count sz flags = find_area areas count sz 0"

section \<open>Mapping one page\<close>

text \<open>
  The block \<open>map_page_internal\<close> repeats at each level: unless \<open>table[idx]\<close> is present, a new table
  is created and entered.
\<close>

definition ensure_table_internal ::
  "(vmm_state \<Rightarrow> u64 \<Rightarrow> u64 option) \<Rightarrow> u64 \<Rightarrow> u64 \<Rightarrow> u64 \<Rightarrow> vmm_state \<Rightarrow> (bool \<times> vmm_state) option" where
  "ensure_table_internal mmu table idx virt s =
     (if present (ld64 s table idx) then Some (True, s)
      else case create_page_table mmu s of
             None \<Rightarrow> None
           | Some (p, s1) \<Rightarrow>
               if p = 0 then Some (False, s1)
               else (let s2 = st64 table idx (p OR PAGE_PRESENT OR PAGE_WRITABLE) s1
                     in Some (True, if virt < 0x8000000000000000
                          then st64 table idx (ld64 s2 table idx OR PAGE_USER) s2 else s2)))"

definition map_page_internal ::
  "(vmm_state \<Rightarrow> u64 \<Rightarrow> u64 option) \<Rightarrow> u64 \<Rightarrow> u64 \<Rightarrow> u64 \<Rightarrow> u64 \<Rightarrow> vmm_state
     \<Rightarrow> (bool \<times> vmm_state) option" where
  "map_page_internal mmu pml4_phys virt phys flags s =
     (if pml4_phys = 0 \<or> virt = 0 \<or> phys = 0 then Some (False, s)
      else if virt AND PAGE_ADDR_MASK = 0 then Some (False, s)
      else
      let virt = virt AND PAGE_ADDR_MASK; phys = phys AND PAGE_ADDR_MASK;
          pml4 = phys_to_virt s pml4_phys
      in if pml4 = NULL then Some (False, s)
      else
      let pml4_idx = PML4_INDEX virt; pdpt_idx = PDPT_INDEX virt;
          pd_idx = PD_INDEX virt; pt_idx = PT_INDEX virt
      in case ensure_table_internal mmu pml4 pml4_idx virt s of
        None \<Rightarrow> None
      | Some (ok1, s1) \<Rightarrow>
      if \<not> ok1 then Some (False, s1)
      else
      let pdpt = phys_to_virt s1 (ld64 s1 pml4 pml4_idx AND PAGE_ADDR_MASK)
      in if pdpt = NULL then Some (False, s1)
      else if flags AND PAGE_HUGE \<noteq> 0 \<and> virt AND 0x3FFFFFFF = 0 \<and> phys AND 0x3FFFFFFF = 0
        then Some (True, invlpg virt (st64 pdpt pdpt_idx (phys OR flags OR PAGE_HUGE) s1))
      else (case ensure_table_internal mmu pdpt pdpt_idx virt s1 of
        None \<Rightarrow> None
      | Some (ok2, s2) \<Rightarrow>
      if \<not> ok2 then Some (False, s2)
      else
      let pd = phys_to_virt s2 (ld64 s2 pdpt pdpt_idx AND PAGE_ADDR_MASK)
      in if pd = NULL then Some (False, s2)
      else if flags AND PAGE_HUGE \<noteq> 0 \<and> virt AND 0x1FFFFF = 0 \<and> phys AND 0x1FFFFF = 0
        then Some (True, invlpg virt (st64 pd pd_idx (phys OR flags OR PAGE_HUGE) s2))
      else (case ensure_table_internal mmu pd pd_idx virt s2 of
        None \<Rightarrow> None
      | Some (ok3, s3) \<Rightarrow>
      if \<not> ok3 then Some (False, s3)
      else
      let pt = phys_to_virt s3 (ld64 s3 pd pd_idx AND PAGE_ADDR_MASK)
      in if pt = NULL then Some (False, s3)
      else Some (True, invlpg virt (st64 pt pt_idx (phys OR flags) s3)))))"

text \<open>Lines 437 to 444 of \<open>vmm_map_page\<close>: the hardware flags of an entry.\<close>

definition hw_flags :: "vmm_state \<Rightarrow> u64 \<Rightarrow> u64" where
  "hw_flags s flags =
     PAGE_PRESENT
     OR (if flags AND VMM_FLAG_WRITABLE \<noteq> 0 then PAGE_WRITABLE else 0)
     OR (if flags AND VMM_FLAG_USER \<noteq> 0 then PAGE_USER else 0)
     OR (if flags AND VMM_FLAG_WRITETHROUGH \<noteq> 0 then PAGE_WRITETHROUGH else 0)
     OR (if flags AND VMM_FLAG_NOCACHE \<noteq> 0 then PAGE_CACHE_DISABLE else 0)
     OR (if flags AND VMM_FLAG_GLOBAL \<noteq> 0 then PAGE_GLOBAL else 0)
     OR (if flags AND VMM_FLAG_HUGE \<noteq> 0 then PAGE_HUGE else 0)
     OR (if flags AND VMM_FLAG_NO_EXECUTE \<noteq> 0 \<and> using_nx (vmm_config s)
         then PAGE_NO_EXECUTE else 0)"

text \<open>
  The block \<open>vmm_map_page\<close> repeats at each level. It differs from the one of
  \<open>map_page_internal\<close>: the new table is cleared through the direct map.
\<close>

definition ensure_table :: "u64 \<Rightarrow> u64 \<Rightarrow> u64 \<Rightarrow> vmm_state \<Rightarrow> bool \<times> vmm_state" where
  "ensure_table table idx virt_addr s =
     (if present (ld64 s table idx) then (True, s)
      else let (p, s1) = alloc_frame s
           in if p = 0 then (False, s1)
              else let s2 = hhdm_memset (phys_to_virt s1 p) 0 PAGE_SIZE_4K s1;
                       s3 = st64 table idx (p OR PAGE_PRESENT OR PAGE_WRITABLE) s2
                   in (True, if virt_addr < 0x8000000000000000
                        then st64 table idx (ld64 s3 table idx OR PAGE_USER) s3 else s3))"

definition vmm_map_page :: "u64 \<Rightarrow> u64 \<Rightarrow> u64 \<Rightarrow> vmm_state \<Rightarrow> bool \<times> vmm_state" where
  "vmm_map_page virt_addr phys_addr flags s =
     (if virt_addr = 0 then (False, s)
      else if phys_addr = 0 then (False, s)
      else
      let virt_addr = virt_addr AND PAGE_ADDR_MASK; phys_addr = phys_addr AND PAGE_ADDR_MASK;
          pml4 = phys_to_virt s (current_pml4_phys s)
      in if pml4 = NULL then (False, s)
      else
      let pml4_idx = PML4_INDEX virt_addr; pdpt_idx = PDPT_INDEX virt_addr;
          pd_idx = PD_INDEX virt_addr; pt_idx = PT_INDEX virt_addr;
          hw = hw_flags s flags;
          (ok1, s1) = ensure_table pml4 pml4_idx virt_addr s
      in if \<not> ok1 then (False, s1)
      else
      let pdpt = phys_to_virt s1 (ld64 s1 pml4 pml4_idx AND PAGE_ADDR_MASK)
      in if pdpt = NULL then (False, s1)
      else
      let (ok2, s2) = ensure_table pdpt pdpt_idx virt_addr s1
      in if \<not> ok2 then (False, s2)
      else
      let pd = phys_to_virt s2 (ld64 s2 pdpt pdpt_idx AND PAGE_ADDR_MASK)
      in if pd = NULL then (False, s2)
      else
      let (ok3, s3) = ensure_table pd pd_idx virt_addr s2
      in if \<not> ok3 then (False, s3)
      else
      let pt = phys_to_virt s3 (ld64 s3 pd pd_idx AND PAGE_ADDR_MASK)
      in if pt = NULL then (False, s3)
      else (True, invlpg virt_addr (st64 pt pt_idx (phys_addr OR hw) s3)))"

section \<open>Unmapping one page\<close>

definition vmm_unmap_page :: "u64 \<Rightarrow> vmm_state \<Rightarrow> bool \<times> vmm_state" where
  "vmm_unmap_page virt_addr s =
     (if virt_addr = 0 then (False, s)
      else
      let virt_addr = virt_addr AND PAGE_ADDR_MASK;
          pml4 = phys_to_virt s (current_pml4_phys s)
      in if pml4 = NULL then (False, s)
      else
      let pml4_idx = PML4_INDEX virt_addr; pdpt_idx = PDPT_INDEX virt_addr;
          pd_idx = PD_INDEX virt_addr; pt_idx = PT_INDEX virt_addr
      in if \<not> present (ld64 s pml4 pml4_idx) then (False, s)
      else
      let pdpt = phys_to_virt s (ld64 s pml4 pml4_idx AND PAGE_ADDR_MASK)
      in if pdpt = NULL then (False, s)
      else if \<not> present (ld64 s pdpt pdpt_idx) then (False, s)
      else if huge (ld64 s pdpt pdpt_idx) then (True, invlpg virt_addr (st64 pdpt pdpt_idx 0 s))
      else
      let pd = phys_to_virt s (ld64 s pdpt pdpt_idx AND PAGE_ADDR_MASK)
      in if pd = NULL then (False, s)
      else if \<not> present (ld64 s pd pd_idx) then (False, s)
      else if huge (ld64 s pd pd_idx) then (True, invlpg virt_addr (st64 pd pd_idx 0 s))
      else
      let pt = phys_to_virt s (ld64 s pd pd_idx AND PAGE_ADDR_MASK)
      in if pt = NULL then (False, s)
      else if \<not> present (ld64 s pt pt_idx) then (False, s)
      else (True, invlpg virt_addr (st64 pt pt_idx 0 s)))"

section \<open>Ranges of pages\<close>

text \<open>\<open>for (j = 0; j < n; j++) vmm_unmap_page(virt + j * step)\<close>\<close>

fun unmap_loop :: "u64 \<Rightarrow> u64 \<Rightarrow> nat \<Rightarrow> vmm_state \<Rightarrow> vmm_state" where
  "unmap_loop virt step 0 s = s"
| "unmap_loop virt step (Suc n) s =
     snd (vmm_unmap_page (virt + of_nat n * step) (unmap_loop virt step n s))"

text \<open>
  The mapping loops with \<open>k\<close> pages left from index \<open>i\<close> on: a page that cannot be mapped undoes the
  \<open>i\<close> pages before it.
\<close>

fun map_loop :: "u64 \<Rightarrow> u64 \<Rightarrow> u64 \<Rightarrow> u64 \<Rightarrow> nat \<Rightarrow> nat \<Rightarrow> vmm_state \<Rightarrow> bool \<times> vmm_state" where
  "map_loop virt phys step flags 0 i s = (True, s)"
| "map_loop virt phys step flags (Suc k) i s =
     (let (ok, s1) = vmm_map_page (virt + of_nat i * step) (phys + of_nat i * step) flags s
      in if ok then map_loop virt phys step flags k (Suc i) s1
         else (False, unmap_loop virt step i s1))"

definition vmm_map_pages :: "u64 \<Rightarrow> u64 \<Rightarrow> u64 \<Rightarrow> u64 \<Rightarrow> vmm_state \<Rightarrow> bool \<times> vmm_state" where
  "vmm_map_pages virt_addr phys_addr count flags s =
     (if flags AND VMM_FLAG_HUGE \<noteq> 0 \<and> virt_addr AND 0x1FFFFF = 0 \<and> phys_addr AND 0x1FFFFF = 0
         \<and> 512 \<le> count
      then
      let huge_pages = count div 512; remaining = count mod 512;
          (ok, s1) = map_loop virt_addr phys_addr PAGE_SIZE_2M flags (unat huge_pages) 0 s
      in if \<not> ok then (False, s1)
      else if 0 < remaining
      then let start_virt = virt_addr + huge_pages * PAGE_SIZE_2M;
               start_phys = phys_addr + huge_pages * PAGE_SIZE_2M;
               (ok, s2) = map_loop start_virt start_phys PAGE_SIZE_4K (flags AND NOT VMM_FLAG_HUGE)
                            (unat remaining) 0 s1
           in if ok then (True, s2)
              else (False, unmap_loop virt_addr PAGE_SIZE_2M (unat huge_pages) s2)
      else (True, s1)
      else map_loop virt_addr phys_addr PAGE_SIZE_4K (flags AND NOT VMM_FLAG_HUGE) (unat count) 0 s)"

definition vmm_unmap_pages :: "u64 \<Rightarrow> u64 \<Rightarrow> vmm_state \<Rightarrow> bool \<times> vmm_state" where
  "vmm_unmap_pages virt_addr count s = (True, unmap_loop virt_addr PAGE_SIZE_4K (unat count) s)"

section \<open>Queries\<close>

definition vmm_get_physical_address :: "vmm_state \<Rightarrow> u64 \<Rightarrow> u64" where
  "vmm_get_physical_address s virt_addr = virt_to_phys s virt_addr"

definition vmm_is_mapped :: "vmm_state \<Rightarrow> u64 \<Rightarrow> bool" where
  "vmm_is_mapped s virt_addr =
     (if hhdm_offset s \<le> virt_addr then True
      else
      let pml4_idx = PML4_INDEX virt_addr; pdpt_idx = PDPT_INDEX virt_addr;
          pd_idx = PD_INDEX virt_addr; pt_idx = PT_INDEX virt_addr;
          pml4 = phys_to_virt s (current_pml4_phys s)
      in if pml4 = NULL \<or> \<not> present (ld64 s pml4 pml4_idx) then False
      else
      let pdpt = phys_to_virt s (ld64 s pml4 pml4_idx AND PAGE_ADDR_MASK)
      in if pdpt = NULL \<or> \<not> present (ld64 s pdpt pdpt_idx) then False
      else if huge (ld64 s pdpt pdpt_idx) then True
      else
      let pd = phys_to_virt s (ld64 s pdpt pdpt_idx AND PAGE_ADDR_MASK)
      in if pd = NULL \<or> \<not> present (ld64 s pd pd_idx) then False
      else if huge (ld64 s pd pd_idx) then True
      else
      let pt = phys_to_virt s (ld64 s pd pd_idx AND PAGE_ADDR_MASK)
      in if pt = NULL \<or> \<not> present (ld64 s pt pt_idx) then False
      else True)"

section \<open>Address spaces\<close>

text \<open>\<open>for (i = 256; i < 512; i++) new_pml4[i] = src_pml4[i]\<close>\<close>

definition copy_kernel_half :: "u64 \<Rightarrow> u64 \<Rightarrow> vmm_state \<Rightarrow> vmm_state" where
  "copy_kernel_half new_pml4 src_pml4 s =
     fold (\<lambda>i s. st64 new_pml4 (of_nat i) (ld64 s src_pml4 (of_nat i)) s) [256..<512] s"

definition vmm_create_address_space ::
  "(vmm_state \<Rightarrow> u64 \<Rightarrow> u64 option) \<Rightarrow> vmm_state \<Rightarrow> (u64 \<times> vmm_state) option" where
  "vmm_create_address_space mmu s = (case create_page_table mmu s of
     None \<Rightarrow> None
   | Some (pml4_phys, s1) \<Rightarrow>
       if pml4_phys = 0 then Some (0, s1)
       else let src_pml4 = phys_to_virt s1 (current_pml4_phys s1);
                new_pml4 = phys_to_virt s1 pml4_phys
            in Some (pml4_phys, copy_kernel_half new_pml4 src_pml4 s1))"

text \<open>The three nested loops of \<open>vmm_delete_address_space\<close>, from the innermost out.\<close>

definition free_pd :: "u64 \<Rightarrow> vmm_state \<Rightarrow> vmm_state" where
  "free_pd pd_phys s =
     (let pd = phys_to_virt s pd_phys
      in free_frame pd_phys
           (fold (\<lambda>pd_idx s.
                    let e = ld64 s pd (of_nat pd_idx)
                    in if present e \<and> \<not> huge e then free_frame (e AND PAGE_ADDR_MASK) s else s)
              [0..<512] s))"

definition free_pdpt :: "u64 \<Rightarrow> vmm_state \<Rightarrow> vmm_state" where
  "free_pdpt pdpt_phys s =
     (let pdpt = phys_to_virt s pdpt_phys
      in free_frame pdpt_phys
           (fold (\<lambda>pdpt_idx s.
                    let e = ld64 s pdpt (of_nat pdpt_idx)
                    in if present e \<and> \<not> huge e then free_pd (e AND PAGE_ADDR_MASK) s else s)
              [0..<512] s))"

definition vmm_delete_address_space :: "u64 \<Rightarrow> vmm_state \<Rightarrow> vmm_state" where
  "vmm_delete_address_space pml4_phys s =
     (if pml4_phys = 0 \<or> pml4_phys = current_pml4_phys s then s
      else let pml4 = phys_to_virt s pml4_phys
           in free_frame pml4_phys
                (fold (\<lambda>pml4_idx s.
                         let e = ld64 s pml4 (of_nat pml4_idx)
                         in if present e then free_pdpt (e AND PAGE_ADDR_MASK) s else s)
                   [0..<256] s))"

definition vmm_switch_address_space :: "u64 \<Rightarrow> vmm_state \<Rightarrow> vmm_state" where
  "vmm_switch_address_space pml4_phys s =
     (if pml4_phys = 0 \<or> pml4_phys = current_pml4_phys s then s
      else write_cr3 pml4_phys (s\<lparr>current_pml4_phys := pml4_phys\<rparr>))"

definition vmm_get_current_address_space :: "vmm_state \<Rightarrow> u64" where
  "vmm_get_current_address_space s = current_pml4_phys s"

section \<open>Allocating virtual memory\<close>

text \<open>\<open>(size + PAGE_SIZE_4K - 1) & ~(PAGE_SIZE_4K - 1)\<close>\<close>

definition round_up_page :: "u64 \<Rightarrow> u64" where
  "round_up_page sz = (sz + PAGE_SIZE_4K - 1) AND NOT (PAGE_SIZE_4K - 1)"

text \<open>The choice of the area array by the \<open>USER\<close> flag, and the writes of \<open>is_used\<close>.\<close>

definition areas_of :: "bool \<Rightarrow> vmm_state \<Rightarrow> vmm_memory_region_t list" where
  "areas_of user s = (if user then user_areas s else kernel_areas s)"

definition area_count_of :: "bool \<Rightarrow> vmm_state \<Rightarrow> nat" where
  "area_count_of user s = (if user then user_area_count s else kernel_area_count s)"

definition set_area_used :: "bool \<Rightarrow> nat \<Rightarrow> bool \<Rightarrow> vmm_state \<Rightarrow> vmm_state" where
  "set_area_used user i b s =
     (if user then s\<lparr>user_areas := (user_areas s)[i := (user_areas s ! i)\<lparr>is_used := b\<rparr>]\<rparr>
      else s\<lparr>kernel_areas := (kernel_areas s)[i := (kernel_areas s ! i)\<lparr>is_used := b\<rparr>]\<rparr>)"

text \<open>The clean-up loops: \<open>for (j = 0; j < i; j++)\<close> unmap the page and free its frame.\<close>

fun alloc_cleanup :: "u64 \<Rightarrow> nat \<Rightarrow> vmm_state \<Rightarrow> vmm_state" where
  "alloc_cleanup base 0 s = s"
| "alloc_cleanup base (Suc j) s =
     (let s' = alloc_cleanup base j s;
          addr = base + of_nat j * PAGE_SIZE_4K;
          page_phys = vmm_get_physical_address s' addr
      in free_frame page_phys (snd (vmm_unmap_page addr s')))"

fun alloc_loop :: "u64 \<Rightarrow> u64 \<Rightarrow> nat \<Rightarrow> nat \<Rightarrow> vmm_state \<Rightarrow> bool \<times> vmm_state" where
  "alloc_loop base flags 0 i s = (True, s)"
| "alloc_loop base flags (Suc k) i s =
     (let (phys, s1) = alloc_frame s
      in if phys = NULL then (False, alloc_cleanup base i s1)
         else let (ok, s2) = vmm_map_page (base + of_nat i * PAGE_SIZE_4K) phys flags s1
              in if \<not> ok then (False, alloc_cleanup base i (free_frame phys s2))
                 else alloc_loop base flags k (Suc i)
                        (hhdm_memset (phys_to_virt s2 phys) 0 PAGE_SIZE_4K s2))"

definition vmm_allocate :: "u64 \<Rightarrow> u64 \<Rightarrow> vmm_state \<Rightarrow> u64 \<times> vmm_state" where
  "vmm_allocate sz flags s =
     (if sz = 0 then (NULL, s)
      else
      let sz = round_up_page sz;
          page_count = sz div PAGE_SIZE_4K;
          user = (flags AND VMM_FLAG_USER \<noteq> 0)
      in case find_free_area (areas_of user s) (area_count_of user s) sz (ucast flags) of
           None \<Rightarrow> (NULL, s)
         | Some i \<Rightarrow>
             let area = areas_of user s ! i;
                 s1 = set_area_used user i True s;
                 combined_flags = flags OR ucast (region_flags area);
                 (ok, s2) = alloc_loop (region_base area) combined_flags (unat page_count) 0 s1
             in if ok then (region_base area, s2\<lparr>pages_allocated := pages_allocated s2 + page_count\<rparr>)
                else (NULL, set_area_used user i False s2))"

fun free_pages_loop :: "u64 \<Rightarrow> nat \<Rightarrow> vmm_state \<Rightarrow> vmm_state" where
  "free_pages_loop virt_addr 0 s = s"
| "free_pages_loop virt_addr (Suc n) s =
     (let s' = free_pages_loop virt_addr n s;
          addr = virt_addr + of_nat n * PAGE_SIZE_4K;
          phys_addr = vmm_get_physical_address s' addr
      in if phys_addr \<noteq> 0 then free_frame phys_addr (snd (vmm_unmap_page addr s')) else s')"

text \<open>The search for the area with a given base, from index \<open>i\<close> on.\<close>

function area_with_base :: "vmm_memory_region_t list \<Rightarrow> nat \<Rightarrow> u64 \<Rightarrow> nat \<Rightarrow> nat option" where
  "area_with_base areas count base i =
     (if i < count
      then (if region_base (areas ! i) = base then Some i
            else area_with_base areas count base (Suc i))
      else None)"
  by pat_completeness auto
termination
  by (relation "measure (\<lambda>(areas, count, base, i). count - i)") auto

declare area_with_base.simps [simp del]

definition release_area :: "bool \<Rightarrow> u64 \<Rightarrow> vmm_state \<Rightarrow> vmm_state" where
  "release_area user base s = (case area_with_base (areas_of user s) (area_count_of user s) base 0 of
     None \<Rightarrow> s
   | Some i \<Rightarrow> set_area_used user i False s)"

definition vmm_free :: "u64 \<Rightarrow> u64 \<Rightarrow> vmm_state \<Rightarrow> vmm_state" where
  "vmm_free addr sz s =
     (if addr = NULL \<or> sz = 0 then s
      else
      let page_count = round_up_page sz div PAGE_SIZE_4K;
          s1 = free_pages_loop addr (unat page_count) s;
          s2 = release_area (\<not> hhdm_offset s \<le> addr) addr s1
      in s2\<lparr>pages_freed := pages_freed s2 + page_count\<rparr>)"

section \<open>Mapping physical memory\<close>

text \<open>
  The rounded size is a multiple of the page size, so \<open>for (offset = 0; offset < size;
  offset += PAGE_SIZE_4K)\<close> runs \<open>size / PAGE_SIZE_4K\<close> times.
\<close>

definition vmm_map_physical :: "u64 \<Rightarrow> u64 \<Rightarrow> u64 \<Rightarrow> vmm_state \<Rightarrow> u64 \<times> vmm_state" where
  "vmm_map_physical phys_addr sz flags s =
     (if phys_addr = 0 \<or> sz = 0 then (NULL, s)
      else
      let sz = round_up_page sz
      in if phys_addr < 0x100000000 then (phys_to_virt s phys_addr, s)
      else case find_free_area (kernel_areas s) (kernel_area_count s) sz (ucast flags) of
           None \<Rightarrow> (NULL, s)
         | Some i \<Rightarrow>
             let virt_addr = region_base (kernel_areas s ! i);
                 s1 = set_area_used False i True s;
                 (ok, s2) = map_loop virt_addr phys_addr PAGE_SIZE_4K flags
                              (unat (sz div PAGE_SIZE_4K)) 0 s1
             in if ok then (virt_addr, s2) else (NULL, set_area_used False i False s2))"

definition vmm_unmap_physical :: "u64 \<Rightarrow> u64 \<Rightarrow> vmm_state \<Rightarrow> vmm_state" where
  "vmm_unmap_physical virt_addr sz s =
     (if virt_addr = NULL \<or> sz = 0 then s
      else if hhdm_offset s \<le> virt_addr \<and> virt_addr < hhdm_offset s + 0x100000000 then s
      else
      let sz = round_up_page sz
      in release_area False virt_addr
           (unmap_loop virt_addr PAGE_SIZE_4K (unat (sz div PAGE_SIZE_4K)) s))"

section \<open>Faults, TLB and configuration\<close>

definition vmm_handle_page_fault :: "u64 \<Rightarrow> u32 \<Rightarrow> bool" where
  "vmm_handle_page_fault fault_addr error_code = False"

definition vmm_flush_tlb_page :: "u64 \<Rightarrow> vmm_state \<Rightarrow> vmm_state" where
  "vmm_flush_tlb_page virt_addr s = invlpg virt_addr s"

definition vmm_flush_tlb_full :: "vmm_state \<Rightarrow> vmm_state" where
  "vmm_flush_tlb_full s = write_cr3 (cr3 s) s"

definition vmm_get_config :: "vmm_state \<Rightarrow> vmm_config_t" where
  "vmm_get_config s = vmm_config s"

definition hex_digits :: string where
  "hex_digits = ''0123456789ABCDEF''"

text \<open>\<open>for (i = 16; i > 1; i--)\<close> from index \<open>i\<close> down.\<close>

fun hex_loop :: "nat \<Rightarrow> u64 \<Rightarrow> string \<Rightarrow> string" where
  "hex_loop 0 value buffer = buffer"
| "hex_loop (Suc i) value buffer =
     (if 1 < Suc i
      then hex_loop i (drop_bit 4 value) (buffer[Suc i := hex_digits ! unat (value AND 0xF)])
      else buffer)"

definition uint64_to_hex :: "u64 \<Rightarrow> string \<Rightarrow> string" where
  "uint64_to_hex value buffer =
     (hex_loop 16 value (buffer[0 := CHR ''0'', 1 := CHR ''x'']))[17 := CHR 0x00]"

section \<open>Initialisation\<close>

text \<open>
  The bootloader's answers are \<open>None\<close> when the request has no response; \<open>edx\<close> is what
  \<open>cpuid\<close> reports for leaf 0x80000001. \<open>idt_register_handler(14, page_fault_handler)\<close> is the
  flag \<open>fault_handler\<close>.
\<close>

definition vmm_init :: "u64 option \<Rightarrow> (u64 \<times> u64) option \<Rightarrow> u32 \<Rightarrow> vmm_state \<Rightarrow> vmm_state" where
  "vmm_init hhdm_response kernel_addr_response edx s =
     (let hhdm = (case hhdm_response of Some off \<Rightarrow> off | None \<Rightarrow> 0xffff800000000000);
          (phys_base, virt_base) = (case kernel_addr_response of
              Some (p, v) \<Rightarrow> (p, v) | None \<Rightarrow> (0x100000, hhdm + 0x100000));
          (kareas, kcount) = register_memory_area (kernel_areas s) (kernel_area_count s)
              (hhdm + 0x10000000) 0x10000000 (ucast (VMM_FLAG_PRESENT OR VMM_FLAG_WRITABLE));
          (uareas, ucount) = register_memory_area (user_areas s) (user_area_count s)
              0x400000 0x10000000
              (ucast (VMM_FLAG_PRESENT OR VMM_FLAG_WRITABLE OR VMM_FLAG_USER))
      in s\<lparr>hhdm_offset := hhdm, kernel_phys_base := phys_base, kernel_virt_base := virt_base,
           current_pml4_phys := cr3 s,
           vmm_config := \<lparr>kernel_pml4 = cr3 s, kernel_virtual_base = virt_base,
              kernel_virtual_size = 0x10000000, using_nx = (edx AND push_bit 20 1 \<noteq> 0),
              cfg_hhdm_offset = hhdm\<rparr>,
           fault_handler := True,
           kernel_areas := kareas, kernel_area_count := kcount,
           user_areas := uareas, user_area_count := ucount\<rparr>)"

end
