(* ===== verification/CPU_Access.thy ===== *)
theory CPU_Access
  imports VMM
begin

text \<open>
  Accesses through a kernel pointer. The loader and the scheduler use the physical addresses that
  \<open>pmm_alloc_pages\<close> returns as pointers, so where such an access goes is decided by the processor's
  translation, the parameter \<open>mmu\<close> (\<open>mmu s a\<close> is the physical address of the byte at \<open>a\<close> in
  state \<open>s\<close>, \<open>None\<close> if it is not mapped). An access to an address that is not mapped ends in the
  page fault handler, which halts the machine: the result is then \<open>None\<close>.
\<close>

type_synonym mmu = "vmm_state \<Rightarrow> u64 \<Rightarrow> u64 option"

text \<open>The memory as the processor sees it, and that the \<open>n\<close> bytes at \<open>a\<close> are mapped.\<close>

definition cpu_mem :: "mmu \<Rightarrow> vmm_state \<Rightarrow> memory" where
  "cpu_mem mmu s a = (case mmu s a of None \<Rightarrow> 0 | Some p \<Rightarrow> mem s p)"

definition cpu_mapped :: "mmu \<Rightarrow> vmm_state \<Rightarrow> u64 \<Rightarrow> nat \<Rightarrow> bool" where
  "cpu_mapped mmu s a n \<longleftrightarrow> (\<forall>i\<in>set [0..<n]. mmu s (a + of_nat i) \<noteq> None)"

definition cpu_store :: "mmu \<Rightarrow> u64 \<Rightarrow> u8 \<Rightarrow> vmm_state \<Rightarrow> vmm_state option" where
  "cpu_store mmu a v s = (case mmu s a of
     None \<Rightarrow> None
   | Some p \<Rightarrow> Some (s\<lparr>mem := (mem s)(p := v)\<rparr>))"

text \<open>The loops of \<open>memset\<close> and \<open>memcpy\<close> over such pointers.\<close>

fun cpu_memset :: "mmu \<Rightarrow> u64 \<Rightarrow> u8 \<Rightarrow> nat \<Rightarrow> vmm_state \<Rightarrow> vmm_state option" where
  "cpu_memset mmu p c 0 s = Some s"
| "cpu_memset mmu p c (Suc n) s = (case cpu_memset mmu p c n s of
     None \<Rightarrow> None
   | Some s' \<Rightarrow> cpu_store mmu (p + of_nat n) c s')"

fun cpu_memcpy :: "mmu \<Rightarrow> u64 \<Rightarrow> u64 \<Rightarrow> nat \<Rightarrow> vmm_state \<Rightarrow> vmm_state option" where
  "cpu_memcpy mmu dest src 0 s = Some s"
| "cpu_memcpy mmu dest src (Suc n) s = (case cpu_memcpy mmu dest src n s of
     None \<Rightarrow> None
   | Some s' \<Rightarrow> (case mmu s' (src + of_nat n) of
       None \<Rightarrow> None
     | Some p \<Rightarrow> cpu_store mmu (dest + of_nat n) (mem s' p) s'))"

text \<open>A load and a store of several bytes.\<close>

definition cpu_load :: "mmu \<Rightarrow> u64 \<Rightarrow> nat \<Rightarrow> vmm_state \<Rightarrow> 'a::len word option" where
  "cpu_load mmu a n s = (if cpu_mapped mmu s a n then Some (read_le (cpu_mem mmu s) a n) else None)"

fun cpu_store_le :: "mmu \<Rightarrow> u64 \<Rightarrow> 'a::len word \<Rightarrow> nat \<Rightarrow> vmm_state \<Rightarrow> vmm_state option" where
  "cpu_store_le mmu a v 0 s = Some s"
| "cpu_store_le mmu a v (Suc n) s = (case cpu_store mmu a (ucast v) s of
     None \<Rightarrow> None
   | Some s' \<Rightarrow> cpu_store_le mmu (a + 1) (drop_bit 8 v) n s')"

text \<open>\<open>strlen\<close> and \<open>strcpy\<close>; a string without an end is read until the loop faults or for ever.\<close>

partial_function (option) cpu_strlen :: "mmu \<Rightarrow> u64 \<Rightarrow> u64 \<Rightarrow> vmm_state \<Rightarrow> u64 option" where
  "cpu_strlen mmu p n s = (case mmu s p of
     None \<Rightarrow> None
   | Some pa \<Rightarrow> if mem s pa = 0 then Some n else cpu_strlen mmu (p + 1) (n + 1) s)"

partial_function (option) cpu_strcpy :: "mmu \<Rightarrow> u64 \<Rightarrow> u64 \<Rightarrow> vmm_state \<Rightarrow> vmm_state option" where
  "cpu_strcpy mmu d p s = (case mmu s p of
     None \<Rightarrow> None
   | Some pa \<Rightarrow>
     (case cpu_store mmu d (mem s pa) s of
       None \<Rightarrow> None
     | Some s' \<Rightarrow> if mem s pa = 0 then Some s' else cpu_strcpy mmu (d + 1) (p + 1) s'))"

text \<open>
  The bootloader's identity mapping of low memory: a pointer below \<open>limit\<close> is the physical address
  itself, in every state.
\<close>

definition identity_mapped :: "mmu \<Rightarrow> nat \<Rightarrow> bool" where
  "identity_mapped mmu limit \<longleftrightarrow> (\<forall>s a. unat a < limit \<longrightarrow> mmu s a = Some a)"

lemma identity_mappedD: "identity_mapped mmu limit \<Longrightarrow> unat a < limit \<Longrightarrow> mmu s a = Some a"
  by (simp add: identity_mapped_def)

text \<open>Below the limit the two loops are those of the string library on physical memory.\<close>

lemma cpu_memset_identity:
  assumes "identity_mapped mmu limit" and "limit \<le> 2 ^ 64" and "unat p + n \<le> limit"
  shows "cpu_memset mmu p c n s = Some (s\<lparr>mem := fill_up p c n (mem s)\<rparr>)"
  using assms(3)
proof (induction n)
  case (Suc n)
  have "unat (p + of_nat n) = unat p + n" using Suc.prems assms(2) by (intro unat_add_of_nat) simp
  then show ?case using Suc by (simp add: cpu_store_def identity_mappedD [OF assms(1)] fun_upd_def)
qed simp

lemma cpu_memcpy_identity:
  assumes "identity_mapped mmu limit" and "limit \<le> 2 ^ 64" and "unat d + n \<le> limit" and "unat p + n \<le> limit"
  shows "cpu_memcpy mmu d p n s = Some (s\<lparr>mem := copy_up d p n (mem s)\<rparr>)"
  using assms(3,4)
proof (induction n)
  case (Suc n)
  have "unat (d + of_nat n) = unat d + n" "unat (p + of_nat n) = unat p + n"
    using Suc.prems assms(2) by (auto intro!: unat_add_of_nat)
  then show ?case using Suc by (simp add: cpu_store_def identity_mappedD [OF assms(1)] Let_def fun_upd_def)
qed simp

end
