(* ===== verification/ELF.thy ===== *)
theory ELF
  imports CPU_Access
begin

text \<open>
  The ELF loader, \<open>src/kernel/src/core/exec/elf.c\<close> and \<open>elf.h\<close>. The headers of a file are read
  out of memory field by field, little endian, at the offsets the C structures have. Parsing only
  reads: it takes the memory as the processor sees it. Loading allocates, copies and maps, so it
  works on the state of the memory managers; \<open>None\<close> means a page fault on a pointer that is not
  mapped. A pointer to an \<open>elf_file_t\<close> is an option, \<open>None\<close> for \<open>NULL\<close>. Log output is left out.
\<close>

section \<open>Structures and constants\<close>

definition ELF_MAGIC :: u32 where "ELF_MAGIC = 0x464C457F"
definition ELFCLASS64 :: u8 where "ELFCLASS64 = 2"
definition ELFDATA2LSB :: u8 where "ELFDATA2LSB = 1"
definition ET_EXEC :: u16 where "ET_EXEC = 2"
definition ET_DYN :: u16 where "ET_DYN = 3"
definition EM_X86_64 :: u16 where "EM_X86_64 = 62"
definition PT_LOAD :: u32 where "PT_LOAD = 1"
definition PF_X :: u32 where "PF_X = 1"
definition PF_W :: u32 where "PF_W = 2"
definition SHT_SYMTAB :: u32 where "SHT_SYMTAB = 2"
definition SHT_STRTAB :: u32 where "SHT_STRTAB = 3"

record elf64_ehdr_t =
  e_ident :: "u8 list"
  e_type :: u16
  e_machine :: u16
  e_version :: u32
  e_entry :: u64
  e_phoff :: u64
  e_shoff :: u64
  e_flags :: u32
  e_ehsize :: u16
  e_phentsize :: u16
  e_phnum :: u16
  e_shentsize :: u16
  e_shnum :: u16
  e_shstrndx :: u16

record elf64_phdr_t =
  p_type :: u32
  p_flags :: u32
  p_offset :: u64
  p_vaddr :: u64
  p_paddr :: u64
  p_filesz :: u64
  p_memsz :: u64
  p_align :: u64

record elf64_shdr_t =
  sh_name :: u32
  sh_type :: u32
  sh_flags :: u64
  sh_addr :: u64
  sh_offset :: u64
  sh_size :: u64
  sh_link :: u32
  sh_info :: u32
  sh_addralign :: u64
  sh_entsize :: u64

record elf64_sym_t =
  st_name :: u32
  st_info :: u8
  st_other :: u8
  st_shndx :: u16
  st_value :: u64
  st_size :: u64

text \<open>\<open>sizeof\<close> of the four structures.\<close>

definition ehdr_size :: u64 where "ehdr_size = 64"
definition phdr_size :: u64 where "phdr_size = 56"
definition shdr_size :: u64 where "shdr_size = 64"
definition sym_size :: u64 where "sym_size = 24"

record elf_file_t =
  elf_data :: u64
  elf_size :: u64
  elf_header :: elf64_ehdr_t
  program_headers :: u64
  section_headers :: u64
  symtab :: u64
  symtab_entries :: u32
  strtab :: u64
  strtab_size :: u64
  elf_entry_point :: u64
  elf_base_addr :: u64
  elf_top_addr :: u64

section \<open>Reading structures\<close>

definition ehdr_at :: "memory \<Rightarrow> u64 \<Rightarrow> elf64_ehdr_t" where
  "ehdr_at m p = \<lparr>e_ident = map (\<lambda>i. m (p + of_nat i)) [0..<16],
     e_type = read_le m (p + 16) 2, e_machine = read_le m (p + 18) 2, e_version = read_le m (p + 20) 4,
     e_entry = read_le m (p + 24) 8, e_phoff = read_le m (p + 32) 8, e_shoff = read_le m (p + 40) 8,
     e_flags = read_le m (p + 48) 4, e_ehsize = read_le m (p + 52) 2, e_phentsize = read_le m (p + 54) 2,
     e_phnum = read_le m (p + 56) 2, e_shentsize = read_le m (p + 58) 2, e_shnum = read_le m (p + 60) 2,
     e_shstrndx = read_le m (p + 62) 2\<rparr>"

definition phdr_at :: "memory \<Rightarrow> u64 \<Rightarrow> elf64_phdr_t" where
  "phdr_at m p = \<lparr>p_type = read_le m p 4, p_flags = read_le m (p + 4) 4, p_offset = read_le m (p + 8) 8,
     p_vaddr = read_le m (p + 16) 8, p_paddr = read_le m (p + 24) 8, p_filesz = read_le m (p + 32) 8,
     p_memsz = read_le m (p + 40) 8, p_align = read_le m (p + 48) 8\<rparr>"

definition shdr_at :: "memory \<Rightarrow> u64 \<Rightarrow> elf64_shdr_t" where
  "shdr_at m p = \<lparr>sh_name = read_le m p 4, sh_type = read_le m (p + 4) 4, sh_flags = read_le m (p + 8) 8,
     sh_addr = read_le m (p + 16) 8, sh_offset = read_le m (p + 24) 8, sh_size = read_le m (p + 32) 8,
     sh_link = read_le m (p + 40) 4, sh_info = read_le m (p + 44) 4, sh_addralign = read_le m (p + 48) 8,
     sh_entsize = read_le m (p + 56) 8\<rparr>"

definition sym_at :: "memory \<Rightarrow> u64 \<Rightarrow> elf64_sym_t" where
  "sym_at m p = \<lparr>st_name = read_le m p 4, st_info = m (p + 4), st_other = m (p + 5),
     st_shndx = read_le m (p + 6) 2, st_value = read_le m (p + 8) 8, st_size = read_le m (p + 16) 8\<rparr>"

definition zero_ehdr :: elf64_ehdr_t where
  "zero_ehdr = \<lparr>e_ident = replicate 16 0, e_type = 0, e_machine = 0, e_version = 0, e_entry = 0,
     e_phoff = 0, e_shoff = 0, e_flags = 0, e_ehsize = 0, e_phentsize = 0, e_phnum = 0,
     e_shentsize = 0, e_shnum = 0, e_shstrndx = 0\<rparr>"

text \<open>\<open>memset(elf, 0, sizeof(elf_file_t))\<close>\<close>

definition zero_elf :: elf_file_t where
  "zero_elf = \<lparr>elf_data = NULL, elf_size = 0, elf_header = zero_ehdr, program_headers = NULL,
     section_headers = NULL, symtab = NULL, symtab_entries = 0, strtab = NULL, strtab_size = 0,
     elf_entry_point = NULL, elf_base_addr = 0, elf_top_addr = 0\<rparr>"

section \<open>Parsing\<close>

text \<open>\<open>*(uint32_t*)ehdr->e_ident\<close>\<close>

definition ident_magic :: "elf64_ehdr_t \<Rightarrow> u32" where
  "ident_magic ehdr = ucast (e_ident ehdr ! 0) OR push_bit 8 (ucast (e_ident ehdr ! 1))
     OR push_bit 16 (ucast (e_ident ehdr ! 2)) OR push_bit 24 (ucast (e_ident ehdr ! 3))"

definition elf_validate_header :: "elf64_ehdr_t \<Rightarrow> bool" where
  "elf_validate_header ehdr =
     (if ident_magic ehdr \<noteq> ELF_MAGIC then False
      else if e_ident ehdr ! 4 \<noteq> ELFCLASS64 then False
      else if e_ident ehdr ! 5 \<noteq> ELFDATA2LSB then False
      else if e_machine ehdr \<noteq> EM_X86_64 then False
      else if e_type ehdr \<noteq> ET_EXEC \<and> e_type ehdr \<noteq> ET_DYN then False
      else if ucast (e_phentsize ehdr) \<noteq> phdr_size then False
      else if ucast (e_shentsize ehdr) \<noteq> shdr_size then False
      else True)"

definition elf_load_program_headers :: "elf_file_t \<Rightarrow> bool \<times> elf_file_t" where
  "elf_load_program_headers elf =
     (if e_phnum (elf_header elf) = 0 then (True, elf\<lparr>program_headers := NULL\<rparr>)
      else let phoff = e_phoff (elf_header elf)
           in if elf_size elf < phoff + ucast (e_phnum (elf_header elf)) * phdr_size then (False, elf)
              else (True, elf\<lparr>program_headers := elf_data elf + phoff\<rparr>))"

definition section_at :: "memory \<Rightarrow> elf_file_t \<Rightarrow> u64 \<Rightarrow> elf64_shdr_t" where
  "section_at m elf i = shdr_at m (section_headers elf + i * shdr_size)"

text \<open>One round of the loop of \<open>elf_find_symbol_tables\<close>.\<close>

definition note_section :: "memory \<Rightarrow> u64 \<Rightarrow> elf_file_t \<Rightarrow> elf_file_t" where
  "note_section m i elf =
     (let section = section_at m elf i
      in if sh_type section = SHT_SYMTAB
         then let elf1 = elf\<lparr>symtab := elf_data elf + sh_offset section,
                             symtab_entries := ucast (sh_size section div sym_size)\<rparr>
              in if sh_link section < ucast (e_shnum (elf_header elf))
                 then let strtab_section = section_at m elf1 (ucast (sh_link section))
                      in if sh_type strtab_section = SHT_STRTAB
                         then elf1\<lparr>strtab := elf_data elf + sh_offset strtab_section,
                                   strtab_size := sh_size strtab_section\<rparr>
                         else elf1
                 else elf1
         else elf)"

definition elf_find_symbol_tables :: "memory \<Rightarrow> elf_file_t \<Rightarrow> bool \<times> elf_file_t" where
  "elf_find_symbol_tables m elf =
     (if section_headers elf = NULL \<or> e_shnum (elf_header elf) = 0 then (False, elf)
      else let elf' = fold (\<lambda>i. note_section m (of_nat i)) [0..<unat (e_shnum (elf_header elf))] elf
           in (symtab elf' \<noteq> NULL \<and> strtab elf' \<noteq> NULL, elf'))"

definition elf_load_section_headers :: "memory \<Rightarrow> elf_file_t \<Rightarrow> bool \<times> elf_file_t" where
  "elf_load_section_headers m elf =
     (if e_shnum (elf_header elf) = 0 then (True, elf\<lparr>section_headers := NULL\<rparr>)
      else let shoff = e_shoff (elf_header elf)
           in if elf_size elf < shoff + ucast (e_shnum (elf_header elf)) * shdr_size then (False, elf)
              else (True, snd (elf_find_symbol_tables m
                     (elf\<lparr>section_headers := elf_data elf + shoff\<rparr>))))"

definition elf_get_string :: "elf_file_t \<Rightarrow> u64 \<Rightarrow> u32 \<Rightarrow> u64" where
  "elf_get_string elf string_table_offset offset =
     (if elf_size elf \<le> string_table_offset + ucast offset then NULL
      else elf_data elf + string_table_offset + ucast offset)"

text \<open>\<open>section\<close> is \<open>None\<close> for a null pointer.\<close>

definition elf_get_section_name :: "memory \<Rightarrow> elf_file_t option \<Rightarrow> elf64_shdr_t option \<Rightarrow> u64" where
  "elf_get_section_name m elf section = (case (elf, section) of
     (Some elf, Some section) \<Rightarrow>
       (if e_shnum (elf_header elf) \<le> e_shstrndx (elf_header elf) then NULL
        else let shstrtab = section_at m elf (ucast (e_shstrndx (elf_header elf)))
             in elf_get_string elf (sh_offset shstrtab) (sh_name section))
   | _ \<Rightarrow> NULL)"

definition elf_parse_memory ::
  "memory \<Rightarrow> u64 \<Rightarrow> u64 \<Rightarrow> elf_file_t option \<Rightarrow> bool \<times> elf_file_t option" where
  "elf_parse_memory m data sz elf =
     (if data = NULL \<or> elf = None \<or> sz < ehdr_size then (False, elf)
      else
      let elf = zero_elf\<lparr>elf_data := data, elf_size := sz\<rparr>;
          ehdr = ehdr_at m data
      in if \<not> elf_validate_header ehdr then (False, Some elf)
      else
      let (ok1, elf1) = elf_load_program_headers (elf\<lparr>elf_header := ehdr\<rparr>)
      in if \<not> ok1 then (False, Some elf1)
      else
      let (ok2, elf2) = elf_load_section_headers m elf1
      in (ok2, Some elf2))"

section \<open>Loading\<close>

text \<open>The flags a segment is mapped with.\<close>

definition segment_flags :: "elf64_phdr_t \<Rightarrow> u64" where
  "segment_flags phdr =
     (let flags = VMM_FLAG_PRESENT;
          flags = (if p_flags phdr AND PF_W \<noteq> 0 then flags OR VMM_FLAG_WRITABLE else flags)
      in if p_flags phdr AND PF_X = 0 then flags OR VMM_FLAG_NO_EXECUTE else flags)"

text \<open>The virtual address of a segment and its number of pages.\<close>

definition segment_vaddr :: "elf_file_t \<Rightarrow> u64 \<Rightarrow> elf64_phdr_t \<Rightarrow> u64" where
  "segment_vaddr elf base phdr =
     (if e_type (elf_header elf) = ET_DYN then p_vaddr phdr + base else p_vaddr phdr)"

definition segment_pages :: "elf64_phdr_t \<Rightarrow> u64" where
  "segment_pages phdr = (p_memsz phdr + PAGE_SIZE_4K - 1) div PAGE_SIZE_4K"

text \<open>The mapping loop with \<open>k\<close> pages left, from page \<open>j\<close> on. A failure is not undone.\<close>

fun map_segment :: "u64 \<Rightarrow> u64 \<Rightarrow> u64 \<Rightarrow> nat \<Rightarrow> nat \<Rightarrow> vmm_state \<Rightarrow> bool \<times> vmm_state" where
  "map_segment page_vaddr segment_memory flags 0 j s = (True, s)"
| "map_segment page_vaddr segment_memory flags (Suc k) j s =
     (let page_phys = segment_memory + of_nat j * PAGE_SIZE_4K;
          page_virt = page_vaddr + of_nat j * PAGE_SIZE_4K;
          (ok, s1) = vmm_map_page page_virt page_phys flags s
      in if \<not> ok then (False, s1)
         else map_segment page_vaddr segment_memory flags k (Suc j) s1)"

text \<open>
  The part of the loop body before the mapping: the block for the segment is allocated, cleared and
  filled. The result is whether it succeeded and the address of the block.
\<close>

definition fill_segment ::
  "mmu \<Rightarrow> elf_file_t \<Rightarrow> elf64_phdr_t \<Rightarrow> vmm_state \<Rightarrow> (bool \<times> u64 \<times> vmm_state) option" where
  "fill_segment mmu elf phdr s =
     (let pages = segment_pages phdr;
          (segment_memory, q) = pmm_alloc_pages pages (pmm s);
          s1 = s\<lparr>pmm := q\<rparr>
      in if segment_memory = NULL then Some (False, NULL, s1)
      else case cpu_memset mmu segment_memory 0 (unat (pages * PAGE_SIZE_4K)) s1 of
        None \<Rightarrow> None
      | Some s2 \<Rightarrow>
      if 0 < p_filesz phdr
      then if elf_size elf < p_offset phdr + p_filesz phdr
           then Some (False, NULL, s2\<lparr>pmm := pmm_free_pages segment_memory pages (pmm s2)\<rparr>)
           else map_option (\<lambda>s3. (True, segment_memory, s3))
                  (cpu_memcpy mmu segment_memory (elf_data elf + p_offset phdr) (unat (p_filesz phdr)) s2)
      else Some (True, segment_memory, s2))"

text \<open>The loop body of \<open>elf_load_segments\<close> for a \<open>PT_LOAD\<close> segment.\<close>

definition load_segment ::
  "mmu \<Rightarrow> u64 \<Rightarrow> elf64_phdr_t \<Rightarrow> elf_file_t \<Rightarrow> vmm_state \<Rightarrow> (bool \<times> elf_file_t \<times> vmm_state) option" where
  "load_segment mmu base phdr elf s = (case fill_segment mmu elf phdr s of
     None \<Rightarrow> None
   | Some (ok, segment_memory, s1) \<Rightarrow>
     if \<not> ok then Some (False, elf, s1)
     else
     let vaddr = segment_vaddr elf base phdr;
         page_vaddr = vaddr AND NOT (PAGE_SIZE_4K - 1);
         (ok, s2) = map_segment page_vaddr segment_memory (segment_flags phdr)
                      (unat (segment_pages phdr)) 0 s1
     in if \<not> ok then Some (False, elf, s2)
     else
     let segment_end = vaddr + p_memsz phdr
     in Some (True, if elf_top_addr elf < segment_end then elf\<lparr>elf_top_addr := segment_end\<rparr> else elf, s2))"

text \<open>
  \<open>for (i = 0; i < e_phnum; i++)\<close> with \<open>k\<close> headers left from index \<open>i\<close> on. A header is read once
  per round, before the round changes memory.
\<close>

definition program_header ::
  "mmu \<Rightarrow> elf_file_t \<Rightarrow> nat \<Rightarrow> vmm_state \<Rightarrow> elf64_phdr_t option" where
  "program_header mmu elf i s =
     (let p = program_headers elf + of_nat i * phdr_size
      in if cpu_mapped mmu s p 56 then Some (phdr_at (cpu_mem mmu s) p) else None)"

fun load_loop ::
  "mmu \<Rightarrow> u64 \<Rightarrow> nat \<Rightarrow> nat \<Rightarrow> elf_file_t \<Rightarrow> vmm_state \<Rightarrow> (bool \<times> elf_file_t \<times> vmm_state) option" where
  "load_loop mmu base 0 i elf s = Some (True, elf, s)"
| "load_loop mmu base (Suc k) i elf s = (case program_header mmu elf i s of
     None \<Rightarrow> None
   | Some phdr \<Rightarrow>
     if p_type phdr \<noteq> PT_LOAD then load_loop mmu base k (Suc i) elf s
     else (case load_segment mmu base phdr elf s of
       None \<Rightarrow> None
     | Some (ok, elf1, s1) \<Rightarrow>
         if ok then load_loop mmu base k (Suc i) elf1 s1 else Some (False, elf1, s1)))"

definition elf_load_segments ::
  "mmu \<Rightarrow> elf_file_t \<Rightarrow> u64 \<Rightarrow> vmm_state \<Rightarrow> (bool \<times> elf_file_t \<times> vmm_state) option" where
  "elf_load_segments mmu elf base s =
     load_loop mmu base (unat (e_phnum (elf_header elf))) 0 (elf\<lparr>elf_top_addr := 0\<rparr>) s"

definition elf_load ::
  "mmu \<Rightarrow> elf_file_t option \<Rightarrow> u64 \<Rightarrow> vmm_state \<Rightarrow> (bool \<times> elf_file_t option \<times> vmm_state) option" where
  "elf_load mmu elf base s = (case elf of
     None \<Rightarrow> Some (False, None, s)
   | Some elf \<Rightarrow>
     if program_headers elf = NULL then Some (False, Some elf, s)
     else (case elf_load_segments mmu (elf\<lparr>elf_base_addr := base\<rparr>) base s of
       None \<Rightarrow> None
     | Some (ok, elf1, s1) \<Rightarrow>
       if \<not> ok then Some (False, Some elf1, s1)
       else Some (True, Some (elf1\<lparr>elf_entry_point := e_entry (elf_header elf1)
              + (if e_type (elf_header elf1) = ET_DYN then base else 0)\<rparr>), s1)))"

section \<open>Unloading\<close>

text \<open>The inner loop of \<open>elf_unload\<close> with \<open>k\<close> pages left from page \<open>j\<close> on.\<close>

fun unload_pages :: "u64 \<Rightarrow> nat \<Rightarrow> nat \<Rightarrow> vmm_state \<Rightarrow> vmm_state" where
  "unload_pages page_vaddr 0 j s = s"
| "unload_pages page_vaddr (Suc k) j s =
     (let page_virt = page_vaddr + of_nat j * PAGE_SIZE_4K;
          page_phys = vmm_get_physical_address s page_virt;
          s' = (if page_phys \<noteq> 0
                then let s1 = snd (vmm_unmap_page page_virt s)
                     in if j = 0 \<or> vmm_get_physical_address s1 (page_virt - PAGE_SIZE_4K)
                                    \<noteq> page_phys - PAGE_SIZE_4K
                        then free_frame page_phys s1 else s1
                else s)
      in unload_pages page_vaddr k (Suc j) s')"

fun unload_loop :: "mmu \<Rightarrow> nat \<Rightarrow> nat \<Rightarrow> elf_file_t \<Rightarrow> vmm_state \<Rightarrow> vmm_state option" where
  "unload_loop mmu 0 i elf s = Some s"
| "unload_loop mmu (Suc k) i elf s = (case program_header mmu elf i s of
     None \<Rightarrow> None
   | Some phdr \<Rightarrow>
     if p_type phdr \<noteq> PT_LOAD then unload_loop mmu k (Suc i) elf s
     else let vaddr = segment_vaddr elf (elf_base_addr elf) phdr;
              page_vaddr = vaddr AND NOT (PAGE_SIZE_4K - 1)
          in unload_loop mmu k (Suc i) elf (unload_pages page_vaddr (unat (segment_pages phdr)) 0 s))"

definition elf_unload ::
  "mmu \<Rightarrow> elf_file_t option \<Rightarrow> vmm_state \<Rightarrow> (bool \<times> elf_file_t option \<times> vmm_state) option" where
  "elf_unload mmu elf s = (case elf of
     None \<Rightarrow> Some (False, None, s)
   | Some elf \<Rightarrow>
     if elf_base_addr elf = 0 then Some (False, Some elf, s)
     else map_option (\<lambda>s1. (True, Some (elf\<lparr>elf_base_addr := 0, elf_top_addr := 0\<rparr>), s1))
            (unload_loop mmu (unat (e_phnum (elf_header elf))) 0 elf s))"

definition elf_free ::
  "mmu \<Rightarrow> elf_file_t option \<Rightarrow> vmm_state \<Rightarrow> (elf_file_t option \<times> vmm_state) option" where
  "elf_free mmu elf s = (case elf of
     None \<Rightarrow> Some (None, s)
   | Some elf \<Rightarrow>
     (case (if elf_base_addr elf \<noteq> 0 then elf_unload mmu (Some elf) s else Some (True, Some elf, s)) of
       Some (_, Some elf1, s1) \<Rightarrow>
         Some (Some zero_elf,
           if elf_data elf1 \<noteq> NULL
           then s1\<lparr>pmm := pmm_free_pages (elf_data elf1)
                    ((elf_size elf1 + PAGE_SIZE_4K - 1) div PAGE_SIZE_4K) (pmm s1)\<rparr>
           else s1)
     | _ \<Rightarrow> None))"

section \<open>Symbols\<close>

text \<open>The loop over the symbols from index \<open>i\<close> on; \<open>None\<close> when a comparison never ends.\<close>

fun symbol_loop :: "memory \<Rightarrow> elf_file_t \<Rightarrow> u64 \<Rightarrow> nat \<Rightarrow> nat \<Rightarrow> u64 option" where
  "symbol_loop m elf symbol_name 0 i = Some NULL"
| "symbol_loop m elf symbol_name (Suc k) i =
     (let sym = sym_at m (symtab elf + of_nat i * sym_size);
          name = elf_get_string elf (strtab elf - elf_data elf) (st_name sym)
      in if name = NULL then symbol_loop m elf symbol_name k (Suc i)
         else case strcmp name symbol_name m of
                None \<Rightarrow> None
              | Some r \<Rightarrow>
                  if r \<noteq> 0 then symbol_loop m elf symbol_name k (Suc i)
                  else Some (st_value sym
                    + (if e_type (elf_header elf) = ET_DYN then elf_base_addr elf else 0)))"

definition elf_get_symbol_address :: "memory \<Rightarrow> elf_file_t option \<Rightarrow> u64 \<Rightarrow> u64 option" where
  "elf_get_symbol_address m elf symbol_name = (case elf of
     None \<Rightarrow> Some NULL
   | Some elf \<Rightarrow>
     if symbol_name = NULL \<or> symtab elf = NULL \<or> strtab elf = NULL then Some NULL
     else symbol_loop m elf symbol_name (unat (symtab_entries elf)) 0)"

end
