(* ===== verification/PMM_Correct.thy ===== *)
theory PMM_Correct
  imports PMM
begin

text \<open>
  Correctness of the physical memory manager: the state invariant and its preservation, the
  bitmap as a set of free frames, the interface \<open>frame_allocator\<close> the virtual memory manager
  relies on with its interpretation on \<open>pmm_alloc_page\<close> and \<open>pmm_free_page\<close>, first fit of the
  contiguous allocator, and the safety of \<open>pmm_init\<close>.
\<close>

section \<open>The bitmap as a set of page indices\<close>

lemma page_used_bit: "page_used bm i \<longleftrightarrow> bit (bm ! (i div 8)) (i mod 8)"
  by (simp add: page_used_def bit_facts)

lemma index_eq_iff: "(i::nat) div 8 = j div 8 \<and> i mod 8 = j mod 8 \<longleftrightarrow> i = j"
  by (metis div_mult_mod_eq)

lemma length_mark_used [simp]: "length (mark_used bm i) = length bm"
  by (simp add: mark_used_def)

lemma length_mark_free [simp]: "length (mark_free bm i) = length bm"
  by (simp add: mark_free_def)

lemma page_used_mark_used:
  assumes "i < 8 * length bm"
  shows "page_used (mark_used bm i) j \<longleftrightarrow> j = i \<or> page_used bm j"
proof -
  have "i div 8 < length bm" using assms by auto
  then show ?thesis
    using index_eq_iff [of i j]
    by (cases "i div 8 = j div 8") (auto simp: page_used_bit mark_used_def bit_or_mask)
qed

lemma page_used_mark_free:
  assumes "i < 8 * length bm"
  shows "page_used (mark_free bm i) j \<longleftrightarrow> j \<noteq> i \<and> page_used bm j"
proof -
  have "i div 8 < length bm" using assms by auto
  then show ?thesis
    using index_eq_iff [of i j]
    by (cases "i div 8 = j div 8") (auto simp: page_used_bit mark_free_def bit_and_not_mask)
qed

lemma mark_free_mark_used:
  assumes "i < 8 * length bm" and "\<not> page_used bm i"
  shows "mark_free (mark_used bm i) i = bm"
proof -
  let ?b = "bm ! (i div 8)" and ?m = "push_bit (i mod 8) 1 :: u8"
  have len: "i div 8 < length bm" using assms(1) by auto
  have "\<not> bit ?b (i mod 8)" using assms(2) by (simp add: page_used_bit)
  then have "(?b OR ?m) AND NOT ?m = ?b"
    by (auto intro!: bit_word_eqI simp: bit_simps)
  with len show ?thesis by (simp add: mark_free_def mark_used_def)
qed

lemma length_mark_run [simp]: "length (mark_run k n bm) = length bm"
  by (induction n) auto

lemma page_used_mark_run:
  "k + n \<le> 8 * length bm \<Longrightarrow>
   page_used (mark_run k n bm) j \<longleftrightarrow> (k \<le> j \<and> j < k + n) \<or> page_used bm j"
  by (induction n) (auto simp: page_used_mark_used)

lemma length_mark_first [simp]: "length (mark_first n bm) = length bm"
  by (induction n) auto

lemma page_used_mark_first:
  "n \<le> 8 * length bm \<Longrightarrow> page_used (mark_first n bm) j \<longleftrightarrow> j < n \<or> page_used bm j"
  by (induction n) (auto simp: page_used_mark_used)

lemma bitmap_eqI:
  assumes len: "length bm = length bm'"
    and bits: "\<And>i. i < 8 * length bm \<Longrightarrow> page_used bm i = page_used bm' i"
  shows "bm = bm'"
proof (rule nth_equalityI [OF len])
  fix i assume i: "i < length bm"
  show "bm ! i = bm' ! i"
  proof (rule bit_word_eqI)
    fix n assume "n < LENGTH(8)"
    then have "i * 8 + n < 8 * length bm" "(i * 8 + n) div 8 = i" "(i * 8 + n) mod 8 = n"
      using i by auto
    with bits [of "i * 8 + n"] show "bit (bm ! i) n = bit (bm' ! i) n"
      by (simp add: page_used_bit)
  qed
qed

section \<open>The invariant\<close>

text \<open>
  What \<open>pmm_init\<close> establishes and every operation keeps: the bitmap is in place and covers the
  managed pages, and the managed range is page aligned, lies above 1 MiB and does not wrap.
\<close>

definition pmm_inv :: "pmm_state \<Rightarrow> bool" where
  "pmm_inv s \<longleftrightarrow> page_bitmap_set s
     \<and> page_size (pmm_config s) = PMM_BLOCK_SIZE
     \<and> length (static_bitmap s) = STATIC_BITMAP_SIZE
     \<and> npages s \<le> 8 * STATIC_BITMAP_SIZE
     \<and> kernel_start (pmm_config s) mod 4096 = 0
     \<and> 0x100000 \<le> kernel_start (pmm_config s)
     \<and> unat (kernel_start (pmm_config s)) + npages s * 4096 < 2 ^ 64
     \<and> kernel_end (pmm_config s) = kernel_start (pmm_config s) + of_nat (npages s) * 4096"

lemma pmm_inv_bm: "pmm_inv s \<Longrightarrow> npages s \<le> 8 * length (static_bitmap s)"
  by (simp add: pmm_inv_def)

lemma pmm_inv_set [simp]: "pmm_inv s \<Longrightarrow> page_bitmap_set s"
  by (simp add: pmm_inv_def)

lemma pmm_inv_page_size: "pmm_inv s \<Longrightarrow> page_size (pmm_config s) = 4096"
  by (simp add: pmm_inv_def PMM_BLOCK_SIZE_def)

lemma pmm_inv_bitmap_upd:
  "pmm_inv s \<Longrightarrow> length bm = length (static_bitmap s) \<Longrightarrow> pmm_inv (s\<lparr>static_bitmap := bm\<rparr>)"
  by (simp add: pmm_inv_def)

lemma pmm_inv_counters:
  "pmm_inv (s\<lparr>total_allocations := a\<rparr>) = pmm_inv s"
  "pmm_inv (s\<lparr>failed_allocations := f\<rparr>) = pmm_inv s"
  by (simp_all add: pmm_inv_def)

lemma unat_page_addr:
  assumes "pmm_inv s" and "i \<le> npages s"
  shows "unat (page_addr s i) = unat (kernel_start (pmm_config s)) + i * 4096"
proof -
  let ?ks = "kernel_start (pmm_config s)"
  have bnd: "unat ?ks + npages s * 4096 < 2 ^ 64"
    using assms(1) by (simp add: pmm_inv_def)
  have le: "i * 4096 \<le> npages s * 4096" using assms(2) by simp
  have "unat (of_nat (i * 4096) :: u64) = i * 4096"
    using bnd le by (intro unat_of_nat_small) simp
  then have "unat (?ks + of_nat (i * 4096)) = unat ?ks + i * 4096"
    using bnd le by (subst unat_add_no_wrap) auto
  then show ?thesis
    using assms(1) by (simp add: page_addr_def pmm_inv_page_size)
qed

lemma unat_kernel_end:
  assumes "pmm_inv s"
  shows "unat (kernel_end (pmm_config s)) = unat (kernel_start (pmm_config s)) + npages s * 4096"
proof -
  have "kernel_end (pmm_config s) = page_addr s (npages s)"
    using assms by (simp add: pmm_inv_def page_addr_def PMM_BLOCK_SIZE_def)
  then show ?thesis using unat_page_addr [OF assms, of "npages s"] by simp
qed

lemma unat_kernel_start_aligned:
  "pmm_inv s \<Longrightarrow> unat (kernel_start (pmm_config s)) mod 4096 = 0"
  by (simp add: pmm_inv_def aligned_unat)

lemma page_addr_valid:
  assumes "pmm_inv s" and "i < npages s"
  shows "\<not> invalid_page s (page_addr s i)"
proof -
  have u: "unat (page_addr s i) = unat (kernel_start (pmm_config s)) + i * 4096"
    using assms by (intro unat_page_addr) auto
  have "unat (page_addr s i) mod 4096 = 0"
    using u unat_kernel_start_aligned [OF assms(1)] by simp
  then show ?thesis
    using u unat_kernel_end [OF assms(1)] assms
    by (simp add: invalid_page_def pmm_inv_page_size aligned_unat word_less_nat_alt
        word_le_nat_alt)
qed

lemma unat_page_index:
  assumes "pmm_inv s" and "kernel_start (pmm_config s) \<le> p"
  shows "page_index s p = (unat p - unat (kernel_start (pmm_config s))) div 4096"
  using assms by (simp add: page_index_def pmm_inv_page_size unat_div unat_sub)

lemma page_index_addr:
  assumes "pmm_inv s" and "i < npages s"
  shows "page_index s (page_addr s i) = i"
proof -
  have u: "unat (page_addr s i) = unat (kernel_start (pmm_config s)) + i * 4096"
    using assms by (intro unat_page_addr) auto
  then show ?thesis
    using assms(1) by (subst unat_page_index) (auto simp: word_le_nat_alt)
qed

lemma valid_page_addr:
  assumes "pmm_inv s" and "\<not> invalid_page s p"
  shows "page_index s p < npages s" and "page_addr s (page_index s p) = p"
proof -
  let ?ks = "kernel_start (pmm_config s)"
  have ks: "?ks \<le> p" and lt: "unat p < unat ?ks + npages s * 4096" and al: "unat p mod 4096 = 0"
    using assms unat_kernel_end [OF assms(1)]
    by (simp_all add: invalid_page_def pmm_inv_page_size aligned_unat word_less_nat_alt
        word_le_nat_alt not_le not_less)
  have idx: "page_index s p = (unat p - unat ?ks) div 4096"
    using assms(1) ks by (rule unat_page_index)
  show less: "page_index s p < npages s"
    using lt idx ks by (simp add: div_less_iff_less_mult word_le_nat_alt)
  have "(unat p - unat ?ks) mod 4096 = 0"
    using al unat_kernel_start_aligned [OF assms(1)] by (metis mod_0_imp_dvd dvd_diff_nat mod_eq_0_iff_dvd)
  then have "page_index s p * 4096 = unat p - unat ?ks"
    using idx by (metis div_mult_mod_eq add_0_right)
  then have "unat (page_addr s (page_index s p)) = unat p"
    using unat_page_addr [OF assms(1)] less ks by (simp add: word_le_nat_alt)
  then show "page_addr s (page_index s p) = p" by (simp only: word_unat_eq_iff)
qed

lemma page_addr_inj:
  "pmm_inv s \<Longrightarrow> i < npages s \<Longrightarrow> j < npages s \<Longrightarrow> page_addr s i = page_addr s j \<Longrightarrow> i = j"
  by (metis page_index_addr)

lemma page_addr_nonzero: "pmm_inv s \<Longrightarrow> i < npages s \<Longrightarrow> page_addr s i \<noteq> 0"
proof
  assume inv: "pmm_inv s" and i: "i < npages s" and "page_addr s i = 0"
  then have "unat (kernel_start (pmm_config s)) + i * 4096 = 0"
    using unat_page_addr [OF inv, of i] by simp
  moreover have "0x100000 \<le> unat (kernel_start (pmm_config s))"
    using inv by (simp add: pmm_inv_def word_le_nat_alt)
  ultimately show False by simp
qed

section \<open>Frames\<close>

text \<open>The page frames the manager owns, and those of them that are free.\<close>

definition managed_frames :: "pmm_state \<Rightarrow> u64 set" where
  "managed_frames s = page_addr s ` {i. i < npages s}"

definition free_frames :: "pmm_state \<Rightarrow> u64 set" where
  "free_frames s = page_addr s ` {i. i < npages s \<and> \<not> page_used (static_bitmap s) i}"

lemma managed_frames_iff: "pmm_inv s \<Longrightarrow> p \<in> managed_frames s \<longleftrightarrow> \<not> invalid_page s p"
  unfolding managed_frames_def
  by (metis (no_types, lifting) image_iff mem_Collect_eq page_addr_valid valid_page_addr)

lemma free_frames_iff:
  "pmm_inv s \<Longrightarrow> p \<in> free_frames s \<longleftrightarrow>
     \<not> invalid_page s p \<and> \<not> page_used (static_bitmap s) (page_index s p)"
  unfolding free_frames_def
  by (auto simp: page_addr_valid page_index_addr intro!: image_eqI [where x = "page_index s p"]
      dest: valid_page_addr)

lemma page_addr_upd [simp]:
  "page_addr (s\<lparr>static_bitmap := bm\<rparr>) i = page_addr s i"
  "page_addr (s\<lparr>total_allocations := a\<rparr>) i = page_addr s i"
  "page_addr (s\<lparr>failed_allocations := a\<rparr>) i = page_addr s i"
  by (simp_all add: page_addr_def)

lemma managed_frames_upd [simp]:
  "managed_frames (s\<lparr>static_bitmap := bm\<rparr>) = managed_frames s"
  "managed_frames (s\<lparr>total_allocations := a\<rparr>) = managed_frames s"
  "managed_frames (s\<lparr>failed_allocations := a\<rparr>) = managed_frames s"
  by (simp_all add: managed_frames_def)

lemma free_frames_counters [simp]:
  "free_frames (s\<lparr>total_allocations := a\<rparr>) = free_frames s"
  "free_frames (s\<lparr>failed_allocations := a\<rparr>) = free_frames s"
  by (simp_all add: free_frames_def)

lemma free_frames_mark_used:
  assumes inv: "pmm_inv s" and i: "i < npages s"
  shows "free_frames (s\<lparr>static_bitmap := mark_used (static_bitmap s) i\<rparr>)
           = free_frames s - {page_addr s i}"
proof -
  have "i < 8 * length (static_bitmap s)" using inv i pmm_inv_bm by fastforce
  then show ?thesis
    using page_addr_inj [OF inv _ i]
    by (auto simp: free_frames_def page_used_mark_used)
qed

lemma free_frames_mark_free:
  assumes inv: "pmm_inv s" and i: "i < npages s"
  shows "free_frames (s\<lparr>static_bitmap := mark_free (static_bitmap s) i\<rparr>)
           = insert (page_addr s i) (free_frames s)"
proof -
  have "i < 8 * length (static_bitmap s)" using inv i pmm_inv_bm by fastforce
  then show ?thesis
    using i by (auto simp: free_frames_def page_used_mark_free)
qed

lemma find_free_page_correct:
  "(case find_free_page bm n i of
      Some k \<Rightarrow> i \<le> k \<and> k < n \<and> \<not> page_used bm k \<and> (\<forall>j. i \<le> j \<and> j < k \<longrightarrow> page_used bm j)
    | None \<Rightarrow> \<forall>j. i \<le> j \<and> j < n \<longrightarrow> page_used bm j)"
proof (induction bm n i rule: find_free_page.induct)
  case (1 bm n i)
  show ?case
  proof (cases "i < n \<and> page_used bm i")
    case True
    with 1 show ?thesis
      by (subst find_free_page.simps)
        (auto split: option.splits simp: Suc_le_eq dest: le_neq_implies_less)
  next
    case False
    then show ?thesis by (subst find_free_page.simps) auto
  qed
qed

lemma find_free_page_Some:
  "find_free_page bm n 0 = Some k \<longleftrightarrow>
     k < n \<and> \<not> page_used bm k \<and> (\<forall>j<k. page_used bm j)"
  using find_free_page_correct [where bm = bm and n = n and i = 0]
  by (auto split: option.splits) (metis linorder_neqE_nat)+

lemma find_free_page_None: "find_free_page bm n 0 = None \<longleftrightarrow> (\<forall>j<n. page_used bm j)"
  using find_free_page_correct [where bm = bm and n = n and i = 0] by (auto split: option.splits)

section \<open>The frame allocator interface\<close>

text \<open>
  What the virtual memory manager relies on. A state owns a set of frames, some of them free;
  \<open>alloc\<close> hands out a free frame or fails with the null address, \<open>release\<close> gives a frame back
  and ignores any other address.
\<close>

locale frame_allocator =
  fixes alloc :: "'s \<Rightarrow> u64 \<times> 's"
    and release :: "u64 \<Rightarrow> 's \<Rightarrow> 's"
    and invar :: "'s \<Rightarrow> bool"
    and frames :: "'s \<Rightarrow> u64 set"
    and free :: "'s \<Rightarrow> u64 set"
  assumes free_subset: "invar s \<Longrightarrow> free s \<subseteq> frames s"
    and frames_finite: "invar s \<Longrightarrow> finite (frames s)"
    and frames_nonzero: "invar s \<Longrightarrow> 0 \<notin> frames s"
    and frames_aligned: "invar s \<Longrightarrow> p \<in> frames s \<Longrightarrow> p mod 4096 = 0"
    and alloc_hit: "invar s \<Longrightarrow> free s \<noteq> {} \<Longrightarrow>
      fst (alloc s) \<in> free s \<and> free (snd (alloc s)) = free s - {fst (alloc s)}"
    and alloc_miss: "invar s \<Longrightarrow> free s = {} \<Longrightarrow> fst (alloc s) = 0 \<and> free (snd (alloc s)) = {}"
    and alloc_invar: "invar s \<Longrightarrow> invar (snd (alloc s))"
    and alloc_frames: "invar s \<Longrightarrow> frames (snd (alloc s)) = frames s"
    and release_hit: "invar s \<Longrightarrow> p \<in> frames s \<Longrightarrow> free (release p s) = insert p (free s)"
    and release_miss: "invar s \<Longrightarrow> p \<notin> frames s \<Longrightarrow> release p s = s"
    and release_invar: "invar s \<Longrightarrow> invar (release p s)"
    and release_frames: "invar s \<Longrightarrow> frames (release p s) = frames s"
begin

text \<open>The allocation fails exactly when no frame is free.\<close>

lemma alloc_null_iff: "invar s \<Longrightarrow> fst (alloc s) = 0 \<longleftrightarrow> free s = {}"
  using alloc_hit alloc_miss free_subset frames_nonzero by fastforce

lemma alloc_success:
  assumes "invar s" and "alloc s = (p, s')" and "p \<noteq> 0"
  shows "p \<in> free s" and "p \<in> frames s" and "free s' = free s - {p}" and "invar s'"
    and "frames s' = frames s" and "p mod 4096 = 0"
proof -
  have ne: "free s \<noteq> {}" using assms alloc_null_iff [of s] by auto
  then show p: "p \<in> free s" and "free s' = free s - {p}"
    using alloc_hit [OF assms(1)] assms(2) by auto
  show fr: "p \<in> frames s" using p free_subset [OF assms(1)] by auto
  show "invar s'" "frames s' = frames s"
    using alloc_invar [OF assms(1)] alloc_frames [OF assms(1)] assms(2) by auto
  show "p mod 4096 = 0" using frames_aligned [OF assms(1) fr] .
qed

text \<open>A frame that is in use is never handed out again before it is released.\<close>

lemma alloc_not_in_use:
  assumes "invar s" and "alloc s = (p, s')" and "p \<noteq> 0" and "q \<in> frames s - free s"
  shows "p \<noteq> q" and "q \<in> frames s' - free s'"
  using alloc_success [OF assms(1-3)] assms(4) by auto

lemma alloc_in_use_after:
  assumes "invar s" and "alloc s = (p, s')" and "p \<noteq> 0"
  shows "p \<in> frames s' - free s'"
  using alloc_success [OF assms] by auto

text \<open>One allocation takes exactly one frame, one release of a used frame gives it back.\<close>

lemma card_free_alloc:
  assumes "invar s" and "free s \<noteq> {}"
  shows "Suc (card (free (snd (alloc s)))) = card (free s)"
proof -
  have "finite (free s)"
    using free_subset [OF assms(1)] frames_finite [OF assms(1)] by (rule finite_subset)
  then show ?thesis
    using alloc_hit [OF assms] by (metis card_Suc_Diff1)
qed

lemma alloc_release:
  assumes "invar s" and "free s \<noteq> {}"
  shows "free (release (fst (alloc s)) (snd (alloc s))) = free s"
proof -
  have p: "fst (alloc s) \<in> free s" and f: "free (snd (alloc s)) = free s - {fst (alloc s)}"
    using alloc_hit [OF assms] by auto
  have "fst (alloc s) \<in> frames (snd (alloc s))"
    using p free_subset [OF assms(1)] alloc_frames [OF assms(1)] by auto
  then show ?thesis
    using release_hit [OF alloc_invar [OF assms(1)]] p f by auto
qed

end

text \<open>\<open>pmm_alloc_page\<close> and \<open>pmm_free_page\<close> provide the interface.\<close>

lemma pmm_alloc_page_cases:
  assumes "pmm_inv s"
  obtains (hit) i where "i < npages s" "\<not> page_used (static_bitmap s) i"
      "\<forall>j<i. page_used (static_bitmap s) j"
      "pmm_alloc_page s = (page_addr s i, s\<lparr>static_bitmap := mark_used (static_bitmap s) i,
          total_allocations := total_allocations s + 1\<rparr>)"
    | (miss) "\<forall>j<npages s. page_used (static_bitmap s) j"
      "pmm_alloc_page s = (NULL, s\<lparr>failed_allocations := failed_allocations s + 1\<rparr>)"
proof (cases "find_free_page (static_bitmap s) (npages s) 0")
  case None
  show ?thesis
  proof (rule miss)
    show "\<forall>j<npages s. page_used (static_bitmap s) j"
      using None by (simp add: find_free_page_None)
    show "pmm_alloc_page s = (NULL, s\<lparr>failed_allocations := failed_allocations s + 1\<rparr>)"
      using None assms by (simp add: pmm_alloc_page_def)
  qed
next
  case (Some i)
  show ?thesis
  proof (rule hit)
    show "i < npages s" "\<not> page_used (static_bitmap s) i" "\<forall>j<i. page_used (static_bitmap s) j"
      using Some by (simp_all add: find_free_page_Some)
    show "pmm_alloc_page s = (page_addr s i, s\<lparr>static_bitmap := mark_used (static_bitmap s) i,
        total_allocations := total_allocations s + 1\<rparr>)"
      using Some assms by (simp add: pmm_alloc_page_def)
  qed
qed

lemma free_frames_empty_iff:
  "free_frames s = {} \<longleftrightarrow> (\<forall>j<npages s. page_used (static_bitmap s) j)"
  by (auto simp: free_frames_def)

lemma pmm_free_page_cases:
  assumes "pmm_inv s"
  obtains (invalid) "invalid_page s p" "pmm_free_page p s = s"
    | (free) i where "i < npages s" "p = page_addr s i" "\<not> page_used (static_bitmap s) i"
        "pmm_free_page p s = s"
    | (used) i where "i < npages s" "p = page_addr s i" "page_used (static_bitmap s) i"
        "pmm_free_page p s = s\<lparr>static_bitmap := mark_free (static_bitmap s) i\<rparr>"
proof (cases "invalid_page s p")
  case True
  then show ?thesis using invalid assms by (simp add: pmm_free_page_def)
next
  case False
  note v = valid_page_addr [OF assms False]
  show ?thesis
  proof (cases "page_used (static_bitmap s) (page_index s p)")
    case True
    then show ?thesis
      using used [of "page_index s p"] v assms False by (simp add: pmm_free_page_def)
  next
    case False': False
    then show ?thesis
      using free [of "page_index s p"] v assms False by (simp add: pmm_free_page_def)
  qed
qed

lemma pmm_alloc_page_inv:
  assumes "pmm_inv s"
  shows "pmm_inv (snd (pmm_alloc_page s))"
  using assms by (cases rule: pmm_alloc_page_cases)
    (use assms in \<open>auto simp: pmm_inv_bitmap_upd pmm_inv_counters\<close>)

lemma pmm_free_page_inv:
  assumes "pmm_inv s"
  shows "pmm_inv (pmm_free_page p s)"
  using assms by (cases rule: pmm_free_page_cases [where p = p])
    (use assms in \<open>auto simp: pmm_inv_bitmap_upd\<close>)

interpretation pmm: frame_allocator pmm_alloc_page pmm_free_page pmm_inv managed_frames free_frames
proof (unfold_locales, goal_cases)
  case (1 s)
  then show ?case by (auto simp: managed_frames_def free_frames_def)
next
  case (2 s)
  then show ?case by (simp add: managed_frames_def)
next
  case (3 s)
  then show ?case using page_addr_nonzero by (fastforce simp: managed_frames_def)
next
  case (4 s p)
  then show ?case
    by (simp add: managed_frames_iff invalid_page_def pmm_inv_page_size)
next
  case (5 s)
  from 5(1) show ?case
  proof (cases rule: pmm_alloc_page_cases)
    case (hit i)
    then show ?thesis
      using free_frames_mark_used [OF 5(1)] by (auto simp: free_frames_def)
  next
    case miss
    then show ?thesis using 5(2) by (simp add: free_frames_empty_iff)
  qed
next
  case (6 s)
  from 6(1) show ?case
    using 6(2) by (cases rule: pmm_alloc_page_cases) (auto simp: free_frames_empty_iff)
next
  case (7 s)
  then show ?case by (rule pmm_alloc_page_inv)
next
  case (8 s)
  then show ?case by (cases rule: pmm_alloc_page_cases) auto
next
  case (9 s p)
  from 9(1) show ?case
  proof (cases rule: pmm_free_page_cases [where p = p])
    case invalid
    then show ?thesis using 9 by (simp add: managed_frames_iff)
  next
    case (free i)
    then show ?thesis by (auto simp: free_frames_def)
  next
    case (used i)
    then show ?thesis using free_frames_mark_free [OF 9(1)] by simp
  qed
next
  case (10 s p)
  then show ?case by (simp add: managed_frames_iff pmm_free_page_def)
next
  case (11 s p)
  then show ?case by (rule pmm_free_page_inv)
next
  case (12 s p)
  then show ?case by (cases rule: pmm_free_page_cases [where p = p]) auto
qed

section \<open>Contiguous allocation is first fit\<close>

definition run_free :: "u8 list \<Rightarrow> nat \<Rightarrow> nat \<Rightarrow> bool" where
  "run_free bm n k \<longleftrightarrow> (\<forall>j<n. \<not> page_used bm (k + j))"

text \<open>The reference: the lowest start of a run of \<open>n\<close> free pages below \<open>N\<close>.\<close>

definition first_fit :: "u8 list \<Rightarrow> nat \<Rightarrow> nat \<Rightarrow> nat option" where
  "first_fit bm N n = find (run_free bm n) [0..<Suc N - n]"

lemma first_fit_Some:
  "first_fit bm N n = Some k \<longleftrightarrow> k + n \<le> N \<and> run_free bm n k \<and> (\<forall>k'<k. \<not> run_free bm n k')"
proof -
  have "first_fit bm N n = Some k \<longleftrightarrow>
      k < Suc N - n \<and> run_free bm n k \<and> (\<forall>k'<k. \<not> run_free bm n k')"
    by (auto simp: first_fit_def find_Some_iff)
  then show ?thesis by auto
qed

lemma first_fit_None: "first_fit bm N n = None \<longleftrightarrow> (\<forall>k. k + n \<le> N \<longrightarrow> \<not> run_free bm n k)"
  by (auto simp: first_fit_def find_None_iff)

text \<open>
  The loop invariant of the run search at index \<open>i\<close>: the last \<open>f\<close> pages before \<open>i\<close> are free
  and the page before them is not, fewer than \<open>n\<close> were found, and no run ended before \<open>i\<close>.
\<close>

definition run_inv :: "u8 list \<Rightarrow> nat \<Rightarrow> nat \<Rightarrow> nat \<Rightarrow> nat \<Rightarrow> bool" where
  "run_inv bm n i f start \<longleftrightarrow> f < n \<and> f \<le> i \<and> (f \<noteq> 0 \<longrightarrow> start = i - f)
     \<and> (\<forall>j. i - f \<le> j \<and> j < i \<longrightarrow> \<not> page_used bm j)
     \<and> (f < i \<longrightarrow> page_used bm (i - f - 1))"

lemma run_inv_no_earlier:
  assumes "run_inv bm n i f start" and "k < i - f" and "k + n > i - f"
  shows "\<not> run_free bm n k"
proof -
  have "page_used bm (i - f - 1)" using assms by (auto simp: run_inv_def)
  moreover have "k \<le> i - f - 1" "i - f - 1 - k < n" using assms by auto
  ultimately show ?thesis
    unfolding run_free_def by (metis le_add_diff_inverse)
qed

lemma find_free_run_first_fit:
  assumes "run_inv bm n i f start" and "n < 2 ^ 64" and "i \<le> N"
    and "\<forall>k. k + n \<le> i \<longrightarrow> \<not> run_free bm n k"
  shows "find_free_run bm N (of_nat n) i (of_nat f) start = first_fit bm N n"
  using assms
proof (induction "N - i" arbitrary: i f start)
  case 0
  then have "i = N" by simp
  with "0.prems" show ?case
    by (subst find_free_run.simps) (auto simp: first_fit_None eq_commute [of None])
next
  case (Suc d)
  have i: "i < N" using Suc.hyps(2) by simp
  note inv = Suc.prems(1)
  have fn: "f < n" and fi: "f \<le> i" using inv by (auto simp: run_inv_def)
  have f0: "(of_nat f :: u64) = 0 \<longleftrightarrow> f = 0"
    using fn Suc.prems(2) by (simp add: word_unat_eq_iff unat_of_nat)
  show ?case
  proof (cases "page_used bm i")
    case True
    have none: "\<not> run_free bm n k" if "k + n \<le> Suc i" for k
    proof (cases "k + n \<le> i")
      case True
      with Suc.prems(4) show ?thesis by blast
    next
      case False
      with that fn have "k + (n - 1) = i" "n - 1 < n" by auto
      with True show ?thesis unfolding run_free_def by metis
    qed
    have "run_inv bm n (Suc i) 0 start" using True fn by (auto simp: run_inv_def)
    then have "find_free_run bm N (of_nat n) (Suc i) 0 start = first_fit bm N n"
      using Suc.hyps(1) [of "Suc i" 0 start] Suc.hyps(2) Suc.prems(2) i none by simp
    then show ?thesis using True i by (subst find_free_run.simps) simp
  next
    case False
    let ?st = "if f = 0 then i else start"
    have st: "?st = i - f" using inv by (auto simp: run_inv_def)
    show ?thesis
    proof (cases "Suc f = n")
      case fin: True
      have "\<not> page_used bm (i - f + j)" if "j < n" for j
      proof (cases "j = f")
        case True
        with False fi show ?thesis by simp
      next
        case False
        with that fin fi have "i - f \<le> i - f + j \<and> i - f + j < i" by auto
        with inv show ?thesis unfolding run_inv_def by blast
      qed
      then have "run_free bm n (i - f)" by (simp add: run_free_def)
      moreover have "\<not> run_free bm n k" if "k < i - f" for k
        using run_inv_no_earlier [OF inv that] Suc.prems(4) that by (cases "k + n \<le> i - f") auto
      ultimately have "first_fit bm N n = Some (i - f)"
        using fin i fi by (auto simp: first_fit_Some)
      moreover have "of_nat f + 1 = (of_nat n :: u64)" using fin by (metis of_nat_Suc add.commute)
      ultimately show ?thesis
        using False i st f0 by (subst find_free_run.simps) (auto simp: Let_def)
    next
      case more: False
      have ne: "of_nat f + 1 \<noteq> (of_nat n :: u64)"
      proof
        assume "of_nat f + 1 = (of_nat n :: u64)"
        then have "of_nat (Suc f) = (of_nat n :: u64)" by (simp add: add.commute)
        then have "Suc f = n"
          using fn Suc.prems(2) by (simp only: word_unat_eq_iff unat_of_nat) simp
        with more show False by simp
      qed
      have none: "\<not> run_free bm n k" if "k + n \<le> Suc i" for k
      proof (cases "k + n \<le> i")
        case True
        with Suc.prems(4) show ?thesis by blast
      next
        case False
        with that have k: "k + n = Suc i" by simp
        then have "k < i - f" "k + n > i - f" using more fn fi by auto
        then show ?thesis by (rule run_inv_no_earlier [OF inv])
      qed
      have "run_inv bm n (Suc i) (Suc f) ?st"
        using inv False more fn st by (auto simp: run_inv_def less_Suc_eq)
      then have "find_free_run bm N (of_nat n) (Suc i) (of_nat (Suc f)) ?st = first_fit bm N n"
        using Suc.hyps(1) [of "Suc i" "Suc f" ?st] Suc.hyps(2) Suc.prems(2) i none by simp
      then show ?thesis
        using False i ne f0 by (subst find_free_run.simps) (simp add: Let_def add.commute)
    qed
  qed
qed

lemma find_free_run_eq_first_fit:
  assumes "count \<noteq> 0"
  shows "find_free_run bm N count 0 0 start = first_fit bm N (unat count)"
proof -
  have "0 < unat count" using assms by (simp add: word_less_nat_alt [symmetric] unat_gt_0)
  then show ?thesis
    using find_free_run_first_fit [of bm "unat count" 0 0 start N] unsigned_less [of count]
    by (simp add: run_inv_def)
qed

text \<open>The outcome of \<open>pmm_alloc_pages\<close> for any count the code searches for.\<close>

lemma pmm_alloc_pages_eq:
  assumes "pmm_inv s" and "1 < count"
  shows "pmm_alloc_pages count s = (case first_fit (static_bitmap s) (npages s) (unat count) of
      Some k \<Rightarrow> (page_addr s k,
        s\<lparr>static_bitmap := mark_run k (unat count) (static_bitmap s),
          total_allocations := total_allocations s + 1\<rparr>)
    | None \<Rightarrow> (NULL, s\<lparr>failed_allocations := failed_allocations s + 1\<rparr>))"
proof -
  have "count \<noteq> 0" "count \<noteq> 1" using assms(2) by auto
  then show ?thesis
    using assms by (simp add: pmm_alloc_pages_def find_free_run_eq_first_fit)
qed

lemma pmm_alloc_pages_inv:
  assumes "pmm_inv s"
  shows "pmm_inv (snd (pmm_alloc_pages count s))"
proof -
  have "pmm_inv (s\<lparr>static_bitmap := mark_run k n (static_bitmap s), total_allocations := a\<rparr>)" for k n a
    using assms by (simp add: pmm_inv_counters pmm_inv_bitmap_upd)
  then show ?thesis
    using assms pmm_alloc_page_inv [OF assms]
    by (auto simp: pmm_alloc_pages_def pmm_inv_counters split: option.split)
qed

lemma free_loop_config [simp]: "pmm_config (free_loop p n s) = pmm_config s"
proof (induction n)
  case (Suc n)
  then show ?case by (simp add: pmm_free_page_def)
qed simp

lemma free_loop_inv: "pmm_inv s \<Longrightarrow> pmm_inv (free_loop p n s)"
  by (induction n) (auto intro: pmm_free_page_inv)

lemma pmm_free_pages_inv: "pmm_inv s \<Longrightarrow> pmm_inv (pmm_free_pages p count s)"
  by (auto simp: pmm_free_pages_def Let_def intro: free_loop_inv pmm_free_page_inv)

section \<open>Runs of frames\<close>

text \<open>The frames of a run of \<open>n\<close> pages that starts at address \<open>p\<close>.\<close>

definition page_run :: "u64 \<Rightarrow> nat \<Rightarrow> u64 set" where
  "page_run p n = (\<lambda>j. p + of_nat j * 4096) ` {j. j < n}"

lemma page_addr_add: "pmm_inv s \<Longrightarrow> page_addr s (k + j) = page_addr s k + of_nat j * 4096"
  by (simp add: page_addr_def pmm_inv_page_size algebra_simps)

lemma page_run_addr:
  assumes "pmm_inv s"
  shows "page_run (page_addr s k) n = page_addr s ` {i. k \<le> i \<and> i < k + n}"
proof -
  have "{i. k \<le> i \<and> i < k + n} = (\<lambda>j. k + j) ` {j. j < n}"
    by (auto simp: image_iff) presburger
  then show ?thesis
    by (simp add: page_run_def page_addr_add [OF assms] image_image)
qed

lemma page_run_Suc: "page_run p (Suc n) = insert (p + of_nat n * 4096) (page_run p n)"
  by (auto simp: page_run_def less_Suc_eq)

lemma page_run_1 [simp]: "page_run p 1 = {p}" "page_run p (Suc 0) = {p}"
  by (auto simp: page_run_def)

lemma card_page_run:
  assumes "pmm_inv s" and "k + n \<le> npages s"
  shows "card (page_run (page_addr s k) n) = n"
proof -
  have "inj_on (page_addr s) {i. k \<le> i \<and> i < k + n}"
    using page_addr_inj [OF assms(1)] assms(2) by (auto intro!: inj_onI)
  moreover have "card {i. k \<le> i \<and> i < k + n} = n"
    using card_atLeastLessThan [of k "k + n"] by (simp add: atLeastLessThan_def lessThan_def atLeast_def Collect_conj_eq)
  ultimately show ?thesis
    by (simp add: page_run_addr [OF assms(1)] card_image)
qed

lemma free_frames_mark_run:
  assumes inv: "pmm_inv s" and k: "k + n \<le> npages s"
  shows "free_frames (s\<lparr>static_bitmap := mark_run k n (static_bitmap s)\<rparr>)
           = free_frames s - page_run (page_addr s k) n"
proof -
  let ?A = "{i. i < npages s \<and> \<not> page_used (static_bitmap s) i}"
  let ?B = "{i. k \<le> i \<and> i < k + n}"
  have "k + n \<le> 8 * length (static_bitmap s)" using inv k pmm_inv_bm by fastforce
  then have "{i. i < npages s \<and> \<not> page_used (mark_run k n (static_bitmap s)) i} = ?A - ?B"
    by (auto simp: page_used_mark_run)
  moreover have "inj_on (page_addr s) {i. i < npages s}"
    using page_addr_inj [OF inv] by (auto intro!: inj_onI)
  then have "page_addr s ` (?A - ?B) = page_addr s ` ?A - page_addr s ` ?B"
    by (rule inj_on_image_set_diff) (use k in auto)
  ultimately show ?thesis
    by (simp add: free_frames_def page_run_addr [OF inv])
qed

text \<open>
  The outcome of an allocation of \<open>count\<close> pages on the sets of frames, the single page case
  included.
\<close>

lemma pmm_alloc_pages_frames:
  assumes inv: "pmm_inv s" and al: "pmm_alloc_pages count s = (p, s')" and p: "p \<noteq> 0"
  obtains k where "p = page_addr s k" "k + unat count \<le> npages s"
    "run_free (static_bitmap s) (unat count) k"
    "static_bitmap s' = mark_run k (unat count) (static_bitmap s)"
    "page_run p (unat count) \<subseteq> free_frames s"
    "free_frames s' = free_frames s - page_run p (unat count)"
    "managed_frames s' = managed_frames s"
proof -
  have c0: "count \<noteq> 0" using al p by (auto simp: pmm_alloc_pages_def)
  have "\<exists>k. p = page_addr s k \<and> k + unat count \<le> npages s
      \<and> run_free (static_bitmap s) (unat count) k
      \<and> s' = s\<lparr>static_bitmap := mark_run k (unat count) (static_bitmap s),
          total_allocations := total_allocations s + 1\<rparr>"
  proof (cases "count = 1")
    case True
    with al inv have "pmm_alloc_page s = (p, s')" by (simp add: pmm_alloc_pages_def)
    with inv show ?thesis
      using True p by (cases rule: pmm_alloc_page_cases) (auto simp: run_free_def)
  next
    case False
    with c0 have "1 < count" by (simp add: word_gt_1)
    with al p inv show ?thesis
      by (auto simp: pmm_alloc_pages_eq first_fit_Some split: option.splits)
  qed
  then obtain k where k: "p = page_addr s k" "k + unat count \<le> npages s"
      "run_free (static_bitmap s) (unat count) k"
    and s': "s' = s\<lparr>static_bitmap := mark_run k (unat count) (static_bitmap s),
          total_allocations := total_allocations s + 1\<rparr>" by blast
  have "page_run p (unat count) \<subseteq> free_frames s"
  proof -
    have "\<not> page_used (static_bitmap s) i" if "k \<le> i" "i < k + unat count" for i
      using k(3) that unfolding run_free_def by (metis le_add_diff_inverse nat_add_left_cancel_less)
    then show ?thesis
      using k(1,2) by (auto simp: page_run_addr [OF inv] free_frames_def)
  qed
  with k s' that [of k] show thesis
    using free_frames_mark_run [OF inv k(2)] by simp
qed

lemma free_loop_frames:
  assumes "pmm_inv s" and "k + n \<le> npages s"
  shows "free_frames (free_loop (page_addr s k) n s)
      = free_frames s \<union> page_run (page_addr s k) n
    \<and> managed_frames (free_loop (page_addr s k) n s) = managed_frames s"
  using assms(2)
proof (induction n)
  case 0
  then show ?case by (simp add: page_run_def)
next
  case (Suc n)
  let ?t = "free_loop (page_addr s k) n s"
  have IH: "free_frames ?t = free_frames s \<union> page_run (page_addr s k) n"
    "managed_frames ?t = managed_frames s" using Suc by simp_all
  have t: "pmm_inv ?t" using assms(1) by (rule free_loop_inv)
  have "page_addr s k + of_nat n * 4096 = page_addr s (k + n)"
    by (simp add: page_addr_add [OF assms(1)])
  moreover have "page_addr s (k + n) \<in> managed_frames ?t"
    using IH(2) Suc.prems by (auto simp: managed_frames_def)
  ultimately show ?case
    using IH pmm.release_hit [OF t] pmm.release_frames [OF t] assms(1)
    by (simp add: page_run_Suc pmm_inv_page_size)
qed

lemma pmm_alloc_page_config [simp]: "pmm_config (snd (pmm_alloc_page s)) = pmm_config s"
  by (simp add: pmm_alloc_page_def split: option.split)

lemma pmm_alloc_pages_config [simp]: "pmm_config (snd (pmm_alloc_pages count s)) = pmm_config s"
  by (simp add: pmm_alloc_pages_def split: option.split)

lemma page_used_free_page:
  assumes inv: "pmm_inv s" and i: "i < npages s"
  shows "page_used (static_bitmap (pmm_free_page (page_addr s i) s)) j
     \<longleftrightarrow> j \<noteq> i \<and> page_used (static_bitmap s) j"
proof -
  have "i < 8 * length (static_bitmap s)" using inv i pmm_inv_bm by fastforce
  then show ?thesis
    using inv i by (auto simp: pmm_free_page_def page_addr_valid page_index_addr page_used_mark_free)
qed

lemma page_used_free_loop:
  assumes "pmm_inv s" and "k + n \<le> npages s"
  shows "page_used (static_bitmap (free_loop (page_addr s k) n s)) j
     \<longleftrightarrow> \<not> (k \<le> j \<and> j < k + n) \<and> page_used (static_bitmap s) j"
  using assms(2)
proof (induction n)
  case (Suc n)
  let ?t = "free_loop (page_addr s k) n s"
  have "page_addr s k + of_nat n * page_size (pmm_config s) = page_addr ?t (k + n)"
    by (simp add: page_addr_def algebra_simps)
  moreover have "pmm_inv ?t" "k + n < npages ?t" using assms(1) Suc.prems by (simp_all add: free_loop_inv)
  ultimately show ?case
    using Suc page_used_free_page [of ?t "k + n" j] by auto
qed simp

lemma pmm_free_pages_eq_loop:
  assumes inv: "pmm_inv s" and k: "k + unat count \<le> npages s" and c: "count \<noteq> 0"
  shows "pmm_free_pages (page_addr s k) count s = free_loop (page_addr s k) (unat count) s"
proof (cases "count = 1")
  case True
  then show ?thesis using inv by (simp add: pmm_free_pages_def)
next
  case False
  have n0: "0 < unat count" using c by (simp add: unat_gt_0)
  then have v: "\<not> invalid_page s (page_addr s k)" using k by (intro page_addr_valid [OF inv]) auto
  have "page_addr s k + count * 4096 = page_addr s (k + unat count)"
    by (simp add: page_addr_add [OF inv])
  then have "unat (page_addr s k + count * 4096)
      = unat (kernel_start (pmm_config s)) + (k + unat count) * 4096"
    using unat_page_addr [OF inv k] by simp
  then have "\<not> kernel_end (pmm_config s) < page_addr s k + count * 4096"
    using k unat_kernel_end [OF inv] by (simp add: word_less_nat_alt)
  then show ?thesis
    using False c v inv by (simp add: pmm_free_pages_def Let_def pmm_inv_page_size)
qed

section \<open>Ownership of frames over runs of the manager\<close>

text \<open>
  A client of the manager: the manager's state and the frames it holds. It may allocate one page
  or a run of pages, and release what it holds; a failed allocation changes nothing it holds.
\<close>

inductive pmm_step :: "pmm_state \<times> u64 set \<Rightarrow> pmm_state \<times> u64 set \<Rightarrow> bool" where
  alloc_one: "pmm_alloc_page s = (p, s') \<Longrightarrow> p \<noteq> 0 \<Longrightarrow> pmm_step (s, own) (s', insert p own)"
| alloc_run: "pmm_alloc_pages count s = (p, s') \<Longrightarrow> p \<noteq> 0 \<Longrightarrow>
     pmm_step (s, own) (s', page_run p (unat count) \<union> own)"
| alloc_one_fails: "pmm_alloc_page s = (0, s') \<Longrightarrow> pmm_step (s, own) (s', own)"
| alloc_run_fails: "pmm_alloc_pages count s = (0, s') \<Longrightarrow> pmm_step (s, own) (s', own)"
| free_one: "p \<in> own \<Longrightarrow> pmm_step (s, own) (pmm_free_page p s, own - {p})"
| free_run: "page_run (page_addr s k) (unat count) \<subseteq> own \<Longrightarrow> k + unat count \<le> npages s \<Longrightarrow>
     pmm_step (s, own) (pmm_free_pages (page_addr s k) count s,
       own - page_run (page_addr s k) (unat count))"

inductive pmm_reach :: "pmm_state \<Rightarrow> pmm_state \<times> u64 set \<Rightarrow> bool" for s0 where
  start: "pmm_reach s0 (s0, {})"
| step: "pmm_reach s0 c \<Longrightarrow> pmm_step c c' \<Longrightarrow> pmm_reach s0 c'"

text \<open>The held frames are managed and none of them is free.\<close>

definition pmm_client_inv :: "pmm_state \<times> u64 set \<Rightarrow> bool" where
  "pmm_client_inv c \<longleftrightarrow> pmm_inv (fst c) \<and> snd c \<subseteq> managed_frames (fst c)
     \<and> snd c \<inter> free_frames (fst c) = {}"

lemma alloc_failed_frames:
  assumes "pmm_inv s"
  shows "pmm_alloc_page s = (0, s') \<Longrightarrow> free_frames s' = free_frames s \<and> managed_frames s' = managed_frames s"
    and "pmm_alloc_pages count s = (0, s') \<Longrightarrow> free_frames s' = free_frames s \<and> managed_frames s' = managed_frames s"
proof -
  show one: "free_frames s' = free_frames s \<and> managed_frames s' = managed_frames s"
    if "pmm_alloc_page s = (0, s')" for s'
    using assms that
    by (cases rule: pmm_alloc_page_cases) (use assms page_addr_nonzero in auto)
  show "free_frames s' = free_frames s \<and> managed_frames s' = managed_frames s"
    if *: "pmm_alloc_pages count s = (0, s')"
  proof (cases "1 < count")
    case True
    have "page_addr s k \<noteq> 0" if "first_fit (static_bitmap s) (npages s) (unat count) = Some k" for k
      using that True page_addr_nonzero [OF assms, of k]
      by (auto simp: first_fit_Some word_less_nat_alt)
    with True * show ?thesis
      using pmm_alloc_pages_eq [OF assms True] by (auto split: option.splits)
  next
    case False
    then have "count = 0 \<or> count = 1" by (simp add: word_less_nat_alt not_less word_unat_eq_iff) linarith
    with * one show ?thesis using assms by (auto simp: pmm_alloc_pages_def)
  qed
qed

lemma pmm_step_inv: "pmm_step c c' \<Longrightarrow> pmm_client_inv c \<Longrightarrow> pmm_client_inv c'"
proof (induction rule: pmm_step.induct)
  case (alloc_one s p s' own)
  then have inv: "pmm_inv s" by (simp add: pmm_client_inv_def)
  from pmm.alloc_success [OF inv alloc_one.hyps] alloc_one.prems show ?case
    by (auto simp: pmm_client_inv_def)
next
  case (alloc_run count s p s' own)
  then have inv: "pmm_inv s" by (simp add: pmm_client_inv_def)
  have inv': "pmm_inv s'" using pmm_alloc_pages_inv [OF inv, of count] alloc_run.hyps(1) by simp
  show ?case
    by (rule pmm_alloc_pages_frames [OF inv alloc_run.hyps])
      (use inv' inv alloc_run.prems pmm.free_subset [OF inv] in \<open>auto simp: pmm_client_inv_def\<close>)
next
  case (alloc_one_fails s s' own)
  then have inv: "pmm_inv s" by (simp add: pmm_client_inv_def)
  with alloc_one_fails show ?case
    using pmm_alloc_page_inv [OF inv] alloc_failed_frames(1) [OF inv]
    by (auto simp: pmm_client_inv_def)
next
  case (alloc_run_fails count s s' own)
  then have inv: "pmm_inv s" by (simp add: pmm_client_inv_def)
  with alloc_run_fails show ?case
    using pmm_alloc_pages_inv [OF inv, of count] alloc_failed_frames(2) [OF inv]
    by (auto simp: pmm_client_inv_def)
next
  case (free_one p own s)
  then have inv: "pmm_inv s" and "p \<in> managed_frames s" by (auto simp: pmm_client_inv_def)
  with free_one.prems show ?case
    using pmm.release_hit [OF inv] pmm.release_invar [OF inv] pmm.release_frames [OF inv]
    by (auto simp: pmm_client_inv_def)
next
  case (free_run s k count own)
  then have inv: "pmm_inv s" by (simp add: pmm_client_inv_def)
  have inv': "pmm_inv (pmm_free_pages (page_addr s k) count s)" using inv by (rule pmm_free_pages_inv)
  show ?case
  proof (cases "count = 0")
    case True
    then show ?thesis using free_run.prems by (simp add: pmm_free_pages_def page_run_def)
  next
    case False
    with inv inv' free_run show ?thesis
      using free_loop_frames [OF inv free_run.hyps(2)] pmm_free_pages_eq_loop [OF inv free_run.hyps(2) False]
      by (auto simp: pmm_client_inv_def)
  qed
qed

lemma pmm_reach_inv: "pmm_reach s0 c \<Longrightarrow> pmm_inv s0 \<Longrightarrow> pmm_client_inv c"
  by (induction rule: pmm_reach.induct) (auto simp: pmm_client_inv_def [of "(_, {})"] intro: pmm_step_inv)

section \<open>Initialisation\<close>

text \<open>
  What the boot protocol promises of the memory map: no entry wraps around, usable entries are
  page aligned, and a usable entry overlaps no entry of another type.
\<close>

definition memmap_ok :: "memmap_entry list \<Rightarrow> bool" where
  "memmap_ok es \<longleftrightarrow> (\<forall>e \<in> set es. unat (entry_base e) + unat (entry_length e) < 2 ^ 63)
     \<and> (\<forall>u \<in> set es. entry_type u = MEMMAP_USABLE \<longrightarrow> entry_base u mod 4096 = 0
         \<and> (\<forall>e \<in> set es. entry_type e \<noteq> MEMMAP_USABLE \<longrightarrow>
              unat (entry_base e) + unat (entry_length e) \<le> unat (entry_base u)
            \<or> unat (entry_base u) + unat (entry_length u) \<le> unat (entry_base e)))"

lemma scan_memmap_region:
  assumes "scan_memmap es (tot, largest, start) = (tot', largest', start')"
  shows "(largest' = largest \<and> start' = start)
    \<or> (\<exists>e \<in> set es. entry_type e = MEMMAP_USABLE \<and> entry_length e = largest'
         \<and> entry_base e = start' \<and> 0x100000 \<le> start')"
  using assms
  by (induction es "(tot, largest, start)" arbitrary: tot largest start rule: scan_memmap.induct)
    (fastforce split: if_splits)+

lemma mark_region_empty: "region_end \<le> addr \<Longrightarrow> mark_region c addr region_end bm = Some bm"
  by (subst mark_region.simps) (auto dest: leD)

text \<open>A map none of whose reserved entries reaches into the managed range marks nothing.\<close>

lemma mark_memmap_disjoint:
  assumes "\<forall>e \<in> set es. entry_type e \<noteq> MEMMAP_USABLE \<longrightarrow>
     kernel_end c \<le> entry_base e \<or> entry_base e + entry_length e \<le> kernel_start c
     \<or> kernel_end c \<le> kernel_start c"
  shows "mark_memmap c es bm = Some bm"
  using assms
proof (induction es)
  case Nil
  then show ?case by simp
next
  case (Cons e es)
  then show ?case by (auto simp: Let_def mark_region_empty)
qed

lemma init_config_pages:
  "unat (max_pages (init_config largest start tot)) * 4096 \<le> unat largest"
  "unat (max_pages (init_config largest start tot)) \<le> 65536"
proof -
  let ?m = "unat (max_pages (init_config largest start tot))"
  have m: "ucast (of_nat (STATIC_BITMAP_SIZE * 8) :: u32) * PMM_BLOCK_SIZE = (0x10000000 :: u64)"
    by (simp add: STATIC_BITMAP_SIZE_def PMM_BLOCK_SIZE_def)
  have "?m * 4096 \<le> unat largest \<and> ?m \<le> 65536"
  proof (cases "largest < 0x10000000")
    case True
    then have "unat largest div 4096 < 65536"
      by (simp add: word_less_nat_alt div_less_iff_less_mult)
    moreover from this have "unat (ucast (largest div 4096) :: u32) = unat largest div 4096"
      by (simp add: unsigned_ucast_eq take_bit_nat_eq_self unat_div)
    ultimately show ?thesis
      using True unfolding init_config_def Let_def m by (simp add: PMM_BLOCK_SIZE_def)
  next
    case False
    then show ?thesis
      unfolding init_config_def Let_def m by (simp add: STATIC_BITMAP_SIZE_def word_less_nat_alt)
  qed
  then show "?m * 4096 \<le> unat largest" and "?m \<le> 65536" by auto
qed

lemma init_config_start [simp]: "kernel_start (init_config largest start tot) = start"
  "page_size (init_config largest start tot) = PMM_BLOCK_SIZE"
  by (simp_all add: init_config_def Let_def)

lemma init_config_end:
  "kernel_end (init_config largest start tot)
     = start + of_nat (unat (max_pages (init_config largest start tot))) * 4096"
  by (simp add: init_config_def Let_def PMM_BLOCK_SIZE_def unsigned_of_nat)

lemma unat_init_config_end:
  assumes "unat start + unat largest < 2 ^ 63"
  shows "unat (kernel_end (init_config largest start tot))
     = unat start + unat (max_pages (init_config largest start tot)) * 4096"
proof -
  let ?n = "unat (max_pages (init_config largest start tot)) * 4096"
  have le: "?n \<le> unat largest" by (rule init_config_pages)
  then have "unat (of_nat ?n :: u64) = ?n"
    using assms by (intro unat_of_nat_small) simp
  then have "unat (start + of_nat ?n) = unat start + ?n"
    using le assms by (subst unat_add_no_wrap) auto
  then show ?thesis by (simp add: init_config_end)
qed

text \<open>Where the scan leaves the managed range.\<close>

lemma scan_memmap_ok:
  assumes "memmap_ok es" and "scan_memmap es (0, 0, 0x100000) = (tot, largest, start)"
  shows "(largest = 0 \<and> start = 0x100000) \<or> (\<exists>e \<in> set es. entry_type e = MEMMAP_USABLE
      \<and> entry_length e = largest \<and> entry_base e = start)"
    and "start mod 4096 = 0" and "0x100000 \<le> start" and "unat start + unat largest < 2 ^ 63"
  using scan_memmap_region [OF assms(2)] assms(1) by (auto simp: memmap_ok_def)

lemma mark_memmap_init:
  assumes ok: "memmap_ok es" and sc: "scan_memmap es (0, 0, 0x100000) = (tot, largest, start)"
  shows "mark_memmap (init_config largest start tot) es bm = Some bm"
proof (rule mark_memmap_disjoint, intro ballI impI)
  let ?c = "init_config largest start tot"
  note ke = unat_init_config_end [OF scan_memmap_ok(4) [OF ok sc], of tot]
  note mp = init_config_pages(1) [of largest start tot]
  fix e assume e: "e \<in> set es" "entry_type e \<noteq> MEMMAP_USABLE"
  have ue: "unat (entry_base e + entry_length e) = unat (entry_base e) + unat (entry_length e)"
    using ok e by (intro unat_add_no_wrap) (auto simp: memmap_ok_def)
  show "kernel_end ?c \<le> entry_base e \<or> entry_base e + entry_length e \<le> kernel_start ?c
      \<or> kernel_end ?c \<le> kernel_start ?c"
  proof (cases "largest = 0")
    case True
    then show ?thesis using mp ke by (simp add: word_le_nat_alt)
  next
    case False
    with scan_memmap_ok(1) [OF ok sc] obtain u where "u \<in> set es" "entry_type u = MEMMAP_USABLE"
      "entry_length u = largest" "entry_base u = start" by auto
    with ok e have "unat (entry_base e) + unat (entry_length e) \<le> unat start
        \<or> unat start + unat largest \<le> unat (entry_base e)"
      by (fastforce simp: memmap_ok_def)
    then show ?thesis using ke mp ue by (auto simp: word_le_nat_alt)
  qed
qed

lemma pmm_init_result:
  assumes ok: "memmap_ok es"
  obtains s' where "pmm_init (Some es) s = Some s'" "pmm_inv s'"
    "\<And>i. i < npages s' \<Longrightarrow> page_used (static_bitmap s') i \<longleftrightarrow> i < 256"
    "npages s' = 0 \<or> (\<exists>e \<in> set es. entry_type e = MEMMAP_USABLE
        \<and> entry_base e = kernel_start (pmm_config s') \<and> npages s' * 4096 \<le> unat (entry_length e))"
proof -
  obtain tot largest start where sc: "scan_memmap es (0, 0, 0x100000) = (tot, largest, start)"
    by (metis prod_cases3)
  note st = scan_memmap_ok [OF ok sc]
  define c where "c = init_config largest start tot"
  have mp: "unat (max_pages c) * 4096 \<le> unat largest" "unat (max_pages c) \<le> 65536"
    unfolding c_def by (rule init_config_pages)+
  let ?bm0 = "replicate STATIC_BITMAP_SIZE 0 :: u8 list"
  have init: "pmm_init (Some es) s = Some (s\<lparr>pmm_config := c,
      static_bitmap := mark_first (min 256 (unat (max_pages c))) ?bm0, page_bitmap_set := True,
      bitmap_size := of_nat STATIC_BITMAP_SIZE\<rparr>)" (is "_ = Some ?s'")
    by (simp add: pmm_init_def sc mark_memmap_init [OF ok sc] c_def Let_def)
  have "pmm_inv ?s'"
    using st mp by (simp add: pmm_inv_def c_def STATIC_BITMAP_SIZE_def init_config_end)
  moreover have "page_used (static_bitmap ?s') i \<longleftrightarrow> i < 256" if "i < npages ?s'" for i
  proof -
    have "\<not> page_used ?bm0 i"
      using that mp by (simp add: page_used_bit STATIC_BITMAP_SIZE_def div_less_iff_less_mult)
    then show ?thesis using that mp by (simp add: page_used_mark_first STATIC_BITMAP_SIZE_def)
  qed
  moreover have "npages ?s' = 0 \<or> (\<exists>e \<in> set es. entry_type e = MEMMAP_USABLE
        \<and> entry_base e = kernel_start (pmm_config ?s') \<and> npages ?s' * 4096 \<le> unat (entry_length e))"
    using st(1) mp by (auto simp: c_def)
  ultimately show thesis using that init by blast
qed

section \<open>Memory counters\<close>

lemma card_free_frames:
  assumes "pmm_inv s"
  shows "card (free_frames s) = count_below (\<lambda>i. \<not> page_used (static_bitmap s) i) (npages s)"
  unfolding free_frames_def count_below_card
  by (rule card_image) (auto intro!: inj_onI dest: page_addr_inj [OF assms])

lemma unat_count_memory:
  assumes "pmm_inv s"
  shows "unat (of_nat (count_below P (npages s)) * page_size (pmm_config s)) = count_below P (npages s) * 4096"
proof -
  have "count_below P (npages s) * 4096 \<le> npages s * 4096" by (simp add: count_below_le)
  also have "\<dots> < 2 ^ 64" using assms by (simp add: pmm_inv_def)
  finally have "unat (of_nat (count_below P (npages s) * 4096) :: u64) = count_below P (npages s) * 4096"
    by (intro unat_of_nat_small) simp
  then show ?thesis using assms by (simp add: pmm_inv_page_size)
qed

lemma unat_free_memory:
  "pmm_inv s \<Longrightarrow> unat (pmm_get_free_memory s) = card (free_frames s) * 4096"
  by (simp add: pmm_get_free_memory_def unat_count_memory card_free_frames)

lemma unat_free_used_memory:
  assumes "pmm_inv s"
  shows "unat (pmm_get_free_memory s) + unat (pmm_get_used_memory s) = npages s * 4096"
proof -
  let ?P = "page_used (static_bitmap s)"
  have "count_below ?P (npages s) + count_below (\<lambda>i. \<not> ?P i) (npages s) = npages s"
    by (rule count_below_compl)
  then show ?thesis
    using assms
    by (simp add: pmm_get_free_memory_def pmm_get_used_memory_def unat_count_memory add.commute
        flip: distrib_right)
qed

end
