(* ===== verification/Strings_Correct.thy ===== *)
theory Strings_Correct
  imports Strings
begin

text \<open>
  Correctness of the string library: the block operations byte by byte, overlap included, and the
  operations on terminated strings against lists of bytes.
\<close>

section \<open>Blocks\<close>

lemma offset_eq_iff:
  fixes b d :: u64
  assumes "n < 2 ^ 64"
  shows "b = d + of_nat n \<longleftrightarrow> unat (b - d) = n"
proof
  assume "b = d + of_nat n"
  then show "unat (b - d) = n" using assms by (simp add: unat_of_nat_small)
next
  assume "unat (b - d) = n"
  then have "b - d = of_nat n" by auto
  then show "b = d + of_nat n" by (metis add.commute diff_add_cancel)
qed

lemma offset_less:
  fixes b d :: u64
  assumes "unat (b - d) < n"
  shows "b = d + of_nat (unat (b - d))"
  by simp

lemma fill_up_apply:
  "n \<le> 2 ^ 64 \<Longrightarrow> fill_up s c n m b = (if unat (b - s) < n then c else m b)"
  by (induction n) (auto simp: offset_eq_iff less_Suc_eq)

lemma copy_up_apply:
  assumes "n \<le> 2 ^ 64" and "\<And>k j. k < n \<Longrightarrow> j < k \<Longrightarrow> src + of_nat k \<noteq> dest + of_nat j"
  shows "copy_up dest src n m b = (if unat (b - dest) < n then m (src + (b - dest)) else m b)"
  using assms
proof (induction n arbitrary: b)
  case 0
  then show ?case by simp
next
  case (Suc n)
  have IH: "copy_up dest src n m b = (if unat (b - dest) < n then m (src + (b - dest)) else m b)" for b
    using Suc by simp
  have "\<not> unat (src + of_nat n - dest) < n"
    using Suc.prems(2) [of n "unat (src + of_nat n - dest)"] by auto
  then have "copy_up dest src n m (src + of_nat n) = m (src + of_nat n)" by (simp add: IH)
  then show ?case
    using Suc.prems(1) IH [of b] offset_eq_iff [of n b dest]
    by (auto simp: Let_def less_Suc_eq)
qed

lemma copy_down_apply:
  assumes "n \<le> 2 ^ 64" and "\<And>k j. k < j \<Longrightarrow> j < n \<Longrightarrow> src + of_nat k \<noteq> dest + of_nat j"
  shows "copy_down dest src n m b = (if unat (b - dest) < n then m (src + (b - dest)) else m b)"
  using assms
proof (induction n arbitrary: m)
  case 0
  then show ?case by simp
next
  case (Suc n)
  let ?m = "m(dest + of_nat n := m (src + of_nat n))"
  have IH: "copy_down dest src n ?m b = (if unat (b - dest) < n then ?m (src + (b - dest)) else ?m b)"
    using Suc by simp
  have "src + (b - dest) \<noteq> dest + of_nat n" if "unat (b - dest) < n"
    using Suc.prems(2) [of "unat (b - dest)" n] that by simp
  then show ?case
    using IH Suc.prems(1) offset_eq_iff [of n b dest] by (auto simp: less_Suc_eq)
qed

lemma add_of_nat_less:
  assumes "unat (p :: u64) + n \<le> 2 ^ 64" and "k < n"
  shows "unat (p + of_nat k) = unat p + k"
proof -
  have "unat (of_nat k :: u64) = k" using assms by (intro unat_of_nat_small) simp
  then show ?thesis using assms by (subst unat_add_no_wrap) auto
qed

lemma memmove_apply:
  assumes "unat src + unat n \<le> 2 ^ 64" and "unat dest + unat n \<le> 2 ^ 64"
  shows "snd (memmove dest src n m) b
    = (if unat (b - dest) < unat n then m (src + (b - dest)) else m b)"
proof -
  have n: "unat n \<le> 2 ^ 64" using assms by simp
  have "src + of_nat k \<noteq> dest + of_nat j" if "dest < src" "k < unat n" "j < k" for k j
    using add_of_nat_less [OF assms(1) that(2)] add_of_nat_less [OF assms(2), of j] that
    by (auto simp: word_less_nat_alt word_unat_eq_iff)
  moreover have "src + of_nat k \<noteq> dest + of_nat j" if "src < dest" "k < j" "j < unat n" for k j
    using add_of_nat_less [OF assms(1), of k] add_of_nat_less [OF assms(2) that(3)] that
    by (auto simp: word_less_nat_alt word_unat_eq_iff)
  ultimately show ?thesis
    using copy_up_apply [OF n] copy_down_apply [OF n]
    by (auto simp: memmove_def not_less_iff_gr_or_eq)
qed

lemma memset_apply:
  "snd (memset s c n m) b = (if unat (b - s) < unat n then ucast c else m b)"
  using fill_up_apply [of "unat n" s "ucast c" m b] unat_lt_u64 [of n]
  by (simp add: memset_def)

lemma memcpy_apply:
  assumes "\<And>k j. k < unat n \<Longrightarrow> j < k \<Longrightarrow> src + of_nat k \<noteq> dest + of_nat j"
  shows "snd (memcpy dest src n m) b
    = (if unat (b - dest) < unat n then m (src + (b - dest)) else m b)"
  using copy_up_apply [of "unat n" src dest m b] assms unat_lt_u64 [of n]
  by (simp add: memcpy_def)

section \<open>Terminated strings\<close>

text \<open>The bytes \<open>xs\<close>, none of them the terminator, lie at \<open>p\<close> and the terminator follows.\<close>

fun cstr :: "memory \<Rightarrow> u64 \<Rightarrow> u8 list \<Rightarrow> bool" where
  "cstr m p [] \<longleftrightarrow> m p = 0"
| "cstr m p (x # xs) \<longleftrightarrow> m p = x \<and> x \<noteq> 0 \<and> cstr m (p + 1) xs"

lemma cstr_iff:
  "cstr m p xs \<longleftrightarrow> (\<forall>i<length xs. m (p + of_nat i) = xs ! i) \<and> 0 \<notin> set xs
     \<and> m (p + of_nat (length xs)) = 0"
proof (induction xs arbitrary: p)
  case Nil
  then show ?case by simp
next
  case (Cons x xs)
  have "(\<forall>i<length (x # xs). m (p + of_nat i) = (x # xs) ! i)
      \<longleftrightarrow> m p = x \<and> (\<forall>i<length xs. m (p + 1 + of_nat i) = xs ! i)"
    by (auto simp: less_Suc_eq_0_disj add.assoc)
  then show ?case using Cons [of "p + 1"] by (auto simp: add.assoc)
qed

text \<open>A terminated string is read in one way only.\<close>

lemma cstr_unique: "cstr m p xs \<Longrightarrow> cstr m p ys \<Longrightarrow> xs = ys"
proof (induction xs arbitrary: p ys)
  case Nil
  then show ?case by (cases ys) auto
next
  case (Cons x xs)
  then show ?case by (cases ys) auto
qed

lemma find_end_cstr: "cstr m p xs \<Longrightarrow> find_end m p = Some (p + of_nat (length xs))"
proof (induction xs arbitrary: p)
  case Nil
  then show ?case by (subst find_end.simps) simp
next
  case (Cons x xs)
  then show ?case by (subst find_end.simps) (simp add: add.assoc)
qed

lemma strlen_cstr: "cstr m p xs \<Longrightarrow> strlen p m = Some (of_nat (length xs))"
  by (simp add: strlen_def find_end_cstr)

text \<open>
  Copying a string to a place that none of its bytes overlaps gives the block copy of the string
  and its terminator.
\<close>

lemma strcpy_loop_cstr:
  assumes "cstr m src xs"
    and "\<And>i j. i \<le> length xs \<Longrightarrow> j \<le> length xs \<Longrightarrow> src + of_nat i \<noteq> d + of_nat j"
  shows "\<exists>m'. strcpy_loop d src m = Some m'
    \<and> (\<forall>i\<le>length xs. m' (d + of_nat i) = m (src + of_nat i))
    \<and> (\<forall>b. (\<forall>i\<le>length xs. b \<noteq> d + of_nat i) \<longrightarrow> m' b = m b)"
  using assms
proof (induction xs arbitrary: d src m)
  case Nil
  then show ?case by (subst strcpy_loop.simps) (auto simp: Let_def)
next
  case (Cons x xs)
  let ?m = "m(d := x)"
  have sd: "src + of_nat i \<noteq> d + of_nat j" if "i \<le> Suc (length xs)" "j \<le> Suc (length xs)" for i j
    using Cons.prems(2) that by simp
  have ne: "src + 1 + of_nat i \<noteq> d" if "i \<le> length xs" for i
    using sd [of "Suc i" 0] that by (simp add: add.assoc)
  have cs: "cstr ?m (src + 1) xs"
    using Cons.prems(1) ne by (auto simp: cstr_iff [of _ "src + 1"])
  have dj: "src + 1 + of_nat i \<noteq> d + 1 + of_nat j" if "i \<le> length xs" "j \<le> length xs" for i j
    using sd [of "Suc i" "Suc j"] that by (simp add: add.assoc)
  obtain m' where m': "strcpy_loop (d + 1) (src + 1) ?m = Some m'"
    "\<forall>i\<le>length xs. m' (d + 1 + of_nat i) = ?m (src + 1 + of_nat i)"
    "\<forall>b. (\<forall>i\<le>length xs. b \<noteq> d + 1 + of_nat i) \<longrightarrow> m' b = ?m b"
    using Cons.IH [OF cs dj] by blast
  have "strcpy_loop d src m = Some m'"
    using Cons.prems(1) m'(1) by (subst strcpy_loop.simps) simp
  moreover have "m' (d + of_nat i) = m (src + of_nat i)" if "i \<le> length (x # xs)" for i
  proof (cases i)
    case 0
    have len: "Suc (length xs) < 2 ^ 64"
    proof (rule ccontr)
      assume "\<not> ?thesis"
      then have "unat (d - src) \<le> Suc (length xs)" using unat_lt_u64 [of "d - src"] by linarith
      with sd [of "unat (d - src)" 0] show False by simp
    qed
    have "d \<noteq> d + 1 + of_nat j" if "j \<le> length xs" for j
      using offset_eq_iff [of "Suc j" d d] len that by (simp add: add.assoc)
    then show ?thesis using m'(3) Cons.prems(1) 0 by auto
  next
    case (Suc k)
    then show ?thesis using m'(2) ne that by (simp add: add.assoc [symmetric])
  qed
  moreover have "m' b = m b" if "\<forall>i\<le>length (x # xs). b \<noteq> d + of_nat i" for b
  proof -
    have "b \<noteq> d + 1 + of_nat i" if "i \<le> length xs" for i
      using \<open>\<forall>i\<le>length (x # xs). b \<noteq> d + of_nat i\<close> that by (auto dest: spec [of _ "Suc i"] simp: add.assoc)
    moreover have "b \<noteq> d" using that by (auto dest: spec [of _ 0])
    ultimately show ?thesis using m'(3) by auto
  qed
  ultimately show ?case by blast
qed

lemma strcpy_cstr:
  assumes "cstr m src xs"
    and "\<And>i j. i \<le> length xs \<Longrightarrow> j \<le> length xs \<Longrightarrow> src + of_nat i \<noteq> dest + of_nat j"
  shows "\<exists>m'. strcpy dest src m = Some (dest, m') \<and> cstr m' dest xs
    \<and> (\<forall>b. (\<forall>i\<le>length xs. b \<noteq> dest + of_nat i) \<longrightarrow> m' b = m b)"
proof -
  obtain m' where m': "strcpy_loop dest src m = Some m'"
    "\<forall>i\<le>length xs. m' (dest + of_nat i) = m (src + of_nat i)"
    "\<forall>b. (\<forall>i\<le>length xs. b \<noteq> dest + of_nat i) \<longrightarrow> m' b = m b"
    using strcpy_loop_cstr [OF assms] by blast
  have "cstr m' dest xs" using assms(1) m'(2) by (auto simp: cstr_iff)
  with m' show ?thesis by (simp add: strcpy_def)
qed

text \<open>\<open>strcat\<close> appends the second string in place.\<close>

lemma cstr_append:
  "cstr m p xs \<Longrightarrow> cstr m' (p + of_nat (length xs)) ys \<Longrightarrow> \<forall>i<length xs. m' (p + of_nat i) = m (p + of_nat i)
   \<Longrightarrow> cstr m' p (xs @ ys)"
proof (induction xs arbitrary: p)
  case Nil
  then show ?case by simp
next
  case (Cons x xs)
  have "m' p = m p" using Cons.prems(3) by auto
  moreover have "\<forall>i<length xs. m' (p + 1 + of_nat i) = m (p + 1 + of_nat i)"
    using Cons.prems(3) by (auto simp: add.assoc dest: spec [of _ "Suc _"])
  ultimately show ?case using Cons by (simp add: add.assoc)
qed

section \<open>Comparison\<close>

text \<open>The lexicographic order on byte strings that the comparison functions decide.\<close>

definition bytes_less :: "u8 list \<Rightarrow> u8 list \<Rightarrow> bool" where
  "bytes_less xs ys \<longleftrightarrow> (xs, ys) \<in> lexord {(x, y). x < y}"

lemma bytes_less_simps [simp]:
  "\<not> bytes_less xs []"
  "bytes_less [] (y # ys)"
  "bytes_less (x # xs) (y # ys) \<longleftrightarrow> x < y \<or> x = y \<and> bytes_less xs ys"
  by (auto simp: bytes_less_def)

lemma uint_diff_u8:
  "uint (x :: u8) - uint y < 0 \<longleftrightarrow> x < y" "uint x - uint y = 0 \<longleftrightarrow> x = (y :: u8)"
  by (auto simp: word_less_def word_uint_eq_iff)

lemma uint_pos_u8: "w \<noteq> 0 \<Longrightarrow> 0 < uint (w :: u8)"
  by (metis word_greater_zero_iff word_less_def uint_0_eq)

lemma strcmp_cstr:
  "cstr m a xs \<Longrightarrow> cstr m b ys \<Longrightarrow>
   \<exists>r. strcmp a b m = Some r \<and> (r = 0 \<longleftrightarrow> xs = ys) \<and> (r < 0 \<longleftrightarrow> bytes_less xs ys)"
  unfolding strcmp_def
proof (induction xs arbitrary: a b ys)
  case Nil
  then show ?case
    by (cases ys; subst strcmp_loop.simps) (auto simp: uint_pos_u8 dest: uint_pos_u8)
next
  case (Cons x xs)
  show ?case
  proof (cases "m a = m b")
    case True
    with Cons.prems obtain y ys' where "ys = y # ys'" "y = x" "cstr m (b + 1) ys'"
      by (cases ys) auto
    with Cons True show ?thesis by (subst strcmp_loop.simps) auto
  next
    case False
    with Cons.prems show ?thesis
      by (cases ys; subst strcmp_loop.simps)
        (auto simp: word_less_def word_uint_eq_iff dest: uint_pos_u8)
  qed
qed

text \<open>The bytes of a block.\<close>

definition bytes_at :: "memory \<Rightarrow> u64 \<Rightarrow> nat \<Rightarrow> u8 list" where
  "bytes_at m p n = map (\<lambda>i. m (p + of_nat i)) [0..<n]"

lemma bytes_at_simps [simp]:
  "bytes_at m p 0 = []"
  "bytes_at m p (Suc n) = m p # bytes_at m (p + 1) n"
  by (simp_all add: bytes_at_def upt_conv_Cons map_Suc_upt [symmetric] add.assoc del: upt_Suc)

lemma memcmp_loop_lex:
  "memcmp_loop m a b n = (if bytes_at m a n = bytes_at m b n then 0
     else if bytes_less (bytes_at m a n) (bytes_at m b n) then -1 else 1)"
  by (induction n arbitrary: a b) auto

section \<open>Searching\<close>

text \<open>The first and the last position of a character value in a string.\<close>

fun first_occ :: "int \<Rightarrow> u8 list \<Rightarrow> nat option" where
  "first_occ c [] = None"
| "first_occ c (x # xs) = (if sint x = c then Some 0 else map_option Suc (first_occ c xs))"

fun last_occ :: "int \<Rightarrow> u8 list \<Rightarrow> nat option" where
  "last_occ c [] = None"
| "last_occ c (x # xs) = (case last_occ c xs of
     Some i \<Rightarrow> Some (Suc i)
   | None \<Rightarrow> if sint x = c then Some 0 else None)"

lemma first_occ_Some:
  "first_occ c xs = Some i \<Longrightarrow> i < length xs \<and> sint (xs ! i) = c \<and> (\<forall>j<i. sint (xs ! j) \<noteq> c)"
  by (induction xs arbitrary: i) (fastforce split: if_splits simp: less_Suc_eq_0_disj)+

lemma last_occ_None: "last_occ c xs = None \<longleftrightarrow> c \<notin> sint ` set xs"
  by (induction xs) (auto split: option.splits)

lemma last_occ_Some:
  "last_occ c xs = Some i \<Longrightarrow>
   i < length xs \<and> sint (xs ! i) = c \<and> (\<forall>j. i < j \<and> j < length xs \<longrightarrow> sint (xs ! j) \<noteq> c)"
proof (induction xs arbitrary: i)
  case Nil
  then show ?case by simp
next
  case (Cons x xs)
  show ?case
  proof (cases "last_occ c xs")
    case None
    then have "i = 0" "sint x = c" using Cons.prems by (auto split: if_splits)
    moreover have "sint (xs ! k) \<noteq> c" if "k < length xs" for k
      using None that by (auto simp: last_occ_None)
    ultimately show ?thesis by (auto simp: nth_Cons split: nat.splits)
  next
    case (Some k)
    then have "i = Suc k" using Cons.prems by simp
    with Cons.IH [OF Some] show ?thesis by (auto simp: nth_Cons split: nat.splits)
  qed
qed

lemma strchr_cstr:
  "cstr m s xs \<Longrightarrow> strchr s c m = Some (case first_occ c xs of
     Some i \<Rightarrow> s + of_nat i | None \<Rightarrow> if c = 0 then s + of_nat (length xs) else NULL)"
  unfolding strchr_def
proof (induction xs arbitrary: s)
  case Nil
  then show ?case by (subst strchr_loop.simps) simp
next
  case (Cons x xs)
  then show ?case
    by (subst strchr_loop.simps) (auto simp: add.assoc split: option.split)
qed

lemma strrchr_loop_cstr:
  "cstr m s xs \<Longrightarrow> strrchr_loop m s c found = Some (s + of_nat (length xs),
     case last_occ c xs of Some i \<Rightarrow> s + of_nat i | None \<Rightarrow> found)"
proof (induction xs arbitrary: s found)
  case Nil
  then show ?case by (subst strrchr_loop.simps) simp
next
  case (Cons x xs)
  then show ?case
    by (subst strrchr_loop.simps) (auto simp: add.assoc split: option.split)
qed

lemma strrchr_cstr:
  "cstr m s xs \<Longrightarrow> strrchr s c m = Some (if (ucast c :: u8) = 0 then s + of_nat (length xs)
     else case last_occ (uint (ucast c :: u8)) xs of Some i \<Rightarrow> s + of_nat i | None \<Rightarrow> NULL)"
  by (auto simp: strrchr_def Let_def strrchr_loop_cstr uint_0_iff split: option.split)

text \<open>The sign extended byte agrees with the unsigned one exactly below 128.\<close>

lemma sint_eq_uint_u8: "(c :: u8) < 128 \<Longrightarrow> sint x = uint c \<longleftrightarrow> x = c"
proof -
  assume "c < 128"
  then have "uint c < 128" by (simp add: word_less_def)
  then have "signed_take_bit 7 (uint c) = uint c"
    by (intro signed_take_bit_int_eq_self order_trans [OF _ unsigned_greater_eq]) simp_all
  then have "sint c = uint c" by (simp add: sint_uint)
  then show ?thesis by (metis signed_word_eqI)
qed

lemma sint_ne_uint_u8: "128 \<le> (c :: u8) \<Longrightarrow> sint (x :: u8) \<noteq> uint c"
proof -
  assume "128 \<le> c"
  then have "128 \<le> uint c" by (simp add: word_le_def)
  moreover have "sint x < 128" using sint_less [of x] by simp
  ultimately show ?thesis by linarith
qed

section \<open>Properties\<close>

text \<open>A memory for the instances: the given bytes at 0x1000, zero elsewhere.\<close>

definition demo_mem :: "u8 list \<Rightarrow> memory" where
  "demo_mem bs a = (if unat (a - 0x1000) < length bs then bs ! unat (a - 0x1000) else 0)"

text \<open>
  \<^bold>\<open>C28\<close>. \<open>memmove\<close> moves a block correctly however source and destination overlap, as long as neither
  block wraps around the address space: every byte of the destination block gets the byte the
  source block held before the call, and no other byte changes.
\<close>

theorem memmove_correct:
  assumes "unat src + unat n \<le> 2 ^ 64" and "unat dest + unat n \<le> 2 ^ 64"
  shows "fst (memmove dest src n m) = dest
    \<and> (\<forall>i<unat n. snd (memmove dest src n m) (dest + of_nat i) = m (src + of_nat i))
    \<and> (\<forall>b. (\<forall>i<unat n. b \<noteq> dest + of_nat i) \<longrightarrow> snd (memmove dest src n m) b = m b)"
proof -
  have "unat (dest + of_nat i - dest) = i" if "i < unat n" for i
    using that unat_lt_u64 [of n] by (simp add: unat_of_nat_small)
  moreover have "\<not> unat (b - dest) < unat n" if "\<forall>i<unat n. b \<noteq> dest + of_nat i" for b
    using that by (auto dest!: spec [of _ "unat (b - dest)"])
  ultimately show ?thesis
    using memmove_apply [OF assms] by (simp add: memmove_def)
qed

theorem memmove_correct_witness:
  "unat (0x1000 :: u64) + unat (3 :: u64) \<le> 2 ^ 64 \<and> unat (0x1001 :: u64) + unat (3 :: u64) \<le> 2 ^ 64
    \<and> snd (memmove 0x1001 0x1000 3 (demo_mem [7, 8, 9])) 0x1003 = 9"
proof -
  have "\<forall>i<3. snd (memmove 0x1001 0x1000 3 (demo_mem [7, 8, 9])) (0x1001 + of_nat i)
      = demo_mem [7, 8, 9] (0x1000 + of_nat i)"
    using memmove_correct [of "0x1000" 3 "0x1001" "demo_mem [7, 8, 9]"] by simp
  from this [rule_format, of 2] show ?thesis by (simp add: demo_mem_def)
qed

text \<open>
  \<open>strcat\<close> returns on every pair of terminated strings and leaves their concatenation at the
  destination, provided the source does not overlap the destination string and the room after it;
  no byte outside that room changes.
\<close>

theorem strcat_correct:
  assumes "cstr m dest xs" and "cstr m src ys"
    and "\<forall>i\<le>length ys. \<forall>j\<le>length ys. src + of_nat i \<noteq> dest + of_nat (length xs + j)"
    and "length xs + length ys < 2 ^ 64"
  shows "\<exists>m'. strcat dest src m = Some (dest, m') \<and> cstr m' dest (xs @ ys)
    \<and> (\<forall>b. (\<forall>j\<le>length ys. b \<noteq> dest + of_nat (length xs + j)) \<longrightarrow> m' b = m b)"
proof -
  let ?d = "dest + of_nat (length xs)"
  have dj: "src + of_nat i \<noteq> ?d + of_nat j" if "i \<le> length ys" "j \<le> length ys" for i j
    using assms(3) that by (simp add: add.assoc)
  obtain m' where m': "strcpy_loop ?d src m = Some m'"
    "\<forall>i\<le>length ys. m' (?d + of_nat i) = m (src + of_nat i)"
    "\<forall>b. (\<forall>i\<le>length ys. b \<noteq> ?d + of_nat i) \<longrightarrow> m' b = m b"
    using strcpy_loop_cstr [OF assms(2) dj] by blast
  have "cstr m' ?d ys" using assms(2) m'(2) by (auto simp: cstr_iff)
  moreover have "m' (dest + of_nat i) = m (dest + of_nat i)" if "i < length xs" for i
  proof -
    have "dest + of_nat i \<noteq> dest + of_nat (length xs + j)" if "j \<le> length ys" for j
      using \<open>i < length xs\<close> that assms(4) unat_of_nat_small [of i, where 'a = 64]
        unat_of_nat_small [of "length xs + j", where 'a = 64] by (auto simp flip: of_nat_add)
    then show ?thesis using m'(3) by (simp add: add.assoc)
  qed
  ultimately have "cstr m' dest (xs @ ys)" using assms(1) by (intro cstr_append) auto
  then show ?thesis
    using m' find_end_cstr [OF assms(1)] by (simp add: strcat_def add.assoc)
qed

theorem strcat_correct_witness:
  "\<exists>m'. strcat 0x1000 0x1004 (demo_mem [65, 0, 0, 0, 66]) = Some (0x1000, m')
     \<and> cstr m' 0x1000 [65, 66]"
proof -
  let ?m = "demo_mem [65, 0, 0, 0, 66]"
  have "cstr ?m 0x1000 [65]" "cstr ?m 0x1004 [66]" by (simp_all add: demo_mem_def)
  moreover have "\<forall>i\<le>length [66 :: u8]. \<forall>j\<le>length [66 :: u8].
      (0x1004 :: u64) + of_nat i \<noteq> 0x1000 + of_nat (length [65 :: u8] + j)"
    by (auto simp: le_Suc_eq)
  ultimately show ?thesis using strcat_correct [of ?m "0x1000" "[65]" "0x1004" "[66]"] by auto
qed

text \<open>
  \<open>strcmp\<close> returns on terminated strings, gives 0 exactly for equal ones, and its sign is the
  lexicographic order of the bytes as unsigned values.
\<close>

theorem strcmp_correct:
  assumes "cstr m a xs" and "cstr m b ys"
  shows "\<exists>r. strcmp a b m = Some r \<and> (r = 0 \<longleftrightarrow> xs = ys) \<and> (r < 0 \<longleftrightarrow> bytes_less xs ys)"
  using assms by (rule strcmp_cstr)

theorem strcmp_correct_witness:
  "\<exists>r. strcmp 0x1000 0x1002 (demo_mem [65, 0, 66]) = Some r \<and> r < 0"
  using strcmp_correct [of "demo_mem [65, 0, 66]" "0x1000" "[65]" "0x1002" "[66]"]
  by (auto simp: demo_mem_def)

text \<open>
  \<open>strrchr\<close> finds the last occurrence of every character from 1 to 127 and the terminator for
  0, but no character from 128 on: its argument is made unsigned while the characters of the string
  are signed, so the result is \<open>NULL\<close> even when the string contains the character.
\<close>

theorem strrchr_correct:
  assumes "cstr m s xs"
  shows "(ucast c = (0 :: u8) \<longrightarrow> strrchr s c m = Some (s + of_nat (length xs)))
    \<and> (0 < (ucast c :: u8) \<and> (ucast c :: u8) < 128 \<longrightarrow>
         (ucast c \<notin> set xs \<longrightarrow> strrchr s c m = Some NULL)
       \<and> (ucast c \<in> set xs \<longrightarrow> (\<exists>i<length xs. strrchr s c m = Some (s + of_nat i) \<and> xs ! i = ucast c
            \<and> (\<forall>j. i < j \<and> j < length xs \<longrightarrow> xs ! j \<noteq> ucast c))))
    \<and> (128 \<le> (ucast c :: u8) \<longrightarrow> strrchr s c m = Some NULL)"
proof -
  let ?c = "ucast c :: u8"
  note r = strrchr_cstr [OF assms, of c]
  have "strrchr s c m = Some NULL" if "0 < ?c" "?c < 128" "?c \<notin> set xs"
  proof -
    have "last_occ (uint ?c) xs = None"
      unfolding last_occ_None using sint_eq_uint_u8 [OF that(2)] that(3) by (metis image_iff)
    with r that show ?thesis by (simp add: word_greater_zero_iff)
  qed
  moreover have "\<exists>i<length xs. strrchr s c m = Some (s + of_nat i) \<and> xs ! i = ?c
      \<and> (\<forall>j. i < j \<and> j < length xs \<longrightarrow> xs ! j \<noteq> ?c)" if "0 < ?c" "?c < 128" "?c \<in> set xs"
  proof -
    have "last_occ (uint ?c) xs \<noteq> None"
      unfolding last_occ_None using sint_eq_uint_u8 [OF that(2), of ?c] that(3) by (metis image_iff)
    then obtain i where i: "last_occ (uint ?c) xs = Some i" by blast
    show ?thesis
      using last_occ_Some [OF i] r i that sint_eq_uint_u8 [OF that(2)]
      by (intro exI [of _ i]) (simp add: word_greater_zero_iff)
  qed
  moreover have "strrchr s c m = Some NULL" if "128 \<le> ?c"
  proof -
    have "last_occ (uint ?c) xs = None"
      unfolding last_occ_None using sint_ne_uint_u8 [OF that] by (metis image_iff)
    moreover have "?c \<noteq> 0" using that by auto
    ultimately show ?thesis using r by simp
  qed
  ultimately show ?thesis using r by simp
qed

theorem strrchr_correct_witness:
  "cstr (demo_mem [47, 65, 47, 233]) 0x1000 [47, 65, 47, 233]
    \<and> strrchr 0x1000 47 (demo_mem [47, 65, 47, 233]) = Some 0x1002
    \<and> strrchr 0x1000 233 (demo_mem [47, 65, 47, 233]) = Some NULL"
proof -
  let ?m = "demo_mem [47, 65, 47, 233]"
  define xs :: "u8 list" where "xs = [47, 65, 47, 233]"
  have cs: "cstr ?m 0x1000 xs" by (simp add: demo_mem_def xs_def)
  note c = strrchr_correct [OF cs, of 47] strrchr_correct [OF cs, of 233]
  have "47 \<in> set xs" by (simp add: xs_def)
  then obtain i where i: "i < length xs" "strrchr 0x1000 47 ?m = Some (0x1000 + of_nat i)"
    "xs ! i = 47" "\<forall>j. i < j \<and> j < length xs \<longrightarrow> xs ! j \<noteq> 47"
    using c(1) by (simp; blast)
  have "i = 2"
  proof -
    have "i = 0 \<or> i = 1 \<or> i = 2 \<or> i = 3" using i(1) by (auto simp: xs_def)
    then show ?thesis using i(3) i(4) [rule_format, of 2] by (auto simp: xs_def)
  qed
  with i(2) cs c(2) show ?thesis by (simp add: xs_def)
qed

end
