(* ===== verification/VMM_Walk.thy ===== *)
theory VMM_Walk
  imports VMM PMM_Correct Strings_Correct "HOL-Library.Sublist"
begin

text \<open>
  The page tables as a tree. A path is a list of entry indices from the root table; \<open>table_at\<close> is
  the table a path leads to and \<open>leaf\<close> the entry that maps a page. The invariant of the virtual
  memory manager says that the paths of one address space lead to distinct, aligned tables in use.
\<close>

section \<open>Words\<close>

lemma bit_PAGE_ADDR_MASK: "bit PAGE_ADDR_MASK n \<longleftrightarrow> 12 \<le> n \<and> n < 64"
proof -
  have m: "PAGE_ADDR_MASK = NOT (mask 12)" by (simp add: PAGE_ADDR_MASK_def mask_eq_exp_minus_1)
  show ?thesis unfolding m by (auto simp only: bit_simps) auto
qed

lemma bit_addr_mask: "bit (w AND PAGE_ADDR_MASK) n \<longleftrightarrow> 12 \<le> n \<and> bit w n"
  by (auto simp: bit_and_iff bit_PAGE_ADDR_MASK dest: bit_imp_le_length)

lemma aligned_iff_bits: "(w :: u64) mod 4096 = 0 \<longleftrightarrow> (\<forall>n<12. \<not> bit w n)"
proof -
  have "w mod 4096 = take_bit 12 w" by (simp add: take_bit_eq_mod)
  then show ?thesis by (auto simp: bit_eq_iff bit_simps)
qed

lemma aligned_and_mask: "(w :: u64) mod 4096 = 0 \<Longrightarrow> w AND PAGE_ADDR_MASK = w"
  by (rule bit_word_eqI) (auto simp: bit_addr_mask aligned_iff_bits not_less [symmetric] simp del: bit_and_iff)

lemma or_low_mask:
  assumes "(p :: u64) mod 4096 = 0" and "x AND PAGE_ADDR_MASK = 0"
  shows "(p OR x) AND PAGE_ADDR_MASK = p"
proof -
  have "(p OR x) AND PAGE_ADDR_MASK = (p AND PAGE_ADDR_MASK) OR (x AND PAGE_ADDR_MASK)"
    by (rule bit_word_eqI) (auto simp: bit_simps)
  then show ?thesis using assms by (simp add: aligned_and_mask)
qed

lemma mask_aligned: "(w AND PAGE_ADDR_MASK) mod 4096 = 0"
  by (simp add: aligned_iff_bits bit_addr_mask del: bit_and_iff)

lemma present_iff: "present e \<longleftrightarrow> bit e 0"
  by (simp add: present_def PAGE_PRESENT_def bit_iff_and_push_bit_not_eq_0)

lemma huge_iff: "huge e \<longleftrightarrow> bit e 7"
  by (simp add: huge_def PAGE_HUGE_def bit_iff_and_push_bit_not_eq_0)

lemma not_present_0 [simp]: "\<not> present 0"
  by (simp add: present_iff)

text \<open>The entry of a new table, with and without the user flag.\<close>

definition table_entry :: "u64 \<Rightarrow> u64 \<Rightarrow> u64" where
  "table_entry p virt = (if virt < 0x8000000000000000
     then p OR PAGE_PRESENT OR PAGE_WRITABLE OR PAGE_USER else p OR PAGE_PRESENT OR PAGE_WRITABLE)"

lemma table_entry_facts:
  assumes "p mod 4096 = 0"
  shows "present (table_entry p v)" and "\<not> huge (table_entry p v)"
    and "table_entry p v AND PAGE_ADDR_MASK = p"
proof -
  note defs = table_entry_def PAGE_PRESENT_def PAGE_WRITABLE_def PAGE_USER_def
  have low: "\<not> bit p n" if "n < 12" for n using assms that by (simp add: aligned_iff_bits)
  show "present (table_entry p v)" by (simp add: present_iff defs bit_simps)
  show "\<not> huge (table_entry p v)" using low [of 7] by (simp add: huge_iff defs bit_simps)
  show "table_entry p v AND PAGE_ADDR_MASK = p"
    using or_low_mask [OF assms, of 3] or_low_mask [OF assms, of 7]
    by (auto simp: defs PAGE_ADDR_MASK_def)
qed

lemma index_less:
  "PML4_INDEX v < 512" "PDPT_INDEX v < 512" "PD_INDEX v < 512" "PT_INDEX v < 512"
proof -
  have "w AND 0x1FF < (512 :: u64)" for w
    by (rule le_less_trans [OF word_and_le1]) simp
  then show "PML4_INDEX v < 512" "PDPT_INDEX v < 512" "PD_INDEX v < 512" "PT_INDEX v < 512"
    by (simp_all add: PML4_INDEX_def PDPT_INDEX_def PD_INDEX_def PT_INDEX_def)
qed

lemma mask9: "(0x1FF :: u64) = mask 9"
  by (simp add: mask_eq_exp_minus_1)

lemma index_mask [simp]:
  "PML4_INDEX (v AND PAGE_ADDR_MASK) = PML4_INDEX v"
  "PDPT_INDEX (v AND PAGE_ADDR_MASK) = PDPT_INDEX v"
  "PD_INDEX (v AND PAGE_ADDR_MASK) = PD_INDEX v"
  "PT_INDEX (v AND PAGE_ADDR_MASK) = PT_INDEX v"
  unfolding PML4_INDEX_def PDPT_INDEX_def PD_INDEX_def PT_INDEX_def mask9
  by (rule bit_word_eqI; auto simp: bit_simps bit_PAGE_ADDR_MASK)+

section \<open>Entries\<close>

text \<open>Entry \<open>i\<close> of the table at physical address \<open>t\<close>.\<close>

definition entry :: "vmm_state \<Rightarrow> u64 \<Rightarrow> u64 \<Rightarrow> u64" where
  "entry s t i = read64 (mem s) (t + 8 * i)"

lemma ld64_phys_to_virt: "t \<noteq> 0 \<Longrightarrow> ld64 s (phys_to_virt s t) i = entry s t i"
  by (simp add: ld64_def entry_pa_def phys_to_virt_def entry_def algebra_simps)

lemma aligned_unat_mult:
  assumes "(t :: u64) mod 4096 = 0"
  obtains q where "unat t = 4096 * q"
  using assms unat_mod_4096 [of t] by (metis unat_0 mod_0_imp_dvd dvdE)

lemma unat_entry_addr:
  assumes "(t :: u64) mod 4096 = 0" "i < 512"
  shows "unat (t + 8 * i) = unat t + 8 * unat i"
proof -
  obtain q where q: "unat t = 4096 * q" using assms(1) by (rule aligned_unat_mult)
  have i: "unat i < 512" using assms(2) by (simp add: word_less_nat_alt)
  have "unat t < 4096 * 2 ^ 52" using unat_lt_u64 [of t] by simp
  then have "q < 2 ^ 52" using q by simp
  then have "unat t + 8 * unat i < 2 ^ 64" using q i by simp
  moreover from this have "unat (8 * i) = 8 * unat i" by (subst unat_mult_no_wrap) auto
  ultimately show ?thesis by (subst unat_add_no_wrap) auto
qed

lemma entry_addr_eq_iff:
  assumes "(t :: u64) mod 4096 = 0" "i < 512" "t' mod 4096 = 0" "i' < 512"
  shows "t + 8 * i = t' + 8 * i' \<longleftrightarrow> t = t' \<and> i = i'"
proof
  assume "t + 8 * i = t' + 8 * i'"
  then have eq: "unat t + 8 * unat i = unat t' + 8 * unat i'"
    using unat_entry_addr [OF assms(1,2)] unat_entry_addr [OF assms(3,4)] by simp
  obtain q q' where q: "unat t = 4096 * q" "unat t' = 4096 * q'"
    using assms(1,3) aligned_unat_mult by metis
  have i: "unat i < 512" "unat i' < 512" using assms(2,4) by (simp_all add: word_less_nat_alt)
  have "q = (unat t + 8 * unat i) div 4096" using q(1) i(1) by simp
  moreover have "q' = (unat t' + 8 * unat i') div 4096" using q(2) i(2) by simp
  ultimately have "q = q'" using eq by simp
  with eq q show "t = t' \<and> i = i'" by (simp add: word_unat_eq_iff)
qed auto

lemma entry_addr_mod8:
  assumes "(t :: u64) mod 4096 = 0" "i < 512"
  shows "(t + 8 * i) mod 8 = 0"
proof -
  obtain q where "unat t = 4096 * q" using assms(1) by (rule aligned_unat_mult)
  then have "unat t mod 8 = 0" by simp
  then have "unat (t + 8 * i) mod 8 = 0" by (simp add: unat_entry_addr [OF assms])
  then show ?thesis using unat_mod [of "t + 8 * i" 8] by (simp add: word_unat_eq_iff)
qed

text \<open>A store to one entry changes that entry of that table only.\<close>

definition set_entry :: "u64 \<Rightarrow> u64 \<Rightarrow> u64 \<Rightarrow> vmm_state \<Rightarrow> vmm_state" where
  "set_entry t i v s = s\<lparr>mem := write64 (mem s) (t + 8 * i) v\<rparr>"

lemma st64_phys_to_virt: "t \<noteq> 0 \<Longrightarrow> st64 (phys_to_virt s t) i v s' = set_entry t i v s'"
  if "hhdm_offset s = hhdm_offset s'" for s s'
  using that by (simp add: st64_def entry_pa_def phys_to_virt_def set_entry_def algebra_simps)

lemma entry_set_entry:
  assumes "t mod 4096 = 0" "i < 512" "t' mod 4096 = 0" "i' < 512"
  shows "entry (set_entry t i v s) t' i' = (if t' = t \<and> i' = i then v else entry s t' i')"
proof (cases "t' = t \<and> i' = i")
  case True
  then show ?thesis by (simp add: entry_def set_entry_def)
next
  case False
  then have "t + 8 * i \<noteq> t' + 8 * i'" using entry_addr_eq_iff [OF assms] by auto
  then show ?thesis
    using False entry_addr_mod8 [OF assms(1,2)] entry_addr_mod8 [OF assms(3,4)]
    by (auto simp: entry_def set_entry_def read64_write64_other)
qed

lemma set_entry_set_entry [simp]: "set_entry t i v (set_entry t i w s) = set_entry t i v s"
  by (simp add: set_entry_def)

lemma set_entry_simps [simp]:
  "pmm (set_entry t i v s) = pmm s" "hhdm_offset (set_entry t i v s) = hhdm_offset s"
  "current_pml4_phys (set_entry t i v s) = current_pml4_phys s"
  "vmm_config (set_entry t i v s) = vmm_config s"
  by (simp_all add: set_entry_def)

text \<open>Clearing a page clears its entries and no entry of another table.\<close>

definition clear_page :: "u64 \<Rightarrow> vmm_state \<Rightarrow> vmm_state" where
  "clear_page p s = s\<lparr>mem := snd (memset p 0 PAGE_SIZE_4K (mem s))\<rparr>"

lemma hhdm_memset_clear:
  "p \<noteq> 0 \<Longrightarrow> hhdm_offset s = hhdm_offset s' \<Longrightarrow>
     hhdm_memset (phys_to_virt s p) 0 PAGE_SIZE_4K s' = clear_page p s'"
  by (simp add: hhdm_memset_def clear_page_def phys_to_virt_def)

lemma clear_page_simps [simp]:
  "pmm (clear_page p s) = pmm s" "hhdm_offset (clear_page p s) = hhdm_offset s"
  "current_pml4_phys (clear_page p s) = current_pml4_phys s"
  "vmm_config (clear_page p s) = vmm_config s"
  by (simp_all add: clear_page_def)

lemma mem_clear_page: "mem (clear_page p s) b = (if unat (b - p) < 4096 then 0 else mem s b)"
  by (simp add: clear_page_def memset_apply PAGE_SIZE_4K_def)

lemma entry_clear_other:
  assumes "p mod 4096 = 0" "t mod 4096 = 0" "t \<noteq> p" "i < 512"
  shows "entry (clear_page p s) t i = entry s t i"
  unfolding entry_def
proof (rule read64_cong)
  fix k :: nat assume k: "k < 8"
  let ?a = "t + 8 * i + of_nat k"
  obtain q q' where q: "unat t = 4096 * q" "unat p = 4096 * q'"
    using assms(1,2) aligned_unat_mult by metis
  have i: "unat i < 512" using assms(4) by (simp add: word_less_nat_alt)
  have a: "unat ?a = unat t + 8 * unat i + k"
    using unat_add_aligned8 [OF entry_addr_mod8 [OF assms(2,4)] k] unat_entry_addr [OF assms(2,4)]
    by simp
  have "\<not> unat (?a - p) < 4096"
  proof
    assume d: "unat (?a - p) < 4096"
    have "unat p + unat (?a - p) < 2 ^ 64"
    proof -
      have "unat p < 4096 * 2 ^ 52" using unat_lt_u64 [of p] by simp
      then have "q' < 2 ^ 52" using q(2) by simp
      then show ?thesis using d q(2) by simp
    qed
    then have "unat p + unat (?a - p) = unat ?a"
      using unat_add_no_wrap [of p "?a - p"] by (simp add: add.assoc)
    then have "4096 * q' + unat (?a - p) = 4096 * q + (8 * unat i + k)" using a q by simp
    moreover have "8 * unat i + k < 4096" using i k by simp
    ultimately have "q' = q" using d
      by (metis div_less div_mult_self4 add_cancel_right_right zero_neq_numeral)
    then have "unat t = unat p" using q by simp
    with assms(3) show False by (simp add: word_unat_eq_iff)
  qed
  then show "mem (clear_page p s) ?a = mem s ?a" by (simp add: mem_clear_page)
qed

lemma entry_clear_same:
  assumes "p mod 4096 = 0" "i < 512"
  shows "entry (clear_page p s) p i = 0"
  unfolding entry_def
proof (rule read64_zero)
  fix k :: nat assume k: "k < 8"
  have i: "unat i < 512" using assms(2) by (simp add: word_less_nat_alt)
  have "p + 8 * i + of_nat k - p = of_nat (8 * unat i + k)" by simp
  moreover have "unat (of_nat (8 * unat i + k) :: u64) = 8 * unat i + k"
    using i k by (intro unat_of_nat_small) simp
  ultimately have "unat (p + 8 * i + of_nat k - p) < 4096" using i k by simp
  then show "mem (clear_page p s) (p + 8 * i + of_nat k) = 0" by (simp add: mem_clear_page)
qed

section \<open>Paths\<close>

type_synonym path = "u64 list"

fun table_at :: "vmm_state \<Rightarrow> u64 \<Rightarrow> path \<Rightarrow> u64 option" where
  "table_at s t [] = Some t"
| "table_at s t (i # is) =
     (let e = entry s t i
      in if present e \<and> \<not> huge e then table_at s (e AND PAGE_ADDR_MASK) is else None)"

text \<open>The entry that maps a page and the indices below it: none for a 4 KiB page.\<close>

fun leaf :: "vmm_state \<Rightarrow> u64 \<Rightarrow> path \<Rightarrow> (u64 \<times> path) option" where
  "leaf s t [] = None"
| "leaf s t (i # is) =
     (let e = entry s t i
      in if \<not> present e then None
         else if is = [] \<or> huge e then Some (e, is)
         else leaf s (e AND PAGE_ADDR_MASK) is)"

abbreviation idx_ok :: "path \<Rightarrow> bool" where
  "idx_ok is \<equiv> \<forall>i \<in> set is. i < 512"

lemma table_at_append:
  "table_at s t (p @ q) = (case table_at s t p of None \<Rightarrow> None | Some t' \<Rightarrow> table_at s t' q)"
  by (induction s t p rule: table_at.induct) (auto simp: Let_def)

lemma table_at_snoc:
  "table_at s t (p @ [i]) = (case table_at s t p of None \<Rightarrow> None
     | Some t' \<Rightarrow> if present (entry s t' i) \<and> \<not> huge (entry s t' i)
                then Some (entry s t' i AND PAGE_ADDR_MASK) else None)"
  by (simp add: table_at_append Let_def split: option.split)

lemma leaf_append:
  "table_at s t p = Some t' \<Longrightarrow> q \<noteq> [] \<Longrightarrow> leaf s t (p @ q) = leaf s t' q"
  by (induction s t p rule: table_at.induct) (auto simp: Let_def split: if_splits)

text \<open>The result of a walk depends on the entries it reads only.\<close>

lemma walk_cong:
  assumes "\<And>q t' i. prefix (q @ [i]) is \<Longrightarrow> table_at s t q = Some t' \<Longrightarrow> entry s' t' i = entry s t' i"
  shows "table_at s' t is = table_at s t is \<and> leaf s' t is = leaf s t is"
  using assms
proof (induction "is" arbitrary: t)
  case Nil
  then show ?case by simp
next
  case (Cons i "is")
  let ?e = "entry s t i"
  have e: "entry s' t i = ?e" using Cons.prems [of "[]" i t] by simp
  show ?case
  proof (cases "present ?e \<and> \<not> huge ?e")
    case True
    have "entry s' t' j = entry s t' j"
      if "prefix (q @ [j]) is" "table_at s (?e AND PAGE_ADDR_MASK) q = Some t'" for q t' j
      using Cons.prems [of "i # q" j t'] that True by (simp add: Let_def)
    from Cons.IH [OF this] show ?thesis using True e by (simp add: Let_def)
  next
    case False
    then show ?thesis using e by (auto simp: Let_def)
  qed
qed

section \<open>The invariant\<close>

definition table_ok :: "vmm_state \<Rightarrow> u64 \<Rightarrow> bool" where
  "table_ok s t \<longleftrightarrow> t \<noteq> 0 \<and> t mod 4096 = 0 \<and> t + hhdm_offset s \<noteq> 0 \<and> t \<notin> free_frames (pmm s)"

abbreviation root :: "vmm_state \<Rightarrow> u64" where
  "root \<equiv> current_pml4_phys"

text \<open>
  Every path of at most three indices leads to a table that is aligned, reachable through the direct
  map and not free; no two of them lead to the same table. A present entry of the root is never
  a page, as the processor demands, and the frames the physical memory manager hands out are
  reachable through the direct map.
\<close>

definition vmm_inv :: "vmm_state \<Rightarrow> bool" where
  "vmm_inv s \<longleftrightarrow> pmm_inv (pmm s)
     \<and> (\<forall>p t. idx_ok p \<and> length p \<le> 3 \<and> table_at s (root s) p = Some t \<longrightarrow> table_ok s t)
     \<and> (\<forall>p q t. idx_ok p \<and> length p \<le> 3 \<and> idx_ok q \<and> length q \<le> 3
          \<and> table_at s (root s) p = Some t \<and> table_at s (root s) q = Some t \<longrightarrow> p = q)
     \<and> (\<forall>i<512. present (entry s (root s) i) \<longrightarrow> \<not> huge (entry s (root s) i))
     \<and> (\<forall>f \<in> managed_frames (pmm s). f + hhdm_offset s \<noteq> 0)"

lemma vmm_invD:
  assumes "vmm_inv s"
  shows "pmm_inv (pmm s)"
    and "idx_ok p \<Longrightarrow> length p \<le> 3 \<Longrightarrow> table_at s (root s) p = Some t \<Longrightarrow> table_ok s t"
    and "idx_ok p \<Longrightarrow> length p \<le> 3 \<Longrightarrow> idx_ok q \<Longrightarrow> length q \<le> 3 \<Longrightarrow>
       table_at s (root s) p = Some t \<Longrightarrow> table_at s (root s) q = Some t \<Longrightarrow> p = q"
    and "i < 512 \<Longrightarrow> present (entry s (root s) i) \<Longrightarrow> \<not> huge (entry s (root s) i)"
    and "f \<in> managed_frames (pmm s) \<Longrightarrow> f + hhdm_offset s \<noteq> 0"
  using assms unfolding vmm_inv_def by blast+

lemma table_okD:
  "table_ok s t \<Longrightarrow> t \<noteq> 0" "table_ok s t \<Longrightarrow> t mod 4096 = 0"
  "table_ok s t \<Longrightarrow> phys_to_virt s t \<noteq> 0" "table_ok s t \<Longrightarrow> t \<notin> free_frames (pmm s)"
  by (auto simp: table_ok_def phys_to_virt_def)

end
