(* ===== verification/VMM_Correct.thy ===== *)
theory VMM_Correct
  imports VMM_Walk
begin

text \<open>
  Correctness of the page table operations: what one store does to the paths of the tree, what the
  step that makes a missing table does, and from these the behaviour of mapping and unmapping.
\<close>

section \<open>Stores to the tree\<close>

lemma prefix_path:
  assumes "prefix (r @ [j]) q" "idx_ok q" "length q \<le> 4"
  shows "idx_ok r" "j < 512" "length r \<le> 3"
  using assms by (auto elim!: prefixE)

lemma mem_only [simp]:
  "entry (s\<lparr>pmm := q\<rparr>) t i = entry s t i"
  "table_at (s\<lparr>pmm := q\<rparr>) t p = table_at s t p"
  "leaf (s\<lparr>pmm := q\<rparr>) t p = leaf s t p"
  "entry (invlpg a s) t i = entry s t i"
  "table_at (invlpg a s) t p = table_at s t p"
  "leaf (invlpg a s) t p = leaf s t p"
proof -
  show e: "entry (s\<lparr>pmm := q\<rparr>) t i = entry s t i" for t i by (simp add: entry_def)
  show "table_at (s\<lparr>pmm := q\<rparr>) t p = table_at s t p" "leaf (s\<lparr>pmm := q\<rparr>) t p = leaf s t p"
    using walk_cong [of p s t "s\<lparr>pmm := q\<rparr>"] e by auto
  show e: "entry (invlpg a s) t i = entry s t i" for t i by (simp add: entry_def invlpg_def)
  show "table_at (invlpg a s) t p = table_at s t p" "leaf (invlpg a s) t p = leaf s t p"
    using walk_cong [of p s t "invlpg a s"] e by auto
qed

lemma invlpg_simps [simp]:
  "pmm (invlpg a s) = pmm s" "hhdm_offset (invlpg a s) = hhdm_offset s"
  "current_pml4_phys (invlpg a s) = current_pml4_phys s" "mem (invlpg a s) = mem s"
  "vmm_config (invlpg a s) = vmm_config s"
  by (simp_all add: invlpg_def)

text \<open>A walk that does not go through entry \<open>i\<close> of the table at \<open>p\<close> does not see a store to it.\<close>

lemma walk_set_entry:
  assumes inv: "vmm_inv s" and p: "idx_ok p" "length p \<le> 3" "table_at s (root s) p = Some t"
    and i: "i < 512" and q: "idx_ok q" "length q \<le> 4" "\<not> prefix (p @ [i]) q"
  shows "table_at (set_entry t i v s) (root s) q = table_at s (root s) q
    \<and> leaf (set_entry t i v s) (root s) q = leaf s (root s) q"
proof (rule walk_cong)
  fix r t' j assume r: "prefix (r @ [j]) q" "table_at s (root s) r = Some t'"
  note ok = prefix_path [OF r(1) q(1,2)]
  have al: "t mod 4096 = 0" "t' mod 4096 = 0"
    using vmm_invD(2) [OF inv p] vmm_invD(2) [OF inv ok(1,3) r(2)] by (auto dest: table_okD)
  have "\<not> (t' = t \<and> j = i)"
    using vmm_invD(3) [OF inv ok(1,3) p(1,2) r(2)] p(3) r(1) q(3) by auto
  then show "entry (set_entry t i v s) t' j = entry s t' j"
    using entry_set_entry [OF al(1) i al(2) ok(2)] by auto
qed

text \<open>Clearing a page that is no table of the tree.\<close>

lemma walk_clear_page:
  assumes inv: "vmm_inv s" and f: "f mod 4096 = 0" "f \<in> free_frames (pmm s)"
    and q: "idx_ok q" "length q \<le> 4"
  shows "table_at (clear_page f s) (root s) q = table_at s (root s) q
    \<and> leaf (clear_page f s) (root s) q = leaf s (root s) q"
proof (rule walk_cong)
  fix r t' j assume r: "prefix (r @ [j]) q" "table_at s (root s) r = Some t'"
  note ok = prefix_path [OF r(1) q(1,2)]
  have "table_ok s t'" using vmm_invD(2) [OF inv ok(1,3) r(2)] .
  then show "entry (clear_page f s) t' j = entry s t' j"
    using entry_clear_other [OF f(1) table_okD(2) _ ok(2)] table_okD(4) f(2) by blast
qed

text \<open>A successful allocation of the physical memory manager, as the tree sees it.\<close>

lemma alloc_fresh:
  assumes inv: "vmm_inv s" and al: "pmm_alloc_page (pmm s) = (f, q)" "f \<noteq> 0"
  shows "f mod 4096 = 0" "f \<in> free_frames (pmm s)" "free_frames q = free_frames (pmm s) - {f}"
    "pmm_inv q" "managed_frames q = managed_frames (pmm s)" "f + hhdm_offset s \<noteq> 0"
    "\<And>p t. idx_ok p \<Longrightarrow> length p \<le> 3 \<Longrightarrow> table_at s (root s) p = Some t \<Longrightarrow> t \<noteq> f"
proof -
  note a = pmm.alloc_success [OF vmm_invD(1) [OF inv] al]
  show "f mod 4096 = 0" "f \<in> free_frames (pmm s)" "free_frames q = free_frames (pmm s) - {f}"
    "pmm_inv q" "managed_frames q = managed_frames (pmm s)" using a by auto
  show "f + hhdm_offset s \<noteq> 0" using vmm_invD(5) [OF inv] a(2) by blast
  show "t \<noteq> f" if "idx_ok p" "length p \<le> 3" "table_at s (root s) p = Some t" for p t
    using vmm_invD(2) [OF inv that] a(1) by (auto dest: table_okD)
qed

lemma table_ok_mono:
  "table_ok s t \<Longrightarrow> free_frames (pmm s') \<subseteq> free_frames (pmm s) \<Longrightarrow> hhdm_offset s' = hhdm_offset s
   \<Longrightarrow> table_ok s' t"
  by (auto simp: table_ok_def)

text \<open>The invariant, for a state whose tree is the one of \<open>s\<close> with at most one more table.\<close>

lemma vmm_inv_same_tree:
  assumes inv: "vmm_inv s" and q: "pmm_inv (pmm s')" "free_frames (pmm s') \<subseteq> free_frames (pmm s)"
      "managed_frames (pmm s') = managed_frames (pmm s)"
    and "hhdm_offset s' = hhdm_offset s" "root s' = root s"
    and tr: "\<And>p. idx_ok p \<Longrightarrow> length p \<le> 3 \<Longrightarrow> table_at s' (root s) p = table_at s (root s) p"
    and rt: "\<And>i. i < 512 \<Longrightarrow> present (entry s' (root s) i) \<Longrightarrow> \<not> huge (entry s' (root s) i)"
  shows "vmm_inv s'"
  unfolding vmm_inv_def
proof (intro conjI)
  show "\<forall>p t. idx_ok p \<and> length p \<le> 3 \<and> table_at s' (root s') p = Some t \<longrightarrow> table_ok s' t"
    using table_ok_mono [OF _ q(2)] assms(5,6) tr vmm_invD(2) [OF inv] by auto
  show "\<forall>p q t. idx_ok p \<and> length p \<le> 3 \<and> idx_ok q \<and> length q \<le> 3
      \<and> table_at s' (root s') p = Some t \<and> table_at s' (root s') q = Some t \<longrightarrow> p = q"
    using assms(6) tr vmm_invD(3) [OF inv] by auto
  show "\<forall>f\<in>managed_frames (pmm s'). f + hhdm_offset s' \<noteq> 0"
    using vmm_invD(5) [OF inv] assms(5) q(3) by auto
qed (use q rt assms(6) in auto)

lemma vmm_inv_new_table:
  assumes inv: "vmm_inv s" and f: "f mod 4096 = 0" "f \<noteq> 0" "f + hhdm_offset s \<noteq> 0" "f \<notin> free_frames (pmm s)"
      "\<And>p t. idx_ok p \<Longrightarrow> length p \<le> 3 \<Longrightarrow> table_at s (root s) p = Some t \<Longrightarrow> t \<noteq> f"
    and s': "pmm s' = pmm s" "hhdm_offset s' = hhdm_offset s" "root s' = root s"
    and tr: "\<And>p. idx_ok p \<Longrightarrow> length p \<le> 3 \<Longrightarrow>
       table_at s' (root s) p = (if p = r then Some f else table_at s (root s) p)"
    and rt: "\<And>i. i < 512 \<Longrightarrow> present (entry s' (root s) i) \<Longrightarrow> \<not> huge (entry s' (root s) i)"
  shows "vmm_inv s'"
  unfolding vmm_inv_def
proof (intro conjI)
  show "pmm_inv (pmm s')" using vmm_invD(1) [OF inv] s' by simp
  show "\<forall>p t. idx_ok p \<and> length p \<le> 3 \<and> table_at s' (root s') p = Some t \<longrightarrow> table_ok s' t"
  proof (intro allI impI)
    fix p t assume p: "idx_ok p \<and> length p \<le> 3 \<and> table_at s' (root s') p = Some t"
    have "table_ok s f" using f(1-4) by (simp add: table_ok_def)
    then have "table_ok s t" using p tr s'(3) vmm_invD(2) [OF inv] by (auto split: if_splits)
    then show "table_ok s' t" using table_ok_mono s' by simp
  qed
  show "\<forall>p q t. idx_ok p \<and> length p \<le> 3 \<and> idx_ok q \<and> length q \<le> 3
      \<and> table_at s' (root s') p = Some t \<and> table_at s' (root s') q = Some t \<longrightarrow> p = q"
  proof -
    have "table_at s (root s) p \<noteq> Some f" if "idx_ok p" "length p \<le> 3" for p
      using f(5) that by blast
    then show ?thesis using tr s' vmm_invD(3) [OF inv] by (auto split: if_splits)
  qed
  show "\<forall>i<512. present (entry s' (root s') i) \<longrightarrow> \<not> huge (entry s' (root s') i)"
    using rt s' by simp
  show "\<forall>f\<in>managed_frames (pmm s'). f + hhdm_offset s' \<noteq> 0" using vmm_invD(5) [OF inv] s' by auto
qed

lemma root_ok:
  assumes "vmm_inv s"
  shows "table_ok s (root s)" "root s mod 4096 = 0" "root s \<noteq> 0" "phys_to_virt s (root s) \<noteq> 0"
  using vmm_invD(2) [OF assms, of "[]"] by (auto dest: table_okD)

text \<open>The state with a cleared new frame still has the old tree.\<close>

lemma alloc_clear:
  assumes inv: "vmm_inv s" and al: "pmm_alloc_page (pmm s) = (f, q)" "f \<noteq> 0"
  defines "s1 \<equiv> clear_page f (s\<lparr>pmm := q\<rparr>)"
  shows "vmm_inv s1"
    and "\<And>r. idx_ok r \<Longrightarrow> length r \<le> 4 \<Longrightarrow>
       table_at s1 (root s) r = table_at s (root s) r \<and> leaf s1 (root s) r = leaf s (root s) r"
    and "\<And>i. i < 512 \<Longrightarrow> entry s1 f i = 0"
    and "\<And>t i. t mod 4096 = 0 \<Longrightarrow> t \<noteq> f \<Longrightarrow> i < 512 \<Longrightarrow> entry s1 t i = entry s t i"
proof -
  note a = alloc_fresh [OF inv al]
  have s1: "s1 = (clear_page f s)\<lparr>pmm := q\<rparr>" by (simp add: s1_def clear_page_def)
  show w: "table_at s1 (root s) r = table_at s (root s) r \<and> leaf s1 (root s) r = leaf s (root s) r"
    if "idx_ok r" "length r \<le> 4" for r
    using walk_clear_page [OF inv a(1,2) that] by (simp add: s1)
  show "entry s1 f i = 0" if "i < 512" for i
    using entry_clear_same [OF a(1) that] by (simp add: s1_def)
  show e: "entry s1 t i = entry s t i" if "t mod 4096 = 0" "t \<noteq> f" "i < 512" for t i
    using entry_clear_other [OF a(1) that(1,2,3)] by (simp add: s1_def)
  have "root s \<noteq> f" using a(7) [of "[]"] by simp
  then show "vmm_inv s1"
    using inv a w e root_ok(2) [OF inv] vmm_invD(4) [OF inv]
    by (intro vmm_inv_same_tree [OF inv]) (auto simp: s1_def)
qed

text \<open>Entering a new, cleared table at a path where there was none.\<close>

lemma link_table:
  fixes v :: u64
  assumes inv: "vmm_inv s" and al: "pmm_alloc_page (pmm s) = (f, q)" "f \<noteq> 0"
    and p: "idx_ok p" "length p \<le> 2" "table_at s (root s) p = Some t"
    and i: "i < 512" "\<not> present (entry s t i)"
  defines "s' \<equiv> set_entry t i (table_entry f v) (clear_page f (s\<lparr>pmm := q\<rparr>))"
  shows "\<And>r. idx_ok r \<Longrightarrow> length r \<le> 3 \<Longrightarrow>
      table_at s' (root s) r = (if r = p @ [i] then Some f else table_at s (root s) r)"
    and "\<And>r. idx_ok r \<Longrightarrow> length r = 4 \<Longrightarrow> leaf s' (root s) r = leaf s (root s) r"
    and "vmm_inv s'"
proof -
  define s1 where "s1 = clear_page f (s\<lparr>pmm := q\<rparr>)"
  note a = alloc_fresh [OF inv al]
  note c = alloc_clear [OF inv al, folded s1_def]
  have s': "s' = set_entry t i (table_entry f v) s1" by (simp add: s'_def s1_def)
  have r1: "root s1 = root s" "pmm s1 = q" "hhdm_offset s1 = hhdm_offset s" by (simp_all add: s1_def)
  have p3: "length p \<le> 3" using p(2) by simp
  have p1: "table_at s1 (root s1) p = Some t" using c(2) [OF p(1)] p r1 by simp
  have tf: "t \<noteq> f" using a(7) [OF p(1) p3 p(3)] .
  have ta: "t mod 4096 = 0" using vmm_invD(2) [OF inv p(1) p3 p(3)] by (rule table_okD)
  note te = table_entry_facts [OF a(1), of v]
  have et: "entry s' t i = table_entry f v"
    using entry_set_entry [OF ta i(1) ta i(1)] by (simp add: s')
  have ef: "entry s' f j = 0" if "j < 512" for j
    using entry_set_entry [OF ta i(1) a(1) that] tf c(3) [OF that] by (simp add: s')
  have off: "table_at s' (root s) r = table_at s (root s) r \<and> leaf s' (root s) r = leaf s (root s) r"
    if "idx_ok r" "length r \<le> 4" "\<not> prefix (p @ [i]) r" for r
    using walk_set_entry [OF c(1) p(1) p3 p1 i(1) that] c(2) [OF that(1,2)] by (simp add: s' r1)
  have tp: "table_at s' (root s) p = Some t" using off [OF p(1)] p by (simp add: prefix_def)
  have on: "table_at s' (root s) (p @ [i]) = Some f" using tp et te by (simp add: table_at_snoc)
  have on_s: "table_at s (root s) (p @ [i] @ z) = None" for z
    using p(3) i(2) by (simp add: table_at_append)
  show tr: "table_at s' (root s) r = (if r = p @ [i] then Some f else table_at s (root s) r)"
    if r: "idx_ok r" "length r \<le> 3" for r
  proof (cases "prefix (p @ [i]) r")
    case True
    then obtain z where z: "r = (p @ [i]) @ z" by (auto elim: prefixE)
    show ?thesis
    proof (cases z)
      case Nil
      then show ?thesis using z on by simp
    next
      case (Cons j z')
      then have "entry s' f j = 0" using ef r(1) z by simp
      then have "table_at s' (root s) r = None" using z Cons on table_at_append [of s' "root s" "p @ [i]" z] by simp
      then show ?thesis using on_s [of z] z Cons by simp
    qed
  next
    case False
    then show ?thesis using off [OF r(1)] r(2) by auto
  qed
  show "leaf s' (root s) r = leaf s (root s) r" if r: "idx_ok r" "length r = 4" for r
  proof (cases "prefix (p @ [i]) r")
    case True
    then obtain z where z: "r = (p @ [i]) @ z" by (auto elim: prefixE)
    then obtain j z' where z': "z = j # z'" using r(2) p(2) by (cases z) auto
    then have "entry s' f j = 0" using ef r(1) z by simp
    then have "leaf s' (root s) r = None" using z z' leaf_append [OF on, of z] by simp
    moreover have "leaf s (root s) r = None"
      using leaf_append [OF p(3), of "i # z"] i(2) z by simp
    ultimately show ?thesis by simp
  next
    case False
    then show ?thesis using off [OF r(1)] r(2) by auto
  qed
  have "\<not> huge (entry s' (root s) j)" if j: "j < 512" "present (entry s' (root s) j)" for j
    using entry_set_entry [OF ta i(1) root_ok(2) [OF inv] j(1), of "table_entry f v" s1] j te(2)
      vmm_invD(4) [OF c(1), of j] by (auto simp: s' r1 split: if_splits)
  then show "vmm_inv s'"
    using a r1 te(1) al(2) tr c(2)
    by (intro vmm_inv_new_table [OF c(1) a(1), where r = "p @ [i]"]) (auto simp: s')
qed

section \<open>The abstract mapping\<close>

text \<open>The indices of a virtual address, and what the tree maps the address to.\<close>

definition vpn :: "u64 \<Rightarrow> path" where
  "vpn va = [PML4_INDEX va, PDPT_INDEX va, PD_INDEX va, PT_INDEX va]"

definition translate :: "vmm_state \<Rightarrow> u64 \<Rightarrow> u64 option" where
  "translate s va = map_option
     (\<lambda>(e, rest). (e AND PAGE_ADDR_MASK) + (va AND mask (12 + 9 * length rest)))
     (leaf s (root s) (vpn va))"

text \<open>No page larger than 4 KiB covers the address.\<close>

definition no_huge :: "vmm_state \<Rightarrow> u64 \<Rightarrow> bool" where
  "no_huge s va \<longleftrightarrow> (\<forall>e rest. leaf s (root s) (vpn va) = Some (e, rest) \<longrightarrow> rest = [])"

lemma vpn_facts [simp]: "idx_ok (vpn va)" "length (vpn va) = 4" "vpn (va AND PAGE_ADDR_MASK) = vpn va"
  by (simp_all add: vpn_def index_less)

text \<open>
  The tree of \<open>s'\<close> is the tree of \<open>s\<close> with tables added at most: every page is mapped as before.
\<close>

definition grows :: "vmm_state \<Rightarrow> vmm_state \<Rightarrow> bool" where
  "grows s s' \<longleftrightarrow> vmm_inv s' \<and> root s' = root s \<and> hhdm_offset s' = hhdm_offset s
     \<and> vmm_config s' = vmm_config s
     \<and> (\<forall>r. idx_ok r \<and> length r = 4 \<longrightarrow> leaf s' (root s) r = leaf s (root s) r)
     \<and> (\<forall>r t. idx_ok r \<and> length r \<le> 3 \<and> table_at s (root s) r = Some t
          \<longrightarrow> table_at s' (root s) r = Some t)
     \<and> managed_frames (pmm s') = managed_frames (pmm s)
     \<and> free_frames (pmm s') \<subseteq> free_frames (pmm s)"

lemma grows_refl: "vmm_inv s \<Longrightarrow> grows s s"
  by (simp add: grows_def)

lemma grows_trans: "grows s s' \<Longrightarrow> grows s' s'' \<Longrightarrow> grows s s''"
  by (auto simp: grows_def)

lemma growsD:
  assumes "grows s s'"
  shows "vmm_inv s'" "root s' = root s" "hhdm_offset s' = hhdm_offset s" "vmm_config s' = vmm_config s"
    "translate s' va = translate s va" "no_huge s' va = no_huge s va"
    "idx_ok r \<Longrightarrow> length r \<le> 3 \<Longrightarrow> table_at s (root s) r = Some t \<Longrightarrow> table_at s' (root s) r = Some t"
    "managed_frames (pmm s') = managed_frames (pmm s)" "free_frames (pmm s') \<subseteq> free_frames (pmm s)"
  using assms by (auto simp: grows_def translate_def no_huge_def)

lemma phys_to_virt_hhdm: "hhdm_offset s = hhdm_offset s' \<Longrightarrow> phys_to_virt s = phys_to_virt s'"
  by (rule ext) (simp add: phys_to_virt_def)

lemma ensure_table_eq:
  assumes "t \<noteq> 0"
  shows "ensure_table (phys_to_virt s t) i v s =
    (if present (entry s t i) then (True, s)
     else case pmm_alloc_page (pmm s) of (f, q) \<Rightarrow>
       if f = 0 then (False, s\<lparr>pmm := q\<rparr>)
       else (True, set_entry t i (table_entry f v) (clear_page f (s\<lparr>pmm := q\<rparr>))))"
proof -
  have st: "st64 (phys_to_virt s t) i w s' = set_entry t i w s'"
    and ld: "ld64 s' (phys_to_virt s t) i = entry s' t i"
    if "hhdm_offset s' = hhdm_offset s" for w s'
    using st64_phys_to_virt [of s s' t i w] ld64_phys_to_virt [OF assms, of s' i]
      phys_to_virt_hhdm [OF that] that assms by auto
  have e: "entry (set_entry t i w s') t i = w" for w s' by (simp add: entry_def set_entry_def)
  show ?thesis
    unfolding ensure_table_def alloc_frame_def
    by (auto simp: ld Let_def st e hhdm_memset_clear [where s' = "s\<lparr>pmm := _\<rparr>"] table_entry_def
        or.assoc split: prod.splits)
qed

lemma ensure_table_step:
  assumes inv: "vmm_inv s" and p: "idx_ok p" "length p \<le> 2" "table_at s (root s) p = Some t"
    and i: "i < 512" "present (entry s t i) \<Longrightarrow> \<not> huge (entry s t i)"
  obtains (ok) s' f where "ensure_table (phys_to_virt s t) i v s = (True, s')" "grows s s'"
      "table_at s' (root s) (p @ [i]) = Some f" "entry s' t i AND PAGE_ADDR_MASK = f"
      "card (free_frames (pmm s)) =
         card (free_frames (pmm s')) + (if table_at s (root s) (p @ [i]) = None then 1 else 0)"
      "\<And>r. idx_ok r \<Longrightarrow> length r \<le> 3 \<Longrightarrow> table_at s (root s) (p @ [i]) \<noteq> None \<or> r \<noteq> p @ [i] \<Longrightarrow>
         table_at s' (root s) r = table_at s (root s) r"
  | (fail) s' where "ensure_table (phys_to_virt s t) i v s = (False, s')" "grows s s'"
      "table_at s (root s) (p @ [i]) = None" "free_frames (pmm s) = {}"
proof -
  have t: "t \<noteq> 0" "t mod 4096 = 0" using vmm_invD(2) [OF inv p(1) _ p(3)] p(2) by (auto dest: table_okD)
  note eq = ensure_table_eq [OF t(1), of s i v]
  obtain f q where al: "pmm_alloc_page (pmm s) = (f, q)" by fastforce
  show thesis
  proof (cases "present (entry s t i)")
    case True
    then have "table_at s (root s) (p @ [i]) = Some (entry s t i AND PAGE_ADDR_MASK)"
      using p(3) i(2) by (simp add: table_at_snoc)
    with True ok [of s] eq grows_refl [OF inv] show thesis by simp
  next
    case False
    then have n: "table_at s (root s) (p @ [i]) = None" using p(3) by (simp add: table_at_snoc)
    note pi = vmm_invD(1) [OF inv]
    show thesis
    proof (cases "f = 0")
      case True
      then have fr: "free_frames (pmm s) = {}" using pmm.alloc_null_iff [OF pi] al by simp
      have "free_frames q = {}" "managed_frames q = managed_frames (pmm s)" "pmm_inv q"
        using pmm.alloc_miss [OF pi fr] pmm.alloc_invar [OF pi] pmm.alloc_frames [OF pi] al by auto
      then have "vmm_inv (s\<lparr>pmm := q\<rparr>)"
        using vmm_invD(4) [OF inv] by (intro vmm_inv_same_tree [OF inv]) (auto simp: fr)
      then have "grows s (s\<lparr>pmm := q\<rparr>)"
        using \<open>free_frames q = {}\<close> \<open>managed_frames q = managed_frames (pmm s)\<close> by (simp add: grows_def)
      with fail [of "s\<lparr>pmm := q\<rparr>"] show thesis using eq False al True n fr by simp
    next
      case f0: False
      let ?s' = "set_entry t i (table_entry f v) (clear_page f (s\<lparr>pmm := q\<rparr>))"
      note l = link_table [OF inv al f0 p i(1) False, where v = v]
      note a = alloc_fresh [OF inv al f0]
      have g: "grows s ?s'"
        using l a n by (auto simp: grows_def)
      have "entry ?s' t i AND PAGE_ADDR_MASK = f"
        using entry_set_entry [OF t(2) i(1) t(2) i(1)] table_entry_facts(3) [OF a(1)] by simp
      moreover have "free_frames (pmm s) \<noteq> {}" using a(2) by auto
      then have "card (free_frames (pmm s)) = card (free_frames (pmm ?s')) + 1"
        using pmm.card_free_alloc [OF pi] al by simp
      moreover have "table_at ?s' (root s) (p @ [i]) = Some f" using l(1) [of "p @ [i]"] p i(1) by auto
      ultimately show thesis using ok [of ?s' f] g eq al f0 False n l(1) by simp
    qed
  qed
qed

section \<open>Mapping a page\<close>

text \<open>A store to an entry of a last level table changes the mapping of one page.\<close>

lemma set_leaf:
  fixes e va :: u64
  assumes inv: "vmm_inv s" and p: "idx_ok p" "length p = 3" "table_at s (root s) p = Some t"
    and d: "d < 512"
  defines "s' \<equiv> invlpg va (set_entry t d e s)"
  shows "vmm_inv s'" and "\<And>r. idx_ok r \<Longrightarrow> length r \<le> 3 \<Longrightarrow> table_at s' (root s) r = table_at s (root s) r"
    and "\<And>r. idx_ok r \<Longrightarrow> length r = 4 \<Longrightarrow> leaf s' (root s) r =
       (if r = p @ [d] then if present e then Some (e, []) else None else leaf s (root s) r)"
proof -
  have p3: "length p \<le> 3" using p(2) by simp
  have t: "t mod 4096 = 0" using vmm_invD(2) [OF inv p(1) p3 p(3)] by (rule table_okD)
  note w = walk_set_entry [OF inv p(1) p3 p(3) d]
  show tr: "table_at s' (root s) r = table_at s (root s) r" if "idx_ok r" "length r \<le> 3" for r
  proof -
    have "\<not> prefix (p @ [d]) r" using that(2) p(2) by (auto dest: prefix_length_le)
    then show ?thesis using w [of r e] that by (simp add: s'_def)
  qed
  show "leaf s' (root s) r =
      (if r = p @ [d] then if present e then Some (e, []) else None else leaf s (root s) r)"
    if r: "idx_ok r" "length r = 4" for r
  proof (cases "prefix (p @ [d]) r")
    case True
    then have rp: "r = p @ [d]" using r(2) p(2) by (auto elim!: prefixE)
    have "entry s' t d = e" using entry_set_entry [OF t d t d] by (simp add: s'_def)
    then show ?thesis
      using rp leaf_append [of s' "root s" p t "[d]"] tr [OF p(1) p3] p(3) by simp
  next
    case False
    then show ?thesis using w [of r e] r by (auto simp: s'_def)
  qed
  have "root s \<noteq> t" using vmm_invD(3) [OF inv, of "[]" p t] p p3 by auto
  then have "entry s' (root s) j = entry s (root s) j" if "j < 512" for j
    using entry_set_entry [OF t d root_ok(2) [OF inv] that] by (auto simp: s'_def)
  then show "vmm_inv s'"
    using tr vmm_invD(1,4) [OF inv] by (intro vmm_inv_same_tree [OF inv]) (auto simp: s'_def)
qed

lemma no_huge_entry:
  assumes "no_huge s va" "vpn va = p @ i # z" "z \<noteq> []" "table_at s (root s) p = Some t"
    "present (entry s t i)"
  shows "\<not> huge (entry s t i)"
  using assms leaf_append [of s "root s" p t "i # z"] by (auto simp: no_huge_def Let_def)

text \<open>The number of tables missing on the path \<open>is\<close> below the path \<open>p\<close>.\<close>

fun missing :: "vmm_state \<Rightarrow> path \<Rightarrow> path \<Rightarrow> nat" where
  "missing s p [] = 0"
| "missing s p (i # is) =
     (if table_at s (root s) (p @ [i]) = None then length (i # is) else missing s (p @ [i]) is)"

lemma missing_cong:
  assumes "root s' = root s"
    and "\<And>r. prefix p r \<Longrightarrow> prefix r (p @ is) \<Longrightarrow> r \<noteq> p \<Longrightarrow>
       table_at s' (root s) r = table_at s (root s) r"
  shows "missing s' p is = missing s p is"
  using assms(2)
proof (induction "is" arbitrary: p)
  case Nil
  then show ?case by simp
next
  case (Cons i "is")
  have "table_at s' (root s) (p @ [i]) = table_at s (root s) (p @ [i])" using Cons.prems by simp
  moreover have "missing s' (p @ [i]) is = missing s (p @ [i]) is"
    using Cons.prems by (intro Cons.IH) (auto simp: prefix_def)
  ultimately show ?case using assms(1) by simp
qed

lemma missing_below_None:
  assumes "table_at s (root s) p = None"
  shows "missing s p is = length is"
  using assms by (cases "is") (auto simp: table_at_append)

text \<open>The three steps of \<open>vmm_map_page\<close> down to the last level table.\<close>

fun descend :: "u64 \<Rightarrow> path \<Rightarrow> u64 \<Rightarrow> vmm_state \<Rightarrow> u64 option \<times> vmm_state" where
  "descend table [] v s = (Some table, s)"
| "descend table (i # is) v s =
     (let (ok, s1) = ensure_table table i v s
      in if \<not> ok then (None, s1)
         else let next_table = phys_to_virt s1 (ld64 s1 table i AND PAGE_ADDR_MASK)
              in if next_table = NULL then (None, s1) else descend next_table is v s1)"

lemma vmm_map_page_null [simp]:
  "vmm_map_page 0 pa flags s = (False, s)" "vmm_map_page va 0 flags s = (False, s)"
proof -
  show z: "vmm_map_page 0 pa flags s = (False, s)" for pa unfolding vmm_map_page_def by simp
  show "vmm_map_page va 0 flags s = (False, s)"
  proof (cases "va = 0")
    case False
    then show ?thesis unfolding vmm_map_page_def by simp
  qed (simp add: z)
qed

lemma vmm_map_page_descend:
  assumes "va \<noteq> 0" "pa \<noteq> 0" "phys_to_virt s (root s) \<noteq> 0"
  shows "vmm_map_page va pa flags s =
    (case descend (phys_to_virt s (root s)) (take 3 (vpn va)) (va AND PAGE_ADDR_MASK) s of
       (None, s') \<Rightarrow> (False, s')
     | (Some pt, s') \<Rightarrow> (True, invlpg (va AND PAGE_ADDR_MASK)
          (st64 pt (PT_INDEX va) ((pa AND PAGE_ADDR_MASK) OR hw_flags s flags) s')))"
  using assms
  by (simp add: vmm_map_page_def vpn_def Let_def numeral_3_eq_3 split: prod.split)

lemma descend_correct:
  assumes "vmm_inv s" "table_at s (root s) p = Some t" "vpn va = p @ is @ [d]" "no_huge s va"
  shows "case descend (phys_to_virt s t) is v s of
      (Some pt, s') \<Rightarrow> grows s s' \<and> (\<exists>t'. table_at s' (root s) (p @ is) = Some t' \<and> pt = phys_to_virt s' t')
        \<and> card (free_frames (pmm s)) = card (free_frames (pmm s')) + missing s p is
    | (None, s') \<Rightarrow> grows s s' \<and> card (free_frames (pmm s)) < missing s p is"
  using assms
proof (induction "is" arbitrary: s p t)
  case Nil
  then show ?case by (auto simp: grows_refl)
next
  case (Cons i "is")
  note inv = Cons.prems(1)
  have len: "length (p @ i # is) = 3" and ok: "idx_ok (p @ i # is)"
    using vpn_facts(1,2) [of va] Cons.prems(3) by auto
  have p: "idx_ok p" "length p \<le> 2" and i: "i < 512" using len ok by auto
  have t: "t \<noteq> 0" using vmm_invD(2) [OF inv p(1) _ Cons.prems(2)] p(2) by (auto dest: table_okD)
  have nh: "\<not> huge (entry s t i)" if "present (entry s t i)"
    using no_huge_entry [OF Cons.prems(4), of p i "is @ [d]" t] Cons.prems(2,3) that by simp
  show ?case
  proof (rule ensure_table_step [OF inv p Cons.prems(2) i nh, where v = v])
    fix s' f assume en: "ensure_table (phys_to_virt s t) i v s = (True, s')" and g: "grows s s'"
      and f: "table_at s' (root s) (p @ [i]) = Some f" "entry s' t i AND PAGE_ADDR_MASK = f"
      and cd: "card (free_frames (pmm s)) = card (free_frames (pmm s'))
        + (if table_at s (root s) (p @ [i]) = None then 1 else 0)"
      and tr: "\<And>r. idx_ok r \<Longrightarrow> length r \<le> 3 \<Longrightarrow>
        table_at s (root s) (p @ [i]) \<noteq> None \<or> r \<noteq> p @ [i] \<Longrightarrow>
        table_at s' (root s) r = table_at s (root s) r"
    note g' = growsD [OF g]
    have f': "table_at s' (root s') (p @ [i]) = Some f" using f(1) g'(2) by simp
    have pi: "idx_ok (p @ [i])" "length (p @ [i]) \<le> 3" using p i by auto
    have fk: "table_ok s' f" using vmm_invD(2) [OF g'(1) pi f'] .
    have hh: "phys_to_virt s = phys_to_virt s'" using g'(3) by (intro phys_to_virt_hhdm) simp
    have nx: "phys_to_virt s' (ld64 s' (phys_to_virt s t) i AND PAGE_ADDR_MASK) = phys_to_virt s' f"
      using ld64_phys_to_virt [OF t, of s' i] f(2) by (simp add: hh)
    have m: "missing s p (i # is) = missing s' (p @ [i]) is
        + (if table_at s (root s) (p @ [i]) = None then 1 else 0)"
    proof -
      have "missing s' (p @ [i]) is = missing s (p @ [i]) is"
      proof (rule missing_cong [OF g'(2)])
        fix r assume r: "prefix r ((p @ [i]) @ is)" "r \<noteq> p @ [i]"
        have "idx_ok r" "length r \<le> 3"
          using set_mono_prefix [OF r(1)] prefix_length_le [OF r(1)] ok len by auto
        then show "table_at s' (root s) r = table_at s (root s) r" using tr r(2) by blast
      qed
      then show ?thesis using missing_below_None [of s "p @ [i]" "is"] by simp
    qed
    have dd: "descend (phys_to_virt s t) (i # is) v s = descend (phys_to_virt s' f) is v s'"
      using en nx table_okD(3) [OF fk] by simp
    have "vpn va = (p @ [i]) @ is @ [d]" "no_huge s' va" using Cons.prems(3,4) g'(6) by simp_all
    from Cons.IH [OF g'(1) f' this] show ?case
      unfolding dd using m cd g'(2) by (auto split: prod.splits option.splits intro: grows_trans [OF g])
  next
    fix s' assume "ensure_table (phys_to_virt s t) i v s = (False, s')" "grows s s'"
      "table_at s (root s) (p @ [i]) = None" "free_frames (pmm s) = {}"
    then show ?case by simp
  qed
qed

text \<open>The hardware flags set the present bit and, of the address bits, only the top one.\<close>

definition nx_bit :: "vmm_state \<Rightarrow> u64 \<Rightarrow> u64" where
  "nx_bit s flags = (if flags AND VMM_FLAG_NO_EXECUTE \<noteq> 0 \<and> using_nx (vmm_config s)
     then PAGE_NO_EXECUTE else 0)"

lemma or_addr_mask: "(x OR y) AND PAGE_ADDR_MASK = (x AND PAGE_ADDR_MASK) OR (y AND PAGE_ADDR_MASK)"
  by (rule bit_word_eqI) (auto simp: bit_simps)

lemma present_or [simp]: "present (x OR y) \<longleftrightarrow> present x \<or> present y"
  by (simp add: present_iff bit_simps)

lemma hw_flags_present: "present (hw_flags s flags)"
  by (simp add: hw_flags_def) (simp add: present_iff PAGE_PRESENT_def)

lemma hw_flags_mask: "hw_flags s flags AND PAGE_ADDR_MASK = nx_bit s flags"
proof -
  have flag: "(if b then f else 0) AND PAGE_ADDR_MASK = 0" if "f AND PAGE_ADDR_MASK = 0" for b and f :: u64
    using that by simp
  have z: "PAGE_PRESENT AND PAGE_ADDR_MASK = 0" "PAGE_WRITABLE AND PAGE_ADDR_MASK = 0"
    "PAGE_USER AND PAGE_ADDR_MASK = 0" "PAGE_WRITETHROUGH AND PAGE_ADDR_MASK = 0"
    "PAGE_CACHE_DISABLE AND PAGE_ADDR_MASK = 0" "PAGE_GLOBAL AND PAGE_ADDR_MASK = 0"
    "PAGE_HUGE AND PAGE_ADDR_MASK = 0" "PAGE_NO_EXECUTE AND PAGE_ADDR_MASK = PAGE_NO_EXECUTE"
    by (simp_all add: PAGE_ADDR_MASK_def PAGE_PRESENT_def PAGE_WRITABLE_def PAGE_USER_def
        PAGE_WRITETHROUGH_def PAGE_CACHE_DISABLE_def PAGE_GLOBAL_def PAGE_HUGE_def PAGE_NO_EXECUTE_def)
  show ?thesis
    unfolding hw_flags_def or_addr_mask flag [OF z(2)] flag [OF z(3)] flag [OF z(4)]
      flag [OF z(5)] flag [OF z(6)] flag [OF z(7)] z(1) nx_bit_def
    using z(8) by simp
qed

lemma mask_idem [simp]: "x AND PAGE_ADDR_MASK AND PAGE_ADDR_MASK = x AND PAGE_ADDR_MASK"
  by (rule bit_word_eqI) (auto simp: bit_simps)

lemma vmm_map_page_cases:
  assumes inv: "vmm_inv s" and nz: "va \<noteq> 0" "pa \<noteq> 0" and nh: "no_huge s va"
  obtains (ok) s1 t where "vmm_map_page va pa flags s = (True, invlpg (va AND PAGE_ADDR_MASK)
        (set_entry t (PT_INDEX va) ((pa AND PAGE_ADDR_MASK) OR hw_flags s flags) s1))"
      "grows s s1" "table_at s1 (root s1) (take 3 (vpn va)) = Some t"
      "card (free_frames (pmm s)) = card (free_frames (pmm s1)) + missing s [] (take 3 (vpn va))"
  | (fail) s1 where "vmm_map_page va pa flags s = (False, s1)" "grows s s1"
      "card (free_frames (pmm s)) < missing s [] (take 3 (vpn va))"
proof -
  define v where "v = va AND PAGE_ADDR_MASK"
  have vp: "vpn va = [] @ take 3 (vpn va) @ [PT_INDEX va]" by (simp add: vpn_def numeral_3_eq_3)
  obtain o' s1 where de: "descend (phys_to_virt s (root s)) (take 3 (vpn va)) v s = (o', s1)" by fastforce
  have t0: "table_at s (root s) [] = Some (root s)" by simp
  note dc = descend_correct [OF inv t0 vp nh, of v, unfolded de]
  note eq = vmm_map_page_descend [OF nz root_ok(4) [OF inv], of flags, folded v_def, unfolded de]
  show thesis
  proof (cases o')
    case None
    then show thesis using fail [of s1] dc eq by simp
  next
    case (Some pt)
    then obtain t where t: "table_at s1 (root s) (take 3 (vpn va)) = Some t" "pt = phys_to_virt s1 t"
      and g: "grows s s1" using dc by auto
    have ok3: "idx_ok (take 3 (vpn va))" "length (take 3 (vpn va)) \<le> 3"
      using vpn_facts(1) [of va] by (auto dest: in_set_takeD)
    have "t \<noteq> 0" using vmm_invD(2) [OF growsD(1) [OF g] ok3] t(1) growsD(2) [OF g] by (auto dest: table_okD)
    then have "st64 pt (PT_INDEX va) w s1 = set_entry t (PT_INDEX va) w s1" for w
      using st64_phys_to_virt [of s1 s1 t] t(2) by simp
    then show thesis using ok [of t s1] Some dc eq g t(1) growsD(2) [OF g] by (simp add: v_def)
  qed
qed

text \<open>The contract of \<open>vmm_map_page\<close>.\<close>

lemma vmm_map_page_contract:
  assumes inv: "vmm_inv s" and nz: "va \<noteq> 0" "pa \<noteq> 0" and nh: "no_huge s va"
    and mp: "vmm_map_page va pa flags s = (ok, s')"
  shows "ok \<longleftrightarrow> missing s [] (take 3 (vpn va)) \<le> card (free_frames (pmm s))"
    and "vmm_inv s' \<and> root s' = root s \<and> hhdm_offset s' = hhdm_offset s
      \<and> vmm_config s' = vmm_config s"
    and "free_frames (pmm s') \<subseteq> free_frames (pmm s) \<and> managed_frames (pmm s') = managed_frames (pmm s)"
    and "\<And>r. idx_ok r \<Longrightarrow> length r = 4 \<Longrightarrow> leaf s' (root s) r = (if ok \<and> r = vpn va
       then Some ((pa AND PAGE_ADDR_MASK) OR hw_flags s flags, []) else leaf s (root s) r)"
    and "\<And>r t. idx_ok r \<Longrightarrow> length r \<le> 3 \<Longrightarrow> table_at s (root s) r = Some t \<Longrightarrow>
       table_at s' (root s) r = Some t"
    and "ok \<Longrightarrow> card (free_frames (pmm s)) = card (free_frames (pmm s')) + missing s [] (take 3 (vpn va))"
    and "ok \<Longrightarrow> table_at s' (root s) (take 3 (vpn va)) \<noteq> None"
proof -
  have "(ok \<longleftrightarrow> missing s [] (take 3 (vpn va)) \<le> card (free_frames (pmm s)))
    \<and> (vmm_inv s' \<and> root s' = root s \<and> hhdm_offset s' = hhdm_offset s \<and> vmm_config s' = vmm_config s)
    \<and> (free_frames (pmm s') \<subseteq> free_frames (pmm s) \<and> managed_frames (pmm s') = managed_frames (pmm s))
    \<and> (\<forall>r. idx_ok r \<and> length r = 4 \<longrightarrow> leaf s' (root s) r = (if ok \<and> r = vpn va
       then Some ((pa AND PAGE_ADDR_MASK) OR hw_flags s flags, []) else leaf s (root s) r))
    \<and> (\<forall>r t. idx_ok r \<and> length r \<le> 3 \<and> table_at s (root s) r = Some t \<longrightarrow>
       table_at s' (root s) r = Some t)
    \<and> (ok \<longrightarrow> card (free_frames (pmm s)) = card (free_frames (pmm s')) + missing s [] (take 3 (vpn va)))
    \<and> (ok \<longrightarrow> table_at s' (root s) (take 3 (vpn va)) \<noteq> None)"
    using inv nz nh
  proof (cases rule: vmm_map_page_cases [where flags = flags])
    case (ok s1 t)
    note g = growsD [OF ok(2)]
    have ok3: "idx_ok (take 3 (vpn va))" "length (take 3 (vpn va)) = 3"
      using vpn_facts(1) [of va] by (auto dest: in_set_takeD)
    have vp: "vpn va = take 3 (vpn va) @ [PT_INDEX va]" by (simp add: vpn_def numeral_3_eq_3)
    note sl = set_leaf [where va = "va AND PAGE_ADDR_MASK" and d = "PT_INDEX va"
        and e = "(pa AND PAGE_ADDR_MASK) OR hw_flags s flags", OF g(1) ok3 ok(3) index_less(4)]
    have s': "s' = invlpg (va AND PAGE_ADDR_MASK) (set_entry t (PT_INDEX va)
        ((pa AND PAGE_ADDR_MASK) OR hw_flags s flags) s1)" "ok = True" using ok(1) mp by auto
    have lf: "leaf s' (root s) r = (if r = vpn va
       then Some ((pa AND PAGE_ADDR_MASK) OR hw_flags s flags, []) else leaf s (root s) r)"
      if "idx_ok r" "length r = 4" for r
      using sl(3) [of r] that vp ok(2) g(2) by (simp add: s' hw_flags_present grows_def)
    have tr: "table_at s' (root s) r = table_at s1 (root s) r" if "idx_ok r" "length r \<le> 3" for r
      using sl(2) [of r] that g(2) by (simp add: s')
    show ?thesis
      using lf tr sl(1) g ok ok3 s' by (auto simp: grows_def)
  next
    case (fail s1)
    then show ?thesis using mp growsD [OF fail(2)] by (auto simp: grows_def)
  qed
  then show "ok \<longleftrightarrow> missing s [] (take 3 (vpn va)) \<le> card (free_frames (pmm s))"
    and "vmm_inv s' \<and> root s' = root s \<and> hhdm_offset s' = hhdm_offset s \<and> vmm_config s' = vmm_config s"
    and "free_frames (pmm s') \<subseteq> free_frames (pmm s) \<and> managed_frames (pmm s') = managed_frames (pmm s)"
    and "\<And>r. idx_ok r \<Longrightarrow> length r = 4 \<Longrightarrow> leaf s' (root s) r = (if ok \<and> r = vpn va
       then Some ((pa AND PAGE_ADDR_MASK) OR hw_flags s flags, []) else leaf s (root s) r)"
    and "\<And>r t. idx_ok r \<Longrightarrow> length r \<le> 3 \<Longrightarrow> table_at s (root s) r = Some t \<Longrightarrow>
       table_at s' (root s) r = Some t"
    and "ok \<Longrightarrow> card (free_frames (pmm s)) = card (free_frames (pmm s')) + missing s [] (take 3 (vpn va))"
    and "ok \<Longrightarrow> table_at s' (root s) (take 3 (vpn va)) \<noteq> None"
    by blast+
qed

section \<open>Walks of the code\<close>

text \<open>What the loads of a walk read, and the mapping entry in terms of them.\<close>

lemma code_walk:
  fixes va :: u64
  assumes inv: "vmm_inv s"
  defines "e4 \<equiv> entry s (root s) (PML4_INDEX va)"
  defines "e3 \<equiv> entry s (e4 AND PAGE_ADDR_MASK) (PDPT_INDEX va)"
  defines "e2 \<equiv> entry s (e3 AND PAGE_ADDR_MASK) (PD_INDEX va)"
  defines "e1 \<equiv> entry s (e2 AND PAGE_ADDR_MASK) (PT_INDEX va)"
  shows "phys_to_virt s (root s) \<noteq> 0 \<and> ld64 s (phys_to_virt s (root s)) (PML4_INDEX va) = e4"
    and "present e4 \<Longrightarrow> \<not> huge e4 \<and> e4 AND PAGE_ADDR_MASK \<noteq> 0
       \<and> phys_to_virt s (e4 AND PAGE_ADDR_MASK) \<noteq> 0
       \<and> ld64 s (phys_to_virt s (e4 AND PAGE_ADDR_MASK)) (PDPT_INDEX va) = e3"
    and "present e4 \<Longrightarrow> present e3 \<Longrightarrow> \<not> huge e3 \<Longrightarrow> e3 AND PAGE_ADDR_MASK \<noteq> 0
       \<and> phys_to_virt s (e3 AND PAGE_ADDR_MASK) \<noteq> 0
       \<and> ld64 s (phys_to_virt s (e3 AND PAGE_ADDR_MASK)) (PD_INDEX va) = e2"
    and "present e4 \<Longrightarrow> present e3 \<Longrightarrow> \<not> huge e3 \<Longrightarrow> present e2 \<Longrightarrow> \<not> huge e2 \<Longrightarrow>
       e2 AND PAGE_ADDR_MASK \<noteq> 0 \<and> phys_to_virt s (e2 AND PAGE_ADDR_MASK) \<noteq> 0
       \<and> ld64 s (phys_to_virt s (e2 AND PAGE_ADDR_MASK)) (PT_INDEX va) = e1"
    and "leaf s (root s) (vpn va) =
       (if \<not> present e4 \<or> \<not> present e3 then None
        else if huge e3 then Some (e3, [PD_INDEX va, PT_INDEX va])
        else if \<not> present e2 then None
        else if huge e2 then Some (e2, [PT_INDEX va])
        else if \<not> present e1 then None else Some (e1, []))"
proof -
  note r = root_ok [OF inv]
  note tk = vmm_invD(2) [OF inv]
  let ?p = "[PML4_INDEX va, PDPT_INDEX va, PD_INDEX va]"
  show "phys_to_virt s (root s) \<noteq> 0 \<and> ld64 s (phys_to_virt s (root s)) (PML4_INDEX va) = e4"
    using r ld64_phys_to_virt by (auto simp: e4_def)
  have h4: "\<not> huge e4" if "present e4"
    using vmm_invD(4) [OF inv index_less(1)] that by (simp add: e4_def)
  have l: "t \<noteq> 0 \<and> phys_to_virt s t \<noteq> 0 \<and> ld64 s (phys_to_virt s t) i = entry s t i"
    if "table_ok s t" for t i
    using table_okD [OF that] ld64_phys_to_virt by auto
  show "\<not> huge e4 \<and> e4 AND PAGE_ADDR_MASK \<noteq> 0 \<and> phys_to_virt s (e4 AND PAGE_ADDR_MASK) \<noteq> 0
       \<and> ld64 s (phys_to_virt s (e4 AND PAGE_ADDR_MASK)) (PDPT_INDEX va) = e3" if "present e4"
    using h4 [OF that] l tk [of "take 1 ?p" "e4 AND PAGE_ADDR_MASK"] that index_less
    by (simp add: e4_def [symmetric] e3_def [symmetric])
  show "e3 AND PAGE_ADDR_MASK \<noteq> 0 \<and> phys_to_virt s (e3 AND PAGE_ADDR_MASK) \<noteq> 0
       \<and> ld64 s (phys_to_virt s (e3 AND PAGE_ADDR_MASK)) (PD_INDEX va) = e2"
    if "present e4" "present e3" "\<not> huge e3"
    using h4 [OF that(1)] l tk [of "take 2 ?p" "e3 AND PAGE_ADDR_MASK"] that index_less
    by (simp add: e4_def [symmetric] e3_def [symmetric] e2_def [symmetric] numeral_2_eq_2)
  show "e2 AND PAGE_ADDR_MASK \<noteq> 0 \<and> phys_to_virt s (e2 AND PAGE_ADDR_MASK) \<noteq> 0
       \<and> ld64 s (phys_to_virt s (e2 AND PAGE_ADDR_MASK)) (PT_INDEX va) = e1"
    if "present e4" "present e3" "\<not> huge e3" "present e2" "\<not> huge e2"
    using h4 [OF that(1)] l tk [of ?p "e2 AND PAGE_ADDR_MASK"] that index_less
    by (simp add: e4_def [symmetric] e3_def [symmetric] e2_def [symmetric] e1_def [symmetric])
  show "leaf s (root s) (vpn va) =
       (if \<not> present e4 \<or> \<not> present e3 then None
        else if huge e3 then Some (e3, [PD_INDEX va, PT_INDEX va])
        else if \<not> present e2 then None
        else if huge e2 then Some (e2, [PT_INDEX va])
        else if \<not> present e1 then None else Some (e1, []))"
    using h4
    by (auto simp: vpn_def Let_def e4_def [symmetric] e3_def [symmetric] e2_def [symmetric]
        e1_def [symmetric])
qed

lemma virt_to_phys_translate:
  assumes inv: "vmm_inv s"
  shows "virt_to_phys s va = (if hhdm_offset s \<le> va then va - hhdm_offset s
     else case translate s va of None \<Rightarrow> 0 | Some pa \<Rightarrow> pa)"
proof -
  have m: "(0x3FFFFFFF :: u64) = mask 30" "(0x1FFFFF :: u64) = mask 21" "(0xFFF :: u64) = mask 12"
    by (simp_all add: mask_eq_exp_minus_1)
  show ?thesis
    unfolding virt_to_phys_def m using code_walk [OF inv, of va]
    by (auto simp: Let_def translate_def)
qed

lemma vmm_is_mapped_translate:
  assumes inv: "vmm_inv s"
  shows "vmm_is_mapped s va \<longleftrightarrow> hhdm_offset s \<le> va \<or> translate s va \<noteq> None"
  unfolding vmm_is_mapped_def using code_walk [OF inv, of va]
  by (auto simp: Let_def translate_def)

section \<open>Unmapping a page\<close>

text \<open>Clearing an entry that leads to no table takes the pages below it out of the mapping.\<close>

lemma clear_leaf:
  fixes va :: u64
  assumes inv: "vmm_inv s" and p: "idx_ok p" "length p \<le> 3" "table_at s (root s) p = Some t"
    and i: "i < 512" and nt: "length p = 3 \<or> table_at s (root s) (p @ [i]) = None"
  defines "s' \<equiv> invlpg va (set_entry t i 0 s)"
  shows "vmm_inv s'"
    and "\<And>r. idx_ok r \<Longrightarrow> length r \<le> 3 \<Longrightarrow> table_at s' (root s) r = table_at s (root s) r"
    and "\<And>r. idx_ok r \<Longrightarrow> length r = 4 \<Longrightarrow> leaf s' (root s) r =
       (if prefix (p @ [i]) r then None else leaf s (root s) r)"
proof -
  have t: "t mod 4096 = 0" using vmm_invD(2) [OF inv p] by (rule table_okD)
  note w = walk_set_entry [OF inv p i, of _ 0]
  have e: "entry s' t i = 0" using entry_set_entry [OF t i t i] by (simp add: s'_def)
  have tp: "table_at s' (root s) p = Some t" using w [of p] p by (auto simp: s'_def prefix_def)
  show tr: "table_at s' (root s) r = table_at s (root s) r" if "idx_ok r" "length r \<le> 3" for r
  proof (cases "prefix (p @ [i]) r")
    case True
    then obtain z where z: "r = p @ i # z" by (auto elim: prefixE)
    then have "table_at s (root s) (p @ [i]) = None" using that(2) nt by auto
    then have "table_at s (root s) r = None" using table_at_append [of s "root s" "p @ [i]" z] z by simp
    moreover have "table_at s' (root s) r = None" using z tp e by (simp add: table_at_append)
    ultimately show ?thesis by simp
  next
    case False
    then show ?thesis using w [of r] that by (simp add: s'_def)
  qed
  show "leaf s' (root s) r = (if prefix (p @ [i]) r then None else leaf s (root s) r)"
    if r: "idx_ok r" "length r = 4" for r
  proof (cases "prefix (p @ [i]) r")
    case True
    then obtain z where "r = p @ i # z" by (auto elim: prefixE)
    then show ?thesis using True leaf_append [OF tp, of "i # z"] e by simp
  next
    case False
    then show ?thesis using w [of r] r by (simp add: s'_def)
  qed
  have "present (entry s' (root s) j) \<longrightarrow> \<not> huge (entry s' (root s) j)" if "j < 512" for j
    using entry_set_entry [OF t i root_ok(2) [OF inv] that, of 0 s] vmm_invD(4) [OF inv that]
    by (auto simp: s'_def split: if_splits)
  then show "vmm_inv s'"
    using tr vmm_invD(1) [OF inv] by (intro vmm_inv_same_tree [OF inv]) (auto simp: s'_def)
qed

text \<open>\<open>vmm_unmap_page\<close> clears the entry that maps the address, at the level it is found.\<close>

lemma vmm_unmap_page_cases:
  assumes inv: "vmm_inv s" and nz: "va \<noteq> 0"
  obtains (unmapped) "leaf s (root s) (vpn va) = None" "vmm_unmap_page va s = (False, s)"
  | (mapped) e p i rest t where "leaf s (root s) (vpn va) = Some (e, rest)" "vpn va = p @ i # rest"
      "table_at s (root s) p = Some t" "rest = [] \<or> table_at s (root s) (p @ [i]) = None"
      "vmm_unmap_page va s = (True, invlpg (va AND PAGE_ADDR_MASK) (set_entry t i 0 s))"
proof -
  let ?a = "PML4_INDEX va" and ?b = "PDPT_INDEX va" and ?c = "PD_INDEX va" and ?d = "PT_INDEX va"
  define e4 where "e4 = entry s (root s) ?a"
  define e3 where "e3 = entry s (e4 AND PAGE_ADDR_MASK) ?b"
  define e2 where "e2 = entry s (e3 AND PAGE_ADDR_MASK) ?c"
  define e1 where "e1 = entry s (e2 AND PAGE_ADDR_MASK) ?d"
  note w = code_walk [OF inv, of va, folded e4_def, folded e3_def, folded e2_def, folded e1_def]
  have st: "st64 (phys_to_virt s t) i x s = set_entry t i x s" if "t \<noteq> 0" for t i x
    using st64_phys_to_virt [of s s t i x] that by simp
  note u = vmm_unmap_page_def [of va s, unfolded Let_def, simplified]
  consider (none) "leaf s (root s) (vpn va) = None"
    | (g) "present e4" "present e3" "huge e3"
    | (m) "present e4" "present e3" "\<not> huge e3" "present e2" "huge e2"
    | (k) "present e4" "present e3" "\<not> huge e3" "present e2" "\<not> huge e2" "present e1"
    using w(5) by (auto split: if_splits)
  then show thesis
  proof cases
    case none
    moreover from this have "vmm_unmap_page va s = (False, s)"
      using w nz by (auto simp: u split: if_splits)
    ultimately show thesis by (rule unmapped)
  next
    case g
    then show thesis
      using mapped [of e3 "[?c, ?d]" "[?a]" ?b "e4 AND PAGE_ADDR_MASK"] w nz
      by (simp add: u st vpn_def e4_def [symmetric] e3_def [symmetric])
  next
    case m
    then show thesis
      using mapped [of e2 "[?d]" "[?a, ?b]" ?c "e3 AND PAGE_ADDR_MASK"] w nz
      by (simp add: u st vpn_def e4_def [symmetric] e3_def [symmetric] e2_def [symmetric])
  next
    case k
    then show thesis
      using mapped [of e1 "[]" "[?a, ?b, ?c]" ?d "e2 AND PAGE_ADDR_MASK"] w nz
      by (simp add: u st vpn_def e4_def [symmetric] e3_def [symmetric] e2_def [symmetric] e1_def [symmetric])
  qed
qed

lemma vmm_unmap_page_contract:
  assumes inv: "vmm_inv s" and nz: "va \<noteq> 0" and un: "vmm_unmap_page va s = (ok, s')"
  shows "ok \<longleftrightarrow> translate s va \<noteq> None"
    and "vmm_inv s' \<and> root s' = root s \<and> hhdm_offset s' = hhdm_offset s \<and> vmm_config s' = vmm_config s
      \<and> pmm s' = pmm s"
    and "\<And>r. idx_ok r \<Longrightarrow> length r \<le> 3 \<Longrightarrow> table_at s' (root s) r = table_at s (root s) r"
    and "\<And>e rest r. leaf s (root s) (vpn va) = Some (e, rest) \<Longrightarrow> idx_ok r \<Longrightarrow> length r = 4 \<Longrightarrow>
       leaf s' (root s) r =
         (if take (4 - length rest) r = take (4 - length rest) (vpn va) then None
          else leaf s (root s) r)"
proof -
  have "(ok \<longleftrightarrow> translate s va \<noteq> None)
    \<and> (vmm_inv s' \<and> root s' = root s \<and> hhdm_offset s' = hhdm_offset s \<and> vmm_config s' = vmm_config s
      \<and> pmm s' = pmm s)
    \<and> (\<forall>r. idx_ok r \<and> length r \<le> 3 \<longrightarrow> table_at s' (root s) r = table_at s (root s) r)
    \<and> (\<forall>e rest r. leaf s (root s) (vpn va) = Some (e, rest) \<and> idx_ok r \<and> length r = 4 \<longrightarrow>
       leaf s' (root s) r =
         (if take (4 - length rest) r = take (4 - length rest) (vpn va) then None
          else leaf s (root s) r))"
    using inv nz
  proof (cases rule: vmm_unmap_page_cases)
    case unmapped
    then show ?thesis using un inv by (simp add: translate_def)
  next
    case (mapped e p i rest t)
    have len: "length p + length rest = 3" using mapped(2) vpn_facts(2) [of va] by simp
    have ok: "idx_ok p" "i < 512" "length p \<le> 3" using mapped(2) vpn_facts(1) [of va] len by auto
    have nt: "length p = 3 \<or> table_at s (root s) (p @ [i]) = None" using mapped(4) len by auto
    note c = clear_leaf [where va = "va AND PAGE_ADDR_MASK", OF inv ok(1,3) mapped(3) ok(2) nt]
    have k: "4 - length rest = Suc (length p)" using len by simp
    have tv: "take (4 - length rest) (vpn va) = p @ [i]" by (simp add: k mapped(2))
    have pre: "prefix (p @ [i]) r \<longleftrightarrow> take (4 - length rest) r = p @ [i]" for r
      by (metis k length_append_singleton prefix_def append_take_drop_id append_eq_conv_conj)
    have s': "s' = invlpg (va AND PAGE_ADDR_MASK) (set_entry t i 0 s)" "ok = True"
      using un mapped(5) by auto
    show ?thesis using c mapped(1) tv pre s' by (auto simp: translate_def)
  qed
  then show "ok \<longleftrightarrow> translate s va \<noteq> None"
    and "vmm_inv s' \<and> root s' = root s \<and> hhdm_offset s' = hhdm_offset s \<and> vmm_config s' = vmm_config s
      \<and> pmm s' = pmm s"
    and "\<And>r. idx_ok r \<Longrightarrow> length r \<le> 3 \<Longrightarrow> table_at s' (root s) r = table_at s (root s) r"
    and "\<And>e rest r. leaf s (root s) (vpn va) = Some (e, rest) \<Longrightarrow> idx_ok r \<Longrightarrow> length r = 4 \<Longrightarrow>
       leaf s' (root s) r =
         (if take (4 - length rest) r = take (4 - length rest) (vpn va) then None
          else leaf s (root s) r)"
    by blast+
qed

section \<open>Mapping, on the abstract mapping\<close>

lemma vmm_map_page_translate:
  assumes "vmm_inv s" and "no_huge s va" and "vmm_map_page va pa flags s = (ok, s')"
  shows "vmm_inv s' \<and> (\<forall>va'. translate s' va' =
      (if ok \<and> vpn va' = vpn va
       then Some (((pa AND PAGE_ADDR_MASK) OR nx_bit s flags) + (va' AND mask 12))
       else translate s va'))"
proof (cases "va = 0 \<or> pa = 0")
  case True
  then have "\<not> ok" "s' = s" using assms(3) by auto
  then show ?thesis using assms(1) by simp
next
  case False
  then have nz: "va \<noteq> 0" "pa \<noteq> 0" by auto
  note c = vmm_map_page_contract [OF assms(1) nz assms(2,3)]
  have e: "((pa AND PAGE_ADDR_MASK) OR hw_flags s flags) AND PAGE_ADDR_MASK
      = (pa AND PAGE_ADDR_MASK) OR nx_bit s flags"
    by (simp add: or_addr_mask hw_flags_mask)
  show ?thesis using c(2) c(4) e by (simp add: translate_def)
qed

end
