(* ===== verification/VMM_Range.thy ===== *)
theory VMM_Range
  imports VMM_Correct
begin

text \<open>
  Ranges of pages. The loops over pages rely on three laws of mapping and unmapping one page, which
  the locale \<open>page_mapper\<close> states and the page table operations provide; \<open>page_range\<close> adds the
  loops and shows that mapping a range is all or nothing.
\<close>

section \<open>The interface of a page mapper\<close>

text \<open>
  \<open>look s va\<close> is the entry that maps an address, \<open>key va\<close> the page it lies in, \<open>mk\<close> the entry a
  mapping request makes, and \<open>small\<close> tells the entries of ordinary pages.
\<close>

locale page_mapper =
  fixes map_page :: "u64 \<Rightarrow> u64 \<Rightarrow> u64 \<Rightarrow> 's \<Rightarrow> bool \<times> 's"
    and unmap_page :: "u64 \<Rightarrow> 's \<Rightarrow> bool \<times> 's"
    and invar :: "'s \<Rightarrow> bool"
    and look :: "'s \<Rightarrow> u64 \<Rightarrow> 'e option"
    and key :: "u64 \<Rightarrow> 'k"
    and mk :: "'s \<Rightarrow> u64 \<Rightarrow> u64 \<Rightarrow> 'e"
    and small :: "'e \<Rightarrow> bool"
  assumes mk_small: "small (mk s pa fl)"
    and key_look: "key va = key va' \<Longrightarrow> look s va = look s va'"
    and map_null: "va = 0 \<or> pa = 0 \<Longrightarrow> map_page va pa fl s = (False, s)"
    and map_law: "invar s \<Longrightarrow> va \<noteq> 0 \<Longrightarrow> pa \<noteq> 0 \<Longrightarrow> pred_option small (look s va) \<Longrightarrow>
      map_page va pa fl s = (ok, s') \<Longrightarrow>
      invar s' \<and> mk s' = mk s
      \<and> (\<forall>va'. look s' va' = (if ok \<and> key va' = key va then Some (mk s pa fl) else look s va'))"
    and unmap_law: "invar s \<Longrightarrow> va \<noteq> 0 \<Longrightarrow> pred_option small (look s va) \<Longrightarrow>
      unmap_page va s = (ok, s') \<Longrightarrow>
      invar s' \<and> mk s' = mk s
      \<and> (\<forall>va'. look s' va' = (if key va' = key va then None else look s va'))"

text \<open>The loops over a range, by their recursion equations.\<close>

locale page_range = page_mapper map_page unmap_page invar look key mk small
  for map_page :: "u64 \<Rightarrow> u64 \<Rightarrow> u64 \<Rightarrow> 's \<Rightarrow> bool \<times> 's"
    and unmap_page :: "u64 \<Rightarrow> 's \<Rightarrow> bool \<times> 's"
    and invar :: "'s \<Rightarrow> bool"
    and look :: "'s \<Rightarrow> u64 \<Rightarrow> 'e option"
    and key :: "u64 \<Rightarrow> 'k"
    and mk :: "'s \<Rightarrow> u64 \<Rightarrow> u64 \<Rightarrow> 'e"
    and small :: "'e \<Rightarrow> bool" +
  fixes mloop :: "u64 \<Rightarrow> u64 \<Rightarrow> u64 \<Rightarrow> u64 \<Rightarrow> nat \<Rightarrow> nat \<Rightarrow> 's \<Rightarrow> bool \<times> 's"
    and uloop :: "u64 \<Rightarrow> u64 \<Rightarrow> nat \<Rightarrow> 's \<Rightarrow> 's"
  assumes uloop_0: "uloop v st 0 s = s"
    and uloop_Suc: "uloop v st (Suc n) s = snd (unmap_page (v + of_nat n * st) (uloop v st n s))"
    and mloop_0: "mloop v p st fl 0 i s = (True, s)"
    and mloop_Suc: "mloop v p st fl (Suc k) i s =
      (case map_page (v + of_nat i * st) (p + of_nat i * st) fl s of
         (ok, s1) \<Rightarrow> if ok then mloop v p st fl k (Suc i) s1 else (False, uloop v st i s1))"
begin

text \<open>The pages \<open>0\<close> to \<open>n - 1\<close> of a range are distinct and none of them is the null page.\<close>

definition distinct_pages :: "u64 \<Rightarrow> u64 \<Rightarrow> nat \<Rightarrow> bool" where
  "distinct_pages v st n \<longleftrightarrow> inj_on (\<lambda>i. key (v + of_nat i * st)) {i. i < n}
     \<and> (\<forall>i<n. v + of_nat i * st \<noteq> 0)"

lemma uloop_correct:
  assumes "invar s" "distinct_pages v st m" "n \<le> m"
    and "\<forall>i<m. pred_option small (look s (v + of_nat i * st))"
  shows "invar (uloop v st n s) \<and> mk (uloop v st n s) = mk s
    \<and> (\<forall>va. look (uloop v st n s) va =
         (if \<exists>i<n. key va = key (v + of_nat i * st) then None else look s va))"
  using assms(3)
proof (induction n)
  case 0
  then show ?case using assms(1) by (simp add: uloop_0)
next
  case (Suc n)
  let ?s = "uloop v st n s" and ?va = "v + of_nat n * st"
  have IH: "invar ?s" "mk ?s = mk s"
    "\<forall>va. look ?s va = (if \<exists>i<n. key va = key (v + of_nat i * st) then None else look s va)"
    using Suc by auto
  have "pred_option small (look ?s ?va)" using IH(3) assms(4) Suc.prems by simp
  moreover have "?va \<noteq> 0" using assms(2) Suc.prems by (simp add: distinct_pages_def)
  moreover obtain ok s'' where un: "unmap_page ?va ?s = (ok, s'')" by fastforce
  ultimately have "invar s'' \<and> mk s'' = mk ?s
      \<and> (\<forall>va'. look s'' va' = (if key va' = key ?va then None else look ?s va'))"
    using unmap_law [OF IH(1)] by blast
  then show ?case using IH un by (auto simp: uloop_Suc less_Suc_eq)
qed

text \<open>
  From index \<open>i\<close> on, with the pages before it mapped by the loop: success maps every page of the
  range, failure leaves none of the pages up to the failing one mapped.
\<close>

lemma mloop_correct:
  assumes "invar s" "distinct_pages v st (i + k)" "\<forall>j<i + k. p + of_nat j * st \<noteq> 0"
    and "\<forall>j<i + k. pred_option small (look s (v + of_nat j * st))"
    and "mloop v p st fl k i s = (ok, s')"
  shows "invar s' \<and> mk s' = mk s
    \<and> (ok \<longrightarrow> (\<forall>j. i \<le> j \<and> j < i + k \<longrightarrow>
           look s' (v + of_nat j * st) = Some (mk s (p + of_nat j * st) fl))
         \<and> (\<forall>va. (\<forall>j. i \<le> j \<and> j < i + k \<longrightarrow> key va \<noteq> key (v + of_nat j * st)) \<longrightarrow> look s' va = look s va))
    \<and> (\<not> ok \<longrightarrow> (\<exists>j. i \<le> j \<and> j < i + k \<and> (\<forall>va. look s' va =
         (if \<exists>l<j. key va = key (v + of_nat l * st) then None else look s va))))"
  using assms
proof (induction k arbitrary: i s)
  case 0
  then show ?case by (auto simp: mloop_0)
next
  case (Suc k)
  let ?va = "v + of_nat i * st"
  note inv = Suc.prems(1)
  obtain b s1 where mp: "map_page ?va (p + of_nat i * st) fl s = (b, s1)" by fastforce
  have va: "?va \<noteq> 0" "p + of_nat i * st \<noteq> 0" "pred_option small (look s ?va)"
    using Suc.prems(2-4) by (simp_all add: distinct_pages_def)
  note m = map_law [OF inv va mp]
  have ne: "key (v + of_nat j * st) \<noteq> key ?va" if "j < i + Suc k" "j \<noteq> i" for j
    using Suc.prems(2) that by (auto simp: distinct_pages_def inj_on_def)
  have sm: "pred_option small (look s1 (v + of_nat j * st))" if "j < i + Suc k" for j
    using m Suc.prems(4) that mk_small by auto
  show ?case
  proof (cases b)
    case True
    then have ml: "mloop v p st fl k (Suc i) s1 = (ok, s')" using Suc.prems(5) mp by (simp add: mloop_Suc)
    have "invar s' \<and> mk s' = mk s1
      \<and> (ok \<longrightarrow> (\<forall>j. Suc i \<le> j \<and> j < Suc i + k \<longrightarrow>
             look s' (v + of_nat j * st) = Some (mk s1 (p + of_nat j * st) fl))
           \<and> (\<forall>va. (\<forall>j. Suc i \<le> j \<and> j < Suc i + k \<longrightarrow> key va \<noteq> key (v + of_nat j * st)) \<longrightarrow> look s' va = look s1 va))
      \<and> (\<not> ok \<longrightarrow> (\<exists>j. Suc i \<le> j \<and> j < Suc i + k \<and> (\<forall>va. look s' va =
           (if \<exists>l<j. key va = key (v + of_nat l * st) then None else look s1 va))))"
      using Suc.IH [OF _ _ _ _ ml] m sm Suc.prems(2,3) by simp
    note IH = this
    have s1i: "look s1 ?va = Some (mk s (p + of_nat i * st) fl)" using m True by simp
    have "look s' ?va = Some (mk s (p + of_nat i * st) fl)" if ok
      using IH that s1i ne by (auto simp: eq_commute [of "key ?va"])
    then have suc: "look s' (v + of_nat j * st) = Some (mk s (p + of_nat j * st) fl)"
      if ok "i \<le> j" "j < i + Suc k" for j
      using IH that m by (cases "j = i") auto
    have oth: "look s' va = look s va"
      if ok "\<forall>j. i \<le> j \<and> j < i + Suc k \<longrightarrow> key va \<noteq> key (v + of_nat j * st)" for va
      using IH that m by auto
    have fl: "\<exists>j. i \<le> j \<and> j < i + Suc k \<and> (\<forall>va. look s' va =
         (if \<exists>l<j. key va = key (v + of_nat l * st) then None else look s va))" if nok: "\<not> ok"
    proof -
      obtain j where j: "Suc i \<le> j" "j < Suc i + k" "\<forall>va. look s' va =
           (if \<exists>l<j. key va = key (v + of_nat l * st) then None else look s1 va)"
        using IH nok by blast
      have "look s' va = (if \<exists>l<j. key va = key (v + of_nat l * st) then None else look s va)" for va
        using j m by auto
      with j(1,2) show ?thesis by (intro exI [of _ j]) auto
    qed
    show ?thesis using IH m suc oth fl by auto
  next
    case False
    then have s': "ok = False" "s' = uloop v st i s1" using Suc.prems(5) mp by (auto simp: mloop_Suc)
    have "invar s1" "mk s1 = mk s" "\<forall>va. look s1 va = look s va" using m False by auto
    with uloop_correct [OF \<open>invar s1\<close> Suc.prems(2), of i] sm s' show ?thesis by (auto intro!: exI [of _ i])
  qed
qed

end

section \<open>The page table operations provide the interface\<close>

abbreviation vmm_look :: "vmm_state \<Rightarrow> u64 \<Rightarrow> (u64 \<times> path) option" where
  "vmm_look s va \<equiv> leaf s (root s) (vpn va)"

abbreviation vmm_entry :: "vmm_state \<Rightarrow> u64 \<Rightarrow> u64 \<Rightarrow> u64 \<times> path" where
  "vmm_entry s pa flags \<equiv> ((pa AND PAGE_ADDR_MASK) OR hw_flags s flags, [])"

lemma small_look: "pred_option (\<lambda>x. snd x = []) (vmm_look s va) \<longleftrightarrow> no_huge s va"
  by (auto simp: no_huge_def pred_option_def)

lemma hw_flags_cong: "vmm_config s' = vmm_config s \<Longrightarrow> hw_flags s' = hw_flags s"
  by (rule ext) (simp add: hw_flags_def)

lemma unmap_small:
  assumes inv: "vmm_inv s" and nz: "va \<noteq> 0" and nh: "no_huge s va" and un: "vmm_unmap_page va s = (ok, s')"
  shows "vmm_look s' va' = (if vpn va' = vpn va then None else vmm_look s va')"
proof (cases "vmm_look s va")
  case None
  then have "\<not> ok" using vmm_unmap_page_contract(1) [OF inv nz un] by (simp add: translate_def)
  with un None have "s' = s"
    by (cases rule: vmm_unmap_page_cases [OF inv nz]) auto
  then show ?thesis using None by simp
next
  case (Some x)
  then obtain e where e: "vmm_look s va = Some (e, [])" using nh by (cases x) (auto simp: no_huge_def)
  have "take 4 (vpn w) = vpn w" for w by simp
  then show ?thesis
    using vmm_unmap_page_contract(2) [OF inv nz un] vmm_unmap_page_contract(4) [OF inv nz un e, of "vpn va'"]
    by simp
qed

interpretation paging: page_range vmm_map_page vmm_unmap_page vmm_inv vmm_look vpn vmm_entry
  "\<lambda>x. snd x = []" map_loop unmap_loop
proof (unfold_locales, goal_cases)
  case (4 s va pa fl ok s')
  then have nh: "no_huge s va" by (simp add: small_look)
  note c = vmm_map_page_contract [OF 4(1-3) nh 4(5)]
  have "hw_flags s' = hw_flags s" using c(2) by (intro hw_flags_cong) simp
  then show ?case using c(2,4) by simp
next
  case (5 s va ok s')
  then have nh: "no_huge s va" by (simp add: small_look)
  note c = vmm_unmap_page_contract [OF 5(1,2) 5(4)]
  have "hw_flags s' = hw_flags s" using c(2) by (intro hw_flags_cong) simp
  then show ?case using c(2) unmap_small [OF 5(1,2) nh 5(4)] by simp
qed (auto simp: Let_def split: prod.split)

section \<open>Pages of a range\<close>

lemma vpn_eq_bits:
  assumes "vpn va = vpn va'" "12 \<le> n" "n < 48"
  shows "bit va n = bit va' n"
proof -
  have ix: "bit (drop_bit k w AND 0x1FF) m \<longleftrightarrow> m < 9 \<and> bit w (k + m)" for k m and w :: u64
    by (auto simp: mask9 bit_simps)
  have eq: "bit va (k + m) = bit va' (k + m)"
    if "drop_bit k va AND 0x1FF = drop_bit k va' AND 0x1FF" "m < 9" for k m
    using ix [of k va m] ix [of k va' m] that by simp
  have d: "drop_bit 12 va AND 0x1FF = drop_bit 12 va' AND 0x1FF"
    "drop_bit 21 va AND 0x1FF = drop_bit 21 va' AND 0x1FF"
    "drop_bit 30 va AND 0x1FF = drop_bit 30 va' AND 0x1FF"
    "drop_bit 39 va AND 0x1FF = drop_bit 39 va' AND 0x1FF"
    using assms(1) by (simp_all add: vpn_def PML4_INDEX_def PDPT_INDEX_def PD_INDEX_def PT_INDEX_def)
  consider "n = 12 + (n - 12)" "n - 12 < 9" | "n = 21 + (n - 21)" "n - 21 < 9"
    | "n = 30 + (n - 30)" "n - 30 < 9" | "n = 39 + (n - 39)" "n - 39 < 9"
    using assms(2,3) by linarith
  then show ?thesis using eq [OF d(1)] eq [OF d(2)] eq [OF d(3)] eq [OF d(4)] by cases metis+
qed

lemma vpn_eq_iff: "vpn va = vpn va' \<Longrightarrow> unat va div 4096 mod 2 ^ 36 = unat va' div 4096 mod 2 ^ 36"
proof -
  assume v: "vpn va = vpn va'"
  have "take_bit 36 (drop_bit 12 va) = take_bit 36 (drop_bit 12 va')"
    using vpn_eq_bits [OF v] by (intro bit_word_eqI) (auto simp: bit_simps)
  moreover have "unat (take_bit 36 (drop_bit 12 w)) = unat w div 4096 mod 2 ^ 36" for w :: u64
    by (simp add: take_bit_eq_mod drop_bit_eq_div unat_mod unat_div)
  ultimately show ?thesis by metis
qed

lemma mod_div_page: "(x :: nat) mod 2 ^ 64 div 4096 mod 2 ^ 36 = x div 4096 mod 2 ^ 36"
proof -
  have "take_bit 36 (drop_bit 12 (take_bit 64 x)) = take_bit 36 (drop_bit 12 x)"
    by (rule bit_eqI) (auto simp: bit_simps)
  then show ?thesis by (simp add: take_bit_eq_mod drop_bit_eq_div)
qed

lemma add_mod_inj:
  fixes q i j N :: nat
  assumes "(q + i) mod N = (q + j) mod N" "i < N" "j < N"
  shows "i = j"
proof -
  have "(int (q + i) - int q) mod int N = (int (q + j) - int q) mod int N"
    using assms(1) by (metis mod_diff_left_eq zmod_int)
  then have "int i mod int N = int j mod int N" by simp
  then show ?thesis using assms(2,3) by simp
qed

lemma vpn_pages_inj:
  assumes "vpn (v + of_nat i * 4096) = vpn (v + of_nat j * 4096)" "i < 2 ^ 36" "j < 2 ^ 36"
  shows "i = j"
proof -
  have "unat (v + of_nat k * 4096) div 4096 mod 2 ^ 36 = (unat v div 4096 + k) mod 2 ^ 36" for k
  proof -
    have "v + of_nat k * 4096 = of_nat (unat v + k * 4096)" by simp
    then have "unat (v + of_nat k * 4096) = (unat v + k * 4096) mod 2 ^ 64"
      by (simp only: unat_of_nat) simp
    then show ?thesis using mod_div_page [of "unat v + k * 4096"] by (simp add: add.commute)
  qed
  then have "(unat v div 4096 + i) mod 2 ^ 36 = (unat v div 4096 + j) mod 2 ^ 36"
    using vpn_eq_iff [OF assms(1)] by simp
  then show ?thesis using assms(2,3) by (rule add_mod_inj)
qed

lemma distinct_pages_4K:
  assumes "n \<le> 2 ^ 36" "\<forall>i<n. v + of_nat i * PAGE_SIZE_4K \<noteq> 0"
  shows "paging.distinct_pages v PAGE_SIZE_4K n"
  unfolding paging.distinct_pages_def PAGE_SIZE_4K_def
  using assms vpn_pages_inj by (auto simp: inj_on_def PAGE_SIZE_4K_def)

end
