(* ===== verification/VMM_Data.thy ===== *)
theory VMM_Data
  imports VMM_Range
begin

text \<open>
  Frames that hold data. A frame that is neither free nor one of the tables keeps its contents
  whatever is mapped: the virtual memory manager writes only into tables and into frames it has just
  allocated.
\<close>

definition is_table :: "vmm_state \<Rightarrow> u64 \<Rightarrow> bool" where
  "is_table s t \<longleftrightarrow> (\<exists>p. idx_ok p \<and> length p \<le> 3 \<and> table_at s (root s) p = Some t)"

definition data_frame :: "vmm_state \<Rightarrow> u64 \<Rightarrow> bool" where
  "data_frame s f \<longleftrightarrow> f mod 4096 = 0 \<and> f \<notin> free_frames (pmm s) \<and> \<not> is_table s f"

text \<open>Every data frame of \<open>s\<close> is one of \<open>s'\<close>, with the same contents.\<close>

definition keeps_data :: "vmm_state \<Rightarrow> vmm_state \<Rightarrow> bool" where
  "keeps_data s s' \<longleftrightarrow> (\<forall>f. data_frame s f \<longrightarrow>
     data_frame s' f \<and> (\<forall>b. unat (b - f) < 4096 \<longrightarrow> mem s' b = mem s b))"

lemma root_is_table: "is_table s (root s)"
  unfolding is_table_def by (rule exI [of _ "[]"]) simp

lemma keeps_data_refl: "keeps_data s s"
  by (simp add: keeps_data_def)

lemma keeps_data_trans: "keeps_data s s' \<Longrightarrow> keeps_data s' s'' \<Longrightarrow> keeps_data s s''"
  by (auto simp: keeps_data_def)

text \<open>The pages of two different frames are disjoint.\<close>

lemma unat_in_page:
  fixes b f :: u64
  assumes "f mod 4096 = 0" "unat (b - f) < 4096"
  shows "unat b = unat f + unat (b - f)"
proof -
  obtain q where q: "unat f = 4096 * q" using assms(1) by (rule aligned_unat_mult)
  have "unat f < 4096 * 2 ^ 52" using unat_lt_u64 [of f] by simp
  then have "q < 2 ^ 52" using q by simp
  then have "unat f + unat (b - f) < 2 ^ 64" using assms(2) q by simp
  then show ?thesis using unat_add_no_wrap [of f "b - f"] by simp
qed

lemma page_disjoint:
  fixes b f g :: u64
  assumes "f mod 4096 = 0" "g mod 4096 = 0" "f \<noteq> g" "unat (b - f) < 4096"
  shows "\<not> unat (b - g) < 4096"
proof
  assume g: "unat (b - g) < 4096"
  obtain q r where q: "unat f = 4096 * q" "unat g = 4096 * r"
    using assms(1,2) aligned_unat_mult by metis
  have "4096 * q + unat (b - f) = 4096 * r + unat (b - g)"
    using unat_in_page [OF assms(1,4)] unat_in_page [OF assms(2) g] q by simp
  then have "q = r" using assms(4) g by linarith
  then show False using q assms(3) by (simp add: word_unat_eq_iff)
qed

lemma entry_in_page:
  fixes b t i :: u64
  assumes "t mod 4096 = 0" "i < 512" "unat (b - (t + 8 * i)) < 8"
  shows "unat (b - t) < 4096"
proof -
  have i: "unat i < 512" using assms(2) by (simp add: word_less_nat_alt)
  let ?k = "unat (b - (t + 8 * i))"
  have "b - t = of_nat (8 * unat i + ?k)" by simp
  moreover have "unat (of_nat (8 * unat i + ?k) :: u64) = 8 * unat i + ?k"
    using i assms(3) by (intro unat_of_nat_small) simp
  ultimately show ?thesis using i assms(3) by simp
qed

lemma mem_set_entry:
  assumes "t mod 4096 = 0" "i < 512" "f mod 4096 = 0" "f \<noteq> t" "unat (b - f) < 4096"
  shows "mem (set_entry t i v s) b = mem s b"
proof -
  have "\<not> unat (b - (t + 8 * i)) < 8"
    using entry_in_page [OF assms(1,2), of b] page_disjoint [OF assms(3,1,4,5)] by blast
  then show ?thesis by (simp add: set_entry_def write64_def write_le_apply)
qed

lemma data_frame_not_table:
  "data_frame s f \<Longrightarrow> idx_ok p \<Longrightarrow> length p \<le> 3 \<Longrightarrow> table_at s (root s) p = Some t \<Longrightarrow> f \<noteq> t"
  by (auto simp: data_frame_def is_table_def)

lemma ensure_table_keeps:
  assumes inv: "vmm_inv s" and p: "idx_ok p" "length p \<le> 2" "table_at s (root s) p = Some t"
    and i: "i < 512" and en: "ensure_table (phys_to_virt s t) i v s = (ok, s')"
  shows "keeps_data s s'"
proof -
  have p3: "length p \<le> 3" using p(2) by simp
  have t: "t \<noteq> 0" "t mod 4096 = 0" using vmm_invD(2) [OF inv p(1) p3 p(3)] by (auto dest: table_okD)
  note eq = ensure_table_eq [OF t(1), of s i v]
  obtain f q where al: "pmm_alloc_page (pmm s) = (f, q)" by fastforce
  consider (same) "s' = s" | (out) "f = 0" "s' = s\<lparr>pmm := q\<rparr>" |
    (new) "\<not> present (entry s t i)" "f \<noteq> 0"
      "s' = set_entry t i (table_entry f v) (clear_page f (s\<lparr>pmm := q\<rparr>))"
    using en eq al by (auto split: if_splits)
  then show ?thesis
  proof cases
    case same
    then show ?thesis by (simp add: keeps_data_refl)
  next
    case out
    note pi = vmm_invD(1) [OF inv]
    have fr: "free_frames (pmm s) = {}" using pmm.alloc_null_iff [OF pi] al out(1) by simp
    then have "free_frames q = {}" using pmm.alloc_miss [OF pi fr] al by auto
    then show ?thesis using fr out(2) by (simp add: keeps_data_def data_frame_def is_table_def)
  next
    case new
    note a = alloc_fresh [OF inv al new(2)]
    note l = link_table [OF inv al new(2) p i new(1), where v = v]
    have s': "pmm s' = q" "root s' = root s" by (simp_all add: new(3))
    show ?thesis
      unfolding keeps_data_def
    proof (intro allI impI conjI)
      fix g assume g: "data_frame s g"
      have gt: "g \<noteq> t" using data_frame_not_table [OF g p(1) p3 p(3)] .
      have gf: "g \<noteq> f" using g a(2) by (auto simp: data_frame_def)
      have ga: "g mod 4096 = 0" using g by (simp add: data_frame_def)
      have "table_at s' (root s') r \<noteq> Some g" if "idx_ok r" "length r \<le> 3" for r
        using l(1) [OF that] gf data_frame_not_table [OF g that] s' by (auto simp: new(3))
      then show "data_frame s' g"
        using g a(3) s' by (auto simp: data_frame_def is_table_def)
      fix b :: u64 assume b: "unat (b - g) < 4096"
      have "\<not> unat (b - f) < 4096" using page_disjoint [OF ga a(1) gf b] .
      then show "mem s' b = mem s b"
        using mem_set_entry [OF t(2) i ga gt b] by (simp add: new(3) mem_clear_page)
    qed
  qed
qed

lemma descend_keeps:
  assumes "vmm_inv s" "table_at s (root s) p = Some t" "vpn va = p @ is @ [d]" "no_huge s va"
    and "descend (phys_to_virt s t) is v s = (r, s')"
  shows "keeps_data s s'"
  using assms
proof (induction "is" arbitrary: s p t)
  case Nil
  then show ?case by (simp add: keeps_data_refl)
next
  case (Cons i "is")
  note inv = Cons.prems(1)
  have len: "length (p @ i # is) = 3" and ok: "idx_ok (p @ i # is)"
    using vpn_facts(1,2) [of va] Cons.prems(3) by auto
  have p: "idx_ok p" "length p \<le> 2" and i: "i < 512" using len ok by auto
  have t: "t \<noteq> 0" using vmm_invD(2) [OF inv p(1) _ Cons.prems(2)] p(2) by (auto dest: table_okD)
  have nh: "\<not> huge (entry s t i)" if "present (entry s t i)"
    using no_huge_entry [OF Cons.prems(4), of p i "is @ [d]" t] Cons.prems(2,3) that by simp
  show ?case
  proof (rule ensure_table_step [OF inv p Cons.prems(2) i nh, where v = v])
    fix s1 f assume en: "ensure_table (phys_to_virt s t) i v s = (True, s1)" and g: "grows s s1"
      and f: "table_at s1 (root s) (p @ [i]) = Some f" "entry s1 t i AND PAGE_ADDR_MASK = f"
    note g' = growsD [OF g]
    note k = ensure_table_keeps [OF inv p Cons.prems(2) i en]
    have f': "table_at s1 (root s1) (p @ [i]) = Some f" using f(1) g'(2) by simp
    have hh: "phys_to_virt s = phys_to_virt s1" using g'(3) by (intro phys_to_virt_hhdm) simp
    have nx: "phys_to_virt s1 (ld64 s1 (phys_to_virt s t) i AND PAGE_ADDR_MASK) = phys_to_virt s1 f"
      using ld64_phys_to_virt [OF t, of s1 i] f(2) by (simp add: hh)
    have "table_ok s1 f" using vmm_invD(2) [OF g'(1) _ _ f'] p i by auto
    then have "descend (phys_to_virt s1 f) is v s1 = (r, s')"
      using Cons.prems(5) en nx table_okD(3) by simp
    then have "keeps_data s1 s'"
      using Cons.IH [OF g'(1) f'] Cons.prems(3,4) g'(6) by simp
    with k show "keeps_data s s'" by (rule keeps_data_trans)
  next
    fix s1 assume en: "ensure_table (phys_to_virt s t) i v s = (False, s1)"
    then have "s' = s1" using Cons.prems(5) by simp
    then show "keeps_data s s'" using ensure_table_keeps [OF inv p Cons.prems(2) i en] by simp
  qed
qed

lemma invlpg_set_entry_keeps:
  assumes inv: "vmm_inv s" and p: "idx_ok p" "length p \<le> 3" "table_at s (root s) p = Some t"
    and i: "i < 512" and tr: "\<And>r. idx_ok r \<Longrightarrow> length r \<le> 3 \<Longrightarrow>
      table_at (invlpg a (set_entry t i e s)) (root s) r = table_at s (root s) r"
  shows "keeps_data s (invlpg a (set_entry t i e s))"
proof -
  have t: "t mod 4096 = 0" using vmm_invD(2) [OF inv p] by (auto dest: table_okD)
  show ?thesis
    unfolding keeps_data_def
  proof (intro allI impI conjI)
    fix f assume f: "data_frame s f"
    have "f \<noteq> t" using data_frame_not_table [OF f p] .
    then show "mem (invlpg a (set_entry t i e s)) b = mem s b" if "unat (b - f) < 4096" for b
      using mem_set_entry [OF t i, of f b e s] that f by (simp add: invlpg_def data_frame_def)
    show "data_frame (invlpg a (set_entry t i e s)) f"
      using f tr by (auto simp: data_frame_def is_table_def)
  qed
qed

lemma vmm_map_page_keeps:
  assumes inv: "vmm_inv s" and nh: "no_huge s va" and mp: "vmm_map_page va pa flags s = (ok, s')"
  shows "keeps_data s s'"
proof (cases "va = 0 \<or> pa = 0")
  case True
  then show ?thesis using mp by (auto simp: keeps_data_refl)
next
  case False
  define v where "v = va AND PAGE_ADDR_MASK"
  have vp: "vpn va = [] @ take 3 (vpn va) @ [PT_INDEX va]" by (simp add: vpn_def numeral_3_eq_3)
  obtain r s1 where de: "descend (phys_to_virt s (root s)) (take 3 (vpn va)) v s = (r, s1)" by fastforce
  have t0: "table_at s (root s) [] = Some (root s)" by simp
  note k = descend_keeps [OF inv t0 vp nh de]
  note dc = descend_correct [OF inv t0 vp nh, of v, unfolded de]
  note eq = vmm_map_page_descend [OF _ _ root_ok(4) [OF inv], of va pa flags, folded v_def, unfolded de]
  show ?thesis
  proof (cases r)
    case None
    then show ?thesis using eq False mp k by auto
  next
    case (Some pt)
    then obtain t where t: "table_at s1 (root s) (take 3 (vpn va)) = Some t" "pt = phys_to_virt s1 t"
      and g: "grows s s1" using dc by auto
    note g' = growsD [OF g]
    have ok3: "idx_ok (take 3 (vpn va))" "length (take 3 (vpn va)) = 3"
      using vpn_facts(1) [of va] by (auto dest: in_set_takeD)
    have t1: "table_at s1 (root s1) (take 3 (vpn va)) = Some t" using t(1) g'(2) by simp
    have "t \<noteq> 0" using vmm_invD(2) [OF g'(1) ok3(1) _ t1] ok3(2) by (auto dest: table_okD)
    then have s': "s' = invlpg v (set_entry t (PT_INDEX va) ((pa AND PAGE_ADDR_MASK) OR hw_flags s flags) s1)"
      using eq mp Some t(2) False st64_phys_to_virt [of s1 s1 t] by auto
    have "keeps_data s1 s'"
      unfolding s' using ok3(2)
      by (intro invlpg_set_entry_keeps [OF g'(1) ok3(1) _ t1 index_less(4)]
          set_leaf(2) [OF g'(1) ok3 t1 index_less(4)]) auto
    with k show ?thesis by (rule keeps_data_trans)
  qed
qed

section \<open>Writing outside the tables\<close>

text \<open>
  The tree is the same in a state whose tables have the same contents, so the invariant holds there
  if it holds before and the physical memory manager has given frames away at most.
\<close>

definition same_tables :: "vmm_state \<Rightarrow> vmm_state \<Rightarrow> bool" where
  "same_tables s s' \<longleftrightarrow> root s' = root s \<and> hhdm_offset s' = hhdm_offset s \<and> vmm_config s' = vmm_config s
     \<and> (\<forall>t b. is_table s t \<and> unat (b - t) < 4096 \<longrightarrow> mem s' b = mem s b)"

lemma same_tables_entry:
  assumes "same_tables s s'" "is_table s t" "t mod 4096 = 0" "j < 512"
  shows "entry s' t j = entry s t j"
  unfolding entry_def
proof (rule read64_cong)
  fix i :: nat assume "i < 8"
  then have "unat (t + 8 * j + of_nat i - (t + 8 * j)) < 8"
    using unat_of_nat_small [where 'a = 64, of i] by simp
  then have "unat (t + 8 * j + of_nat i - t) < 4096"
    by (rule entry_in_page [OF assms(3,4)])
  then show "mem s' (t + 8 * j + of_nat i) = mem s (t + 8 * j + of_nat i)"
    using assms(1,2) unfolding same_tables_def by blast
qed

lemma same_tables_walk:
  assumes inv: "vmm_inv s" and st: "same_tables s s'" and q: "idx_ok q" "length q \<le> 4"
  shows "table_at s' (root s) q = table_at s (root s) q \<and> leaf s' (root s) q = leaf s (root s) q"
proof (rule walk_cong)
  fix r t j assume r: "prefix (r @ [j]) q" "table_at s (root s) r = Some t"
  note ok = prefix_path [OF r(1) q(1,2)]
  have t: "t mod 4096 = 0" using vmm_invD(2) [OF inv ok(1,3) r(2)] by (rule table_okD)
  have tb: "is_table s t" using ok r(2) by (auto simp: is_table_def)
  show "entry s' t j = entry s t j" by (rule same_tables_entry [OF st tb t ok(2)])
qed

lemma same_tables_inv:
  assumes inv: "vmm_inv s" and st: "same_tables s s'" and q: "pmm_inv (pmm s')"
    "free_frames (pmm s') \<subseteq> free_frames (pmm s)" "managed_frames (pmm s') = managed_frames (pmm s)"
  shows "vmm_inv s'" and "translate s' va = translate s va" and "no_huge s' va = no_huge s va"
    and "is_table s' t = is_table s t"
proof -
  note w = same_tables_walk [OF inv st]
  have st': "root s' = root s" "hhdm_offset s' = hhdm_offset s" using st by (auto simp: same_tables_def)
  have "entry s' (root s) i = entry s (root s) i" if "i < 512" for i
    using same_tables_entry [OF st root_is_table root_ok(2) [OF inv] that] .
  then show "vmm_inv s'"
    using w vmm_invD(4) [OF inv] st' q by (intro vmm_inv_same_tree [OF inv]) auto
  show "translate s' va = translate s va" "no_huge s' va = no_huge s va"
    using w [of "vpn va"] st'(1) by (simp_all add: translate_def no_huge_def)
  show "is_table s' t = is_table s t"
    using w st'(1) by (auto simp: is_table_def)
qed

section \<open>Runs of frames\<close>

lemma aligned_page_add: "(p :: u64) mod 4096 = 0 \<Longrightarrow> (p + of_nat j * 4096) mod 4096 = 0"
proof -
  assume p: "p mod 4096 = 0"
  have "p + of_nat j * 4096 = of_nat (unat p + j * 4096)" by simp
  then have "unat (p + of_nat j * 4096) = (unat p + j * 4096) mod 2 ^ 64"
    by (simp only: unat_of_nat) simp
  moreover have "((unat p + j * 4096) mod 2 ^ 64) mod 4096 = (unat p + j * 4096) mod 4096"
    by (rule mod_mod_cancel) simp
  ultimately show ?thesis using p by (simp add: aligned_unat)
qed

text \<open>
  Every byte of a run lies in one of its pages, so no byte of a page \<open>g\<close> outside the run does.
\<close>

lemma in_run_page:
  fixes b p :: u64
  assumes "unat (b - p) < n * 4096"
  shows "\<exists>f \<in> page_run p n. unat (b - f) < 4096"
proof
  let ?k = "unat (b - p)"
  let ?f = "p + of_nat (?k div 4096) * 4096"
  show "?f \<in> page_run p n" using assms by (auto simp: page_run_def less_mult_imp_div_less)
  have "of_nat (?k mod 4096) + of_nat (?k div 4096) * 4096 = (of_nat ?k :: u64)"
    using arg_cong [OF mod_div_mult_eq [of ?k 4096], of "of_nat :: nat \<Rightarrow> u64"]
    by (simp only: of_nat_add of_nat_mult of_nat_numeral)
  then have "b - ?f = of_nat (?k mod 4096)" by (simp add: algebra_simps del: of_nat_mod)
  then show "unat (b - ?f) < 4096" using unat_of_nat_small [where 'a = 64, of "?k mod 4096"] by simp
qed

lemma run_disjoint:
  fixes b g p :: u64
  assumes "p mod 4096 = 0" "g mod 4096 = 0" "g \<notin> page_run p n" "unat (b - g) < 4096"
  shows "\<not> unat (b - p) < n * 4096"
proof
  assume "unat (b - p) < n * 4096"
  then obtain f where f: "f \<in> page_run p n" "unat (b - f) < 4096" using in_run_page by blast
  obtain j where "f = p + of_nat j * 4096" using f(1) by (auto simp: page_run_def)
  then have "f mod 4096 = 0" using aligned_page_add [OF assms(1)] by simp
  with page_disjoint [of f g b] f assms(2-4) show False by auto
qed

end
