(* ===== verification/ELF_Correct.thy ===== *)
theory ELF_Correct
  imports ELF VMM_Data Strings_Correct
begin

text \<open>
  Loading a segment: what the memory of the program holds once \<open>elf_load\<close> has returned.
\<close>

section \<open>The memory of a program\<close>

text \<open>
  The physical address of a page table entry ends at bit 51. \<open>loaded s va v\<close>: the processor reads
  the byte \<open>v\<close> at \<open>va\<close>, out of a frame that is neither free nor a table.
\<close>

definition phys_of :: "u64 \<Rightarrow> u64" where
  "phys_of pa = pa AND mask 52"

definition virtual_byte :: "vmm_state \<Rightarrow> u64 \<Rightarrow> u8 option" where
  "virtual_byte s va = map_option (\<lambda>pa. mem s (phys_of pa)) (translate s va)"

definition loaded :: "vmm_state \<Rightarrow> u64 \<Rightarrow> u8 \<Rightarrow> bool" where
  "loaded s va v \<longleftrightarrow> (\<exists>pa f. translate s va = Some pa \<and> data_frame s f
     \<and> unat (phys_of pa - f) < 4096 \<and> mem s (phys_of pa) = v)"

lemma loaded_virtual_byte: "loaded s va v \<Longrightarrow> virtual_byte s va = Some v"
  by (auto simp: loaded_def virtual_byte_def)

lemma loaded_mono:
  assumes "loaded s va v" "keeps_data s s'" "translate s' va = translate s va"
  shows "loaded s' va v"
  using assms unfolding loaded_def keeps_data_def by metis

section \<open>Where a file is loaded\<close>

text \<open>
  The conditions under which the loader runs. All frames and the file itself lie in the memory that
  the bootloader maps to itself, and every byte of the file lies in a frame that is neither free nor
  a table.
\<close>

definition loadable :: "mmu \<Rightarrow> nat \<Rightarrow> elf_file_t \<Rightarrow> vmm_state \<Rightarrow> bool" where
  "loadable mmu limit elf s \<longleftrightarrow> identity_mapped mmu limit \<and> limit \<le> 2 ^ 52
     \<and> (\<forall>f \<in> managed_frames (pmm s). unat f + 4096 \<le> limit)
     \<and> unat (elf_data elf) + unat (elf_size elf) \<le> limit
     \<and> (\<forall>i < unat (elf_size elf). \<exists>f. data_frame s f \<and> unat (elf_data elf + of_nat i - f) < 4096)"

lemma loadable_not_free:
  assumes "vmm_inv s" "loadable mmu limit elf s" "f \<in> free_frames (pmm s)" "i < unat (elf_size elf)"
  shows "\<not> unat (elf_data elf + of_nat i - f) < 4096"
proof -
  obtain g where g: "data_frame s g" "unat (elf_data elf + of_nat i - g) < 4096"
    using assms(2,4) by (auto simp: loadable_def)
  have f: "f mod 4096 = 0"
    using assms(3) pmm.free_subset pmm.frames_aligned vmm_invD(1) [OF assms(1)] by blast
  have "g mod 4096 = 0" "g \<noteq> f" using g(1) assms(3) by (auto simp: data_frame_def)
  from page_disjoint [OF this(1) f this(2) g(2)] show ?thesis .
qed

lemma loadable_mono:
  assumes "loadable mmu limit elf s" "keeps_data s s'" "managed_frames (pmm s') = managed_frames (pmm s)"
    and "elf_data elf' = elf_data elf" "elf_size elf' = elf_size elf"
  shows "loadable mmu limit elf' s'"
  using assms unfolding loadable_def keeps_data_def by metis

text \<open>A segment as a linker writes it: not empty, its data inside the file and not longer than it.\<close>

definition segment_ok :: "elf_file_t \<Rightarrow> elf64_phdr_t \<Rightarrow> bool" where
  "segment_ok elf phdr \<longleftrightarrow> 0 < p_memsz phdr \<and> unat (p_memsz phdr) \<le> 2 ^ 47 \<and> p_filesz phdr \<le> p_memsz phdr
     \<and> unat (p_offset phdr) + unat (p_filesz phdr) \<le> unat (elf_size elf)"

abbreviation segment_npages :: "elf64_phdr_t \<Rightarrow> nat" where
  "segment_npages phdr \<equiv> unat (segment_pages phdr)"

definition segment_base :: "elf_file_t \<Rightarrow> u64 \<Rightarrow> elf64_phdr_t \<Rightarrow> u64" where
  "segment_base elf base phdr = segment_vaddr elf base phdr AND NOT (PAGE_SIZE_4K - 1)"

text \<open>Byte \<open>k\<close> of the block of a segment: data of the file, then zeros.\<close>

definition segment_byte :: "memory \<Rightarrow> elf_file_t \<Rightarrow> elf64_phdr_t \<Rightarrow> nat \<Rightarrow> u8" where
  "segment_byte m elf phdr k =
     (if k < unat (p_filesz phdr) then m (elf_data elf + p_offset phdr + of_nat k) else 0)"

lemma segment_npages_eq:
  assumes "segment_ok elf phdr"
  shows "segment_npages phdr = (unat (p_memsz phdr) + 4095) div 4096"
    and "0 < segment_npages phdr" and "segment_npages phdr \<le> 2 ^ 36"
    and "unat (p_memsz phdr) \<le> segment_npages phdr * 4096"
    and "unat (segment_pages phdr * PAGE_SIZE_4K) = segment_npages phdr * 4096"
proof -
  have m: "0 < unat (p_memsz phdr)" "unat (p_memsz phdr) \<le> 2 ^ 47"
    using assms by (auto simp: segment_ok_def word_greater_zero_iff unat_gt_0)
  have "p_memsz phdr + PAGE_SIZE_4K - 1 = p_memsz phdr + 4095" by (simp add: PAGE_SIZE_4K_def)
  moreover have "unat (p_memsz phdr + 4095) = unat (p_memsz phdr) + 4095"
    using m(2) by (subst unat_add_no_wrap) auto
  ultimately show n: "segment_npages phdr = (unat (p_memsz phdr) + 4095) div 4096"
    by (simp add: segment_pages_def PAGE_SIZE_4K_def unat_div add.commute [of 4095])
  show "0 < segment_npages phdr" "segment_npages phdr \<le> 2 ^ 36"
    "unat (p_memsz phdr) \<le> segment_npages phdr * 4096" using m by (auto simp: n)
  then show "unat (segment_pages phdr * PAGE_SIZE_4K) = segment_npages phdr * 4096"
    by (simp add: PAGE_SIZE_4K_def unat_mult_no_wrap)
qed

section \<open>Filling the block\<close>

text \<open>A run of frames that the physical memory manager has handed out.\<close>

lemma alloc_run_bounds:
  assumes inv: "pmm_inv q" and k: "k + n \<le> npages q" and n: "0 < n"
    and lim: "\<forall>f \<in> managed_frames q. unat f + 4096 \<le> limit"
  shows "unat (page_addr q k) + n * 4096 \<le> limit" and "page_addr q k mod 4096 = 0"
proof -
  have "page_addr q (k + n - 1) \<in> managed_frames q" using k n by (auto simp: managed_frames_def)
  then have "unat (page_addr q (k + n - 1)) + 4096 \<le> limit" using lim by blast
  moreover have "unat (page_addr q (k + n - 1)) = unat (kernel_start (pmm_config q)) + (k + n - 1) * 4096"
    "unat (page_addr q k) = unat (kernel_start (pmm_config q)) + k * 4096"
    using unat_page_addr [OF inv] k n by auto
  ultimately show "unat (page_addr q k) + n * 4096 \<le> limit" using n by (simp add: algebra_simps)
  show "page_addr q k mod 4096 = 0"
    using page_addr_valid [OF inv, of k] k n pmm_inv_page_size [OF inv] by (auto simp: invalid_page_def)
qed

text \<open>
  The state after a block of \<open>n\<close> frames at \<open>blk\<close>, free before, has been allocated and written:
  memory outside the block is as it was.
\<close>

definition block_written :: "u64 \<Rightarrow> nat \<Rightarrow> vmm_state \<Rightarrow> vmm_state \<Rightarrow> bool" where
  "block_written blk n s s1 \<longleftrightarrow> blk mod 4096 = 0 \<and> page_run blk n \<subseteq> free_frames (pmm s)
     \<and> pmm_inv (pmm s1) \<and> free_frames (pmm s1) = free_frames (pmm s) - page_run blk n
     \<and> managed_frames (pmm s1) = managed_frames (pmm s)
     \<and> root s1 = root s \<and> hhdm_offset s1 = hhdm_offset s \<and> vmm_config s1 = vmm_config s
     \<and> (\<forall>b. \<not> unat (b - blk) < n * 4096 \<longrightarrow> mem s1 b = mem s b)"

lemma block_written_tables:
  assumes inv: "vmm_inv s" and w: "block_written blk n s s1"
  shows "same_tables s s1"
proof -
  have "mem s1 b = mem s b" if t: "is_table s t" "unat (b - t) < 4096" for t b
  proof -
    obtain p where "idx_ok p" "length p \<le> 3" "table_at s (root s) p = Some t"
      using t(1) by (auto simp: is_table_def)
    then have tk: "table_ok s t" by (rule vmm_invD(2) [OF inv])
    then have "t \<notin> page_run blk n" using w table_okD(4) by (auto simp: block_written_def)
    then have "\<not> unat (b - blk) < n * 4096"
      using run_disjoint [OF _ table_okD(2) [OF tk] _ t(2)] w by (simp add: block_written_def)
    then show ?thesis using w by (simp add: block_written_def)
  qed
  then show ?thesis using w unfolding same_tables_def block_written_def by blast
qed

lemma block_written_correct:
  assumes inv: "vmm_inv s" and w: "block_written blk n s s1"
  shows "vmm_inv s1" and "translate s1 va = translate s va" and "no_huge s1 va = no_huge s va"
    and "keeps_data s s1" and "j < n \<Longrightarrow> data_frame s1 (blk + of_nat j * 4096)"
proof -
  note st = block_written_tables [OF inv w]
  have q: "pmm_inv (pmm s1)" "free_frames (pmm s1) \<subseteq> free_frames (pmm s)"
    "managed_frames (pmm s1) = managed_frames (pmm s)" using w by (auto simp: block_written_def)
  note si = same_tables_inv [OF inv st q]
  show "vmm_inv s1" "translate s1 va = translate s va" "no_huge s1 va = no_huge s va" by (rule si)+
  have "mem s1 b = mem s b" if f: "data_frame s f" "unat (b - f) < 4096" for f b
  proof -
    have "f \<notin> page_run blk n" "f mod 4096 = 0" using f(1) w by (auto simp: block_written_def data_frame_def)
    then have "\<not> unat (b - blk) < n * 4096"
      using run_disjoint [OF _ _ _ f(2)] w by (simp add: block_written_def)
    then show ?thesis using w by (simp add: block_written_def)
  qed
  then show "keeps_data s s1" using si(4) q(2) by (auto simp: keeps_data_def data_frame_def)
  show "data_frame s1 (blk + of_nat j * 4096)" if j: "j < n"
  proof -
    let ?f = "blk + of_nat j * 4096"
    have f: "?f \<in> page_run blk n" using j by (auto simp: page_run_def)
    then have "?f \<in> free_frames (pmm s)" "?f \<notin> free_frames (pmm s1)"
      using w by (auto simp: block_written_def)
    then have "\<not> is_table s ?f" using vmm_invD(2) [OF inv] by (auto simp: is_table_def dest: table_okD(4))
    then show ?thesis
      using si(4) \<open>?f \<notin> free_frames (pmm s1)\<close> w aligned_page_add by (simp add: data_frame_def block_written_def)
  qed
qed

lemma fill_segment_correct:
  assumes inv: "vmm_inv s" and ld: "loadable mmu limit elf s" and ok: "segment_ok elf phdr"
  defines "n \<equiv> segment_npages phdr"
  obtains (full) s1 where "fill_segment mmu elf phdr s = Some (False, NULL, s1)" "vmm_inv s1"
  | (filled) blk s1 where "fill_segment mmu elf phdr s = Some (True, blk, s1)"
      "blk \<noteq> 0" "unat blk + n * 4096 \<le> limit" "block_written blk n s s1"
      "\<And>k. k < n * 4096 \<Longrightarrow> mem s1 (blk + of_nat k) = segment_byte (mem s) elf phdr k"
proof -
  note pi = vmm_invD(1) [OF inv]
  note np = segment_npages_eq [OF ok, folded n_def]
  obtain blk q where al: "pmm_alloc_pages (segment_pages phdr) (pmm s) = (blk, q)" by fastforce
  show thesis
  proof (cases "blk = 0")
    case True
    then have "fill_segment mmu elf phdr s = Some (False, NULL, s\<lparr>pmm := q\<rparr>)"
      by (simp add: fill_segment_def al)
    moreover have "pmm_inv q" using pmm_alloc_pages_inv [OF pi] al by (metis snd_conv)
    moreover have "free_frames q = free_frames (pmm s)" "managed_frames q = managed_frames (pmm s)"
      using alloc_failed_frames [OF pi] al True by auto
    moreover have "same_tables s (s\<lparr>pmm := q\<rparr>)" by (simp add: same_tables_def)
    ultimately show thesis using full same_tables_inv(1) [OF inv] by simp
  next
    case False
    obtain k where k: "blk = page_addr (pmm s) k" "k + n \<le> npages (pmm s)"
      "page_run blk n \<subseteq> free_frames (pmm s)" "free_frames q = free_frames (pmm s) - page_run blk n"
      "managed_frames q = managed_frames (pmm s)"
      using pmm_alloc_pages_frames [OF pi al False] unfolding n_def by metis
    have ld': "identity_mapped mmu limit" "limit \<le> 2 ^ 52"
      "\<forall>f \<in> managed_frames (pmm s). unat f + 4096 \<le> limit"
      "unat (elf_data elf) + unat (elf_size elf) \<le> limit"
      using ld by (auto simp: loadable_def)
    note b = alloc_run_bounds [OF pi k(2) np(2) ld'(3), folded k(1)]
    define src where "src = elf_data elf + p_offset phdr"
    define fs where "fs = unat (p_filesz phdr)"
    have fs: "fs \<le> n * 4096" "unat (p_offset phdr) + fs \<le> unat (elf_size elf)"
      using ok np(4) by (auto simp: segment_ok_def fs_def word_le_nat_alt)
    have us: "unat src = unat (elf_data elf) + unat (p_offset phdr)"
      unfolding src_def using ld'(2,4) fs(2) by (intro unat_add_no_wrap) simp
    define m1 where "m1 = copy_up blk src fs (fill_up blk 0 (n * 4096) (mem s))"
    define s1 where "s1 = s\<lparr>pmm := q, mem := m1\<rparr>"
    have small: "n * 4096 \<le> 2 ^ 64" using b(1) ld'(2) by simp
    have apart: "\<not> unat (src + of_nat i - blk) < n * 4096" if i: "i < fs" for i
    proof
      assume "unat (src + of_nat i - blk) < n * 4096"
      then obtain f where f: "f \<in> page_run blk n" "unat (src + of_nat i - f) < 4096"
        using in_run_page by blast
      have "src + of_nat i = elf_data elf + of_nat (unat (p_offset phdr) + i)" by (simp add: src_def)
      moreover have "unat (p_offset phdr) + i < unat (elf_size elf)" using fs(2) i by simp
      ultimately show False using loadable_not_free [OF inv ld] f k(3) by (metis subsetD)
    qed
    have m1: "m1 b = (if unat (b - blk) < n * 4096 then segment_byte (mem s) elf phdr (unat (b - blk)) else mem s b)" for b
    proof -
      have "src + of_nat k \<noteq> blk + of_nat j" if "k < fs" "j < k" for k j
      proof
        assume "src + of_nat k = blk + of_nat j"
        then have "unat (src + of_nat k - blk) = j"
          using that fs(1) small by (simp add: unat_of_nat_small)
        then show False using apart [OF that(1)] that fs(1) by simp
      qed
      then have "m1 b = (if unat (b - blk) < fs then fill_up blk 0 (n * 4096) (mem s) (src + (b - blk))
          else fill_up blk 0 (n * 4096) (mem s) b)"
        unfolding m1_def using fs(1) small by (intro copy_up_apply) auto
      moreover have "fill_up blk 0 (n * 4096) (mem s) (src + (b - blk)) = mem s (src + (b - blk))"
        if "unat (b - blk) < fs"
        using apart [OF that] fill_up_apply [OF small, of blk 0 "mem s"] by simp
      ultimately show ?thesis
        using fs(1) by (simp add: fill_up_apply [OF small] segment_byte_def fs_def src_def)
    qed
    have "fill_segment mmu elf phdr s = Some (True, blk, s1)"
    proof -
      have "cpu_memset mmu blk 0 (n * 4096) (s\<lparr>pmm := q\<rparr>)
          = Some (s\<lparr>pmm := q, mem := fill_up blk 0 (n * 4096) (mem s)\<rparr>)"
        using cpu_memset_identity [OF ld'(1) _ b(1)] ld'(2) by simp
      moreover have "cpu_memcpy mmu blk src fs (s\<lparr>pmm := q, mem := fill_up blk 0 (n * 4096) (mem s)\<rparr>) = Some s1"
        using cpu_memcpy_identity [OF ld'(1), of blk fs src] b(1) ld'(2,4) fs us by (simp add: s1_def m1_def)
      moreover have "\<not> elf_size elf < p_offset phdr + p_filesz phdr"
        using fs(2) unat_lt_u64 [of "elf_size elf"]
        by (simp add: word_less_nat_alt fs_def unat_add_no_wrap not_less)
      moreover have "s1 = s\<lparr>pmm := q, mem := fill_up blk 0 (n * 4096) (mem s)\<rparr>" if "p_filesz phdr = 0"
        using that by (simp add: s1_def m1_def fs_def)
      ultimately show ?thesis
        using False np(5) by (auto simp: fill_segment_def al src_def fs_def Let_def word_greater_zero_iff)
    qed
    moreover have "block_written blk n s s1"
      using k b(2) pmm_alloc_pages_inv [OF pi, of "segment_pages phdr"] al m1
      by (simp add: block_written_def s1_def)
    moreover have "mem s1 (blk + of_nat i) = segment_byte (mem s) elf phdr i" if "i < n * 4096" for i
      using that small m1 [of "blk + of_nat i"] by (simp add: s1_def unat_of_nat_small)
    ultimately show thesis using filled False b(1) by blast
  qed
qed

section \<open>Mapping the block\<close>

lemma map_segment_keeps:
  assumes "vmm_inv s" "map_segment pv blk fl k j s = (ok, s')"
    and "\<forall>l. j \<le> l \<and> l < j + k \<longrightarrow> no_huge s (pv + of_nat l * PAGE_SIZE_4K)"
  shows "vmm_inv s' \<and> keeps_data s s' \<and> managed_frames (pmm s') = managed_frames (pmm s)
    \<and> free_frames (pmm s') \<subseteq> free_frames (pmm s)"
  using assms
proof (induction k arbitrary: j s)
  case 0
  then show ?case by (auto simp: keeps_data_refl)
next
  case (Suc k)
  let ?va = "pv + of_nat j * PAGE_SIZE_4K" and ?pa = "blk + of_nat j * PAGE_SIZE_4K"
  obtain b s1 where mp: "vmm_map_page ?va ?pa fl s = (b, s1)" by fastforce
  have nh: "no_huge s ?va" using Suc.prems(3) by simp
  have k1: "keeps_data s s1" using vmm_map_page_keeps [OF Suc.prems(1) nh mp] .
  have i1: "vmm_inv s1 \<and> managed_frames (pmm s1) = managed_frames (pmm s)
      \<and> free_frames (pmm s1) \<subseteq> free_frames (pmm s) \<and> (\<forall>va. no_huge s va \<longrightarrow> no_huge s1 va)"
  proof (cases "?va = 0 \<or> ?pa = 0")
    case True
    then show ?thesis using mp Suc.prems(1) by auto
  next
    case False
    then have nz: "?va \<noteq> 0" "?pa \<noteq> 0" by auto
    note c = vmm_map_page_contract [OF Suc.prems(1) nz nh mp]
    show ?thesis using c(2,3) c(4) [OF vpn_facts(1,2)] by (auto simp: no_huge_def)
  qed
  show ?case
  proof (cases b)
    case True
    then have "map_segment pv blk fl k (Suc j) s1 = (ok, s')" using Suc.prems(2) mp by simp
    then show ?thesis
      using Suc.IH [of s1 "Suc j"] i1 Suc.prems(3) keeps_data_trans [OF k1] by auto
  next
    case False
    then have "s' = s1" using Suc.prems(2) mp by simp
    then show ?thesis using i1 k1 by simp
  qed
qed

text \<open>As long as no page fails, the loop is the one of \<open>vmm_map_pages\<close>.\<close>

lemma map_segment_map_loop:
  "map_segment pv blk fl k j s = (True, s') \<Longrightarrow> map_loop pv blk PAGE_SIZE_4K fl k j s = (True, s')"
  by (induction k arbitrary: j s) (auto split: prod.splits if_splits)

lemma map_segment_correct:
  assumes inv: "vmm_inv s" and mp: "map_segment pv blk fl n 0 s = (True, s')" and n: "n \<le> 2 ^ 36"
    and pg: "\<forall>l<n. pv + of_nat l * PAGE_SIZE_4K \<noteq> 0 \<and> blk + of_nat l * PAGE_SIZE_4K \<noteq> 0
      \<and> no_huge s (pv + of_nat l * PAGE_SIZE_4K)"
  shows "l < n \<Longrightarrow> vpn va = vpn (pv + of_nat l * PAGE_SIZE_4K) \<Longrightarrow>
      translate s' va = Some ((((blk + of_nat l * PAGE_SIZE_4K) AND PAGE_ADDR_MASK) OR nx_bit s fl)
             + (va AND mask 12)) \<and> no_huge s' va"
    and "\<forall>l<n. vpn va \<noteq> vpn (pv + of_nat l * PAGE_SIZE_4K) \<Longrightarrow>
      translate s' va = translate s va \<and> no_huge s' va = no_huge s va"
proof -
  have dp: "paging.distinct_pages pv PAGE_SIZE_4K (0 + n)" using distinct_pages_4K [OF n] pg by simp
  have c: "vmm_inv s' \<and> vmm_entry s' = vmm_entry s
    \<and> (True \<longrightarrow> (\<forall>j. 0 \<le> j \<and> j < 0 + n \<longrightarrow> vmm_look s' (pv + of_nat j * PAGE_SIZE_4K)
             = Some (vmm_entry s (blk + of_nat j * PAGE_SIZE_4K) fl))
         \<and> (\<forall>va. (\<forall>j. 0 \<le> j \<and> j < 0 + n \<longrightarrow> vpn va \<noteq> vpn (pv + of_nat j * PAGE_SIZE_4K))
             \<longrightarrow> vmm_look s' va = vmm_look s va))
    \<and> (\<not> True \<longrightarrow> (\<exists>j. 0 \<le> j \<and> j < 0 + n \<and> (\<forall>va. vmm_look s' va =
         (if \<exists>l<j. vpn va = vpn (pv + of_nat l * PAGE_SIZE_4K) then None else vmm_look s va))))"
    by (rule paging.mloop_correct [OF inv dp _ _ map_segment_map_loop [OF mp]])
       (use pg small_look in auto)
  have e: "(((pa AND PAGE_ADDR_MASK) OR hw_flags s fl) AND PAGE_ADDR_MASK)
      = (pa AND PAGE_ADDR_MASK) OR nx_bit s fl" for pa
    by (simp add: or_addr_mask hw_flags_mask)
  show "translate s' va = Some ((((blk + of_nat l * PAGE_SIZE_4K) AND PAGE_ADDR_MASK) OR nx_bit s fl)
             + (va AND mask 12)) \<and> no_huge s' va" if "l < n" "vpn va = vpn (pv + of_nat l * PAGE_SIZE_4K)"
    using c that e by (simp add: translate_def no_huge_def)
  show "translate s' va = translate s va \<and> no_huge s' va = no_huge s va"
    if "\<forall>l<n. vpn va \<noteq> vpn (pv + of_nat l * PAGE_SIZE_4K)"
    using c that by (simp add: translate_def no_huge_def)
qed

section \<open>Loading a segment\<close>

lemma aligned_add_bits:
  fixes f :: u64
  assumes "f mod 4096 = 0" "r < 4096"
  shows "(f + of_nat r) AND PAGE_ADDR_MASK = f" and "(f + of_nat r) AND mask 12 = of_nat r"
proof -
  have r: "\<not> bit (of_nat r :: u64) n" if "12 \<le> n" for n
    using assms(2) that by (intro not_bit_ge [of _ 12]) (simp_all add: unat_of_nat)
  have f: "\<not> bit f n" if "n < 12" for n using assms(1) that by (simp add: aligned_iff_bits)
  have "\<not> bit f n \<or> \<not> bit (of_nat r :: u64) n" for n using r f not_less by blast
  then have o: "f + of_nat r = f OR of_nat r" by (rule disjunctive_add)
  show "(f + of_nat r) AND PAGE_ADDR_MASK = f"
    unfolding o
  proof (rule bit_word_eqI)
    fix n show "bit ((f OR of_nat r) AND PAGE_ADDR_MASK) n = bit f n"
      using r [of n] f [of n] by (cases "n < 12") (auto simp: bit_addr_mask bit_or_iff)
  qed
  show "(f + of_nat r) AND mask 12 = of_nat r"
    unfolding o
  proof (rule bit_word_eqI)
    fix n show "bit ((f OR of_nat r) AND mask 12) n = bit (of_nat r :: u64) n"
      using r [of n] f [of n] by (cases "n < 12") (auto simp: bit_and_iff bit_or_iff bit_mask_iff)
  qed
qed

lemma phys_of_frame:
  fixes f :: u64
  assumes "f mod 4096 = 0" "unat f + 4096 \<le> 2 ^ 52" "r < 4096" "x = 0 \<or> x = PAGE_NO_EXECUTE"
  shows "phys_of (((f AND PAGE_ADDR_MASK) OR x) + of_nat r) = f + of_nat r"
proof -
  have "\<not> bit f 63" using assms(2) by (intro not_bit_ge [of _ 52]) auto
  then have "\<not> bit f n \<or> \<not> bit x n" for n
    using assms(4) by (cases "n = 63") (auto simp: PAGE_NO_EXECUTE_def bit_push_bit_iff simp del: push_bit_of_1)
  then have "f OR x = f + x" by (rule disjunctive_add [symmetric])
  then have e: "((f AND PAGE_ADDR_MASK) OR x) + of_nat r = f + of_nat r + x"
    using aligned_and_mask [OF assms(1)] by (simp add: algebra_simps)
  have u: "unat (f + of_nat r) = unat f + r" using assms(2,3) by (intro unat_add_of_nat) simp
  have "unat (phys_of (f + of_nat r + x)) = unat (f + of_nat r)"
  proof (cases "x = 0")
    case True
    then show ?thesis using u assms(2,3) by (simp add: phys_of_def unat_and_mask)
  next
    case False
    then have "unat x = 2 ^ 63" using assms(4) by (simp add: PAGE_NO_EXECUTE_def)
    then have "unat (f + of_nat r + x) = unat f + r + 2 ^ 63"
      using u assms(2,3) by (subst unat_add_no_wrap) auto
    then have "unat (phys_of (f + of_nat r + x)) = (unat f + r + 2 ^ 11 * 2 ^ 52) mod 2 ^ 52"
      by (simp add: phys_of_def unat_and_mask)
    also have "\<dots> = (unat f + r) mod 2 ^ 52" by (rule mod_mult_self1)
    finally show ?thesis using u assms(2,3) by simp
  qed
  then show ?thesis unfolding e by (simp add: word_unat_eq_iff)
qed

text \<open>The pages of a segment, and that the segment can be mapped there.\<close>

definition segment_keys :: "elf_file_t \<Rightarrow> u64 \<Rightarrow> elf64_phdr_t \<Rightarrow> path set" where
  "segment_keys elf base phdr =
     (\<lambda>l. vpn (segment_base elf base phdr + of_nat l * PAGE_SIZE_4K)) ` {..< segment_npages phdr}"

definition segment_mappable :: "elf_file_t \<Rightarrow> u64 \<Rightarrow> elf64_phdr_t \<Rightarrow> vmm_state \<Rightarrow> bool" where
  "segment_mappable elf base phdr s \<longleftrightarrow> (\<forall>l < segment_npages phdr.
     segment_base elf base phdr + of_nat l * PAGE_SIZE_4K \<noteq> 0
     \<and> no_huge s (segment_base elf base phdr + of_nat l * PAGE_SIZE_4K))"

lemma segment_base_aligned: "segment_base elf base phdr mod 4096 = 0"
  using mask_aligned by (simp add: segment_base_def PAGE_SIZE_4K_def PAGE_ADDR_MASK_def)

lemma page_offset_split: "(p :: u64) + of_nat k = (p + of_nat (k div 4096) * 4096) + of_nat (k mod 4096)"
proof -
  have "p + of_nat (k div 4096 * 4096 + k mod 4096) = p + of_nat k" by (subst div_mult_mod_eq) simp
  then show ?thesis by (simp only: of_nat_add of_nat_mult of_nat_numeral add.assoc)
qed

lemma block_frame:
  fixes blk :: u64
  assumes "blk mod 4096 = 0" "unat blk + n * 4096 \<le> limit" "limit \<le> 2 ^ 52" "k < n * 4096"
  shows "unat (blk + of_nat (k div 4096) * 4096) + 4096 \<le> limit"
    and "k div 4096 < n"
proof -
  show l: "k div 4096 < n" using assms(4) by (simp add: less_mult_imp_div_less)
  then have "(k div 4096 + 1) * 4096 \<le> n * 4096" by (intro mult_le_mono1) simp
  then have le: "k div 4096 * 4096 + 4096 \<le> n * 4096" by (simp only: add_mult_distrib)
  have "unat (blk + of_nat (k div 4096 * 4096)) = unat blk + k div 4096 * 4096"
    using assms(2,3) le by (intro unat_add_of_nat) simp
  then have "unat (blk + of_nat (k div 4096) * 4096) = unat blk + k div 4096 * 4096"
    by (simp only: of_nat_mult of_nat_numeral)
  then show "unat (blk + of_nat (k div 4096) * 4096) + 4096 \<le> limit" using assms(2) le by linarith
qed

text \<open>
  The effect of loading one segment: the block becomes visible page by page from the start of the
  first page on, everything else stays.
\<close>

definition segment_loaded :: "elf_file_t \<Rightarrow> u64 \<Rightarrow> elf64_phdr_t \<Rightarrow> memory \<Rightarrow> vmm_state \<Rightarrow> bool" where
  "segment_loaded elf base phdr m s \<longleftrightarrow> (\<forall>k < segment_npages phdr * 4096.
     loaded s (segment_base elf base phdr + of_nat k) (segment_byte m elf phdr k))"

definition load_frame :: "vmm_state \<Rightarrow> vmm_state \<Rightarrow> bool" where
  "load_frame s s' \<longleftrightarrow> vmm_inv s' \<and> keeps_data s s' \<and> managed_frames (pmm s') = managed_frames (pmm s)
     \<and> free_frames (pmm s') \<subseteq> free_frames (pmm s)"

lemma load_frame_trans: "load_frame s s' \<Longrightarrow> load_frame s' s'' \<Longrightarrow> load_frame s s''"
  by (auto simp: load_frame_def intro: keeps_data_trans)

lemma load_segment_correct:
  assumes inv: "vmm_inv s" and ld: "loadable mmu limit elf s" and ok: "segment_ok elf phdr"
    and mp: "segment_mappable elf base phdr s"
  obtains (full) s' where "load_segment mmu base phdr elf s = Some (False, elf, s')" "vmm_inv s'"
  | (success) top s' where "load_segment mmu base phdr elf s = Some (True, elf\<lparr>elf_top_addr := top\<rparr>, s')"
      "load_frame s s'" "segment_loaded elf base phdr (mem s) s'"
      "\<And>va. vpn va \<notin> segment_keys elf base phdr \<Longrightarrow> translate s' va = translate s va"
      "\<And>va. no_huge s va \<Longrightarrow> no_huge s' va"
proof -
  define n where "n = segment_npages phdr"
  define pv where "pv = segment_base elf base phdr"
  note np = segment_npages_eq [OF ok, folded n_def]
  have lim: "limit \<le> 2 ^ 52" using ld by (simp add: loadable_def)
  show thesis
    using inv ld ok
  proof (cases rule: fill_segment_correct)
    case (full s1)
    then show thesis using that(1) [of s1] by (simp add: load_segment_def)
  next
    case (filled blk s1)
    note bw = filled(4) [folded n_def]
    note w = block_written_correct [OF inv bw]
    have al: "blk mod 4096 = 0" using bw by (simp add: block_written_def)
    have nz: "pv + of_nat l * PAGE_SIZE_4K \<noteq> 0" "no_huge s1 (pv + of_nat l * PAGE_SIZE_4K)" if "l < n" for l
      using mp that w(3) by (auto simp: segment_mappable_def n_def pv_def)
    obtain r s' where ms: "map_segment pv blk (segment_flags phdr) n 0 s1 = (r, s')" by fastforce
    have k: "vmm_inv s' \<and> keeps_data s1 s' \<and> managed_frames (pmm s') = managed_frames (pmm s1)
        \<and> free_frames (pmm s') \<subseteq> free_frames (pmm s1)"
      using map_segment_keeps [OF w(1) ms] nz by simp
    then have lf: "load_frame s s'"
      using bw keeps_data_trans [OF w(4)] by (auto simp: load_frame_def block_written_def)
    have eq: "load_segment mmu base phdr elf s = Some (r, if r \<and> elf_top_addr elf < segment_vaddr elf base phdr + p_memsz phdr
        then elf\<lparr>elf_top_addr := segment_vaddr elf base phdr + p_memsz phdr\<rparr> else elf, s')"
      using filled(1) ms by (simp add: load_segment_def Let_def pv_def segment_base_def n_def)
    show thesis
    proof (cases r)
      case False
      then show thesis using that(1) [of s'] eq lf by (simp add: load_frame_def)
    next
      case True
      have bz: "blk + of_nat l * PAGE_SIZE_4K \<noteq> 0" if "l < n" for l
        using bw that pmm.free_subset [OF vmm_invD(1) [OF inv]] pmm.frames_nonzero [OF vmm_invD(1) [OF inv]]
        by (auto simp: block_written_def page_run_def PAGE_SIZE_4K_def image_subset_iff)
      have ms_ok: "map_segment pv blk (segment_flags phdr) n 0 s1 = (True, s')" using ms True by simp
      have pg: "\<forall>l<n. pv + of_nat l * PAGE_SIZE_4K \<noteq> 0 \<and> blk + of_nat l * PAGE_SIZE_4K \<noteq> 0
          \<and> no_huge s1 (pv + of_nat l * PAGE_SIZE_4K)" using nz bz by blast
      note mc = map_segment_correct [OF w(1) ms_ok np(3) pg]
      have "loaded s' (pv + of_nat i) (segment_byte (mem s) elf phdr i)" if i: "i < n * 4096" for i
      proof -
        define f where "f = blk + of_nat (i div 4096) * 4096"
        define v where "v = pv + of_nat (i div 4096) * 4096"
        note b = block_frame [OF al filled(3) [folded n_def] lim i, folded f_def]
        have bi: "blk + of_nat i = f + of_nat (i mod 4096)" unfolding f_def by (rule page_offset_split)
        have o: "i mod 4096 < 4096" by simp
        have va: "pv + of_nat i = v + of_nat (i mod 4096)"
          unfolding v_def by (rule page_offset_split)
        have v: "v mod 4096 = 0" and f: "f mod 4096 = 0"
          using aligned_page_add al segment_base_aligned by (auto simp: v_def f_def pv_def)
        note ab = aligned_add_bits [OF v o]
        have "vpn (pv + of_nat i) = vpn v" using ab(1) vpn_facts(3) va by metis
        then have "translate s' (pv + of_nat i) = Some (((f AND PAGE_ADDR_MASK) OR nx_bit s1 (segment_flags phdr)) + of_nat (i mod 4096))"
          using mc(1) [OF b(2), of "v + of_nat (i mod 4096)"] ab(2) unfolding va
          by (simp add: v_def f_def PAGE_SIZE_4K_def)
        moreover have "phys_of (((f AND PAGE_ADDR_MASK) OR nx_bit s1 (segment_flags phdr)) + of_nat (i mod 4096)) = blk + of_nat i"
          using phys_of_frame [OF f _ o] b(1) bi lim by (simp add: nx_bit_def)
        moreover have df: "data_frame s1 f" using w(5) [OF b(2)] by (simp add: f_def)
        moreover have u: "unat (blk + of_nat i - f) < 4096" using bi o by (simp add: unat_of_nat_small)
        ultimately show ?thesis
          using k filled(5) [folded n_def, OF i] unfolding loaded_def keeps_data_def by (metis (no_types))
      qed
      then have "segment_loaded elf base phdr (mem s) s'" by (simp add: segment_loaded_def n_def pv_def)
      moreover have "translate s' va = translate s va" if "vpn va \<notin> segment_keys elf base phdr" for va
        using mc(2) [of va] that w(2) by (auto simp: segment_keys_def n_def pv_def)
      moreover have "no_huge s' va" if "no_huge s va" for va
        using mc(1) [of _ va] mc(2) [of va] that w(3) by blast
      moreover have "\<exists>top. load_segment mmu base phdr elf s = Some (True, elf\<lparr>elf_top_addr := top\<rparr>, s')"
        using eq True by (cases "elf_top_addr elf < segment_vaddr elf base phdr + p_memsz phdr")
          (auto intro: exI [of _ "elf_top_addr elf"])
      ultimately show thesis using that(2) lf by blast
    qed
  qed
qed

section \<open>Loading a file\<close>

text \<open>Program header \<open>i\<close> as it stands in the file.\<close>

definition header_of :: "memory \<Rightarrow> elf_file_t \<Rightarrow> nat \<Rightarrow> elf64_phdr_t" where
  "header_of m elf i = phdr_at m (program_headers elf + of_nat i * phdr_size)"

text \<open>
  The program headers lie in the file; the loadable segments are well formed, can be mapped and have
  no page in common.
\<close>

definition headers_ok :: "elf_file_t \<Rightarrow> u64 \<Rightarrow> vmm_state \<Rightarrow> bool" where
  "headers_ok elf base s \<longleftrightarrow>
     (\<exists>off. program_headers elf = elf_data elf + of_nat off
        \<and> off + unat (e_phnum (elf_header elf)) * 56 \<le> unat (elf_size elf))
   \<and> (\<forall>i < unat (e_phnum (elf_header elf)). p_type (header_of (mem s) elf i) = PT_LOAD \<longrightarrow>
        segment_ok elf (header_of (mem s) elf i) \<and> segment_mappable elf base (header_of (mem s) elf i) s
        \<and> (\<forall>j < i. p_type (header_of (mem s) elf j) = PT_LOAD \<longrightarrow>
             segment_keys elf base (header_of (mem s) elf i) \<inter> segment_keys elf base (header_of (mem s) elf j) = {}))"

lemma read_le_inside:
  assumes "\<And>i. i < N \<Longrightarrow> m (p + of_nat i) = m' (p + of_nat i)" and "d + n \<le> N"
  shows "read_le m (p + of_nat d) n = (read_le m' (p + of_nat d) n :: 'a::len word)"
proof (rule read_le_cong)
  fix i assume "i < n"
  then show "m (p + of_nat d + of_nat i) = m' (p + of_nat d + of_nat i)"
    using assms(1) [of "d + i"] assms(2) by (simp add: add.assoc)
qed

lemma phdr_at_cong:
  assumes "\<And>i. i < 56 \<Longrightarrow> m (p + of_nat i) = m' (p + of_nat i)"
  shows "phdr_at m p = phdr_at m' p"
proof -
  note r32 = read_le_inside [where 'a = 32, of 56 m p m', OF assms]
  note r64 = read_le_inside [where 'a = 64, of 56 m p m', OF assms]
  show ?thesis
    using r32 [of 0 4] r32 [of 4 4] r64 [of 8 8] r64 [of 16 8] r64 [of 24 8] r64 [of 32 8]
      r64 [of 40 8] r64 [of 48 8]
    by (simp add: phdr_at_def)
qed

lemma file_byte_kept:
  assumes "loadable mmu limit elf s" "keeps_data s s'" "i < unat (elf_size elf)"
  shows "mem s' (elf_data elf + of_nat i) = mem s (elf_data elf + of_nat i)"
  using assms unfolding loadable_def keeps_data_def by metis

lemma program_header_read:
  assumes ld: "loadable mmu limit elf s" and k: "keeps_data s s'"
    and off: "program_headers elf = elf_data elf + of_nat off"
      "off + unat (e_phnum (elf_header elf)) * 56 \<le> unat (elf_size elf)"
    and i: "i < unat (e_phnum (elf_header elf))"
    and e: "program_headers elf' = program_headers elf"
  shows "program_header mmu elf' i s' = Some (header_of (mem s) elf i)"
proof -
  let ?p = "program_headers elf + of_nat i * phdr_size"
  have p: "?p + of_nat j = elf_data elf + of_nat (off + i * 56 + j)" for j
    by (simp add: off(1) phdr_size_def algebra_simps)
  have "(i + 1) * 56 \<le> unat (e_phnum (elf_header elf)) * 56" using i by (intro mult_le_mono1) simp
  then have b: "off + i * 56 + j < unat (elf_size elf)" if "j < 56" for j using off(2) that by simp
  have lim: "unat (elf_data elf) + unat (elf_size elf) \<le> limit" "limit \<le> 2 ^ 52" "identity_mapped mmu limit"
    using ld by (auto simp: loadable_def)
  have id: "mmu s' (?p + of_nat j) = Some (?p + of_nat j)" if "j < 56" for j
  proof -
    have "unat (?p + of_nat j) = unat (elf_data elf) + (off + i * 56 + j)"
      unfolding p using b [OF that] lim by (intro unat_add_of_nat) simp
    then show ?thesis using b [OF that] lim identity_mappedD by simp
  qed
  have "phdr_at (cpu_mem mmu s') ?p = phdr_at (mem s) ?p"
  proof (rule phdr_at_cong)
    fix j :: nat assume j: "j < 56"
    have "cpu_mem mmu s' (?p + of_nat j) = mem s' (?p + of_nat j)" using id [OF j] by (simp add: cpu_mem_def)
    also have "\<dots> = mem s (?p + of_nat j)" unfolding p by (rule file_byte_kept [OF ld k b [OF j]])
    finally show "cpu_mem mmu s' (?p + of_nat j) = mem s (?p + of_nat j)" .
  qed
  moreover have "cpu_mapped mmu s' ?p 56" using id by (simp add: cpu_mapped_def)
  ultimately show ?thesis by (simp add: program_header_def header_of_def e)
qed

text \<open>
  The loop over the program headers, from header \<open>i\<close> on, with the segments before it loaded: \<open>s0\<close>
  is the state the loop started in.
\<close>

definition loading :: "elf_file_t \<Rightarrow> u64 \<Rightarrow> vmm_state \<Rightarrow> nat \<Rightarrow> vmm_state \<Rightarrow> bool" where
  "loading elf base s0 i s \<longleftrightarrow> load_frame s0 s \<and> (\<forall>va. no_huge s0 va \<longrightarrow> no_huge s va)
     \<and> (\<forall>j < i. p_type (header_of (mem s0) elf j) = PT_LOAD \<longrightarrow>
          segment_loaded elf base (header_of (mem s0) elf j) (mem s0) s)
     \<and> (\<forall>va. (\<forall>j < i. p_type (header_of (mem s0) elf j) = PT_LOAD \<longrightarrow>
          vpn va \<notin> segment_keys elf base (header_of (mem s0) elf j)) \<longrightarrow> translate s va = translate s0 va)"

lemma segment_defs_cong:
  assumes "elf_header elf' = elf_header elf" "elf_data elf' = elf_data elf" "elf_size elf' = elf_size elf"
  shows "segment_base elf' = segment_base elf" "segment_ok elf' = segment_ok elf"
    "segment_byte m elf' = segment_byte m elf" "segment_keys elf' = segment_keys elf"
    "segment_loaded elf' = segment_loaded elf" "segment_mappable elf' = segment_mappable elf"
  using assms
  by (auto simp: segment_base_def segment_vaddr_def segment_ok_def segment_byte_def segment_keys_def
      segment_loaded_def segment_mappable_def fun_eq_iff)

lemma segment_key_of:
  assumes "k < segment_npages phdr * 4096"
  shows "vpn (segment_base elf base phdr + of_nat k) \<in> segment_keys elf base phdr"
proof -
  let ?v = "segment_base elf base phdr + of_nat (k div 4096) * 4096"
  have "(?v + of_nat (k mod 4096)) AND PAGE_ADDR_MASK = ?v"
    by (rule aligned_add_bits) (simp_all add: aligned_page_add segment_base_aligned)
  then have "vpn (segment_base elf base phdr + of_nat k) = vpn ?v"
    by (metis page_offset_split vpn_facts(3))
  moreover have "k div 4096 < segment_npages phdr" using assms by (simp add: less_mult_imp_div_less)
  ultimately show ?thesis by (auto simp: segment_keys_def PAGE_SIZE_4K_def)
qed

lemma segment_byte_kept:
  assumes "loadable mmu limit elf s" "keeps_data s s'" "segment_ok elf phdr"
  shows "segment_byte (mem s') elf phdr k = segment_byte (mem s) elf phdr k"
proof -
  have e: "elf_data elf + p_offset phdr + of_nat k = elf_data elf + of_nat (unat (p_offset phdr) + k)" by simp
  have "unat (p_offset phdr) + k < unat (elf_size elf)" if "k < unat (p_filesz phdr)"
    using that assms(3) by (simp add: segment_ok_def)
  then show ?thesis unfolding segment_byte_def e using file_byte_kept [OF assms(1,2)] by (simp del: of_nat_add)
qed

lemma loading_step:
  assumes ld0: "loadable mmu limit elf s0" and ho: "headers_ok elf base s0"
    and ldg: "loading elf base s0 i s" and inv: "vmm_inv s"
    and i: "i < unat (e_phnum (elf_header elf))" "p_type (header_of (mem s0) elf i) = PT_LOAD"
    and lf: "load_frame s s'" and sl: "segment_loaded elf base (header_of (mem s0) elf i) (mem s) s'"
    and tr: "\<And>va. vpn va \<notin> segment_keys elf base (header_of (mem s0) elf i) \<Longrightarrow> translate s' va = translate s va"
    and nh: "\<And>va. no_huge s va \<Longrightarrow> no_huge s' va"
  shows "loading elf base s0 (Suc i) s'"
proof -
  let ?h = "header_of (mem s0) elf"
  have l0: "load_frame s0 s" "\<And>va. no_huge s0 va \<Longrightarrow> no_huge s va" using ldg by (auto simp: loading_def)
  have so: "segment_ok elf (?h i)" using ho i by (simp add: headers_ok_def)
  have k: "keeps_data s0 s" "keeps_data s s'" using l0(1) lf by (auto simp: load_frame_def)
  have new: "segment_loaded elf base (?h i) (mem s0) s'"
    using sl segment_byte_kept [OF ld0 k(1) so] by (simp add: segment_loaded_def)
  have old: "segment_loaded elf base (?h j) (mem s0) s'" if j: "j < i" "p_type (?h j) = PT_LOAD" for j
    unfolding segment_loaded_def
  proof (intro allI impI)
    fix l assume l: "l < segment_npages (?h j) * 4096"
    have "segment_keys elf base (?h i) \<inter> segment_keys elf base (?h j) = {}"
      using ho i j by (simp add: headers_ok_def)
    then have "translate s' (segment_base elf base (?h j) + of_nat l)
        = translate s (segment_base elf base (?h j) + of_nat l)"
      using tr segment_key_of [OF l] by blast
    moreover have "loaded s (segment_base elf base (?h j) + of_nat l) (segment_byte (mem s0) elf (?h j) l)"
      using ldg j l by (simp add: loading_def segment_loaded_def)
    ultimately show "loaded s' (segment_base elf base (?h j) + of_nat l) (segment_byte (mem s0) elf (?h j) l)"
      using loaded_mono k(2) by blast
  qed
  have "translate s' va = translate s0 va"
    if "\<forall>j < Suc i. p_type (?h j) = PT_LOAD \<longrightarrow> vpn va \<notin> segment_keys elf base (?h j)" for va
  proof -
    have "translate s va = translate s0 va" using ldg that by (simp add: loading_def)
    then show ?thesis using tr that i(2) by simp
  qed
  then show ?thesis
    using load_frame_trans [OF l0(1) lf] l0(2) nh new old by (simp add: loading_def less_Suc_eq)
qed

lemma load_loop_correct:
  assumes ld0: "loadable mmu limit elf s0" and ho: "headers_ok elf base s0"
    and "loading elf base s0 i s" and "i + k = unat (e_phnum (elf_header elf))"
  shows "\<exists>r t' s'. load_loop mmu base k i (elf\<lparr>elf_top_addr := t\<rparr>) s = Some (r, elf\<lparr>elf_top_addr := t'\<rparr>, s')
    \<and> vmm_inv s' \<and> (r \<longrightarrow> loading elf base s0 (i + k) s')"
  using assms(3,4)
proof (induction k arbitrary: i t s)
  case 0
  then show ?case by (auto simp: loading_def load_frame_def)
next
  case (Suc k)
  let ?h = "header_of (mem s0) elf i" and ?e = "elf\<lparr>elf_top_addr := t\<rparr>"
  have lf: "load_frame s0 s" using Suc.prems(1) by (simp add: loading_def)
  then have inv: "vmm_inv s" and kd: "keeps_data s0 s" by (auto simp: load_frame_def)
  have i: "i < unat (e_phnum (elf_header elf))" using Suc.prems(2) by simp
  obtain off where off: "program_headers elf = elf_data elf + of_nat off"
    "off + unat (e_phnum (elf_header elf)) * 56 \<le> unat (elf_size elf)" using ho by (auto simp: headers_ok_def)
  have ph: "program_header mmu ?e i s = Some ?h" by (rule program_header_read [OF ld0 kd off i]) simp
  show ?case
  proof (cases "p_type ?h = PT_LOAD")
    case False
    have "loading elf base s0 (Suc i) s" using Suc.prems(1) False by (auto simp: loading_def less_Suc_eq)
    from Suc.IH [OF this, of t] show ?thesis using ph False Suc.prems(2) by simp
  next
    case True
    have ld: "loadable mmu limit ?e s" using loadable_mono [OF ld0 kd] lf by (simp add: load_frame_def)
    note cg = segment_defs_cong [of ?e elf]
    have "segment_ok ?e ?h" "segment_mappable ?e base ?h s"
      using ho i True Suc.prems(1) by (auto simp: headers_ok_def cg segment_mappable_def loading_def)
    with inv ld show ?thesis
    proof (cases rule: load_segment_correct)
      case (full s')
      then show ?thesis using ph True by auto
    next
      case (success t1 s')
      have "loading elf base s0 (Suc i) s'"
        by (rule loading_step [OF ld0 ho Suc.prems(1) inv i True success(2)]) (use success in \<open>simp_all add: cg\<close>)
      from Suc.IH [OF this, of t1] show ?thesis using ph True success(1) Suc.prems(2) by simp
    qed
  qed
qed

end
