(* ===== verification/ELF_Unload.thy ===== *)
theory ELF_Unload
  imports ELF_Correct
begin

text \<open>
  Unloading: the inner loop of \<open>elf_unload\<close> takes every page of a segment out of the address space
  and gives its frame back, unless the page is mapped without execute permission.
\<close>

section \<open>Releasing a data frame\<close>

lemma free_frame_simps [simp]:
  "mem (free_frame p s) = mem s" "root (free_frame p s) = root s" "hhdm_offset (free_frame p s) = hhdm_offset s"
  "vmm_config (free_frame p s) = vmm_config s" "pmm (free_frame p s) = pmm_free_page p (pmm s)"
  by (simp_all add: free_frame_def)

lemma free_frame_walk:
  "table_at (free_frame p s) t r = table_at s t r" "leaf (free_frame p s) t r = leaf s t r"
  by (simp_all add: free_frame_def)

lemma free_frame_translate [simp]:
  "translate (free_frame p s) va = translate s va" "no_huge (free_frame p s) va = no_huge s va"
  by (simp_all add: translate_def no_huge_def free_frame_walk)

lemma vmm_inv_free_frame:
  assumes inv: "vmm_inv s" and f: "\<not> is_table s f"
  shows "vmm_inv (free_frame f s)"
proof -
  note pi = vmm_invD(1) [OF inv]
  have fr: "free_frames (pmm_free_page f (pmm s)) \<subseteq> insert f (free_frames (pmm s))"
    using pmm.release_hit [OF pi, of f] pmm.release_miss [OF pi, of f] by (cases "f \<in> managed_frames (pmm s)") auto
  have ok: "table_ok (free_frame f s) t" if "idx_ok p" "length p \<le> 3" "table_at s (root s) p = Some t" for p t
  proof -
    have "t \<noteq> f" using f that by (auto simp: is_table_def)
    then show ?thesis using vmm_invD(2) [OF inv that] fr by (auto simp: table_ok_def)
  qed
  have "entry (free_frame f s) t i = entry s t i" for t i by (simp add: entry_def)
  then show ?thesis
    using ok inv pmm_free_page_inv [OF pi] pmm.release_frames [OF pi]
    unfolding vmm_inv_def free_frame_walk by (auto simp: free_frame_walk)
qed

section \<open>The loop\<close>

abbreviation page_at :: "u64 \<Rightarrow> nat \<Rightarrow> u64" where
  "page_at pv l \<equiv> pv + of_nat l * PAGE_SIZE_4K"

text \<open>
  The pages from \<open>j\<close> up to \<open>n\<close> are mapped below the direct map, page \<open>l\<close> to the frame \<open>f l\<close>, with
  the bits \<open>x\<close> of the entry in the way of the address.
\<close>

definition mapped_run :: "u64 \<Rightarrow> nat \<Rightarrow> nat \<Rightarrow> (nat \<Rightarrow> u64) \<Rightarrow> u64 \<Rightarrow> vmm_state \<Rightarrow> bool" where
  "mapped_run pv j n f x s \<longleftrightarrow> n \<le> 2 ^ 36 \<and> (\<forall>l. j \<le> l \<and> l < n \<longrightarrow>
     page_at pv l \<noteq> 0 \<and> page_at pv l < hhdm_offset s \<and> no_huge s (page_at pv l)
     \<and> translate s (page_at pv l) = Some (f l OR x)
     \<and> f l \<in> managed_frames (pmm s) \<and> \<not> is_table s (f l) \<and> f l \<noteq> PAGE_SIZE_4K)"

lemma unmap_page_step:
  assumes inv: "vmm_inv s" and nz: "va \<noteq> 0" and nh: "no_huge s va"
  defines "s' \<equiv> snd (vmm_unmap_page va s)"
  shows "vmm_inv s'" "hhdm_offset s' = hhdm_offset s" "pmm s' = pmm s" "root s' = root s"
    "translate s' va' = (if vpn va' = vpn va then None else translate s va')"
    "no_huge s va' \<Longrightarrow> no_huge s' va'" "is_table s' t = is_table s t"
proof -
  obtain ok where un: "vmm_unmap_page va s = (ok, s')" by (simp add: s'_def) (metis surj_pair snd_conv)
  note c = vmm_unmap_page_contract [OF inv nz un]
  note l = unmap_small [OF inv nz nh un]
  show "vmm_inv s'" "hhdm_offset s' = hhdm_offset s" "pmm s' = pmm s" and r: "root s' = root s" using c(2) by auto
  show "translate s' va' = (if vpn va' = vpn va then None else translate s va')"
    using l [of va'] by (simp add: translate_def)
  show "no_huge s' va'" if "no_huge s va'" using l [of va'] that by (auto simp: no_huge_def)
  show "is_table s' t = is_table s t" using c(3) r by (auto simp: is_table_def)
qed

lemma is_table_free_frame [simp]: "is_table (free_frame p s) t = is_table s t"
  by (simp add: is_table_def free_frame_walk)

text \<open>The address \<open>vmm_get_physical_address\<close> returns for a page without execute permission is no frame.\<close>

lemma nx_not_managed:
  assumes "\<forall>g \<in> managed_frames q. unat g < 2 ^ 52"
  shows "f OR PAGE_NO_EXECUTE \<notin> managed_frames q"
proof
  assume "f OR PAGE_NO_EXECUTE \<in> managed_frames q"
  then have "unat (f OR PAGE_NO_EXECUTE) < 2 ^ 52" using assms by blast
  then have "\<not> bit (f OR PAGE_NO_EXECUTE) 63" by (intro not_bit_ge [of _ 52]) auto
  then show False by (simp add: PAGE_NO_EXECUTE_def bit_or_iff bit_push_bit_iff del: push_bit_of_1)
qed

lemma if_if_or: "(if e then a else if d then a else b) = (if d \<or> e then a else b)"
  by simp

lemma unload_pages_correct:
  assumes "vmm_inv s" "mapped_run pv j (j + k) f x s" "x = 0 \<or> x = PAGE_NO_EXECUTE"
    and "\<forall>g \<in> managed_frames (pmm s). unat g < 2 ^ 52"
    and "j \<noteq> 0 \<Longrightarrow> translate s (page_at pv j - PAGE_SIZE_4K) = None"
    and "j \<noteq> 0 \<Longrightarrow> page_at pv j - PAGE_SIZE_4K < hhdm_offset s"
  shows "vmm_inv (unload_pages pv k j s)
    \<and> (\<forall>va. translate (unload_pages pv k j s) va =
         (if \<exists>l. j \<le> l \<and> l < j + k \<and> vpn va = vpn (page_at pv l) then None else translate s va))
    \<and> free_frames (pmm (unload_pages pv k j s)) =
         free_frames (pmm s) \<union> (if x = 0 then f ` {j..<j + k} else {})"
  using assms
proof (induction k arbitrary: j s)
  case 0
  then show ?case by auto
next
  case (Suc k)
  let ?va = "page_at pv j"
  define s1 where "s1 = snd (vmm_unmap_page ?va s)"
  define s2 where "s2 = free_frame (f j OR x) s1"
  have run: "?va \<noteq> 0" "?va < hhdm_offset s" "no_huge s ?va" "translate s ?va = Some (f j OR x)"
    "f j \<in> managed_frames (pmm s)" "\<not> is_table s (f j)" "f j \<noteq> PAGE_SIZE_4K"
    using Suc.prems(2) by (auto simp: mapped_run_def)
  note inv = Suc.prems(1)
  note pi = vmm_invD(1) [OF inv]
  note u = unmap_page_step [OF inv run(1,3), folded s1_def]
  have fz: "f j \<noteq> 0" using run(5) pmm.frames_nonzero [OF pi] by auto
  have pz: "f j OR x \<noteq> 0" using fz by (metis or_eq_0_iff)
  have ph: "vmm_get_physical_address s ?va = f j OR x"
    using virt_to_phys_translate [OF inv, of ?va] run(4) leD [of "hhdm_offset s" ?va] run(2)
    by (auto simp: vmm_get_physical_address_def)
  have bk: "page_at pv (Suc j) - PAGE_SIZE_4K = ?va" by (simp add: algebra_simps)
  have prev: "j = 0 \<or> vmm_get_physical_address s1 (?va - PAGE_SIZE_4K) \<noteq> (f j OR x) - PAGE_SIZE_4K"
  proof (cases "j = 0")
    case False
    have "translate s1 (?va - PAGE_SIZE_4K) = None" using u(5) Suc.prems(5) False by simp
    then have "vmm_get_physical_address s1 (?va - PAGE_SIZE_4K) = 0"
      using virt_to_phys_translate [OF u(1), of "?va - PAGE_SIZE_4K"] Suc.prems(6) [OF False] u(2)
        leD [of "hhdm_offset s" "?va - PAGE_SIZE_4K"]
      by (auto simp: vmm_get_physical_address_def)
    moreover have "f j OR x \<noteq> PAGE_SIZE_4K"
    proof (cases "x = 0")
      case xnz: False
      then have "bit (f j OR x) 63" using Suc.prems(3)
        by (simp add: PAGE_NO_EXECUTE_def bit_or_iff bit_push_bit_iff del: push_bit_of_1)
      then show ?thesis by (auto simp: PAGE_SIZE_4K_def bit_numeral_rec)
    qed (use run(7) in simp)
    ultimately show ?thesis by (metis right_minus_eq)
  qed simp
  have step: "unload_pages pv (Suc k) j s = unload_pages pv k (Suc j) s2"
    using prev pz by (simp add: Let_def ph s2_def s1_def)
  have miss: "pmm_free_page (f j OR PAGE_NO_EXECUTE) (pmm s) = pmm s"
    by (rule pmm.release_miss [OF pi nx_not_managed [OF Suc.prems(4)]])
  have i2: "vmm_inv s2"
  proof (cases "x = 0")
    case True
    then show ?thesis unfolding s2_def using vmm_inv_free_frame [OF u(1)] run(6) u(7) by simp
  next
    case False
    then have "s2 = s1" using miss Suc.prems(3) u(3) by (simp add: s2_def free_frame_def)
    then show ?thesis using u(1) by simp
  qed
  have fr2: "free_frames (pmm s2) = free_frames (pmm s) \<union> (if x = 0 then {f j} else {})"
    "managed_frames (pmm s2) = managed_frames (pmm s)"
    using pmm.release_hit [OF pi run(5)] miss pmm.release_frames [OF pi] Suc.prems(3)
    by (auto simp: s2_def u(3))
  have t2: "translate s2 va = (if vpn va = vpn ?va then None else translate s va)" for va
    by (simp add: s2_def u(5))
  have "vpn (page_at pv l) \<noteq> vpn ?va" if "j < l" "l < j + Suc k" for l
    using vpn_pages_inj [of pv l j] that Suc.prems(2) by (auto simp: mapped_run_def PAGE_SIZE_4K_def)
  then have r2: "mapped_run pv (Suc j) (Suc j + k) f x s2"
    using Suc.prems(2) fr2(2) u(2,6,7) t2 by (auto simp: mapped_run_def s2_def)
  have "vmm_inv (unload_pages pv k (Suc j) s2)
    \<and> (\<forall>va. translate (unload_pages pv k (Suc j) s2) va =
         (if \<exists>l. Suc j \<le> l \<and> l < Suc j + k \<and> vpn va = vpn (page_at pv l) then None else translate s2 va))
    \<and> free_frames (pmm (unload_pages pv k (Suc j) s2)) =
         free_frames (pmm s2) \<union> (if x = 0 then f ` {Suc j..<Suc j + k} else {})"
    by (rule Suc.IH [OF i2 r2 Suc.prems(3)])
      (use Suc.prems(4) fr2(2) t2 run(2) u(2) in \<open>simp_all only: bk, simp_all add: s2_def\<close>)
  note IH = this
  have ivl: "{j..<j + Suc k} = insert j {Suc j..<Suc j + k}" by auto
  have spl: "(\<exists>l. j \<le> l \<and> l < j + Suc k \<and> P l) \<longleftrightarrow> P j \<or> (\<exists>l. Suc j \<le> l \<and> l < Suc j + k \<and> P l)" for P
    by (metis Suc_le_eq add_Suc add_Suc_right le_neq_implies_less less_add_Suc1 less_imp_le_nat order_refl)
  show ?case
    unfolding step spl ivl
  proof (intro conjI allI)
    show "vmm_inv (unload_pages pv k (Suc j) s2)" using IH by blast
    show "translate (unload_pages pv k (Suc j) s2) va = (if vpn va = vpn ?va
        \<or> (\<exists>l. Suc j \<le> l \<and> l < Suc j + k \<and> vpn va = vpn (page_at pv l)) then None else translate s va)" for va
      using IH [THEN conjunct2, THEN conjunct1, THEN spec, of va]
      unfolding t2 [of va] if_if_or .
    show "free_frames (pmm (unload_pages pv k (Suc j) s2)) =
        free_frames (pmm s) \<union> (if x = 0 then f ` insert j {Suc j..<Suc j + k} else {})"
      using IH fr2(1) by simp
  qed
qed

end
