(* ===== verification/PMM_Properties.thy ===== *)
theory PMM_Properties
  imports PMM_Correct
begin

text \<open>
  The properties of the physical memory manager, with a small booted machine on which each of
  them is instantiated.
\<close>

section \<open>A booted machine\<close>

text \<open>
  A memory map as the bootloader reports it: low memory, a reserved hole, and 4 MiB of usable
  memory above 1 MiB, of which the manager hands out all but the first 256 pages.
\<close>

definition demo_map :: "memmap_entry list" where
  "demo_map = [\<lparr>entry_base = 0, entry_length = 0x9F000, entry_type = MEMMAP_USABLE\<rparr>,
     \<lparr>entry_base = 0x9F000, entry_length = 0x61000, entry_type = MEMMAP_RESERVED\<rparr>,
     \<lparr>entry_base = 0x100000, entry_length = 0x400000, entry_type = MEMMAP_USABLE\<rparr>]"

definition demo_pmm :: pmm_state where
  "demo_pmm = \<lparr>pmm_config = \<lparr>page_size = 4096, kernel_start = 0x100000, kernel_end = 0x500000,
      max_pages = 1024, total_memory = 0x49F000\<rparr>,
    static_bitmap = mark_first 256 (replicate STATIC_BITMAP_SIZE 0), page_bitmap_set = True,
    bitmap_size = of_nat STATIC_BITMAP_SIZE, total_allocations = 0, failed_allocations = 0\<rparr>"

lemma demo_map_ok: "memmap_ok demo_map"
  by (simp add: memmap_ok_def demo_map_def)

lemma demo_pmm_init: "pmm_init (Some demo_map) pmm_boot = Some demo_pmm"
proof -
  have sc: "scan_memmap demo_map (0, 0, 0x100000) = (0x49F000, 0x400000, 0x100000)"
    by (simp add: demo_map_def)
  have c: "init_config 0x400000 0x100000 0x49F000 = pmm_config demo_pmm"
    by (simp add: init_config_def demo_pmm_def PMM_BLOCK_SIZE_def STATIC_BITMAP_SIZE_def Let_def)
  show ?thesis
    using mark_memmap_init [OF demo_map_ok sc]
    by (simp add: pmm_init_def sc c demo_pmm_def pmm_boot_def Let_def)
qed

lemma demo_pmm_inv: "pmm_inv demo_pmm"
  by (simp add: pmm_inv_def demo_pmm_def PMM_BLOCK_SIZE_def STATIC_BITMAP_SIZE_def)

lemma demo_page_used: "i < 1024 \<Longrightarrow> page_used (static_bitmap demo_pmm) i \<longleftrightarrow> i < 256"
proof -
  assume "i < 1024"
  then have "\<not> page_used (replicate STATIC_BITMAP_SIZE 0) i"
    by (simp add: page_used_bit STATIC_BITMAP_SIZE_def div_less_iff_less_mult)
  then show ?thesis
    by (simp add: demo_pmm_def page_used_mark_first STATIC_BITMAP_SIZE_def)
qed

lemma demo_npages [simp]: "npages demo_pmm = 1024"
  by (simp add: demo_pmm_def)

lemma demo_page_addr: "page_addr demo_pmm i = 0x100000 + of_nat i * 4096"
  by (simp add: demo_pmm_def page_addr_def)

lemma demo_alloc_page: "fst (pmm_alloc_page demo_pmm) = 0x200000"
proof -
  have "find_free_page (static_bitmap demo_pmm) (npages demo_pmm) 0 = Some 256"
    using demo_page_used by (simp add: find_free_page_Some)
  then show ?thesis
    using demo_pmm_inv by (simp add: pmm_alloc_page_def demo_page_addr)
qed

lemma demo_first_fit: "first_fit (static_bitmap demo_pmm) (npages demo_pmm) 3 = Some 256"
proof -
  have "\<not> run_free (static_bitmap demo_pmm) 3 k" if "k < 256" for k
    using that demo_page_used [of k] unfolding run_free_def by (auto intro!: exI [of _ 0])
  then show ?thesis
    by (auto simp: first_fit_Some run_free_def demo_page_used)
qed

lemma demo_alloc_pages: "fst (pmm_alloc_pages 3 demo_pmm) = 0x200000"
  using demo_first_fit demo_pmm_inv by (simp add: pmm_alloc_pages_eq demo_page_addr)

section \<open>Initialisation\<close>

text \<open>
  \<^bold>\<open>C17\<close>. On every memory map that keeps the boot protocol \<open>pmm_init\<close> returns, establishes the
  manager's invariant, and hands out only memory the bootloader reported usable: every managed
  frame lies inside one usable entry at or above 1 MiB, and the free frames are exactly the managed
  frames after the first 256.
\<close>

theorem pmm_init_safe:
  assumes "memmap_ok es"
  shows "\<exists>s'. pmm_init (Some es) s = Some s' \<and> pmm_inv s'
    \<and> (\<forall>p \<in> managed_frames s'. 0x100000 \<le> p \<and> (\<exists>e \<in> set es. entry_type e = MEMMAP_USABLE
          \<and> unat (entry_base e) \<le> unat p \<and> unat p + 4096 \<le> unat (entry_base e) + unat (entry_length e)))
    \<and> free_frames s' = page_addr s' ` {i. 256 \<le> i \<and> i < npages s'}"
proof (rule pmm_init_result [OF assms, of s])
  fix s'
  assume i: "pmm_init (Some es) s = Some s'" and inv: "pmm_inv s'"
    and u: "\<And>i. i < npages s' \<Longrightarrow> page_used (static_bitmap s') i \<longleftrightarrow> i < 256"
    and r: "npages s' = 0 \<or> (\<exists>e \<in> set es. entry_type e = MEMMAP_USABLE
        \<and> entry_base e = kernel_start (pmm_config s') \<and> npages s' * 4096 \<le> unat (entry_length e))"
  have "0x100000 \<le> p \<and> (\<exists>e \<in> set es. entry_type e = MEMMAP_USABLE
          \<and> unat (entry_base e) \<le> unat p \<and> unat p + 4096 \<le> unat (entry_base e) + unat (entry_length e))"
    if mem: "p \<in> managed_frames s'" for p
  proof -
    obtain k where k: "k < npages s'" "p = page_addr s' k" using mem by (auto simp: managed_frames_def)
    have up: "unat p = unat (kernel_start (pmm_config s')) + k * 4096"
      using unat_page_addr [OF inv] k by simp
    moreover have "0x100000 \<le> unat (kernel_start (pmm_config s'))"
      using inv by (simp add: pmm_inv_def word_le_nat_alt)
    moreover have "k * 4096 + 4096 \<le> npages s' * 4096" using k(1) by simp
    ultimately show ?thesis using r k(1) by (force simp: word_le_nat_alt)
  qed
  moreover have "free_frames s' = page_addr s' ` {i. 256 \<le> i \<and> i < npages s'}"
    unfolding free_frames_def using u by (metis (no_types, lifting) linorder_not_less)
  ultimately show ?thesis using i inv by blast
qed

theorem pmm_init_safe_witness:
  "memmap_ok demo_map \<and> (\<exists>s'. pmm_init (Some demo_map) pmm_boot = Some s' \<and> pmm_inv s')"
  using pmm_init_safe [OF demo_map_ok, of pmm_boot] demo_map_ok by blast

section \<open>Allocation\<close>

text \<open>
  \<^bold>\<open>C22\<close>. \<open>pmm_alloc_page\<close> hands out the lowest free frame and takes exactly that frame out of the
  free ones; with no free frame it returns \<open>NULL\<close> and only counts the failure.
\<close>

theorem pmm_alloc_page_lowest:
  assumes inv: "pmm_inv s"
  shows "if free_frames s = {}
     then pmm_alloc_page s = (NULL, s\<lparr>failed_allocations := failed_allocations s + 1\<rparr>)
     else fst (pmm_alloc_page s) \<in> free_frames s
       \<and> (\<forall>q \<in> free_frames s. fst (pmm_alloc_page s) \<le> q)
       \<and> free_frames (snd (pmm_alloc_page s)) = free_frames s - {fst (pmm_alloc_page s)}
       \<and> pmm_inv (snd (pmm_alloc_page s))
       \<and> total_allocations (snd (pmm_alloc_page s)) = total_allocations s + 1"
  using inv
proof (cases rule: pmm_alloc_page_cases)
  case (hit i)
  then have ne: "free_frames s \<noteq> {}" by (auto simp: free_frames_empty_iff)
  have "page_addr s i \<le> page_addr s j" if "j < npages s" "\<not> page_used (static_bitmap s) j" for j
  proof -
    have "i \<le> j" using hit(3) that(2) by (meson linorder_not_less)
    then show ?thesis
      using unat_page_addr [OF inv, of i] unat_page_addr [OF inv, of j] that(1)
      by (simp add: word_le_nat_alt)
  qed
  then have "\<forall>q \<in> free_frames s. fst (pmm_alloc_page s) \<le> q"
    using hit(4) by (auto simp: free_frames_def)
  then show ?thesis
    using ne pmm.alloc_hit [OF inv ne] pmm.alloc_invar [OF inv] hit(4) by simp
next
  case miss
  then show ?thesis by (simp add: free_frames_empty_iff)
qed

theorem pmm_alloc_page_lowest_witness:
  "pmm_inv demo_pmm \<and> 0x200000 \<in> free_frames demo_pmm
    \<and> free_frames (snd (pmm_alloc_page demo_pmm)) = free_frames demo_pmm - {0x200000}"
proof -
  have "free_frames demo_pmm \<noteq> {}"
    using demo_page_used [of 256] by (auto simp: free_frames_empty_iff intro!: exI [of _ 256])
  then show ?thesis
    using pmm_alloc_page_lowest [OF demo_pmm_inv] demo_alloc_page demo_pmm_inv by simp
qed

text \<open>
  \<^bold>\<open>C21\<close>. The single pass search of \<open>pmm_alloc_pages\<close>, which restarts its count at every used
  page, is first fit: for every count it finds the lowest start of a run of that many free pages,
  and fails only if there is no such run; it then marks exactly the run.
\<close>

theorem pmm_alloc_pages_first_fit:
  assumes "pmm_inv s" and "count \<noteq> 0"
  shows "pmm_alloc_pages count s = (case first_fit (static_bitmap s) (npages s) (unat count) of
      Some k \<Rightarrow> (page_addr s k,
        s\<lparr>static_bitmap := mark_run k (unat count) (static_bitmap s),
          total_allocations := total_allocations s + 1\<rparr>)
    | None \<Rightarrow> (NULL, s\<lparr>failed_allocations := failed_allocations s + 1\<rparr>))"
proof (cases "count = 1")
  case True
  have "first_fit (static_bitmap s) (npages s) 1 = find_free_page (static_bitmap s) (npages s) 0"
  proof (cases "find_free_page (static_bitmap s) (npages s) 0")
    case None
    moreover from this have "first_fit (static_bitmap s) (npages s) 1 = None"
      by (auto simp: find_free_page_None first_fit_None run_free_def)
    ultimately show ?thesis by simp
  next
    case (Some k)
    moreover from this have "first_fit (static_bitmap s) (npages s) 1 = Some k"
      by (auto simp: find_free_page_Some first_fit_Some run_free_def)
    ultimately show ?thesis by simp
  qed
  then show ?thesis
    using True assms by (simp add: pmm_alloc_pages_def pmm_alloc_page_def split: option.split)
next
  case False
  with assms(2) have "1 < count" by (rule word_gt_1)
  with assms(1) show ?thesis by (rule pmm_alloc_pages_eq)
qed

theorem pmm_alloc_pages_first_fit_witness:
  "pmm_inv demo_pmm \<and> (3 :: u64) \<noteq> 0 \<and> fst (pmm_alloc_pages 3 demo_pmm) = 0x200000"
  using pmm_alloc_pages_first_fit [OF demo_pmm_inv, of 3] demo_first_fit demo_pmm_inv
  by (simp add: demo_page_addr)


text \<open>
  \<^bold>\<open>C23\<close>. Releasing a run with \<open>pmm_free_pages\<close> undoes its allocation: the bitmap is again, bit for
  bit, the one before \<open>pmm_alloc_pages\<close>.
\<close>

theorem pmm_alloc_free_pages_roundtrip:
  assumes "pmm_inv s" and "pmm_alloc_pages count s = (p, s')" and "p \<noteq> 0"
  shows "free_frames (pmm_free_pages p count s') = free_frames s
    \<and> static_bitmap (pmm_free_pages p count s') = static_bitmap s
    \<and> pmm_inv (pmm_free_pages p count s')"
proof (rule pmm_alloc_pages_frames [OF assms])
  fix k
  assume k: "p = page_addr s k" "k + unat count \<le> npages s" "run_free (static_bitmap s) (unat count) k"
    and bm: "static_bitmap s' = mark_run k (unat count) (static_bitmap s)"
  have inv': "pmm_inv s'" and cfg: "pmm_config s' = pmm_config s"
    using pmm_alloc_pages_inv [OF assms(1), of count] pmm_alloc_pages_config [of count s] assms(2)
    by auto
  let ?t = "free_loop p (unat count) s'"
  have p': "p = page_addr s' k" using k(1) cfg by (simp add: page_addr_def)
  have "count \<noteq> 0" using assms(2,3) by (auto simp: pmm_alloc_pages_def)
  then have t: "pmm_free_pages p count s' = ?t"
    using pmm_free_pages_eq_loop [OF inv'] k(2) p' cfg by simp
  have invt: "pmm_inv ?t" using inv' by (rule free_loop_inv)
  have "page_used (static_bitmap ?t) j = page_used (static_bitmap s) j" for j
    using page_used_free_loop [OF inv', of k "unat count" j] k p' cfg bm pmm_inv_bm [OF assms(1)]
    by (auto simp: page_used_mark_run run_free_def dest: le_Suc_ex)
  then have "static_bitmap ?t = static_bitmap s"
    using assms(1) invt by (intro bitmap_eqI) (auto simp: pmm_inv_def)
  then show ?thesis
    using invt t cfg by (simp add: free_frames_def page_addr_def)
qed

theorem pmm_alloc_free_pages_roundtrip_witness:
  "\<exists>s'. pmm_alloc_pages 3 demo_pmm = (0x200000, s')
     \<and> static_bitmap (pmm_free_pages 0x200000 3 s') = static_bitmap demo_pmm"
proof -
  obtain s' where "pmm_alloc_pages 3 demo_pmm = (0x200000, s')"
    using demo_alloc_pages by (metis prod.collapse)
  then show ?thesis using pmm_alloc_free_pages_roundtrip [OF demo_pmm_inv] by auto
qed

text \<open>
  \<^bold>\<open>C4\<close>. Frames have one owner. Whatever sequence of allocations and releases a client performs
  from an initialised manager, the frames it holds are managed and none is free, so a further
  allocation of any number of pages gives frames it does not hold yet.
\<close>

theorem pmm_ownership:
  assumes "pmm_inv s0" and "pmm_reach s0 (s, own)"
  shows "pmm_inv s \<and> own \<subseteq> managed_frames s - free_frames s
    \<and> (\<forall>count p s'. pmm_alloc_pages count s = (p, s') \<and> p \<noteq> 0
         \<longrightarrow> page_run p (unat count) \<inter> own = {} \<and> card (page_run p (unat count)) = unat count)"
proof -
  have ci: "pmm_inv s" "own \<subseteq> managed_frames s - free_frames s"
    using pmm_reach_inv [OF assms(2,1)] by (auto simp: pmm_client_inv_def)
  have "page_run p (unat count) \<inter> own = {} \<and> card (page_run p (unat count)) = unat count"
    if al: "pmm_alloc_pages count s = (p, s')" "p \<noteq> 0" for count p s'
    by (rule pmm_alloc_pages_frames [OF ci(1) al]) (use ci card_page_run [OF ci(1)] in auto)
  with ci show ?thesis by blast
qed

theorem pmm_ownership_witness:
  "\<exists>s. pmm_reach demo_pmm (s, {0x200000}) \<and> {0x200000} \<subseteq> managed_frames s - free_frames s"
proof -
  obtain s where s: "pmm_alloc_page demo_pmm = (0x200000, s)"
    using demo_alloc_page by (metis prod.collapse)
  have "pmm_reach demo_pmm (s, {0x200000})"
    using pmm_reach.step [OF pmm_reach.start pmm_step.alloc_one [OF s]] by simp
  with pmm_ownership [OF demo_pmm_inv this] show ?thesis by blast
qed

section \<open>Release and queries\<close>

text \<open>
  The memory counters are exact: free and used memory add up to the managed memory without
  wrap-around, the free counter is 4096 times the number of free frames, and a successful allocation
  of \<open>count\<close> pages lowers it by exactly \<open>count * 4096\<close>.
\<close>

theorem pmm_memory_accounting:
  assumes inv: "pmm_inv s"
  shows "unat (pmm_get_free_memory s) = card (free_frames s) * 4096
    \<and> unat (pmm_get_free_memory s) + unat (pmm_get_used_memory s) = npages s * 4096
    \<and> (\<forall>count p s'. pmm_alloc_pages count s = (p, s') \<and> p \<noteq> 0
         \<longrightarrow> unat (pmm_get_free_memory s') + unat count * 4096 = unat (pmm_get_free_memory s))"
proof -
  have "unat (pmm_get_free_memory s') + unat count * 4096 = unat (pmm_get_free_memory s)"
    if al: "pmm_alloc_pages count s = (p, s')" "p \<noteq> 0" for count p s'
  proof (rule pmm_alloc_pages_frames [OF inv al])
    fix k assume k: "p = page_addr s k" "k + unat count \<le> npages s"
      and sub: "page_run p (unat count) \<subseteq> free_frames s"
      and fr: "free_frames s' = free_frames s - page_run p (unat count)"
    have fin: "finite (free_frames s)" by (simp add: free_frames_def)
    have inv': "pmm_inv s'" using pmm_alloc_pages_inv [OF inv, of count] al(1) by simp
    have "card (free_frames s') + unat count = card (free_frames s)"
      using card_page_run [OF inv k(2)] k(1) sub fr fin
      by (metis card_Diff_subset card_mono finite_subset le_add_diff_inverse2)
    then show ?thesis
      by (simp add: unat_free_memory [OF inv] unat_free_memory [OF inv'] flip: distrib_right)
  qed
  then show ?thesis
    using unat_free_memory [OF inv] unat_free_used_memory [OF inv] by blast
qed

theorem pmm_memory_accounting_witness:
  "pmm_inv demo_pmm
    \<and> unat (pmm_get_free_memory demo_pmm) + unat (pmm_get_used_memory demo_pmm) = 0x400000"
  using pmm_memory_accounting [OF demo_pmm_inv] demo_pmm_inv by simp

text \<open>
  \<open>pmm_free_page\<close> refuses what is not a frame in use: an address outside the managed range,
  an unaligned one and a frame that is already free leave the whole state as it was; a frame in use
  becomes free and no other frame changes. \<open>pmm_is_page_free\<close> answers this for every address.
\<close>

theorem pmm_free_page_exact:
  assumes inv: "pmm_inv s"
  shows "(p \<notin> managed_frames s - free_frames s \<longrightarrow> pmm_free_page p s = s)
    \<and> (p \<in> managed_frames s \<longrightarrow> free_frames (pmm_free_page p s) = insert p (free_frames s))
    \<and> (pmm_is_page_free p s \<longleftrightarrow> p \<in> free_frames s)"
proof -
  have "pmm_free_page p s = s" if "p \<notin> managed_frames s - free_frames s"
    using that inv
    by (auto simp: managed_frames_iff free_frames_iff pmm_free_page_def)
  moreover have "pmm_is_page_free p s \<longleftrightarrow> p \<in> free_frames s"
    using inv valid_page_addr(1) [OF inv, of p] by (auto simp: free_frames_iff pmm_is_page_free_def)
  ultimately show ?thesis using pmm.release_hit [OF inv] by blast
qed

theorem pmm_free_page_exact_witness:
  "pmm_inv demo_pmm \<and> pmm_free_page 0x200001 demo_pmm = demo_pmm"
  using pmm_free_page_exact [OF demo_pmm_inv, of "0x200001"] demo_pmm_inv
  by (simp add: managed_frames_iff invalid_page_def) (simp add: demo_pmm_def)

end
