(* ===== verification/VMM_Properties.thy ===== *)
theory VMM_Properties
  imports VMM_Range PMM_Properties
begin

text \<open>
  The properties of the virtual memory manager, with a small machine on which they are
  instantiated: an empty root table at 0x1000 and the physical memory of \<open>demo_pmm\<close>.
\<close>

section \<open>A machine with an empty address space\<close>

definition demo_vmm :: vmm_state where
  "demo_vmm = \<lparr>pmm = demo_pmm, mem = (\<lambda>_. 0), cr3 = 0x1000, tlb_log = [], fault_handler = True,
     vmm_config = \<lparr>kernel_pml4 = 0x1000, kernel_virtual_base = 0xffffffff80000000,
       kernel_virtual_size = 0x10000000, using_nx = True, cfg_hhdm_offset = 0xffff800000000000\<rparr>,
     hhdm_offset = 0xffff800000000000, kernel_phys_base = 0x100000,
     kernel_virt_base = 0xffffffff80000000, current_pml4_phys = 0x1000,
     user_areas = [\<lparr>region_base = 0x400000, region_size = 0x10000000, region_flags = 7,
       is_used = False\<rparr>],
     kernel_areas = [\<lparr>region_base = 0xffff800010000000, region_size = 0x10000000, region_flags = 3,
       is_used = False\<rparr>],
     user_area_count = 1, kernel_area_count = 1, pages_allocated = 0, pages_freed = 0\<rparr>"

lemma demo_vmm_simps [simp]:
  "pmm demo_vmm = demo_pmm" "root demo_vmm = 0x1000" "hhdm_offset demo_vmm = 0xffff800000000000"
  "using_nx (vmm_config demo_vmm)"
  by (simp_all add: demo_vmm_def)

lemma demo_entry [simp]: "entry demo_vmm t i = 0"
  by (simp add: entry_def demo_vmm_def read64_zero)

lemma demo_table_at: "table_at demo_vmm t p = (if p = [] then Some t else None)"
  by (cases p) auto

lemma demo_leaf [simp]: "leaf demo_vmm t p = None"
  by (cases p) auto

lemma demo_managed: "f \<in> managed_frames demo_pmm \<Longrightarrow> 0x100000 \<le> unat f \<and> unat f < 0x500000"
proof -
  assume "f \<in> managed_frames demo_pmm"
  then obtain i where "i < 1024" "f = page_addr demo_pmm i" by (auto simp: managed_frames_def)
  then show ?thesis using unat_page_addr [OF demo_pmm_inv, of i] by (simp add: demo_pmm_def)
qed

lemma demo_vmm_inv: "vmm_inv demo_vmm"
proof -
  have "0x1000 \<notin> free_frames demo_pmm"
    using demo_managed [of "0x1000"] pmm.free_subset [OF demo_pmm_inv] by auto
  then have "table_ok demo_vmm 0x1000" by (simp add: table_ok_def)
  moreover have "f + 0xffff800000000000 \<noteq> 0" if f: "f \<in> managed_frames demo_pmm" for f
  proof
    assume "f + 0xffff800000000000 = 0"
    then have "f = - 0xffff800000000000" by (metis add_eq_0_iff2)
    with demo_managed [OF f] show False by simp
  qed
  ultimately show ?thesis
    unfolding vmm_inv_def by (auto simp: demo_table_at demo_pmm_inv split: if_splits)
qed

lemma demo_card_free: "card (free_frames demo_pmm) = 768"
proof -
  have "{i. i < 1024 \<and> \<not> page_used (static_bitmap demo_pmm) i} = {256..<1024}"
    using demo_page_used by auto
  then show ?thesis
    by (simp add: card_free_frames [OF demo_pmm_inv] count_below_card)
qed

section \<open>Translation\<close>

text \<open>
  \<^bold>\<open>C11\<close>. The software page walks refine the tree: below the direct map \<open>vmm_get_physical_address\<close>
  returns the address the tree maps to, for pages of all three sizes, and 0 exactly where nothing
  is mapped and no page maps to address 0; \<open>vmm_is_mapped\<close> answers whether something is mapped. In
  the direct map both follow the fixed offset.
\<close>

theorem vmm_walk_refines:
  assumes "vmm_inv s"
  shows "vmm_get_physical_address s va = (if hhdm_offset s \<le> va then va - hhdm_offset s
       else case translate s va of None \<Rightarrow> 0 | Some pa \<Rightarrow> pa)
    \<and> (vmm_is_mapped s va \<longleftrightarrow> hhdm_offset s \<le> va \<or> translate s va \<noteq> None)"
  using virt_to_phys_translate [OF assms] vmm_is_mapped_translate [OF assms]
  by (simp add: vmm_get_physical_address_def)

theorem vmm_walk_refines_witness:
  "vmm_inv demo_vmm \<and> vmm_get_physical_address demo_vmm 0x400000 = 0
    \<and> vmm_is_mapped demo_vmm 0xffff800000001000"
  using vmm_walk_refines [OF demo_vmm_inv, of "0x400000"]
    vmm_walk_refines [OF demo_vmm_inv, of "0xffff800000001000"] demo_vmm_inv
  by (simp add: translate_def)



text \<open>
  \<open>vmm_map_page\<close> fails only for want of memory: for an address no large page covers it returns
  true exactly if neither address is null and there is a free frame for each of the at most three
  tables missing on the way; it then takes exactly that many frames.
\<close>

theorem vmm_map_page_succeeds:
  assumes "vmm_inv s" and "no_huge s va" and "vmm_map_page va pa flags s = (ok, s')"
  shows "(ok \<longleftrightarrow> va \<noteq> 0 \<and> pa \<noteq> 0 \<and> missing s [] (take 3 (vpn va)) \<le> card (free_frames (pmm s)))
    \<and> (ok \<longrightarrow> card (free_frames (pmm s)) = card (free_frames (pmm s')) + missing s [] (take 3 (vpn va)))
    \<and> missing s [] (take 3 (vpn va)) \<le> 3"
proof -
  have "missing s p is \<le> length is" for p "is" by (induction "is" arbitrary: p) (auto intro: le_SucI)
  from this [of "[]" "take 3 (vpn va)"] have m: "missing s [] (take 3 (vpn va)) \<le> 3" by simp
  show ?thesis
  proof (cases "va = 0 \<or> pa = 0")
    case True
    then show ?thesis using assms(3) m by auto
  next
    case False
    then have nz: "va \<noteq> 0" "pa \<noteq> 0" by auto
    show ?thesis using vmm_map_page_contract(1,6) [OF assms(1) nz assms(2,3)] m nz by blast
  qed
qed

theorem vmm_map_page_succeeds_witness:
  "vmm_inv demo_vmm \<and> no_huge demo_vmm 0x400000 \<and> fst (vmm_map_page 0x400000 0x300000 0 demo_vmm)"
proof -
  have nh: "no_huge demo_vmm 0x400000" by (simp add: no_huge_def)
  have "vmm_map_page 0x400000 0x300000 0 demo_vmm
      = (fst (vmm_map_page 0x400000 0x300000 0 demo_vmm), snd (vmm_map_page 0x400000 0x300000 0 demo_vmm))"
    by simp
  from vmm_map_page_succeeds [OF demo_vmm_inv nh this] show ?thesis
    using demo_vmm_inv nh demo_card_free by simp
qed

text \<open>
  \<^bold>\<open>C19\<close>. \<open>vmm_unmap_page\<close> returns true exactly for a mapped address that is not null. It then removes
  the page that maps the address, of whatever size, and no other: the addresses below the same entry
  translate to nothing and all others as before. No frame and no table is released, and the last
  thing it does is to invalidate the page in the TLB.
\<close>

theorem vmm_unmap_page_correct:
  assumes inv: "vmm_inv s" and un: "vmm_unmap_page va s = (ok, s')"
  shows "(ok \<longleftrightarrow> va \<noteq> 0 \<and> translate s va \<noteq> None) \<and> vmm_inv s' \<and> pmm s' = pmm s
    \<and> (\<not> ok \<longrightarrow> s' = s)
    \<and> (ok \<longrightarrow> tlb_log s' = tlb_log s @ [Invlpg (va AND PAGE_ADDR_MASK)]
         \<and> (\<exists>e rest. leaf s (root s) (vpn va) = Some (e, rest) \<and> (\<forall>va'. translate s' va' =
             (if take (4 - length rest) (vpn va') = take (4 - length rest) (vpn va) then None
              else translate s va'))))"
proof (cases "va = 0")
  case True
  then have "\<not> ok" "s' = s" using un by (simp_all add: vmm_unmap_page_def)
  then show ?thesis using True inv by simp
next
  case False
  note c = vmm_unmap_page_contract [OF inv False un]
  show ?thesis
    using inv False
  proof (cases rule: vmm_unmap_page_cases)
    case unmapped
    then show ?thesis using un c(1) inv False by simp
  next
    case (mapped e p i rest t)
    have "tlb_log s' = tlb_log s @ [Invlpg (va AND PAGE_ADDR_MASK)]" "ok"
      using un mapped(5) by (auto simp: invlpg_def set_entry_def)
    moreover have "\<forall>va'. translate s' va' =
        (if take (4 - length rest) (vpn va') = take (4 - length rest) (vpn va) then None
         else translate s va')"
      using c(2) c(4) [OF mapped(1)] by (simp add: translate_def)
    ultimately show ?thesis using c(1,2) False mapped(1) by blast
  qed
qed

theorem vmm_unmap_page_correct_witness:
  "vmm_inv demo_vmm \<and> vmm_unmap_page 0x400000 demo_vmm = (False, demo_vmm)"
proof -
  obtain ok s' where un: "vmm_unmap_page 0x400000 demo_vmm = (ok, s')" by fastforce
  from vmm_unmap_page_correct [OF demo_vmm_inv this] un demo_vmm_inv show ?thesis
    by (simp add: translate_def)
qed

section \<open>Ranges\<close>



text \<open>
  A request for large pages is not honoured. \<open>vmm_map_pages\<close> with the huge flag on an aligned
  range of 512 pages enters one ordinary page table entry, so after it has returned true only the
  first 4 KiB of the 2 MiB are mapped: every other page of the range is mapped as before the call.
\<close>

theorem vmm_map_pages_huge_maps_one_page:
  assumes "vmm_inv s" and "no_huge s virt" and "flags AND VMM_FLAG_HUGE \<noteq> 0"
    and "virt AND 0x1FFFFF = 0" and "phys AND 0x1FFFFF = 0"
    and "vmm_map_pages virt phys 512 flags s = (True, s')"
    and "0 < i" and "i < 512"
  shows "translate s' (virt + of_nat i * PAGE_SIZE_4K) = translate s (virt + of_nat i * PAGE_SIZE_4K)"
proof -
  have "unat ((512 :: u64) div 512) = Suc 0" "(512 :: u64) mod 512 = 0" by simp_all
  then have mp: "vmm_map_page virt phys flags s = (True, s')"
    using assms(3-6) by (auto simp: vmm_map_pages_def Let_def split: prod.splits if_splits)
  have "vpn (virt + of_nat i * 4096) \<noteq> vpn (virt + of_nat 0 * 4096)"
    using vpn_pages_inj [of virt i 0] assms(7,8) by auto
  then show ?thesis
    using vmm_map_page_translate [OF assms(1,2) mp] by (simp add: PAGE_SIZE_4K_def)
qed

theorem vmm_map_pages_huge_maps_one_page_witness:
  "\<exists>s'. vmm_map_pages 0x400000 0x400000 512 VMM_FLAG_HUGE demo_vmm = (True, s')
     \<and> translate s' (0x400000 + of_nat 1 * PAGE_SIZE_4K) = None"
proof -
  have nh: "no_huge demo_vmm 0x400000" by (simp add: no_huge_def)
  obtain ok s' where mp: "vmm_map_page 0x400000 0x400000 VMM_FLAG_HUGE demo_vmm = (ok, s')" by fastforce
  have "missing demo_vmm [] (take 3 (vpn 0x400000)) \<le> 3" by (simp add: vpn_def demo_table_at)
  then have ok: "ok"
    using vmm_map_page_contract(1) [OF demo_vmm_inv _ _ nh mp] by (simp add: demo_card_free)
  have h: "VMM_FLAG_HUGE AND VMM_FLAG_HUGE \<noteq> 0" by (simp add: VMM_FLAG_HUGE_def)
  have r: "vmm_map_pages 0x400000 0x400000 512 VMM_FLAG_HUGE demo_vmm = (True, s')"
    using mp ok h by (simp add: vmm_map_pages_def Let_def)
  then show ?thesis
    using vmm_map_pages_huge_maps_one_page [OF demo_vmm_inv nh h _ _ r, of 1] by (simp add: translate_def)
qed

section \<open>Kernel memory\<close>

lemma unmap_page_pmm [simp]: "pmm (snd (vmm_unmap_page va s)) = pmm s"
  by (simp add: vmm_unmap_page_def Let_def st64_def invlpg_def)

lemma set_area_used_pmm [simp]: "pmm (set_area_used u i b s) = pmm s"
  by (simp add: set_area_used_def)

lemma release_area_pmm [simp]: "pmm (release_area u base s) = pmm s"
  by (simp add: release_area_def split: option.split)

lemma round_up_page_4096: "round_up_page 4096 div PAGE_SIZE_4K = 1"
  by (simp add: round_up_page_def PAGE_SIZE_4K_def)

text \<open>
  Freeing kernel memory releases the wrong frame. The kernel areas lie in the direct map, where
  \<open>vmm_get_physical_address\<close> subtracts the offset without looking at the page tables, so
  \<open>vmm_free\<close> of one page gives back the frame at \<open>addr - hhdm_offset\<close>, whatever frame
  \<open>vmm_allocate\<close> mapped there.
\<close>

theorem vmm_free_kernel_frame:
  assumes "hhdm_offset s < addr"
  shows "pmm (vmm_free addr 4096 s) = pmm_free_page (addr - hhdm_offset s) (pmm s)"
proof -
  have nz: "addr \<noteq> 0" "hhdm_offset s \<le> addr" "addr - hhdm_offset s \<noteq> 0" using assms by auto
  have "free_pages_loop addr (Suc 0) s
      = free_frame (addr - hhdm_offset s) (snd (vmm_unmap_page addr s))"
    using nz by (simp add: vmm_get_physical_address_def virt_to_phys_def)
  then show ?thesis
    using nz by (simp add: vmm_free_def Let_def round_up_page_4096 free_frame_def)
qed

theorem vmm_free_kernel_frame_witness:
  "hhdm_offset demo_vmm < 0xffff800000200000
    \<and> pmm (vmm_free 0xffff800000200000 4096 demo_vmm) = pmm_free_page 0x200000 demo_pmm"
  using vmm_free_kernel_frame [of demo_vmm "0xffff800000200000"] by simp

text \<open>
  The rounding of a size wraps around: a request for more than \<open>2^64 - 4096\<close> bytes is rounded
  to 0, fits every free area, and \<open>vmm_allocate\<close> returns its base with no page mapped and no frame
  taken.
\<close>

theorem vmm_allocate_size_wraps:
  assumes "0xFFFFFFFFFFFFF000 < sz"
    and "find_free_area (areas_of (flags AND VMM_FLAG_USER \<noteq> 0) s)
           (area_count_of (flags AND VMM_FLAG_USER \<noteq> 0) s) 0 (ucast flags) = Some i"
  shows "\<exists>s'. vmm_allocate sz flags s
      = (region_base (areas_of (flags AND VMM_FLAG_USER \<noteq> 0) s ! i), s')
    \<and> mem s' = mem s \<and> pmm s' = pmm s"
proof -
  have "unat sz = unat (sz - 0xFFFFFFFFFFFFF000) + 0xFFFFFFFFFFFFF000"
    using assms(1) unat_sub_le [OF less_imp_le [OF assms(1)]] by (simp add: word_less_nat_alt)
  then have d: "unat (sz - 0xFFFFFFFFFFFFF000) < 4096" "0 < unat (sz - 0xFFFFFFFFFFFFF000)"
    using unat_lt_u64 [of sz] assms(1) by (simp_all add: word_less_nat_alt)
  have e: "sz + PAGE_SIZE_4K - 1 = (sz - 0xFFFFFFFFFFFFF000) - 1" by (simp add: PAGE_SIZE_4K_def)
  have "unat (sz + PAGE_SIZE_4K - 1) < 4096"
    using d unfolding e by (metis less_imp_diff_less unat_minus_one unat_0 less_irrefl)
  then have "sz + PAGE_SIZE_4K - 1 = take_bit 12 (sz + PAGE_SIZE_4K - 1)"
    by (intro word_unat_eq_iff [THEN iffD2]) (simp add: take_bit_eq_mod unat_mod)
  then have "(sz + PAGE_SIZE_4K - 1) AND NOT (mask 12) = 0"
    by (metis take_bit_eq_mask and.assoc bit.conj_cancel_right and_zero_eq)
  then have r: "round_up_page sz = 0"
    by (simp add: round_up_page_def PAGE_SIZE_4K_def mask_eq_exp_minus_1)
  have "sz \<noteq> 0" using assms(1) by auto
  then show ?thesis
    using assms(2) r by (simp add: vmm_allocate_def Let_def set_area_used_def)
qed

theorem vmm_allocate_size_wraps_witness:
  "\<exists>s'. vmm_allocate 0xFFFFFFFFFFFFFFFF VMM_FLAG_USER demo_vmm = (0x400000, s')
     \<and> pmm s' = demo_pmm"
proof -
  have u: "VMM_FLAG_USER AND VMM_FLAG_USER \<noteq> 0" by (simp add: VMM_FLAG_USER_def)
  have "find_free_area (areas_of True demo_vmm) (area_count_of True demo_vmm) 0 (ucast VMM_FLAG_USER) = Some 0"
    by (simp add: find_free_area_def areas_of_def area_count_of_def demo_vmm_def find_area.simps)
  moreover have "region_base (areas_of True demo_vmm ! 0) = 0x400000"
    by (simp add: areas_of_def demo_vmm_def)
  ultimately show ?thesis
    using vmm_allocate_size_wraps [of "0xFFFFFFFFFFFFFFFF" VMM_FLAG_USER demo_vmm 0] u by auto
qed

section \<open>Reporting\<close>

lemma length_hex_loop [simp]: "length (hex_loop i v b) = length b"
  by (induction i arbitrary: v b) auto

lemma hex_loop_nth:
  "i < length b \<Longrightarrow> j < length b \<Longrightarrow> hex_loop i v b ! j =
     (if 2 \<le> j \<and> j \<le> i then hex_digits ! unat (drop_bit (4 * (i - j)) v AND 0xF) else b ! j)"
proof (induction i arbitrary: v b)
  case 0
  then show ?case by auto
next
  case (Suc i)
  show ?case
  proof (cases "1 < Suc i")
    case True
    let ?b = "b[Suc i := hex_digits ! unat (v AND 0xF)]"
    have "hex_loop i (drop_bit 4 v) ?b ! j = (if 2 \<le> j \<and> j \<le> i
        then hex_digits ! unat (drop_bit (4 * (i - j)) (drop_bit 4 v) AND 0xF) else ?b ! j)"
      using Suc by simp
    moreover have "drop_bit (4 * (i - j)) (drop_bit 4 v) = drop_bit (4 * (Suc i - j)) v" if "j \<le> i"
      using that by (simp add: Suc_diff_le add.commute)
    ultimately show ?thesis using True Suc.prems by (auto simp: le_Suc_eq)
  next
    case False
    then show ?thesis by auto
  qed
qed

text \<open>
  \<open>uint64_to_hex\<close> writes "0x", fifteen hexadecimal digits and the terminator: digit \<open>k\<close> from the
  right is bits \<open>4k\<close> to \<open>4k + 3\<close> of the value. A 64-bit value has sixteen digits, so the top four
  bits of every address in a page fault report are lost.
\<close>

theorem uint64_to_hex_digits:
  assumes "18 \<le> length buffer"
  shows "take 2 (uint64_to_hex v buffer) = ''0x'' \<and> uint64_to_hex v buffer ! 17 = CHR 0x00
    \<and> (\<forall>k<15. uint64_to_hex v buffer ! (16 - k) = hex_digits ! unat (drop_bit (4 * k) v AND 0xF))
    \<and> uint64_to_hex v buffer = uint64_to_hex (take_bit 60 v) buffer"
proof -
  let ?b = "buffer[0 := CHR ''0'', 1 := CHR ''x'']"
  have nth: "uint64_to_hex v buffer ! j = (if j = 17 then CHR 0x00 else if 2 \<le> j \<and> j \<le> 16
      then hex_digits ! unat (drop_bit (4 * (16 - j)) v AND 0xF) else ?b ! j)"
    if "j < length buffer" for j v
    using hex_loop_nth [of 16 ?b j v] that assms by (auto simp: uint64_to_hex_def nth_list_update)
  have len: "length (uint64_to_hex v buffer) = length buffer" for v by (simp add: uint64_to_hex_def)
  have "take 2 (uint64_to_hex v buffer) = [uint64_to_hex v buffer ! 0, uint64_to_hex v buffer ! 1]"
    using assms len [of v] by (intro nth_equalityI) (auto simp: less_Suc_eq numeral_2_eq_2)
  moreover have "0 < length buffer" "1 < length buffer" using assms by linarith+
  ultimately have h: "take 2 (uint64_to_hex v buffer) = ''0x''" using nth [of 0 v] nth [of 1 v] by simp
  have low: "drop_bit (4 * k) (take_bit 60 v) AND 0xF = drop_bit (4 * k) v AND 0xF" if "k < 15" for k
  proof -
    have m: "(0xF :: u64) = mask 4" by (simp add: mask_eq_exp_minus_1)
    show ?thesis unfolding m using that by (intro bit_word_eqI) (auto simp: bit_simps)
  qed
  have "uint64_to_hex v buffer = uint64_to_hex (take_bit 60 v) buffer"
  proof (rule nth_equalityI)
    show "length (uint64_to_hex v buffer) = length (uint64_to_hex (take_bit 60 v) buffer)" by (simp add: len)
    fix j assume "j < length (uint64_to_hex v buffer)"
    then show "uint64_to_hex v buffer ! j = uint64_to_hex (take_bit 60 v) buffer ! j"
      using nth [of j v] nth [of j "take_bit 60 v"] low [of "16 - j"] len by auto
  qed
  moreover have "uint64_to_hex v buffer ! (16 - k) = hex_digits ! unat (drop_bit (4 * k) v AND 0xF)"
    if "k < 15" for k
  proof -
    have "2 \<le> 16 - k" "16 - k \<le> 16" "16 - k \<noteq> 17" "16 - (16 - k) = k" "16 - k < length buffer"
      using that assms by auto
    then show ?thesis using nth [of "16 - k" v] by simp
  qed
  moreover have "uint64_to_hex v buffer ! 17 = CHR 0x00" using nth [of 17 v] assms by simp
  ultimately show ?thesis using h by blast
qed

theorem uint64_to_hex_digits_witness:
  "uint64_to_hex 0xF000000000000123 (replicate 19 CHR 0x00)
     = uint64_to_hex 0x123 (replicate 19 CHR 0x00)"
  using uint64_to_hex_digits [of "replicate 19 CHR 0x00" "0xF000000000000123"]
  by (simp add: take_bit_eq_mod)

end
