(* ===== verification/ELF_Properties.thy ===== *)
theory ELF_Properties
  imports ELF_Unload VMM_Properties
begin

text \<open>
  The properties of the ELF loader: which files the parser accepts, what \<open>elf_load\<close> puts into the
  address space, and what the lookup of a symbol returns.
\<close>

section \<open>Parsing\<close>

lemma ident_magic_iff:
  "ident_magic h = ELF_MAGIC \<longleftrightarrow> e_ident h ! 0 = 0x7F \<and> e_ident h ! 1 = 0x45
     \<and> e_ident h ! 2 = 0x4C \<and> e_ident h ! 3 = 0x46"
proof -
  define w where "w = ident_magic h"
  have b: "ucast w = e_ident h ! 0" "ucast (drop_bit 8 w) = e_ident h ! 1"
    "ucast (drop_bit 16 w) = e_ident h ! 2" "ucast (drop_bit 24 w) = e_ident h ! 3"
    unfolding w_def ident_magic_def by (rule bit_word_eqI, auto simp: bit_simps not_bit_u8_ge)+
  show ?thesis
  proof
    assume "ident_magic h = ELF_MAGIC"
    then have "w = 0x464C457F" by (simp add: w_def ELF_MAGIC_def)
    with b show "e_ident h ! 0 = 0x7F \<and> e_ident h ! 1 = 0x45 \<and> e_ident h ! 2 = 0x4C \<and> e_ident h ! 3 = 0x46"
      by (simp add: drop_bit_eq_div)
  next
    assume "e_ident h ! 0 = 0x7F \<and> e_ident h ! 1 = 0x45 \<and> e_ident h ! 2 = 0x4C \<and> e_ident h ! 3 = 0x46"
    then show "ident_magic h = ELF_MAGIC"
      by (simp add: ident_magic_def ELF_MAGIC_def push_bit_eq_mult)
  qed
qed

text \<open>The bound check of a table, without words: the sum may have wrapped around.\<close>

definition table_fits :: "u64 \<Rightarrow> u64 \<Rightarrow> u16 \<Rightarrow> nat \<Rightarrow> bool" where
  "table_fits sz off n entsize \<longleftrightarrow> n = 0 \<or> (unat off + unat n * entsize) mod 2 ^ 64 \<le> unat sz"

lemma unat_ucast_u16: "unat (ucast (w :: u16) :: u64) = unat w"
  using unsigned_less [of w, where 'a = nat] by (simp add: unat_ucast_mod)

lemma table_fits_word:
  assumes "unat e = entsize"
  shows "\<not> (sz :: u64) < off + ucast n * e \<longleftrightarrow> (unat off + unat (n :: u16) * entsize) mod 2 ^ 64 \<le> unat sz"
  by (simp add: word_less_nat_alt not_less unat_word_ariths unat_ucast_u16 assms mod_add_right_eq)

lemma note_section_kept [simp]:
  "elf_data (note_section m i elf) = elf_data elf" "elf_size (note_section m i elf) = elf_size elf"
  "elf_header (note_section m i elf) = elf_header elf"
  "program_headers (note_section m i elf) = program_headers elf"
  "section_headers (note_section m i elf) = section_headers elf"
  by (simp_all add: note_section_def Let_def)

lemma note_sections_kept:
  "elf_data (fold (\<lambda>i. note_section m (of_nat i)) is elf) = elf_data elf
   \<and> elf_size (fold (\<lambda>i. note_section m (of_nat i)) is elf) = elf_size elf
   \<and> elf_header (fold (\<lambda>i. note_section m (of_nat i)) is elf) = elf_header elf
   \<and> program_headers (fold (\<lambda>i. note_section m (of_nat i)) is elf) = program_headers elf
   \<and> section_headers (fold (\<lambda>i. note_section m (of_nat i)) is elf) = section_headers elf"
  by (induction "is" arbitrary: elf) auto

lemma ehdr_ident: "i < 16 \<Longrightarrow> e_ident (ehdr_at m p) ! i = m (p + of_nat i)"
  by (simp add: ehdr_at_def)

lemma elf_validate_header_iff:
  "elf_validate_header (ehdr_at m p) \<longleftrightarrow>
     map m [p, p + 1, p + 2, p + 3, p + 4, p + 5] = [0x7F, 0x45, 0x4C, 0x46, 2, 1]
     \<and> e_machine (ehdr_at m p) = 62 \<and> e_type (ehdr_at m p) \<in> {2, 3}
     \<and> e_phentsize (ehdr_at m p) = 56 \<and> e_shentsize (ehdr_at m p) = 64"
proof -
  have u: "ucast (w :: u16) = (of_nat k :: u64) \<longleftrightarrow> w = of_nat k" if "k < 2 ^ 16" for w k
    using that by (auto simp: word_unat_eq_iff unat_ucast_u16 unat_of_nat_small)
  have i: "e_ident (ehdr_at m p) ! 0 = m p" "e_ident (ehdr_at m p) ! 1 = m (p + 1)"
    "e_ident (ehdr_at m p) ! 2 = m (p + 2)" "e_ident (ehdr_at m p) ! 3 = m (p + 3)"
    "e_ident (ehdr_at m p) ! 4 = m (p + 4)" "e_ident (ehdr_at m p) ! 5 = m (p + 5)"
    using ehdr_ident [of 0 m p] ehdr_ident [of 1 m p] ehdr_ident [of 2 m p] ehdr_ident [of 3 m p]
      ehdr_ident [of 4 m p] ehdr_ident [of 5 m p] by simp_all
  show ?thesis
    unfolding elf_validate_header_def ident_magic_iff i
    using u [of 56 "e_phentsize (ehdr_at m p)"] u [of 64 "e_shentsize (ehdr_at m p)"]
    by (auto simp: ELFCLASS64_def ELFDATA2LSB_def EM_X86_64_def ET_EXEC_def ET_DYN_def phdr_size_def shdr_size_def)
qed

text \<open>The two steps that record the tables.\<close>

lemma elf_load_program_headers_eq:
  "elf_load_program_headers elf =
     (let n = e_phnum (elf_header elf); off = e_phoff (elf_header elf); fits = table_fits (elf_size elf) off n 56
      in (fits, if n = 0 then elf\<lparr>program_headers := NULL\<rparr>
                else if fits then elf\<lparr>program_headers := elf_data elf + off\<rparr> else elf))"
  using table_fits_word [of phdr_size 56 "elf_size elf" "e_phoff (elf_header elf)" "e_phnum (elf_header elf)"]
  by (auto simp: elf_load_program_headers_def table_fits_def Let_def phdr_size_def not_less)

lemma elf_load_section_headers_facts:
  assumes "elf_load_section_headers m elf = (ok, elf')"
  shows "ok \<longleftrightarrow> table_fits (elf_size elf) (e_shoff (elf_header elf)) (e_shnum (elf_header elf)) 64"
    and "elf_data elf' = elf_data elf \<and> elf_size elf' = elf_size elf \<and> elf_header elf' = elf_header elf
      \<and> program_headers elf' = program_headers elf"
    and "ok \<Longrightarrow> section_headers elf' =
      (if e_shnum (elf_header elf) = 0 then NULL else elf_data elf + e_shoff (elf_header elf))"
  using assms note_sections_kept
    table_fits_word [of shdr_size 64 "elf_size elf" "e_shoff (elf_header elf)" "e_shnum (elf_header elf)"]
  by (auto simp: elf_load_section_headers_def elf_find_symbol_tables_def table_fits_def Let_def
      shdr_size_def not_less split: if_splits)

text \<open>
  \<^bold>\<open>C34\<close>. \<open>elf_parse_memory\<close> accepts exactly the little endian 64 bit x86-64 executables and shared
  objects with headers of the expected sizes whose two header tables pass the bound checks, and then
  records where file and tables are. The checks compute the end of a table modulo \<open>2 ^ 64\<close>. So a
  table whose end does not wrap lies inside the file, but one whose offset is close to \<open>2 ^ 64\<close> is
  accepted as well although it lies outside.
\<close>

theorem elf_parse_memory_exact:
  assumes "elf_parse_memory m data sz (Some elf) = (ok, Some elf')"
  shows "(ok \<longleftrightarrow> data \<noteq> NULL \<and> 64 \<le> sz
       \<and> map m [data, data + 1, data + 2, data + 3, data + 4, data + 5] = [0x7F, 0x45, 0x4C, 0x46, 2, 1]
       \<and> e_machine (ehdr_at m data) = 62 \<and> e_type (ehdr_at m data) \<in> {2, 3}
       \<and> e_phentsize (ehdr_at m data) = 56 \<and> e_shentsize (ehdr_at m data) = 64
       \<and> table_fits sz (e_phoff (ehdr_at m data)) (e_phnum (ehdr_at m data)) 56
       \<and> table_fits sz (e_shoff (ehdr_at m data)) (e_shnum (ehdr_at m data)) 64)
    \<and> (ok \<longrightarrow> elf_data elf' = data \<and> elf_size elf' = sz \<and> elf_header elf' = ehdr_at m data
       \<and> program_headers elf' = (if e_phnum (ehdr_at m data) = 0 then NULL else data + e_phoff (ehdr_at m data))
       \<and> section_headers elf' = (if e_shnum (ehdr_at m data) = 0 then NULL else data + e_shoff (ehdr_at m data))
       \<and> (\<forall>i < unat (e_phnum (ehdr_at m data)). \<forall>k < 56.
            unat (e_phoff (ehdr_at m data)) + unat (e_phnum (ehdr_at m data)) * 56 < 2 ^ 64 \<longrightarrow>
            (\<exists>o' < unat sz. program_headers elf' + of_nat i * phdr_size + of_nat k = data + of_nat o')))"
proof -
  define h where "h = ehdr_at m data"
  define e0 where "e0 = zero_elf\<lparr>elf_data := data, elf_size := sz\<rparr>"
  define e1 where "e1 = snd (elf_load_program_headers (e0\<lparr>elf_header := h\<rparr>))"
  define fp where "fp = table_fits sz (e_phoff h) (e_phnum h) 56"
  have p: "elf_load_program_headers (e0\<lparr>elf_header := h\<rparr>) = (fp, e1)"
    by (simp add: e1_def elf_load_program_headers_eq Let_def fp_def e0_def)
  have e1: "elf_data e1 = data" "elf_size e1 = sz" "elf_header e1 = h"
    "fp \<Longrightarrow> program_headers e1 = (if e_phnum h = 0 then NULL else data + e_phoff h)"
    by (simp_all add: e1_def elf_load_program_headers_eq Let_def e0_def fp_def)
  obtain ok2 e2 where s: "elf_load_section_headers m e1 = (ok2, e2)" by fastforce
  note sh = elf_load_section_headers_facts [OF s, unfolded e1]
  have r: "ok \<longleftrightarrow> data \<noteq> NULL \<and> 64 \<le> sz \<and> elf_validate_header h \<and> fp \<and> ok2" "ok \<Longrightarrow> elf' = e2"
    using assms p s by (auto simp: elf_parse_memory_def Let_def ehdr_size_def not_less
        simp flip: e0_def h_def split: if_splits)
  have b: "\<exists>o' < unat sz. program_headers e2 + of_nat i * phdr_size + of_nat k = data + of_nat o'"
    if "fp" "i < unat (e_phnum h)" "k < 56" "unat (e_phoff h) + unat (e_phnum h) * 56 < 2 ^ 64" for i k
  proof (intro exI conjI)
    let ?o = "unat (e_phoff h) + i * 56 + k"
    have "e_phnum h \<noteq> 0" using that(2) by auto
    then show "program_headers e2 + of_nat i * phdr_size + of_nat k = data + of_nat ?o"
      using sh(2) e1(4) that(1) by (simp add: phdr_size_def algebra_simps)
    have "(i + 1) * 56 \<le> unat (e_phnum h) * 56" using that(2) by (intro mult_le_mono1) simp
    then show "?o < unat sz"
      using that \<open>e_phnum h \<noteq> 0\<close> by (simp add: fp_def table_fits_def)
  qed
  show ?thesis
    using r sh e1 b elf_validate_header_iff [of m data]
    unfolding fp_def h_def [symmetric] by simp
qed

text \<open>A header whose program header table starts 56 bytes before the file.\<close>

definition wrapped_header :: memory where
  "wrapped_header a = (if a = 0x1000 then 0x7F else if a = 0x1001 then 0x45 else if a = 0x1002 then 0x4C
     else if a = 0x1003 then 0x46 else if a = 0x1004 then 2 else if a = 0x1005 then 1
     else if a = 0x1010 then 2 else if a = 0x1012 then 62 else if a = 0x1020 then 0xC8
     else if 0x1021 \<le> a \<and> a \<le> 0x1027 then 0xFF else if a = 0x1036 then 56 else if a = 0x1038 then 1
     else if a = 0x103A then 64 else 0)"

lemma read_le_numeral:
  "read_le m a (numeral k) = ucast (m a) OR push_bit 8 (read_le m (a + 1) (pred_numeral k))"
  by (simp add: numeral_eq_Suc)

lemma wrapped_header_fields:
  "e_machine (ehdr_at wrapped_header 0x1000) = 62" "e_type (ehdr_at wrapped_header 0x1000) = 2"
  "e_phentsize (ehdr_at wrapped_header 0x1000) = 56" "e_shentsize (ehdr_at wrapped_header 0x1000) = 64"
  "e_phnum (ehdr_at wrapped_header 0x1000) = 1" "e_shnum (ehdr_at wrapped_header 0x1000) = 0"
  "e_phoff (ehdr_at wrapped_header 0x1000) = 0xFFFFFFFFFFFFFFC8"
  by (simp_all add: ehdr_at_def read_le_numeral wrapped_header_def push_bit_eq_mult)

lemma elf_parse_memory_Some: "\<exists>elf'. snd (elf_parse_memory m data sz (Some elf)) = Some elf'"
  unfolding elf_parse_memory_def Let_def by (auto split: prod.split)

theorem elf_parse_memory_exact_witness:
  "\<exists>elf'. elf_parse_memory wrapped_header 0x1000 64 (Some zero_elf) = (True, Some elf')
     \<and> program_headers elf' = 0x1000 - 56"
proof -
  obtain ok elf' where p: "elf_parse_memory wrapped_header 0x1000 64 (Some zero_elf) = (ok, Some elf')"
    using elf_parse_memory_Some [of wrapped_header "0x1000" 64 zero_elf] by (metis prod.collapse)
  have "map wrapped_header [0x1000, 0x1000 + 1, 0x1000 + 2, 0x1000 + 3, 0x1000 + 4, 0x1000 + 5]
      = [0x7F, 0x45, 0x4C, 0x46, 2, 1]" by (simp add: wrapped_header_def)
  moreover have "table_fits 64 0xFFFFFFFFFFFFFFC8 1 56" "table_fits 64 off 0 64" for off
    by (simp_all add: table_fits_def)
  ultimately show ?thesis
    using elf_parse_memory_exact [OF p] p unfolding wrapped_header_fields by simp
qed

section \<open>Loading\<close>

text \<open>
  A file in the first frame of the demonstration machine: one loadable, executable segment of eight
  bytes at 0x400000, four of them in the file at offset 120.
\<close>

definition demo_image :: memory where
  "demo_image a = (if a = 0x100040 then 1 else if a = 0x100044 then 5 else if a = 0x100048 then 120
     else if a = 0x100052 then 0x40 else if a = 0x100060 then 4 else if a = 0x100068 then 8
     else if a = 0x100078 then 0x90 else if a = 0x100079 then 0x90 else if a = 0x10007A then 0x0F
     else if a = 0x10007B then 0x0B else 0)"

definition demo_machine :: vmm_state where
  "demo_machine = demo_vmm\<lparr>mem := demo_image\<rparr>"

definition demo_elf :: elf_file_t where
  "demo_elf = zero_elf\<lparr>elf_data := 0x100000, elf_size := 124,
     elf_header := zero_ehdr\<lparr>e_type := 2, e_entry := 0x400000, e_phoff := 64, e_phnum := 1\<rparr>,
     program_headers := 0x100040\<rparr>"

lemma demo_elf_simps [simp]:
  "elf_data demo_elf = 0x100000" "elf_size demo_elf = 124" "program_headers demo_elf = 0x100040"
  "e_type (elf_header demo_elf) = 2" "e_phnum (elf_header demo_elf) = 1"
  "e_entry (elf_header demo_elf) = 0x400000"
  by (simp_all add: demo_elf_def)

definition demo_mmu :: mmu where
  "demo_mmu s a = (if unat a < 0x600000 then Some a else None)"

lemma demo_is_table: "is_table demo_vmm t \<longleftrightarrow> t = 0x1000"
  by (auto simp: is_table_def demo_table_at intro!: exI [of _ "[]"] split: if_splits)

lemma demo_frame0: "data_frame demo_vmm 0x100000"
proof -
  have "0x100000 \<notin> free_frames demo_pmm"
  proof
    assume "0x100000 \<in> free_frames demo_pmm"
    then obtain i where i: "i < 1024" "\<not> page_used (static_bitmap demo_pmm) i" "page_addr demo_pmm i = 0x100000"
      by (auto simp: free_frames_def)
    then have "unat (page_addr demo_pmm i) = 0x100000" by simp
    then have "i = 0" using unat_page_addr [OF demo_pmm_inv, of i] i(1) by (simp add: demo_pmm_def)
    then show False using i(2) demo_page_used by auto
  qed
  then show ?thesis by (simp add: data_frame_def demo_is_table)
qed

lemma demo_same_tables: "same_tables demo_vmm demo_machine"
proof -
  have "demo_image b = 0" if "unat (b - 0x1000) < 4096" for b
  proof -
    have "unat b = unat (0x1000 :: u64) + unat (b - 0x1000)" by (rule unat_in_page) (use that in simp_all)
    then have "b < 0x100000" using that by (simp add: word_less_nat_alt)
    then show ?thesis by (auto simp: demo_image_def)
  qed
  moreover have "mem demo_vmm b = 0" for b by (simp add: demo_vmm_def)
  ultimately show ?thesis by (auto simp: same_tables_def demo_is_table demo_machine_def)
qed

lemmas demo_machine_facts = same_tables_inv [OF demo_vmm_inv demo_same_tables, simplified demo_machine_def,
    simplified, OF demo_pmm_inv, folded demo_machine_def]

lemma demo_machine_data: "data_frame demo_machine 0x100000"
  using demo_frame0 demo_machine_facts(4) by (simp add: data_frame_def demo_machine_def)

lemma demo_loadable: "loadable demo_mmu 0x600000 demo_elf demo_machine"
proof -
  have "unat (0x100000 + of_nat i - 0x100000 :: u64) < 4096" if "i < 124" for i
    using that unat_of_nat_small [where 'a = 64, of i] by simp
  then show ?thesis
    using demo_machine_data demo_managed
    by (fastforce simp: loadable_def identity_mapped_def demo_mmu_def demo_elf_def demo_machine_def)
qed

lemma demo_header:
  "header_of (mem demo_machine) demo_elf 0 = \<lparr>p_type = 1, p_flags = 5, p_offset = 120, p_vaddr = 0x400000,
     p_paddr = 0, p_filesz = 4, p_memsz = 8, p_align = 0\<rparr>"
  by (simp add: header_of_def demo_machine_def demo_elf_def phdr_at_def demo_image_def read_le_numeral
      push_bit_eq_mult)

lemma elf_load_effect:
  assumes inv: "vmm_inv s" and ld: "loadable mmu limit elf s" and ho: "headers_ok elf base s"
    and ph: "program_headers elf \<noteq> NULL"
  obtains ok elf' s' where "elf_load mmu (Some elf) base s = Some (ok, Some elf', s')" "vmm_inv s'"
    "ok \<Longrightarrow> elf_entry_point elf' = e_entry (elf_header elf) + (if e_type (elf_header elf) = ET_DYN then base else 0)"
    "ok \<Longrightarrow> loading elf base s (unat (e_phnum (elf_header elf))) s'"
proof -
  let ?e = "elf\<lparr>elf_base_addr := base\<rparr>"
  note cg = segment_defs_cong [of ?e elf]
  have h: "header_of m ?e = header_of m elf" for m by (simp add: header_of_def fun_eq_iff)
  have ld': "loadable mmu limit ?e s" and ho': "headers_ok ?e base s"
    using ld ho by (simp_all add: loadable_def headers_ok_def cg h)
  have "loading ?e base s 0 s" using inv by (simp add: loading_def load_frame_def keeps_data_refl)
  from load_loop_correct [OF ld' ho' this, of "unat (e_phnum (elf_header elf))" 0]
  obtain r t s' where l: "elf_load_segments mmu ?e base s = Some (r, ?e\<lparr>elf_top_addr := t\<rparr>, s')" "vmm_inv s'"
    "r \<longrightarrow> loading ?e base s (unat (e_phnum (elf_header elf))) s'"
    by (auto simp: elf_load_segments_def)
  have "loading ?e base s (unat (e_phnum (elf_header elf))) s'
      \<longleftrightarrow> loading elf base s (unat (e_phnum (elf_header elf))) s'" by (simp add: loading_def cg h)
  then show thesis using that l ph by (cases r) (simp_all add: elf_load_def)
qed


lemma elf_demo_npages: "segment_npages (header_of (mem demo_machine) demo_elf 0) = 1"
  by (simp add: demo_header segment_pages_def PAGE_SIZE_4K_def)

lemma demo_segment_base: "segment_base demo_elf base (header_of (mem demo_machine) demo_elf 0) = 0x400000"
  by (simp add: demo_header segment_base_def segment_vaddr_def ET_DYN_def PAGE_SIZE_4K_def)

lemma demo_headers_ok: "headers_ok demo_elf 0 demo_machine"
proof -
  have "no_huge demo_machine va" for va using demo_machine_facts(3) by (simp add: no_huge_def)
  then have "segment_mappable demo_elf 0 (header_of (mem demo_machine) demo_elf 0) demo_machine"
    by (simp add: segment_mappable_def elf_demo_npages demo_segment_base)
  moreover have "segment_ok demo_elf (header_of (mem demo_machine) demo_elf 0)"
    by (simp add: segment_ok_def demo_header)
  moreover have "unat (e_phnum (elf_header demo_elf)) = 1" by simp
  moreover have "program_headers demo_elf = elf_data demo_elf + of_nat 64
      \<and> 64 + unat (e_phnum (elf_header demo_elf)) * 56 \<le> unat (elf_size demo_elf)"
    by simp
  ultimately show ?thesis unfolding headers_ok_def by (intro conjI exI [of _ 64]) auto
qed


text \<open>
  A segment that does not start on a page boundary is loaded to the wrong place. The block is
  mapped at the start of the page, so the processor reads at the segment's address not the first
  byte of the segment but the one as many bytes further on as the address is into its page: the whole
  segment is shifted down.
\<close>

theorem elf_load_shifts_unaligned_segment:
  assumes "vmm_inv s" and "loadable mmu limit elf s" and "headers_ok elf base s"
    and "program_headers elf \<noteq> NULL" and "elf_load mmu (Some elf) base s = Some (True, Some elf', s')"
    and "i < unat (e_phnum (elf_header elf))" and "p_type (header_of (mem s) elf i) = PT_LOAD"
  shows "virtual_byte s' (segment_vaddr elf base (header_of (mem s) elf i))
    = Some (segment_byte (mem s) elf (header_of (mem s) elf i)
        (unat (segment_vaddr elf base (header_of (mem s) elf i)) mod 4096))"
  using assms(1-4)
proof (rule elf_load_effect)
  fix ok elf'' s'' assume e: "elf_load mmu (Some elf) base s = Some (ok, Some elf'', s'')"
    "ok \<Longrightarrow> loading elf base s (unat (e_phnum (elf_header elf))) s''"
  let ?h = "header_of (mem s) elf i"
  let ?v = "segment_vaddr elf base ?h"
  have ok: "segment_ok elf ?h" using assms(3,6,7) by (simp add: headers_ok_def)
  have "segment_loaded elf base ?h (mem s) s'"
    using e assms(5-7) by (simp add: loading_def)
  moreover have "unat ?v mod 4096 < segment_npages ?h * 4096"
    using segment_npages_eq(2) [OF ok] mod_less_divisor [of 4096 "unat ?v"] by (metis less_le_trans mult_le_mono1 Suc_leI mult_1 One_nat_def zero_less_numeral)
  ultimately have "virtual_byte s' (segment_base elf base ?h + of_nat (unat ?v mod 4096))
      = Some (segment_byte (mem s) elf ?h (unat ?v mod 4096))"
    using loaded_virtual_byte by (auto simp: segment_loaded_def)
  moreover have "segment_base elf base ?h + of_nat (unat ?v mod 4096) = ?v"
  proof -
    have m: "(4095 :: u64) = mask 12" by (simp add: mask_eq_exp_minus_1)
    have "of_nat (unat ?v mod 4096) = ?v AND mask 12"
      by (simp add: word_unat_eq_iff unat_and_mask unat_of_nat_small)
    moreover have "(?v AND NOT (mask 12)) AND (?v AND mask 12) = 0" by (rule bit_word_eqI) (auto simp: bit_simps)
    then have "(?v AND NOT (mask 12)) + (?v AND mask 12) = (?v AND NOT (mask 12)) OR (?v AND mask 12)"
      by (rule disjunctive_add_eq_or)
    moreover have "(?v AND NOT (mask 12)) OR (?v AND mask 12) = ?v" by (rule bit_word_eqI) (auto simp: bit_simps)
    ultimately show ?thesis by (simp add: segment_base_def PAGE_SIZE_4K_def m)
  qed
  ultimately show ?thesis by simp
qed

theorem elf_load_shifts_unaligned_segment_witness:
  "\<exists>ok elf' s'. elf_load demo_mmu (Some demo_elf) 0 demo_machine = Some (ok, Some elf', s')
     \<and> (ok \<longrightarrow> virtual_byte s' 0x400000 = Some 0x90)"
proof -
  have ph: "program_headers demo_elf \<noteq> NULL" by simp
  obtain ok elf' s' where l: "elf_load demo_mmu (Some demo_elf) 0 demo_machine = Some (ok, Some elf', s')"
    using elf_load_effect [OF demo_machine_facts(1) demo_loadable demo_headers_ok ph] by metis
  have h: "segment_vaddr demo_elf 0 (header_of (mem demo_machine) demo_elf 0) = 0x400000"
    "p_type (header_of (mem demo_machine) demo_elf 0) = PT_LOAD"
    unfolding demo_header by (simp_all add: segment_vaddr_def ET_DYN_def PT_LOAD_def)
  have b: "segment_byte (mem demo_machine) demo_elf (header_of (mem demo_machine) demo_elf 0) 0 = 0x90"
    unfolding demo_header by (simp add: segment_byte_def demo_machine_def demo_image_def)
  have "virtual_byte s' 0x400000 = Some 0x90" if ok
    using elf_load_shifts_unaligned_segment [OF demo_machine_facts(1) demo_loadable demo_headers_ok ph _ _ h(2), of elf' s']
      l that h(1) b by simp
  then show ?thesis using l by blast
qed

text \<open>
  \<^bold>\<open>C35\<close>. The inner loop of \<open>elf_unload\<close> removes exactly the pages of the segment from the address
  space. It releases every frame of a segment mapped with execute permission, although the test it
  makes is meant to release one frame per contiguous block: the page before has just been unmapped,
  so its address is never the frame before. Of a segment without execute permission it releases
  nothing, because the address it asks for carries the no-execute bit and \<open>pmm_free_page\<close> refuses it.
\<close>

theorem elf_unload_pages_frames:
  assumes "vmm_inv s" and "mapped_run pv 0 n f x s" and "x = 0 \<or> x = PAGE_NO_EXECUTE"
    and "\<forall>g \<in> managed_frames (pmm s). unat g < 2 ^ 52"
  shows "vmm_inv (unload_pages pv n 0 s)
    \<and> (\<forall>va. translate (unload_pages pv n 0 s) va =
         (if \<exists>l<n. vpn va = vpn (page_at pv l) then None else translate s va))
    \<and> free_frames (pmm (unload_pages pv n 0 s)) =
         free_frames (pmm s) \<union> (if x = 0 then f ` {0..<n} else {})"
  using unload_pages_correct [of s pv 0 n f x] assms by simp

lemma demo_map_frame0:
  assumes "flags AND VMM_FLAG_NO_EXECUTE = 0"
  obtains s' where "vmm_inv s'" "mapped_run 0x400000 0 1 (\<lambda>_. 0x100000) 0 s'"
    "managed_frames (pmm s') = managed_frames demo_pmm" "0x100000 \<notin> free_frames (pmm s')"
proof -
  have nh: "no_huge demo_vmm 0x400000" by (simp add: no_huge_def)
  obtain ok s' where mp: "vmm_map_page 0x400000 0x100000 flags demo_vmm = (ok, s')" by fastforce
  have "missing demo_vmm [] (take 3 (vpn 0x400000)) \<le> 3" by (simp add: vpn_def demo_table_at)
  then have ok: "ok"
    using vmm_map_page_contract(1) [OF demo_vmm_inv _ _ nh mp] by (simp add: demo_card_free)
  note c = vmm_map_page_contract [OF demo_vmm_inv _ _ nh mp]
  have tr: "vmm_inv s'" "translate s' 0x400000 = Some 0x100000"
    using vmm_map_page_translate [OF demo_vmm_inv nh mp] ok assms
    by (simp_all add: nx_bit_def PAGE_ADDR_MASK_def mask_eq_exp_minus_1)
  have d: "data_frame s' 0x100000"
    using vmm_map_page_keeps [OF demo_vmm_inv nh mp] demo_frame0 by (simp add: keeps_data_def)
  have "0x100000 \<in> managed_frames demo_pmm"
    by (auto simp: managed_frames_def page_addr_def demo_pmm_def image_iff intro!: exI [of _ 0])
  moreover have m: "managed_frames (pmm s') = managed_frames demo_pmm" "hhdm_offset s' = 0xffff800000000000"
    "root s' = root demo_vmm" using c(2,3) by simp_all
  moreover have "no_huge s' 0x400000"
    using c(4) [of "vpn 0x400000"] ok m(3) by (simp add: no_huge_def)
  ultimately show thesis
    using that [of s'] tr d by (simp add: mapped_run_def data_frame_def PAGE_SIZE_4K_def)
qed

theorem elf_unload_pages_frames_witness:
  "\<exists>s. vmm_inv s \<and> 0x100000 \<notin> free_frames (pmm s) \<and> 0x100000 \<in> free_frames (pmm (unload_pages 0x400000 1 0 s))"
proof (rule demo_map_frame0 [of 0])
  fix s assume s: "vmm_inv s" "mapped_run 0x400000 0 1 (\<lambda>_. 0x100000) 0 s"
    "managed_frames (pmm s) = managed_frames demo_pmm" "0x100000 \<notin> free_frames (pmm s)"
  have "\<forall>g \<in> managed_frames (pmm s). unat g < 2 ^ 52" using demo_managed s(3) by fastforce
  from elf_unload_pages_frames [OF s(1,2) _ this] s show ?thesis by auto
qed simp

section \<open>Symbols\<close>

definition symbol_at :: "memory \<Rightarrow> elf_file_t \<Rightarrow> nat \<Rightarrow> elf64_sym_t" where
  "symbol_at m elf i = sym_at m (symtab elf + of_nat i * sym_size)"

definition symbol_name_at :: "memory \<Rightarrow> elf_file_t \<Rightarrow> nat \<Rightarrow> u64" where
  "symbol_name_at m elf i = elf_get_string elf (strtab elf - elf_data elf) (st_name (symbol_at m elf i))"

definition symbol_matches :: "memory \<Rightarrow> elf_file_t \<Rightarrow> u8 list \<Rightarrow> nat \<Rightarrow> bool" where
  "symbol_matches m elf xs i \<longleftrightarrow> symbol_name_at m elf i \<noteq> NULL \<and> cstr m (symbol_name_at m elf i) xs"

lemma symbol_loop_find:
  assumes "cstr m name xs"
    and "\<And>i. j \<le> i \<Longrightarrow> i < j + k \<Longrightarrow> symbol_name_at m elf i \<noteq> NULL \<Longrightarrow> \<exists>ys. cstr m (symbol_name_at m elf i) ys"
  shows "symbol_loop m elf name k j = Some (case find (symbol_matches m elf xs) [j..<j + k] of
      None \<Rightarrow> NULL
    | Some i \<Rightarrow> st_value (symbol_at m elf i) + (if e_type (elf_header elf) = ET_DYN then elf_base_addr elf else 0))"
  using assms(2)
proof (induction k arbitrary: j)
  case 0
  then show ?case by simp
next
  case (Suc k)
  have IH: "symbol_loop m elf name k (Suc j) = Some (case find (symbol_matches m elf xs) [Suc j..<j + Suc k] of
      None \<Rightarrow> NULL
    | Some i \<Rightarrow> st_value (symbol_at m elf i) + (if e_type (elf_header elf) = ET_DYN then elf_base_addr elf else 0))"
    using Suc.IH [of "Suc j"] Suc.prems by (simp del: upt_Suc)
  have up: "[j..<j + Suc k] = j # [Suc j..<j + Suc k]" by (simp add: upt_conv_Cons del: upt_Suc)
  have nm: "elf_get_string elf (strtab elf - elf_data elf) (st_name (sym_at m (symtab elf + of_nat j * sym_size)))
      = symbol_name_at m elf j" by (simp add: symbol_name_at_def symbol_at_def)
  show ?case
  proof (cases "symbol_name_at m elf j = NULL")
    case True
    then have "\<not> symbol_matches m elf xs j" by (simp add: symbol_matches_def)
    then show ?thesis unfolding up using IH True by (simp add: nm Let_def del: upt_Suc)
  next
    case False
    obtain ys where ys: "cstr m (symbol_name_at m elf j) ys" using Suc.prems [of j] False by auto
    obtain r where r: "strcmp (symbol_name_at m elf j) name m = Some r" "r = 0 \<longleftrightarrow> ys = xs"
      using strcmp_cstr [OF ys assms(1)] by blast
    have "cstr m (symbol_name_at m elf j) xs \<longleftrightarrow> ys = xs"
      using ys cstr_unique [OF ys, of xs] by blast
    then have sm: "symbol_matches m elf xs j \<longleftrightarrow> r = 0"
      using False r(2) by (simp add: symbol_matches_def)
    have "symbol_loop m elf name (Suc k) j = (if r \<noteq> 0 then symbol_loop m elf name k (Suc j)
        else Some (st_value (symbol_at m elf j) + (if e_type (elf_header elf) = ET_DYN then elf_base_addr elf else 0)))"
      using False by (simp add: nm r(1) symbol_at_def)
    then show ?thesis unfolding up IH by (simp add: sm)
  qed
qed

text \<open>
  \<^bold>\<open>C36\<close>. \<open>elf_get_symbol_address\<close> returns: if the names of the symbols and the name asked for are
  terminated strings, the result is the value of the first symbol with that name, moved by the base
  address for a shared object, and NULL if no symbol has it. Symbols whose name starts outside the
  file are skipped.
\<close>

theorem elf_get_symbol_address_first:
  assumes "symtab elf \<noteq> NULL" and "strtab elf \<noteq> NULL" and "name \<noteq> NULL" and "cstr m name xs"
    and "\<forall>i < unat (symtab_entries elf). symbol_name_at m elf i \<noteq> NULL \<longrightarrow> (\<exists>ys. cstr m (symbol_name_at m elf i) ys)"
  shows "elf_get_symbol_address m (Some elf) name =
    Some (case find (symbol_matches m elf xs) [0..<unat (symtab_entries elf)] of
      None \<Rightarrow> NULL
    | Some i \<Rightarrow> st_value (symbol_at m elf i) + (if e_type (elf_header elf) = ET_DYN then elf_base_addr elf else 0))"
  using symbol_loop_find [OF assms(4), of 0 "unat (symtab_entries elf)" elf] assms
  by (simp add: elf_get_symbol_address_def)

text \<open>A symbol table with the one symbol \<open>a\<close>, of value 5, and the name asked for behind it.\<close>

definition demo_symbols :: elf_file_t where
  "demo_symbols = zero_elf\<lparr>elf_data := 0x1000, elf_size := 64, symtab := 0x1000, symtab_entries := 1,
     strtab := 0x1018, strtab_size := 2\<rparr>"

definition symbol_image :: memory where
  "symbol_image a = (if a = 0x1008 then 5 else if a = 0x1018 then 97 else if a = 0x101A then 97 else 0)"

theorem elf_get_symbol_address_first_witness:
  "elf_get_symbol_address symbol_image (Some demo_symbols) 0x101A = Some 5"
proof -
  have n: "symbol_at symbol_image demo_symbols 0 =
      \<lparr>st_name = 0, st_info = 0, st_other = 0, st_shndx = 0, st_value = 5, st_size = 0\<rparr>"
    by (simp add: symbol_at_def sym_at_def demo_symbols_def symbol_image_def read_le_numeral push_bit_eq_mult)
  have nm: "symbol_name_at symbol_image demo_symbols 0 = 0x1018"
    unfolding symbol_name_at_def n by (simp add: elf_get_string_def demo_symbols_def)
  have c: "cstr symbol_image 0x1018 [97]" "cstr symbol_image 0x101A [97]" by (simp_all add: symbol_image_def)
  have ex: "\<exists>ys. cstr symbol_image 0x1018 ys" using c(1) by blast
  have e: "unat (symtab_entries demo_symbols) = 1" "symtab demo_symbols \<noteq> NULL" "strtab demo_symbols \<noteq> NULL"
    "e_type (elf_header demo_symbols) \<noteq> ET_DYN"
    by (simp_all add: demo_symbols_def zero_elf_def zero_ehdr_def ET_DYN_def)
  have m: "symbol_matches symbol_image demo_symbols [97] 0" using c(1) by (simp add: symbol_matches_def nm)
  have "elf_get_symbol_address symbol_image (Some demo_symbols) 0x101A =
    Some (case find (symbol_matches symbol_image demo_symbols [97]) [0..<unat (symtab_entries demo_symbols)] of
      None \<Rightarrow> NULL
    | Some i \<Rightarrow> st_value (symbol_at symbol_image demo_symbols i)
        + (if e_type (elf_header demo_symbols) = ET_DYN then elf_base_addr demo_symbols else 0))"
    by (rule elf_get_symbol_address_first [OF e(2,3) _ c(2)]) (use e(1) nm ex in simp_all)
  also have "find (symbol_matches symbol_image demo_symbols [97]) [0..<unat (symtab_entries demo_symbols)] = Some 0"
    unfolding e(1) using m by simp
  finally show ?thesis using n e(4) by simp
qed

end
