(* ===== verification/Desc_Table.thy ===== *)
theory Desc_Table
  imports Prelude
begin

text \<open>
  What the descriptor tables of \<open>src/kernel/src/core/gdt.c\<close> and \<open>src/kernel/src/core/idt.c\<close> have in
  common: the pointer that the processor loads, and a copy of table and pointer in backup storage
  against which the table is checked and from which it is restored.
\<close>

record table_ptr =
  limit :: u16
  base :: u64

text \<open>
  The contract of a table with a backup: \<open>save\<close> copies table and pointer, \<open>check\<close> compares table
  and backup and the pointer with the address and size of the table.
\<close>

locale backed_table =
  fixes table :: "'s \<Rightarrow> 'e list" and ptr :: "'s \<Rightarrow> table_ptr"
    and backup :: "'s \<Rightarrow> 'e list" and ptr_backup :: "'s \<Rightarrow> table_ptr"
    and good :: table_ptr
    and save :: "'s \<Rightarrow> 's" and check :: "'s \<Rightarrow> bool"
  assumes save_keeps: "table (save s) = table s" "ptr (save s) = ptr s"
    and save_copies: "backup (save s) = table s" "ptr_backup (save s) = ptr s"
    and check_iff: "check s \<longleftrightarrow> ptr s = good \<and> table s = backup s"
begin

lemma check_after_save: "check (save s) \<longleftrightarrow> ptr s = good"
  by (simp add: check_iff save_keeps save_copies)

text \<open>Every change of table or pointer since the last save is detected, and nothing else.\<close>

lemma check_detects:
  assumes "backup s' = backup (save s)" and "ptr s = good"
  shows "check s' \<longleftrightarrow> table s' = table s \<and> ptr s' = ptr s"
  using assms by (auto simp: check_iff save_keeps save_copies)

end

text \<open>
  A table that can be restored: \<open>recover\<close> writes table and pointer back, may fail on the way, and
  reports the outcome of the check.
\<close>

locale recoverable_table = backed_table +
  fixes recover :: "'s \<Rightarrow> (bool \<times> 's) option"
  assumes recover_returns: "\<exists>s'. recover s = Some (check s', s') \<and> table s' = backup s
      \<and> ptr s' = ptr_backup s \<and> backup s' = backup s \<and> ptr_backup s' = ptr_backup s"
begin

text \<open>
  Whatever happened to table and pointer after a save of a good table, \<open>recover\<close> brings both back
  and says so.
\<close>

lemma recover_restores:
  assumes "backup s' = backup (save s)" and "ptr_backup s' = ptr_backup (save s)" and "ptr s = good"
  shows "\<exists>s''. recover s' = Some (True, s'') \<and> table s'' = table s \<and> ptr s'' = ptr s \<and> check s''"
proof -
  obtain s'' where r: "recover s' = Some (check s'', s'')" "table s'' = backup s'"
    "ptr s'' = ptr_backup s'" "backup s'' = backup s'"
    using recover_returns by blast
  then have "check s''" using assms by (simp add: check_iff save_copies)
  with r assms show ?thesis by (auto simp: save_copies)
qed

end

end
