(* ===== verification/Port_IO.thy ===== *)
theory Port_IO
  imports Prelude
begin

text \<open>
  Port input and output, \<open>src/kernel/src/lib/io.c\<close>. The accesses of a driver are a trace of
  events. The devices are not part of the program: a device is a parameter that says what a read
  returns after a given trace.
\<close>

datatype io_event =
    Out8 u16 u8 | In8 u16 u8 | Out16 u16 u16 | In16 u16 u16 | Out32 u16 u32 | In32 u16 u32

type_synonym io_trace = "io_event list"

record device =
  dev8 :: "io_trace \<Rightarrow> u16 \<Rightarrow> u8"
  dev16 :: "io_trace \<Rightarrow> u16 \<Rightarrow> u16"
  dev32 :: "io_trace \<Rightarrow> u16 \<Rightarrow> u32"

definition outb :: "u16 \<Rightarrow> u8 \<Rightarrow> io_trace \<Rightarrow> io_trace" where
  "outb port v tr = tr @ [Out8 port v]"

definition inb :: "device \<Rightarrow> u16 \<Rightarrow> io_trace \<Rightarrow> u8 \<times> io_trace" where
  "inb dev port tr = (let v = dev8 dev tr port in (v, tr @ [In8 port v]))"

definition outw :: "u16 \<Rightarrow> u16 \<Rightarrow> io_trace \<Rightarrow> io_trace" where
  "outw port v tr = tr @ [Out16 port v]"

definition inw :: "device \<Rightarrow> u16 \<Rightarrow> io_trace \<Rightarrow> u16 \<times> io_trace" where
  "inw dev port tr = (let v = dev16 dev tr port in (v, tr @ [In16 port v]))"

definition outl :: "u16 \<Rightarrow> u32 \<Rightarrow> io_trace \<Rightarrow> io_trace" where
  "outl port v tr = tr @ [Out32 port v]"

definition inl :: "device \<Rightarrow> u16 \<Rightarrow> io_trace \<Rightarrow> u32 \<times> io_trace" where
  "inl dev port tr = (let v = dev32 dev tr port in (v, tr @ [In32 port v]))"

text \<open>The bytes a trace wrote to a port, in order.\<close>

fun bytes_out :: "u16 \<Rightarrow> io_trace \<Rightarrow> u8 list" where
  "bytes_out port [] = []"
| "bytes_out port (Out8 p v # tr) = (if p = port then v # bytes_out port tr else bytes_out port tr)"
| "bytes_out port (_ # tr) = bytes_out port tr"

lemma bytes_out_append [simp]: "bytes_out port (tr @ tr') = bytes_out port tr @ bytes_out port tr'"
  by (induction port tr rule: bytes_out.induct) auto

lemmas port_defs = outb_def inb_def outw_def inw_def outl_def inl_def Let_def

section \<open>Busy waiting\<close>

text \<open>A loop with an empty body that polls until the test succeeds.\<close>

partial_function (option) wait_until :: "(io_trace \<Rightarrow> bool \<times> io_trace) \<Rightarrow> io_trace \<Rightarrow> io_trace option" where
  "wait_until test tr = (let (ready, tr') = test tr in if ready then Some tr' else wait_until test tr')"

text \<open>A trace after \<open>n\<close> polls of a test, and that a test succeeds within finitely many polls.\<close>

fun poll :: "(io_trace \<Rightarrow> bool \<times> io_trace) \<Rightarrow> nat \<Rightarrow> io_trace \<Rightarrow> io_trace" where
  "poll test 0 tr = tr"
| "poll test (Suc n) tr = poll test n (snd (test tr))"

lemma wait_until_returns:
  assumes "fst (test (poll test n tr))"
  shows "\<exists>k \<le> n. wait_until test tr = Some (poll test (Suc k) tr)"
  using assms
proof (induction n arbitrary: tr)
  case 0
  then show ?case by (subst wait_until.simps) (simp add: case_prod_unfold)
next
  case (Suc n)
  show ?case
  proof (cases "fst (test tr)")
    case True
    then show ?thesis by (subst wait_until.simps) (auto simp: case_prod_unfold intro!: exI [of _ 0])
  next
    case False
    from Suc.IH [of "snd (test tr)"] Suc.prems obtain k
      where k: "k \<le> n" "wait_until test (snd (test tr)) = Some (poll test (Suc k) (snd (test tr)))"
      by auto
    then have "wait_until test tr = Some (poll test (Suc (Suc k)) tr)"
      using False by (subst wait_until.simps) (simp add: case_prod_unfold)
    with k show ?thesis by (intro exI [of _ "Suc k"]) simp
  qed
qed

end
