(* ===== verification/PIC.thy ===== *)
theory PIC
  imports Port_IO
begin

text \<open>
  The driver of the two 8259 interrupt controllers, \<open>src/kernel/src/drivers/pic/pic.c\<close>. The state is
  the trace of port accesses and the variable \<open>irq_mask\<close>.
\<close>

section \<open>The driver\<close>

definition PIC1_COMMAND :: u16 where "PIC1_COMMAND = 0x20"
definition PIC1_DATA :: u16 where "PIC1_DATA = 0x21"
definition PIC2_COMMAND :: u16 where "PIC2_COMMAND = 0xA0"
definition PIC2_DATA :: u16 where "PIC2_DATA = 0xA1"
definition PIC_EOI :: u8 where "PIC_EOI = 0x20"
definition ICW1_ICW4 :: u8 where "ICW1_ICW4 = 0x01"
definition ICW1_INIT :: u8 where "ICW1_INIT = 0x10"
definition ICW4_8086 :: u8 where "ICW4_8086 = 0x01"

record pic_state =
  io :: io_trace
  irq_mask :: u16

definition pic_boot :: pic_state where
  "pic_boot = \<lparr>io = [], irq_mask = 0xFFFF\<rparr>"

definition pic_outb :: "u16 \<Rightarrow> u8 \<Rightarrow> pic_state \<Rightarrow> pic_state" where
  "pic_outb port v s = s\<lparr>io := outb port v (io s)\<rparr>"

definition pic_inb :: "device \<Rightarrow> u16 \<Rightarrow> pic_state \<Rightarrow> u8 \<times> pic_state" where
  "pic_inb dev port s = (let (v, tr) = inb dev port (io s) in (v, s\<lparr>io := tr\<rparr>))"

text \<open>The data port of an interrupt line and the line's number on its controller.\<close>

definition irq_port :: "u8 \<Rightarrow> u16 \<times> u8" where
  "irq_port irq = (if irq < 8 then (PIC1_DATA, irq) else (PIC2_DATA, irq - 8))"

text \<open>The update of \<open>irq_mask\<close> that follows the write of a mask register.\<close>

definition update_mask :: "u16 \<Rightarrow> u8 \<Rightarrow> u16 \<Rightarrow> u16" where
  "update_mask port value m =
     (if port = PIC1_DATA then (m AND 0xFF00) OR ucast value
      else (m AND 0x00FF) OR push_bit 8 (ucast value))"

definition pic_mask_irq :: "device \<Rightarrow> u8 \<Rightarrow> pic_state \<Rightarrow> pic_state" where
  "pic_mask_irq dev irq s =
     (let (port, line) = irq_port irq;
          (v, s1) = pic_inb dev port s;
          value = ucast (ucast v OR push_bit (unat line) 1 :: u32);
          s2 = pic_outb port value s1
      in s2\<lparr>irq_mask := update_mask port value (irq_mask s2)\<rparr>)"

definition pic_unmask_irq :: "device \<Rightarrow> u8 \<Rightarrow> pic_state \<Rightarrow> pic_state" where
  "pic_unmask_irq dev irq s =
     (let (port, line) = irq_port irq;
          (v, s1) = pic_inb dev port s;
          value = ucast (ucast v AND NOT (push_bit (unat line) 1) :: u32);
          s2 = pic_outb port value s1
      in s2\<lparr>irq_mask := update_mask port value (irq_mask s2)\<rparr>)"

definition pic_init :: "device \<Rightarrow> pic_state \<Rightarrow> pic_state" where
  "pic_init dev s =
     (let (mask1, s) = pic_inb dev PIC1_DATA s;
          (mask2, s) = pic_inb dev PIC2_DATA s;
          s = pic_outb PIC1_COMMAND (ICW1_INIT OR ICW1_ICW4) s;
          s = pic_outb PIC2_COMMAND (ICW1_INIT OR ICW1_ICW4) s;
          s = pic_outb PIC1_DATA 32 s;
          s = pic_outb PIC2_DATA 40 s;
          s = pic_outb PIC1_DATA 4 s;
          s = pic_outb PIC2_DATA 2 s;
          s = pic_outb PIC1_DATA ICW4_8086 s;
          s = pic_outb PIC2_DATA ICW4_8086 s;
          s = pic_outb PIC1_DATA mask1 s;
          s = pic_outb PIC2_DATA mask2 s;
          s = s\<lparr>irq_mask := push_bit 8 (ucast mask2) OR ucast mask1\<rparr>;
          s = pic_mask_irq dev 0 s;
          s = pic_mask_irq dev 1 s
      in pic_unmask_irq dev 2 s)"

definition pic_send_eoi :: "u8 \<Rightarrow> pic_state \<Rightarrow> pic_state" where
  "pic_send_eoi irq s =
     (let s1 = (if 8 \<le> irq then pic_outb PIC2_COMMAND PIC_EOI s else s)
      in pic_outb PIC1_COMMAND PIC_EOI s1)"

definition pic_disable :: "pic_state \<Rightarrow> pic_state" where
  "pic_disable s = (pic_outb PIC2_DATA 0xFF (pic_outb PIC1_DATA 0xFF s))\<lparr>irq_mask := 0xFFFF\<rparr>"

definition pic_get_irq_mask :: "pic_state \<Rightarrow> u16" where
  "pic_get_irq_mask s = irq_mask s"

definition pic_set_irq_mask :: "u16 \<Rightarrow> pic_state \<Rightarrow> pic_state" where
  "pic_set_irq_mask m s =
     pic_outb PIC2_DATA (ucast (drop_bit 8 m AND 0xFF))
       (pic_outb PIC1_DATA (ucast (m AND 0xFF)) (s\<lparr>irq_mask := m\<rparr>))"

section \<open>The controller\<close>

text \<open>
  What the 8259 data sheet says of a controller with the given command and data port: a command with
  bit 4 set (ICW1) starts an initialisation during which the next three bytes to the data port are
  parameters and which clears the mask register; every other byte to the data port is the new mask,
  and a read of the data port returns the mask. The state is the number of parameters still expected
  and the mask.
\<close>

fun chip :: "u16 \<Rightarrow> u16 \<Rightarrow> nat \<times> u8 \<Rightarrow> io_trace \<Rightarrow> nat \<times> u8" where
  "chip cmd data st [] = st"
| "chip cmd data (k, m) (Out8 p v # tr) =
     chip cmd data (if p = cmd \<and> bit v 4 then (3, 0)
                    else if p = data then (if k = 0 then (0, v) else (k - 1, m))
                    else (k, m)) tr"
| "chip cmd data st (_ # tr) = chip cmd data st tr"

abbreviation chip1 :: "u8 \<Rightarrow> io_trace \<Rightarrow> nat \<times> u8" where
  "chip1 m0 \<equiv> chip PIC1_COMMAND PIC1_DATA (0, m0)"

abbreviation chip2 :: "u8 \<Rightarrow> io_trace \<Rightarrow> nat \<times> u8" where
  "chip2 m0 \<equiv> chip PIC2_COMMAND PIC2_DATA (0, m0)"

definition pic_device :: "u8 \<Rightarrow> u8 \<Rightarrow> device \<Rightarrow> bool" where
  "pic_device m1 m2 dev \<longleftrightarrow> (\<forall>tr. dev8 dev tr PIC1_DATA = snd (chip1 m1 tr)
     \<and> dev8 dev tr PIC2_DATA = snd (chip2 m2 tr))"

lemma chip_append: "chip cmd data st (tr @ tr') = chip cmd data (chip cmd data st tr) tr'"
  by (induction cmd data st tr rule: chip.induct) auto

text \<open>
  The driver and the hardware agree: no initialisation is under way and \<open>irq_mask\<close> is the pair of
  the mask registers.
\<close>

definition pic_sync :: "u8 \<Rightarrow> u8 \<Rightarrow> pic_state \<Rightarrow> bool" where
  "pic_sync m1 m2 s \<longleftrightarrow> fst (chip1 m1 (io s)) = 0 \<and> fst (chip2 m2 (io s)) = 0
     \<and> irq_mask s = push_bit 8 (ucast (snd (chip2 m2 (io s)))) OR ucast (snd (chip1 m1 (io s)))"

section \<open>Masks\<close>

lemma ports_distinct [simp]:
  "PIC1_DATA \<noteq> PIC1_COMMAND" "PIC1_DATA \<noteq> PIC2_COMMAND" "PIC1_DATA \<noteq> PIC2_DATA"
  "PIC2_DATA \<noteq> PIC1_COMMAND" "PIC2_DATA \<noteq> PIC2_COMMAND" "PIC2_DATA \<noteq> PIC1_DATA"
  "PIC1_COMMAND \<noteq> PIC2_COMMAND" "PIC2_COMMAND \<noteq> PIC1_COMMAND"
  "PIC1_COMMAND \<noteq> PIC1_DATA" "PIC2_COMMAND \<noteq> PIC2_DATA" "PIC1_COMMAND \<noteq> PIC2_DATA"
  "PIC2_COMMAND \<noteq> PIC1_DATA"
  by (simp_all add: PIC1_DATA_def PIC2_DATA_def PIC1_COMMAND_def PIC2_COMMAND_def)

lemma chip_read [simp]:
  "chip cmd data st (tr @ [In8 p v]) = chip cmd data st tr"
  by (simp add: chip_append)

lemma chip_write:
  "chip cmd data st (tr @ [Out8 p v]) = (let (k, m) = chip cmd data st tr
     in if p = cmd \<and> bit v 4 then (3, 0) else if p = data then (if k = 0 then (0, v) else (k - 1, m))
        else (k, m))"
  by (cases "chip cmd data st tr") (simp add: chip_append)

text \<open>One bit of the pair of mask registers.\<close>

lemma bit_mask_pair:
  "bit (push_bit 8 (ucast (b :: u8)) OR ucast (a :: u8) :: u16) n
     \<longleftrightarrow> (if n < 8 then bit a n else bit b (n - 8))"
  by (auto simp: bit_simps not_bit_u8_ge dest: bit_imp_le_length)

abbreviation mask_pair :: "u8 \<Rightarrow> u8 \<Rightarrow> u16" where
  "mask_pair a b \<equiv> push_bit 8 (ucast b) OR ucast a"

lemma mask_numerals: "(0xFF00 :: u16) = push_bit 8 (mask 8)" "(0x00FF :: u16) = mask 8"
  by (simp_all add: mask_eq_exp_minus_1)

lemma update_mask_pair:
  "update_mask PIC1_DATA v (mask_pair a b) = mask_pair v b"
  "update_mask PIC2_DATA v (mask_pair a b) = mask_pair a v"
proof -
  have "bit (mask_pair a b AND 0xFF00 OR ucast v) n = bit (mask_pair v b) n" if "n < 16" for n
    unfolding mask_numerals using that by (auto simp: bit_simps not_bit_u8_ge)
  then show "update_mask PIC1_DATA v (mask_pair a b) = mask_pair v b"
    by (intro bit_word_eqI) (simp add: update_mask_def)
  have "bit (mask_pair a b AND 0x00FF OR push_bit 8 (ucast v)) n = bit (mask_pair a v) n"
    if "n < 16" for n
    unfolding mask_numerals using that by (auto simp: bit_simps not_bit_u8_ge)
  then show "update_mask PIC2_DATA v (mask_pair a b) = mask_pair a v"
    by (intro bit_word_eqI) (simp add: update_mask_def)
qed

text \<open>The two controllers and the variable after a mask register was read and written.\<close>

lemma set_mask_register:
  assumes dev: "pic_device m1 m2 dev" and sync: "pic_sync m1 m2 s"
  defines "a \<equiv> snd (chip1 m1 (io s))" and "b \<equiv> snd (chip2 m2 (io s))"
  shows "pic_inb dev PIC1_DATA s = (a, s\<lparr>io := io s @ [In8 PIC1_DATA a]\<rparr>)"
    and "pic_inb dev PIC2_DATA s = (b, s\<lparr>io := io s @ [In8 PIC2_DATA b]\<rparr>)"
    and "pic_sync m1 m2 (s\<lparr>io := (io s @ [In8 PIC1_DATA a]) @ [Out8 PIC1_DATA v],
        irq_mask := update_mask PIC1_DATA v (irq_mask s)\<rparr>)"
    and "pic_sync m1 m2 (s\<lparr>io := (io s @ [In8 PIC2_DATA b]) @ [Out8 PIC2_DATA v],
        irq_mask := update_mask PIC2_DATA v (irq_mask s)\<rparr>)"
    and "irq_mask s = mask_pair a b"
proof -
  show m: "irq_mask s = mask_pair a b" using sync by (simp add: pic_sync_def a_def b_def)
  show "pic_inb dev PIC1_DATA s = (a, s\<lparr>io := io s @ [In8 PIC1_DATA a]\<rparr>)"
    "pic_inb dev PIC2_DATA s = (b, s\<lparr>io := io s @ [In8 PIC2_DATA b]\<rparr>)"
    using dev by (simp_all add: pic_inb_def inb_def pic_device_def a_def b_def Let_def)
  have k: "chip1 m1 (io s) = (0, a)" "chip2 m2 (io s) = (0, b)"
    using sync by (simp_all add: pic_sync_def a_def b_def prod_eq_iff)
  have "chip1 m1 ((io s @ [In8 PIC1_DATA a]) @ [Out8 PIC1_DATA v]) = (0, v)"
    "chip2 m2 ((io s @ [In8 PIC1_DATA a]) @ [Out8 PIC1_DATA v]) = (0, b)"
    unfolding chip_write by (simp_all add: k)
  then show "pic_sync m1 m2 (s\<lparr>io := (io s @ [In8 PIC1_DATA a]) @ [Out8 PIC1_DATA v],
        irq_mask := update_mask PIC1_DATA v (irq_mask s)\<rparr>)"
    unfolding pic_sync_def by (simp add: m update_mask_pair)
  have "chip1 m1 ((io s @ [In8 PIC2_DATA b]) @ [Out8 PIC2_DATA v]) = (0, a)"
    "chip2 m2 ((io s @ [In8 PIC2_DATA b]) @ [Out8 PIC2_DATA v]) = (0, v)"
    unfolding chip_write by (simp_all add: k)
  then show "pic_sync m1 m2 (s\<lparr>io := (io s @ [In8 PIC2_DATA b]) @ [Out8 PIC2_DATA v],
        irq_mask := update_mask PIC2_DATA v (irq_mask s)\<rparr>)"
    unfolding pic_sync_def by (simp add: m update_mask_pair)
qed

lemma bit_line:
  assumes "k < 8"
  shows "bit (ucast (ucast v OR 2 ^ k :: u32) :: u8) n \<longleftrightarrow> n < 8 \<and> (n = k \<or> bit (v :: u8) n)"
    and "bit (ucast (ucast v AND NOT (2 ^ k) :: u32) :: u8) n \<longleftrightarrow> n < 8 \<and> n \<noteq> k \<and> bit (v :: u8) n"
  using assms by (auto simp: bit_simps)

lemma irq_cases:
  assumes "irq < (16 :: u8)"
  shows "irq < 8 \<and> unat irq < 8 \<or> \<not> irq < 8 \<and> unat (irq - 8) = unat irq - 8 \<and> 8 \<le> unat irq \<and> unat irq < 16"
  using assms by (auto simp: word_less_nat_alt unat_sub_le word_le_nat_alt)

lemma pic_mask_irq_correct:
  assumes dev: "pic_device m1 m2 dev" and sync: "pic_sync m1 m2 s" and irq: "irq < 16"
  shows "pic_sync m1 m2 (pic_mask_irq dev irq s)"
    and "n < 16 \<Longrightarrow> bit (irq_mask (pic_mask_irq dev irq s)) n \<longleftrightarrow> n = unat irq \<or> bit (irq_mask s) n"
proof -
  note r = set_mask_register [OF dev sync]
  have "pic_sync m1 m2 (pic_mask_irq dev irq s)
    \<and> (n < 16 \<longrightarrow> (bit (irq_mask (pic_mask_irq dev irq s)) n \<longleftrightarrow> n = unat irq \<or> bit (irq_mask s) n))"
    using irq_cases [OF irq]
  proof
    assume i: "irq < 8 \<and> unat irq < 8"
    then show ?thesis
      using r(3) by (auto simp: pic_mask_irq_def irq_port_def r(1,5) pic_outb_def outb_def Let_def
          update_mask_pair bit_mask_pair bit_line)
  next
    assume i: "\<not> irq < 8 \<and> unat (irq - 8) = unat irq - 8 \<and> 8 \<le> unat irq \<and> unat irq < 16"
    then have "unat irq - 8 < 8" by linarith
    with i show ?thesis
      using r(4) by (auto simp: pic_mask_irq_def irq_port_def r(2,5) pic_outb_def outb_def Let_def
          update_mask_pair bit_mask_pair bit_line)
  qed
  then show "pic_sync m1 m2 (pic_mask_irq dev irq s)"
    "n < 16 \<Longrightarrow> bit (irq_mask (pic_mask_irq dev irq s)) n \<longleftrightarrow> n = unat irq \<or> bit (irq_mask s) n"
    by auto
qed

lemma pic_unmask_irq_correct:
  assumes dev: "pic_device m1 m2 dev" and sync: "pic_sync m1 m2 s" and irq: "irq < 16"
  shows "pic_sync m1 m2 (pic_unmask_irq dev irq s)"
    and "n < 16 \<Longrightarrow> bit (irq_mask (pic_unmask_irq dev irq s)) n \<longleftrightarrow> n \<noteq> unat irq \<and> bit (irq_mask s) n"
proof -
  note r = set_mask_register [OF dev sync]
  have "pic_sync m1 m2 (pic_unmask_irq dev irq s)
    \<and> (n < 16 \<longrightarrow> (bit (irq_mask (pic_unmask_irq dev irq s)) n \<longleftrightarrow> n \<noteq> unat irq \<and> bit (irq_mask s) n))"
    using irq_cases [OF irq]
  proof
    assume i: "irq < 8 \<and> unat irq < 8"
    then show ?thesis
      using r(3) by (auto simp: pic_unmask_irq_def irq_port_def r(1,5) pic_outb_def outb_def Let_def
          update_mask_pair bit_mask_pair bit_line)
  next
    assume i: "\<not> irq < 8 \<and> unat (irq - 8) = unat irq - 8 \<and> 8 \<le> unat irq \<and> unat irq < 16"
    then have "unat irq - 8 < 8" by linarith
    with i show ?thesis
      using r(4) by (auto simp: pic_unmask_irq_def irq_port_def r(2,5) pic_outb_def outb_def Let_def
          update_mask_pair bit_mask_pair bit_line)
  qed
  then show "pic_sync m1 m2 (pic_unmask_irq dev irq s)"
    "n < 16 \<Longrightarrow> bit (irq_mask (pic_unmask_irq dev irq s)) n \<longleftrightarrow> n \<noteq> unat irq \<and> bit (irq_mask s) n"
    by auto
qed

section \<open>Initialisation\<close>

text \<open>
  The initialisation words leave both controllers with the masks they had before, whatever the
  trace was, and \<open>irq_mask\<close> with the same.
\<close>

lemma icw_sequence:
  assumes k: "chip1 m1 tr = (0, a)" "chip2 m2 tr = (0, b)"
  defines "tr' \<equiv> tr @ [In8 PIC1_DATA a, In8 PIC2_DATA b, Out8 PIC1_COMMAND 0x11, Out8 PIC2_COMMAND 0x11,
      Out8 PIC1_DATA 32, Out8 PIC2_DATA 40, Out8 PIC1_DATA 4, Out8 PIC2_DATA 2, Out8 PIC1_DATA 1,
      Out8 PIC2_DATA 1, Out8 PIC1_DATA a, Out8 PIC2_DATA b]"
  shows "chip1 m1 tr' = (0, a)" "chip2 m2 tr' = (0, b)"
proof -
  have "bit (0x11 :: u8) 4" by simp
  then show "chip1 m1 tr' = (0, a)" "chip2 m2 tr' = (0, b)"
    unfolding tr'_def chip_append k by simp_all
qed

lemma pic_init_correct:
  assumes dev: "pic_device m1 m2 dev" and k: "chip1 m1 (io s) = (0, a)" "chip2 m2 (io s) = (0, b)"
  shows "pic_sync m1 m2 (pic_init dev s)"
    and "n < 16 \<Longrightarrow> bit (irq_mask (pic_init dev s)) n
      \<longleftrightarrow> n \<noteq> 2 \<and> (n = 0 \<or> n = 1 \<or> bit (mask_pair a b) n)"
proof -
  define s0 where "s0 = s\<lparr>io := io s @ [In8 PIC1_DATA a, In8 PIC2_DATA b, Out8 PIC1_COMMAND 0x11,
      Out8 PIC2_COMMAND 0x11, Out8 PIC1_DATA 32, Out8 PIC2_DATA 40, Out8 PIC1_DATA 4, Out8 PIC2_DATA 2,
      Out8 PIC1_DATA 1, Out8 PIC2_DATA 1, Out8 PIC1_DATA a, Out8 PIC2_DATA b], irq_mask := mask_pair a b\<rparr>"
  have c2: "chip2 m2 (io s @ [In8 PIC1_DATA a]) = (0, b)" using k by simp
  have eq: "pic_init dev s = pic_unmask_irq dev 2 (pic_mask_irq dev 1 (pic_mask_irq dev 0 s0))"
    using dev k c2
    by (simp add: pic_init_def pic_inb_def inb_def pic_device_def pic_outb_def outb_def Let_def s0_def
        ICW1_INIT_def ICW1_ICW4_def ICW4_8086_def)
  have s0: "pic_sync m1 m2 s0"
    using icw_sequence [OF k] by (simp add: pic_sync_def s0_def)
  note s1 = pic_mask_irq_correct [OF dev s0, of 0, simplified]
  note s2 = pic_mask_irq_correct [OF dev s1(1), of 1, simplified]
  note s3 = pic_unmask_irq_correct [OF dev s2(1), of 2, simplified]
  show "pic_sync m1 m2 (pic_init dev s)" unfolding eq by (rule s3(1))
  show "bit (irq_mask (pic_init dev s)) n
      \<longleftrightarrow> n \<noteq> 2 \<and> (n = 0 \<or> n = 1 \<or> bit (mask_pair a b) n)" if n: "n < 16"
    unfolding eq using s1(2) [OF n] s2(2) [OF n] s3(2) [OF n] by (auto simp: s0_def)
qed

section \<open>Properties\<close>

text \<open>A pair of controllers as the data sheet describes them, all lines masked at power on.\<close>

definition demo_pic :: device where
  "demo_pic = \<lparr>dev8 = (\<lambda>tr port. if port = PIC1_DATA then snd (chip1 0xFF tr) else snd (chip2 0xFF tr)),
     dev16 = (\<lambda>_ _. 0), dev32 = (\<lambda>_ _. 0)\<rparr>"

lemma demo_pic_device: "pic_device 0xFF 0xFF demo_pic"
  by (simp add: pic_device_def demo_pic_def)

text \<open>
  \<open>pic_init\<close> brings the variable \<open>irq_mask\<close> and the two mask registers into agreement, on
  controllers in any state outside an initialisation sequence. It leaves the timer and the keyboard
  line masked and only the cascade line unmasked, where the comments say that it unmasks all three;
  the other lines keep their masks.
\<close>

theorem pic_init_masks:
  assumes "pic_device m1 m2 dev" and "chip1 m1 (io s) = (0, a)" and "chip2 m2 (io s) = (0, b)"
  shows "pic_sync m1 m2 (pic_init dev s)
    \<and> (\<forall>n<16. bit (pic_get_irq_mask (pic_init dev s)) n
         \<longleftrightarrow> n \<noteq> 2 \<and> (n = 0 \<or> n = 1 \<or> bit (mask_pair a b) n))"
  using pic_init_correct [OF assms] by (simp add: pic_get_irq_mask_def)

theorem pic_init_masks_witness:
  "pic_device 0xFF 0xFF demo_pic \<and> pic_sync 0xFF 0xFF (pic_init demo_pic pic_boot)
    \<and> bit (pic_get_irq_mask (pic_init demo_pic pic_boot)) 0"
  using pic_init_masks [OF demo_pic_device, of pic_boot "0xFF" "0xFF"] demo_pic_device
  by (simp add: pic_boot_def)

text \<open>
  Once they agree, masking and unmasking a line keeps the variable and the mask registers in
  agreement and changes exactly the bit of that line, on the controller the line belongs to.
\<close>

theorem pic_mask_unmask_exact:
  assumes "pic_device m1 m2 dev" and "pic_sync m1 m2 s" and "irq < 16"
  shows "pic_sync m1 m2 (pic_mask_irq dev irq s) \<and> pic_sync m1 m2 (pic_unmask_irq dev irq s)
    \<and> (\<forall>n<16. (bit (irq_mask (pic_mask_irq dev irq s)) n \<longleftrightarrow> n = unat irq \<or> bit (irq_mask s) n)
         \<and> (bit (irq_mask (pic_unmask_irq dev irq s)) n \<longleftrightarrow> n \<noteq> unat irq \<and> bit (irq_mask s) n))"
  using pic_mask_irq_correct [OF assms] pic_unmask_irq_correct [OF assms] by blast

theorem pic_mask_unmask_exact_witness:
  "pic_sync 0xFF 0xFF pic_boot \<and> \<not> bit (irq_mask (pic_unmask_irq demo_pic 12 pic_boot)) 12"
proof -
  have sync: "pic_sync 0xFF 0xFF pic_boot" by (simp add: pic_sync_def pic_boot_def)
  then show ?thesis using pic_mask_unmask_exact [OF demo_pic_device sync, of 12] by simp
qed

end
