(* ===== verification/IDT.thy ===== *)
theory IDT
  imports Desc_Table PIC
begin

text \<open>
  The interrupt descriptor table, \<open>src/kernel/src/core/idt.c\<close>; the dispatcher of the same file is in
  theory \<open>Interrupts\<close>, after the handlers it calls. The addresses of the table and of the entry points
  in \<open>idt.asm\<close> are chosen by the linker: they are parameters. The structures are packed, so two tables
  have the same bytes exactly if they are equal.
\<close>

section \<open>Data\<close>

record idt_entry =
  offset_low :: u16
  selector :: u16
  ist :: u8
  type_attr :: u8
  offset_mid :: u16
  offset_high :: u32
  reserved :: u32

definition IDT_ENTRIES :: nat where "IDT_ENTRIES = 256"
definition IRQ_TIMER :: u8 where "IRQ_TIMER = 32"
definition IRQ_KEYBOARD :: u8 where "IRQ_KEYBOARD = 33"
definition IRQ_MOUSE :: u8 where "IRQ_MOUSE = 44"

text \<open>The handlers that the kernel registers.\<close>

datatype handler = Timer_Handler | Keyboard_Handler | Mouse_Handler | Page_Fault_Handler

text \<open>
  The variables of the file, and the registers it loads: the table register and the interrupt flag.
\<close>

record idt_state =
  idt :: "idt_entry list"
  idt_pointer :: table_ptr
  idt_backup :: "idt_entry list"
  idt_pointer_backup :: table_ptr
  interrupt_handlers :: "u8 \<Rightarrow> handler option"
  idtr :: table_ptr
  flags :: u64

definition zero_gate :: idt_entry where
  "zero_gate = \<lparr>offset_low = 0, selector = 0, ist = 0, type_attr = 0, offset_mid = 0, offset_high = 0, reserved = 0\<rparr>"

definition idt_boot :: idt_state where
  "idt_boot = \<lparr>idt = replicate 256 zero_gate, idt_pointer = \<lparr>limit = 0, base = 0\<rparr>,
     idt_backup = replicate 256 zero_gate, idt_pointer_backup = \<lparr>limit = 0, base = 0\<rparr>,
     interrupt_handlers = (\<lambda>_. None), idtr = \<lparr>limit = 0, base = 0\<rparr>, flags = 2\<rparr>"

section \<open>Operations\<close>

definition idt_set_gate :: "u8 \<Rightarrow> u64 \<Rightarrow> u16 \<Rightarrow> u8 \<Rightarrow> u8 \<Rightarrow> idt_state \<Rightarrow> bool \<times> idt_state" where
  "idt_set_gate num bas sel is attr s =
     (if IDT_ENTRIES \<le> unat num then (False, s)
      else (True, s\<lparr>idt := (idt s)[unat num := (idt s ! unat num)
        \<lparr>offset_low := ucast (bas AND 0xFFFF),
         offset_mid := ucast (drop_bit 16 bas AND 0xFFFF),
         offset_high := ucast (drop_bit 32 bas AND 0xFFFFFFFF),
         selector := sel,
         ist := is AND 0x7,
         type_attr := attr,
         reserved := 0\<rparr>]\<rparr>))"

text \<open>The 48 calls, for \<open>isr0\<close> to \<open>isr31\<close> and \<open>irq0\<close> to \<open>irq15\<close>.\<close>

definition idt_initialize_gates :: "(nat \<Rightarrow> u64) \<Rightarrow> (nat \<Rightarrow> u64) \<Rightarrow> idt_state \<Rightarrow> idt_state" where
  "idt_initialize_gates isr irq s =
     fold (\<lambda>n s. snd (idt_set_gate (of_nat (n + 32)) (irq n) 0x08 0 0x8E s)) [0..<16]
       (fold (\<lambda>n s. snd (idt_set_gate (of_nat n) (isr n) 0x08 0 0x8E s)) [0..<32] s)"

definition idt_save_backup :: "idt_state \<Rightarrow> idt_state" where
  "idt_save_backup s = s\<lparr>idt_backup := idt s, idt_pointer_backup := idt_pointer s\<rparr>"

definition idt_check_integrity :: "u64 \<Rightarrow> idt_state \<Rightarrow> bool" where
  "idt_check_integrity idt_addr s =
     (if base (idt_pointer s) \<noteq> idt_addr then False
      else if limit (idt_pointer s) \<noteq> of_nat (16 * IDT_ENTRIES - 1) then False
      else if idt s \<noteq> idt_backup s then False
      else True)"

definition idt_load :: "idt_state \<Rightarrow> idt_state" where
  "idt_load s = s\<lparr>idtr := idt_pointer s\<rparr>"

definition idt_init :: "device \<Rightarrow> u64 \<Rightarrow> (nat \<Rightarrow> u64) \<Rightarrow> (nat \<Rightarrow> u64) \<Rightarrow> idt_state \<times> pic_state \<Rightarrow> idt_state \<times> pic_state" where
  "idt_init dev idt_addr isr irq sp =
     (let (s, p) = sp;
          s = s\<lparr>idt := replicate IDT_ENTRIES zero_gate\<rparr>;
          s = s\<lparr>idt_pointer := \<lparr>limit = of_nat (16 * IDT_ENTRIES - 1), base = idt_addr\<rparr>\<rparr>;
          s = idt_initialize_gates isr irq s;
          s = idt_save_backup s;
          p = pic_init dev p
      in (idt_load s, p))"

definition idt_reload :: "idt_state \<Rightarrow> idt_state" where
  "idt_reload s = idt_load s"

definition idt_recover :: "u64 \<Rightarrow> idt_state \<Rightarrow> bool \<times> idt_state" where
  "idt_recover idt_addr s =
     (let s = s\<lparr>idt := idt_backup s\<rparr>;
          s = s\<lparr>idt_pointer := idt_pointer_backup s\<rparr>;
          s = idt_reload s
      in (idt_check_integrity idt_addr s, s))"

definition idt_register_handler :: "u8 \<Rightarrow> handler option \<Rightarrow> idt_state \<Rightarrow> idt_state" where
  "idt_register_handler vector h s =
     (if unat vector < IDT_ENTRIES then s\<lparr>interrupt_handlers := (interrupt_handlers s)(vector := h)\<rparr> else s)"

definition interrupt_enable :: "idt_state \<Rightarrow> idt_state" where
  "interrupt_enable s = s\<lparr>flags := set_bit 9 (flags s)\<rparr>"

definition interrupt_disable :: "idt_state \<Rightarrow> idt_state" where
  "interrupt_disable s = s\<lparr>flags := unset_bit 9 (flags s)\<rparr>"

definition interrupt_state :: "idt_state \<Rightarrow> bool" where
  "interrupt_state s \<longleftrightarrow> flags s AND push_bit 9 1 \<noteq> 0"

section \<open>The contract of the backup\<close>

abbreviation idt_good :: "u64 \<Rightarrow> table_ptr" where
  "idt_good idt_addr \<equiv> \<lparr>limit = 4095, base = idt_addr\<rparr>"

interpretation idt_table: recoverable_table idt idt_pointer idt_backup idt_pointer_backup "idt_good idt_addr"
    idt_save_backup "idt_check_integrity idt_addr" "\<lambda>s. Some (idt_recover idt_addr s)" for idt_addr
proof
  fix s
  show "idt (idt_save_backup s) = idt s" "idt_pointer (idt_save_backup s) = idt_pointer s"
    "idt_backup (idt_save_backup s) = idt s" "idt_pointer_backup (idt_save_backup s) = idt_pointer s"
    by (simp_all add: idt_save_backup_def)
  show "idt_check_integrity idt_addr s \<longleftrightarrow> idt_pointer s = idt_good idt_addr \<and> idt s = idt_backup s"
    by (cases "idt_pointer s") (auto simp: idt_check_integrity_def IDT_ENTRIES_def)
  show "\<exists>s'. Some (idt_recover idt_addr s) = Some (idt_check_integrity idt_addr s', s') \<and> idt s' = idt_backup s
      \<and> idt_pointer s' = idt_pointer_backup s \<and> idt_backup s' = idt_backup s
      \<and> idt_pointer_backup s' = idt_pointer_backup s"
    by (simp add: idt_recover_def idt_reload_def idt_load_def Let_def)
qed

section \<open>Gates\<close>

text \<open>How the processor reads the entry point of a gate.\<close>

definition gate_offset :: "idt_entry \<Rightarrow> u64" where
  "gate_offset e = ucast (offset_low e) OR push_bit 16 (ucast (offset_mid e)) OR push_bit 32 (ucast (offset_high e))"

definition gate :: "u64 \<Rightarrow> u16 \<Rightarrow> u8 \<Rightarrow> u8 \<Rightarrow> idt_entry" where
  "gate bas sel is attr = \<lparr>offset_low = ucast (bas AND 0xFFFF), selector = sel, ist = is AND 7, type_attr = attr,
     offset_mid = ucast (drop_bit 16 bas AND 0xFFFF), offset_high = ucast (drop_bit 32 bas AND 0xFFFFFFFF),
     reserved = 0\<rparr>"

lemma idt_set_gate_list:
  "idt_set_gate num bas sel is attr s = (True, s\<lparr>idt := (idt s)[unat num := gate bas sel is attr]\<rparr>)"
  using unsigned_less [where 'b = 8 and w = num and 'a = nat]
  by (cases "idt s ! unat num") (simp add: idt_set_gate_def IDT_ENTRIES_def gate_def)

lemma gate_offset_roundtrip: "gate_offset (gate b sel is attr) = b"
proof -
  have m: "(0xFFFF :: u64) = mask 16" "(0xFFFFFFFF :: u64) = mask 32" by (simp_all add: mask_eq_exp_minus_1)
  have "bit (gate_offset (gate b sel is attr)) n = bit b n" if n: "n < 64" for n
  proof -
    consider "n < 16" | "16 \<le> n" "n < 32" | "32 \<le> n" by linarith
    then show ?thesis
      unfolding gate_offset_def gate_def m using n by cases (auto simp: bit_simps)
  qed
  then show ?thesis by (intro bit_word_eqI) simp
qed

text \<open>A run of calls of \<open>idt_set_gate\<close> sets exactly the gates of its vectors.\<close>

lemma set_gates:
  fixes b :: "nat \<Rightarrow> u64" and k n :: nat
  assumes "length (idt s) = 256" and "k + n \<le> 256"
  defines "s' \<equiv> fold (\<lambda>i s. snd (idt_set_gate (of_nat (i + k)) (b i) 0x08 0 0x8E s)) [0..<n] s"
  shows "s' = s\<lparr>idt := idt s'\<rparr> \<and> length (idt s') = 256
    \<and> (\<forall>i < 256. idt s' ! i = (if k \<le> i \<and> i < k + n then gate (b (i - k)) 0x08 0 0x8E else idt s ! i))"
  using assms(2) unfolding s'_def
proof (induction n)
  case 0
  show ?case using assms(1) by auto
next
  case (Suc n)
  then have "n + k < 256" by simp
  then have u: "unat (of_nat (n + k) :: u8) = n + k" by (simp add: unat_of_nat del: of_nat_add)
  from Suc have "k + n \<le> 256" by simp
  define t where "t = fold (\<lambda>i s. snd (idt_set_gate (of_nat (i + k)) (b i) 0x08 0 0x8E s)) [0..<n] s"
  have IH: "t = s\<lparr>idt := idt t\<rparr>" "length (idt t) = 256"
    "\<And>i. i < 256 \<Longrightarrow> idt t ! i = (if k \<le> i \<and> i < k + n then gate (b (i - k)) 0x08 0 0x8E else idt s ! i)"
    using Suc.IH [OF \<open>k + n \<le> 256\<close>] unfolding t_def by blast+
  have step: "fold (\<lambda>i s. snd (idt_set_gate (of_nat (i + k)) (b i) 0x08 0 0x8E s)) [0..<Suc n] s
      = t\<lparr>idt := (idt t)[n + k := gate (b n) 0x08 0 0x8E]\<rparr>"
    by (simp add: t_def idt_set_gate_list u del: of_nat_add)
  have "t\<lparr>idt := x\<rparr> = s\<lparr>idt := x\<rparr>" for x by (subst IH(1)) simp
  then show ?case unfolding step using IH(2,3) \<open>n + k < 256\<close>
    by (auto simp: nth_list_update less_Suc_eq)
qed

lemma idt_gates:
  assumes "length (idt s) = 256"
  shows "idt_initialize_gates isr irq s = s\<lparr>idt := idt (idt_initialize_gates isr irq s)\<rparr>"
    and "i < 256 \<Longrightarrow> idt (idt_initialize_gates isr irq s) ! i
      = (if i < 32 then gate (isr i) 0x08 0 0x8E else if i < 48 then gate (irq (i - 32)) 0x08 0 0x8E else idt s ! i)"
proof -
  define s1 where "s1 = fold (\<lambda>n s. snd (idt_set_gate (of_nat n) (isr n) 0x08 0 0x8E s)) [0..<32] s"
  have s1: "s1 = s\<lparr>idt := idt s1\<rparr>" "length (idt s1) = 256"
    "\<And>i. i < 256 \<Longrightarrow> idt s1 ! i = (if i < 32 then gate (isr i) 0x08 0 0x8E else idt s ! i)"
    using set_gates [OF assms, of 0 32 isr] unfolding s1_def by auto
  define s2 where "s2 = idt_initialize_gates isr irq s"
  have s2: "s2 = s1\<lparr>idt := idt s2\<rparr>"
    "\<And>i. i < 256 \<Longrightarrow> idt s2 ! i = (if 32 \<le> i \<and> i < 48 then gate (irq (i - 32)) 0x08 0 0x8E else idt s1 ! i)"
    using set_gates [OF s1(2), of 32 16 irq]
    unfolding s2_def idt_initialize_gates_def s1_def [symmetric] by auto
  have "s2 = s\<lparr>idt := idt s2\<rparr>" by (subst s2(1), subst s1(1)) simp
  then show "idt_initialize_gates isr irq s = s\<lparr>idt := idt (idt_initialize_gates isr irq s)\<rparr>"
    by (simp add: s2_def)
  show "idt (idt_initialize_gates isr irq s) ! i
      = (if i < 32 then gate (isr i) 0x08 0 0x8E else if i < 48 then gate (irq (i - 32)) 0x08 0 0x8E else idt s ! i)"
    if "i < 256"
    using that by (simp add: s2_def [symmetric] s1(3) s2(2))
qed

section \<open>Properties\<close>

text \<open>
  \<^bold>\<open>C29\<close>. After \<open>idt_init\<close> the gates of the vectors 0 to 31 lead to \<open>isr0\<close> to \<open>isr31\<close> and those of 32 to
  47 to \<open>irq0\<close> to \<open>irq15\<close>, all as interrupt gates of the kernel code segment; no other gate is present,
  and the table is loaded and passes its integrity check. Whatever then happens to the table and its
  pointer, \<open>idt_check_integrity\<close> detects every change, and \<open>idt_recover\<close> restores both and returns
  true, as long as the backup is intact.
\<close>

theorem idt_init_and_recover:
  assumes "(s, p) = idt_init dev idt_addr isr irq sp"
  shows "(\<forall>i < 256. gate_offset (idt s ! i) = (if i < 32 then isr i else if i < 48 then irq (i - 32) else 0)
      \<and> selector (idt s ! i) = (if i < 48 then 0x08 else 0) \<and> type_attr (idt s ! i) = (if i < 48 then 0x8E else 0))
    \<and> idtr s = \<lparr>limit = 4095, base = idt_addr\<rparr> \<and> idt_check_integrity idt_addr s \<and> p = pic_init dev (snd sp)
    \<and> (\<forall>t. idt_backup t = idt_backup s \<and> idt_pointer_backup t = idt_pointer_backup s \<longrightarrow>
         (idt_check_integrity idt_addr t \<longleftrightarrow> idt t = idt s \<and> idt_pointer t = idt_pointer s)
         \<and> (\<exists>t'. idt_recover idt_addr t = (True, t') \<and> idt t' = idt s \<and> idt_pointer t' = idt_pointer s))"
proof -
  define s0 where "s0 = (fst sp)\<lparr>idt := replicate 256 zero_gate, idt_pointer := idt_good idt_addr\<rparr>"
  define s1 where "s1 = idt_initialize_gates isr irq s0"
  have l: "length (idt s0) = 256" by (simp add: s0_def)
  have s: "s = idt_load (idt_save_backup s1)" and p: "p = pic_init dev (snd sp)"
    using assms by (simp_all add: idt_init_def case_prod_unfold Let_def IDT_ENTRIES_def s0_def s1_def)
  have s1: "s1 = s0\<lparr>idt := idt s1\<rparr>" using idt_gates(1) [OF l] by (simp add: s1_def)
  have ptr: "idt_pointer s1 = idt_good idt_addr" by (subst s1) (simp add: s0_def)
  have eq: "idt s = idt s1" "idt_pointer s = idt_good idt_addr" "idt_backup s = idt s1"
    "idt_pointer_backup s = idt_good idt_addr" "idtr s = idt_good idt_addr"
    using ptr by (simp_all add: s idt_load_def idt_save_backup_def)
  have z: "gate_offset zero_gate = 0" "selector zero_gate = 0" "type_attr zero_gate = 0"
    by (simp_all add: gate_offset_def zero_gate_def)
  have gates: "gate_offset (idt s ! i) = (if i < 32 then isr i else if i < 48 then irq (i - 32) else 0)
      \<and> selector (idt s ! i) = (if i < 48 then 0x08 else 0) \<and> type_attr (idt s ! i) = (if i < 48 then 0x8E else 0)"
    if "i < 256" for i
    using idt_gates(2) [OF l that, of isr irq] that
    by (simp add: eq(1) s1_def gate_offset_roundtrip z) (simp add: gate_def s0_def zero_gate_def gate_offset_def)
  have saved: "idt_backup s = idt_backup (idt_save_backup s1)"
    "idt_pointer_backup s = idt_pointer_backup (idt_save_backup s1)"
    using eq ptr by (simp_all add: idt_table.save_copies)
  have "(idt_check_integrity idt_addr t \<longleftrightarrow> idt t = idt s \<and> idt_pointer t = idt_pointer s)
      \<and> (\<exists>t'. idt_recover idt_addr t = (True, t') \<and> idt t' = idt s \<and> idt_pointer t' = idt_pointer s)"
    if t: "idt_backup t = idt_backup s \<and> idt_pointer_backup t = idt_pointer_backup s" for t
    using idt_table.check_detects [of t s1, OF _ ptr] idt_table.recover_restores [of t s1, OF _ _ ptr]
      t saved eq ptr by auto
  then show ?thesis using gates eq p by (simp add: idt_table.check_iff)
qed

theorem idt_init_and_recover_witness:
  "let (s, p) = idt_init demo_pic 0xFFFFFFFF80030000 (\<lambda>n. 0xFFFFFFFF80001000 + of_nat (16 * n)) (\<lambda>n. 0)
       (idt_boot, pic_boot)
   in gate_offset (idt s ! 14) = 0xFFFFFFFF800010E0
     \<and> fst (idt_recover 0xFFFFFFFF80030000 (s\<lparr>idt := (idt s)[14 := zero_gate], idt_pointer := \<lparr>limit = 0, base = 1\<rparr>\<rparr>))"
proof -
  define sp where "sp = idt_init demo_pic 0xFFFFFFFF80030000 (\<lambda>n. 0xFFFFFFFF80001000 + of_nat (16 * n)) (\<lambda>n. 0)
       (idt_boot, pic_boot)"
  have "(fst sp, snd sp) = idt_init demo_pic 0xFFFFFFFF80030000 (\<lambda>n. 0xFFFFFFFF80001000 + of_nat (16 * n)) (\<lambda>n. 0)
       (idt_boot, pic_boot)" by (simp add: sp_def)
  note p = idt_init_and_recover [OF this]
  have "gate_offset (idt (fst sp) ! 14) = 0xFFFFFFFF80001000 + of_nat (16 * 14)" using p by simp
  moreover have "\<exists>t'. idt_recover 0xFFFFFFFF80030000 ((fst sp)\<lparr>idt := (idt (fst sp))[14 := zero_gate],
      idt_pointer := \<lparr>limit = 0, base = 1\<rparr>\<rparr>) = (True, t')"
    using p by (metis (no_types, lifting) idt_state.select_convs(3,4) idt_state.surjective
        idt_state.update_convs(1,2))
  ultimately show ?thesis unfolding sp_def [symmetric] Let_def case_prod_unfold by auto
qed

end
