(* ===== verification/Timer.thy ===== *)
theory Timer
  imports IDT
begin

text \<open>
  The programmable interval timer, \<open>src/kernel/src/drivers/timer/timer.c\<close>. A callback belongs to a
  client of the driver: it is a number here, and the state records every call with its argument.
\<close>

section \<open>The driver\<close>

definition PIT_FREQUENCY :: u32 where "PIT_FREQUENCY = 1193182"
definition PIT_CHANNEL0 :: u16 where "PIT_CHANNEL0 = 0x40"
definition PIT_COMMAND :: u16 where "PIT_COMMAND = 0x43"

record timer_state =
  timer_ticks :: u64
  timer_callback :: "nat option"
  timer_calls :: "(nat \<times> u64) list"

definition timer_boot :: timer_state where
  "timer_boot = \<lparr>timer_ticks = 0, timer_callback = None, timer_calls = []\<rparr>"

definition timer_interrupt_handler :: "timer_state \<Rightarrow> timer_state" where
  "timer_interrupt_handler t =
     (let t = t\<lparr>timer_ticks := timer_ticks t + 1\<rparr>
      in case timer_callback t of
           None \<Rightarrow> t
         | Some f \<Rightarrow> t\<lparr>timer_calls := timer_calls t @ [(f, timer_ticks t)]\<rparr>)"

text \<open>A division by zero is a fault, the result \<open>None\<close>.\<close>

definition timer_set_frequency :: "u32 \<Rightarrow> io_trace \<Rightarrow> io_trace option" where
  "timer_set_frequency frequency tr =
     (if frequency = 0 then None
      else let divisor = PIT_FREQUENCY div frequency;
               tr = outb PIT_COMMAND 0x36 tr;
               tr = outb PIT_CHANNEL0 (ucast (divisor AND 0xFF)) tr
           in Some (outb PIT_CHANNEL0 (ucast (drop_bit 8 divisor AND 0xFF)) tr))"

definition timer_init :: "device \<Rightarrow> u32 \<Rightarrow> idt_state \<times> pic_state \<Rightarrow> (idt_state \<times> pic_state) option" where
  "timer_init dev frequency sp =
     (let (s, p) = sp
      in case timer_set_frequency frequency (io p) of
           None \<Rightarrow> None
         | Some tr \<Rightarrow> Some (idt_register_handler IRQ_TIMER (Some Timer_Handler) s,
             pic_unmask_irq dev 0 (p\<lparr>io := tr\<rparr>)))"

definition timer_get_ticks :: "timer_state \<Rightarrow> u64" where
  "timer_get_ticks t = timer_ticks t"

definition timer_register_callback :: "nat option \<Rightarrow> timer_state \<Rightarrow> timer_state" where
  "timer_register_callback f t = t\<lparr>timer_callback := f\<rparr>"

definition timer_get_uptime_ms :: "timer_state \<Rightarrow> u64" where
  "timer_get_uptime_ms t = timer_ticks t * 10"

text \<open>
  The loop around \<open>hlt\<close>: the processor wakes up with an interrupt, and \<open>wake n\<close> says whether the
  \<open>n\<close>-th one from now is a timer interrupt, whose handler runs before the loop goes on.
\<close>

partial_function (option) sleep_loop :: "(nat \<Rightarrow> bool) \<Rightarrow> u64 \<Rightarrow> nat \<Rightarrow> timer_state \<Rightarrow> (nat \<times> timer_state) option" where
  "sleep_loop wake target n t =
     (if timer_ticks t < target
      then sleep_loop wake target (Suc n) (if wake n then timer_interrupt_handler t else t)
      else Some (n, t))"

definition timer_sleep :: "(nat \<Rightarrow> bool) \<Rightarrow> u32 \<Rightarrow> timer_state \<Rightarrow> (nat \<times> timer_state) option" where
  "timer_sleep wake ms t = sleep_loop wake (timer_ticks t + ucast (ms div 10)) 0 t"

section \<open>Sleeping\<close>

text \<open>The timer interrupts among the wake-ups from \<open>n\<close> up to \<open>m\<close>.\<close>

definition ticks_between :: "(nat \<Rightarrow> bool) \<Rightarrow> nat \<Rightarrow> nat \<Rightarrow> nat" where
  "ticks_between wake n m = card {i. n \<le> i \<and> i < m \<and> wake i}"

lemma ticks_between_step:
  "n < m \<Longrightarrow> ticks_between wake n m = (if wake n then 1 else 0) + ticks_between wake (Suc n) m"
proof -
  assume "n < m"
  then have "{i. n \<le> i \<and> i < m \<and> wake i} = (if wake n then {n} else {}) \<union> {i. Suc n \<le> i \<and> i < m \<and> wake i}"
    by (auto simp: le_less Suc_le_eq)
  moreover have "finite {i. Suc n \<le> i \<and> i < m \<and> wake i}" by simp
  ultimately show ?thesis by (auto simp: ticks_between_def card_insert_if)
qed

lemma timer_handler_ticks [simp]: "timer_ticks (timer_interrupt_handler t) = timer_ticks t + 1"
  "timer_callback (timer_interrupt_handler t) = timer_callback t"
  by (auto simp: timer_interrupt_handler_def Let_def split: option.splits)

text \<open>
  With infinitely many timer interrupts the loop ends, after exactly the interrupts it waits for.
\<close>

lemma sleep_loop_returns:
  assumes "\<forall>n. \<exists>i \<ge> n. wake i" and "unat (timer_ticks t) + k = unat target"
  shows "\<exists>m t'. sleep_loop wake target n t = Some (m, t') \<and> n \<le> m \<and> ticks_between wake n m = k
    \<and> timer_ticks t' = target"
  using assms(2)
proof (induction k arbitrary: n t)
  case 0
  then have "timer_ticks t = target" by (simp add: word_unat_eq_iff)
  then show ?case by (subst sleep_loop.simps) (simp add: ticks_between_def)
next
  case (Suc k)
  have lt: "timer_ticks t < target" using Suc.prems by (simp add: word_less_nat_alt)
  have unat: "unat (timer_ticks t + 1) = Suc (unat (timer_ticks t))"
    using Suc.prems unat_lt_u64 [of target] by (simp add: unat_word_ariths)
  obtain d where d: "wake (n + d)" "\<forall>i < n + d. n \<le> i \<longrightarrow> \<not> wake i"
  proof -
    obtain i where i: "n \<le> i" "wake i" using assms(1) by blast
    define j where "j = (LEAST i. n \<le> i \<and> wake i)"
    have "n \<le> j \<and> wake j" unfolding j_def by (rule LeastI [of _ i]) (use i in simp)
    moreover have "\<not> wake i" if "i < j" "n \<le> i" for i
      using not_less_Least [of i "\<lambda>i. n \<le> i \<and> wake i"] that unfolding j_def by blast
    ultimately show ?thesis using that [of "j - n"] by simp
  qed
  from d show ?case
  proof (induction d arbitrary: n)
    case 0
    have "unat (timer_ticks (timer_interrupt_handler t)) + k = unat target" using unat Suc.prems by simp
    from Suc.IH [OF this, of "Suc n"] obtain m t' where
      m: "sleep_loop wake target (Suc n) (timer_interrupt_handler t) = Some (m, t')" "Suc n \<le> m"
        "ticks_between wake (Suc n) m = k" "timer_ticks t' = target" by blast
    then show ?case using 0 lt
      by (subst sleep_loop.simps) (auto simp: ticks_between_step)
  next
    case (Suc d)
    then have "\<not> wake n" by simp
    from Suc.IH [of "Suc n"] Suc.prems obtain m t' where
      m: "sleep_loop wake target (Suc n) t = Some (m, t')" "Suc n \<le> m"
        "ticks_between wake (Suc n) m = Suc k" "timer_ticks t' = target" by auto
    then show ?case using \<open>\<not> wake n\<close> lt
      by (subst sleep_loop.simps) (auto simp: ticks_between_step)
  qed
qed

section \<open>Properties\<close>

text \<open>The value that the timer counts down from: two bytes, low byte first.\<close>

definition reload_value :: "u8 list \<Rightarrow> nat" where
  "reload_value bs = (case bs of [lo, hi] \<Rightarrow> unat lo + 256 * unat hi | _ \<Rightarrow> 0)"

lemma divisor_bytes:
  "unat (ucast (d AND 0xFF) :: u8) + 256 * unat (ucast (drop_bit 8 (d :: u32) AND 0xFF) :: u8) = unat d mod 2 ^ 16"
proof -
  have m: "(0xFF :: u32) = mask 8" by (simp add: mask_eq_exp_minus_1)
  have lo: "unat (ucast (d AND 0xFF) :: u8) = unat d mod 256"
    unfolding m by (simp only: unat_ucast_mod unat_and_mask) simp
  have hi: "unat (ucast (drop_bit 8 d AND 0xFF) :: u8) = unat d div 256 mod 256"
    unfolding m by (simp only: unat_ucast_mod unat_and_mask unat_drop_bit) simp
  have "unat d mod (256 * 256) = 256 * (unat d div 256 mod 256) + unat d mod 256"
    by (rule mod_mult2_eq)
  then show ?thesis using lo hi by simp
qed

lemma timer_set_frequency_divisor:
  assumes "f \<noteq> 0"
  shows "\<exists>tr' lo hi. timer_set_frequency f tr = Some tr'
    \<and> bytes_out PIT_CHANNEL0 tr' = bytes_out PIT_CHANNEL0 tr @ [lo, hi]
    \<and> bytes_out PIT_COMMAND tr' = bytes_out PIT_COMMAND tr @ [0x36]
    \<and> reload_value [lo, hi] = 1193182 div unat f mod 2 ^ 16"
  using assms divisor_bytes [of "PIT_FREQUENCY div f"]
  by (simp add: timer_set_frequency_def outb_def Let_def PIT_COMMAND_def PIT_CHANNEL0_def reload_value_def
      unat_div PIT_FREQUENCY_def)

text \<open>
  \<^bold>\<open>C30\<close>. For a frequency from 19 Hz up to the base frequency the timer is programmed, low byte first,
  with the quotient of the two; frequency 0 faults. With timer interrupts that keep coming,
  \<open>timer_sleep\<close> returns: after exactly one tick for every ten milliseconds, whatever other interrupts
  wake the processor in between, and the uptime has advanced by ten milliseconds a tick. No rate but
  100 Hz makes these real milliseconds.
\<close>

theorem timer_rate_and_sleep:
  assumes "\<forall>n. \<exists>i \<ge> n. wake i" and "unat (timer_ticks t) + unat ms div 10 < 2 ^ 64"
    and "19 \<le> f" and "f \<le> PIT_FREQUENCY"
  shows "timer_set_frequency 0 tr = None
    \<and> (\<exists>tr' lo hi. timer_set_frequency f tr = Some tr'
         \<and> bytes_out PIT_COMMAND tr' = bytes_out PIT_COMMAND tr @ [0x36]
         \<and> bytes_out PIT_CHANNEL0 tr' = bytes_out PIT_CHANNEL0 tr @ [lo, hi]
         \<and> reload_value [lo, hi] = unat PIT_FREQUENCY div unat f \<and> 0 < reload_value [lo, hi])
    \<and> (\<exists>m t'. timer_sleep wake ms t = Some (m, t') \<and> ticks_between wake 0 m = unat ms div 10
         \<and> timer_get_uptime_ms t' = timer_get_uptime_ms t + 10 * of_nat (unat ms div 10))"
proof (intro conjI)
  show "timer_set_frequency 0 tr = None" by (simp add: timer_set_frequency_def)
  have f: "19 \<le> unat f" "unat f \<le> 1193182"
    using assms(3,4) by (simp_all add: word_le_nat_alt PIT_FREQUENCY_def)
  have q: "1193182 div unat f \<le> 1193182 div 19" using f by (intro div_le_mono2) simp_all
  have q0: "0 < 1193182 div unat f" using f by (simp add: div_greater_zero_iff)
  have "f \<noteq> 0" using f by auto
  from timer_set_frequency_divisor [OF this, of tr] q q0
  show "\<exists>tr' lo hi. timer_set_frequency f tr = Some tr'
         \<and> bytes_out PIT_COMMAND tr' = bytes_out PIT_COMMAND tr @ [0x36]
         \<and> bytes_out PIT_CHANNEL0 tr' = bytes_out PIT_CHANNEL0 tr @ [lo, hi]
         \<and> reload_value [lo, hi] = unat PIT_FREQUENCY div unat f \<and> 0 < reload_value [lo, hi]"
    by (auto simp: PIT_FREQUENCY_def)
  define target where "target = timer_ticks t + ucast (ms div 10)"
  have u: "unat (ucast (ms div 10) :: u64) = unat ms div 10"
    using unsigned_less [where 'b = 32 and w = ms and 'a = nat] by (simp add: unat_ucast_mod unat_div)
  have "unat (timer_ticks t) + unat ms div 10 = unat target"
    using assms(2) u by (simp add: target_def unat_word_ariths)
  from sleep_loop_returns [OF assms(1) this, of 0] obtain m t' where
    m: "timer_sleep wake ms t = Some (m, t')" "ticks_between wake 0 m = unat ms div 10" "timer_ticks t' = target"
    by (auto simp: timer_sleep_def target_def)
  have "(ucast (ms div 10) :: u64) = of_nat (unat ms div 10)" by (simp only: u [symmetric] of_nat_unat ucast_id)
  with m show "\<exists>m t'. timer_sleep wake ms t = Some (m, t') \<and> ticks_between wake 0 m = unat ms div 10
         \<and> timer_get_uptime_ms t' = timer_get_uptime_ms t + 10 * of_nat (unat ms div 10)"
    by (intro exI [of _ m] exI [of _ t']) (simp add: timer_get_uptime_ms_def target_def algebra_simps)
qed

theorem timer_rate_and_sleep_witness:
  "(\<exists>m t'. timer_sleep (\<lambda>n. even n) 50 timer_boot = Some (m, t') \<and> ticks_between (\<lambda>n. even n) 0 m = 5
     \<and> timer_get_uptime_ms t' = 50)
   \<and> (\<exists>tr' lo hi. timer_set_frequency 100 [] = Some tr' \<and> bytes_out PIT_CHANNEL0 tr' = [lo, hi]
     \<and> reload_value [lo, hi] = 11931)"
proof -
  have "\<forall>n :: nat. \<exists>i \<ge> n. even i" by (metis even_Suc le_refl le_SucI)
  then show ?thesis
    using timer_rate_and_sleep [of "\<lambda>n. even n" timer_boot 50 100 "[]"]
    by (auto simp: timer_boot_def timer_get_uptime_ms_def PIT_FREQUENCY_def)
qed

end
