(* ===== verification/Scheduler.thy ===== *)
theory Scheduler
  imports VMM Timer
begin

text \<open>
  The scheduler, \<open>src/kernel/src/core/exec/scheduler.c\<close>, but for the creation of tasks (theory Task_Create). A pointer to a
  task is an index of the task table, \<open>None\<close> is the null pointer. The machine has one processor, and a
  task that waits for a lock cannot be overtaken by its holder: a lock that is taken is never
  released while somebody spins on it.
\<close>

section \<open>Data\<close>

datatype task_state_t =
    TASK_STATE_NEW | TASK_STATE_READY | TASK_STATE_RUNNING | TASK_STATE_BLOCKED | TASK_STATE_TERMINATED

datatype task_priority_t =
    TASK_PRIORITY_IDLE | TASK_PRIORITY_LOW | TASK_PRIORITY_NORMAL | TASK_PRIORITY_HIGH | TASK_PRIORITY_REALTIME

definition TASK_MAX_COUNT :: nat where "TASK_MAX_COUNT = 256"
definition DEFAULT_TIME_QUANTUM :: u64 where "DEFAULT_TIME_QUANTUM = 20"

text \<open>
  The processor context a task starts with. Later it is only touched by the assembly routines, whose
  calls the model records as events.
\<close>

record cpu_context_t =
  rax :: u64  rbx :: u64  rcx :: u64  rdx :: u64
  rsi :: u64  rdi :: u64  rbp :: u64  rsp :: u64
  r8 :: u64  r9 :: u64  r10 :: u64  r11 :: u64
  r12 :: u64  r13 :: u64  r14 :: u64  r15 :: u64
  rip :: u64  rflags :: u64
  reg_cs :: u64  reg_ss :: u64  reg_ds :: u64  reg_es :: u64  reg_fs :: u64  reg_gs :: u64
  ctx_cr3 :: u64

definition zero_context :: cpu_context_t where
  "zero_context = \<lparr>rax = 0, rbx = 0, rcx = 0, rdx = 0, rsi = 0, rdi = 0, rbp = 0, rsp = 0, r8 = 0, r9 = 0,
     r10 = 0, r11 = 0, r12 = 0, r13 = 0, r14 = 0, r15 = 0, rip = 0, rflags = 0, reg_cs = 0, reg_ss = 0,
     reg_ds = 0, reg_es = 0, reg_fs = 0, reg_gs = 0, ctx_cr3 = 0\<rparr>"

record task =
  tid :: u32
  task_name :: string
  state :: task_state_t
  base_priority :: task_priority_t
  dynamic_priority :: task_priority_t
  quantum :: u64
  cpu_time :: u64
  last_schedule :: u64
  start_time :: u64
  exit_code :: u32
  task_context :: cpu_context_t
  page_table :: u64
  stack_top :: u64
  stack_size :: u64
  argc :: u32
  argv :: u64
  envp :: u64
  next_task :: "nat option"
  prev_task :: "nat option"

record scheduler_config_t =
  max_tasks :: u32
  default_time_quantum :: u64
  tick_rate :: u64
  preemption_enabled :: bool
  kernel_stack_size :: u64
  user_stack_size :: u64

record scheduler_stats_t =
  total_tasks_created :: u64
  ticks_since_boot :: u64
  current_task_count :: u32

record sched_state =
  task_table :: "task list"
  next_tid :: u32
  current_task :: "nat option"
  idle_task :: "nat option"
  ready_queue_head :: "nat option"
  ready_queue_tail :: "nat option"
  blocked_queue_head :: "nat option"
  task_lock :: bool
  scheduler_stats :: scheduler_stats_t
  interrupts_on :: bool
  switches :: "(nat option \<times> nat) list"
  vm :: vmm_state

definition scheduler_config :: scheduler_config_t where
  "scheduler_config = \<lparr>max_tasks = of_nat TASK_MAX_COUNT, default_time_quantum = DEFAULT_TIME_QUANTUM,
     tick_rate = 1000, preemption_enabled = True, kernel_stack_size = 16384, user_stack_size = 65536\<rparr>"

text \<open>A task of zero bytes.\<close>

definition zero_task :: task where
  "zero_task = \<lparr>tid = 0, task_name = [], state = TASK_STATE_NEW, base_priority = TASK_PRIORITY_IDLE,
     dynamic_priority = TASK_PRIORITY_IDLE, quantum = 0, cpu_time = 0, last_schedule = 0, start_time = 0,
     exit_code = 0, task_context = zero_context, page_table = 0, stack_top = 0, stack_size = 0, argc = 0, argv = 0,
     envp = 0, next_task = None, prev_task = None\<rparr>"

text \<open>
  How a call ends: it returns a value, the processor continues in another task and the rest of the
  call waits until that task's time is over, or the processor spins on the lock for ever.
\<close>

datatype 'a outcome = Returns 'a sched_state | Switches sched_state | Deadlock

section \<open>Accesses\<close>

definition upd :: "nat \<Rightarrow> (task \<Rightarrow> task) \<Rightarrow> sched_state \<Rightarrow> sched_state" where
  "upd i f s = s\<lparr>task_table := (task_table s)[i := f (task_table s ! i)]\<rparr>"

abbreviation tsk :: "sched_state \<Rightarrow> nat \<Rightarrow> task" where
  "tsk s i \<equiv> task_table s ! i"

text \<open>\<open>None\<close> is the loop that never ends.\<close>

definition spinlock_acquire :: "sched_state \<Rightarrow> sched_state option" where
  "spinlock_acquire s = (if task_lock s then None else Some (s\<lparr>task_lock := True\<rparr>))"

definition spinlock_release :: "sched_state \<Rightarrow> sched_state" where
  "spinlock_release s = s\<lparr>task_lock := False\<rparr>"

section \<open>Queues\<close>

definition add_to_ready_queue :: "nat option \<Rightarrow> sched_state \<Rightarrow> sched_state" where
  "add_to_ready_queue task s =
     (case task of
        None \<Rightarrow> s
      | Some t \<Rightarrow>
          (let s = upd t (next_task_update (\<lambda>_. None)) s;
               s = (case ready_queue_head s of
                      None \<Rightarrow> upd t (prev_task_update (\<lambda>_. None)) (s\<lparr>ready_queue_head := Some t, ready_queue_tail := Some t\<rparr>)
                    | Some _ \<Rightarrow>
                        (let s = upd (the (ready_queue_tail s)) (next_task_update (\<lambda>_. Some t)) s;
                             s = upd t (prev_task_update (\<lambda>_. ready_queue_tail s)) s
                         in s\<lparr>ready_queue_tail := Some t\<rparr>))
           in upd t (state_update (\<lambda>_. TASK_STATE_READY)) s))"

definition remove_from_ready_queue :: "nat option \<Rightarrow> sched_state \<Rightarrow> sched_state" where
  "remove_from_ready_queue task s =
     (case task of
        None \<Rightarrow> s
      | Some t \<Rightarrow>
          (let s = (if Some t = ready_queue_head s then
                      (let s = s\<lparr>ready_queue_head := next_task (tsk s t)\<rparr>
                       in case ready_queue_head s of
                            Some h \<Rightarrow> upd h (prev_task_update (\<lambda>_. None)) s
                          | None \<Rightarrow> s\<lparr>ready_queue_tail := None\<rparr>)
                    else if Some t = ready_queue_tail s then
                      (let s = s\<lparr>ready_queue_tail := prev_task (tsk s t)\<rparr>
                       in case ready_queue_tail s of
                            Some l \<Rightarrow> upd l (next_task_update (\<lambda>_. None)) s
                          | None \<Rightarrow> s\<lparr>ready_queue_head := None\<rparr>)
                    else
                      (let s = (case prev_task (tsk s t) of
                                  Some p \<Rightarrow> upd p (next_task_update (\<lambda>_. next_task (tsk s t))) s
                                | None \<Rightarrow> s)
                       in case next_task (tsk s t) of
                            Some n \<Rightarrow> upd n (prev_task_update (\<lambda>_. prev_task (tsk s t))) s
                          | None \<Rightarrow> s))
           in upd t (prev_task_update (\<lambda>_. None)) (upd t (next_task_update (\<lambda>_. None)) s)))"

definition add_to_blocked_queue :: "nat option \<Rightarrow> sched_state \<Rightarrow> sched_state" where
  "add_to_blocked_queue task s =
     (case task of
        None \<Rightarrow> s
      | Some t \<Rightarrow>
          upd t (state_update (\<lambda>_. TASK_STATE_BLOCKED))
            ((upd t (next_task_update (\<lambda>_. blocked_queue_head s)) s)\<lparr>blocked_queue_head := Some t\<rparr>))"

text \<open>The walk of the blocked queue; on a list with a cycle it would not end, which is \<open>None\<close>.\<close>

partial_function (option) unlink_blocked :: "nat \<Rightarrow> nat option \<Rightarrow> nat option \<Rightarrow> sched_state \<Rightarrow> sched_state option" where
  "unlink_blocked t current prev s =
     (case current of
        None \<Rightarrow> Some s
      | Some c \<Rightarrow>
          if c = t
          then (let s = (case prev of
                           Some p \<Rightarrow> upd p (next_task_update (\<lambda>_. next_task (tsk s c))) s
                         | None \<Rightarrow> s\<lparr>blocked_queue_head := next_task (tsk s c)\<rparr>)
                in Some (upd t (next_task_update (\<lambda>_. None)) s))
          else unlink_blocked t (next_task (tsk s c)) (Some c) s)"

definition remove_from_blocked_queue :: "nat option \<Rightarrow> sched_state \<Rightarrow> sched_state option" where
  "remove_from_blocked_queue task s =
     (case task of None \<Rightarrow> Some s | Some t \<Rightarrow> unlink_blocked t (blocked_queue_head s) None s)"

section \<open>Switching\<close>

definition context_switch :: "nat option \<Rightarrow> sched_state \<Rightarrow> unit outcome" where
  "context_switch nxt s =
     (if nxt = None \<or> nxt = current_task s then Returns () s
      else let n = the nxt;
               prev = current_task s;
               s = s\<lparr>current_task := Some n\<rparr>;
               s = (case prev of
                      Some p \<Rightarrow> if state (tsk s p) = TASK_STATE_RUNNING
                                then upd p (state_update (\<lambda>_. TASK_STATE_READY)) s else s
                    | None \<Rightarrow> s);
               s = upd n (state_update (\<lambda>_. TASK_STATE_RUNNING)) s;
               s = upd n (last_schedule_update (\<lambda>_. cpu_time (tsk s n))) s;
               s = s\<lparr>vm := vmm_switch_address_space (page_table (tsk s n)) (vm s)\<rparr>
           in Switches (s\<lparr>switches := switches s @ [(prev, n)]\<rparr>))"

text \<open>The head of the ready queue, which is taken out of it.\<close>

definition pop_ready_queue :: "sched_state \<Rightarrow> nat option \<times> sched_state" where
  "pop_ready_queue s =
     (case ready_queue_head s of
        Some n \<Rightarrow>
          (let s = s\<lparr>ready_queue_head := next_task (tsk s n)\<rparr>;
               s = (case ready_queue_head s of
                      Some h \<Rightarrow> upd h (prev_task_update (\<lambda>_. None)) s
                    | None \<Rightarrow> s\<lparr>ready_queue_tail := None\<rparr>);
               s = upd n (next_task_update (\<lambda>_. None)) s;
               s = upd n (prev_task_update (\<lambda>_. None)) s
           in (Some n, s))
      | None \<Rightarrow> (None, s))"

definition schedule_next :: "sched_state \<Rightarrow> unit outcome" where
  "schedule_next s =
     (let s = s\<lparr>interrupts_on := False\<rparr>;
          (nxt, s) = pop_ready_queue s;
          nxt = (case nxt of Some n \<Rightarrow> Some n | None \<Rightarrow> idle_task s)
      in case nxt of
           Some n \<Rightarrow> context_switch (Some n) s
         | None \<Rightarrow> Returns () s)"

definition timer_callback :: "u64 \<Rightarrow> sched_state \<Rightarrow> unit outcome" where
  "timer_callback tick_count s =
     (let s = s\<lparr>scheduler_stats := (scheduler_stats s)\<lparr>ticks_since_boot := ticks_since_boot (scheduler_stats s) + 1\<rparr>\<rparr>
      in case current_task s of
           Some c \<Rightarrow>
             if state (tsk s c) = TASK_STATE_RUNNING
             then (let s = upd c (cpu_time_update (\<lambda>t. t + 1)) s
                   in if quantum (tsk s c) \<le> cpu_time (tsk s c) - last_schedule (tsk s c)
                      then case spinlock_acquire s of
                             None \<Rightarrow> Deadlock
                           | Some s \<Rightarrow>
                               (let s = (if current_task s \<noteq> idle_task s
                                         then add_to_ready_queue (Some c) (upd c (state_update (\<lambda>_. TASK_STATE_READY)) s)
                                         else s)
                                in schedule_next (spinlock_release s))
                      else Returns () s)
             else schedule_next s
         | None \<Rightarrow> schedule_next s)"

section \<open>Operations of the scheduler\<close>

definition scheduler_get_current_task :: "sched_state \<Rightarrow> nat option" where
  "scheduler_get_current_task s = current_task s"

text \<open>The first index with the task identifier, from \<open>i\<close> on.\<close>

function find_tid :: "task list \<Rightarrow> u32 \<Rightarrow> nat \<Rightarrow> nat option" where
  "find_tid table t i =
     (if i < length table then (if tid (table ! i) = t then Some i else find_tid table t (Suc i)) else None)"
  by auto
termination by (relation "measure (\<lambda>(table, _, i). length table - i)") auto

declare find_tid.simps [simp del]

definition scheduler_get_task_by_id :: "u32 \<Rightarrow> sched_state \<Rightarrow> nat option outcome" where
  "scheduler_get_task_by_id t s =
     (case spinlock_acquire s of
        None \<Rightarrow> Deadlock
      | Some s \<Rightarrow> Returns (find_tid (task_table s) t 0) (spinlock_release s))"

definition free_task_resources :: "nat option \<Rightarrow> sched_state \<Rightarrow> sched_state" where
  "free_task_resources task s =
     (case task of
        None \<Rightarrow> s
      | Some t \<Rightarrow>
          (let s = (if page_table (tsk s t) \<noteq> 0
                    then upd t (page_table_update (\<lambda>_. 0)) (s\<lparr>vm := vmm_delete_address_space (page_table (tsk s t)) (vm s)\<rparr>)
                    else s)
           in if stack_top (tsk s t) \<noteq> 0
              then upd t (stack_top_update (\<lambda>_. 0))
                (s\<lparr>vm := (vm s)\<lparr>pmm := pmm_free_pages (stack_top (tsk s t)) (stack_size (tsk s t) div PAGE_SIZE_4K) (pmm (vm s))\<rparr>\<rparr>)
              else s))"

definition scheduler_execute_task :: "u32 \<Rightarrow> u32 \<Rightarrow> u64 \<Rightarrow> u64 \<Rightarrow> sched_state \<Rightarrow> bool outcome" where
  "scheduler_execute_task t ac av ev s =
     (case spinlock_acquire s of
        None \<Rightarrow> Deadlock
      | Some s \<Rightarrow>
          (case scheduler_get_task_by_id t s of
             Deadlock \<Rightarrow> Deadlock
           | Switches s \<Rightarrow> Switches s
           | Returns None s \<Rightarrow> Returns False (spinlock_release s)
           | Returns (Some i) s \<Rightarrow>
               if state (tsk s i) \<noteq> TASK_STATE_READY then Returns False (spinlock_release s)
               else let s = upd i (\<lambda>x. x\<lparr>argc := ac, argv := av, envp := ev\<rparr>) s
                    in case context_switch (Some i) s of
                         Returns _ s \<Rightarrow> Returns True (spinlock_release s)
                       | Switches s \<Rightarrow> Switches s
                       | Deadlock \<Rightarrow> Deadlock))"

definition scheduler_yield :: "sched_state \<Rightarrow> unit outcome" where
  "scheduler_yield s =
     (case spinlock_acquire s of
        None \<Rightarrow> Deadlock
      | Some s \<Rightarrow>
          (let s = (case current_task s of
                      Some c \<Rightarrow> if state (tsk s c) = TASK_STATE_RUNNING
                                then add_to_ready_queue (Some c) (upd c (state_update (\<lambda>_. TASK_STATE_READY)) s)
                                else s
                    | None \<Rightarrow> s)
           in case schedule_next s of
                Returns _ s \<Rightarrow> Returns () (spinlock_release s)
              | Switches s \<Rightarrow> Switches s
              | Deadlock \<Rightarrow> Deadlock))"

definition scheduler_terminate_task :: "u32 \<Rightarrow> u32 \<Rightarrow> sched_state \<Rightarrow> bool outcome" where
  "scheduler_terminate_task t code s =
     (case spinlock_acquire s of
        None \<Rightarrow> Deadlock
      | Some s \<Rightarrow>
          (case scheduler_get_task_by_id t s of
             Deadlock \<Rightarrow> Deadlock
           | Switches s \<Rightarrow> Switches s
           | Returns None s \<Rightarrow> Returns False (spinlock_release s)
           | Returns (Some i) s \<Rightarrow>
               if state (tsk s i) = TASK_STATE_TERMINATED then Returns False (spinlock_release s)
               else let s = upd i (\<lambda>x. x\<lparr>state := TASK_STATE_TERMINATED, exit_code := code\<rparr>) s
                    in case (if state (tsk s i) = TASK_STATE_READY then Some (remove_from_ready_queue (Some i) s)
                             else if state (tsk s i) = TASK_STATE_BLOCKED then remove_from_blocked_queue (Some i) s
                             else Some s) of
                         None \<Rightarrow> Deadlock
                       | Some s \<Rightarrow>
                           (let s = free_task_resources (Some i) s;
                                s = s\<lparr>scheduler_stats := (scheduler_stats s)
                                      \<lparr>current_task_count := current_task_count (scheduler_stats s) - 1\<rparr>\<rparr>
                            in Returns True (spinlock_release s))))"

definition allocate_tid :: "sched_state \<Rightarrow> u32 \<times> sched_state" where
  "allocate_tid s =
     (let t = next_tid s;
          s = s\<lparr>next_tid := next_tid s + 1\<rparr>
      in (t, if next_tid s = 0 then s\<lparr>next_tid := 1\<rparr> else s))"

text \<open>
  The number that stands for the callback of the scheduler, and the initialisation with the driver
  of the timer; a fault there is \<open>None\<close>.
\<close>

definition scheduler_callback :: nat where "scheduler_callback = 0"

definition init_idle :: "sched_state \<Rightarrow> sched_state" where
  "init_idle s =
     (let s = s\<lparr>idle_task := Some 0\<rparr>;
          s = upd 0 (\<lambda>_. zero_task) s;
          s = upd 0 (\<lambda>x. x\<lparr>tid := 0, state := TASK_STATE_READY, task_name := ''idle_task''\<rparr>) s;
          s = upd 0 (\<lambda>x. x\<lparr>task_context := (task_context x)\<lparr>ctx_cr3 := vmm_get_current_address_space (vm s)\<rparr>\<rparr>) s;
          s = upd 0 (\<lambda>x. x\<lparr>quantum := 0xFFFFFFFFFFFFFFFF, base_priority := TASK_PRIORITY_IDLE,
                dynamic_priority := TASK_PRIORITY_IDLE\<rparr>) s
      in s\<lparr>current_task := Some 0\<rparr>)"

definition scheduler_init :: "device \<Rightarrow> timer_state \<times> idt_state \<times> pic_state \<times> sched_state
    \<Rightarrow> (bool \<times> timer_state \<times> idt_state \<times> pic_state \<times> sched_state) option" where
  "scheduler_init dev st =
     (let (t, i, p, s) = st;
          s = s\<lparr>task_table := replicate TASK_MAX_COUNT zero_task\<rparr>;
          s = s\<lparr>task_lock := False\<rparr>;
          t = timer_register_callback (Some scheduler_callback) t
      in case timer_init dev (ucast (tick_rate scheduler_config)) (i, p) of
           None \<Rightarrow> None
         | Some (i, p) \<Rightarrow> Some (True, t, i, p, init_idle s))"

end
