(* ===== verification/Ready_Queue.thy ===== *)
theory Ready_Queue
  imports Scheduler
begin

text \<open>
  The ready queue of the scheduler is a doubly linked list through the task table. It refines a
  first-in first-out queue without duplicates.
\<close>

section \<open>The contract of a queue\<close>

datatype 'a queue_op = Add 'a | Remove 'a | Pop

text \<open>A sequence of operations on a list, and on a representation; the elements that were popped.\<close>

fun spec_run :: "'a queue_op list \<Rightarrow> 'a list \<Rightarrow> 'a option list \<times> 'a list" where
  "spec_run [] xs = ([], xs)"
| "spec_run (Add x # ops) xs = spec_run ops (xs @ [x])"
| "spec_run (Remove x # ops) xs = spec_run ops (remove1 x xs)"
| "spec_run (Pop # ops) xs =
     (let (os, ys) = spec_run ops (tl xs) in ((if xs = [] then None else Some (hd xs)) # os, ys))"

fun impl_run :: "('a \<Rightarrow> 's \<Rightarrow> 's) \<Rightarrow> ('a \<Rightarrow> 's \<Rightarrow> 's) \<Rightarrow> ('s \<Rightarrow> 'a option \<times> 's) \<Rightarrow> 'a queue_op list \<Rightarrow> 's
    \<Rightarrow> 'a option list \<times> 's" where
  "impl_run add rem pop [] s = ([], s)"
| "impl_run add rem pop (Add x # ops) s = impl_run add rem pop ops (add x s)"
| "impl_run add rem pop (Remove x # ops) s = impl_run add rem pop ops (rem x s)"
| "impl_run add rem pop (Pop # ops) s =
     (let (o1, s1) = pop s; (os, s2) = impl_run add rem pop ops s1 in (o1 # os, s2))"

text \<open>An element is added when it is not in the queue, and removed when it is.\<close>

fun legal :: "('a \<Rightarrow> bool) \<Rightarrow> 'a queue_op list \<Rightarrow> 'a list \<Rightarrow> bool" where
  "legal ok [] xs = True"
| "legal ok (Add x # ops) xs = (ok x \<and> x \<notin> set xs \<and> legal ok ops (xs @ [x]))"
| "legal ok (Remove x # ops) xs = (x \<in> set xs \<and> legal ok ops (remove1 x xs))"
| "legal ok (Pop # ops) xs = legal ok ops (tl xs)"

locale fifo_queue =
  fixes rep :: "'s \<Rightarrow> 'a list \<Rightarrow> bool" and ok :: "'s \<Rightarrow> 'a \<Rightarrow> bool"
    and add :: "'a \<Rightarrow> 's \<Rightarrow> 's" and rem :: "'a \<Rightarrow> 's \<Rightarrow> 's" and pop :: "'s \<Rightarrow> 'a option \<times> 's"
  assumes add_rep: "rep s xs \<Longrightarrow> ok s x \<Longrightarrow> x \<notin> set xs \<Longrightarrow> rep (add x s) (xs @ [x])"
    and rem_rep: "rep s xs \<Longrightarrow> x \<in> set xs \<Longrightarrow> rep (rem x s) (remove1 x xs)"
    and pop_rep: "rep s xs \<Longrightarrow> fst (pop s) = (if xs = [] then None else Some (hd xs)) \<and> rep (snd (pop s)) (tl xs)"
    and ok_stable: "ok (add y s) x = ok s x" "ok (rem y s) x = ok s x" "ok (snd (pop s)) x = ok s x"
begin

lemma run_refines:
  assumes "rep s xs" and "legal (ok s) ops xs"
  shows "fst (impl_run add rem pop ops s) = fst (spec_run ops xs)
    \<and> rep (snd (impl_run add rem pop ops s)) (snd (spec_run ops xs))"
  using assms
proof (induction ops arbitrary: s xs)
  case (Cons a ops)
  show ?case
  proof (cases a)
    case (Add x)
    then show ?thesis using Cons.IH [of "add x s" "xs @ [x]"] Cons.prems
      by (auto simp: add_rep ok_stable(1) [abs_def])
  next
    case (Remove x)
    then show ?thesis using Cons.IH [of "rem x s" "remove1 x xs"] Cons.prems
      by (auto simp: rem_rep ok_stable(2) [abs_def])
  next
    case Pop
    then show ?thesis using Cons.IH [of "snd (pop s)" "tl xs"] Cons.prems pop_rep [OF Cons.prems(1)]
      by (auto simp: ok_stable(3) [abs_def] case_prod_unfold Let_def)
  qed
qed simp

end

section \<open>Linked lists in the task table\<close>

definition nxt :: "nat list \<Rightarrow> nat option \<Rightarrow> nat option" where
  "nxt xs q = (case xs of [] \<Rightarrow> q | y # _ \<Rightarrow> Some y)"

definition lst :: "nat option \<Rightarrow> nat list \<Rightarrow> nat option" where
  "lst p xs = (if xs = [] then p else Some (last xs))"

lemma nxt_simps [simp]: "nxt [] q = q" "nxt (x # xs) q = Some x" "nxt (xs @ ys) q = nxt xs (nxt ys q)"
  by (simp_all add: nxt_def split: list.splits)

lemma lst_simps [simp]: "lst p [] = p" "lst p (xs @ [x]) = Some x" "lst p (x # xs) = lst (Some x) xs"
  "lst p (xs @ ys) = lst (lst p xs) ys"
  by (simp_all add: lst_def)

text \<open>
  The tasks of a list are linked in its order; \<open>p\<close> is the predecessor of the first one and \<open>q\<close> the
  successor of the last one.
\<close>

fun dll :: "task list \<Rightarrow> nat option \<Rightarrow> nat list \<Rightarrow> nat option \<Rightarrow> bool" where
  "dll T p [] q = True"
| "dll T p (x # xs) q \<longleftrightarrow> x < length T \<and> prev_task (T ! x) = p \<and> next_task (T ! x) = nxt xs q \<and> dll T (Some x) xs q"

lemma dll_append [simp]: "dll T p (xs @ ys) q \<longleftrightarrow> dll T p xs (nxt ys q) \<and> dll T (lst p xs) ys q"
  by (induction xs arbitrary: p) auto

lemma dll_cong:
  assumes "length T' = length T"
    and "\<And>x. x \<in> set xs \<Longrightarrow> next_task (T' ! x) = next_task (T ! x) \<and> prev_task (T' ! x) = prev_task (T ! x)"
  shows "dll T' p xs q = dll T p xs q"
  using assms(2) by (induction xs arbitrary: p) (auto simp: assms(1))

lemma dll_bound: "dll T p xs q \<Longrightarrow> x \<in> set xs \<Longrightarrow> x < length T"
  by (induction xs arbitrary: p) auto


definition queue_rep :: "sched_state \<Rightarrow> nat list \<Rightarrow> bool" where
  "queue_rep s xs \<longleftrightarrow> distinct xs \<and> dll (task_table s) None xs None
     \<and> ready_queue_head s = nxt xs None \<and> ready_queue_tail s = lst None xs"

lemmas queue_defs = add_to_ready_queue_def remove_from_ready_queue_def pop_ready_queue_def upd_def Let_def

text \<open>What the operations do to one task, and to the variables of the queue.\<close>

lemma tsk_upd: "i < length (task_table s) \<Longrightarrow> tsk (upd i f s) j = (if j = i then f (tsk s i) else tsk s j)"
  by (simp add: upd_def)

lemma upd_fields [simp]:
  "length (task_table (upd i f s)) = length (task_table s)"
  "ready_queue_head (upd i f s) = ready_queue_head s" "ready_queue_tail (upd i f s) = ready_queue_tail s"
  "current_task (upd i f s) = current_task s" "idle_task (upd i f s) = idle_task s"
  "task_lock (upd i f s) = task_lock s" "scheduler_stats (upd i f s) = scheduler_stats s"
  "vm (upd i f s) = vm s" "switches (upd i f s) = switches s"
  by (simp_all add: upd_def)

lemma add_nonempty:
  assumes "ready_queue_head s = Some h" and "ready_queue_tail s = Some l"
    and "t < length (task_table s)" and "l < length (task_table s)" and "t \<noteq> l"
  defines "s' \<equiv> add_to_ready_queue (Some t) s"
  shows "length (task_table s') = length (task_table s)" "ready_queue_head s' = Some h" "ready_queue_tail s' = Some t"
    "tsk s' j = (if j = t then (tsk s t)\<lparr>next_task := None, prev_task := Some l, state := TASK_STATE_READY\<rparr>
       else if j = l then (tsk s l)\<lparr>next_task := Some t\<rparr> else tsk s j)"
  using assms(1-5) by (auto simp: s'_def add_to_ready_queue_def Let_def tsk_upd)

lemma queue_add:
  assumes "queue_rep s xs" and t: "t < length (task_table s)" "t \<notin> set xs"
  shows "queue_rep (add_to_ready_queue (Some t) s) (xs @ [t])"
proof (cases xs rule: rev_cases)
  case Nil
  then show ?thesis using assms by (simp add: queue_rep_def add_to_ready_queue_def Let_def tsk_upd)
next
  case (snoc ys l)
  have d: "distinct (ys @ [l])" "dll (task_table s) None ys (Some l)" "prev_task (tsk s l) = lst None ys"
    "t \<noteq> l" "t \<notin> set ys" "l \<notin> set ys" "l < length (task_table s)"
    using assms snoc by (auto simp: queue_rep_def)
  obtain h where h: "ready_queue_head s = Some h" "ready_queue_tail s = Some l" "Some h = nxt ys (Some l)"
    using assms(1) snoc by (cases ys) (auto simp: queue_rep_def)
  note a = add_nonempty [OF h(1,2) t(1) d(7,4)]
  have "dll (task_table (add_to_ready_queue (Some t) s)) None ys (Some l) = dll (task_table s) None ys (Some l)"
    by (rule dll_cong) (use a d in auto)
  then show ?thesis using a d h t by (simp add: queue_rep_def snoc)
qed

lemma queue_pop:
  assumes "queue_rep s xs"
  shows "fst (pop_ready_queue s) = nxt xs None" "queue_rep (snd (pop_ready_queue s)) (tl xs)"
proof -
  have "fst (pop_ready_queue s) = nxt xs None \<and> queue_rep (snd (pop_ready_queue s)) (tl xs)"
  proof (cases xs)
    case Nil
    then show ?thesis using assms by (simp add: queue_rep_def pop_ready_queue_def)
  next
    case (Cons x ys)
    show ?thesis
    proof (cases ys)
      case Nil
      then show ?thesis using assms Cons by (simp add: queue_rep_def pop_ready_queue_def Let_def)
    next
      case (Cons y zs)
      define s' where "s' = snd (pop_ready_queue s)"
      have r: "distinct (x # y # zs)" "dll (task_table s) None (x # y # zs) None" "ready_queue_head s = Some x"
        "ready_queue_tail s = lst (Some y) zs"
        using assms Cons \<open>xs = x # ys\<close> by (auto simp: queue_rep_def)
      have p: "length (task_table s') = length (task_table s)" "ready_queue_head s' = Some y"
        "ready_queue_tail s' = ready_queue_tail s"
        "\<And>j. tsk s' j = (if j = x then (tsk s x)\<lparr>next_task := None, prev_task := None\<rparr>
           else if j = y then (tsk s y)\<lparr>prev_task := None\<rparr> else tsk s j)"
        using r by (auto simp: s'_def pop_ready_queue_def Let_def tsk_upd)
      have "dll (task_table s') (Some y) zs None = dll (task_table s) (Some y) zs None"
        by (rule dll_cong) (use p r in auto)
      then have "queue_rep s' (y # zs)" using p r by (simp add: queue_rep_def)
      then show ?thesis using r Cons \<open>xs = x # ys\<close> by (simp add: s'_def pop_ready_queue_def Let_def)
    qed
  qed
  then show "fst (pop_ready_queue s) = nxt xs None" "queue_rep (snd (pop_ready_queue s)) (tl xs)" by auto
qed

text \<open>Taking a task out, by its place in the queue.\<close>

lemma queue_remove_head:
  assumes "queue_rep s (t # xs)"
  shows "queue_rep (remove_from_ready_queue (Some t) s) xs"
proof -
  have "remove_from_ready_queue (Some t) s = snd (pop_ready_queue s)"
    using assms by (simp add: queue_rep_def remove_from_ready_queue_def pop_ready_queue_def Let_def)
  then show ?thesis using queue_pop(2) [OF assms] by simp
qed

lemma queue_remove_tail:
  assumes "queue_rep s (ys @ [p, t])"
  shows "queue_rep (remove_from_ready_queue (Some t) s) (ys @ [p])"
proof -
  define s' where "s' = remove_from_ready_queue (Some t) s"
  have r: "distinct (ys @ [p, t])" "dll (task_table s) None ys (Some p)" "prev_task (tsk s p) = lst None ys"
    "prev_task (tsk s t) = Some p" "ready_queue_tail s = Some t" "p < length (task_table s)" "t < length (task_table s)"
    using assms by (auto simp: queue_rep_def)
  have h: "ready_queue_head s = nxt ys (Some p)" using assms by (simp add: queue_rep_def)
  have "ready_queue_head s \<noteq> Some t" using r(1) h by (cases ys) auto
  then have q: "length (task_table s') = length (task_table s)" "ready_queue_head s' = ready_queue_head s"
    "ready_queue_tail s' = Some p"
    "\<And>j. tsk s' j = (if j = t then (tsk s t)\<lparr>next_task := None, prev_task := None\<rparr>
       else if j = p then (tsk s p)\<lparr>next_task := None\<rparr> else tsk s j)"
    using r by (auto simp: s'_def remove_from_ready_queue_def Let_def tsk_upd)
  have "dll (task_table s') None ys (Some p) = dll (task_table s) None ys (Some p)"
    by (rule dll_cong) (use q r in auto)
  then show ?thesis using q r h by (simp add: queue_rep_def s'_def [symmetric])
qed

lemma queue_remove_middle:
  assumes "queue_rep s (ys @ [p, t, n] @ zs)"
  shows "queue_rep (remove_from_ready_queue (Some t) s) (ys @ [p, n] @ zs)"
proof -
  define s' where "s' = remove_from_ready_queue (Some t) s"
  have r: "distinct (ys @ [p, t, n] @ zs)" "dll (task_table s) None ys (Some p)" "prev_task (tsk s p) = lst None ys"
    "prev_task (tsk s t) = Some p" "next_task (tsk s t) = Some n" "next_task (tsk s n) = nxt zs None"
    "dll (task_table s) (Some n) zs None"
    "p < length (task_table s)" "t < length (task_table s)" "n < length (task_table s)"
    using assms by (auto simp: queue_rep_def)
  have h: "ready_queue_head s = nxt ys (Some p)" "ready_queue_tail s = lst (Some n) zs"
    using assms by (simp_all add: queue_rep_def)
  have "ready_queue_head s \<noteq> Some t" "ready_queue_tail s \<noteq> Some t"
    using r(1) h by (cases ys; auto simp: lst_def; fail)+
  then have q: "length (task_table s') = length (task_table s)" "ready_queue_head s' = ready_queue_head s"
    "ready_queue_tail s' = ready_queue_tail s"
    "\<And>j. tsk s' j = (if j = t then (tsk s t)\<lparr>next_task := None, prev_task := None\<rparr>
       else if j = p then (tsk s p)\<lparr>next_task := Some n\<rparr>
       else if j = n then (tsk s n)\<lparr>prev_task := Some p\<rparr> else tsk s j)"
    using r by (auto simp: s'_def remove_from_ready_queue_def Let_def tsk_upd)
  have "dll (task_table s') None ys (Some p) = dll (task_table s) None ys (Some p)"
    by (rule dll_cong) (use q r in auto)
  moreover have "dll (task_table s') (Some n) zs None = dll (task_table s) (Some n) zs None"
    by (rule dll_cong) (use q r in auto)
  ultimately show ?thesis using q r h by (simp add: queue_rep_def s'_def [symmetric])
qed

lemma queue_remove:
  assumes "queue_rep s xs" and "t \<in> set xs"
  shows "queue_rep (remove_from_ready_queue (Some t) s) (remove1 t xs)"
proof -
  obtain ys zs where xs: "xs = ys @ t # zs" "t \<notin> set ys" using assms(2) by (meson split_list_first)
  then have r1: "remove1 t xs = ys @ zs" by (simp add: remove1_append)
  consider "ys = []" | us p where "ys = us @ [p]" "zs = []" | us p n vs where "ys = us @ [p]" "zs = n # vs"
    by (cases ys rule: rev_cases; cases zs) auto
  then show ?thesis
  proof cases
    case 1
    then show ?thesis using queue_remove_head [of s t zs] assms(1) xs r1 by simp
  next
    case 2
    then show ?thesis using queue_remove_tail [of s us p t] assms(1) xs r1 by simp
  next
    case 3
    then show ?thesis using queue_remove_middle [of s us p t n vs] assms(1) xs r1 by simp
  qed
qed

lemma queue_lengths [simp]:
  "length (task_table (add_to_ready_queue t s)) = length (task_table s)"
  "length (task_table (remove_from_ready_queue t s)) = length (task_table s)"
  "length (task_table (snd (pop_ready_queue s))) = length (task_table s)"
  by (auto simp: add_to_ready_queue_def remove_from_ready_queue_def pop_ready_queue_def Let_def split: option.splits)

interpretation ready_queue: fifo_queue queue_rep "\<lambda>s t. t < length (task_table s)"
    "\<lambda>t. add_to_ready_queue (Some t)" "\<lambda>t. remove_from_ready_queue (Some t)" pop_ready_queue
proof
  fix s xs x y
  show "queue_rep s xs \<Longrightarrow> x < length (task_table s) \<Longrightarrow> x \<notin> set xs
      \<Longrightarrow> queue_rep (add_to_ready_queue (Some x) s) (xs @ [x])" by (rule queue_add)
  show "queue_rep s xs \<Longrightarrow> x \<in> set xs \<Longrightarrow> queue_rep (remove_from_ready_queue (Some x) s) (remove1 x xs)"
    by (rule queue_remove)
  show "queue_rep s xs \<Longrightarrow> fst (pop_ready_queue s) = (if xs = [] then None else Some (hd xs))
      \<and> queue_rep (snd (pop_ready_queue s)) (tl xs)"
    using queue_pop [of s xs] by (auto simp: nxt_def split: list.splits)
qed simp_all

section \<open>Properties\<close>

text \<open>
  \<^bold>\<open>C7\<close>. The ready queue is a first-in first-out queue: for every sequence of insertions of tasks that are
  not in it, removals of tasks that are, wherever they stand in it, and removals of its head, the
  linked list through the task table holds the tasks in the order of a list on which the same
  operations are made, and gives the same heads.
\<close>

theorem ready_queue_refines_fifo:
  assumes "queue_rep s xs" and "legal (\<lambda>t. t < length (task_table s)) ops xs"
  defines "r \<equiv> impl_run (\<lambda>t. add_to_ready_queue (Some t)) (\<lambda>t. remove_from_ready_queue (Some t)) pop_ready_queue ops s"
  shows "fst r = fst (spec_run ops xs) \<and> queue_rep (snd r) (snd (spec_run ops xs))"
  unfolding r_def by (rule ready_queue.run_refines [OF assms(1,2)])

definition demo_sched :: sched_state where
  "demo_sched = \<lparr>task_table = replicate 256 zero_task, next_tid = 1, current_task = None, idle_task = None,
     ready_queue_head = None, ready_queue_tail = None, blocked_queue_head = None, task_lock = False,
     scheduler_stats = \<lparr>total_tasks_created = 0, ticks_since_boot = 0, current_task_count = 0\<rparr>,
     interrupts_on = False, switches = [],
     vm = \<lparr>pmm = pmm_boot, mem = (\<lambda>_. 0), cr3 = 0x1000, tlb_log = [], fault_handler = False,
       vmm_config = \<lparr>kernel_pml4 = 0x1000, kernel_virtual_base = 0, kernel_virtual_size = 0, using_nx = False,
         cfg_hhdm_offset = 0\<rparr>, hhdm_offset = 0, kernel_phys_base = 0, kernel_virt_base = 0,
       current_pml4_phys = 0x1000, user_areas = [], kernel_areas = [], user_area_count = 0,
       kernel_area_count = 0, pages_allocated = 0, pages_freed = 0\<rparr>\<rparr>"

theorem ready_queue_refines_fifo_witness:
  "queue_rep demo_sched []
   \<and> fst (impl_run (\<lambda>t. add_to_ready_queue (Some t)) (\<lambda>t. remove_from_ready_queue (Some t)) pop_ready_queue
        [Add 3, Add 5, Add 4, Remove 5, Pop, Pop, Pop] demo_sched) = [Some 3, Some 4, None]"
proof -
  have r: "queue_rep demo_sched []" by (simp add: queue_rep_def demo_sched_def)
  have l: "legal (\<lambda>t. t < length (task_table demo_sched)) [Add 3, Add 5, Add 4, Remove 5, Pop, Pop, Pop] []"
    by (simp add: demo_sched_def)
  show ?thesis using r ready_queue_refines_fifo [OF r l] by simp
qed

end
