(* ===== verification/Scheduling.thy ===== *)
theory Scheduling
  imports Ready_Queue
begin

text \<open>
  What the scheduler guarantees: round robin between two and more ready tasks. And where it does not
  go on: a task that is alone, the idle task, and the operations that take the lock twice.
\<close>

section \<open>Effects on a task\<close>

text \<open>A task without its links in a queue.\<close>

definition core :: "task \<Rightarrow> task" where
  "core t = t\<lparr>next_task := None, prev_task := None\<rparr>"

lemma core_fields [simp]:
  "tid (core t) = tid t" "state (core t) = state t" "quantum (core t) = quantum t" "cpu_time (core t) = cpu_time t"
  "last_schedule (core t) = last_schedule t" "page_table (core t) = page_table t"
  by (simp_all add: core_def)

lemma core_eqD:
  assumes "core t = core u"
  shows "tid t = tid u" "state t = state u" "quantum t = quantum u" "cpu_time t = cpu_time u"
    "last_schedule t = last_schedule u" "page_table t = page_table u"
  by (metis assms core_fields)+

lemma add_core:
  assumes "queue_rep s xs" and t: "t < length (task_table s)" "t \<notin> set xs"
  shows "core (tsk (add_to_ready_queue (Some t) s) j)
    = (if j = t then (core (tsk s t))\<lparr>state := TASK_STATE_READY\<rparr> else core (tsk s j))"
proof (cases xs rule: rev_cases)
  case Nil
  then show ?thesis using assms by (simp add: queue_rep_def add_to_ready_queue_def Let_def tsk_upd core_def)
next
  case (snoc ys l)
  have l: "t \<noteq> l" "l < length (task_table s)" using assms snoc by (auto simp: queue_rep_def)
  obtain h where h: "ready_queue_head s = Some h" "ready_queue_tail s = Some l"
    using assms(1) snoc by (cases ys) (auto simp: queue_rep_def)
  show ?thesis using add_nonempty(4) [OF h t(1) l(2,1)] by (simp add: core_def)
qed

lemma add_fields [simp]:
  "current_task (add_to_ready_queue t s) = current_task s" "idle_task (add_to_ready_queue t s) = idle_task s"
  "task_lock (add_to_ready_queue t s) = task_lock s" "vm (add_to_ready_queue t s) = vm s"
  by (auto simp: add_to_ready_queue_def Let_def split: option.splits)

lemma pop_core: "queue_rep s xs \<Longrightarrow> core (tsk (snd (pop_ready_queue s)) j) = core (tsk s j)"
  by (cases xs; cases "tl xs")
    (auto simp: queue_rep_def pop_ready_queue_def Let_def tsk_upd core_def split: option.splits)

lemma pop_fields [simp]:
  "current_task (snd (pop_ready_queue s)) = current_task s" "idle_task (snd (pop_ready_queue s)) = idle_task s"
  "task_lock (snd (pop_ready_queue s)) = task_lock s" "vm (snd (pop_ready_queue s)) = vm s"
  by (auto simp: pop_ready_queue_def Let_def split: option.splits)

text \<open>Changes that do not concern the queue.\<close>

lemma queue_rep_upd:
  assumes "queue_rep s xs" and "\<And>t. next_task (f t) = next_task t \<and> prev_task (f t) = prev_task t"
  shows "queue_rep (upd i f s) xs"
proof -
  have "dll (task_table (upd i f s)) None xs None = dll (task_table s) None xs None"
  proof (cases "i < length (task_table s)")
    case True
    then show ?thesis by (intro dll_cong) (auto simp: tsk_upd assms(2))
  qed (simp add: upd_def list_update_beyond)
  then show ?thesis using assms(1) by (simp add: queue_rep_def)
qed

lemma queue_rep_vars:
  "queue_rep (s\<lparr>current_task := a\<rparr>) xs = queue_rep s xs" "queue_rep (s\<lparr>task_lock := b\<rparr>) xs = queue_rep s xs"
  "queue_rep (s\<lparr>scheduler_stats := c\<rparr>) xs = queue_rep s xs" "queue_rep (s\<lparr>interrupts_on := b\<rparr>) xs = queue_rep s xs"
  "queue_rep (s\<lparr>vm := d\<rparr>) xs = queue_rep s xs" "queue_rep (s\<lparr>switches := e\<rparr>) xs = queue_rep s xs"
  by (simp_all add: queue_rep_def)

text \<open>The state after a switch.\<close>

lemma context_switch_effect:
  assumes "current_task s = Some c" and "n \<noteq> c" and "c < length (task_table s)" and "n < length (task_table s)"
    and "queue_rep s xs"
  shows "\<exists>s'. context_switch (Some n) s = Switches s' \<and> current_task s' = Some n \<and> queue_rep s' xs
    \<and> length (task_table s') = length (task_table s) \<and> idle_task s' = idle_task s \<and> task_lock s' = task_lock s
    \<and> (\<forall>j. tsk s' j = (if j = n then (tsk s n)\<lparr>state := TASK_STATE_RUNNING, last_schedule := cpu_time (tsk s n)\<rparr>
         else if j = c \<and> state (tsk s c) = TASK_STATE_RUNNING then (tsk s c)\<lparr>state := TASK_STATE_READY\<rparr> else tsk s j))"
proof -
  define s1 where "s1 = (if state (tsk s c) = TASK_STATE_RUNNING
    then upd c (state_update (\<lambda>_. TASK_STATE_READY)) (s\<lparr>current_task := Some n\<rparr>) else s\<lparr>current_task := Some n\<rparr>)"
  define s2 where "s2 = upd n (state_update (\<lambda>_. TASK_STATE_RUNNING)) s1"
  define s3 where "s3 = upd n (last_schedule_update (\<lambda>_. cpu_time (tsk s2 n))) s2"
  define s4 where "s4 = s3\<lparr>vm := vmm_switch_address_space (page_table (tsk s3 n)) (vm s3)\<rparr>"
  have eq: "context_switch (Some n) s = Switches (s4\<lparr>switches := switches s4 @ [(Some c, n)]\<rparr>)"
    using assms(1,2) by (simp add: context_switch_def Let_def s4_def s3_def s2_def s1_def)
  have q: "queue_rep s4 xs"
    using assms(5) by (simp add: s4_def s3_def s2_def s1_def queue_rep_vars queue_rep_upd)
  show ?thesis unfolding eq using q assms(2-4)
    by (intro exI [of _ "s4\<lparr>switches := switches s4 @ [(Some c, n)]\<rparr>"])
      (auto simp: queue_rep_vars s4_def s3_def s2_def s1_def tsk_upd)
qed

section \<open>Round robin\<close>

text \<open>
  The ring: the running task first, then the ready queue. The idle task is not in it, the lock is free,
  and every task has the default time quantum.
\<close>

definition ring :: "sched_state \<Rightarrow> nat list \<Rightarrow> bool" where
  "ring s xs \<longleftrightarrow> xs \<noteq> [] \<and> distinct xs \<and> queue_rep s (tl xs) \<and> current_task s = Some (hd xs)
     \<and> \<not> task_lock s \<and> idle_task s \<notin> Some ` set xs
     \<and> state (tsk s (hd xs)) = TASK_STATE_RUNNING \<and> (\<forall>x \<in> set (tl xs). state (tsk s x) = TASK_STATE_READY)
     \<and> (\<forall>x \<in> set xs. x < length (task_table s) \<and> quantum (tsk s x) = DEFAULT_TIME_QUANTUM)"

text \<open>The ticks the running task has used of its quantum.\<close>

definition used :: "sched_state \<Rightarrow> nat" where
  "used s = (case current_task s of None \<Rightarrow> 0 | Some c \<Rightarrow> unat (cpu_time (tsk s c) - last_schedule (tsk s c)))"

text \<open>The state after a number of timer interrupts, in whichever task they arrive.\<close>

fun ticks :: "nat \<Rightarrow> sched_state \<Rightarrow> sched_state option" where
  "ticks 0 s = Some s"
| "ticks (Suc n) s =
     (case timer_callback 0 s of
        Returns _ s \<Rightarrow> ticks n s
      | Switches s \<Rightarrow> ticks n s
      | Deadlock \<Rightarrow> None)"

lemma ticks_add: "ticks (m + n) s = (case ticks m s of None \<Rightarrow> None | Some s \<Rightarrow> ticks n s)"
  by (induction m arbitrary: s) (auto split: outcome.splits)

text \<open>The beginning of the callback: the counters of the tick.\<close>

definition counted :: "nat \<Rightarrow> sched_state \<Rightarrow> sched_state" where
  "counted c s = upd c (cpu_time_update (\<lambda>t. t + 1))
     (s\<lparr>scheduler_stats := (scheduler_stats s)\<lparr>ticks_since_boot := ticks_since_boot (scheduler_stats s) + 1\<rparr>\<rparr>)"

lemma counted_fields [simp]:
  "current_task (counted c s) = current_task s" "idle_task (counted c s) = idle_task s"
  "task_lock (counted c s) = task_lock s" "length (task_table (counted c s)) = length (task_table s)"
  by (simp_all add: counted_def)

lemma tsk_counted: "c < length (task_table s) \<Longrightarrow>
    tsk (counted c s) j = (if j = c then (tsk s c)\<lparr>cpu_time := cpu_time (tsk s c) + 1\<rparr> else tsk s j)"
  by (simp add: counted_def tsk_upd)

lemma queue_counted: "queue_rep s xs \<Longrightarrow> queue_rep (counted c s) xs"
  by (simp add: counted_def queue_rep_upd queue_rep_vars)

lemma timer_callback_running:
  assumes "current_task s = Some c" and "c < length (task_table s)" and "state (tsk s c) = TASK_STATE_RUNNING"
  shows "timer_callback n s =
    (if quantum (tsk s c) \<le> cpu_time (tsk s c) + 1 - last_schedule (tsk s c)
     then if task_lock s then Deadlock
          else schedule_next (spinlock_release
            (if idle_task s = Some c then (counted c s)\<lparr>task_lock := True\<rparr>
             else add_to_ready_queue (Some c) (upd c (state_update (\<lambda>_. TASK_STATE_READY)) ((counted c s)\<lparr>task_lock := True\<rparr>))))
     else Returns () (counted c s))"
proof -
  have s: "state (tsk (s\<lparr>scheduler_stats := x\<rparr>) c) = TASK_STATE_RUNNING" for x using assms(3) by simp
  have t: "quantum (tsk (counted c s) c) = quantum (tsk s c)" "cpu_time (tsk (counted c s) c) = cpu_time (tsk s c) + 1"
    "last_schedule (tsk (counted c s) c) = last_schedule (tsk s c)"
    using assms(2) by (simp_all add: tsk_counted)
  show ?thesis
    unfolding timer_callback_def Let_def counted_def [symmetric]
    using assms(1,3) t by (auto simp: counted_def [symmetric] spinlock_acquire_def)
qed

lemma used_step:
  assumes "current_task s = Some c" and "Suc (used s) < 2 ^ 64"
  shows "unat (cpu_time (tsk s c) + 1 - last_schedule (tsk s c)) = Suc (used s)"
proof -
  define d where "d = cpu_time (tsk s c) - last_schedule (tsk s c)"
  have u: "used s = unat d" using assms(1) by (simp add: used_def d_def)
  then have "unat (d + 1) = Suc (unat d)" using assms(2) by (simp add: unat_word_ariths)
  moreover have "cpu_time (tsk s c) + 1 - last_schedule (tsk s c) = d + 1" by (simp add: d_def)
  ultimately show ?thesis by (simp only: u)
qed

lemma tick_within_quantum:
  assumes r: "ring s (c # xs)" and u: "used s < 19"
  shows "\<exists>s'. timer_callback n s = Returns () s' \<and> ring s' (c # xs) \<and> used s' = Suc (used s)"
proof -
  have c: "current_task s = Some c" "c < length (task_table s)" "state (tsk s c) = TASK_STATE_RUNNING"
    "quantum (tsk s c) = 20" "queue_rep s xs"
    using r by (simp_all add: ring_def DEFAULT_TIME_QUANTUM_def)
  have us: "unat (cpu_time (tsk s c) + 1 - last_schedule (tsk s c)) = Suc (used s)"
    using used_step [OF c(1)] u by simp
  then have "\<not> 20 \<le> cpu_time (tsk s c) + 1 - last_schedule (tsk s c)" using u by (simp add: word_le_nat_alt)
  then have t: "timer_callback n s = Returns () (counted c s)" using timer_callback_running [OF c(1-3)] c(4) by simp
  have "used (counted c s) = Suc (used s)" using c us by (simp add: used_def tsk_counted)
  moreover have "ring (counted c s) (c # xs)"
    using r c by (auto simp: ring_def tsk_counted queue_counted)
  ultimately show ?thesis using t by blast
qed

text \<open>The current task goes to the end of the queue before the next one is taken.\<close>

definition requeued :: "nat \<Rightarrow> sched_state \<Rightarrow> sched_state" where
  "requeued c s = (spinlock_release (add_to_ready_queue (Some c)
     (upd c (state_update (\<lambda>_. TASK_STATE_READY)) ((counted c s)\<lparr>task_lock := True\<rparr>))))\<lparr>interrupts_on := False\<rparr>"

lemma requeued_effect:
  assumes "queue_rep s xs" and "c < length (task_table s)" and "c \<notin> set xs"
  shows "queue_rep (requeued c s) (xs @ [c])" "current_task (requeued c s) = current_task s"
    "idle_task (requeued c s) = idle_task s" "\<not> task_lock (requeued c s)"
    "length (task_table (requeued c s)) = length (task_table s)"
    "core (tsk (requeued c s) j) = (if j = c
       then (core (tsk s c))\<lparr>state := TASK_STATE_READY, cpu_time := cpu_time (tsk s c) + 1\<rparr> else core (tsk s j))"
proof -
  define s0 where "s0 = upd c (state_update (\<lambda>_. TASK_STATE_READY)) ((counted c s)\<lparr>task_lock := True\<rparr>)"
  have q: "queue_rep s0 xs" using assms(1) by (simp add: s0_def queue_rep_upd queue_rep_vars queue_counted)
  have l: "c < length (task_table s0)" using assms(2) by (simp add: s0_def)
  have t: "tsk s0 j = (if j = c then (tsk s c)\<lparr>cpu_time := cpu_time (tsk s c) + 1, state := TASK_STATE_READY\<rparr> else tsk s j)" for j
    using assms(2) by (simp add: s0_def tsk_upd tsk_counted)
  have r: "requeued c s = (add_to_ready_queue (Some c) s0)\<lparr>task_lock := False, interrupts_on := False\<rparr>"
    by (simp add: requeued_def spinlock_release_def s0_def)
  show "queue_rep (requeued c s) (xs @ [c])" unfolding r using queue_add [OF q l assms(3)] by (simp add: queue_rep_vars)
  show "current_task (requeued c s) = current_task s" "idle_task (requeued c s) = idle_task s" "\<not> task_lock (requeued c s)"
    "length (task_table (requeued c s)) = length (task_table s)"
    unfolding r by (simp_all add: s0_def)
  show "core (tsk (requeued c s) j) = (if j = c
       then (core (tsk s c))\<lparr>state := TASK_STATE_READY, cpu_time := cpu_time (tsk s c) + 1\<rparr> else core (tsk s j))"
    unfolding r using add_core [OF q l assms(3), of j] t by (simp add: core_def)
qed

lemma expired_callback:
  assumes "current_task s = Some c" and "c < length (task_table s)" and "state (tsk s c) = TASK_STATE_RUNNING"
    and "quantum (tsk s c) = 20" and "used s = 19" and "\<not> task_lock s" and "idle_task s \<noteq> Some c"
  shows "timer_callback n s = (case pop_ready_queue (requeued c s) of (m, t) \<Rightarrow>
    (case (case m of Some n \<Rightarrow> Some n | None \<Rightarrow> idle_task t) of
       Some n \<Rightarrow> context_switch (Some n) t | None \<Rightarrow> Returns () t))"
proof -
  have "unat (cpu_time (tsk s c) + 1 - last_schedule (tsk s c)) = 20"
    using used_step [OF assms(1)] assms(5) by simp
  then have "20 \<le> cpu_time (tsk s c) + 1 - last_schedule (tsk s c)" by (simp add: word_le_nat_alt)
  then show ?thesis using timer_callback_running [OF assms(1-3), of n] assms(4,6,7)
    by (simp add: schedule_next_def requeued_def Let_def)
qed

lemma tick_at_quantum:
  assumes r: "ring s (c # y # ys)" and u: "used s = 19"
  shows "\<exists>s'. timer_callback n s = Switches s' \<and> ring s' (y # ys @ [c]) \<and> used s' = 0"
proof -
  have c: "current_task s = Some c" "c < length (task_table s)" "state (tsk s c) = TASK_STATE_RUNNING"
    "quantum (tsk s c) = 20" "\<not> task_lock s" "idle_task s \<noteq> Some c" "queue_rep s (y # ys)" "c \<notin> set (y # ys)"
    "y < length (task_table s)" "distinct (y # ys)"
    using r by (auto simp: ring_def DEFAULT_TIME_QUANTUM_def)
  note q = requeued_effect [OF c(7,2,8)]
  define t where "t = snd (pop_ready_queue (requeued c s))"
  have p: "pop_ready_queue (requeued c s) = (Some y, t)"
    using queue_pop(1) [OF q(1)] by (simp add: t_def prod_eq_iff)
  have qt: "queue_rep t (ys @ [c])" using queue_pop(2) [OF q(1)] by (simp add: t_def)
  have tt: "core (tsk t j) = core (tsk (requeued c s) j)" for j using pop_core [OF q(1)] by (simp add: t_def)
  have f: "current_task t = Some c" "idle_task t = idle_task s" "\<not> task_lock t" "length (task_table t) = length (task_table s)"
    using q c by (simp_all add: t_def)
  obtain s' where s': "context_switch (Some y) t = Switches s'" "current_task s' = Some y" "queue_rep s' (ys @ [c])"
    "length (task_table s') = length (task_table s)" "idle_task s' = idle_task s" "\<not> task_lock s'"
    "\<And>j. tsk s' j = (if j = y then (tsk t y)\<lparr>state := TASK_STATE_RUNNING, last_schedule := cpu_time (tsk t y)\<rparr>
         else if j = c \<and> state (tsk t c) = TASK_STATE_RUNNING then (tsk t c)\<lparr>state := TASK_STATE_READY\<rparr> else tsk t j)"
    using context_switch_effect [OF f(1), of y "ys @ [c]"] c f qt by auto
  have "timer_callback n s = Switches s'"
    using expired_callback [OF c(1-4) u c(5,6)] p s'(1) by simp
  moreover have "used s' = 0" using s'(2,7) by (simp add: used_def)
  moreover have "ring s' (y # ys @ [c])"
  proof -
    have e: "core (tsk t j) = (if j = c
        then (core (tsk s c))\<lparr>state := TASK_STATE_READY, cpu_time := cpu_time (tsk s c) + 1\<rparr> else core (tsk s j))" for j
      using tt q(6) by simp
    have st: "state (tsk t j) = (if j = c then TASK_STATE_READY else state (tsk s j))"
        "quantum (tsk t j) = quantum (tsk s j)" for j
      using arg_cong [OF e [of j], of state] arg_cong [OF e [of j], of quantum] by (simp_all split: if_splits)
    then show ?thesis using r s' c by (auto simp: ring_def)
  qed
  ultimately show ?thesis by blast
qed

lemma ticks_snoc: "ticks n s = Some t \<Longrightarrow> ticks (Suc n) s = ticks 1 t"
  using ticks_add [of n 1 s] by simp

lemma ticks_one:
  "timer_callback 0 s = Returns u t \<Longrightarrow> ticks 1 s = Some t" "timer_callback 0 s = Switches t \<Longrightarrow> ticks 1 s = Some t"
  by simp_all

lemma ticks_in_slice:
  assumes "ring s (c # xs)" and "used s = 0" and "k \<le> 19"
  shows "\<exists>t. ticks k s = Some t \<and> ring t (c # xs) \<and> used t = k"
  using assms(3)
proof (induction k)
  case 0
  then show ?case using assms by simp
next
  case (Suc k)
  then obtain t where t: "ticks k s = Some t" "ring t (c # xs)" "used t = k" by auto
  obtain t' where t': "timer_callback 0 t = Returns () t'" "ring t' (c # xs)" "used t' = Suc k"
    using tick_within_quantum [OF t(2), of 0] t(3) Suc.prems by auto
  have "ticks (Suc k) s = Some t'" using ticks_snoc [OF t(1)] ticks_one(1) [OF t'(1)] by simp
  then show ?case using t' by blast
qed

lemma ticks_slice:
  assumes "ring s xs" and "2 \<le> length xs" and "used s = 0"
  shows "\<exists>t. ticks 20 s = Some t \<and> ring t (rotate1 xs) \<and> used t = 0"
proof -
  obtain c y ys where xs: "xs = c # y # ys" using assms(2) by (cases xs; cases "tl xs") auto
  obtain t where t: "ticks 19 s = Some t" "ring t xs" "used t = 19"
    using ticks_in_slice [of s c "y # ys" 19] assms xs by auto
  obtain t' where t': "timer_callback 0 t = Switches t'" "ring t' (y # ys @ [c])" "used t' = 0"
    using tick_at_quantum [of t c y ys 0] t xs by auto
  have "ticks 20 s = Some t'" using ticks_snoc [OF t(1)] ticks_one(2) [OF t'(1)] by (simp add: numeral_eq_Suc)
  then show ?thesis using t' xs by auto
qed

lemma ticks_slices:
  assumes "ring s xs" and "2 \<le> length xs" and "used s = 0"
  shows "\<exists>t. ticks (20 * k) s = Some t \<and> ring t (rotate k xs) \<and> used t = 0"
proof (induction k)
  case 0
  then show ?case using assms by simp
next
  case (Suc k)
  then obtain t where t: "ticks (20 * k) s = Some t" "ring t (rotate k xs)" "used t = 0" by blast
  obtain t' where t': "ticks 20 t = Some t'" "ring t' (rotate1 (rotate k xs))" "used t' = 0"
    using ticks_slice [OF t(2)] assms(2) t(3) by auto
  have "ticks (20 * Suc k) s = Some t'" using ticks_add [of "20 * k" 20 s] t(1) t'(1) by (simp add: add.commute)
  then show ?case using t' by auto
qed

section \<open>The idle task\<close>

lemma idle_keeps_running:
  assumes "current_task s = Some i" and "i < length (task_table s)" and "state (tsk s i) = TASK_STATE_RUNNING"
    and "quantum (tsk s i) = 0xFFFFFFFFFFFFFFFF" and "queue_rep s xs" and "used s + k < 2 ^ 64 - 1"
  shows "\<exists>t. ticks k s = Some t \<and> current_task t = Some i \<and> queue_rep t xs \<and> (\<forall>j. state (tsk t j) = state (tsk s j))"
  using assms
proof (induction k arbitrary: s)
  case (Suc k)
  have u: "unat (cpu_time (tsk s i) + 1 - last_schedule (tsk s i)) = Suc (used s)"
    using used_step [OF Suc.prems(1)] Suc.prems(6) by simp
  then have "\<not> 0xFFFFFFFFFFFFFFFF \<le> cpu_time (tsk s i) + 1 - last_schedule (tsk s i)"
    using Suc.prems(6) by (simp add: word_le_nat_alt)
  then have t: "timer_callback 0 s = Returns () (counted i s)"
    using timer_callback_running [OF Suc.prems(1-3), of 0] Suc.prems(4) by simp
  have "used (counted i s) = Suc (used s)" using u Suc.prems by (simp add: used_def tsk_counted)
  then have "\<exists>t. ticks k (counted i s) = Some t \<and> current_task t = Some i \<and> queue_rep t xs
      \<and> (\<forall>j. state (tsk t j) = state (tsk (counted i s) j))"
    using Suc.prems by (intro Suc.IH) (simp_all add: tsk_counted queue_counted)
  then show ?case using t Suc.prems(2) by (auto simp: tsk_counted)
qed simp

text \<open>A task that is alone on the processor at the end of its quantum, and one tick later.\<close>

lemma lone_task_tick:
  assumes r: "ring s [c]" and u: "used s = 19"
  shows "\<exists>t. ticks 1 s = Some t \<and> current_task t = Some c \<and> queue_rep t [] \<and> state (tsk t c) = TASK_STATE_READY
    \<and> idle_task t = idle_task s \<and> length (task_table t) = length (task_table s) \<and> \<not> task_lock t
    \<and> (\<forall>j. quantum (tsk t j) = quantum (tsk s j))"
proof -
  have c: "current_task s = Some c" "c < length (task_table s)" "state (tsk s c) = TASK_STATE_RUNNING"
    "quantum (tsk s c) = 20" "\<not> task_lock s" "idle_task s \<noteq> Some c" "queue_rep s []" "c \<notin> set []"
    using r by (auto simp: ring_def DEFAULT_TIME_QUANTUM_def)
  note q = requeued_effect [OF c(7,2,8)]
  define t where "t = snd (pop_ready_queue (requeued c s))"
  have p: "pop_ready_queue (requeued c s) = (Some c, t)"
    using queue_pop(1) [OF q(1)] by (simp add: t_def prod_eq_iff)
  have e: "core (tsk t j) = (if j = c
      then (core (tsk s c))\<lparr>state := TASK_STATE_READY, cpu_time := cpu_time (tsk s c) + 1\<rparr> else core (tsk s j))" for j
    using pop_core [OF q(1), of j] q(6) by (simp add: t_def)
  have "current_task t = Some c" using q(2) c(1) by (simp add: t_def)
  then have "timer_callback 0 s = Returns () t"
    using expired_callback [OF c(1-4) u c(5,6)] p by (simp add: context_switch_def)
  then have "ticks 1 s = Some t" by (rule ticks_one)
  moreover have "queue_rep t []" using queue_pop(2) [OF q(1)] by (simp add: t_def)
  moreover have "state (tsk t c) = TASK_STATE_READY" using arg_cong [OF e [of c], of state] by simp
  moreover have "quantum (tsk t j) = quantum (tsk s j)" for j
    using arg_cong [OF e [of j], of quantum] by (simp split: if_splits)
  ultimately show ?thesis using q c by (simp add: t_def)
qed

lemma switch_to_idle:
  assumes "current_task s = Some c" and "c < length (task_table s)" and "state (tsk s c) = TASK_STATE_READY"
    and "queue_rep s []" and "idle_task s = Some i" and "i < length (task_table s)" and "i \<noteq> c"
  shows "\<exists>t. ticks 1 s = Some t \<and> current_task t = Some i \<and> queue_rep t [] \<and> state (tsk t i) = TASK_STATE_RUNNING
    \<and> state (tsk t c) = TASK_STATE_READY \<and> used t = 0 \<and> length (task_table t) = length (task_table s)
    \<and> (\<forall>j. quantum (tsk t j) = quantum (tsk s j))"
proof -
  define s1 where "s1 = s\<lparr>scheduler_stats := (scheduler_stats s)\<lparr>ticks_since_boot := ticks_since_boot (scheduler_stats s) + 1\<rparr>,
    interrupts_on := False\<rparr>"
  have s1: "current_task s1 = Some c" "queue_rep s1 []" "task_table s1 = task_table s"
    using assms by (simp_all add: s1_def queue_rep_vars)
  have "timer_callback 0 s = context_switch (Some i) s1"
    using assms by (simp add: timer_callback_def schedule_next_def pop_ready_queue_def queue_rep_def s1_def Let_def)
  moreover obtain t where "context_switch (Some i) s1 = Switches t" "current_task t = Some i" "queue_rep t []"
    "length (task_table t) = length (task_table s)"
    "\<forall>j. tsk t j = (if j = i then (tsk s i)\<lparr>state := TASK_STATE_RUNNING, last_schedule := cpu_time (tsk s i)\<rparr>
         else if j = c \<and> state (tsk s c) = TASK_STATE_RUNNING then (tsk s c)\<lparr>state := TASK_STATE_READY\<rparr> else tsk s j)"
    using context_switch_effect [OF s1(1) assms(7) _ _ s1(2)] assms(2,6) s1(3) by auto
  ultimately show ?thesis using assms(3,7) ticks_one(2) [of s t] by (auto simp: used_def)
qed

section \<open>The lock\<close>

text \<open>A running task whose predecessor has left the lock taken.\<close>

definition stuck :: "nat \<Rightarrow> sched_state \<Rightarrow> bool" where
  "stuck c s \<longleftrightarrow> current_task s = Some c \<and> c < length (task_table s) \<and> state (tsk s c) = TASK_STATE_RUNNING
     \<and> quantum (tsk s c) = 20 \<and> task_lock s"

lemma stuck_tick:
  assumes "stuck c s" and "used s < 19"
  shows "timer_callback n s = Returns () (counted c s)" "stuck c (counted c s)" "used (counted c s) = Suc (used s)"
proof -
  have c: "current_task s = Some c" "c < length (task_table s)" "state (tsk s c) = TASK_STATE_RUNNING"
    "quantum (tsk s c) = 20" "task_lock s" using assms(1) by (simp_all add: stuck_def)
  have u: "unat (cpu_time (tsk s c) + 1 - last_schedule (tsk s c)) = Suc (used s)"
    using used_step [OF c(1)] assms(2) by simp
  then have "\<not> 20 \<le> cpu_time (tsk s c) + 1 - last_schedule (tsk s c)" using assms(2) by (simp add: word_le_nat_alt)
  then show "timer_callback n s = Returns () (counted c s)" using timer_callback_running [OF c(1-3)] c(4) by simp
  show "stuck c (counted c s)" using c by (simp add: stuck_def tsk_counted)
  show "used (counted c s) = Suc (used s)" using c u by (simp add: used_def tsk_counted)
qed

lemma stuck_ticks:
  assumes "stuck c s" and "used s = 0"
  shows "k \<le> 19 \<Longrightarrow> \<exists>t. ticks k s = Some t \<and> stuck c t \<and> used t = k"
proof (induction k)
  case 0
  then show ?case using assms by simp
next
  case (Suc k)
  then obtain t where t: "ticks k s = Some t" "stuck c t" "used t = k" by auto
  then show ?case using stuck_tick(1) [OF t(2), of 0] stuck_tick(2,3) [OF t(2)] Suc.prems ticks_snoc [OF t(1)] by auto
qed

lemma stuck_deadlocks:
  assumes "stuck c s" and "used s = 0"
  shows "ticks 20 s = None" "scheduler_yield s = Deadlock" "scheduler_get_task_by_id i s = Deadlock"
proof -
  obtain t where t: "ticks 19 s = Some t" "stuck c t" "used t = 19" using stuck_ticks [OF assms, of 19] by auto
  have c: "current_task t = Some c" "c < length (task_table t)" "state (tsk t c) = TASK_STATE_RUNNING"
    "quantum (tsk t c) = 20" "task_lock t" using t(2) by (simp_all add: stuck_def)
  have "unat (cpu_time (tsk t c) + 1 - last_schedule (tsk t c)) = 20" using used_step [OF c(1)] t(3) by simp
  then have "20 \<le> cpu_time (tsk t c) + 1 - last_schedule (tsk t c)" by (simp add: word_le_nat_alt)
  then have "timer_callback 0 t = Deadlock" using timer_callback_running [OF c(1-3)] c(4,5) by simp
  then show "ticks 20 s = None" using ticks_add [of 19 1 s] t(1) by simp
  show "scheduler_yield s = Deadlock" "scheduler_get_task_by_id i s = Deadlock"
    using assms(1) by (simp_all add: stuck_def scheduler_yield_def scheduler_get_task_by_id_def spinlock_acquire_def)
qed

lemma yield_switches:
  assumes r: "ring s (c # y # ys)"
  shows "\<exists>s'. scheduler_yield s = Switches s' \<and> stuck y s' \<and> used s' = 0"
proof -
  have c: "current_task s = Some c" "c < length (task_table s)" "state (tsk s c) = TASK_STATE_RUNNING"
    "\<not> task_lock s" "queue_rep s (y # ys)" "c \<notin> set (y # ys)" "y < length (task_table s)" "quantum (tsk s y) = 20"
    using r by (auto simp: ring_def DEFAULT_TIME_QUANTUM_def)
  define s0 where "s0 = upd c (state_update (\<lambda>_. TASK_STATE_READY)) (s\<lparr>task_lock := True\<rparr>)"
  define s1 where "s1 = (add_to_ready_queue (Some c) s0)\<lparr>interrupts_on := False\<rparr>"
  have q0: "queue_rep s0 (y # ys)" using c(5) by (simp add: s0_def queue_rep_upd queue_rep_vars)
  have l0: "c < length (task_table s0)" using c(2) by (simp add: s0_def)
  have q1: "queue_rep s1 ((y # ys) @ [c])" using queue_add [OF q0 l0 c(6)] by (simp add: s1_def queue_rep_vars)
  define t where "t = snd (pop_ready_queue s1)"
  have p: "pop_ready_queue s1 = (Some y, t)" using queue_pop(1) [OF q1] by (simp add: t_def prod_eq_iff)
  have qt: "queue_rep t (ys @ [c])" using queue_pop(2) [OF q1] by (simp add: t_def)
  have yc: "y \<noteq> c" using c(6) by auto
  have "core (tsk t y) = core (tsk s1 y)" using pop_core [OF q1, of y] by (simp only: t_def)
  also have "\<dots> = core (tsk (add_to_ready_queue (Some c) s0) y)" by (simp add: s1_def)
  also have "\<dots> = core (tsk s0 y)" using add_core [OF q0 l0 c(6), of y] yc by simp
  also have "\<dots> = core (tsk s y)" using c(2) yc by (simp add: s0_def tsk_upd)
  finally have e: "core (tsk t y) = core (tsk s y)" .
  have qu: "quantum (tsk t y) = 20" using core_eqD(3) [OF e] c(8) by simp
  have f: "current_task t = Some c" "task_lock t" "length (task_table t) = length (task_table s)"
    using c(1) by (simp_all add: t_def s1_def s0_def)
  obtain s' where s': "context_switch (Some y) t = Switches s'" "current_task s' = Some y" "task_lock s'"
    "length (task_table s') = length (task_table s)"
    "\<And>j. tsk s' j = (if j = y then (tsk t y)\<lparr>state := TASK_STATE_RUNNING, last_schedule := cpu_time (tsk t y)\<rparr>
         else if j = c \<and> state (tsk t c) = TASK_STATE_RUNNING then (tsk t c)\<lparr>state := TASK_STATE_READY\<rparr> else tsk t j)"
    using context_switch_effect [OF f(1), of y "ys @ [c]"] c f qt by auto
  have "scheduler_yield s = Switches s'"
    using c(1,3,4) p s'(1)
    by (simp add: scheduler_yield_def spinlock_acquire_def schedule_next_def s0_def [symmetric] s1_def [symmetric] Let_def)
  moreover have "stuck y s'" "used s' = 0" using s' qu c(7) by (simp_all add: stuck_def used_def)
  ultimately show ?thesis by blast
qed

section \<open>Properties\<close>

text \<open>A task table with a running task 1 and the idle task 0; further tasks may be put into the queue.\<close>

definition demo_running :: sched_state where
  "demo_running = demo_sched\<lparr>task_table := (replicate 256 (zero_task\<lparr>quantum := 20, state := TASK_STATE_READY\<rparr>))
       [0 := zero_task\<lparr>quantum := 0xFFFFFFFFFFFFFFFF, state := TASK_STATE_READY\<rparr>,
        1 := zero_task\<lparr>quantum := 20, state := TASK_STATE_RUNNING\<rparr>],
     current_task := Some 1, idle_task := Some 0\<rparr>"

lemma demo_running_rep: "queue_rep demo_running []"
  by (simp add: queue_rep_def demo_running_def demo_sched_def)

lemma demo_ring: "ring (add_to_ready_queue (Some 2) demo_running) [1, 2]"
    "used (add_to_ready_queue (Some 2) demo_running) = 0"
proof -
  define s where "s = add_to_ready_queue (Some 2) demo_running"
  have l: "2 < length (task_table demo_running)" by (simp add: demo_running_def demo_sched_def)
  have q: "queue_rep s [2]" using queue_add [OF demo_running_rep l] by (simp add: s_def)
  have e: "core (tsk s j) = (if j = 2 then (core (tsk demo_running 2))\<lparr>state := TASK_STATE_READY\<rparr> else core (tsk demo_running j))" for j
    using add_core [OF demo_running_rep l] by (simp add: s_def)
  have f: "state (tsk s 1) = TASK_STATE_RUNNING" "state (tsk s 2) = TASK_STATE_READY"
    "quantum (tsk s 1) = 20" "quantum (tsk s 2) = 20" "cpu_time (tsk s 1) = last_schedule (tsk s 1)"
    using arg_cong [OF e [of 1], of state] arg_cong [OF e [of 2], of state] arg_cong [OF e [of 1], of quantum]
      arg_cong [OF e [of 2], of quantum] arg_cong [OF e [of 1], of cpu_time] arg_cong [OF e [of 1], of last_schedule]
    by (simp_all add: demo_running_def demo_sched_def zero_task_def)
  have v: "current_task s = Some 1" "idle_task s = Some 0" "\<not> task_lock s" "length (task_table s) = 256"
    by (simp_all add: s_def demo_running_def demo_sched_def)
  show "ring (add_to_ready_queue (Some 2) demo_running) [1, 2]" "used (add_to_ready_queue (Some 2) demo_running) = 0"
    unfolding s_def [symmetric] using q f v by (simp_all add: ring_def used_def DEFAULT_TIME_QUANTUM_def)
qed



text \<open>
  A task that is alone loses the processor for good. At the end of its quantum it is queued, taken
  out of the queue again and, being the current task already, not marked as running; at the next tick
  it is therefore not queued any more, and the idle task runs. For the next \<open>2 ^ 64 - 2\<close> ticks the idle
  task stays the current one: the task is ready and in no queue, and even a task that becomes ready
  after that never gets the processor.
\<close>

theorem lone_task_is_lost:
  assumes "ring s [c]" and "used s = 19" and "idle_task s = Some i" and "i < length (task_table s)"
    and "quantum (tsk s i) = 0xFFFFFFFFFFFFFFFF" and "k < 2 ^ 64 - 1"
  shows "\<exists>s2. ticks 2 s = Some s2
    \<and> (\<exists>t. ticks (2 + k) s = Some t \<and> current_task t = Some i \<and> queue_rep t [] \<and> state (tsk t c) = TASK_STATE_READY)
    \<and> (\<forall>n. n < length (task_table s) \<and> n \<noteq> i \<longrightarrow>
         (\<exists>t. ticks k (add_to_ready_queue (Some n) s2) = Some t \<and> current_task t = Some i \<and> queue_rep t [n]))"
proof -
  have ic: "i \<noteq> c" and cl: "c < length (task_table s)" using assms(1,3) by (auto simp: ring_def)
  obtain s1 where s1: "ticks 1 s = Some s1" "current_task s1 = Some c" "queue_rep s1 []" "state (tsk s1 c) = TASK_STATE_READY"
    "idle_task s1 = Some i" "length (task_table s1) = length (task_table s)" "\<forall>j. quantum (tsk s1 j) = quantum (tsk s j)"
    using lone_task_tick [OF assms(1,2)] assms(3) by auto
  obtain s2 where s2: "ticks 1 s1 = Some s2" "current_task s2 = Some i" "queue_rep s2 []" "state (tsk s2 i) = TASK_STATE_RUNNING"
    "state (tsk s2 c) = TASK_STATE_READY" "used s2 = 0" "length (task_table s2) = length (task_table s)"
    "quantum (tsk s2 i) = 0xFFFFFFFFFFFFFFFF"
    using switch_to_idle [OF s1(2) _ s1(4,3,5) _ ic] cl assms(4,5) s1(6,7) by auto
  have two: "ticks 2 s = Some s2" using ticks_add [of 1 1 s] s1(1) s2(1) by (simp add: numeral_2_eq_2)
  obtain t where t: "ticks k s2 = Some t" "current_task t = Some i" "queue_rep t []" "\<forall>j. state (tsk t j) = state (tsk s2 j)"
    using idle_keeps_running [OF s2(2) _ s2(4,8,3), of k] s2(6,7) assms(4,6) by auto
  have tk: "ticks (2 + k) s = Some t" using ticks_add [of 2 k s] two t(1) by simp
  have "\<exists>t. ticks k (add_to_ready_queue (Some n) s2) = Some t \<and> current_task t = Some i \<and> queue_rep t [n]"
    if n: "n < length (task_table s)" "n \<noteq> i" for n
  proof -
    define a where "a = add_to_ready_queue (Some n) s2"
    have q: "queue_rep a [n]" using queue_add [OF s2(3), of n] n(1) s2(7) by (simp add: a_def)
    have e: "core (tsk a i) = core (tsk s2 i)" using add_core [OF s2(3), of n i] n s2(7) by (simp add: a_def)
    note f = core_eqD [OF e]
    have "current_task a = Some i" "length (task_table a) = length (task_table s)" "used a = 0"
      using s2(2,6,7) f by (simp_all add: a_def used_def)
    then show ?thesis
      using idle_keeps_running [of a i "[n]" k] q f s2(4,8) assms(4,6) by (auto simp: a_def)
  qed
  then show ?thesis using two tk t s2(5) by auto
qed

theorem lone_task_is_lost_witness:
  "let s = upd 1 (cpu_time_update (\<lambda>_. 19)) demo_running
   in ring s [1] \<and> (\<exists>t. ticks (2 + 1000000) s = Some t \<and> current_task t = Some 0 \<and> state (tsk t 1) = TASK_STATE_READY)"
proof -
  define s where "s = upd 1 (cpu_time_update (\<lambda>_. 19)) demo_running"
  have q: "queue_rep s []" using demo_running_rep by (simp add: s_def queue_rep_upd)
  have v: "current_task s = Some 1" "idle_task s = Some 0" "\<not> task_lock s" "length (task_table s) = 256"
    "tsk s 1 = zero_task\<lparr>quantum := 20, state := TASK_STATE_RUNNING, cpu_time := 19\<rparr>"
    "tsk s 0 = zero_task\<lparr>quantum := 0xFFFFFFFFFFFFFFFF, state := TASK_STATE_READY\<rparr>"
    by (simp_all add: s_def demo_running_def demo_sched_def tsk_upd)
  have r: "ring s [1]" using q v by (simp add: ring_def DEFAULT_TIME_QUANTUM_def)
  have "used s = 19" using v by (simp add: used_def zero_task_def)
  then show ?thesis using r v lone_task_is_lost [OF r, of 0 1000000]
    unfolding s_def [symmetric] Let_def by auto
qed

text \<open>
  \<^bold>\<open>C32\<close>. \<open>scheduler_terminate_task\<close> and \<open>scheduler_execute_task\<close> never return, whatever their arguments: they
  take the lock and then call \<open>scheduler_get_task_by_id\<close>, which waits for it. A \<open>scheduler_yield\<close> that gives
  the processor to another task leaves the lock taken, so that in that task the next
  \<open>scheduler_yield\<close>, the next look-up of a task and the timer interrupt that ends its quantum wait for
  ever.
\<close>

theorem scheduler_deadlocks:
  "scheduler_terminate_task i code s = Deadlock \<and> scheduler_execute_task i ac av ev s = Deadlock
   \<and> (ring s (c # y # ys) \<longrightarrow> (\<exists>s'. scheduler_yield s = Switches s' \<and> current_task s' = Some y \<and> task_lock s'
        \<and> scheduler_yield s' = Deadlock \<and> scheduler_get_task_by_id i s' = Deadlock \<and> ticks 20 s' = None))"
proof (intro conjI impI)
  show "scheduler_terminate_task i code s = Deadlock" "scheduler_execute_task i ac av ev s = Deadlock"
    by (auto simp: scheduler_terminate_task_def scheduler_execute_task_def scheduler_get_task_by_id_def
        spinlock_acquire_def)
  assume "ring s (c # y # ys)"
  from yield_switches [OF this] obtain s' where s': "scheduler_yield s = Switches s'" "stuck y s'" "used s' = 0" by blast
  then show "\<exists>s'. scheduler_yield s = Switches s' \<and> current_task s' = Some y \<and> task_lock s'
        \<and> scheduler_yield s' = Deadlock \<and> scheduler_get_task_by_id i s' = Deadlock \<and> ticks 20 s' = None"
    using stuck_deadlocks [OF s'(2,3)] by (auto simp: stuck_def)
qed

theorem scheduler_deadlocks_witness:
  "scheduler_terminate_task 1 0 demo_running = Deadlock
   \<and> (\<exists>s'. scheduler_yield (add_to_ready_queue (Some 2) demo_running) = Switches s' \<and> task_lock s' \<and> ticks 20 s' = None)"
  using scheduler_deadlocks [of 1 0 demo_running 0 0 0]
    scheduler_deadlocks [of 1 0 "add_to_ready_queue (Some 2) demo_running" 0 0 0 1 2 "[]"] demo_ring(1) by auto

end
