(* ===== verification/Task_Create.thy ===== *)
theory Task_Create
  imports Scheduling ELF
begin

text \<open>
  The creation of a task, \<open>create_task_address_space\<close> to \<open>scheduler_create_task\<close> of
  \<open>src/kernel/src/core/exec/scheduler.c\<close>. Where the code reads or writes through a pointer the
  access goes through the processor's translation \<open>mmu\<close>, in the address space that is current at
  that moment; \<open>None\<close> is a page fault, or a loop over a string or an array without an end.
\<close>

section \<open>Address space and stack\<close>

definition create_task_address_space :: "mmu \<Rightarrow> vmm_state \<Rightarrow> (u64 \<times> vmm_state) option" where
  "create_task_address_space mmu v = vmm_create_address_space mmu v"

text \<open>
  The loop over the pages of the stack with \<open>k\<close> pages left from page \<open>i\<close> on. A page that cannot be
  mapped undoes the pages before it; the result is whether all pages were mapped.
\<close>

fun map_stack :: "u64 \<Rightarrow> u64 \<Rightarrow> nat \<Rightarrow> nat \<Rightarrow> vmm_state \<Rightarrow> bool \<times> vmm_state" where
  "map_stack stack_virt stack_phys 0 i v = (True, v)"
| "map_stack stack_virt stack_phys (Suc k) i v =
     (let (ok, v1) = vmm_map_page (stack_virt + of_nat i * PAGE_SIZE_4K) (stack_phys + of_nat i * PAGE_SIZE_4K)
                       (VMM_FLAG_PRESENT OR VMM_FLAG_WRITABLE OR VMM_FLAG_USER) v
      in if \<not> ok then (False, unmap_loop stack_virt PAGE_SIZE_4K i v1)
         else map_stack stack_virt stack_phys k (Suc i) v1)"

definition create_task_stack :: "u64 \<Rightarrow> u64 \<Rightarrow> vmm_state \<Rightarrow> u64 \<times> vmm_state" where
  "create_task_stack sz page_tab v =
     (let sz = (sz + PAGE_SIZE_4K - 1) AND NOT (PAGE_SIZE_4K - 1);
          page_count = sz div PAGE_SIZE_4K;
          (stack_phys, q) = pmm_alloc_pages page_count (pmm v);
          v = v\<lparr>pmm := q\<rparr>
      in if stack_phys = NULL then (NULL, v)
      else
      let stack_virt = 0xEFFFF000 - sz + PAGE_SIZE_4K;
          old_cr3 = vmm_get_current_address_space v;
          v = vmm_switch_address_space page_tab v;
          (ok, v) = map_stack stack_virt stack_phys (unat page_count) 0 v
      in if \<not> ok
         then let v = vmm_switch_address_space old_cr3 v
              in (NULL, v\<lparr>pmm := pmm_free_pages stack_phys page_count (pmm v)\<rparr>)
         else let guard_virt = stack_virt - PAGE_SIZE_4K;
                  v = snd (vmm_map_page guard_virt 0 (VMM_FLAG_PRESENT OR VMM_FLAG_NO_EXECUTE) v);
                  v = vmm_switch_address_space old_cr3 v
              in (stack_virt + sz, v))"

section \<open>The initial stack\<close>

text \<open>\<open>while (envp[envc] != NULL) envc++\<close>\<close>

partial_function (option) count_env :: "mmu \<Rightarrow> u64 \<Rightarrow> nat \<Rightarrow> vmm_state \<Rightarrow> nat option" where
  "count_env mmu ev n v = (case (cpu_load mmu (ev + 8 * of_nat n) 8 v :: u64 option) of
     None \<Rightarrow> None
   | Some p \<Rightarrow> if p \<noteq> NULL then count_env mmu ev (Suc n) v else Some n)"

text \<open>\<open>for (i = 0; i < n; i++) size += strlen(vec[i]) + 1\<close>\<close>

fun strings_size :: "mmu \<Rightarrow> u64 \<Rightarrow> nat \<Rightarrow> nat \<Rightarrow> u64 \<Rightarrow> vmm_state \<Rightarrow> u64 option" where
  "strings_size mmu vec 0 i acc v = Some acc"
| "strings_size mmu vec (Suc k) i acc v = (case cpu_load mmu (vec + 8 * of_nat i) 8 v of
     None \<Rightarrow> None
   | Some p \<Rightarrow> (case cpu_strlen mmu p 0 v of
       None \<Rightarrow> None
     | Some l \<Rightarrow> strings_size mmu vec k (Suc i) (acc + l + 1) v))"

text \<open>
  The number of environment strings and the place on the stack that the arguments start at.
  \<open>argc + envc + 2\<close> is an \<open>int\<close>, converted to \<open>size_t\<close>.
\<close>

definition stack_layout :: "mmu \<Rightarrow> u64 \<Rightarrow> 32 word \<Rightarrow> u64 \<Rightarrow> u64 \<Rightarrow> vmm_state \<Rightarrow> (nat \<times> u64) option" where
  "stack_layout mmu stk ac av ev v = (case count_env mmu ev 0 v of
     None \<Rightarrow> None
   | Some envc \<Rightarrow> (case strings_size mmu av (nat (sint ac)) 0 0 v of
       None \<Rightarrow> None
     | Some argv_size \<Rightarrow> (case strings_size mmu ev envc 0 0 v of
         None \<Rightarrow> None
       | Some envp_size \<Rightarrow>
           Some (envc, (stk - scast (ac + of_nat envc + 2) * 8 - argv_size - envp_size) AND NOT 0xF))))"

text \<open>
  \<open>strcpy(string_ptr, vec[i]); vec[i] = string_ptr; string_ptr += strlen(vec[i]) + 1\<close> for \<open>k\<close>
  strings from index \<open>i\<close> on; the result is \<open>string_ptr\<close>.
\<close>

fun copy_strings :: "mmu \<Rightarrow> u64 \<Rightarrow> nat \<Rightarrow> nat \<Rightarrow> u64 \<Rightarrow> vmm_state \<Rightarrow> (u64 \<times> vmm_state) option" where
  "copy_strings mmu vec 0 i sp v = Some (sp, v)"
| "copy_strings mmu vec (Suc k) i sp v = (case cpu_load mmu (vec + 8 * of_nat i) 8 v of
     None \<Rightarrow> None
   | Some p \<Rightarrow> (case cpu_strcpy mmu sp p v of
       None \<Rightarrow> None
     | Some v1 \<Rightarrow> (case cpu_store_le mmu (vec + 8 * of_nat i) sp 8 v1 of
         None \<Rightarrow> None
       | Some v2 \<Rightarrow> (case cpu_strlen mmu sp 0 v2 of
           None \<Rightarrow> None
         | Some l \<Rightarrow> copy_strings mmu vec k (Suc i) (sp + l + 1) v2))))"

text \<open>\<open>*p++ = vec[i]\<close> for \<open>k\<close> entries from index \<open>i\<close> on; the result is \<open>p\<close>.\<close>

fun copy_vector :: "mmu \<Rightarrow> u64 \<Rightarrow> nat \<Rightarrow> nat \<Rightarrow> u64 \<Rightarrow> vmm_state \<Rightarrow> (u64 \<times> vmm_state) option" where
  "copy_vector mmu vec 0 i p v = Some (p, v)"
| "copy_vector mmu vec (Suc k) i p v = (case (cpu_load mmu (vec + 8 * of_nat i) 8 v :: u64 option) of
     None \<Rightarrow> None
   | Some x \<Rightarrow> (case cpu_store_le mmu p x 8 v of
       None \<Rightarrow> None
     | Some v1 \<Rightarrow> copy_vector mmu vec k (Suc i) (p + 8) v1))"

text \<open>\<open>*p++ = x\<close> for each of a list of values.\<close>

fun push_values :: "mmu \<Rightarrow> u64 \<Rightarrow> u64 list \<Rightarrow> vmm_state \<Rightarrow> (u64 \<times> vmm_state) option" where
  "push_values mmu p [] v = Some (p, v)"
| "push_values mmu p (x # xs) v = (case cpu_store_le mmu p x 8 v of
     None \<Rightarrow> None
   | Some v1 \<Rightarrow> push_values mmu (p + 8) xs v1)"

text \<open>The stack part of \<open>init_task_context\<close>; the result is the stack pointer.\<close>

definition init_stack :: "mmu \<Rightarrow> u64 \<Rightarrow> 32 word \<Rightarrow> u64 \<Rightarrow> u64 \<Rightarrow> vmm_state \<Rightarrow> (u64 \<times> vmm_state) option" where
  "init_stack mmu stk ac av ev v = (case stack_layout mmu stk ac av ev v of
     None \<Rightarrow> None
   | Some (envc, stack_ptr) \<Rightarrow>
     let n = nat (sint ac)
     in case copy_strings mmu av n 0 stack_ptr v of
       None \<Rightarrow> None
     | Some (string_ptr, v1) \<Rightarrow> (case copy_strings mmu ev envc 0 string_ptr v1 of
       None \<Rightarrow> None
     | Some (_, v2) \<Rightarrow> (case copy_vector mmu av n 0 stack_ptr v2 of
       None \<Rightarrow> None
     | Some (p1, v3) \<Rightarrow> (case push_values mmu p1 [0] v3 of
       None \<Rightarrow> None
     | Some (p2, v4) \<Rightarrow> (case copy_vector mmu ev envc 0 p2 v4 of
       None \<Rightarrow> None
     | Some (p3, v5) \<Rightarrow> push_values mmu p3 [0, 0, 0, scast ac] v5)))))"

definition init_task_context ::
  "mmu \<Rightarrow> nat \<Rightarrow> u64 \<Rightarrow> u64 \<Rightarrow> 32 word \<Rightarrow> u64 \<Rightarrow> u64 \<Rightarrow> sched_state \<Rightarrow> sched_state option" where
  "init_task_context mmu t entry stk ac av ev s =
     (let s = upd t (\<lambda>x. x\<lparr>task_context := zero_context
                \<lparr>rip := entry, rflags := 0x202, reg_cs := 0x1B OR 3, reg_ss := 0x23 OR 3, reg_ds := 0x23 OR 3,
                 reg_es := 0x23 OR 3, reg_fs := 0x23 OR 3, reg_gs := 0x23 OR 3, ctx_cr3 := page_table x\<rparr>\<rparr>) s
      in case init_stack mmu stk ac av ev (vm s) of
           None \<Rightarrow> None
         | Some (sp, v) \<Rightarrow>
             Some (upd t (\<lambda>x. x\<lparr>task_context := (task_context x)\<lparr>rsp := sp\<rparr>\<rparr>) (s\<lparr>vm := v\<rparr>)))"

section \<open>Creating a task\<close>

text \<open>
  \<open>scheduler_create_task\<close> hands \<open>elf_load\<close> the raw bytes of the file where it expects a pointer to an
  \<open>elf_file_t\<close>, and the file's size as base address. So the structure is read out of the file, and
  the fields that \<open>elf_load\<close> sets are written into the file.
\<close>

definition elf_file_at :: "memory \<Rightarrow> u64 \<Rightarrow> elf_file_t" where
  "elf_file_at m p = \<lparr>elf_data = read_le m p 8, elf_size = read_le m (p + 8) 8, elf_header = ehdr_at m (p + 16),
     program_headers = read_le m (p + 80) 8, section_headers = read_le m (p + 88) 8,
     symtab = read_le m (p + 96) 8, symtab_entries = read_le m (p + 104) 4, strtab = read_le m (p + 112) 8,
     strtab_size = read_le m (p + 120) 8, elf_entry_point = read_le m (p + 128) 8,
     elf_base_addr = read_le m (p + 136) 8, elf_top_addr = read_le m (p + 144) 8\<rparr>"

definition elf_load_at :: "mmu \<Rightarrow> u64 \<Rightarrow> u64 \<Rightarrow> vmm_state \<Rightarrow> (bool \<times> vmm_state) option" where
  "elf_load_at mmu p base_addr v =
     (if p = NULL then Some (False, v)
      else if \<not> cpu_mapped mmu v p 152 then None
      else case elf_load mmu (Some (elf_file_at (cpu_mem mmu v) p)) base_addr v of
        Some (ok, Some elf, v1) \<Rightarrow>
          (case push_values mmu (p + 128) [elf_entry_point elf, elf_base_addr elf, elf_top_addr elf] v1 of
             None \<Rightarrow> None
           | Some (_, v2) \<Rightarrow> Some (ok, v2))
      | _ \<Rightarrow> None)"

text \<open>The first slot that is terminated or new, from \<open>i\<close> on.\<close>

function find_slot :: "task list \<Rightarrow> nat \<Rightarrow> nat option" where
  "find_slot table i =
     (if i < length table
      then (if state (table ! i) = TASK_STATE_TERMINATED \<or> state (table ! i) = TASK_STATE_NEW then Some i
            else find_slot table (Suc i))
      else None)"
  by auto
termination by (relation "measure (\<lambda>(table, i). length table - i)") auto

declare find_slot.simps [simp del]

text \<open>The structure of a new task.\<close>

definition init_slot :: "nat \<Rightarrow> string \<Rightarrow> task_priority_t \<Rightarrow> sched_state \<Rightarrow> u32 \<times> sched_state" where
  "init_slot t name priority s =
     (let (new_tid, s) = allocate_tid (upd t (\<lambda>_. zero_task) s)
      in (new_tid, upd t (\<lambda>x. x\<lparr>tid := new_tid, state := TASK_STATE_NEW, base_priority := priority,
            dynamic_priority := priority, quantum := default_time_quantum scheduler_config,
            start_time := ticks_since_boot (scheduler_stats s), task_name := take 31 name\<rparr>) s))"

text \<open>
  The part from the call of \<open>elf_load\<close> on. \<open>junk\<close> is the value of the variable \<open>entry_point\<close>,
  which is never assigned.
\<close>

definition start_task ::
  "mmu \<Rightarrow> u64 \<Rightarrow> u64 \<Rightarrow> u64 \<Rightarrow> 32 word \<Rightarrow> u64 \<Rightarrow> u64 \<Rightarrow> nat \<Rightarrow> u32 \<Rightarrow> sched_state \<Rightarrow> u32 outcome option" where
  "start_task mmu junk data sz ac av ev t new_tid s = (case elf_load_at mmu data sz (vm s) of
     None \<Rightarrow> None
   | Some (ok, v) \<Rightarrow>
     let s = s\<lparr>vm := v\<rparr>
     in if \<not> ok then Some (Returns 0 (spinlock_release (free_task_resources (Some t) s)))
     else (case init_task_context mmu t junk (stack_top (tsk s t)) ac av ev s of
       None \<Rightarrow> None
     | Some s \<Rightarrow>
     let s = add_to_ready_queue (Some t) s;
         s = s\<lparr>scheduler_stats := (scheduler_stats s)
               \<lparr>total_tasks_created := total_tasks_created (scheduler_stats s) + 1,
                current_task_count := current_task_count (scheduler_stats s) + 1\<rparr>\<rparr>
     in Some (Returns new_tid (spinlock_release s))))"

text \<open>The result is the identifier of the task, 0 on failure.\<close>

definition scheduler_create_task ::
  "mmu \<Rightarrow> u64 \<Rightarrow> u64 \<Rightarrow> u64 \<Rightarrow> string \<Rightarrow> task_priority_t \<Rightarrow> 32 word \<Rightarrow> u64 \<Rightarrow> u64 \<Rightarrow> sched_state
     \<Rightarrow> u32 outcome option" where
  "scheduler_create_task mmu junk data sz name priority ac av ev s = (case spinlock_acquire s of
     None \<Rightarrow> Some Deadlock
   | Some s \<Rightarrow> (case find_slot (task_table s) 0 of
     None \<Rightarrow> Some (Returns 0 (spinlock_release s))
   | Some t \<Rightarrow>
     let (new_tid, s) = init_slot t name priority s
     in case create_task_address_space mmu (vm s) of
       None \<Rightarrow> None
     | Some (pt, v) \<Rightarrow>
     let s = upd t (\<lambda>x. x\<lparr>page_table := pt\<rparr>) (s\<lparr>vm := v\<rparr>)
     in if pt = 0 then Some (Returns 0 (spinlock_release s))
     else
     let (stk, v) = create_task_stack (user_stack_size scheduler_config) pt (vm s);
         s = upd t (\<lambda>x. x\<lparr>stack_size := user_stack_size scheduler_config, stack_top := stk\<rparr>) (s\<lparr>vm := v\<rparr>)
     in if stk = NULL
        then Some (Returns 0 (spinlock_release (s\<lparr>vm := vmm_delete_address_space pt (vm s)\<rparr>)))
        else start_task mmu junk data sz ac av ev t new_tid s))"

section \<open>The address space the loader and the stack setup run in\<close>

text \<open>No step but a switch changes the current address space.\<close>

lemma access_root [simp]:
  "current_pml4_phys (st64 t i x v) = current_pml4_phys v" "current_pml4_phys (hhdm_memset p c n v) = current_pml4_phys v" "current_pml4_phys (snd (alloc_frame v)) = current_pml4_phys v"
  "current_pml4_phys (invlpg a v) = current_pml4_phys v"
  by (simp_all add: st64_def hhdm_memset_def alloc_frame_def invlpg_def split_beta)

lemma ensure_table_root [simp]: "current_pml4_phys (snd (ensure_table t i va v)) = current_pml4_phys v"
  by (simp add: ensure_table_def Let_def split_beta)

lemma vmm_map_page_root: "vmm_map_page va pa fl v = (ok, v') \<Longrightarrow> current_pml4_phys v' = current_pml4_phys v"
proof -
  have "current_pml4_phys (snd (vmm_map_page va pa fl v)) = current_pml4_phys v"
    by (simp add: vmm_map_page_def Let_def split_beta)
  then show "vmm_map_page va pa fl v = (ok, v') \<Longrightarrow> current_pml4_phys v' = current_pml4_phys v" by simp
qed

lemma vmm_unmap_page_root [simp]: "current_pml4_phys (snd (vmm_unmap_page va v)) = current_pml4_phys v"
  by (simp add: vmm_unmap_page_def Let_def)

lemma unmap_loop_root [simp]: "current_pml4_phys (unmap_loop va st n v) = current_pml4_phys v"
  by (induction n) simp_all

lemma map_stack_root: "map_stack sv sp k i v = (ok, v') \<Longrightarrow> current_pml4_phys v' = current_pml4_phys v"
  by (induction k arbitrary: i v) (auto simp: Let_def dest: vmm_map_page_root split: prod.splits if_splits)

lemma map_segment_root: "map_segment pv blk fl k j v = (ok, v') \<Longrightarrow> current_pml4_phys v' = current_pml4_phys v"
  by (induction k arbitrary: j v) (auto simp: Let_def dest: vmm_map_page_root split: prod.splits if_splits)

lemma cpu_store_root: "cpu_store mmu a x v = Some v' \<Longrightarrow> current_pml4_phys v' = current_pml4_phys v"
  by (auto simp: cpu_store_def split: option.splits)

lemma cpu_store_le_root: "cpu_store_le mmu a x n v = Some v' \<Longrightarrow> current_pml4_phys v' = current_pml4_phys v"
  by (induction mmu a x n v rule: cpu_store_le.induct) (auto dest: cpu_store_root split: option.splits)

lemma push_values_root: "push_values mmu p xs v = Some (q, v') \<Longrightarrow> current_pml4_phys v' = current_pml4_phys v"
  by (induction xs arbitrary: p v) (auto dest: cpu_store_le_root split: option.splits)

lemma cpu_memset_root: "cpu_memset mmu p c n v = Some v' \<Longrightarrow> current_pml4_phys v' = current_pml4_phys v"
  by (induction n arbitrary: v') (auto dest: cpu_store_root split: option.splits)

lemma cpu_memcpy_root: "cpu_memcpy mmu d p n v = Some v' \<Longrightarrow> current_pml4_phys v' = current_pml4_phys v"
  by (induction n arbitrary: v') (auto dest: cpu_store_root split: option.splits)

lemma fill_segment_root: "fill_segment mmu elf ph v = Some (ok, blk, v') \<Longrightarrow> current_pml4_phys v' = current_pml4_phys v"
  by (auto simp: fill_segment_def Let_def dest!: cpu_memset_root cpu_memcpy_root
      split: prod.splits if_splits option.splits)

lemma load_segment_root: "load_segment mmu b ph elf v = Some (ok, elf', v') \<Longrightarrow> current_pml4_phys v' = current_pml4_phys v"
  by (auto simp: load_segment_def Let_def dest!: fill_segment_root map_segment_root
      split: prod.splits if_splits option.splits)

lemma load_loop_root: "load_loop mmu b k i elf v = Some (ok, elf', v') \<Longrightarrow> current_pml4_phys v' = current_pml4_phys v"
  by (induction k arbitrary: i elf v)
    (auto dest!: load_segment_root split: prod.splits if_splits option.splits)

lemma elf_load_root: "elf_load mmu (Some elf) b v = Some (ok, elf', v') \<Longrightarrow> current_pml4_phys v' = current_pml4_phys v"
  by (auto simp: elf_load_def elf_load_segments_def dest: load_loop_root split: if_splits option.splits prod.splits)

lemma elf_load_at_root: "elf_load_at mmu p b v = Some (ok, v') \<Longrightarrow> current_pml4_phys v' = current_pml4_phys v"
  by (auto simp: elf_load_at_def dest!: elf_load_root cpu_store_le_root split: if_splits option.splits prod.splits)

lemma create_task_stack_root:
  assumes "create_task_stack sz pt v = (stk, v')" and "current_pml4_phys v \<noteq> 0"
  shows "current_pml4_phys v' = current_pml4_phys v"
proof -
  have sw: "current_pml4_phys (vmm_switch_address_space (current_pml4_phys v) w) = current_pml4_phys v" for w
    using assms(2) by (simp add: vmm_switch_address_space_def write_cr3_def)
  show ?thesis
    using assms(1) sw
    by (auto simp: create_task_stack_def Let_def vmm_get_current_address_space_def split: prod.splits if_splits)
qed

lemma create_task_stack_top:
  "create_task_stack 65536 pt v = (stk, v') \<Longrightarrow> stk \<noteq> NULL \<Longrightarrow> stk = 0xF0000000"
  by (auto simp: create_task_stack_def Let_def PAGE_SIZE_4K_def split: prod.splits if_splits)

text \<open>The first store of the stack setup goes to the place the arguments start at.\<close>

lemma cpu_store_le_fault: "mmu v a = None \<Longrightarrow> cpu_store_le mmu a x (Suc n) v = None"
  by (simp add: cpu_store_def)

lemma copy_strings_fault: "mmu v sp = None \<Longrightarrow> copy_strings mmu vec (Suc k) i sp v = None"
  by (subst copy_strings.simps) (auto simp: cpu_strcpy.simps cpu_store_def split: option.splits)

lemma push_values_fault: "mmu v p = None \<Longrightarrow> push_values mmu p (x # xs) v = None"
  using cpu_store_le_fault [of mmu v p x 7] by (simp del: cpu_store_le.simps add: numeral_eq_Suc)

lemma init_stack_fault:
  assumes "stack_layout mmu stk ac av ev v = Some (envc, sp)" and "mmu v sp = None"
  shows "init_stack mmu stk ac av ev v = None"
proof (cases "nat (sint ac)")
  case (Suc k)
  then show ?thesis using assms copy_strings_fault [of mmu v sp av k 0] by (simp add: init_stack_def)
next
  case 0
  show ?thesis
  proof (cases envc)
    case (Suc k)
    then show ?thesis using assms 0 copy_strings_fault [of mmu v sp ev k 0] by (simp add: init_stack_def)
  next
    case e: 0
    then show ?thesis using assms 0 push_values_fault [of mmu v sp 0 "[]"] by (simp add: init_stack_def)
  qed
qed

lemma find_slot_less: "find_slot table i = Some j \<Longrightarrow> j < length table"
  by (induction table i rule: find_slot.induct) (subst (asm) (2) find_slot.simps, auto split: if_splits)

lemma init_task_context_fault:
  assumes "\<forall>envc sp. stack_layout mmu stk ac av ev (vm s) = Some (envc, sp) \<longrightarrow> mmu (vm s) sp = None"
  shows "init_task_context mmu t entry stk ac av ev s = None"
proof -
  have "init_stack mmu stk ac av ev (vm s) = None"
  proof (cases "stack_layout mmu stk ac av ev (vm s)")
    case None
    then show ?thesis by (simp add: init_stack_def)
  next
    case (Some x)
    then show ?thesis using assms init_stack_fault by (cases x) auto
  qed
  then show ?thesis by (simp add: init_task_context_def upd_def)
qed

lemma vm_upd [simp]: "vm (upd t f s) = vm s"
  by (simp add: upd_def)

lemma copy_kernel_half_root [simp]: "current_pml4_phys (copy_kernel_half a b v) = current_pml4_phys v"
proof -
  have "current_pml4_phys (fold (\<lambda>i v. st64 a (of_nat i) (ld64 v b (of_nat i)) v) is v) = current_pml4_phys v" for "is"
    by (induction "is" arbitrary: v) simp_all
  then show ?thesis unfolding copy_kernel_half_def .
qed

lemma create_page_table_root:
  "create_page_table mmu v = Some (p, v') \<Longrightarrow> current_pml4_phys v' = current_pml4_phys v"
  using access_root(3) [of v]
  by (cases "alloc_frame v") (auto simp: create_page_table_def Let_def split: option.splits if_splits)

lemma create_task_address_space_root:
  "create_task_address_space mmu v = Some (pt, v') \<Longrightarrow> current_pml4_phys v' = current_pml4_phys v"
  by (auto simp: create_task_address_space_def vmm_create_address_space_def Let_def
      dest: create_page_table_root split: prod.splits option.splits if_splits)



end
