(* ===== verification/Serial.thy ===== *)
theory Serial
  imports Port_IO
begin

text \<open>
  The driver of the serial ports, \<open>src/kernel/src/drivers/serial/serial.c\<close>. A busy wait that never
  ends is the result \<open>None\<close>. A string argument is the list of its bytes before the terminator, a null
  pointer is \<open>None\<close>.
\<close>

section \<open>The driver\<close>

definition SERIAL_DATA :: u16 where "SERIAL_DATA = 0"
definition SERIAL_INT_EN :: u16 where "SERIAL_INT_EN = 1"
definition SERIAL_FIFO_CTRL :: u16 where "SERIAL_FIFO_CTRL = 2"
definition SERIAL_LINE_CTRL :: u16 where "SERIAL_LINE_CTRL = 3"
definition SERIAL_MODEM_CTRL :: u16 where "SERIAL_MODEM_CTRL = 4"
definition SERIAL_LINE_STAT :: u16 where "SERIAL_LINE_STAT = 5"
definition SERIAL_LINE_DATA_READY :: u8 where "SERIAL_LINE_DATA_READY = 0x01"
definition SERIAL_LINE_THR_EMPTY :: u8 where "SERIAL_LINE_THR_EMPTY = 0x20"

definition serial_init :: "device \<Rightarrow> u16 \<Rightarrow> u16 \<Rightarrow> io_trace \<Rightarrow> bool \<times> io_trace" where
  "serial_init dev port baud_divisor tr =
     (let tr = outb (port + SERIAL_INT_EN) 0x00 tr;
          tr = outb (port + SERIAL_LINE_CTRL) 0x80 tr;
          tr = outb (port + SERIAL_DATA) (ucast (baud_divisor AND 0xFF)) tr;
          tr = outb (port + SERIAL_INT_EN) (ucast (drop_bit 8 baud_divisor AND 0xFF)) tr;
          tr = outb (port + SERIAL_LINE_CTRL) 0x03 tr;
          tr = outb (port + SERIAL_FIFO_CTRL) 0xC7 tr;
          tr = outb (port + SERIAL_MODEM_CTRL) 0x0B tr;
          tr = outb (port + SERIAL_MODEM_CTRL) 0x1E tr;
          tr = outb (port + SERIAL_DATA) 0xAE tr;
          (v, tr) = inb dev (port + SERIAL_DATA) tr
      in if v \<noteq> 0xAE then (False, tr)
         else (True, outb (port + SERIAL_MODEM_CTRL) 0x0F tr))"

definition serial_is_transmit_ready :: "device \<Rightarrow> u16 \<Rightarrow> io_trace \<Rightarrow> bool \<times> io_trace" where
  "serial_is_transmit_ready dev port tr =
     (let (v, tr) = inb dev (port + SERIAL_LINE_STAT) tr in (v AND SERIAL_LINE_THR_EMPTY \<noteq> 0, tr))"

definition serial_is_data_ready :: "device \<Rightarrow> u16 \<Rightarrow> io_trace \<Rightarrow> bool \<times> io_trace" where
  "serial_is_data_ready dev port tr =
     (let (v, tr) = inb dev (port + SERIAL_LINE_STAT) tr in (v AND SERIAL_LINE_DATA_READY \<noteq> 0, tr))"

definition serial_write_byte :: "device \<Rightarrow> u16 \<Rightarrow> u8 \<Rightarrow> io_trace \<Rightarrow> io_trace option" where
  "serial_write_byte dev port v tr =
     (case wait_until (serial_is_transmit_ready dev port) tr of
        None \<Rightarrow> None
      | Some tr \<Rightarrow> Some (outb (port + SERIAL_DATA) v tr))"

fun write_bytes :: "device \<Rightarrow> u16 \<Rightarrow> u8 list \<Rightarrow> io_trace \<Rightarrow> io_trace option" where
  "write_bytes dev port [] tr = Some tr"
| "write_bytes dev port (c # cs) tr =
     (case serial_write_byte dev port c tr of None \<Rightarrow> None | Some tr \<Rightarrow> write_bytes dev port cs tr)"

definition serial_write_string :: "device \<Rightarrow> u16 \<Rightarrow> u8 list option \<Rightarrow> io_trace \<Rightarrow> io_trace option" where
  "serial_write_string dev port str tr =
     (case str of None \<Rightarrow> Some tr | Some cs \<Rightarrow> write_bytes dev port cs tr)"

text \<open>The table \<open>"0123456789ABCDEF"\<close>.\<close>

definition hex_chars :: "u8 list" where
  "hex_chars = [0x30, 0x31, 0x32, 0x33, 0x34, 0x35, 0x36, 0x37, 0x38, 0x39,
     0x41, 0x42, 0x43, 0x44, 0x45, 0x46]"

text \<open>The loop for \<open>i = n - 1, \<dots>, 0\<close>.\<close>

fun write_nibbles :: "device \<Rightarrow> u16 \<Rightarrow> u64 \<Rightarrow> nat \<Rightarrow> io_trace \<Rightarrow> io_trace option" where
  "write_nibbles dev port v 0 tr = Some tr"
| "write_nibbles dev port v (Suc i) tr =
     (case serial_write_byte dev port (hex_chars ! unat (ucast (drop_bit (i * 4) v AND 0xF) :: u8)) tr of
        None \<Rightarrow> None
      | Some tr \<Rightarrow> write_nibbles dev port v i tr)"

definition serial_write_hex :: "device \<Rightarrow> u16 \<Rightarrow> u64 \<Rightarrow> int \<Rightarrow> io_trace \<Rightarrow> io_trace option" where
  "serial_write_hex dev port v num_digits tr =
     (let num_digits = (if num_digits \<le> 0 \<or> 16 < num_digits then 16 else num_digits)
      in case serial_write_string dev port (Some [0x30, 0x78]) tr of
           None \<Rightarrow> None
         | Some tr \<Rightarrow> write_nibbles dev port v (nat num_digits) tr)"

definition serial_read_byte :: "device \<Rightarrow> u16 \<Rightarrow> io_trace \<Rightarrow> (u8 \<times> io_trace) option" where
  "serial_read_byte dev port tr =
     (case wait_until (serial_is_data_ready dev port) tr of
        None \<Rightarrow> None
      | Some tr \<Rightarrow> Some (inb dev (port + SERIAL_DATA) tr))"

section \<open>Waiting\<close>

text \<open>Polling the line status writes nothing.\<close>

lemma poll_ready_bytes [simp]:
  "bytes_out p (poll (serial_is_transmit_ready dev port) n tr) = bytes_out p tr"
  by (induction n arbitrary: tr) (auto simp: serial_is_transmit_ready_def inb_def Let_def)

text \<open>
  What the data sheet says of the transmitter of a UART: whatever was written, the holding register
  is empty after finitely many reads of the line status.
\<close>

definition transmits :: "device \<Rightarrow> u16 \<Rightarrow> bool" where
  "transmits dev port \<longleftrightarrow>
     (\<forall>tr. \<exists>n. fst (serial_is_transmit_ready dev port (poll (serial_is_transmit_ready dev port) n tr)))"

lemma serial_write_byte_sends:
  assumes "transmits dev port"
  shows "\<exists>tr'. serial_write_byte dev port v tr = Some tr'
    \<and> bytes_out (port + SERIAL_DATA) tr' = bytes_out (port + SERIAL_DATA) tr @ [v]"
proof -
  obtain n where "fst (serial_is_transmit_ready dev port (poll (serial_is_transmit_ready dev port) n tr))"
    using assms by (auto simp: transmits_def)
  then have "\<exists>k \<le> n. wait_until (serial_is_transmit_ready dev port) tr
      = Some (poll (serial_is_transmit_ready dev port) (Suc k) tr)" by (rule wait_until_returns)
  then show ?thesis
    by (auto simp: serial_write_byte_def outb_def simp del: poll.simps)
qed

lemma write_bytes_sends:
  assumes "transmits dev port"
  shows "\<exists>tr'. write_bytes dev port cs tr = Some tr'
    \<and> bytes_out (port + SERIAL_DATA) tr' = bytes_out (port + SERIAL_DATA) tr @ cs"
proof (induction cs arbitrary: tr)
  case (Cons c cs)
  obtain tr1 where 1: "serial_write_byte dev port c tr = Some tr1"
    "bytes_out (port + SERIAL_DATA) tr1 = bytes_out (port + SERIAL_DATA) tr @ [c]"
    using serial_write_byte_sends [OF assms] by blast
  with Cons.IH [of tr1] show ?case by auto
qed simp

text \<open>The nibbles of a value are written by one pass over the list of their characters.\<close>

definition nibble_char :: "u64 \<Rightarrow> nat \<Rightarrow> u8" where
  "nibble_char v i = hex_chars ! (unat v div 16 ^ i mod 16)"

lemma unat_nibble: "unat (ucast (drop_bit (i * 4) v AND 0xF) :: u8) = unat (v :: u64) div 16 ^ i mod 16"
proof -
  have 1: "unat (drop_bit (i * 4) v AND 0xF) = unat v div 16 ^ i mod 16"
  proof -
    have "(0xF :: u64) = mask 4" by (simp add: mask_eq_exp_minus_1)
    then have "unat (drop_bit (i * 4) v AND 0xF) = unat (take_bit 4 (drop_bit (i * 4) v))"
      by (simp add: take_bit_eq_mask)
    also have "\<dots> = unat v div 2 ^ (i * 4) mod 16"
      unfolding unsigned_take_bit_eq unsigned_drop_bit_eq
      by (simp add: take_bit_eq_mod [where 'a = nat] drop_bit_eq_div [where 'a = nat]
          mod_less [OF unat_lt_u64 [of v, simplified]])
    also have "(2 :: nat) ^ (i * 4) = 16 ^ i" using power_mult [of "2 :: nat" 4 i] by (simp add: mult.commute)
    finally show ?thesis .
  qed
  have "unat (ucast (drop_bit (i * 4) v AND 0xF) :: u8) = unat (drop_bit (i * 4) v AND 0xF) mod 256"
    by (simp add: unsigned_ucast_eq take_bit_eq_mod)
  with 1 show ?thesis by simp
qed

lemma write_nibbles_eq:
  "write_nibbles dev port v n tr = write_bytes dev port (map (nibble_char v) (rev [0..<n])) tr"
  by (induction n arbitrary: tr) (simp_all add: unat_nibble nibble_char_def cong: option.case_cong)

text \<open>The value of a string of hexadecimal digits.\<close>

fun hex_value :: "u8 list \<Rightarrow> nat" where
  "hex_value [] = 0"
| "hex_value (c # cs) = (if c < 0x41 then unat c - 0x30 else unat c - 0x37) * 16 ^ length cs + hex_value cs"

lemma hex_char_value: "k < 16 \<Longrightarrow>
    (if hex_chars ! k < 0x41 then unat (hex_chars ! k) - 0x30 else unat (hex_chars ! k) - 0x37) = k"
proof -
  assume "k < 16"
  then have "k \<in> set [0..<16]" by simp
  then show ?thesis by (simp add: upt_rec hex_chars_def) (elim disjE; simp)
qed

lemma hex_char_mem: "hex_chars ! (k mod 16) \<in> set hex_chars"
proof (rule nth_mem)
  have "k mod 16 < 16" by simp
  then show "k mod 16 < length hex_chars" by (simp add: hex_chars_def)
qed

lemma hex_value_nibbles: "hex_value (map (nibble_char v) (rev [0..<n])) = unat v mod 16 ^ n"
proof (induction n)
  case (Suc n)
  have "hex_value (map (nibble_char v) (rev [0..<Suc n]))
      = (unat v div 16 ^ n mod 16) * 16 ^ n + unat v mod 16 ^ n"
    using Suc hex_char_value [of "unat v div 16 ^ n mod 16"] by (simp add: nibble_char_def [of v n])
  also have "\<dots> = unat v mod (16 ^ n * 16)" by (subst mod_mult2_eq) (simp add: mult.commute)
  finally show ?case by (simp add: mult.commute)
qed simp

section \<open>Properties\<close>

text \<open>
  On a UART whose transmitter empties after finitely many polls of its status, every write
  returns: \<open>serial_write_string\<close> sends exactly the bytes of the string, in order, and a null pointer
  sends nothing; \<open>serial_write_hex\<close> sends \<open>0x\<close> and then as many digits as asked for (16 when the
  number asked for is not from 1 to 16), which denote the low digits of the value.
\<close>

theorem serial_output_correct:
  assumes "transmits dev port"
  shows "(\<exists>tr'. serial_write_string dev port s tr = Some tr'
      \<and> bytes_out (port + SERIAL_DATA) tr'
          = bytes_out (port + SERIAL_DATA) tr @ (case s of None \<Rightarrow> [] | Some cs \<Rightarrow> cs))
    \<and> (let n = (if 1 \<le> d \<and> d \<le> 16 then nat d else 16)
       in \<exists>tr' ds. serial_write_hex dev port v d tr = Some tr'
         \<and> bytes_out (port + SERIAL_DATA) tr' = bytes_out (port + SERIAL_DATA) tr @ [0x30, 0x78] @ ds
         \<and> length ds = n \<and> set ds \<subseteq> set hex_chars \<and> hex_value ds = unat v mod 16 ^ n)"
proof
  show "\<exists>tr'. serial_write_string dev port s tr = Some tr'
      \<and> bytes_out (port + SERIAL_DATA) tr'
          = bytes_out (port + SERIAL_DATA) tr @ (case s of None \<Rightarrow> [] | Some cs \<Rightarrow> cs)"
    using write_bytes_sends [OF assms] by (cases s) (auto simp: serial_write_string_def)
  define n where "n = (if 1 \<le> d \<and> d \<le> 16 then nat d else 16)"
  obtain tr1 where 1: "write_bytes dev port [0x30, 0x78] tr = Some tr1"
    "bytes_out (port + SERIAL_DATA) tr1 = bytes_out (port + SERIAL_DATA) tr @ [0x30, 0x78]"
    using write_bytes_sends [OF assms] by blast
  obtain tr2 where 2: "write_nibbles dev port v n tr1 = Some tr2"
    "bytes_out (port + SERIAL_DATA) tr2
      = bytes_out (port + SERIAL_DATA) tr1 @ map (nibble_char v) (rev [0..<n])"
    using write_bytes_sends [OF assms] unfolding write_nibbles_eq by blast
  have n: "(if d \<le> 0 \<or> 16 < d then 16 else d) = int n" by (auto simp: n_def)
  have "serial_write_hex dev port v d tr = Some tr2"
    using 1(1) 2(1) unfolding serial_write_hex_def n Let_def serial_write_string_def by simp
  moreover have "set (map (nibble_char v) (rev [0..<n])) \<subseteq> set hex_chars"
    using hex_char_mem by (auto simp: nibble_char_def)
  ultimately have "\<exists>tr' ds. serial_write_hex dev port v d tr = Some tr'
         \<and> bytes_out (port + SERIAL_DATA) tr' = bytes_out (port + SERIAL_DATA) tr @ [0x30, 0x78] @ ds
         \<and> length ds = n \<and> set ds \<subseteq> set hex_chars \<and> hex_value ds = unat v mod 16 ^ n"
    using 1(2) 2(2) hex_value_nibbles [of v n]
    by (intro exI [of _ tr2] exI [of _ "map (nibble_char v) (rev [0..<n])"]) simp
  then show "let n = (if 1 \<le> d \<and> d \<le> 16 then nat d else 16)
       in \<exists>tr' ds. serial_write_hex dev port v d tr = Some tr'
         \<and> bytes_out (port + SERIAL_DATA) tr' = bytes_out (port + SERIAL_DATA) tr @ [0x30, 0x78] @ ds
         \<and> length ds = n \<and> set ds \<subseteq> set hex_chars \<and> hex_value ds = unat v mod 16 ^ n"
    unfolding n_def Let_def .
qed

text \<open>A UART that is busy for one poll after every byte.\<close>

definition demo_uart :: device where
  "demo_uart = \<lparr>dev8 = (\<lambda>tr port. case rev tr of Out8 _ _ # _ \<Rightarrow> 0 | _ \<Rightarrow> 0x20),
     dev16 = (\<lambda>_ _. 0), dev32 = (\<lambda>_ _. 0)\<rparr>"

lemma demo_uart_transmits: "transmits demo_uart 0x3F8"
proof -
  have "fst (serial_is_transmit_ready demo_uart 0x3F8 (poll (serial_is_transmit_ready demo_uart 0x3F8) 1 tr))"
    for tr by (simp add: serial_is_transmit_ready_def inb_def demo_uart_def Let_def SERIAL_LINE_THR_EMPTY_def)
  then show ?thesis unfolding transmits_def by blast
qed

theorem serial_output_correct_witness:
  "transmits demo_uart 0x3F8
    \<and> (\<exists>tr'. serial_write_string demo_uart 0x3F8 (Some [0x48, 0x69]) [] = Some tr'
         \<and> bytes_out 0x3F8 tr' = [0x48, 0x69])"
  using serial_output_correct [OF demo_uart_transmits, of "Some [0x48, 0x69]" "[]" 1 0] demo_uart_transmits
  by (simp add: SERIAL_DATA_def)

end
