(* ===== verification/Stdio.thy ===== *)
theory Stdio
  imports Prelude
begin

text \<open>
  Formatted output into a buffer, \<open>src/kernel/src/lib/stdio.c\<close>. A format is the list of its bytes
  before the terminator, and a \<open>va_list\<close> the list of the arguments that are left. Taking an argument
  that is not there or has another type is undefined, as is reading the format past its terminator:
  the result is then \<open>None\<close>. The functions give the bytes they write, from the start of the buffer on.
\<close>

datatype va_arg = VA_int u32 | VA_ll u64 | VA_str "u8 list option"

section \<open>Digits\<close>

text \<open>\<open>while (value > 0 && p < buffer + n) *p++ = '0' + value % 10, value /= 10\<close>\<close>

fun dec_buffer :: "nat \<Rightarrow> int \<Rightarrow> u8 list" where
  "dec_buffer 0 v = []"
| "dec_buffer (Suc n) v = (if 0 < v then (0x30 + of_int (v mod 10)) # dec_buffer n (v div 10) else [])"

fun hex_buffer :: "nat \<Rightarrow> u32 \<Rightarrow> u8 list" where
  "hex_buffer 0 v = []"
| "hex_buffer (Suc n) v =
     (if 0 < v
      then (let digit = v mod 16
            in if digit < 10 then 0x30 + ucast digit else 0x61 + (ucast digit - 10)) # hex_buffer n (v div 16)
      else [])"

text \<open>\<open>while (p > buffer && remaining > 0) *str++ = *(--p), remaining--\<close>\<close>

fun emit :: "u8 list \<Rightarrow> u64 \<Rightarrow> u8 list \<times> u64" where
  "emit [] remaining = ([], remaining)"
| "emit (c # cs) remaining =
     (if 0 < remaining then let (out, r) = emit cs (remaining - 1) in (c # out, r) else ([], remaining))"

section \<open>One conversion\<close>

text \<open>The \<open>switch\<close>: the bytes written, what remains of the buffer and the arguments left.\<close>

definition null_string :: "u8 list" where
  "null_string = [0x28, 0x6E, 0x75, 0x6C, 0x6C, 0x29]"

definition conv_s :: "u8 list option \<Rightarrow> u64 \<Rightarrow> u8 list \<times> u64" where
  "conv_s str remaining =
     (let s = (case str of None \<Rightarrow> null_string | Some s \<Rightarrow> s);
          len = of_nat (length s);
          len = (if remaining < len then remaining else len)
      in (take (unat len) s, remaining - len))"

definition conv_d :: "u32 \<Rightarrow> u64 \<Rightarrow> u8 list \<times> u64" where
  "conv_d w remaining =
     (let neg = sint w < 0;
          value = (if neg then sint (- w) else sint w);
          sign = (if neg then [0x2D] else []);
          remaining = (if neg then remaining - 1 else remaining)
      in if neg \<and> remaining = 0 then (sign, remaining)
         else let buffer = (if value = 0 then [0x30] else dec_buffer 12 value);
                  (out, remaining) = emit (rev buffer) remaining
              in (sign @ out, remaining))"

definition conv_x :: "u32 \<Rightarrow> u64 \<Rightarrow> u8 list \<times> u64" where
  "conv_x value remaining = emit (rev (if value = 0 then [0x30] else hex_buffer 8 value)) remaining"

definition conv :: "u8 \<Rightarrow> va_arg list \<Rightarrow> u64 \<Rightarrow> (u8 list \<times> u64 \<times> va_arg list) option" where
  "conv c args remaining =
     (if c = 0x73 then
        (case args of VA_str s # args' \<Rightarrow> (let (out, r) = conv_s s remaining in Some (out, r, args')) | _ \<Rightarrow> None)
      else if c = 0x63 then
        (case args of VA_int w # args' \<Rightarrow> Some ([ucast w], remaining - 1, args') | _ \<Rightarrow> None)
      else if c = 0x64 then
        (case args of VA_int w # args' \<Rightarrow> (let (out, r) = conv_d w remaining in Some (out, r, args')) | _ \<Rightarrow> None)
      else if c = 0x78 then
        (case args of VA_int w # args' \<Rightarrow> (let (out, r) = conv_x w remaining in Some (out, r, args')) | _ \<Rightarrow> None)
      else Some ([0x25, c], remaining - 2, args))"

section \<open>The loop\<close>

fun vsnprintf_loop :: "u8 list \<Rightarrow> va_arg list \<Rightarrow> u64 \<Rightarrow> u8 list option" where
  "vsnprintf_loop [] args remaining = Some []"
| "vsnprintf_loop [f] args remaining =
     (if \<not> 0 < remaining then Some [] else if f \<noteq> 0x25 then Some [f] else None)"
| "vsnprintf_loop (f # c # fs) args remaining =
     (if \<not> 0 < remaining then Some []
      else if f \<noteq> 0x25 then map_option (Cons f) (vsnprintf_loop (c # fs) args (remaining - 1))
      else if c = 0x25 then map_option (Cons 0x25) (vsnprintf_loop fs args (remaining - 1))
      else case conv c args remaining of
             None \<Rightarrow> None
           | Some (out, r, args') \<Rightarrow> map_option ((@) out) (vsnprintf_loop fs args' r))"

text \<open>The bytes written to the buffer, the terminator included, and the result.\<close>

definition vsnprintf :: "u64 \<Rightarrow> u8 list \<Rightarrow> va_arg list \<Rightarrow> (u8 list \<times> int) option" where
  "vsnprintf sz format args =
     (if sz = 0 then Some ([], 0)
      else case vsnprintf_loop format args (sz - 1) of
             None \<Rightarrow> None
           | Some out \<Rightarrow> Some (out @ [0], int (length out)))"

definition snprintf :: "u64 \<Rightarrow> u8 list \<Rightarrow> va_arg list \<Rightarrow> (u8 list \<times> int) option" where
  "snprintf sz format args = vsnprintf sz format args"

section \<open>The specification: the whole text, then cut off\<close>

text \<open>The numeral of a number to a base, most significant digit first, with lower case letters.\<close>

definition digit_char :: "nat \<Rightarrow> u8" where
  "digit_char d = (if d < 10 then 0x30 + of_nat d else 0x61 + of_nat (d - 10))"

function numeral_of :: "nat \<Rightarrow> nat \<Rightarrow> u8 list" where
  "numeral_of b n = (if b < 2 \<or> n < b then [digit_char n] else numeral_of b (n div b) @ [digit_char (n mod b)])"
  by auto
termination
  by (relation "measure snd") (auto simp: not_less)

declare numeral_of.simps [simp del]

text \<open>
  The text of a conversion and of a format without regard to the size of the buffer; \<open>None\<close> for a
  conversion that \<open>vsnprintf\<close> does not know, for arguments that do not fit and for the smallest
  integer.
\<close>

definition render_conv :: "u8 \<Rightarrow> va_arg list \<Rightarrow> (u8 list \<times> va_arg list) option" where
  "render_conv c args = (case args of
     VA_str s # args' \<Rightarrow>
       (let str = (case s of None \<Rightarrow> null_string | Some s \<Rightarrow> s)
        in if c = 0x73 \<and> length str < 2 ^ 64 then Some (str, args') else None)
   | VA_int w # args' \<Rightarrow>
       (if c = 0x63 then Some ([ucast w], args')
        else if c = 0x64 \<and> w \<noteq> 0x80000000
          then Some ((if sint w < 0 then [0x2D] else []) @ numeral_of 10 (nat \<bar>sint w\<bar>), args')
        else if c = 0x78 then Some (numeral_of 16 (unat w), args')
        else None)
   | _ \<Rightarrow> None)"

fun render :: "u8 list \<Rightarrow> va_arg list \<Rightarrow> u8 list option" where
  "render [] args = Some []"
| "render [f] args = (if f \<noteq> 0x25 then Some [f] else None)"
| "render (f # c # fs) args =
     (if f \<noteq> 0x25 then map_option (Cons f) (render (c # fs) args)
      else if c = 0x25 then map_option (Cons 0x25) (render fs args)
      else case render_conv c args of
             None \<Rightarrow> None
           | Some (tx, args') \<Rightarrow> map_option ((@) tx) (render fs args'))"

lemma emit_eq: "emit cs r = (take (unat r) cs, r - of_nat (length (take (unat r) cs)))"
proof (induction cs arbitrary: r)
  case (Cons c cs)
  show ?case
  proof (cases "r = 0")
    case False
    then have u: "unat r = Suc (unat (r - 1))" by (metis Suc_pred' bot_nat_0.not_eq_extremum unat_eq_zero unat_minus_one)
    then show ?thesis using False Cons [of "r - 1"] by (simp add: word_greater_zero_iff u algebra_simps)
  qed simp
qed simp

text \<open>The buffers of digits hold the numeral backwards.\<close>

lemma dec_buffer_numeral:
  assumes "0 < m" "m < 10 ^ n"
  shows "rev (dec_buffer n (int m)) = numeral_of 10 m"
  using assms
proof (induction n arbitrary: m)
  case (Suc n)
  have d: "0x30 + of_int (int m mod 10) = digit_char (m mod 10)"
  proof -
    have "of_int (int m mod 10) = (of_nat (m mod 10) :: u8)" by (metis of_int_of_nat_eq of_nat_numeral zmod_int)
    then show ?thesis by (simp add: digit_char_def)
  qed
  have dv: "int m div 10 = int (m div 10)" by (simp add: zdiv_int)
  show ?case
  proof (cases "m < 10")
    case True
    then have "dec_buffer n (int m div 10) = []" by (cases n) auto
    then show ?thesis using Suc.prems(1) d True by (simp add: numeral_of.simps [of 10 m])
  next
    case False
    have "rev (dec_buffer n (int (m div 10))) = numeral_of 10 (m div 10)"
      using Suc.IH [of "m div 10"] False Suc.prems(2) by (simp add: less_mult_imp_div_less mult.commute)
    then show ?thesis using Suc.prems(1) d False by (simp add: numeral_of.simps [of 10 m] dv)
  qed
qed simp

lemma hex_digit_char:
  "(let digit = v mod 16 in if digit < 10 then 0x30 + ucast digit else 0x61 + (ucast digit - 10)) = digit_char (unat (v :: u32) mod 16)"
proof -
  have u: "unat (v mod 16) = unat v mod 16" by (simp add: unat_mod)
  have "(ucast (v mod 16) :: u8) = of_nat (unat v mod 16)" by (simp add: word_unat_eq_iff unat_of_nat unat_ucast_mod u)
  moreover have "v mod 16 < 10 \<longleftrightarrow> unat v mod 16 < 10" by (simp add: word_less_nat_alt u)
  ultimately show ?thesis by (simp add: digit_char_def Let_def of_nat_diff)
qed

lemma hex_buffer_numeral:
  assumes "0 < v" "unat v < 16 ^ n"
  shows "rev (hex_buffer n v) = numeral_of 16 (unat v)"
  using assms
proof (induction n arbitrary: v)
  case (Suc n)
  have dv: "unat (v div 16) = unat v div 16" by (simp add: unat_div)
  show ?case
  proof (cases "unat v < 16")
    case True
    then have "v div 16 = 0" by (simp add: word_unat_eq_iff dv)
    then have "hex_buffer n (v div 16) = []" by (cases n) auto
    then show ?thesis using Suc.prems(1) True by (simp add: hex_digit_char numeral_of.simps [of 16 "unat v"] del: Let_def)
  next
    case False
    have "0 < v div 16" using False by (simp add: word_less_nat_alt dv)
    then have "rev (hex_buffer n (v div 16)) = numeral_of 16 (unat v div 16)"
      using Suc.IH [of "v div 16"] Suc.prems(2) by (simp add: dv less_mult_imp_div_less mult.commute)
    then show ?thesis using Suc.prems(1) False by (simp add: hex_digit_char numeral_of.simps [of 16 "unat v"])
  qed
qed (simp add: word_less_nat_alt)

lemma emit_fits: "fst (emit cs r) = take (unat r) cs" "unat (snd (emit cs r)) = unat r - length cs"
proof -
  show "fst (emit cs r) = take (unat r) cs" by (simp add: emit_eq)
  let ?k = "length (take (unat r) cs)"
  have k: "?k \<le> unat r" by simp
  then have "unat (of_nat ?k :: u64) = ?k" using unat_lt_u64 [of r] by (intro unat_of_nat_small) simp
  then have "unat (r - of_nat ?k) = unat r - ?k" using k by (subst unat_sub_le) (simp_all add: word_le_nat_alt)
  then show "unat (snd (emit cs r)) = unat r - length cs" by (simp add: emit_eq min_def)
qed

text \<open>Each conversion writes its text cut off at what remains of the buffer.\<close>

definition cut :: "u8 list \<times> u64 \<Rightarrow> u8 list \<Rightarrow> u64 \<Rightarrow> bool" where
  "cut res full r \<longleftrightarrow> fst res = take (unat r) full \<and> unat (snd res) = unat r - length full"

lemma conv_s_cut:
  assumes "length (case s of None \<Rightarrow> null_string | Some s \<Rightarrow> s) < 2 ^ 64"
  shows "cut (conv_s s r) (case s of None \<Rightarrow> null_string | Some s \<Rightarrow> s) r"
proof -
  define str where "str = (case s of None \<Rightarrow> null_string | Some s \<Rightarrow> s)"
  have l: "unat (of_nat (length str) :: u64) = length str" using assms by (intro unat_of_nat_small) (simp add: str_def)
  then have "r < of_nat (length str) \<longleftrightarrow> unat r < length str" by (simp add: word_less_nat_alt)
  moreover have "unat (r - of_nat (length str)) = unat r - length str" if "\<not> unat r < length str"
    using that l by (subst unat_sub_le) (simp_all add: word_le_nat_alt)
  ultimately show ?thesis by (auto simp: conv_s_def Let_def cut_def l simp flip: str_def)
qed

lemma conv_x_cut: "cut (conv_x w r) (numeral_of 16 (unat w)) r"
proof (cases "w = 0")
  case True
  then show ?thesis by (simp add: conv_x_def cut_def emit_fits numeral_of.simps digit_char_def del: emit.simps)
next
  case False
  have "unat w < 16 ^ 8" using unsigned_less [of w, where 'a = nat] by simp
  then have "rev (hex_buffer 8 w) = numeral_of 16 (unat w)"
    using hex_buffer_numeral [of w 8] False by (simp add: word_greater_zero_iff)
  then show ?thesis using False by (simp add: conv_x_def cut_def emit_fits)
qed

lemma sint_minus_u32:
  assumes "(w :: u32) \<noteq> 0x80000000"
  shows "sint (- w) = - sint w"
proof -
  have b: "- (2 ^ 31) \<le> sint w" "sint w < 2 ^ 31" using sint_greater_eq [of w] sint_less [of w] by simp_all
  have "sint w \<noteq> - (2 ^ 31)"
  proof
    assume "sint w = - (2 ^ 31)"
    then have "w = word_of_int (- (2 ^ 31))" by (metis scast_eq scast_id)
    then show False using assms by simp
  qed
  then show ?thesis using b by (simp add: sint_word_minus signed_take_bit_int_eq_self)
qed

lemma conv_d_cut:
  assumes "w \<noteq> 0x80000000" and "0 < r"
  shows "cut (conv_d w r) ((if sint w < 0 then [0x2D] else []) @ numeral_of 10 (nat \<bar>sint w\<bar>)) r"
proof -
  define n where "n = nat \<bar>sint w\<bar>"
  define neg where "neg \<longleftrightarrow> sint w < 0"
  have b: "- (2 ^ 31) \<le> sint w" "sint w < 2 ^ 31" using sint_greater_eq [of w] sint_less [of w] by simp_all
  have "sint (- w) = - sint w" using assms(1) by (rule sint_minus_u32)
  then have v: "(if neg then sint (- w) else sint w) = int n" by (simp add: neg_def n_def)
  have "n < 10 ^ 12" using b by (simp add: n_def)
  then have buf: "rev (if int n = 0 then [0x30] else dec_buffer 12 (int n)) = numeral_of 10 n"
    using dec_buffer_numeral [of n 12] by (auto simp: numeral_of.simps [of 10 0] digit_char_def)
  have eq: "conv_d w r = (if neg \<and> (if neg then r - 1 else r) = 0 then (if neg then [0x2D] else [], if neg then r - 1 else r)
      else case emit (numeral_of 10 n) (if neg then r - 1 else r) of
        (out, q) \<Rightarrow> ((if neg then [0x2D] else []) @ out, q))"
    unfolding conv_d_def Let_def neg_def [symmetric] v buf by (rule refl)
  note cut_eq = cut_def eq n_def [symmetric] neg_def [symmetric]
  show ?thesis
  proof (cases neg)
    case False
    then show ?thesis unfolding cut_eq using emit_fits [of "numeral_of 10 n" r] by (simp add: split_beta)
  next
    case True
    have r: "unat r = Suc (unat (r - 1))"
      using assms(2) by (metis Suc_pred' unat_gt_0 unat_minus_one word_greater_zero_iff)
    have "unat (r - 1) = 0" if "r - 1 = 0" using that by simp
    with True r emit_fits [of "numeral_of 10 n" "r - 1"] show ?thesis unfolding cut_eq by (simp add: split_beta)
  qed
qed

lemma unat_Suc_pred: "(r :: u64) \<noteq> 0 \<Longrightarrow> unat r = Suc (unat (r - 1))"
  by (metis Suc_pred' bot_nat_0.not_eq_extremum unat_eq_zero unat_minus_one)

lemma conv_cut:
  assumes "render_conv c args = Some (tx, args')" and "r \<noteq> 0"
  shows "\<exists>out q. conv c args r = Some (out, q, args') \<and> cut (out, q) tx r"
proof -
  have ex: "\<exists>out q. p = (out, q) \<and> cut (out, q) tx r" if "cut p tx r" for p using that by (cases p) auto
  obtain a where a: "args = a # args'"
    using assms(1) by (auto simp: render_conv_def Let_def split: list.splits va_arg.splits if_splits)
  show ?thesis
  proof (cases a)
    case (VA_str s)
    then have "c = 0x73" "cut (conv_s s r) tx r"
      using assms(1) a conv_s_cut [of s r] by (auto simp: render_conv_def Let_def split: if_splits)
    then show ?thesis using ex [of "conv_s s r"] a VA_str by (auto simp: conv_def)
  next
    case (VA_int w)
    consider "c = 0x63" "tx = [ucast w]" | "c = 0x64" "cut (conv_d w r) tx r" | "c = 0x78" "cut (conv_x w r) tx r"
      using assms a VA_int conv_d_cut [of w r] conv_x_cut [of w r]
      by (auto simp: render_conv_def word_greater_zero_iff split: if_splits)
    then show ?thesis
    proof cases
      case 1
      then show ?thesis using a VA_int assms(2) unat_Suc_pred [of r] by (simp add: conv_def cut_def)
    next
      case 2
      then show ?thesis using ex [of "conv_d w r"] a VA_int by (auto simp: conv_def)
    next
      case 3
      then show ?thesis using ex [of "conv_x w r"] a VA_int by (auto simp: conv_def)
    qed
  next
    case (VA_ll x)
    then show ?thesis using assms(1) a by (simp add: render_conv_def)
  qed
qed

lemma vsnprintf_loop_render:
  "render fmt args = Some full \<Longrightarrow> vsnprintf_loop fmt args r = Some (take (unat r) full)"
proof (induction fmt args arbitrary: full r rule: render.induct)
  case (1 args)
  then show ?case by simp
next
  case (2 f args)
  then show ?case using unat_Suc_pred [of r] by (auto simp: word_greater_zero_iff split: if_splits)
next
  case (3 f c fs args)
  show ?case
  proof (cases "r = 0")
    case False
    then have r: "0 < r" and u: "unat r = Suc (unat (r - 1))"
      using unat_Suc_pred by (simp_all add: word_greater_zero_iff)
    consider (plain) x where "f \<noteq> 0x25" "render (c # fs) args = Some x" "full = f # x"
      | (percent) x where "f = 0x25" "c = 0x25" "render fs args = Some x" "full = 0x25 # x"
      | (known) tx args' x where "f = 0x25" "c \<noteq> 0x25" "render_conv c args = Some (tx, args')"
          "render fs args' = Some x" "full = tx @ x"
      using 3(4) by (auto split: if_splits option.splits)
    then show ?thesis
    proof cases
      case plain
      then show ?thesis using 3(1) [OF plain(1,2)] r u by simp
    next
      case percent
      then show ?thesis using 3(2) [OF _ percent(2,3)] r u by simp
    next
      case known
      obtain out q where c: "conv c args r = Some (out, q, args')" "cut (out, q) tx r"
        using conv_cut [OF known(3) False] by blast
      have "vsnprintf_loop fs args' q = Some (take (unat q) x)" using 3(3) [OF _ _ known(3)] known by simp
      then show ?thesis using c r known by (simp add: cut_def)
    qed
  qed simp
qed

section \<open>Properties\<close>





end
