(* ===== verification/Log.thy ===== *)
theory Log
  imports Serial Stdio
begin

text \<open>
  The kernel log, \<open>src/kernel/src/utils/log.c\<close>: a formatter of its own and output over the first
  serial port. Formats and arguments are as in theory Stdio. The formatter writes into \<open>log_buffer\<close>
  without a bound; the model gives the bytes it writes before the terminator. The field width is an
  unbounded integer.
\<close>

section \<open>Numbers\<close>

text \<open>
  The loops that count the digits, and the loop that writes them from the last to the first
  (\<open>*--p = ...\<close>) in front of those already written.
\<close>

function count_dec :: "int \<Rightarrow> nat" where
  "count_dec v = (if 0 < v then Suc (count_dec (v div 10)) else 0)"
  by auto
termination by (relation "measure nat") auto

function back_dec :: "int \<Rightarrow> u8 list \<Rightarrow> u8 list" where
  "back_dec v acc = (if 0 < v then back_dec (v div 10) ((0x30 + of_int (v mod 10)) # acc) else acc)"
  by auto
termination by (relation "measure (\<lambda>(v, _). nat v)") auto

declare count_dec.simps [simp del] back_dec.simps [simp del]

lemma drop_bit_4_less: "(v :: 'a::len word) > 0 \<Longrightarrow> unat (drop_bit 4 v) < unat v"
  by (simp add: unat_drop_bit word_less_nat_alt)

function count_hex :: "'a::len word \<Rightarrow> nat" where
  "count_hex v = (if 0 < v then Suc (count_hex (drop_bit 4 v)) else 0)"
  by auto
termination by (relation "measure unat") (auto simp: drop_bit_4_less)

function back_hex :: "bool \<Rightarrow> 'a::len word \<Rightarrow> u8 list \<Rightarrow> u8 list" where
  "back_hex uppercase v acc =
     (if 0 < v
      then back_hex uppercase (drop_bit 4 v)
             ((let digit = v AND 0xF
               in if digit < 10 then 0x30 + ucast digit
                  else (if uppercase then 0x41 else 0x61) + (ucast digit - 10)) # acc)
      else acc)"
  by auto
termination by (relation "measure (\<lambda>(_, v, _). unat v)") (auto simp: drop_bit_4_less)

declare count_hex.simps [simp del] back_hex.simps [simp del]

text \<open>Padding with zeros up to a width, in front of a number of so many digits.\<close>

definition zero_padding :: "bool \<Rightarrow> int \<Rightarrow> nat \<Rightarrow> u8 list" where
  "zero_padding zero_pad width digits =
     (if zero_pad \<and> int digits < width then replicate (nat (width - int digits)) 0x30 else [])"

definition put_dec :: "bool \<Rightarrow> int \<Rightarrow> int \<Rightarrow> u8 list" where
  "put_dec zero_pad width v =
     (if v = 0 then [0x30] else zero_padding zero_pad width (count_dec v) @ back_dec v [])"

definition put_hex :: "bool \<Rightarrow> bool \<Rightarrow> int \<Rightarrow> 'a::len word \<Rightarrow> u8 list" where
  "put_hex uppercase zero_pad width v =
     (if v = 0 then [0x30] else zero_padding zero_pad width (count_hex v) @ back_hex uppercase v [])"

text \<open>\<open>for (i = 15; i >= 0; i--)\<close> over the digits of a pointer.\<close>

definition put_pointer :: "u64 \<Rightarrow> u8 list" where
  "put_pointer v = [0x30, 0x78] @
     (if v = 0 then [0x30]
      else map (\<lambda>i. let digit = drop_bit (i * 4) v AND 0xF
                    in if digit < 10 then 0x30 + ucast digit else 0x41 + (ucast digit - 10)) (rev [0..<16]))"

section \<open>The formatter\<close>

text \<open>\<open>while (*fmt >= '0' && *fmt <= '9') width = width * 10 + (*fmt - '0')\<close>\<close>

fun read_width :: "int \<Rightarrow> u8 list \<Rightarrow> int \<times> u8 list" where
  "read_width width [] = (width, [])"
| "read_width width (c # cs) =
     (if 0x30 \<le> c \<and> c \<le> 0x39 then read_width (width * 10 + (uint c - 0x30)) cs else (width, c # cs))"

lemma read_width_length [simp]: "length (snd (read_width w cs)) \<le> length cs"
  by (induction w cs rule: read_width.induct) (auto intro: le_SucI)

text \<open>The \<open>switch\<close>, but for the letter \<open>l\<close>: the bytes written and the arguments left.\<close>

definition log_conv :: "u8 \<Rightarrow> bool \<Rightarrow> int \<Rightarrow> va_arg list \<Rightarrow> (u8 list \<times> va_arg list) option" where
  "log_conv c zero_pad width args =
     (if c = 0x73 then
        (case args of VA_str s # args' \<Rightarrow> Some (case s of None \<Rightarrow> null_string | Some s \<Rightarrow> s, args') | _ \<Rightarrow> None)
      else if c = 0x63 then
        (case args of VA_int w # args' \<Rightarrow> Some ([ucast w], args') | _ \<Rightarrow> None)
      else if c = 0x64 then
        (case args of VA_int w # args' \<Rightarrow>
             Some (if sint w < 0 then 0x2D # put_dec zero_pad width (sint (- w)) else put_dec zero_pad width (sint w), args')
         | _ \<Rightarrow> None)
      else if c = 0x75 then
        (case args of VA_int w # args' \<Rightarrow> Some (put_dec zero_pad width (uint w), args') | _ \<Rightarrow> None)
      else if c = 0x78 \<or> c = 0x58 then
        (case args of VA_int w # args' \<Rightarrow> Some (put_hex (c = 0x58) zero_pad width w, args') | _ \<Rightarrow> None)
      else if c = 0x70 then
        (case args of VA_ll v # args' \<Rightarrow> Some (put_pointer v, args') | _ \<Rightarrow> None)
      else if c = 0x25 then Some ([0x25], args)
      else Some ([0x25, c], args))"

text \<open>
  The flag, the width and the letter of a conversion with the format behind it. A format that ends
  inside a conversion is read past its terminator, \<open>None\<close>.
\<close>

definition read_spec :: "u8 list \<Rightarrow> (bool \<times> int \<times> u8 \<times> u8 list) option" where
  "read_spec fs =
     (let zero_pad = (fs \<noteq> [] \<and> hd fs = 0x30);
          (width, rest) = read_width 0 (if zero_pad then tl fs else fs)
      in case rest of [] \<Rightarrow> None | c # cs \<Rightarrow> Some (zero_pad, width, c, cs))"

lemma read_spec_length:
  assumes "read_spec fs = Some (zero_pad, width, c, cs)"
  shows "length cs < length fs"
proof -
  define gs where "gs = (if fs \<noteq> [] \<and> hd fs = 0x30 then tl fs else fs)"
  have "snd (read_width 0 gs) = c # cs"
    using assms by (auto simp: read_spec_def Let_def gs_def split: list.splits prod.splits)
  then have "length cs < length gs" using read_width_length [of 0 gs] by simp
  moreover have "length gs \<le> length fs" by (simp add: gs_def)
  ultimately show ?thesis by simp
qed

text \<open>\<open>llX\<close> and \<open>llx\<close>: the case of the letters and the format behind.\<close>

definition read_ll :: "u8 list \<Rightarrow> (bool \<times> u8 list) option" where
  "read_ll cs = (case cs of
     l # x # cs' \<Rightarrow> if l = 0x6C \<and> (x = 0x58 \<or> x = 0x78) then Some (x = 0x58, cs') else None
   | _ \<Rightarrow> None)"

lemma read_ll_length: "read_ll cs = Some (u, cs') \<Longrightarrow> length cs' < length cs"
  by (auto simp: read_ll_def split: list.splits if_splits)

function vsprintf :: "u8 list \<Rightarrow> va_arg list \<Rightarrow> u8 list option" where
  "vsprintf [] args = Some []"
| "vsprintf (f # fs) args =
     (if f \<noteq> 0x25 then map_option (Cons f) (vsprintf fs args)
      else case read_spec fs of
        None \<Rightarrow> None
      | Some (zero_pad, width, c, cs) \<Rightarrow>
          if c = 0x6C
          then (case read_ll cs of
                  Some (uppercase, cs') \<Rightarrow>
                    (case args of
                       VA_ll v # args' \<Rightarrow>
                         map_option ((@) (put_hex uppercase zero_pad width v)) (vsprintf cs' args')
                     | _ \<Rightarrow> None)
                | None \<Rightarrow> map_option ((@) [0x25, 0x6C]) (vsprintf cs args))
          else (case log_conv c zero_pad width args of
                  None \<Rightarrow> None
                | Some (out, args') \<Rightarrow> map_option ((@) out) (vsprintf cs args')))"
  by pat_completeness auto
termination
  by (relation "measure (\<lambda>(fmt, _). length fmt)")
    (auto dest!: read_spec_length read_ll_length)

section \<open>The log\<close>

datatype log_level_t = LOG_LEVEL_DEBUG | LOG_LEVEL_INFO | LOG_LEVEL_WARN | LOG_LEVEL_ERROR | LOG_LEVEL_CRITICAL

fun level_num :: "log_level_t \<Rightarrow> nat" where
  "level_num LOG_LEVEL_DEBUG = 0"
| "level_num LOG_LEVEL_INFO = 1"
| "level_num LOG_LEVEL_WARN = 2"
| "level_num LOG_LEVEL_ERROR = 3"
| "level_num LOG_LEVEL_CRITICAL = 4"

definition bytes_of :: "string \<Rightarrow> u8 list" where
  "bytes_of s = map (\<lambda>c. of_nat (of_char c)) s"

definition log_level_names :: "log_level_t \<Rightarrow> u8 list" where
  "log_level_names l = bytes_of ([''DEBUG'', ''INFO'', ''WARN'', ''ERROR'', ''CRITICAL''] ! level_num l)"

record log_state =
  current_log_level :: log_level_t
  log_initialized :: bool

definition SERIAL_COM1 :: u16 where "SERIAL_COM1 = 0x3F8"
definition SERIAL_BAUD_115200 :: u16 where "SERIAL_BAUD_115200 = 1"

text \<open>\<open>log_buffer\<close> is sent up to its first zero byte, which a \<open>%c\<close> may have written.\<close>

definition send_buffer :: "device \<Rightarrow> u8 list \<Rightarrow> io_trace \<Rightarrow> io_trace option" where
  "send_buffer dev out tr = serial_write_string dev SERIAL_COM1 (Some (takeWhile (\<lambda>c. c \<noteq> 0) out)) tr"

definition printf_serial :: "device \<Rightarrow> u8 list \<Rightarrow> va_arg list \<Rightarrow> log_state \<Rightarrow> io_trace \<Rightarrow> io_trace option" where
  "printf_serial dev fmt args s tr =
     (if \<not> log_initialized s then Some tr
      else case vsprintf fmt args of None \<Rightarrow> None | Some out \<Rightarrow> send_buffer dev out tr)"

definition log_printf ::
  "device \<Rightarrow> log_level_t \<Rightarrow> u8 list \<Rightarrow> va_arg list \<Rightarrow> log_state \<Rightarrow> io_trace \<Rightarrow> io_trace option" where
  "log_printf dev level fmt args s tr =
     (if \<not> log_initialized s \<or> level_num level < level_num (current_log_level s) then Some tr
      else case printf_serial dev (bytes_of ''[%s] '') [VA_str (Some (log_level_names level))] s tr of
        None \<Rightarrow> None
      | Some tr1 \<Rightarrow> (case vsprintf fmt args of
        None \<Rightarrow> None
      | Some out \<Rightarrow> (case send_buffer dev out tr1 of
        None \<Rightarrow> None
      | Some tr2 \<Rightarrow> (case serial_write_byte dev SERIAL_COM1 13 tr2 of
        None \<Rightarrow> None
      | Some tr3 \<Rightarrow> serial_write_byte dev SERIAL_COM1 10 tr3))))"

definition log_message :: "device \<Rightarrow> log_level_t \<Rightarrow> u8 list option \<Rightarrow> log_state \<Rightarrow> io_trace \<Rightarrow> io_trace option" where
  "log_message dev level msg s tr =
     (if \<not> log_initialized s \<or> level_num level < level_num (current_log_level s) then Some tr
      else printf_serial dev (bytes_of ''[%s] %s'' @ [13, 10]) [VA_str (Some (log_level_names level)), VA_str msg] s tr)"

definition log_init :: "device \<Rightarrow> log_level_t \<Rightarrow> log_state \<Rightarrow> io_trace \<Rightarrow> (bool \<times> log_state \<times> io_trace) option" where
  "log_init dev level s tr =
     (let s = s\<lparr>current_log_level := level\<rparr>;
          (result, tr) = serial_init dev SERIAL_COM1 SERIAL_BAUD_115200 tr
      in if result
         then let s = s\<lparr>log_initialized := True\<rparr>
              in map_option (\<lambda>tr. (result, s, tr))
                   (log_message dev LOG_LEVEL_INFO (Some (bytes_of ''Logging system initialized'')) s tr)
         else Some (result, s, tr))"

section \<open>The digits are the numeral\<close>

lemma back_dec_numeral:
  assumes "0 < v"
  shows "back_dec v acc = numeral_of 10 (nat v) @ acc" "count_dec v = length (numeral_of 10 (nat v))"
proof -
  have "back_dec v acc = numeral_of 10 (nat v) @ acc \<and> count_dec v = length (numeral_of 10 (nat v))"
    using assms
  proof (induction v acc rule: back_dec.induct)
    case (1 v acc)
    have d: "0x30 + of_int (v mod 10) = digit_char (nat v mod 10)"
    proof -
      have "nat v mod 10 = nat (v mod 10)" using 1(2) by (simp add: nat_mod_distrib)
      then show ?thesis using 1(2) by (simp add: digit_char_def)
    qed
    have dv: "nat (v div 10) = nat v div 10" by (simp add: nat_div_distrib')
    show ?case
    proof (cases "v < 10")
      case True
      then have "\<not> 0 < v div 10" by simp
      then have "back_dec (v div 10) as = as" "count_dec (v div 10) = 0" for as
        by (simp_all add: back_dec.simps [of "v div 10"] count_dec.simps [of "v div 10"])
      then show ?thesis using 1(2) True d
        by (simp add: back_dec.simps [of v] count_dec.simps [of v] numeral_of.simps [of 10 "nat v"] nat_less_iff)
    next
      case False
      then show ?thesis using 1(1) [OF 1(2)] 1(2) d
        by (simp add: back_dec.simps [of v] count_dec.simps [of v] numeral_of.simps [of 10 "nat v"] dv nat_less_iff)
    qed
  qed
  then show "back_dec v acc = numeral_of 10 (nat v) @ acc" "count_dec v = length (numeral_of 10 (nat v))"
    by auto
qed

text \<open>Upper case letters for lower case ones.\<close>

definition case_of :: "bool \<Rightarrow> u8 \<Rightarrow> u8" where
  "case_of uppercase c = (if uppercase \<and> 0x61 \<le> c then c - 0x20 else c)"

lemma case_of_digit:
  assumes "k < 16"
  shows "case_of uppercase (digit_char k)
    = (if k < 10 then 0x30 + of_nat k else (if uppercase then 0x41 else 0x61) + (of_nat k - 10))"
proof -
  from assms have "k \<in> set [0..<16]" by simp
  then show ?thesis by (simp add: upt_rec case_of_def digit_char_def) (elim disjE; simp)
qed

lemma hex_digit_case:
  fixes v :: "'a::len word"
  assumes "4 \<le> LENGTH('a)"
  shows "(let digit = v AND 0xF
     in if digit < 10 then 0x30 + ucast digit else (if uppercase then 0x41 else 0x61) + (ucast digit - 10))
    = case_of uppercase (digit_char (unat v mod 16))"
proof -
  have "v AND 0xF = take_bit 4 v" by (simp add: take_bit_eq_mask mask_eq_exp_minus_1)
  then have u: "unat (v AND 0xF) = unat v mod 16"
    by (simp add: unsigned_take_bit_eq take_bit_eq_mod [where 'a = nat])
  have ten: "unat (10 :: 'a word) = 10"
  proof -
    have "(2 :: nat) ^ 4 \<le> 2 ^ LENGTH('a)" using assms by (rule power_increasing) simp
    then show ?thesis by (simp add: unat_numeral take_bit_eq_mod)
  qed
  have "(ucast (v AND 0xF) :: u8) = of_nat (unat v mod 16)"
    by (simp add: word_unat_eq_iff unat_of_nat unat_ucast_mod u)
  moreover have "v AND 0xF < 10 \<longleftrightarrow> unat v mod 16 < 10" unfolding word_less_nat_alt u ten ..
  ultimately show ?thesis by (simp add: case_of_digit Let_def)
qed

lemma back_hex_numeral:
  fixes v :: "'a::len word"
  assumes "0 < v" and len: "4 \<le> LENGTH('a)"
  shows "back_hex uppercase v acc = map (case_of uppercase) (numeral_of 16 (unat v)) @ acc
    \<and> count_hex v = length (numeral_of 16 (unat v))"
  using assms(1)
proof (induction uppercase v acc rule: back_hex.induct)
  case (1 uppercase v acc)
  have dv: "unat (drop_bit 4 v) = unat v div 16" by (simp add: unat_drop_bit)
  note step = hex_digit_case [OF len, of v uppercase] back_hex.simps [of uppercase v]
    count_hex.simps [of v] numeral_of.simps [of 16 "unat v"]
  show ?case
  proof (cases "unat v < 16")
    case True
    then have "\<not> 0 < drop_bit 4 v" by (simp add: word_less_nat_alt dv)
    then have "back_hex uppercase (drop_bit 4 v) as = as" "count_hex (drop_bit 4 v) = 0" for as
      by (simp_all add: back_hex.simps [of _ "drop_bit 4 v"] count_hex.simps [of "drop_bit 4 v"])
    then show ?thesis using 1(2) True step by simp
  next
    case False
    then have "0 < drop_bit 4 v" by (simp add: word_less_nat_alt dv)
    then show ?thesis using 1(1) [OF 1(2)] 1(2) False step dv by simp
  qed
qed

text \<open>A numeral with zeros in front, up to a width.\<close>

definition padded :: "bool \<Rightarrow> int \<Rightarrow> u8 list \<Rightarrow> u8 list" where
  "padded zero_pad width ds = (if zero_pad then replicate (nat width - length ds) 0x30 else []) @ ds"

lemma zero_padding_padded: "zero_padding zero_pad width (length ds) @ ds = padded zero_pad width ds"
  by (simp add: zero_padding_def padded_def nat_diff_distrib')

lemma numeral_of_0: "numeral_of b 0 = [0x30]"
  by (subst numeral_of.simps) (auto simp: digit_char_def)

lemma put_dec_padded:
  "0 \<le> v \<Longrightarrow> put_dec zero_pad width v = padded (zero_pad \<and> v \<noteq> 0) width (numeral_of 10 (nat v))"
  by (cases "v = 0")
    (simp_all add: put_dec_def back_dec_numeral zero_padding_padded numeral_of_0 padded_def [of False])

lemma put_hex_padded:
  fixes v :: "'a::len word"
  assumes "4 \<le> LENGTH('a)"
  shows "put_hex uppercase zero_pad width v
    = padded (zero_pad \<and> v \<noteq> 0) width (map (case_of uppercase) (numeral_of 16 (unat v)))"
proof (cases "v = 0")
  case True
  then show ?thesis by (simp add: put_hex_def numeral_of_0 padded_def case_of_def)
next
  case False
  then show ?thesis using back_hex_numeral [OF _ assms, of v uppercase "[]"]
      zero_padding_padded [of zero_pad width "map (case_of uppercase) (numeral_of 16 (unat v))"]
    by (simp add: put_hex_def word_greater_zero_iff)
qed

lemma numeral_of_length: "n < b ^ k \<Longrightarrow> 2 \<le> b \<Longrightarrow> 0 < k \<Longrightarrow> length (numeral_of b n) \<le> k"
proof (induction b n arbitrary: k rule: numeral_of.induct)
  case (1 b n)
  show ?case
  proof (cases "n < b")
    case True
    then show ?thesis using 1(4) by (subst numeral_of.simps) simp
  next
    case False
    then have "k \<noteq> 1" using 1(2) by auto
    then obtain j where k: "k = Suc j" "0 < j" using 1(4) by (cases k) auto
    have "n div b < b ^ j" using 1(2) k(1) by (simp add: less_mult_imp_div_less mult.commute)
    then have "length (numeral_of b (n div b)) \<le> j" using 1(1) False 1(3) k(2) by simp
    then show ?thesis using False 1(3) k(1) by (subst numeral_of.simps) simp
  qed
qed

section \<open>Properties\<close>

text \<open>
  The log prints numbers exactly: \<open>%u\<close>, \<open>%d\<close> and \<open>%x\<close>, \<open>%X\<close>, \<open>%llx\<close>, \<open>%llX\<close> give the
  numeral of the argument, with leading zeros up to the width if the flag \<open>0\<close> asks for them, but the
  number 0 is never padded. So the format \<open>%016llX\<close> of the memory managers gives 16 digits for every
  value other than 0, and one digit for 0.
\<close>

theorem log_numbers_exact:
  "log_conv 0x75 zero_pad width (VA_int w # args)
      = Some (padded (zero_pad \<and> w \<noteq> 0) width (numeral_of 10 (unat w)), args)
    \<and> (w \<noteq> 0x80000000 \<longrightarrow> log_conv 0x64 zero_pad width (VA_int w # args)
      = Some ((if sint w < 0 then [0x2D] else [])
              @ padded (zero_pad \<and> w \<noteq> 0) width (numeral_of 10 (nat \<bar>sint w\<bar>)), args))
    \<and> log_conv 0x58 zero_pad width (VA_int w # args)
      = Some (padded (zero_pad \<and> w \<noteq> 0) width (map (case_of True) (numeral_of 16 (unat w))), args)
    \<and> log_conv 0x78 zero_pad width (VA_int w # args)
      = Some (padded (zero_pad \<and> w \<noteq> 0) width (numeral_of 16 (unat w)), args)
    \<and> (\<exists>ds. vsprintf (bytes_of ''%016llX'') [VA_ll v] = Some ds
        \<and> ds = padded (v \<noteq> 0) 16 (map (case_of True) (numeral_of 16 (unat v)))
        \<and> length ds = (if v = 0 then 1 else 16))"
proof (intro conjI impI)
  show "log_conv 0x75 zero_pad width (VA_int w # args)
      = Some (padded (zero_pad \<and> w \<noteq> 0) width (numeral_of 10 (unat w)), args)"
    using put_dec_padded [of "uint w"] by (simp add: log_conv_def uint_0_iff)
  have cf: "map (case_of False) ds = ds" for ds by (simp add: case_of_def map_idI)
  show "log_conv 0x58 zero_pad width (VA_int w # args)
      = Some (padded (zero_pad \<and> w \<noteq> 0) width (map (case_of True) (numeral_of 16 (unat w))), args)"
    "log_conv 0x78 zero_pad width (VA_int w # args)
      = Some (padded (zero_pad \<and> w \<noteq> 0) width (numeral_of 16 (unat w)), args)"
    by (simp_all add: log_conv_def put_hex_padded cf)
  show "log_conv 0x64 zero_pad width (VA_int w # args)
      = Some ((if sint w < 0 then [0x2D] else [])
              @ padded (zero_pad \<and> w \<noteq> 0) width (numeral_of 10 (nat \<bar>sint w\<bar>)), args)"
    if w: "w \<noteq> 0x80000000"
  proof -
    have "sint w = 0 \<longleftrightarrow> w = 0" by (simp add: signed_eq_0_iff)
    moreover have "sint (- w) = - sint w" using w by (rule sint_minus_u32)
    ultimately show ?thesis
      using put_dec_padded [of "sint w" zero_pad width] put_dec_padded [of "- sint w" zero_pad width]
      by (simp add: log_conv_def)
  qed
  have "vsprintf (bytes_of ''%016llX'') [VA_ll v] = Some (put_hex True True 16 v)"
    by (simp add: bytes_of_def read_spec_def read_ll_def)
  moreover have "length (numeral_of 16 (unat v)) \<le> 16" by (rule numeral_of_length) (use unat_lt_u64 [of v] in simp_all)
  ultimately show "\<exists>ds. vsprintf (bytes_of ''%016llX'') [VA_ll v] = Some ds
        \<and> ds = padded (v \<noteq> 0) 16 (map (case_of True) (numeral_of 16 (unat v)))
        \<and> length ds = (if v = 0 then 1 else 16)"
    by (simp add: put_hex_padded numeral_of_0 padded_def)
qed

theorem log_numbers_exact_witness:
  "log_conv 0x64 True 6 [VA_int (- 42)] = Some (bytes_of ''-000042'', [])
    \<and> vsprintf (bytes_of ''%016llX'') [VA_ll 0xBEEF] = Some (bytes_of ''000000000000BEEF'')"
proof -
  have n: "numeral_of 10 42 = [0x34, 0x32]" "numeral_of 16 0xBEEF = [0x62, 0x65, 0x65, 0x66]"
    by (simp_all add: numeral_of.simps digit_char_def)
  have r: "replicate 4 c = [c, c, c, c]" "replicate 12 c = [c, c, c, c, c, c, c, c, c, c, c, c]" for c :: u8
    by (simp_all add: numeral_eq_Suc)
  show ?thesis
    using log_numbers_exact [of True 6 "- 42" "[]" "0xBEEF"]
    by (simp add: padded_def n r case_of_def bytes_of_def)
qed

lemma send_buffer_sends:
  assumes "transmits dev SERIAL_COM1"
  shows "\<exists>tr'. send_buffer dev out tr = Some tr'
    \<and> bytes_out SERIAL_COM1 tr' = bytes_out SERIAL_COM1 tr @ takeWhile (\<lambda>c. c \<noteq> 0) out"
  using write_bytes_sends [OF assms, of "takeWhile (\<lambda>c. c \<noteq> 0) out" tr]
  by (simp add: send_buffer_def serial_write_string_def SERIAL_DATA_def)

lemma log_level_names_nonzero: "takeWhile (\<lambda>c. c \<noteq> 0) (log_level_names l @ cs)
    = log_level_names l @ takeWhile (\<lambda>c. c \<noteq> 0) cs"
  by (cases l) (simp_all add: log_level_names_def bytes_of_def)

text \<open>The line that stands for a text logged at a level.\<close>

definition log_line :: "log_level_t \<Rightarrow> log_state \<Rightarrow> u8 list \<Rightarrow> u8 list" where
  "log_line level s cs =
     (if log_initialized s \<and> level_num (current_log_level s) \<le> level_num level
      then bytes_of ''['' @ log_level_names level @ bytes_of ''] '' @ cs @ [13, 10] else [])"

text \<open>One line of the log, on a UART that transmits.\<close>

lemma log_sends:
  assumes "transmits dev SERIAL_COM1" and "vsprintf fmt args = Some out" and "0 \<notin> set msg"
  shows "(\<exists>tr'. log_printf dev level fmt args s tr = Some tr'
      \<and> bytes_out SERIAL_COM1 tr' = bytes_out SERIAL_COM1 tr @ log_line level s (takeWhile (\<lambda>c. c \<noteq> 0) out))
    \<and> (\<exists>tr'. log_message dev level (Some msg) s tr = Some tr'
      \<and> bytes_out SERIAL_COM1 tr' = bytes_out SERIAL_COM1 tr @ log_line level s msg)"
proof (cases "log_initialized s \<and> level_num (current_log_level s) \<le> level_num level")
  case False
  then show ?thesis by (auto simp: log_line_def log_printf_def log_message_def)
next
  case True
  define name where "name = bytes_of ''['' @ log_level_names level @ bytes_of ''] ''"
  have name: "takeWhile (\<lambda>c. c \<noteq> 0) (name @ cs) = name @ takeWhile (\<lambda>c. c \<noteq> 0) cs" for cs
    by (simp add: name_def bytes_of_def log_level_names_nonzero)
  have msg: "takeWhile (\<lambda>c. c \<noteq> 0) (msg @ [13, 10]) = msg @ [13, 10]" using assms(3) by (subst takeWhile_append2) auto
  have v: "vsprintf (bytes_of ''[%s] '') [VA_str (Some (log_level_names level))] = Some name"
    "vsprintf (bytes_of ''[%s] %s'' @ [13, 10]) [VA_str (Some (log_level_names level)), VA_str (Some msg)]
      = Some (name @ msg @ [13, 10])"
    by (simp_all add: name_def bytes_of_def read_spec_def log_conv_def)
  obtain tr1 where 1: "send_buffer dev name tr = Some tr1" "bytes_out SERIAL_COM1 tr1 = bytes_out SERIAL_COM1 tr @ name"
    using send_buffer_sends [OF assms(1), of name tr] name [of "[]"] by auto
  obtain tr2 where 2: "send_buffer dev out tr1 = Some tr2"
    "bytes_out SERIAL_COM1 tr2 = bytes_out SERIAL_COM1 tr1 @ takeWhile (\<lambda>c. c \<noteq> 0) out"
    using send_buffer_sends [OF assms(1), of out tr1] by auto
  obtain tr3 where 3: "write_bytes dev SERIAL_COM1 [13, 10] tr2 = Some tr3"
    "bytes_out SERIAL_COM1 tr3 = bytes_out SERIAL_COM1 tr2 @ [13, 10]"
    using write_bytes_sends [OF assms(1), of "[13, 10]" tr2] by (auto simp: SERIAL_DATA_def)
  have "log_printf dev level fmt args s tr = Some tr3"
    using True v(1) 1(1) 2(1) 3(1) assms(2)
    by (simp add: log_printf_def printf_serial_def split: option.splits)
  moreover have "bytes_out SERIAL_COM1 tr3 = bytes_out SERIAL_COM1 tr @ log_line level s (takeWhile (\<lambda>c. c \<noteq> 0) out)"
    using True 1(2) 2(2) 3(2) by (simp add: log_line_def name_def)
  moreover have "log_message dev level (Some msg) s tr = send_buffer dev (name @ msg @ [13, 10]) tr"
    using True v(2) by (simp add: log_message_def printf_serial_def)
  moreover have "log_line level s msg = takeWhile (\<lambda>c. c \<noteq> 0) (name @ msg @ [13, 10])"
    using True name [of "msg @ [13, 10]"] msg by (simp add: log_line_def name_def)
  ultimately show ?thesis using send_buffer_sends [OF assms(1), of "name @ msg @ [13, 10]" tr] by auto
qed

text \<open>
  On a UART whose transmitter empties after finitely many polls, every line logged is sent:
  \<open>log_printf\<close> returns and sends the name of the level in brackets, the formatted text up to its first
  zero byte and the end of the line, if the log is initialised and the level is not below the current
  one, and nothing otherwise; \<open>log_message\<close> sends the same for a message without conversions.
\<close>

theorem log_lines_sent:
  assumes "transmits dev SERIAL_COM1" and "vsprintf fmt args = Some out" and "0 \<notin> set msg"
  shows "(\<exists>tr'. log_printf dev level fmt args s tr = Some tr'
      \<and> bytes_out SERIAL_COM1 tr' = bytes_out SERIAL_COM1 tr @ log_line level s (takeWhile (\<lambda>c. c \<noteq> 0) out))
    \<and> (\<exists>tr'. log_message dev level (Some msg) s tr = Some tr'
      \<and> bytes_out SERIAL_COM1 tr' = bytes_out SERIAL_COM1 tr @ log_line level s msg)"
  using assms by (rule log_sends)

theorem log_lines_sent_witness:
  "\<exists>tr'. log_printf demo_uart LOG_LEVEL_WARN (bytes_of ''%d pages'') [VA_int 7]
      \<lparr>current_log_level = LOG_LEVEL_INFO, log_initialized = True\<rparr> [] = Some tr'
    \<and> bytes_out SERIAL_COM1 tr' = bytes_of ''[WARN] 7 pages'' @ [13, 10]"
proof -
  have d: "put_dec False 0 7 = [0x37]" by (simp add: put_dec_padded padded_def numeral_of.simps digit_char_def)
  have v: "vsprintf (bytes_of ''%d pages'') [VA_int 7] = Some (bytes_of ''7 pages'')"
    by (simp add: bytes_of_def read_spec_def log_conv_def d)
  show ?thesis
    using log_lines_sent [OF _ v, where dev = demo_uart and msg = "[]" and level = LOG_LEVEL_WARN
        and s = "\<lparr>current_log_level = LOG_LEVEL_INFO, log_initialized = True\<rparr>" and tr = "[]"]
      demo_uart_transmits
    by (simp add: SERIAL_COM1_def log_line_def log_level_names_def bytes_of_def)
qed

end
