(* ===== verification/PCI.thy ===== *)
theory PCI
  imports Port_IO
begin

text \<open>
  The PCI bus, \<open>src/kernel/src/drivers/pci/pci.c\<close>. The state is the trace of port accesses and the
  table of the devices that were detected.
\<close>

section \<open>The driver\<close>

definition PCI_CONFIG_ADDR :: u16 where "PCI_CONFIG_ADDR = 0xCF8"
definition PCI_CONFIG_DATA :: u16 where "PCI_CONFIG_DATA = 0xCFC"
definition PCI_VENDOR_ID :: u8 where "PCI_VENDOR_ID = 0x00"
definition PCI_REVISION_ID :: u8 where "PCI_REVISION_ID = 0x08"
definition PCI_CACHE_LINE_SIZE :: u8 where "PCI_CACHE_LINE_SIZE = 0x0C"
definition PCI_BASE_ADDRESS_0 :: u8 where "PCI_BASE_ADDRESS_0 = 0x10"
definition MAX_PCI_DEVICES :: nat where "MAX_PCI_DEVICES = 256"

record pci_device_t =
  bus :: u8
  device :: u8
  func :: u8
  vendor_id :: u16
  device_id :: u16
  class_code :: u8
  sub_class :: u8
  prog_if :: u8

record pci_state =
  pci_io :: io_trace
  pci_devices :: "pci_device_t list"
  detected_device_count :: u16

definition pci_boot :: pci_state where
  "pci_boot = \<lparr>pci_io = [], pci_devices = replicate 256 \<lparr>bus = 0, device = 0, func = 0, vendor_id = 0,
     device_id = 0, class_code = 0, sub_class = 0, prog_if = 0\<rparr>, detected_device_count = 0\<rparr>"

definition pci_get_config_addr :: "u8 \<Rightarrow> u8 \<Rightarrow> u8 \<Rightarrow> u8 \<Rightarrow> u32" where
  "pci_get_config_addr b d f off =
     push_bit 31 1 OR push_bit 16 (ucast b AND 0xFF) OR push_bit 11 (ucast d AND 0x1F)
     OR push_bit 8 (ucast f AND 0x07) OR (ucast off AND 0xFC)"

definition pci_read_config_dword :: "device \<Rightarrow> u8 \<Rightarrow> u8 \<Rightarrow> u8 \<Rightarrow> u8 \<Rightarrow> pci_state \<Rightarrow> u32 \<times> pci_state" where
  "pci_read_config_dword dev b d f off s =
     (let off = off AND 0xFC;
          tr = outl PCI_CONFIG_ADDR (pci_get_config_addr b d f off) (pci_io s);
          (v, tr) = inl dev PCI_CONFIG_DATA tr
      in (v, s\<lparr>pci_io := tr\<rparr>))"

definition pci_write_config_dword :: "u8 \<Rightarrow> u8 \<Rightarrow> u8 \<Rightarrow> u8 \<Rightarrow> u32 \<Rightarrow> pci_state \<Rightarrow> pci_state" where
  "pci_write_config_dword b d f off v s =
     (let off = off AND 0xFC;
          tr = outl PCI_CONFIG_ADDR (pci_get_config_addr b d f off) (pci_io s)
      in s\<lparr>pci_io := outl PCI_CONFIG_DATA v tr\<rparr>)"

definition store_device :: "u8 \<Rightarrow> u8 \<Rightarrow> u8 \<Rightarrow> u32 \<Rightarrow> u32 \<Rightarrow> pci_state \<Rightarrow> pci_state" where
  "store_device b d f vendor class_rev s =
     (if unat (detected_device_count s) < MAX_PCI_DEVICES
      then s\<lparr>pci_devices := (pci_devices s)[unat (detected_device_count s) :=
             \<lparr>bus = b, device = d, func = f,
              vendor_id = ucast (vendor AND 0xFFFF),
              device_id = ucast (drop_bit 16 vendor AND 0xFFFF),
              class_code = ucast (drop_bit 24 class_rev AND 0xFF),
              sub_class = ucast (drop_bit 16 class_rev AND 0xFF),
              prog_if = ucast (drop_bit 8 class_rev AND 0xFF)\<rparr>],
             detected_device_count := detected_device_count s + 1\<rparr>
      else s)"

text \<open>The inner loop's body, for one function of a device; \<open>vendor\<close> was read from function 0.\<close>

definition scan_function :: "device \<Rightarrow> u8 \<Rightarrow> u8 \<Rightarrow> u32 \<Rightarrow> u8 \<Rightarrow> pci_state \<Rightarrow> pci_state" where
  "scan_function dev b d vendor f s =
     (let (class_rev, s) = pci_read_config_dword dev b d f PCI_REVISION_ID s;
          (v, s) = pci_read_config_dword dev b d f PCI_VENDOR_ID s
      in if v = 0xFFFFFFFF then s else store_device b d f vendor class_rev s)"

definition scan_device :: "device \<Rightarrow> u8 \<Rightarrow> u8 \<Rightarrow> pci_state \<Rightarrow> pci_state" where
  "scan_device dev b d s =
     (let (vendor, s) = pci_read_config_dword dev b d 0 PCI_VENDOR_ID s
      in if vendor = 0xFFFFFFFF then s
         else let (h, s) = pci_read_config_dword dev b d 0 PCI_CACHE_LINE_SIZE s;
                  header_type = drop_bit 16 h;
                  max_functions = (if header_type AND 0x80 \<noteq> 0 then 8 else 1)
              in fold (\<lambda>f. scan_function dev b d vendor (of_nat f)) [0..<max_functions] s)"

definition pci_scan_bus :: "device \<Rightarrow> u8 \<Rightarrow> pci_state \<Rightarrow> pci_state" where
  "pci_scan_bus dev b s = fold (\<lambda>d. scan_device dev b (of_nat d)) [0..<32] s"

definition pci_init :: "device \<Rightarrow> pci_state \<Rightarrow> pci_state" where
  "pci_init dev s = fold (\<lambda>b. pci_scan_bus dev (of_nat b)) [0..<256] (s\<lparr>detected_device_count := 0\<rparr>)"

text \<open>
  The search, from index \<open>i\<close> on; the result is the device that is copied to \<open>out_device\<close>, or \<open>None\<close> for
  false.
\<close>

function find_class :: "u8 \<Rightarrow> u8 \<Rightarrow> nat \<Rightarrow> pci_state \<Rightarrow> pci_device_t option" where
  "find_class cls sub i s =
     (if i < unat (detected_device_count s)
      then if class_code (pci_devices s ! i) = cls \<and> sub_class (pci_devices s ! i) = sub
           then Some (pci_devices s ! i)
           else find_class cls sub (Suc i) s
      else None)"
  by auto
termination by (relation "measure (\<lambda>(_, _, i, s). unat (detected_device_count s) - i)") auto

declare find_class.simps [simp del]

definition pci_find_device_by_class :: "u8 \<Rightarrow> u8 \<Rightarrow> pci_state \<Rightarrow> pci_device_t option" where
  "pci_find_device_by_class cls sub s = find_class cls sub 0 s"

definition pci_get_bar :: "device \<Rightarrow> pci_device_t option \<Rightarrow> u8 \<Rightarrow> pci_state \<Rightarrow> u64 \<times> pci_state" where
  "pci_get_bar dev p bar_index s =
     (case p of
        None \<Rightarrow> (0, s)
      | Some p \<Rightarrow>
          if 5 < bar_index then (0, s)
          else let bar_offset = PCI_BASE_ADDRESS_0 + bar_index * 4;
                   (bar_low, s) = pci_read_config_dword dev (bus p) (device p) (func p) bar_offset s
               in if bar_index < 5 \<and> bar_low AND 0x04 \<noteq> 0
                  then let (bar_high, s) = pci_read_config_dword dev (bus p) (device p) (func p) (bar_offset + 4) s
                       in (push_bit 32 (ucast bar_high) OR ucast (bar_low AND 0xFFFFFFF0), s)
                  else (ucast (bar_low AND 0xFFFFFFF0), s))"

section \<open>Configuration space\<close>

text \<open>
  What the PCI specification says of the two ports: a read of the data port returns the register that
  the last address selects, here in a configuration space that does not change while it is scanned.
\<close>

type_synonym config = "u8 \<Rightarrow> u8 \<Rightarrow> u8 \<Rightarrow> u8 \<Rightarrow> u32"

definition select :: "config \<Rightarrow> u32 \<Rightarrow> u32" where
  "select cfg a = cfg (ucast (drop_bit 16 a)) (ucast (drop_bit 11 a AND 0x1F)) (ucast (drop_bit 8 a AND 0x07))
     (ucast (a AND 0xFC))"

definition pci_bus :: "config \<Rightarrow> device \<Rightarrow> bool" where
  "pci_bus cfg dev \<longleftrightarrow> (\<forall>tr a. bit a 31 \<longrightarrow> dev32 dev (tr @ [Out32 PCI_CONFIG_ADDR a]) PCI_CONFIG_DATA = select cfg a)"

lemma pci_masks: "(0xFF :: u32) = mask 8" "(0x1F :: u32) = mask 5" "(0x07 :: u32) = mask 3"
    "(0xFC :: u32) = push_bit 2 (mask 6)" "(0xFC :: u8) = push_bit 2 (mask 6)"
    "(0x1F :: u8) = mask 5" "(0x07 :: u8) = mask 3"
  by (simp_all add: mask_eq_exp_minus_1)

text \<open>The address has all four parts, each in its own bits.\<close>

lemma config_addr_parts:
  fixes b d f off :: u8
  defines "a \<equiv> pci_get_config_addr b d f off"
  shows "bit a 31" "ucast (drop_bit 16 a) = b" "ucast (drop_bit 11 a AND 0x1F) = d AND 0x1F"
    "ucast (drop_bit 8 a AND 0x07) = f AND 0x07" "ucast (a AND 0xFC) = off AND 0xFC"
proof -
  have field: "bit (push_bit k (ucast x AND mask l) :: u32) n \<longleftrightarrow> k \<le> n \<and> n < k + l \<and> n < 32 \<and> bit x (n - k)"
    for k l n and x :: u8
    by (auto simp: bit_simps)
  have low: "bit (ucast off AND push_bit 2 (mask 6) :: u32) n \<longleftrightarrow> 2 \<le> n \<and> n < 8 \<and> bit off n" for n
    by (auto simp: bit_simps)
  have enable: "bit (push_bit 31 1 :: u32) n \<longleftrightarrow> n = 31" for n unfolding push_bit_of_1 bit_exp_iff by auto
  have bit_a: "bit a n \<longleftrightarrow> n = 31 \<or> (16 \<le> n \<and> n < 24 \<and> bit b (n - 16)) \<or> (11 \<le> n \<and> n < 16 \<and> bit d (n - 11))
      \<or> (8 \<le> n \<and> n < 11 \<and> bit f (n - 8)) \<or> (2 \<le> n \<and> n < 8 \<and> bit off n)" for n
    unfolding a_def pci_get_config_addr_def pci_masks bit_or_iff field low enable by auto
  show "bit a 31" by (simp add: bit_a)
  show "ucast (drop_bit 16 a) = b"
    by (intro bit_word_eqI) (auto simp: bit_simps bit_a)
  show "ucast (drop_bit 11 a AND 0x1F) = d AND 0x1F"
    unfolding pci_masks by (intro bit_word_eqI) (auto simp: bit_simps bit_a)
  show "ucast (drop_bit 8 a AND 0x07) = f AND 0x07"
    unfolding pci_masks by (intro bit_word_eqI) (auto simp: bit_simps bit_a)
  show "ucast (a AND 0xFC) = off AND 0xFC"
    unfolding pci_masks by (intro bit_word_eqI) (auto simp: bit_simps bit_a)
qed

lemma pci_read_config:
  assumes "pci_bus cfg dev"
  shows "\<exists>tr. pci_read_config_dword dev b d f off s
    = (cfg b (d AND 0x1F) (f AND 0x07) (off AND 0xFC), s\<lparr>pci_io := tr\<rparr>)"
proof -
  define a where "a = pci_get_config_addr b d f (off AND 0xFC)"
  have "dev32 dev (pci_io s @ [Out32 PCI_CONFIG_ADDR a]) PCI_CONFIG_DATA = cfg b (d AND 0x1F) (f AND 0x07) (off AND 0xFC)"
    using assms config_addr_parts [of b d f "off AND 0xFC"]
    by (simp add: pci_bus_def select_def a_def and.assoc)
  then show ?thesis by (auto simp: pci_read_config_dword_def outl_def inl_def Let_def a_def)
qed

section \<open>Detection\<close>

text \<open>
  The functions that answer, in the order of the scan, and the entry made for each. Function 0 decides
  whether the others are looked at, and gives all of them its vendor and device identifier.
\<close>

definition present :: "config \<Rightarrow> u8 \<Rightarrow> u8 \<Rightarrow> u8 \<Rightarrow> bool" where
  "present cfg b d f \<longleftrightarrow> cfg b d f 0 \<noteq> 0xFFFFFFFF"

definition entry :: "config \<Rightarrow> u8 \<Rightarrow> u8 \<Rightarrow> u8 \<Rightarrow> pci_device_t" where
  "entry cfg b d f = \<lparr>bus = b, device = d, func = f,
     vendor_id = ucast (cfg b d 0 0 AND 0xFFFF), device_id = ucast (drop_bit 16 (cfg b d 0 0) AND 0xFFFF),
     class_code = ucast (drop_bit 24 (cfg b d f 8) AND 0xFF), sub_class = ucast (drop_bit 16 (cfg b d f 8) AND 0xFF),
     prog_if = ucast (drop_bit 8 (cfg b d f 8) AND 0xFF)\<rparr>"

definition functions_of :: "config \<Rightarrow> u8 \<Rightarrow> u8 \<Rightarrow> nat list" where
  "functions_of cfg b d =
     filter (\<lambda>f. present cfg b d (of_nat f)) [0..<(if drop_bit 16 (cfg b d 0 0x0C) AND 0x80 \<noteq> 0 then 8 else 1)]"

definition device_entries :: "config \<Rightarrow> u8 \<Rightarrow> u8 \<Rightarrow> pci_device_t list" where
  "device_entries cfg b d =
     (if present cfg b d 0 then map (\<lambda>f. entry cfg b d (of_nat f)) (functions_of cfg b d) else [])"

definition bus_entries :: "config \<Rightarrow> u8 \<Rightarrow> pci_device_t list" where
  "bus_entries cfg b = concat (map (\<lambda>d. device_entries cfg b (of_nat d)) [0..<32])"

definition all_entries :: "config \<Rightarrow> pci_device_t list" where
  "all_entries cfg = concat (map (\<lambda>b. bus_entries cfg (of_nat b)) [0..<256])"

text \<open>The table holds the first 256 of a list of entries.\<close>

definition holds :: "pci_device_t list \<Rightarrow> pci_state \<Rightarrow> bool" where
  "holds xs s \<longleftrightarrow> length (pci_devices s) = 256 \<and> unat (detected_device_count s) = min 256 (length xs)
     \<and> take (min 256 (length xs)) (pci_devices s) = take 256 xs"

lemma holds_io [simp]: "holds xs (s\<lparr>pci_io := tr\<rparr>) = holds xs s"
  by (simp add: holds_def)

lemma holds_store:
  assumes "holds xs s" and "vendor = cfg b d 0 0" and "cr = cfg b d f 8"
  shows "holds (xs @ [entry cfg b d f]) (store_device b d f vendor cr s)"
proof (cases "length xs < 256")
  case True
  then have c: "unat (detected_device_count s) = length xs" using assms(1) by (simp add: holds_def)
  then have c1: "unat (detected_device_count s + 1) = Suc (length xs)"
    using True by (simp add: unat_word_ariths)
  have "take (length xs) (pci_devices s) = xs" "length (pci_devices s) = 256"
    using assms(1) True by (simp_all add: holds_def)
  then show ?thesis using True c c1 assms(2,3)
    by (simp add: holds_def store_device_def MAX_PCI_DEVICES_def take_Suc_conv_app_nth entry_def)
next
  case False
  then show ?thesis using assms(1) by (simp add: holds_def store_device_def MAX_PCI_DEVICES_def)
qed

text \<open>A scan of numbers, each of which adds its entries.\<close>

lemma holds_fold:
  assumes "\<And>x xs s. x \<in> set ns \<Longrightarrow> holds xs s \<Longrightarrow> holds (xs @ g x) (step x s)" and "holds xs s"
  shows "holds (xs @ concat (map g ns)) (fold step ns s)"
  using assms by (induction ns arbitrary: xs s) (auto simp flip: append_assoc)

lemma small_and: "n < 32 \<Longrightarrow> (of_nat n :: u8) AND 0x1F = of_nat n" "n < 8 \<Longrightarrow> (of_nat n :: u8) AND 0x07 = of_nat n"
proof -
  show "(of_nat n :: u8) AND 0x1F = of_nat n" if "n < 32"
    using that unfolding pci_masks by (simp add: word_unat_eq_iff unat_and_mask unat_of_nat)
  show "(of_nat n :: u8) AND 0x07 = of_nat n" if "n < 8"
    using that unfolding pci_masks by (simp add: word_unat_eq_iff unat_and_mask unat_of_nat)
qed

lemma scan_function_holds:
  assumes "pci_bus cfg dev" and "d AND 0x1F = d" and "f AND 0x07 = f" and "holds xs s" and "vendor = cfg b d 0 0"
  shows "holds (xs @ (if present cfg b d f then [entry cfg b d f] else [])) (scan_function dev b d vendor f s)"
proof -
  obtain tr where 1: "pci_read_config_dword dev b d f PCI_REVISION_ID s = (cfg b d f 8, s\<lparr>pci_io := tr\<rparr>)"
    using pci_read_config [OF assms(1), of b d f PCI_REVISION_ID s] assms(2,3) by (auto simp: PCI_REVISION_ID_def)
  obtain tr' where 2: "pci_read_config_dword dev b d f PCI_VENDOR_ID (s\<lparr>pci_io := tr\<rparr>) = (cfg b d f 0, s\<lparr>pci_io := tr'\<rparr>)"
    using pci_read_config [OF assms(1), of b d f PCI_VENDOR_ID "s\<lparr>pci_io := tr\<rparr>"] assms(2,3) by (auto simp: PCI_VENDOR_ID_def)
  show ?thesis using 1 2 assms(4) holds_store [of xs "s\<lparr>pci_io := tr'\<rparr>" vendor cfg b d "cfg b d f 8" f] assms(5)
    by (simp add: scan_function_def present_def)
qed

lemma concat_filter: "concat (map (\<lambda>x. if P x then [h x] else []) xs) = map h (filter P xs)"
  by (induction xs) auto

lemma scan_device_holds:
  assumes "pci_bus cfg dev" and "d AND 0x1F = d" and "holds xs s"
  shows "holds (xs @ device_entries cfg b d) (scan_device dev b d s)"
proof -
  obtain tr where 1: "pci_read_config_dword dev b d 0 PCI_VENDOR_ID s = (cfg b d 0 0, s\<lparr>pci_io := tr\<rparr>)"
    using pci_read_config [OF assms(1), of b d 0 PCI_VENDOR_ID s] assms(2) by (auto simp: PCI_VENDOR_ID_def)
  obtain tr' where 2: "pci_read_config_dword dev b d 0 PCI_CACHE_LINE_SIZE (s\<lparr>pci_io := tr\<rparr>)
      = (cfg b d 0 0x0C, s\<lparr>pci_io := tr'\<rparr>)"
    using pci_read_config [OF assms(1), of b d 0 PCI_CACHE_LINE_SIZE "s\<lparr>pci_io := tr\<rparr>"] assms(2)
    by (auto simp: PCI_CACHE_LINE_SIZE_def)
  show ?thesis
  proof (cases "present cfg b d 0")
    case False
    then show ?thesis using 1 assms(3) by (simp add: scan_device_def present_def device_entries_def)
  next
    case True
    define m where "m = (if drop_bit 16 (cfg b d 0 0x0C) AND 0x80 \<noteq> 0 then 8 else 1 :: nat)"
    have m: "m \<le> 8" by (simp add: m_def)
    have step: "holds (ys @ (if present cfg b d (of_nat f) then [entry cfg b d (of_nat f)] else []))
        (scan_function dev b d (cfg b d 0 0) (of_nat f) t)" if "f \<in> set [0..<m]" "holds ys t" for f ys t
      using that m by (intro scan_function_holds [OF assms(1,2)] small_and) auto
    have "holds (xs @ concat (map (\<lambda>f. if present cfg b d (of_nat f) then [entry cfg b d (of_nat f)] else []) [0..<m]))
      (fold (\<lambda>f. scan_function dev b d (cfg b d 0 0) (of_nat f)) [0..<m] (s\<lparr>pci_io := tr'\<rparr>))"
      using step by (rule holds_fold) (simp_all add: assms(3))
    then show ?thesis using 1 2 True
      by (simp add: scan_device_def present_def device_entries_def functions_of_def m_def concat_filter del: upt_conv_Cons)
  qed
qed

lemma pci_init_holds:
  assumes "pci_bus cfg dev" and "length (pci_devices s) = 256"
  shows "holds (all_entries cfg) (pci_init dev s)"
proof -
  have b: "holds (xs @ bus_entries cfg b) (pci_scan_bus dev b t)" if "holds xs t" for xs b t
    unfolding pci_scan_bus_def bus_entries_def using that
    by (intro holds_fold scan_device_holds [OF assms(1)] small_and) auto
  have start: "holds [] (s\<lparr>detected_device_count := 0\<rparr>)" using assms(2) by (simp add: holds_def)
  have "holds ([] @ concat (map (\<lambda>b. bus_entries cfg (of_nat b)) [0..<256])) (pci_init dev s)"
    unfolding pci_init_def using b start by (intro holds_fold) auto
  then show ?thesis by (simp only: append_Nil all_entries_def)
qed

lemma find_class_holds:
  "find_class cls sub i s
     = find (\<lambda>p. class_code p = cls \<and> sub_class p = sub) (map ((!) (pci_devices s)) [i..<unat (detected_device_count s)])"
proof (induction cls sub i s rule: find_class.induct)
  case (1 cls sub i s)
  then show ?case by (subst find_class.simps) (auto simp: upt_conv_Cons)
qed

section \<open>Properties\<close>

text \<open>
  \<^bold>\<open>C26\<close>. On a bus with a given configuration space, \<open>pci_init\<close> detects the functions that answer, in the
  order of bus, device and function, at most 256 of them, and keeps within its table whatever the
  bus holds. \<open>pci_find_device_by_class\<close> returns the first detected one of that class and
  subclass. The identifiers of an entry are those of function 0 of its device, not its own.
\<close>

theorem pci_init_detects:
  assumes "pci_bus cfg dev" and "length (pci_devices s) = MAX_PCI_DEVICES"
  defines "s' \<equiv> pci_init dev s"
  shows "unat (detected_device_count s') = min MAX_PCI_DEVICES (length (all_entries cfg))
    \<and> take (unat (detected_device_count s')) (pci_devices s') = take MAX_PCI_DEVICES (all_entries cfg)
    \<and> length (pci_devices s') = MAX_PCI_DEVICES
    \<and> pci_find_device_by_class cls sub s'
        = find (\<lambda>p. class_code p = cls \<and> sub_class p = sub) (take MAX_PCI_DEVICES (all_entries cfg))"
proof -
  have h: "holds (all_entries cfg) s'"
    using pci_init_holds [OF assms(1)] assms(2) by (simp add: s'_def MAX_PCI_DEVICES_def)
  define c where "c = unat (detected_device_count s')"
  have c: "c = min 256 (length (all_entries cfg))" "length (pci_devices s') = 256"
    "take c (pci_devices s') = take 256 (all_entries cfg)"
    using h by (simp_all add: holds_def c_def)
  have "map ((!) (pci_devices s')) [0..<c] = take c (pci_devices s')"
    using c(1,2) by (intro nth_equalityI) auto
  then have "pci_find_device_by_class cls sub s'
      = find (\<lambda>p. class_code p = cls \<and> sub_class p = sub) (take 256 (all_entries cfg))"
    unfolding pci_find_device_by_class_def find_class_holds c_def [symmetric] by (simp only: c(3))
  then show ?thesis using c by (simp add: c_def [symmetric] MAX_PCI_DEVICES_def)
qed

text \<open>A bus with a host bridge and nothing else.\<close>

definition demo_config :: config where
  "demo_config b d f off = (if b = 0 \<and> d = 0 \<and> f = 0
     then (if off = 0 then 0x12378086 else if off = 8 then 0x06000002 else 0) else 0xFFFFFFFF)"

definition demo_pci :: device where
  "demo_pci = \<lparr>dev8 = (\<lambda>_ _. 0), dev16 = (\<lambda>_ _. 0),
     dev32 = (\<lambda>tr port. case last tr of Out32 _ a \<Rightarrow> select demo_config a | _ \<Rightarrow> 0xFFFFFFFF)\<rparr>"

theorem pci_init_detects_witness:
  "pci_bus demo_config demo_pci \<and> pci_find_device_by_class 6 0 (pci_init demo_pci pci_boot)
     = Some \<lparr>bus = 0, device = 0, func = 0, vendor_id = 0x8086, device_id = 0x1237, class_code = 6,
         sub_class = 0, prog_if = 0\<rparr>"
proof -
  have b: "pci_bus demo_config demo_pci" by (simp add: pci_bus_def demo_pci_def)
  have e: "device_entries demo_config 0 0 = [entry demo_config 0 0 0]"
    by (simp add: device_entries_def functions_of_def present_def demo_config_def)
  have "[0..<256] = 0 # [1..<256 :: nat]" "[0..<32] = 0 # [1..<32 :: nat]" by (simp_all only: upt_conv_Cons) simp_all
  then obtain xs where "all_entries demo_config = entry demo_config 0 0 0 # xs"
    by (auto simp: all_entries_def bus_entries_def e simp del: upt_rec_numeral)
  then show ?thesis
    using b pci_init_detects [OF b, of pci_boot 6 0]
    by (simp add: pci_boot_def MAX_PCI_DEVICES_def entry_def demo_config_def)
qed

end
