(* ===== verification/ATA.thy ===== *)
theory ATA
  imports PCI
begin

text \<open>
  The driver of the ATA disks, \<open>src/kernel/src/drivers/ata/ata.c\<close>, which polls and transfers word by
  word. The state is the trace of port accesses and the table of the drives. A buffer that is read
  into is given by the words that are stored in it from its start on; a buffer that is written from is
  the list of its bytes, \<open>None\<close> for a null pointer, and reading past its end is undefined, the result
  \<open>None\<close>. The delay loops and the log output are left out.
\<close>

section \<open>Constants and state\<close>

definition ATA_PRIMARY_DATA :: u16 where "ATA_PRIMARY_DATA = 0x1F0"
definition ATA_PRIMARY_STATUS :: u16 where "ATA_PRIMARY_STATUS = 0x1F7"
definition ATA_SECONDARY_DATA :: u16 where "ATA_SECONDARY_DATA = 0x170"
definition ATA_SECONDARY_STATUS :: u16 where "ATA_SECONDARY_STATUS = 0x177"
definition ATA_PRIMARY_CONTROL :: u16 where "ATA_PRIMARY_CONTROL = 0x3F6"
definition ATA_SECONDARY_CONTROL :: u16 where "ATA_SECONDARY_CONTROL = 0x376"
definition ATA_CMD_READ_PIO :: u8 where "ATA_CMD_READ_PIO = 0x20"
definition ATA_CMD_WRITE_PIO :: u8 where "ATA_CMD_WRITE_PIO = 0x30"
definition ATA_CMD_IDENTIFY :: u8 where "ATA_CMD_IDENTIFY = 0xEC"
definition ATA_CMD_CACHE_FLUSH :: u8 where "ATA_CMD_CACHE_FLUSH = 0xE7"
definition ATA_STATUS_ERR :: u8 where "ATA_STATUS_ERR = 0x01"
definition ATA_STATUS_DRQ :: u8 where "ATA_STATUS_DRQ = 0x08"
definition ATA_STATUS_DF :: u8 where "ATA_STATUS_DF = 0x20"
definition ATA_STATUS_BSY :: u8 where "ATA_STATUS_BSY = 0x80"
definition ATA_CONTROL_SRST :: u8 where "ATA_CONTROL_SRST = 0x04"
definition ATA_DEVICE_MASTER :: u8 where "ATA_DEVICE_MASTER = 0x00"
definition ATA_DEVICE_SLAVE :: u8 where "ATA_DEVICE_SLAVE = 0x10"
definition ATA_DEVICE_LBA :: u8 where "ATA_DEVICE_LBA = 0x40"
definition ATA_TIMEOUT :: nat where "ATA_TIMEOUT = 1000"
definition DRIVE_TYPE_PATA :: u8 where "DRIVE_TYPE_PATA = 1"
definition DRIVE_TYPE_SATA :: u8 where "DRIVE_TYPE_SATA = 2"
definition ATA_MAX_DRIVES :: nat where "ATA_MAX_DRIVES = 8"
definition PCI_COMMAND :: u8 where "PCI_COMMAND = 0x04"

lemmas ata_constants = ATA_PRIMARY_DATA_def ATA_PRIMARY_STATUS_def ATA_SECONDARY_DATA_def
  ATA_SECONDARY_STATUS_def ATA_PRIMARY_CONTROL_def ATA_SECONDARY_CONTROL_def ATA_CMD_READ_PIO_def
  ATA_CMD_WRITE_PIO_def ATA_CMD_IDENTIFY_def ATA_CMD_CACHE_FLUSH_def ATA_STATUS_ERR_def
  ATA_STATUS_DRQ_def ATA_STATUS_DF_def ATA_STATUS_BSY_def ATA_CONTROL_SRST_def ATA_DEVICE_MASTER_def
  ATA_DEVICE_SLAVE_def ATA_DEVICE_LBA_def ATA_TIMEOUT_def

record ata_drive_t =
  drive_type :: u16
  drive_signature :: u16
  capabilities :: u16
  command_sets :: u32
  drive_size :: u32
  drive_model :: "u8 list"
  drive_serial :: "u8 list"
  cylinders :: u16
  heads :: u16
  sectors :: u16

definition zero_drive :: ata_drive_t where
  "zero_drive = \<lparr>drive_type = 0, drive_signature = 0, capabilities = 0, command_sets = 0, drive_size = 0,
     drive_model = replicate 41 0, drive_serial = replicate 21 0, cylinders = 0, heads = 0, sectors = 0\<rparr>"

record ata_state =
  ata_io :: io_trace
  detected_drives :: "ata_drive_t list"
  drive_count :: nat

section \<open>Waiting\<close>

text \<open>The polling loops, with \<open>n\<close> rounds left.\<close>

fun ata_wait_not_busy :: "device \<Rightarrow> u16 \<Rightarrow> nat \<Rightarrow> io_trace \<Rightarrow> bool \<times> io_trace" where
  "ata_wait_not_busy dev port 0 tr = (False, tr)"
| "ata_wait_not_busy dev port (Suc n) tr =
     (let (status, tr) = inb dev port tr
      in if status AND ATA_STATUS_BSY = 0 then (True, tr) else ata_wait_not_busy dev port n tr)"

fun ata_wait_drq :: "device \<Rightarrow> u16 \<Rightarrow> nat \<Rightarrow> io_trace \<Rightarrow> bool \<times> io_trace" where
  "ata_wait_drq dev port 0 tr = (False, tr)"
| "ata_wait_drq dev port (Suc n) tr =
     (let (status, tr) = inb dev port tr
      in if status AND ATA_STATUS_ERR \<noteq> 0 then (False, snd (inb dev (port - 7) tr))
         else if status = 0 \<or> status = 0xFF then (False, tr)
         else if status AND ATA_STATUS_DF \<noteq> 0 then (False, tr)
         else if status AND ATA_STATUS_BSY = 0 \<and> status AND ATA_STATUS_DRQ \<noteq> 0 then (True, tr)
         else ata_wait_drq dev port n tr)"

definition ata_400ns_delay :: "device \<Rightarrow> u16 \<Rightarrow> io_trace \<Rightarrow> io_trace" where
  "ata_400ns_delay dev port tr = fold (\<lambda>_ tr. snd (inb dev (port + 7) tr)) [0..<4] tr"

definition ata_software_reset :: "device \<Rightarrow> u16 \<Rightarrow> io_trace \<Rightarrow> io_trace" where
  "ata_software_reset dev control_port tr =
     (let tr = outb control_port ATA_CONTROL_SRST tr;
          tr = outb control_port 0 tr;
          status_port = (if control_port = ATA_PRIMARY_CONTROL then ATA_PRIMARY_STATUS else ATA_SECONDARY_STATUS)
      in snd (ata_wait_not_busy dev status_port 100 tr))"

section \<open>Ports of a drive\<close>

definition ata_get_data_port :: "nat \<Rightarrow> u16" where
  "ata_get_data_port drive_idx = (if drive_idx < 2 then ATA_PRIMARY_DATA else ATA_SECONDARY_DATA)"

definition ata_get_control_port :: "nat \<Rightarrow> u16" where
  "ata_get_control_port drive_idx = (if drive_idx < 2 then ATA_PRIMARY_CONTROL else ATA_SECONDARY_CONTROL)"

definition ata_is_master :: "nat \<Rightarrow> bool" where
  "ata_is_master drive_idx \<longleftrightarrow> drive_idx mod 2 = 0"

definition ata_drive_present :: "u8 \<Rightarrow> ata_state \<Rightarrow> bool" where
  "ata_drive_present drive_index s =
     (if drive_count s \<le> unat drive_index then False
      else drive_type (detected_drives s ! unat drive_index) \<noteq> 0)"

definition ata_get_drive_info :: "u8 \<Rightarrow> ata_state \<Rightarrow> ata_drive_t option" where
  "ata_get_drive_info drive_index s =
     (if drive_count s \<le> unat drive_index then None
      else Some (detected_drives s ! unat drive_index))"

section \<open>Reading and writing sectors\<close>

text \<open>\<open>n\<close> words from the data port.\<close>

fun read_words :: "device \<Rightarrow> u16 \<Rightarrow> nat \<Rightarrow> io_trace \<Rightarrow> u16 list \<times> io_trace" where
  "read_words dev port 0 tr = ([], tr)"
| "read_words dev port (Suc n) tr =
     (let (w, tr) = inw dev port tr; (ws, tr) = read_words dev port n tr in (w # ws, tr))"

text \<open>The loop over the sectors with \<open>k\<close> left, and the words stored in the buffer.\<close>

fun read_loop :: "device \<Rightarrow> u16 \<Rightarrow> nat \<Rightarrow> io_trace \<Rightarrow> bool \<times> u16 list \<times> io_trace" where
  "read_loop dev data_port 0 tr = (True, [], tr)"
| "read_loop dev data_port (Suc k) tr =
     (let (ok, tr) = ata_wait_drq dev (data_port + 7) ATA_TIMEOUT tr
      in if \<not> ok then (False, [], tr)
         else let (ws, tr) = read_words dev data_port 256 tr;
                  (ok, ws', tr) = read_loop dev data_port k tr
              in (ok, ws @ ws', tr))"

text \<open>The registers of a command, the same for reading and writing.\<close>

definition select_sectors :: "u16 \<Rightarrow> bool \<Rightarrow> u32 \<Rightarrow> u8 \<Rightarrow> io_trace \<Rightarrow> io_trace" where
  "select_sectors data_port is_master lba count tr =
     (let drive_select = (if is_master then ATA_DEVICE_MASTER else ATA_DEVICE_SLAVE);
          tr = outb (data_port + 6) (drive_select OR ATA_DEVICE_LBA OR ucast (drop_bit 24 lba AND 0x0F)) tr;
          tr = outb (data_port + 1) 0 tr;
          tr = outb (data_port + 2) count tr;
          tr = outb (data_port + 3) (ucast (lba AND 0xFF)) tr;
          tr = outb (data_port + 4) (ucast (drop_bit 8 lba AND 0xFF)) tr
      in outb (data_port + 5) (ucast (drop_bit 16 lba AND 0xFF)) tr)"

definition ata_read_sectors ::
  "device \<Rightarrow> u8 \<Rightarrow> u32 \<Rightarrow> u8 \<Rightarrow> bool \<Rightarrow> ata_state \<Rightarrow> bool \<times> u16 list \<times> ata_state" where
  "ata_read_sectors dev drive_index lba count buffer_null s =
     (if \<not> ata_drive_present drive_index s \<or> buffer_null \<or> count = 0 then (False, [], s)
      else
      let data_port = ata_get_data_port (unat drive_index);
          is_master = ata_is_master (unat drive_index);
          (ok, tr) = ata_wait_not_busy dev (data_port + 7) ATA_TIMEOUT (ata_io s)
      in if \<not> ok then (False, [], s\<lparr>ata_io := tr\<rparr>)
      else
      let tr = select_sectors data_port is_master lba count tr;
          tr = outb (data_port + 7) ATA_CMD_READ_PIO tr;
          (ok, ws, tr) = read_loop dev data_port (unat count) tr
      in (ok, ws, s\<lparr>ata_io := tr\<rparr>))"

text \<open>\<open>buf[k]\<close> of a buffer of bytes as an array of words.\<close>

definition buffer_word :: "u8 list \<Rightarrow> nat \<Rightarrow> u16" where
  "buffer_word buf k = ucast (buf ! (2 * k)) OR push_bit 8 (ucast (buf ! (2 * k + 1)))"

fun write_loop :: "device \<Rightarrow> u16 \<Rightarrow> u8 list \<Rightarrow> nat \<Rightarrow> nat \<Rightarrow> io_trace \<Rightarrow> bool \<times> io_trace" where
  "write_loop dev data_port buf 0 sector tr = (True, tr)"
| "write_loop dev data_port buf (Suc k) sector tr =
     (let (ok, tr) = ata_wait_drq dev (data_port + 7) ATA_TIMEOUT tr
      in if \<not> ok then (False, tr)
         else let tr = fold (\<lambda>i. outw data_port (buffer_word buf (sector * 256 + i))) [0..<256] tr;
                  tr = outb (data_port + 7) ATA_CMD_CACHE_FLUSH tr;
                  (ok, tr) = ata_wait_not_busy dev (data_port + 7) ATA_TIMEOUT tr
              in if \<not> ok then (False, tr) else write_loop dev data_port buf k (Suc sector) tr)"

definition ata_write_sectors ::
  "device \<Rightarrow> u8 \<Rightarrow> u32 \<Rightarrow> u8 \<Rightarrow> u8 list option \<Rightarrow> ata_state \<Rightarrow> (bool \<times> ata_state) option" where
  "ata_write_sectors dev drive_index lba count buffer s = (case buffer of
     None \<Rightarrow> Some (False, s)
   | Some buf \<Rightarrow>
     if \<not> ata_drive_present drive_index s \<or> count = 0 then Some (False, s)
     else if length buf < 512 * unat count then None
     else
     let data_port = ata_get_data_port (unat drive_index);
         is_master = ata_is_master (unat drive_index);
         (ok, tr) = ata_wait_not_busy dev (data_port + 7) ATA_TIMEOUT (ata_io s)
     in if \<not> ok then Some (False, s\<lparr>ata_io := tr\<rparr>)
     else
     let tr = select_sectors data_port is_master lba count tr;
         tr = outb (data_port + 7) ATA_CMD_WRITE_PIO tr;
         (ok, tr) = write_loop dev data_port buf (unat count) 0 tr
     in Some (ok, s\<lparr>ata_io := tr\<rparr>))"

definition ata_flush_cache :: "device \<Rightarrow> u8 \<Rightarrow> ata_state \<Rightarrow> bool \<times> ata_state" where
  "ata_flush_cache dev drive_index s =
     (if \<not> ata_drive_present drive_index s then (False, s)
      else
      let data_port = ata_get_data_port (unat drive_index);
          is_master = ata_is_master (unat drive_index);
          (ok, tr) = ata_wait_not_busy dev (data_port + 7) ATA_TIMEOUT (ata_io s)
      in if \<not> ok then (False, s\<lparr>ata_io := tr\<rparr>)
      else
      let drive_select = (if is_master then ATA_DEVICE_MASTER else ATA_DEVICE_SLAVE);
          tr = outb (data_port + 6) (drive_select OR ATA_DEVICE_LBA) tr;
          tr = outb (data_port + 7) ATA_CMD_CACHE_FLUSH tr;
          (ok, tr) = ata_wait_not_busy dev (data_port + 7) ATA_TIMEOUT tr
      in (ok, s\<lparr>ata_io := tr\<rparr>))"

section \<open>Detection\<close>

text \<open>
  \<open>ata_extract_string\<close>: the bytes of \<open>length / 2\<close> words swapped, trailing spaces and zeros turned into
  zeros, from the last byte on down to the first byte that is neither.
\<close>

fun strip_spaces :: "u8 list \<Rightarrow> u8 list" where
  "strip_spaces [] = []"
| "strip_spaces (c # cs) =
     (if c = 0x20 then 0 # strip_spaces cs else if c \<noteq> 0 then c # cs else c # strip_spaces cs)"

definition ata_extract_string :: "u16 list \<Rightarrow> nat \<Rightarrow> u8 list" where
  "ata_extract_string src len =
     (let dest = concat (map (\<lambda>i. [ucast (drop_bit 8 (src ! i) AND 0xFF), ucast (src ! i AND 0xFF)]) [0..<len div 2])
      in rev (strip_spaces (rev dest)))"

text \<open>\<open>for (i = 0; i < n; i++) { dest[i] = src[i]; if (src[i] == 0) break; } dest[n] = 0\<close>\<close>

fun copy_chars :: "u8 list \<Rightarrow> u8 list \<Rightarrow> u8 list" where
  "copy_chars (c # cs) (d # ds) = c # (if c = 0 then ds else copy_chars cs ds)"
| "copy_chars _ ds = ds"

definition copy_string :: "nat \<Rightarrow> u8 list \<Rightarrow> u8 list \<Rightarrow> u8 list" where
  "copy_string n src dest = (copy_chars (take n src) dest)[n := 0]"

definition drive_of_identify :: "u8 \<Rightarrow> u8 \<Rightarrow> u8 \<Rightarrow> u16 list \<Rightarrow> ata_drive_t \<Rightarrow> ata_drive_t" where
  "drive_of_identify ty lba_mid lba_high identify d =
     d\<lparr>drive_type := ucast ty,
       drive_signature := push_bit 8 (ucast lba_high) OR ucast lba_mid,
       capabilities := identify ! 49,
       command_sets := ucast (identify ! 83),
       drive_size := (if bit (identify ! 83) 10
                      then push_bit 16 (ucast (identify ! 101)) OR ucast (identify ! 100)
                      else push_bit 16 (ucast (identify ! 61)) OR ucast (identify ! 60)),
       drive_model := copy_string 40 (ata_extract_string (drop 27 identify) 40) (drive_model d),
       drive_serial := copy_string 20 (ata_extract_string (drop 10 identify) 20) (drive_serial d),
       cylinders := identify ! 1,
       heads := identify ! 3,
       sectors := identify ! 6\<rparr>"

text \<open>The type of a drive by its signature; \<open>None\<close> where the detection gives up.\<close>

definition drive_type_of :: "u8 \<Rightarrow> u8 \<Rightarrow> u8 \<Rightarrow> u8 option" where
  "drive_type_of status lba_mid lba_high =
     (if status = 0 \<or> status = 0xFF then None
      else if lba_mid = 0x14 \<and> lba_high = 0xEB then None
      else if lba_mid = 0x3C \<and> lba_high = 0xC3 then Some DRIVE_TYPE_SATA
      else if lba_mid = 0 \<and> lba_high = 0 then Some DRIVE_TYPE_PATA
      else if status AND (ATA_STATUS_BSY OR ATA_STATUS_DRQ) = ATA_STATUS_DRQ then Some DRIVE_TYPE_PATA
      else None)"

definition ata_detect_drive :: "device \<Rightarrow> u16 \<Rightarrow> u16 \<Rightarrow> bool \<Rightarrow> ata_state \<Rightarrow> ata_state" where
  "ata_detect_drive dev base_port control master s =
     (if ATA_MAX_DRIVES \<le> drive_count s then s
      else
      let tr = ata_software_reset dev control (ata_io s);
          drive_select = (if master then ATA_DEVICE_MASTER else ATA_DEVICE_SLAVE);
          tr = outb (base_port + 6) (drive_select OR ATA_DEVICE_LBA) tr;
          tr = ata_400ns_delay dev base_port tr;
          tr = outb (base_port + 7) ATA_CMD_IDENTIFY tr;
          tr = ata_400ns_delay dev base_port tr;
          (status, tr) = inb dev (base_port + 7) tr
      in if status = 0 then s\<lparr>ata_io := tr\<rparr>
      else
      let (ok, tr) = ata_wait_not_busy dev (base_port + 7) ATA_TIMEOUT tr
      in if \<not> ok then s\<lparr>ata_io := tr\<rparr>
      else
      let (lba_mid, tr) = inb dev (base_port + 4) tr;
          (lba_high, tr) = inb dev (base_port + 5) tr
      in case drive_type_of status lba_mid lba_high of
        None \<Rightarrow> s\<lparr>ata_io := tr\<rparr>
      | Some ty \<Rightarrow>
        let (ok, tr) = ata_wait_drq dev (base_port + 7) ATA_TIMEOUT tr
        in if \<not> ok then s\<lparr>ata_io := tr\<rparr>
        else
        let (identify, tr) = read_words dev base_port 256 tr;
            d = drive_of_identify ty lba_mid lba_high identify (detected_drives s ! drive_count s)
        in s\<lparr>ata_io := tr, detected_drives := (detected_drives s)[drive_count s := d],
             drive_count := drive_count s + 1\<rparr>)"

text \<open>
  \<open>ata_init\<close> on the drives and the PCI bus. The controller's command register gets its two bits set;
  the address of the bus master registers is read and only logged.
\<close>

definition enable_controller :: "device \<Rightarrow> pci_state \<Rightarrow> pci_state" where
  "enable_controller dev p =
     (let found = (case pci_find_device_by_class 0x01 0x06 p of
                     None \<Rightarrow> pci_find_device_by_class 0x01 0x01 p
                   | Some c \<Rightarrow> Some c)
      in case found of
           None \<Rightarrow> p
         | Some c \<Rightarrow>
             let (command, p) = pci_read_config_dword dev (bus c) (device c) (func c) PCI_COMMAND p;
                 p = pci_write_config_dword (bus c) (device c) (func c) PCI_COMMAND (command OR 0x5) p
             in snd (pci_get_bar dev (Some c) 4 p))"

definition ata_init :: "device \<Rightarrow> ata_state \<times> pci_state \<Rightarrow> ata_state \<times> pci_state" where
  "ata_init dev sp =
     (let (s, p) = sp;
          s = s\<lparr>drive_count := 0, detected_drives := replicate ATA_MAX_DRIVES zero_drive\<rparr>;
          p = enable_controller dev (pci_init dev (p\<lparr>pci_io := ata_io s\<rparr>));
          s = s\<lparr>ata_io := pci_io p\<rparr>;
          s = ata_detect_drive dev ATA_PRIMARY_DATA ATA_PRIMARY_CONTROL True s;
          s = ata_detect_drive dev ATA_PRIMARY_DATA ATA_PRIMARY_CONTROL False s;
          s = ata_detect_drive dev ATA_SECONDARY_DATA ATA_SECONDARY_CONTROL True s;
          s = ata_detect_drive dev ATA_SECONDARY_DATA ATA_SECONDARY_CONTROL False s
      in (s, p\<lparr>pci_io := ata_io s\<rparr>))"

end
