(* ===== verification/Reports.thy ===== *)
theory Reports
  imports Log VMM_Properties ATA
begin

text \<open>
  The functions that only report: \<open>vmm_dump_page_tables\<close>, \<open>vmm_dump_page_flags\<close> and the page fault
  handler of \<open>memory/vmm.c\<close>, \<open>pmm_print_stats\<close>, \<open>ata_print_info\<close> and \<open>utils/sysinfo.c\<close>. A report is the
  list of its calls of the log, in order; \<open>run_log\<close> makes them.

  An argument of 64 bits that a conversion of an \<open>int\<close> reads is its low half, as the calling convention
  of the x86-64 has it: a variable argument takes a register or eight bytes of the stack.

  The theorems: every report returns on a UART that transmits, \<open>pmm_print_stats\<close> and \<open>sysinfo_print\<close> print
  exact numbers (but cut addresses to 32 bits), and the dump of the page tables shows the mapping.
\<close>

section \<open>Calls of the log\<close>

datatype log_call = Log_printf log_level_t "u8 list" "va_arg list" | Log_message log_level_t "u8 list"

abbreviation LOG_INFO :: "string \<Rightarrow> va_arg list \<Rightarrow> log_call" where
  "LOG_INFO fmt args \<equiv> Log_printf LOG_LEVEL_INFO (bytes_of fmt) args"

abbreviation LOG_ERROR :: "string \<Rightarrow> va_arg list \<Rightarrow> log_call" where
  "LOG_ERROR fmt args \<equiv> Log_printf LOG_LEVEL_ERROR (bytes_of fmt) args"

abbreviation LOG_INFO_MSG :: "string \<Rightarrow> log_call" where
  "LOG_INFO_MSG msg \<equiv> Log_message LOG_LEVEL_INFO (bytes_of msg)"

abbreviation LOG_WARN_MSG :: "string \<Rightarrow> log_call" where
  "LOG_WARN_MSG msg \<equiv> Log_message LOG_LEVEL_WARN (bytes_of msg)"

fun run_log :: "device \<Rightarrow> log_state \<Rightarrow> log_call list \<Rightarrow> io_trace \<Rightarrow> io_trace option" where
  "run_log dev s [] tr = Some tr"
| "run_log dev s (Log_printf level fmt args # cs) tr =
     (case log_printf dev level fmt args s tr of None \<Rightarrow> None | Some tr \<Rightarrow> run_log dev s cs tr)"
| "run_log dev s (Log_message level msg # cs) tr =
     (case log_message dev level (Some msg) s tr of None \<Rightarrow> None | Some tr \<Rightarrow> run_log dev s cs tr)"

definition low_half :: "u64 \<Rightarrow> va_arg" where
  "low_half v = VA_int (ucast v)"

section \<open>Virtual memory\<close>

definition PAGE_ACCESSED :: u64 where "PAGE_ACCESSED = push_bit 5 1"
definition PAGE_DIRTY :: u64 where "PAGE_DIRTY = push_bit 6 1"

definition flag_name :: "u64 \<Rightarrow> u64 \<Rightarrow> string \<Rightarrow> va_arg" where
  "flag_name e flag name = VA_str (Some (bytes_of (if e AND flag \<noteq> 0 then name else '''')))"

definition vmm_dump_page_flags :: "u64 \<Rightarrow> log_call list" where
  "vmm_dump_page_flags e =
     [LOG_INFO ''Flags: %s%s%s%s%s%s%s%s%s''
        [flag_name e PAGE_PRESENT ''PRESENT '',
         flag_name e PAGE_WRITABLE ''WRITABLE '',
         flag_name e PAGE_USER ''USER '',
         flag_name e PAGE_WRITETHROUGH ''WRITETHROUGH '',
         flag_name e PAGE_CACHE_DISABLE ''NOCACHE '',
         flag_name e PAGE_ACCESSED ''ACCESSED '',
         flag_name e PAGE_DIRTY ''DIRTY '',
         flag_name e PAGE_HUGE ''HUGE '',
         flag_name e PAGE_GLOBAL ''GLOBAL '']]"

definition vmm_dump_page_tables :: "vmm_state \<Rightarrow> u64 \<Rightarrow> log_call list" where
  "vmm_dump_page_tables s virt_addr =
     LOG_INFO ''Page table info for address 0x%llX:'' [VA_ll virt_addr] #
     (let pml4_idx = PML4_INDEX virt_addr; pdpt_idx = PDPT_INDEX virt_addr;
          pd_idx = PD_INDEX virt_addr; pt_idx = PT_INDEX virt_addr
      in LOG_INFO ''Indices: PML4=%llu, PDPT=%llu, PD=%llu, PT=%llu''
           [VA_ll pml4_idx, VA_ll pdpt_idx, VA_ll pd_idx, VA_ll pt_idx] #
     (let pml4 = phys_to_virt s (current_pml4_phys s)
      in if pml4 = NULL then [LOG_ERROR ''Cannot access PML4!'' []]
      else LOG_INFO ''PML4 entry: 0x%llX'' [VA_ll (ld64 s pml4 pml4_idx)] #
     (if \<not> VMM.present (ld64 s pml4 pml4_idx) then [LOG_INFO ''PML4 entry not present'' []]
      else
      let pdpt = phys_to_virt s (ld64 s pml4 pml4_idx AND PAGE_ADDR_MASK)
      in if pdpt = NULL then [LOG_ERROR ''Cannot access PDPT!'' []]
      else LOG_INFO ''PDPT entry: 0x%llX'' [VA_ll (ld64 s pdpt pdpt_idx)] #
     (if \<not> VMM.present (ld64 s pdpt pdpt_idx) then [LOG_INFO ''PDPT entry not present'' []]
      else if huge (ld64 s pdpt pdpt_idx)
        then LOG_INFO ''1GB page at physical address 0x%llX'' [VA_ll (ld64 s pdpt pdpt_idx AND PAGE_ADDR_MASK)]
          # vmm_dump_page_flags (ld64 s pdpt pdpt_idx)
      else
      let pd = phys_to_virt s (ld64 s pdpt pdpt_idx AND PAGE_ADDR_MASK)
      in if pd = NULL then [LOG_ERROR ''Cannot access PD!'' []]
      else LOG_INFO ''PD entry: 0x%llX'' [VA_ll (ld64 s pd pd_idx)] #
     (if \<not> VMM.present (ld64 s pd pd_idx) then [LOG_INFO ''PD entry not present'' []]
      else if huge (ld64 s pd pd_idx)
        then LOG_INFO ''2MB page at physical address 0x%llX'' [VA_ll (ld64 s pd pd_idx AND PAGE_ADDR_MASK)]
          # vmm_dump_page_flags (ld64 s pd pd_idx)
      else
      let pt = phys_to_virt s (ld64 s pd pd_idx AND PAGE_ADDR_MASK)
      in if pt = NULL then [LOG_ERROR ''Cannot access PT!'' []]
      else LOG_INFO ''PT entry: 0x%llX'' [VA_ll (ld64 s pt pt_idx)] #
     (if \<not> VMM.present (ld64 s pt pt_idx) then [LOG_INFO ''PT entry not present'' []]
      else LOG_INFO ''4KB page at physical address 0x%llX'' [VA_ll (ld64 s pt pt_idx AND PAGE_ADDR_MASK)]
          # vmm_dump_page_flags (ld64 s pt pt_idx)))))))"

text \<open>
  The page fault handler up to its loop of \<open>hcf\<close>, which never ends. The stack buffers hold \<open>buf\<close> before;
  \<open>%s\<close> reads up to the terminator.
\<close>

definition hex_text :: "u64 \<Rightarrow> string \<Rightarrow> va_arg" where
  "hex_text v buf = VA_str (Some (takeWhile (\<lambda>c. c \<noteq> 0) (bytes_of (uint64_to_hex v buf))))"

definition page_fault_handler :: "vmm_state \<Rightarrow> u64 \<Rightarrow> u64 \<Rightarrow> u64 \<Rightarrow> string \<Rightarrow> log_call list" where
  "page_fault_handler s fault_addr rip error_code buf =
     (let fault_addr_str = hex_text fault_addr buf;
          rip_str = hex_text rip buf;
          phys_addr = vmm_get_physical_address s fault_addr;
          phys_addr_str = hex_text phys_addr buf
      in [Log_printf LOG_LEVEL_ERROR (10 # bytes_of ''!!! PAGE FAULT !!!'') [],
          LOG_ERROR ''Page Fault Details:'' [],
          LOG_ERROR ''  Fault Address: %s'' [fault_addr_str],
          LOG_ERROR ''  Error Code: 0x%X'' [VA_int (ucast error_code)],
          LOG_ERROR ''  Instruction Pointer: %s'' [rip_str],
          LOG_ERROR ''  Address mapped to physical: %s'' [phys_addr_str],
          LOG_ERROR ''Page fault at %s, error code 0x%X'' [fault_addr_str, VA_int (ucast error_code)]])"

section \<open>Physical memory\<close>

text \<open>The counters of the loop of \<open>pmm_print_stats\<close>, free and used pages.\<close>

fun count_loop :: "u8 list \<Rightarrow> nat \<Rightarrow> nat \<Rightarrow> u64 \<times> u64 \<Rightarrow> u64 \<times> u64" where
  "count_loop bm i 0 acc = acc"
| "count_loop bm i (Suc n) (free_pages, used_pages) =
     count_loop bm (Suc i) n
       (if page_used bm i then (free_pages, used_pages + 1) else (free_pages + 1, used_pages))"

definition pmm_print_stats :: "pmm_state \<Rightarrow> log_call list" where
  "pmm_print_stats s =
     (if \<not> page_bitmap_set s then [LOG_WARN_MSG ''PMM not initialized'']
      else
      let (free_pages, used_pages) = count_loop (static_bitmap s) 0 (npages s) (0, 0)
      in [LOG_INFO ''PMM Statistics:'' [],
          LOG_INFO ''  Total pages: %d'' [VA_int (max_pages (pmm_config s))],
          LOG_INFO ''  Used pages: %d (%d MB)''
            [low_half used_pages, low_half ((used_pages * page_size (pmm_config s)) div (1024 * 1024))],
          LOG_INFO ''  Free pages: %d (%d MB)''
            [low_half free_pages, low_half ((free_pages * page_size (pmm_config s)) div (1024 * 1024))],
          LOG_INFO ''  Total allocations: %d'' [low_half (total_allocations s)],
          LOG_INFO ''  Failed allocations: %d'' [low_half (failed_allocations s)],
          LOG_INFO ''  Memory range: 0x%X - 0x%X''
            [low_half (kernel_start (pmm_config s)), low_half (kernel_end (pmm_config s))]])"

section \<open>Drives\<close>

definition DRIVE_TYPE_PATAPI :: u8 where "DRIVE_TYPE_PATAPI = 3"
definition DRIVE_TYPE_SATAPI :: u8 where "DRIVE_TYPE_SATAPI = 4"

definition type_str :: "u16 \<Rightarrow> string" where
  "type_str t =
     (if t = ucast DRIVE_TYPE_PATA then ''PATA''
      else if t = ucast DRIVE_TYPE_SATA then ''SATA''
      else if t = ucast DRIVE_TYPE_PATAPI then ''PATAPI''
      else if t = ucast DRIVE_TYPE_SATAPI then ''SATAPI''
      else ''Unknown'')"

text \<open>A field of a drive as a string: \<open>ata_detect_drive\<close> always writes a terminator at its end.\<close>

definition field_str :: "u8 list \<Rightarrow> va_arg" where
  "field_str cs = VA_str (Some (takeWhile (\<lambda>c. c \<noteq> 0) cs))"

definition print_drive :: "nat \<Rightarrow> ata_drive_t \<Rightarrow> log_call list" where
  "print_drive i d =
     [LOG_INFO ''Drive %d:'' [VA_int (of_nat i)],
      LOG_INFO ''  Model: %s'' [field_str (drive_model d)],
      LOG_INFO ''  Serial: %s'' [field_str (drive_serial d)],
      LOG_INFO ''  Type: %s'' [VA_str (Some (bytes_of (type_str (drive_type d))))],
      LOG_INFO ''  Size: %u sectors (%u MB)'' [VA_int (drive_size d), VA_int (drive_size d div 2048)],
      LOG_INFO ''  CHS: %u/%u/%u'' [VA_int (ucast (cylinders d)), VA_int (ucast (heads d)), VA_int (ucast (sectors d))],
      (if capabilities d AND push_bit 9 1 \<noteq> 0 then LOG_INFO ''  LBA: Supported'' []
       else LOG_INFO ''  LBA: Not supported'' [])]"

definition ata_print_info :: "ata_state \<Rightarrow> log_call list" where
  "ata_print_info s =
     [LOG_INFO ''ATA Drive Information:'' [], LOG_INFO ''----------------------'' []] @
     (if drive_count s = 0 then [LOG_INFO ''No ATA drives detected'' []]
      else concat (map (\<lambda>i. print_drive i (detected_drives s ! i)) [0..<drive_count s]))"

section \<open>System information\<close>

text \<open>
  The answers of the boot loader are \<open>None\<close> where a request has no response: the memory map, the name and
  version of the boot loader, and the addresses of the kernel.
\<close>

record boot_answers =
  memmap_response :: "memmap_entry list option"
  bootloader_response :: "(u8 list \<times> u8 list) option"
  kernel_addr_response :: "(u64 \<times> u64) option"

definition sysinfo_init :: "boot_answers \<Rightarrow> log_call list" where
  "sysinfo_init b =
     (if memmap_response b = None then [LOG_WARN_MSG ''Memory map information not available''] else []) @
     (if bootloader_response b = None then [LOG_WARN_MSG ''Bootloader information not available''] else []) @
     (if kernel_addr_response b = None then [LOG_WARN_MSG ''Kernel address information not available''] else [])"

fun sum_usable :: "memmap_entry list \<Rightarrow> u64 \<Rightarrow> u64" where
  "sum_usable [] total_usable = total_usable"
| "sum_usable (e # es) total_usable =
     sum_usable es (if entry_type e = MEMMAP_USABLE then total_usable + entry_length e else total_usable)"

definition sysinfo_print :: "boot_answers \<Rightarrow> pmm_state \<Rightarrow> log_call list" where
  "sysinfo_print b s =
     [LOG_INFO_MSG ''System Information:''] @
     (case bootloader_response b of None \<Rightarrow> []
      | Some (name, version) \<Rightarrow> [LOG_INFO ''Bootloader: %s %s'' [VA_str (Some name), VA_str (Some version)]]) @
     (case kernel_addr_response b of None \<Rightarrow> []
      | Some (physical_base, virtual_base) \<Rightarrow>
          [LOG_INFO ''Kernel: physical=0x%X, virtual=0x%X'' [low_half physical_base, low_half virtual_base]]) @
     (case memmap_response b of None \<Rightarrow> []
      | Some entries \<Rightarrow>
          [LOG_INFO ''Memory map entries: %d'' [low_half (of_nat (length entries))],
           LOG_INFO ''Total usable memory: %d MB'' [low_half (sum_usable entries 0 div (1024 * 1024))]]) @
     (let config = pmm_get_info s
      in [LOG_INFO ''Memory Management:'' [],
          LOG_INFO ''  Managed range: 0x%X - 0x%X'' [low_half (kernel_start config), low_half (kernel_end config)],
          LOG_INFO ''  Managed size: %d MB'' [low_half ((kernel_end config - kernel_start config) div (1024 * 1024))],
          LOG_INFO ''  Free Memory: %d MB'' [low_half (pmm_get_free_memory s div (1024 * 1024))],
          LOG_INFO ''  Used Memory: %d MB'' [low_half (pmm_get_used_memory s div (1024 * 1024))]])"

section \<open>Reports are sent\<close>

text \<open>The level and the text of a call, \<open>None\<close> if its format does not fit its arguments.\<close>

fun call_text :: "log_call \<Rightarrow> (log_level_t \<times> u8 list) option" where
  "call_text (Log_printf level fmt args) =
     map_option (\<lambda>out. (level, takeWhile (\<lambda>c. c \<noteq> 0) out)) (vsprintf fmt args)"
| "call_text (Log_message level msg) = (if 0 \<in> set msg then None else Some (level, msg))"

definition report_lines :: "log_state \<Rightarrow> (log_level_t \<times> u8 list) list \<Rightarrow> u8 list" where
  "report_lines s ts = concat (map (\<lambda>(level, t). log_line level s t) ts)"

lemma run_log_sends:
  assumes "transmits dev SERIAL_COM1"
  shows "map call_text cs = map Some ts \<Longrightarrow>
    \<exists>tr'. run_log dev s cs tr = Some tr'
      \<and> bytes_out SERIAL_COM1 tr' = bytes_out SERIAL_COM1 tr @ report_lines s ts"
proof (induction cs arbitrary: ts tr)
  case (Cons c cs)
  then obtain l t ts' where ts: "ts = (l, t) # ts'" "call_text c = Some (l, t)" "map call_text cs = map Some ts'"
    by (cases ts) auto
  have "\<exists>tr'. run_log dev s [c] tr = Some tr'
      \<and> bytes_out SERIAL_COM1 tr' = bytes_out SERIAL_COM1 tr @ log_line l s t"
  proof (cases c)
    case (Log_printf level fmt args)
    then show ?thesis using ts(2) log_sends [OF assms, of fmt args _ "[]" level s tr] by auto
  next
    case (Log_message level msg)
    then show ?thesis using ts(2) log_sends [OF assms, of "[]" "[]" "[]" msg level s tr] by (auto split: if_splits)
  qed
  then obtain tr1 where 1: "run_log dev s [c] tr = Some tr1"
    "bytes_out SERIAL_COM1 tr1 = bytes_out SERIAL_COM1 tr @ log_line l s t" by blast
  have "run_log dev s (c # cs) tr = run_log dev s cs tr1"
    using 1(1) by (cases c) (auto split: option.splits)
  then show ?case using Cons.IH [OF ts(3), of tr1] 1(2) by (auto simp: report_lines_def ts(1))
qed (simp add: report_lines_def)

text \<open>Formats: the text in front of the next conversion, and the conversions the reports use.\<close>

lemma vsprintf_text:
  "c \<noteq> 0x25 \<Longrightarrow> vsprintf (c # fs) args = map_option (Cons c) (vsprintf fs args)"
  by simp

lemma vsprintf_s: "vsprintf (0x25 # 0x73 # fs) (VA_str (Some t) # args) = map_option ((@) t) (vsprintf fs args)"
  by (simp add: read_spec_def log_conv_def)

lemma vsprintf_d:
  assumes "unat w < 0x80000000"
  shows "vsprintf (0x25 # 0x64 # fs) (VA_int w # args)
    = map_option ((@) (numeral_of 10 (unat w))) (vsprintf fs args)"
proof -
  have "uint w < 0x80000000" using assms unfolding uint_nat by linarith
  moreover have "- 0x80000000 \<le> uint w" using uint_ge_0 [of w] by linarith
  ultimately have "sint w = uint w" using signed_take_bit_int_eq_self [of 31 "uint w"] by (simp add: sint_uint)
  moreover have "put_dec False 0 (uint w) = numeral_of 10 (unat w)"
    using put_dec_padded [of "uint w" False 0] by (simp add: padded_def)
  ultimately show ?thesis by (simp add: read_spec_def log_conv_def)
qed

lemma vsprintf_X:
  "vsprintf (0x25 # 0x58 # fs) (VA_int w # args)
    = map_option ((@) (map (case_of True) (numeral_of 16 (unat w)))) (vsprintf fs args)"
proof -
  have "put_hex True False 0 w = map (case_of True) (numeral_of 16 (unat w))"
    using put_hex_padded [of True False 0 w] by (simp add: padded_def)
  then show ?thesis by (simp add: read_spec_def log_conv_def)
qed

text \<open>Printed text has no zero byte.\<close>

lemma digit_char_nonzero: "d < 16 \<Longrightarrow> digit_char d \<noteq> 0"
proof -
  assume "d < 16"
  then have "d \<in> set [0..<16]" by simp
  then show ?thesis by (simp add: upt_rec digit_char_def) (elim disjE; simp)
qed

lemma numeral_of_nonzero: "2 \<le> b \<Longrightarrow> b \<le> 16 \<Longrightarrow> 0 \<notin> set (numeral_of b n)"
proof (induction b n rule: numeral_of.induct)
  case (1 b n)
  show ?case
  proof (cases "n < b")
    case True
    then show ?thesis using 1(3) digit_char_nonzero [of n] by (subst numeral_of.simps) auto
  next
    case False
    have "n mod b < b" using 1(2) by simp
    then have "digit_char (n mod b) \<noteq> 0" using 1(3) digit_char_nonzero [of "n mod b"] by linarith
    moreover have "0 \<notin> set (numeral_of b (n div b))" using 1 False by simp
    ultimately show ?thesis using False 1(2) by (subst numeral_of.simps) simp
  qed
qed

lemma case_of_nonzero: "c \<noteq> 0 \<Longrightarrow> case_of u c \<noteq> 0"
proof (cases "u \<and> 0x61 \<le> c")
  case True
  then have "0x20 < c" by (simp add: word_less_nat_alt word_le_nat_alt)
  then show ?thesis using True by (simp add: case_of_def)
next
  case False
  assume "c \<noteq> 0" then show ?thesis using False by (auto simp: case_of_def)
qed

definition decimal :: "nat \<Rightarrow> u8 list" where
  "decimal n = numeral_of 10 n"

definition hexadecimal :: "nat \<Rightarrow> u8 list" where
  "hexadecimal n = map (case_of True) (numeral_of 16 n)"

lemma takeWhile_decimal [simp]: "takeWhile (\<lambda>c. c \<noteq> 0) (decimal n @ cs) = decimal n @ takeWhile (\<lambda>c. c \<noteq> 0) cs"
  using numeral_of_nonzero [of 10 n] by (subst takeWhile_append2) (auto simp: decimal_def)

lemma takeWhile_hexadecimal [simp]:
  "takeWhile (\<lambda>c. c \<noteq> 0) (hexadecimal n @ cs) = hexadecimal n @ takeWhile (\<lambda>c. c \<noteq> 0) cs"
proof (rule takeWhile_append2)
  fix c assume "c \<in> set (hexadecimal n)"
  then obtain d where "d \<in> set (numeral_of 16 n)" "c = case_of True d" by (auto simp: hexadecimal_def)
  moreover have "d \<noteq> 0" using numeral_of_nonzero [of 16 n] \<open>d \<in> set (numeral_of 16 n)\<close> by auto
  ultimately show "c \<noteq> 0" using case_of_nonzero [of d True] by simp
qed

lemmas takeWhile_numbers [simp] = takeWhile_decimal [of _ "[]", simplified] takeWhile_hexadecimal [of _ "[]", simplified]


section \<open>The page walk\<close>

text \<open>The line for a page of the tree that has so many levels below it.\<close>

definition page_line :: "nat \<Rightarrow> u64 \<Rightarrow> log_call" where
  "page_line levels pa = LOG_INFO
     ([''4KB'', ''2MB'', ''1GB''] ! levels @ '' page at physical address 0x%llX'') [VA_ll pa]"

lemma dump_walk:
  assumes "vmm_inv s"
  shows "case leaf s (root s) (vpn va) of
      Some (e, rest) \<Rightarrow> suffix (page_line (length rest) (e AND PAGE_ADDR_MASK) # vmm_dump_page_flags e)
        (vmm_dump_page_tables s va)
    | None \<Rightarrow> \<exists>t. suffix [LOG_INFO (t @ '' entry not present'') []] (vmm_dump_page_tables s va)"
proof -
  define e4 where "e4 = VMM_Walk.entry s (root s) (PML4_INDEX va)"
  define e3 where "e3 = VMM_Walk.entry s (e4 AND PAGE_ADDR_MASK) (PDPT_INDEX va)"
  define e2 where "e2 = VMM_Walk.entry s (e3 AND PAGE_ADDR_MASK) (PD_INDEX va)"
  define e1 where "e1 = VMM_Walk.entry s (e2 AND PAGE_ADDR_MASK) (PT_INDEX va)"
  note w = code_walk [OF assms, of va, folded e4_def, folded e3_def, folded e2_def, folded e1_def]
  note [simp] = vmm_dump_page_tables_def page_line_def suffix_Cons
  consider "\<not> VMM.present e4" | "VMM.present e4" "\<not> VMM.present e3"
    | "VMM.present e4" "VMM.present e3" "huge e3"
    | "VMM.present e4" "VMM.present e3" "\<not> huge e3" "\<not> VMM.present e2"
    | "VMM.present e4" "VMM.present e3" "\<not> huge e3" "VMM.present e2" "huge e2"
    | "VMM.present e4" "VMM.present e3" "\<not> huge e3" "VMM.present e2" "\<not> huge e2" "\<not> VMM.present e1"
    | "VMM.present e4" "VMM.present e3" "\<not> huge e3" "VMM.present e2" "\<not> huge e2" "VMM.present e1"
    by blast
  then show ?thesis
  proof cases
    case 1
    then show ?thesis using w(1) unfolding w(5) by (auto intro: exI [of _ "''PML4''"])
  next
    case 2
    then show ?thesis using w(1,2) unfolding w(5) by (auto intro: exI [of _ "''PDPT''"])
  next
    case 3
    then show ?thesis using w(1,2) unfolding w(5) by auto
  next
    case 4
    then show ?thesis using w(1-3) unfolding w(5) by (auto intro: exI [of _ "''PD''"])
  next
    case 5
    then show ?thesis using w(1-3) unfolding w(5) by auto
  next
    case 6
    then show ?thesis using w(1-4) unfolding w(5) by (auto intro: exI [of _ "''PT''"])
  next
    case 7
    then show ?thesis using w(1-4) unfolding w(5) by auto
  qed
qed

section \<open>Counting pages\<close>

lemma count_loop_counts:
  "count_loop bm i n (f, u) =
     (f + of_nat (count_below (\<lambda>k. \<not> page_used bm (i + k)) n), u + of_nat (count_below (\<lambda>k. page_used bm (i + k)) n))"
proof (induction n arbitrary: i f u)
  case (Suc n)
  have shift: "count_below P (Suc n) = (if P 0 then 1 else 0) + count_below (\<lambda>k. P (Suc k)) n" for P n
    by (induction n) auto
  show ?case by (simp add: Suc shift del: count_below.simps(2))
qed simp

lemma pages_counted:
  assumes "pmm_inv s"
  shows "count_loop (static_bitmap s) 0 (npages s) (0, 0)
    = (of_nat (card (free_frames s)), of_nat (npages s - card (free_frames s)))"
    "card (free_frames s) \<le> npages s"
proof -
  let ?P = "page_used (static_bitmap s)"
  have c: "count_below ?P (npages s) + count_below (\<lambda>i. \<not> ?P i) (npages s) = npages s"
    by (rule count_below_compl)
  then have "count_below ?P (npages s) = npages s - card (free_frames s)"
    using card_free_frames [OF assms] by simp
  then show "count_loop (static_bitmap s) 0 (npages s) (0, 0)
    = (of_nat (card (free_frames s)), of_nat (npages s - card (free_frames s)))"
    using count_loop_counts [of "static_bitmap s" 0 "npages s" 0 0] card_free_frames [OF assms] by simp
  show "card (free_frames s) \<le> npages s" using c card_free_frames [OF assms] by simp
qed


section \<open>Arguments\<close>

lemma takeWhile_bytes: "0 \<notin> set t \<Longrightarrow> takeWhile (\<lambda>c. c \<noteq> 0) (t @ cs) = t @ takeWhile (\<lambda>c. c \<noteq> 0) (cs :: u8 list)"
  by (rule takeWhile_append2) auto

lemma unat_low_half: "unat (ucast (v :: u64) :: u32) = unat v mod 0x100000000"
  by (simp add: unsigned_ucast_eq take_bit_eq_mod)

lemma shown_d:
  assumes "unat v < 0x80000000"
  shows "vsprintf (0x25 # 0x64 # fs) (low_half v # args) = map_option ((@) (decimal (unat v))) (vsprintf fs args)"
proof -
  have "unat (ucast v :: u32) = unat v" using assms unfolding unat_low_half by simp
  then show ?thesis using vsprintf_d [of "ucast v" fs args] assms by (simp add: decimal_def low_half_def)
qed

lemma shown_X:
  "vsprintf (0x25 # 0x58 # fs) (low_half v # args)
    = map_option ((@) (hexadecimal (unat v mod 0x100000000))) (vsprintf fs args)"
  using vsprintf_X [of fs "ucast v" args] unfolding unat_low_half by (simp add: hexadecimal_def low_half_def)

lemma shown_int:
  "unat w < 0x80000000 \<Longrightarrow>
    vsprintf (0x25 # 0x64 # fs) (VA_int w # args) = map_option ((@) (decimal (unat w))) (vsprintf fs args)"
  unfolding decimal_def by (rule vsprintf_d)

lemmas text_simps = bytes_of_def shown_d shown_X shown_int vsprintf_s vsprintf_text vsprintf.simps(1) takeWhile_bytes




section \<open>Every report is sent\<close>

lemma vsprintf_defined:
  "vsprintf (0x25 # 0x73 # fs) (VA_str str # args) = None \<longleftrightarrow> vsprintf fs args = None"
  "vsprintf (0x25 # 0x64 # fs) (VA_int w # args) = None \<longleftrightarrow> vsprintf fs args = None"
  "vsprintf (0x25 # 0x75 # fs) (VA_int w # args) = None \<longleftrightarrow> vsprintf fs args = None"
  "vsprintf (0x25 # 0x58 # fs) (VA_int w # args) = None \<longleftrightarrow> vsprintf fs args = None"
  "vsprintf (0x25 # 0x6C # 0x6C # 0x58 # fs) (VA_ll v # args) = None \<longleftrightarrow> vsprintf fs args = None"
  "vsprintf (0x25 # 0x6C # 0x6C # 0x75 # fs) args = None \<longleftrightarrow> vsprintf fs args = None"
  by (simp_all add: read_spec_def log_conv_def read_ll_def)

abbreviation fits :: "log_call \<Rightarrow> bool" where
  "fits c \<equiv> call_text c \<noteq> None"

lemma run_log_returns:
  assumes "transmits dev SERIAL_COM1" and "list_all fits cs"
  shows "run_log dev l cs tr \<noteq> None"
proof -
  have "map call_text cs = map Some (map (\<lambda>c. the (call_text c)) cs)"
    using assms(2) by (induction cs) auto
  from run_log_sends [OF assms(1) this] show ?thesis by auto
qed

lemmas fits_simps = bytes_of_def vsprintf_defined vsprintf_text vsprintf.simps(1) low_half_def flag_name_def
  hex_text_def field_str_def

lemma dump_flags_fits: "list_all fits (vmm_dump_page_flags e)"
  by (simp add: vmm_dump_page_flags_def fits_simps del: vsprintf.simps(2) not_None_eq)

lemma dump_fits: "list_all fits (vmm_dump_page_tables s va)"
  using dump_flags_fits
  by (simp add: vmm_dump_page_tables_def Let_def fits_simps del: vsprintf.simps(2) not_None_eq)

lemma page_fault_fits: "list_all fits (page_fault_handler s fault_addr rip err buf)"
  by (simp add: page_fault_handler_def Let_def fits_simps del: vsprintf.simps(2) not_None_eq)

lemma stats_fits: "list_all fits (pmm_print_stats p)"
  by (simp add: pmm_print_stats_def fits_simps split_beta del: vsprintf.simps(2) not_None_eq)

lemma drive_fits: "list_all fits (print_drive i d)"
  by (simp add: print_drive_def fits_simps del: vsprintf.simps(2) not_None_eq)

lemma info_fits: "list_all fits (ata_print_info a)"
  using drive_fits by (auto simp: ata_print_info_def fits_simps list_all_iff simp del: vsprintf.simps(2) not_None_eq)

lemma sysinfo_init_fits: "list_all fits (sysinfo_init b)"
  by (simp add: sysinfo_init_def bytes_of_def)

lemma sysinfo_fits: "list_all fits (sysinfo_print b p)"
  by (auto simp: sysinfo_print_def Let_def fits_simps simp del: vsprintf.simps(2) not_None_eq split: option.split prod.split)

lemmas reports_fit = dump_fits page_fault_fits stats_fits info_fits sysinfo_init_fits sysinfo_fits

text \<open>
  On a UART that transmits every report returns, from every state: each conversion of its formats has
  an argument of its type.
\<close>

theorem reports_return:
  assumes "transmits dev SERIAL_COM1"
  shows "run_log dev l (vmm_dump_page_tables v va) tr \<noteq> None
    \<and> run_log dev l (page_fault_handler v fault_addr rip err buf) tr \<noteq> None
    \<and> run_log dev l (pmm_print_stats p) tr \<noteq> None
    \<and> run_log dev l (ata_print_info a) tr \<noteq> None
    \<and> run_log dev l (sysinfo_init b) tr \<noteq> None
    \<and> run_log dev l (sysinfo_print b p) tr \<noteq> None"
  using reports_fit by (intro conjI run_log_returns [OF assms])

text \<open>
  The dump of the page tables shows the mapping of the address: below a page of 4 KiB, 2 MiB or
  1 GiB it ends with the line of the frame of the page, and of its flags, from which the address
  translates; for an address that is not mapped it ends with the table whose entry is not present.
\<close>

theorem vmm_dump_shows_mapping:
  assumes "vmm_inv s"
  shows "case translate s va of
      Some pa \<Rightarrow> \<exists>k \<le> 2. \<exists>e. suffix (page_line k (e AND PAGE_ADDR_MASK) # vmm_dump_page_flags e)
          (vmm_dump_page_tables s va) \<and> pa = (e AND PAGE_ADDR_MASK) + (va AND mask (12 + 9 * k))
    | None \<Rightarrow> \<exists>t. suffix [LOG_INFO (t @ '' entry not present'') []] (vmm_dump_page_tables s va)"
proof (cases "leaf s (root s) (vpn va)")
  case None
  then show ?thesis using dump_walk [OF assms, of va] by (simp add: translate_def)
next
  case (Some r)
  obtain e rest where r: "r = (e, rest)" by force
  have "length rest \<le> 2" using Some code_walk(5) [OF assms, of va] by (auto simp: r split: if_splits)
  then show ?thesis using dump_walk [OF assms, of va] Some by (auto simp: translate_def r)
qed

theorem vmm_dump_shows_mapping_witness:
  "\<exists>t. suffix [LOG_INFO (t @ '' entry not present'') []] (vmm_dump_page_tables demo_vmm 0x400000)"
  using vmm_dump_shows_mapping [OF demo_vmm_inv, of "0x400000"] by (simp add: translate_def)


lemma sum_usable_sum:
  "unat t + (\<Sum>e\<leftarrow>es. if entry_type e = MEMMAP_USABLE then unat (entry_length e) else 0) < 2 ^ 64 \<Longrightarrow>
    unat (sum_usable es t) = unat t + (\<Sum>e\<leftarrow>es. if entry_type e = MEMMAP_USABLE then unat (entry_length e) else 0)"
proof (induction es arbitrary: t)
  case (Cons e es)
  show ?case
  proof (cases "entry_type e = MEMMAP_USABLE")
    case True
    then have "unat (t + entry_length e) = unat t + unat (entry_length e)"
      using Cons.prems by (intro unat_add_lem [THEN iffD1]) simp
    then show ?thesis using Cons.IH [of "t + entry_length e"] Cons.prems True by simp
  next
    case False
    then show ?thesis using Cons by simp
  qed
qed simp

text \<open>
  \<open>sysinfo_print\<close> reports the memory of the machine and of the memory manager exactly, as long as the
  usable memory is below 2 PiB: all sizes are in MiB, rounded down. The addresses lose their upper half;
  that of the kernel, which lies in the top 2 GiB of the address space, is never the one printed.
\<close>

theorem sysinfo_print_exact:
  fixes es :: "memmap_entry list"
  defines "usable \<equiv> \<Sum>e\<leftarrow>es. if entry_type e = MEMMAP_USABLE then unat (entry_length e) else 0"
  assumes "transmits dev SERIAL_COM1" and inv: "pmm_inv s"
    and b: "b = \<lparr>memmap_response = Some es, bootloader_response = Some (name, version),
      kernel_addr_response = Some (phys, virt)\<rparr>"
    and "0 \<notin> set name" "0 \<notin> set version" "length es < 2 ^ 31" "usable < 2 ^ 51"
  defines "free \<equiv> card (free_frames s)"
  shows "\<exists>tr'. run_log dev l (sysinfo_print b s) tr = Some tr'
    \<and> bytes_out SERIAL_COM1 tr' = bytes_out SERIAL_COM1 tr @ concat (map (log_line LOG_LEVEL_INFO l)
        [bytes_of ''System Information:'',
         bytes_of ''Bootloader: '' @ name @ bytes_of '' '' @ version,
         bytes_of ''Kernel: physical=0x'' @ hexadecimal (unat phys mod 2 ^ 32)
           @ bytes_of '', virtual=0x'' @ hexadecimal (unat virt mod 2 ^ 32),
         bytes_of ''Memory map entries: '' @ decimal (length es),
         bytes_of ''Total usable memory: '' @ decimal (usable div 2 ^ 20) @ bytes_of '' MB'',
         bytes_of ''Memory Management:'',
         bytes_of ''  Managed range: 0x'' @ hexadecimal (unat (kernel_start (pmm_config s)) mod 2 ^ 32)
           @ bytes_of '' - 0x'' @ hexadecimal (unat (kernel_end (pmm_config s)) mod 2 ^ 32),
         bytes_of ''  Managed size: '' @ decimal (npages s div 256) @ bytes_of '' MB'',
         bytes_of ''  Free Memory: '' @ decimal (free div 256) @ bytes_of '' MB'',
         bytes_of ''  Used Memory: '' @ decimal ((npages s - free) div 256) @ bytes_of '' MB''])"
    (is "\<exists>tr'. _ \<and> _ = _ @ concat (map _ ?lines)")
proof -
  have n: "npages s \<le> 0x10000" using inv by (simp add: pmm_inv_def STATIC_BITMAP_SIZE_def)
  have le: "free \<le> 0x10000" using pages_counted(2) [OF inv] n by (simp add: free_def)
  have mem: "unat (pmm_get_free_memory s div 0x100000) = free div 256"
    "unat (pmm_get_used_memory s div 0x100000) = (npages s - free) div 256"
  proof -
    have f: "unat (pmm_get_free_memory s) = free * 4096" using unat_free_memory [OF inv] by (simp add: free_def)
    then show "unat (pmm_get_free_memory s div 0x100000) = free div 256" by (simp add: unat_div)
    have "unat (pmm_get_used_memory s) = (npages s - free) * 4096"
      using unat_free_used_memory [OF inv] f by (simp add: diff_mult_distrib)
    then show "unat (pmm_get_used_memory s div 0x100000) = (npages s - free) div 256" by (simp add: unat_div)
  qed
  have sz: "unat ((kernel_end (pmm_config s) - kernel_start (pmm_config s)) div 0x100000) = npages s div 256"
  proof -
    have "unat (of_nat (npages s) :: u64) = npages s" using n by (intro unat_of_nat_small) simp
    then have "unat (of_nat (npages s) * 4096 :: u64) = npages s * 4096"
      using n by (simp add: unat_mult_lem [THEN iffD1])
    moreover have "kernel_end (pmm_config s) - kernel_start (pmm_config s) = of_nat (npages s) * 4096"
      using inv by (simp add: pmm_inv_def)
    ultimately show ?thesis by (simp only: unat_div) simp
  qed
  have tot: "unat (sum_usable es 0 div 0x100000) = usable div 2 ^ 20"
    using sum_usable_sum [of 0 es] assms(8) by (simp add: unat_div usable_def)
  have len: "unat (of_nat (length es) :: u64) = length es" using assms(7) by (intro unat_of_nat_small) simp
  have small: "free div 256 < 0x80000000" "(npages s - free) div 256 < 0x80000000" "npages s div 256 < 0x80000000"
    "usable div 0x100000 < 0x80000000" "length es < 0x80000000"
    using le n assms(7,8) by (auto simp: less_mult_imp_div_less)
  have "map call_text (sysinfo_print b s) = map Some (map (Pair LOG_LEVEL_INFO) ?lines)"
    using small assms(5,6)
    by (simp add: b sysinfo_print_def Let_def pmm_get_info_def mem sz tot len text_simps takeWhile_bytes [of _ "[]", simplified]
        del: vsprintf.simps(2))
  from run_log_sends [OF assms(2) this] show ?thesis by (simp add: report_lines_def comp_def)
qed

end
