(* ===== verification/Keyboard.thy ===== *)
theory Keyboard
  imports IDT
begin

text \<open>
  The keyboard driver, \<open>src/kernel/src/drivers/keyboard/keyboard.c\<close>. A callback belongs to a client of
  the driver: it is a number here, and the state records every call with the event it is given.
\<close>

section \<open>The driver\<close>

definition scancode_to_ascii :: "u8 list" where
  "scancode_to_ascii =
    [0, 0, 0x31, 0x32, 0x33, 0x34, 0x35, 0x36, 0x37, 0x38, 0x39, 0x30, 0x2D, 0x3D, 0,
     0, 0x71, 0x77, 0x65, 0x72, 0x74, 0x79, 0x75, 0x69, 0x6F, 0x70, 0x5B, 0x5D, 0, 0,
     0x61, 0x73, 0x64, 0x66, 0x67, 0x68, 0x6A, 0x6B, 0x6C, 0x3B, 0x27, 0x60, 0, 0x5C, 0x7A,
     0x78, 0x63, 0x76, 0x62, 0x6E, 0x6D, 0x2C, 0x2E, 0x2F, 0, 0x2A, 0, 0x20, 0, 0,
     0, 0, 0, 0, 0, 0, 0, 0, 0, 0, 0, 0x37, 0x38, 0x39, 0x2D,
     0x34, 0x35, 0x36, 0x2B, 0x31, 0x32, 0x33, 0x30, 0x2E, 0, 0, 0, 0, 0, 0]"

definition scancode_to_ascii_shifted :: "u8 list" where
  "scancode_to_ascii_shifted =
    [0, 0, 0x21, 0x40, 0x23, 0x24, 0x25, 0x5E, 0x26, 0x2A, 0x28, 0x29, 0x5F, 0x2B, 0,
     0, 0x51, 0x57, 0x45, 0x52, 0x54, 0x59, 0x55, 0x49, 0x4F, 0x50, 0x7B, 0x7D, 0, 0,
     0x41, 0x53, 0x44, 0x46, 0x47, 0x48, 0x4A, 0x4B, 0x4C, 0x3A, 0x22, 0x7E, 0, 0x7C, 0x5A,
     0x58, 0x43, 0x56, 0x42, 0x4E, 0x4D, 0x3C, 0x3E, 0x3F, 0, 0x2A, 0, 0x20, 0, 0,
     0, 0, 0, 0, 0, 0, 0, 0, 0, 0, 0, 0x37, 0x38, 0x39, 0x2D,
     0x34, 0x35, 0x36, 0x2B, 0x31, 0x32, 0x33, 0x30, 0x2E, 0, 0, 0, 0, 0, 0]"

definition key_names :: "string list" where
  "key_names =
    [''Unknown'', ''Escape'', ''1'', ''2'', ''3'', ''4'', ''5'', ''6'', ''7'', ''8'', ''9'', ''0'',
     ''Minus'', ''Equal'', ''Backspace'', ''Tab'', ''Q'', ''W'', ''E'', ''R'', ''T'', ''Y'', ''U'',
     ''I'', ''O'', ''P'', ''LeftBracket'', ''RightBracket'', ''Enter'', ''LeftCtrl'', ''A'', ''S'',
     ''D'', ''F'', ''G'', ''H'', ''J'', ''K'', ''L'', ''Semicolon'', ''Apostrophe'', ''Backtick'',
     ''LeftShift'', ''Backslash'', ''Z'', ''X'', ''C'', ''V'', ''B'', ''N'', ''M'', ''Comma'',
     ''Period'', ''Slash'', ''RightShift'', ''KeypadMultiply'', ''LeftAlt'', ''Space'', ''CapsLock'',
     ''F1'', ''F2'', ''F3'', ''F4'', ''F5'', ''F6'', ''F7'', ''F8'', ''F9'', ''F10'', ''NumLock'',
     ''ScrollLock'', ''Keypad7'', ''Keypad8'', ''Keypad9'', ''KeypadMinus'', ''Keypad4'',
     ''Keypad5'', ''Keypad6'', ''KeypadPlus'', ''Keypad1'', ''Keypad2'', ''Keypad3'', ''Keypad0'',
     ''KeypadDecimal'']"

definition KB_DATA_PORT :: u16 where "KB_DATA_PORT = 0x60"

datatype key_state_t = KEY_RELEASED | KEY_PRESSED

record keyboard_event_t =
  scancode :: u8
  ascii :: u8
  state :: key_state_t
  ev_shift :: bool
  ev_ctrl :: bool
  ev_alt :: bool

record keyboard_state =
  key_states :: "u8 list"
  shift_pressed :: bool
  ctrl_pressed :: bool
  alt_pressed :: bool
  caps_lock :: bool
  kb_callback :: "nat option"
  kb_calls :: "(nat \<times> keyboard_event_t) list"

definition keyboard_boot :: keyboard_state where
  "keyboard_boot = \<lparr>key_states = replicate 128 0, shift_pressed = False, ctrl_pressed = False,
     alt_pressed = False, caps_lock = False, kb_callback = None, kb_calls = []\<rparr>"

definition keyboard_init :: "device \<Rightarrow> idt_state \<times> pic_state \<Rightarrow> idt_state \<times> pic_state" where
  "keyboard_init dev sp =
     (let (s, p) = sp
      in (idt_register_handler IRQ_KEYBOARD (Some Keyboard_Handler) s, pic_unmask_irq dev 1 p))"

definition keyboard_register_callback :: "nat option \<Rightarrow> keyboard_state \<Rightarrow> keyboard_state" where
  "keyboard_register_callback f k = k\<lparr>kb_callback := f\<rparr>"

definition keyboard_get_key_state :: "u8 \<Rightarrow> keyboard_state \<Rightarrow> bool" where
  "keyboard_get_key_state code k = (if code < 128 then key_states k ! unat code = 1 else False)"

definition keyboard_get_key_name :: "u8 \<Rightarrow> string" where
  "keyboard_get_key_name code =
     (if unat code < length key_names then key_names ! unat code else ''Unknown'')"

text \<open>The test for the letters, and the conversion of a key to its character.\<close>

definition is_letter :: "u8 \<Rightarrow> bool" where
  "is_letter key \<longleftrightarrow> 0x10 \<le> key \<and> key \<le> 0x19 \<or> 0x1E \<le> key \<and> key \<le> 0x26 \<or> 0x2C \<le> key \<and> key \<le> 0x32"

definition key_ascii :: "u8 \<Rightarrow> bool \<Rightarrow> bool \<Rightarrow> bool \<Rightarrow> u8" where
  "key_ascii key is_release shift caps =
     (if unat key < length scancode_to_ascii \<and> \<not> is_release
      then let uppercase = (shift \<noteq> caps)
           in if is_letter key
              then if uppercase then scancode_to_ascii_shifted ! unat key else scancode_to_ascii ! unat key
              else if shift then scancode_to_ascii_shifted ! unat key else scancode_to_ascii ! unat key
      else 0)"

definition update_modifiers :: "u8 \<Rightarrow> bool \<Rightarrow> keyboard_state \<Rightarrow> keyboard_state" where
  "update_modifiers key is_release k =
     (if key = 0x2A \<or> key = 0x36 then k\<lparr>shift_pressed := \<not> is_release\<rparr>
      else if key = 0x1D then k\<lparr>ctrl_pressed := \<not> is_release\<rparr>
      else if key = 0x38 then k\<lparr>alt_pressed := \<not> is_release\<rparr>
      else if key = 0x3A \<and> \<not> is_release then k\<lparr>caps_lock := \<not> caps_lock k\<rparr>
      else k)"

definition keyboard_handle_keypress :: "u8 \<Rightarrow> keyboard_state \<Rightarrow> keyboard_state" where
  "keyboard_handle_keypress code k =
     (let is_release = code AND 0x80 \<noteq> 0;
          key = code AND 0x7F;
          k = k\<lparr>key_states := (key_states k)[unat key := if is_release then 0 else 1]\<rparr>;
          k = update_modifiers key is_release k;
          event = \<lparr>scancode = key,
            ascii = key_ascii key is_release (shift_pressed k) (caps_lock k),
            state = (if is_release then KEY_RELEASED else KEY_PRESSED),
            ev_shift = shift_pressed k, ev_ctrl = ctrl_pressed k, ev_alt = alt_pressed k\<rparr>
      in case kb_callback k of
           None \<Rightarrow> k
         | Some f \<Rightarrow> k\<lparr>kb_calls := kb_calls k @ [(f, event)]\<rparr>)"

definition keyboard_interrupt_handler :: "device \<Rightarrow> keyboard_state \<times> io_trace \<Rightarrow> keyboard_state \<times> io_trace" where
  "keyboard_interrupt_handler dev kt =
     (let (k, tr) = kt;
          (code, tr) = inb dev KB_DATA_PORT tr
      in (keyboard_handle_keypress code k, tr))"

section \<open>The state as a function of the history\<close>

text \<open>
  The key of a code and whether the code announces a press; whether the last event of the keys in a
  set was a press; what the state says of a history of codes.
\<close>

definition key_of :: "u8 \<Rightarrow> u8" where "key_of code = code AND 0x7F"
definition pressed :: "u8 \<Rightarrow> bool" where "pressed code \<longleftrightarrow> code AND 0x80 = 0"

definition last_pressed :: "u8 set \<Rightarrow> u8 list \<Rightarrow> bool" where
  "last_pressed K codes = (case filter (\<lambda>c. key_of c \<in> K) (rev codes) of [] \<Rightarrow> False | c # _ \<Rightarrow> pressed c)"

lemma last_pressed_Nil [simp]: "\<not> last_pressed K []"
  by (simp add: last_pressed_def)

lemma last_pressed_snoc [simp]:
  "last_pressed K (codes @ [c]) = (if key_of c \<in> K then pressed c else last_pressed K codes)"
  by (simp add: last_pressed_def)

lemma handle_fields:
  fixes c :: u8 and k :: keyboard_state
  defines "k' \<equiv> keyboard_handle_keypress c k"
  shows "key_states k' = (key_states k)[unat (key_of c) := if pressed c then 1 else 0]"
    and "shift_pressed k' = (if key_of c \<in> {0x2A, 0x36} then pressed c else shift_pressed k)"
    and "ctrl_pressed k' = (if key_of c \<in> {0x1D} then pressed c else ctrl_pressed k)"
    and "alt_pressed k' = (if key_of c \<in> {0x38} then pressed c else alt_pressed k)"
    and "caps_lock k' = (if key_of c = 0x3A \<and> pressed c then \<not> caps_lock k else caps_lock k)"
    and "kb_callback k' = kb_callback k"
    and "kb_calls k' = kb_calls k @ (case kb_callback k of None \<Rightarrow> [] | Some f \<Rightarrow>
       [(f, \<lparr>scancode = key_of c, ascii = key_ascii (key_of c) (\<not> pressed c) (shift_pressed k') (caps_lock k'),
         state = (if pressed c then KEY_PRESSED else KEY_RELEASED),
         ev_shift = shift_pressed k', ev_ctrl = ctrl_pressed k', ev_alt = alt_pressed k'\<rparr>)])"
  unfolding k'_def
  by (auto simp: keyboard_handle_keypress_def Let_def update_modifiers_def key_of_def [symmetric]
      pressed_def [symmetric] split: option.splits)

lemma key_of_lt: "unat (key_of c) < 128"
proof -
  have m: "(0x7F :: u8) = mask 7" by (simp add: mask_eq_exp_minus_1)
  show ?thesis unfolding key_of_def m by (simp only: unat_and_mask) simp
qed

abbreviation keyboard_after :: "nat \<Rightarrow> u8 list \<Rightarrow> keyboard_state" where
  "keyboard_after f codes \<equiv> fold keyboard_handle_keypress codes (keyboard_boot\<lparr>kb_callback := Some f\<rparr>)"

lemma keyboard_history:
  "length (key_states (keyboard_after f codes)) = 128
   \<and> (\<forall>c < 128. keyboard_get_key_state c (keyboard_after f codes) = last_pressed {c} codes)
   \<and> shift_pressed (keyboard_after f codes) = last_pressed {0x2A, 0x36} codes
   \<and> ctrl_pressed (keyboard_after f codes) = last_pressed {0x1D} codes
   \<and> alt_pressed (keyboard_after f codes) = last_pressed {0x38} codes
   \<and> caps_lock (keyboard_after f codes) = odd (length (filter (\<lambda>c. key_of c = 0x3A \<and> pressed c) codes))
   \<and> kb_callback (keyboard_after f codes) = Some f"
proof (induction codes rule: rev_induct)
  case Nil
  then show ?case by (auto simp: keyboard_boot_def keyboard_get_key_state_def word_less_nat_alt)
next
  case (snoc x codes)
  have eq: "unat (key_of x) = unat c \<longleftrightarrow> key_of x = c" for c :: u8 by (auto simp: word_unat_eq_iff)
  show ?case
    using snoc key_of_lt [of x]
    by (auto simp: handle_fields keyboard_get_key_state_def nth_list_update eq word_less_nat_alt)
qed

text \<open>The two tables agree on the letters: they hold the same letter in lower and in upper case.\<close>

definition letter_keys :: "u8 list" where
  "letter_keys = map of_nat ([0x10..<0x1A] @ [0x1E..<0x27] @ [0x2C..<0x33])"

lemma is_letter_keys: "is_letter key \<Longrightarrow> key \<in> set letter_keys"
proof -
  assume "is_letter key"
  then have "unat key \<in> set ([0x10..<0x1A] @ [0x1E..<0x27] @ [0x2C..<0x33])"
    unfolding set_append set_upt by (auto simp: is_letter_def word_le_nat_alt)
  then have "of_nat (unat key) \<in> set letter_keys" unfolding letter_keys_def set_map by (rule imageI)
  then show ?thesis by simp
qed

definition letter_pair :: "u8 \<Rightarrow> bool" where
  "letter_pair key \<longleftrightarrow> (let l = scancode_to_ascii ! unat key
     in 0x61 \<le> l \<and> l \<le> 0x7A \<and> scancode_to_ascii_shifted ! unat key = l - 0x20 \<and> unat key < length scancode_to_ascii)"

lemma letter_pairs: "list_all letter_pair letter_keys"
  by code_simp

lemma key_ascii_letter:
  assumes "is_letter key"
  defines "l \<equiv> scancode_to_ascii ! unat key"
  shows "0x61 \<le> l \<and> l \<le> 0x7A \<and> key_ascii key False shift caps = (if shift \<noteq> caps then l - 0x20 else l)"
proof -
  have "letter_pair key" using letter_pairs assms(1) by (simp add: list_all_iff is_letter_keys)
  then show ?thesis using assms(1) by (simp add: letter_pair_def key_ascii_def l_def Let_def)
qed

section \<open>Properties\<close>



end
