(* ===== verification/Mouse.thy ===== *)
theory Mouse
  imports IDT
begin

text \<open>
  The driver of the PS/2 mouse, \<open>src/kernel/src/drivers/mouse/mouse.c\<close>. A busy wait that never ends is
  the result \<open>None\<close>. A callback belongs to a client of the driver: it is a number here, and the state
  records every call with the event it is given. A field of type \<open>int8_t\<close> is a word of 8 bits that is
  read with \<open>sint\<close>.
\<close>

section \<open>The driver\<close>

definition MOUSE_DATA_PORT :: u16 where "MOUSE_DATA_PORT = 0x60"
definition MOUSE_STATUS_PORT :: u16 where "MOUSE_STATUS_PORT = 0x64"
definition MOUSE_COMMAND_PORT :: u16 where "MOUSE_COMMAND_PORT = 0x64"
definition MOUSE_STATUS_OUTPUT_FULL :: u8 where "MOUSE_STATUS_OUTPUT_FULL = 0x01"
definition MOUSE_STATUS_INPUT_FULL :: u8 where "MOUSE_STATUS_INPUT_FULL = 0x02"
definition MOUSE_CMD_ENABLE :: u8 where "MOUSE_CMD_ENABLE = 0xF4"
definition MOUSE_CMD_DISABLE :: u8 where "MOUSE_CMD_DISABLE = 0xF5"
definition MOUSE_CMD_RESET :: u8 where "MOUSE_CMD_RESET = 0xFF"
definition MOUSE_CMD_DEFAULTS :: u8 where "MOUSE_CMD_DEFAULTS = 0xF6"
definition MOUSE_CMD_SAMPLE_RATE :: u8 where "MOUSE_CMD_SAMPLE_RATE = 0xF3"
definition MOUSE_PACKET_X_SIGN :: u8 where "MOUSE_PACKET_X_SIGN = 0x10"
definition MOUSE_PACKET_Y_SIGN :: u8 where "MOUSE_PACKET_Y_SIGN = 0x20"

record mouse_event_t =
  buttons :: u8
  delta_x :: u8
  delta_y :: u8
  scroll_event :: bool
  scroll_delta :: u8

record mouse_state =
  mouse_packet :: "u8 list"
  mouse_cycle :: int
  mouse_buttons :: u8
  mouse_callback :: "nat option"
  mouse_calls :: "(nat \<times> mouse_event_t) list"

definition mouse_boot :: mouse_state where
  "mouse_boot = \<lparr>mouse_packet = [0, 0, 0], mouse_cycle = 0, mouse_buttons = 0, mouse_callback = None,
     mouse_calls = []\<rparr>"

text \<open>The polls of the status register.\<close>

definition output_full :: "device \<Rightarrow> io_trace \<Rightarrow> bool \<times> io_trace" where
  "output_full dev tr =
     (let (v, tr) = inb dev MOUSE_STATUS_PORT tr in (v AND MOUSE_STATUS_OUTPUT_FULL \<noteq> 0, tr))"

definition input_empty :: "device \<Rightarrow> io_trace \<Rightarrow> bool \<times> io_trace" where
  "input_empty dev tr =
     (let (v, tr) = inb dev MOUSE_STATUS_PORT tr in (\<not> v AND MOUSE_STATUS_INPUT_FULL \<noteq> 0, tr))"

definition mouse_read :: "device \<Rightarrow> io_trace \<Rightarrow> (u8 \<times> io_trace) option" where
  "mouse_read dev tr =
     (case wait_until (output_full dev) tr of
        None \<Rightarrow> None
      | Some tr \<Rightarrow> Some (inb dev MOUSE_DATA_PORT tr))"

definition mouse_write :: "device \<Rightarrow> u8 \<Rightarrow> io_trace \<Rightarrow> io_trace option" where
  "mouse_write dev cmd tr =
     (case wait_until (input_empty dev) tr of
        None \<Rightarrow> None
      | Some tr \<Rightarrow>
          (case wait_until (input_empty dev) (outb MOUSE_COMMAND_PORT 0xD4 tr) of
             None \<Rightarrow> None
           | Some tr \<Rightarrow> Some (outb MOUSE_DATA_PORT cmd tr)))"

definition mouse_wait_ack :: "device \<Rightarrow> io_trace \<Rightarrow> (bool \<times> io_trace) option" where
  "mouse_wait_ack dev tr =
     (case mouse_read dev tr of None \<Rightarrow> None | Some (response, tr) \<Rightarrow> Some (response = 0xFA, tr))"

text \<open>
  The assignment of a byte to a movement field: its sign bit is stored by an \<open>or\<close> with
  \<open>0xFFFFFF00\<close> on the promoted value, which is then converted back to \<open>int8_t\<close>.
\<close>

definition movement :: "u8 \<Rightarrow> u8 \<Rightarrow> u8 \<Rightarrow> u8" where
  "movement status sign byte =
     (if status AND sign \<noteq> 0 then ucast (scast byte OR 0xFFFFFF00 :: u32) else byte)"

definition mouse_event :: "u8 list \<Rightarrow> mouse_event_t" where
  "mouse_event packet =
     \<lparr>buttons = packet ! 0 AND 0x07,
      delta_x = movement (packet ! 0) MOUSE_PACKET_X_SIGN (packet ! 1),
      delta_y = ucast (- scast (movement (packet ! 0) MOUSE_PACKET_Y_SIGN (packet ! 2)) :: u32),
      scroll_event = False, scroll_delta = 0\<rparr>"

definition handle_byte :: "u8 \<Rightarrow> mouse_state \<Rightarrow> mouse_state" where
  "handle_byte mouse_data m =
     (if mouse_cycle m = 0 then m\<lparr>mouse_packet := (mouse_packet m)[0 := mouse_data], mouse_cycle := mouse_cycle m + 1\<rparr>
      else if mouse_cycle m = 1 then m\<lparr>mouse_packet := (mouse_packet m)[1 := mouse_data], mouse_cycle := mouse_cycle m + 1\<rparr>
      else if mouse_cycle m = 2 then
        (let m = m\<lparr>mouse_packet := (mouse_packet m)[2 := mouse_data]\<rparr>;
             event = mouse_event (mouse_packet m);
             m = (case mouse_callback m of
                    None \<Rightarrow> m
                  | Some f \<Rightarrow> m\<lparr>mouse_calls := mouse_calls m @ [(f, event)]\<rparr>)
         in m\<lparr>mouse_buttons := buttons event, mouse_cycle := 0\<rparr>)
      else m)"

definition mouse_interrupt_handler :: "device \<Rightarrow> mouse_state \<times> io_trace \<Rightarrow> mouse_state \<times> io_trace" where
  "mouse_interrupt_handler dev mt =
     (let (m, tr) = mt;
          (mouse_data, tr) = inb dev MOUSE_DATA_PORT tr
      in (handle_byte mouse_data m, tr))"

text \<open>A command that is answered: \<open>false\<close> when the answer is not an acknowledgement.\<close>

definition mouse_command :: "device \<Rightarrow> u8 \<Rightarrow> io_trace \<Rightarrow> (bool \<times> io_trace) option" where
  "mouse_command dev cmd tr =
     (case mouse_write dev cmd tr of None \<Rightarrow> None | Some tr \<Rightarrow> mouse_wait_ack dev tr)"

fun mouse_commands :: "device \<Rightarrow> u8 list \<Rightarrow> io_trace \<Rightarrow> (bool \<times> io_trace) option" where
  "mouse_commands dev [] tr = Some (True, tr)"
| "mouse_commands dev (c # cs) tr =
     (case mouse_command dev c tr of
        None \<Rightarrow> None
      | Some (ok, tr) \<Rightarrow> if ok then mouse_commands dev cs tr else Some (False, tr))"

text \<open>The conversation with the mouse, and whether it got to its end.\<close>

definition mouse_setup :: "device \<Rightarrow> io_trace \<Rightarrow> (bool \<times> io_trace) option" where
  "mouse_setup dev tr =
     (case mouse_write dev MOUSE_CMD_DISABLE tr of
        None \<Rightarrow> None
      | Some tr \<Rightarrow>
     (case mouse_command dev MOUSE_CMD_RESET tr of
        None \<Rightarrow> None
      | Some (ok, tr) \<Rightarrow>
          if \<not> ok then Some (False, tr)
          else case mouse_read dev tr of
                 None \<Rightarrow> None
               | Some (reset_response1, tr) \<Rightarrow>
              (case mouse_read dev tr of
                 None \<Rightarrow> None
               | Some (reset_response2, tr) \<Rightarrow>
                   mouse_commands dev [MOUSE_CMD_DEFAULTS, MOUSE_CMD_SAMPLE_RATE, 100, MOUSE_CMD_ENABLE] tr)))"

definition mouse_init :: "device \<Rightarrow> idt_state \<times> pic_state \<Rightarrow> (idt_state \<times> pic_state) option" where
  "mouse_init dev sp =
     (let (s, p) = sp
      in case mouse_setup dev (io p) of
           None \<Rightarrow> None
         | Some (ok, tr) \<Rightarrow>
             if \<not> ok then Some (s, p\<lparr>io := tr\<rparr>)
             else Some (idt_register_handler IRQ_MOUSE (Some Mouse_Handler) s, pic_unmask_irq dev 12 (p\<lparr>io := tr\<rparr>)))"

definition mouse_register_callback :: "nat option \<Rightarrow> mouse_state \<Rightarrow> mouse_state" where
  "mouse_register_callback f m = m\<lparr>mouse_callback := f\<rparr>"

definition mouse_get_button_state :: "u8 \<Rightarrow> mouse_state \<Rightarrow> bool" where
  "mouse_get_button_state button m =
     (if 2 < button then False else ucast (mouse_buttons m) AND push_bit (unat button) (1 :: u32) \<noteq> 0)"

section \<open>Packets\<close>

lemma movement_eq [simp]: "movement status sign byte = byte"
proof -
  have m: "(0xFFFFFF00 :: u32) = push_bit 8 (mask 24)" by (simp add: mask_eq_exp_minus_1)
  have "(ucast (scast byte OR 0xFFFFFF00 :: u32) :: u8) = byte"
    unfolding m by (intro bit_word_eqI) (auto simp: bit_simps)
  then show ?thesis by (simp add: movement_def)
qed

lemma take_bit_8_minus: "take_bit 8 (- signed_take_bit 7 c) = take_bit 8 (- c)" for c :: int
proof -
  have "take_bit 8 (- signed_take_bit 7 c) = take_bit 8 (- take_bit 8 (signed_take_bit 7 c))"
    by (rule take_bit_minus [symmetric])
  also have "take_bit 8 (signed_take_bit 7 c) = take_bit 8 c" by (simp add: take_bit_signed_take_bit)
  finally show ?thesis by (simp only: take_bit_minus)
qed

lemma mouse_event_eq: "mouse_event [a, b, c]
    = \<lparr>buttons = a AND 7, delta_x = b, delta_y = - c, scroll_event = False, scroll_delta = 0\<rparr>"
proof -
  have "(ucast (- scast c :: u32) :: u8) = - c"
    by transfer (simp add: take_bit_8_minus)
  then show ?thesis by (simp add: mouse_event_def)
qed

text \<open>
  The movement that a PS/2 packet stands for: nine bits, the sign in the status byte.
\<close>

definition ps2_delta :: "bool \<Rightarrow> u8 \<Rightarrow> int" where
  "ps2_delta negative byte = int (unat byte) - (if negative then 256 else 0)"

lemma sint_u8: "sint (b :: u8) = int (unat b) - (if unat b < 128 then 0 else 256)"
proof -
  have mod: "int n mod 256 - 256 * of_bool (odd (int n div 128)) = int n - (if n < 128 then 0 else 256)"
    if lt: "n < 256" for n :: nat
  proof (cases "n < 128")
    case False
    with lt have "int n div 128 = 1" by linarith
    then show ?thesis using lt False by simp
  qed simp
  have "sint b = signed_take_bit 7 (int (unat b))" by (simp add: sint_uint)
  also have "\<dots> = int (unat b) mod 256 - 256 * of_bool (odd (int (unat b) div 128))"
    unfolding signed_take_bit_eq_take_bit_minus by (simp add: take_bit_eq_mod bit_iff_odd)
  also have "\<dots> = int (unat b) - (if unat b < 128 then 0 else 256)"
    using unsigned_less [where 'b = 8 and w = b and 'a = nat] by (intro mod) simp
  finally show ?thesis .
qed

text \<open>One packet, and a sequence of packets.\<close>

lemma handle_packet:
  assumes "length (mouse_packet m) = 3" and "mouse_cycle m = 0" and "mouse_callback m = Some f"
  shows "fold handle_byte [a, b, c] m = m\<lparr>mouse_packet := [a, b, c], mouse_buttons := a AND 7,
    mouse_calls := mouse_calls m @ [(f, mouse_event [a, b, c])]\<rparr>"
proof -
  obtain x y z where "mouse_packet m = [x, y, z]"
    using assms(1) by (auto simp: numeral_eq_Suc length_Suc_conv)
  with assms(2,3) show ?thesis by (cases m) (simp add: handle_byte_def Let_def mouse_event_eq)
qed

definition packet_bytes :: "(u8 \<times> u8 \<times> u8) list \<Rightarrow> u8 list" where
  "packet_bytes ps = concat (map (\<lambda>(a, b, c). [a, b, c]) ps)"

lemma handle_packets:
  assumes "length (mouse_packet m) = 3" and "mouse_cycle m = 0" and "mouse_callback m = Some f"
  shows "mouse_calls (fold handle_byte (packet_bytes ps) m)
      = mouse_calls m @ map (\<lambda>(a, b, c). (f, mouse_event [a, b, c])) ps
    \<and> mouse_buttons (fold handle_byte (packet_bytes ps) m)
      = (if ps = [] then mouse_buttons m else fst (last ps) AND 7)
    \<and> mouse_cycle (fold handle_byte (packet_bytes ps) m) = 0"
  using assms
proof (induction ps arbitrary: m)
  case Nil
  then show ?case by (simp add: packet_bytes_def)
next
  case (Cons p ps)
  obtain a b c where p: "p = (a, b, c)" by (cases p)
  define m' where "m' = fold handle_byte [a, b, c] m"
  note m' = handle_packet [OF Cons.prems, of a b c, folded m'_def]
  have "fold handle_byte (packet_bytes (p # ps)) m = fold handle_byte (packet_bytes ps) m'"
    by (simp add: packet_bytes_def p m'_def)
  moreover have "mouse_packet m' = [a, b, c]" "mouse_cycle m' = 0" "mouse_callback m' = Some f"
    using Cons.prems by (simp_all add: m')
  ultimately show ?case using Cons.IH [of m'] by (simp add: p m')
qed

section \<open>The mouse\<close>

text \<open>
  A mouse that follows the PS/2 protocol: the byte after the controller's command \<open>0xD4\<close> is a command
  of the mouse, which answers every command with an acknowledgement, and a reset also with the result
  of its self test and its identifier. The answers are read in order, one with every read of the data
  port; the output flag says whether there are any, and the input buffer is always free. The state is
  whether a command follows and the answers that wait.
\<close>

definition reply :: "u8 \<Rightarrow> u8 list" where
  "reply cmd = (if cmd = MOUSE_CMD_RESET then [0xFA, 0xAA, 0x00] else [0xFA])"

fun ps2 :: "io_trace \<Rightarrow> bool \<times> u8 list \<Rightarrow> bool \<times> u8 list" where
  "ps2 [] st = st"
| "ps2 (Out8 p v # tr) (cmd, q) =
     ps2 tr (if p = MOUSE_COMMAND_PORT then (v = 0xD4, q)
             else if p = MOUSE_DATA_PORT \<and> cmd then (False, q @ reply v)
             else (cmd, q))"
| "ps2 (In8 p v # tr) (cmd, q) = ps2 tr (cmd, if p = MOUSE_DATA_PORT then drop 1 q else q)"
| "ps2 (_ # tr) st = ps2 tr st"

lemma ps2_append: "ps2 (tr @ tr') st = ps2 tr' (ps2 tr st)"
  by (induction tr st rule: ps2.induct) auto

definition ps2_mouse :: "device \<Rightarrow> bool" where
  "ps2_mouse dev \<longleftrightarrow> (\<forall>tr.
     dev8 dev tr MOUSE_STATUS_PORT AND 3 = (if snd (ps2 tr (False, [])) = [] then 0 else 1)
     \<and> (\<forall>v q. snd (ps2 tr (False, [])) = v # q \<longrightarrow> dev8 dev tr MOUSE_DATA_PORT = v))"

abbreviation answers :: "io_trace \<Rightarrow> bool \<times> u8 list" where
  "answers tr \<equiv> ps2 tr (False, [])"

lemma and_3:
  assumes "(v :: u8) AND 3 = w"
  shows "v AND 1 = w AND 1" "v AND 2 = w AND 2"
proof -
  have "v AND 1 = (v AND 3) AND 1" "v AND 2 = (v AND 3) AND 2" by (simp_all add: and.assoc)
  then show "v AND 1 = w AND 1" "v AND 2 = w AND 2" by (simp_all add: assms)
qed

lemma mouse_write_answers:
  assumes "ps2_mouse dev" and "answers tr = (False, q)"
  shows "\<exists>tr'. mouse_write dev cmd tr = Some tr' \<and> answers tr' = (False, q @ reply cmd)"
proof -
  have e: "input_empty dev tr = (True, tr @ [In8 MOUSE_STATUS_PORT (dev8 dev tr MOUSE_STATUS_PORT)])" for tr
    using assms(1) and_3 [of "dev8 dev tr MOUSE_STATUS_PORT"]
    by (auto simp: input_empty_def inb_def ps2_mouse_def MOUSE_STATUS_INPUT_FULL_def Let_def)
  have w: "wait_until (input_empty dev) tr = Some (tr @ [In8 MOUSE_STATUS_PORT (dev8 dev tr MOUSE_STATUS_PORT)])" for tr
    by (subst wait_until.simps) (simp add: e)
  show ?thesis using assms(2)
    by (simp add: mouse_write_def w outb_def ps2_append MOUSE_STATUS_PORT_def MOUSE_DATA_PORT_def MOUSE_COMMAND_PORT_def)
qed

lemma mouse_read_answers:
  assumes "ps2_mouse dev" and "answers tr = (False, v # q)"
  shows "\<exists>tr'. mouse_read dev tr = Some (v, tr') \<and> answers tr' = (False, q)"
proof -
  define tr1 where "tr1 = tr @ [In8 MOUSE_STATUS_PORT (dev8 dev tr MOUSE_STATUS_PORT)]"
  have "dev8 dev tr MOUSE_STATUS_PORT AND 3 = 1" using assms by (simp add: ps2_mouse_def)
  then have "output_full dev tr = (True, tr1)"
    using and_3(1) [of "dev8 dev tr MOUSE_STATUS_PORT" 1]
    by (simp add: output_full_def inb_def MOUSE_STATUS_OUTPUT_FULL_def tr1_def Let_def)
  then have w: "wait_until (output_full dev) tr = Some tr1" by (subst wait_until.simps) simp
  have a: "answers tr1 = (False, v # q)"
    using assms(2) by (simp add: tr1_def ps2_append MOUSE_STATUS_PORT_def MOUSE_DATA_PORT_def)
  then have "dev8 dev tr1 MOUSE_DATA_PORT = v" using assms(1) by (simp add: ps2_mouse_def)
  then show ?thesis using w a by (simp add: mouse_read_def inb_def ps2_append Let_def)
qed

lemma mouse_setup_fails:
  assumes "ps2_mouse dev" and "answers t = (False, [])"
  shows "\<exists>t'. mouse_setup dev t = Some (False, t') \<and> answers t' = (False, [0xFA])"
proof -
  note w = mouse_write_answers [OF assms(1)] and r = mouse_read_answers [OF assms(1)]
  obtain t1 where t1: "mouse_write dev MOUSE_CMD_DISABLE t = Some t1" "answers t1 = (False, [0xFA])"
    using w [OF assms(2), of MOUSE_CMD_DISABLE] by (auto simp: reply_def MOUSE_CMD_DISABLE_def MOUSE_CMD_RESET_def)
  obtain t2 where t2: "mouse_write dev MOUSE_CMD_RESET t1 = Some t2" "answers t2 = (False, [0xFA, 0xFA, 0xAA, 0x00])"
    using w [OF t1(2), of MOUSE_CMD_RESET] by (auto simp: reply_def)
  obtain t3 where t3: "mouse_read dev t2 = Some (0xFA, t3)" "answers t3 = (False, [0xFA, 0xAA, 0x00])"
    using r [OF t2(2)] by blast
  obtain t4 where t4: "mouse_read dev t3 = Some (0xFA, t4)" "answers t4 = (False, [0xAA, 0x00])"
    using r [OF t3(2)] by blast
  obtain t5 where t5: "mouse_read dev t4 = Some (0xAA, t5)" "answers t5 = (False, [0x00])"
    using r [OF t4(2)] by blast
  obtain t6 where t6: "mouse_write dev MOUSE_CMD_DEFAULTS t5 = Some t6" "answers t6 = (False, [0x00, 0xFA])"
    using w [OF t5(2), of MOUSE_CMD_DEFAULTS] by (auto simp: reply_def MOUSE_CMD_DEFAULTS_def MOUSE_CMD_RESET_def)
  obtain t7 where t7: "mouse_read dev t6 = Some (0x00, t7)" "answers t7 = (False, [0xFA])"
    using r [OF t6(2)] by blast
  have "mouse_setup dev t = Some (False, t7)"
    using t1 t2 t3 t4 t5 t6 t7
    by (simp add: mouse_setup_def mouse_command_def mouse_wait_ack_def)
  with t7(2) show ?thesis by blast
qed

lemma mouse_init_returns:
  assumes "ps2_mouse dev" and "answers (io p) = (False, [])"
  shows "\<exists>tr. mouse_init dev (s, p) = Some (s, p\<lparr>io := tr\<rparr>) \<and> answers tr = (False, [0xFA])"
  using mouse_setup_fails [OF assms] by (auto simp: mouse_init_def)

section \<open>Properties\<close>



definition demo_mouse :: device where
  "demo_mouse = \<lparr>dev8 = (\<lambda>tr port. let q = snd (answers tr)
       in if port = MOUSE_STATUS_PORT then (if q = [] then 0 else 1) else (case q of [] \<Rightarrow> 0 | v # _ \<Rightarrow> v)),
     dev16 = (\<lambda>_ _. 0), dev32 = (\<lambda>_ _. 0)\<rparr>"

text \<open>
  On a mouse that follows the protocol, \<open>mouse_init\<close> always returns and always gives up: the
  acknowledgement of its first command is never read, so every later answer is taken for the one
  before it, and the identifier \<open>0x00\<close> of the mouse for the acknowledgement of \<open>MOUSE_CMD_DEFAULTS\<close>. The
  interrupt handler is never registered and the interrupt mask stays as it was.
\<close>

theorem mouse_init_gives_up:
  assumes "ps2_mouse dev" and "answers (io p) = (False, [])"
  shows "\<exists>tr. mouse_init dev (s, p) = Some (s, p\<lparr>io := tr\<rparr>) \<and> answers tr = (False, [0xFA])"
  using assms by (rule mouse_init_returns)

theorem mouse_init_gives_up_witness:
  "ps2_mouse demo_mouse \<and> (\<exists>tr. mouse_init demo_mouse (idt_boot, pic_boot) = Some (idt_boot, pic_boot\<lparr>io := tr\<rparr>))"
proof -
  have d: "ps2_mouse demo_mouse"
    by (auto simp: ps2_mouse_def demo_mouse_def Let_def MOUSE_STATUS_PORT_def MOUSE_DATA_PORT_def)
  show ?thesis using d mouse_init_gives_up [OF d, of pic_boot idt_boot] by (auto simp: pic_boot_def)
qed

end
