(* ===== verification/Interrupts.thy ===== *)
theory Interrupts
  imports Timer Keyboard Mouse
begin

text \<open>
  The dispatcher of \<open>src/kernel/src/core/idt.c\<close> with the handlers that the drivers register.
\<close>

section \<open>State\<close>

record interrupt_frame =
  r15 :: u64
  r14 :: u64
  r13 :: u64
  r12 :: u64
  r11 :: u64
  r10 :: u64
  r9 :: u64
  r8 :: u64
  rbp :: u64
  rdi :: u64
  rsi :: u64
  rdx :: u64
  rcx :: u64
  rbx :: u64
  rax :: u64
  int_no :: u64
  error_code :: u64
  rip :: u64
  cs :: u64
  rflags :: u64
  rsp :: u64
  ss :: u64

record kernel =
  pic :: pic_state
  idts :: idt_state
  timer :: timer_state
  kbd :: keyboard_state
  mouse :: mouse_state

definition kernel_boot :: kernel where
  "kernel_boot = \<lparr>pic = pic_boot, idts = idt_boot, timer = timer_boot, kbd = keyboard_boot, mouse = mouse_boot\<rparr>"

text \<open>
  How the service of an interrupt ends: it returns to the interrupted code, it halts in \<open>hcf\<close>, or
  it reads past the end of the array of handlers.
\<close>

datatype outcome = Returned kernel | Halted kernel | Out_Of_Bounds

section \<open>The dispatcher\<close>

text \<open>The call through the handler's pointer.\<close>

fun call_handler :: "device \<Rightarrow> handler \<Rightarrow> interrupt_frame \<Rightarrow> kernel \<Rightarrow> outcome" where
  "call_handler dev Timer_Handler frame k = Returned (k\<lparr>timer := timer_interrupt_handler (timer k)\<rparr>)"
| "call_handler dev Keyboard_Handler frame k =
     (let (kb, tr) = keyboard_interrupt_handler dev (kbd k, io (pic k))
      in Returned (k\<lparr>kbd := kb, pic := (pic k)\<lparr>io := tr\<rparr>\<rparr>))"
| "call_handler dev Mouse_Handler frame k =
     (let (m, tr) = mouse_interrupt_handler dev (mouse k, io (pic k))
      in Returned (k\<lparr>mouse := m, pic := (pic k)\<lparr>io := tr\<rparr>\<rparr>))"
| "call_handler dev Page_Fault_Handler frame k = Halted k"

definition interrupt_handler :: "device \<Rightarrow> interrupt_frame \<Rightarrow> kernel \<Rightarrow> outcome" where
  "interrupt_handler dev frame k =
     (if IDT_ENTRIES \<le> unat (int_no frame) then Out_Of_Bounds
      else case (case interrupt_handlers (idts k) (ucast (int_no frame)) of
                   Some h \<Rightarrow> call_handler dev h frame k
                 | None \<Rightarrow> if int_no frame < 32 then Halted k else Returned k) of
             Returned k \<Rightarrow>
               if 32 \<le> int_no frame \<and> int_no frame < 48
               then Returned (k\<lparr>pic := pic_send_eoi (ucast (int_no frame - 32)) (pic k)\<rparr>)
               else Returned k
           | r \<Rightarrow> r)"

text \<open>The interrupts that arrive one after the other.\<close>

fun service :: "device \<Rightarrow> interrupt_frame list \<Rightarrow> kernel \<Rightarrow> outcome" where
  "service dev [] k = Returned k"
| "service dev (f # fs) k = (case interrupt_handler dev f k of Returned k \<Rightarrow> service dev fs k | r \<Rightarrow> r)"

section \<open>Servicing interrupts\<close>

text \<open>The handlers are where \<open>kmain\<close> puts them.\<close>

definition wired :: "kernel \<Rightarrow> bool" where
  "wired k \<longleftrightarrow> (\<forall>v. (interrupt_handlers (idts k) v = Some Timer_Handler \<longleftrightarrow> v = IRQ_TIMER)
     \<and> (interrupt_handlers (idts k) v = Some Page_Fault_Handler \<longrightarrow> v = 14))"

abbreviation is_irq :: "interrupt_frame \<Rightarrow> bool" where
  "is_irq f \<equiv> 32 \<le> int_no f \<and> int_no f < 48"

lemma eoi_bytes:
  assumes "irq < 16"
  shows "bytes_out PIC1_COMMAND (io (pic_send_eoi irq p)) = bytes_out PIC1_COMMAND (io p) @ [0x20]"
    and "bytes_out PIC2_COMMAND (io (pic_send_eoi irq p)) = bytes_out PIC2_COMMAND (io p) @ (if 8 \<le> irq then [0x20] else [])"
    and "irq_mask (pic_send_eoi irq p) = irq_mask p"
  by (simp_all add: pic_send_eoi_def pic_outb_def outb_def Let_def PIC_EOI_def)

text \<open>A handler that returns writes no port and leaves the registrations alone.\<close>

lemma call_handler_returns:
  assumes "h \<noteq> Page_Fault_Handler"
  shows "\<exists>k'. call_handler dev h f k = Returned k' \<and> idts k' = idts k
    \<and> irq_mask (pic k') = irq_mask (pic k) \<and> (\<forall>port. bytes_out port (io (pic k')) = bytes_out port (io (pic k)))
    \<and> timer_ticks (timer k') = timer_ticks (timer k) + (if h = Timer_Handler then 1 else 0)"
  using assms
  by (cases h) (simp_all add: keyboard_interrupt_handler_def mouse_interrupt_handler_def inb_def Let_def)

lemma irq_serviced:
  assumes w: "wired k" and f: "is_irq f"
  shows "\<exists>k'. interrupt_handler dev f k = Returned k' \<and> idts k' = idts k \<and> irq_mask (pic k') = irq_mask (pic k)
    \<and> bytes_out PIC1_COMMAND (io (pic k')) = bytes_out PIC1_COMMAND (io (pic k)) @ [0x20]
    \<and> bytes_out PIC2_COMMAND (io (pic k')) = bytes_out PIC2_COMMAND (io (pic k)) @ (if 40 \<le> int_no f then [0x20] else [])
    \<and> timer_ticks (timer k') = timer_ticks (timer k) + (if int_no f = 32 then 1 else 0)"
proof -
  have u: "32 \<le> unat (int_no f)" "unat (int_no f) < 48"
    using f by (simp_all add: word_le_nat_alt word_less_nat_alt)
  define v where "v = (ucast (int_no f) :: u8)"
  have v: "unat v = unat (int_no f)" using u by (simp add: v_def unat_ucast_mod)
  define irq where "irq = (ucast (int_no f - 32) :: u8)"
  have irq: "unat irq = unat (int_no f) - 32"
    using u f by (simp add: irq_def unat_ucast_mod unat_sub_le)
  have irq16: "irq < 16" using irq u by (simp add: word_less_nat_alt)
  have irq8: "8 \<le> irq \<longleftrightarrow> 40 \<le> int_no f" using irq u by (auto simp: word_le_nat_alt)
  have v32: "v = IRQ_TIMER \<longleftrightarrow> int_no f = 32" using v by (auto simp: word_unat_eq_iff IRQ_TIMER_def)
  have v14: "v \<noteq> 14" using v u by auto
  define h where "h = interrupt_handlers (idts k) v"
  have h: "h = Some Timer_Handler \<longleftrightarrow> int_no f = 32" "h \<noteq> Some Page_Fault_Handler"
    using w v32 v14 by (auto simp: wired_def h_def)
  define r where "r = (case h of Some h \<Rightarrow> call_handler dev h f k | None \<Rightarrow> if int_no f < 32 then Halted k else Returned k)"
  have "\<exists>k'. r = Returned k' \<and> idts k' = idts k
    \<and> irq_mask (pic k') = irq_mask (pic k) \<and> (\<forall>port. bytes_out port (io (pic k')) = bytes_out port (io (pic k)))
    \<and> timer_ticks (timer k') = timer_ticks (timer k) + (if int_no f = 32 then 1 else 0)"
  proof (cases h)
    case None
    have "\<not> int_no f < 32" using f by (simp add: not_less)
    then show ?thesis using None h by (simp add: r_def)
  next
    case (Some a)
    then show ?thesis using call_handler_returns [of a dev f k] h by (auto simp: r_def)
  qed
  then obtain k1 where k1: "r = Returned k1" "idts k1 = idts k" "irq_mask (pic k1) = irq_mask (pic k)"
    "\<And>port. bytes_out port (io (pic k1)) = bytes_out port (io (pic k))"
    "timer_ticks (timer k1) = timer_ticks (timer k) + (if int_no f = 32 then 1 else 0)" by blast
  have "interrupt_handler dev f k = Returned (k1\<lparr>pic := pic_send_eoi irq (pic k1)\<rparr>)"
    using u f k1(1) unfolding interrupt_handler_def v_def [symmetric] h_def [symmetric] r_def [symmetric] irq_def [symmetric]
    by (simp add: IDT_ENTRIES_def)
  then show ?thesis using k1 eoi_bytes [OF irq16, of "pic k1"] by (simp add: irq8)
qed

lemma service_irqs:
  assumes "wired k" and "\<forall>f \<in> set fs. is_irq f"
  shows "\<exists>k'. service dev fs k = Returned k' \<and> wired k' \<and> irq_mask (pic k') = irq_mask (pic k)
    \<and> bytes_out PIC1_COMMAND (io (pic k')) = bytes_out PIC1_COMMAND (io (pic k)) @ replicate (length fs) 0x20
    \<and> bytes_out PIC2_COMMAND (io (pic k'))
        = bytes_out PIC2_COMMAND (io (pic k)) @ replicate (length (filter (\<lambda>f. 40 \<le> int_no f) fs)) 0x20
    \<and> timer_ticks (timer k') = timer_ticks (timer k) + of_nat (length (filter (\<lambda>f. int_no f = 32) fs))"
  using assms
proof (induction fs arbitrary: k)
  case (Cons f fs)
  from irq_serviced [of k f dev] Cons.prems obtain k1 where
    k1: "interrupt_handler dev f k = Returned k1" "idts k1 = idts k" "irq_mask (pic k1) = irq_mask (pic k)"
    "bytes_out PIC1_COMMAND (io (pic k1)) = bytes_out PIC1_COMMAND (io (pic k)) @ [0x20]"
    "bytes_out PIC2_COMMAND (io (pic k1)) = bytes_out PIC2_COMMAND (io (pic k)) @ (if 40 \<le> int_no f then [0x20] else [])"
    "timer_ticks (timer k1) = timer_ticks (timer k) + (if int_no f = 32 then 1 else 0)" by auto
  have "wired k1" using Cons.prems(1) k1(2) by (simp add: wired_def)
  from Cons.IH [OF this] Cons.prems k1 show ?case by (auto simp: replicate_append_same)
qed simp

section \<open>Ports\<close>

text \<open>The port of an event; a trace that stays away from some ports.\<close>

fun port_of :: "io_event \<Rightarrow> u16" where
  "port_of (Out8 p _) = p" | "port_of (In8 p _) = p" | "port_of (Out16 p _) = p" | "port_of (In16 p _) = p"
| "port_of (Out32 p _) = p" | "port_of (In32 p _) = p"

lemma chip_other_ports:
  "\<forall>e \<in> set tr. port_of e \<noteq> cmd \<and> port_of e \<noteq> data \<Longrightarrow> chip cmd data st tr = st"
  by (induction cmd data st tr rule: chip.induct) auto

lemma ps2_other_ports:
  "\<forall>e \<in> set tr. port_of e \<noteq> MOUSE_DATA_PORT \<and> port_of e \<noteq> MOUSE_COMMAND_PORT \<Longrightarrow> ps2 tr st = st"
  by (induction tr st rule: ps2.induct) auto

abbreviation pic_ports :: "u16 set" where
  "pic_ports \<equiv> {PIC1_COMMAND, PIC1_DATA, PIC2_COMMAND, PIC2_DATA}"

definition extends :: "u16 set \<Rightarrow> io_trace \<Rightarrow> io_trace \<Rightarrow> bool" where
  "extends P tr tr' \<longleftrightarrow> (\<exists>d. tr' = tr @ d \<and> (\<forall>e \<in> set d. port_of e \<in> P))"

lemma extends_trans: "extends P tr tr' \<Longrightarrow> extends P tr' tr'' \<Longrightarrow> extends P tr tr''"
  unfolding extends_def by (metis append_assoc set_append Un_iff)

lemma extends_mono: "extends P tr tr' \<Longrightarrow> P \<subseteq> Q \<Longrightarrow> extends Q tr tr'"
  unfolding extends_def by blast

lemma extends_out: "port \<in> P \<Longrightarrow> extends P tr (tr @ [Out8 port v])"
  and extends_in: "port \<in> P \<Longrightarrow> extends P tr (tr @ [In8 port v])"
  by (simp_all add: extends_def)

lemma pic_read_write:
  "port \<in> P \<Longrightarrow> extends P tr ((tr @ [In8 port v]) @ [Out8 port w])"
  by (rule extends_trans [OF extends_in extends_out])

lemma irq_port_cases: "irq_port irq = (PIC1_DATA, irq) \<or> irq_port irq = (PIC2_DATA, irq - 8)"
  by (simp add: irq_port_def)

lemma pic_mask_extends: "extends pic_ports (io s) (io (pic_mask_irq dev irq s))"
    "extends pic_ports (io s) (io (pic_unmask_irq dev irq s))"
  using irq_port_cases [of irq] pic_read_write [where P = pic_ports and port = PIC1_DATA]
    pic_read_write [where P = pic_ports and port = PIC2_DATA]
  by (auto simp: pic_mask_irq_def pic_unmask_irq_def pic_inb_def inb_def pic_outb_def outb_def Let_def)

lemma pic_init_extends: "extends pic_ports (io s) (io (pic_init dev s))"
proof -
  define a where "a = dev8 dev (io s) PIC1_DATA"
  define b where "b = dev8 dev (io s @ [In8 PIC1_DATA a]) PIC2_DATA"
  define s0 where "s0 = s\<lparr>io := io s @ [In8 PIC1_DATA a, In8 PIC2_DATA b, Out8 PIC1_COMMAND 0x11,
      Out8 PIC2_COMMAND 0x11, Out8 PIC1_DATA 32, Out8 PIC2_DATA 40, Out8 PIC1_DATA 4, Out8 PIC2_DATA 2,
      Out8 PIC1_DATA 1, Out8 PIC2_DATA 1, Out8 PIC1_DATA a, Out8 PIC2_DATA b], irq_mask := mask_pair a b\<rparr>"
  have eq: "pic_init dev s = pic_unmask_irq dev 2 (pic_mask_irq dev 1 (pic_mask_irq dev 0 s0))"
    by (simp add: pic_init_def pic_inb_def inb_def pic_outb_def outb_def Let_def s0_def a_def b_def
        ICW1_INIT_def ICW1_ICW4_def ICW4_8086_def)
  have "extends pic_ports (io s) (io s0)" by (simp add: extends_def s0_def)
  then show ?thesis unfolding eq
    by (intro extends_trans [OF _ pic_mask_extends(2)] extends_trans [OF _ pic_mask_extends(1)])
qed

lemma answers_extends:
  assumes "extends P tr tr'" and "MOUSE_DATA_PORT \<notin> P" and "MOUSE_COMMAND_PORT \<notin> P"
  shows "answers tr' = answers tr"
proof -
  obtain d where d: "tr' = tr @ d" "\<forall>e \<in> set d. port_of e \<in> P" using assms(1) unfolding extends_def by blast
  then have "\<forall>e \<in> set d. port_of e \<noteq> MOUSE_DATA_PORT \<and> port_of e \<noteq> MOUSE_COMMAND_PORT"
    using assms(2,3) by metis
  then show ?thesis by (simp add: d(1) ps2_append ps2_other_ports)
qed

lemma pic_sync_extends:
  assumes "extends P (io p) tr" and "P \<inter> pic_ports = {}" and "pic_sync m1 m2 p"
  shows "pic_sync m1 m2 (p\<lparr>io := tr\<rparr>)"
proof -
  obtain d where d: "tr = io p @ d" "\<forall>e \<in> set d. port_of e \<in> P" using assms(1) unfolding extends_def by blast
  have "port_of e \<notin> pic_ports" if "e \<in> set d" for e using that d(2) assms(2) by blast
  then have "chip1 m1 (io p @ d) = chip1 m1 (io p)" "chip2 m2 (io p @ d) = chip2 m2 (io p)"
    unfolding chip_append by (intro chip_other_ports; simp)+
  then show ?thesis using assms(3) unfolding pic_sync_def d(1) by simp
qed

section \<open>Properties\<close>

lemma idt_init_parts:
  "snd (idt_init dev a isr irq (s, p)) = pic_init dev p"
  "interrupt_handlers (fst (idt_init dev a isr irq (s, p))) = interrupt_handlers s"
proof -
  define s0 where "s0 = s\<lparr>idt := replicate 256 zero_gate, idt_pointer := idt_good a\<rparr>"
  have "idt_initialize_gates isr irq s0 = s0\<lparr>idt := idt (idt_initialize_gates isr irq s0)\<rparr>"
    by (rule idt_gates(1)) (simp add: s0_def)
  then have "interrupt_handlers (idt_initialize_gates isr irq s0) = interrupt_handlers s"
    by (metis idt_state.select_convs(5) idt_state.surjective idt_state.update_convs(1,2) s0_def)
  then show "snd (idt_init dev a isr irq (s, p)) = pic_init dev p"
    "interrupt_handlers (fst (idt_init dev a isr irq (s, p))) = interrupt_handlers s"
    by (simp_all add: idt_init_def Let_def idt_load_def idt_save_backup_def s0_def IDT_ENTRIES_def)
qed

lemma register_handlers:
  "interrupt_handlers (idt_register_handler v h s) = (interrupt_handlers s)(v := h)"
  using unsigned_less [where 'b = 8 and w = v and 'a = nat]
  by (simp add: idt_register_handler_def IDT_ENTRIES_def)

lemma other_ports: "{PIT_COMMAND, PIT_CHANNEL0} \<inter> pic_ports = {}"
  "MOUSE_DATA_PORT \<notin> pic_ports" "MOUSE_COMMAND_PORT \<notin> pic_ports"
  "MOUSE_DATA_PORT \<notin> {PIT_COMMAND, PIT_CHANNEL0}" "MOUSE_COMMAND_PORT \<notin> {PIT_COMMAND, PIT_CHANNEL0}"
  by (simp_all add: PIT_COMMAND_def PIT_CHANNEL0_def PIC1_COMMAND_def PIC1_DATA_def PIC2_COMMAND_def PIC2_DATA_def
      MOUSE_DATA_PORT_def MOUSE_COMMAND_PORT_def)

text \<open>A machine with two controllers, all lines masked at power on, and a mouse.\<close>

definition demo_machine :: device where
  "demo_machine = \<lparr>dev8 = (\<lambda>tr port. if port = PIC1_DATA then snd (chip1 0xFF tr)
       else if port = PIC2_DATA then snd (chip2 0xFF tr) else dev8 demo_mouse tr port),
     dev16 = (\<lambda>_ _. 0), dev32 = (\<lambda>_ _. 0)\<rparr>"

lemma demo_machine_ok: "pic_device 0xFF 0xFF demo_machine" "ps2_mouse demo_machine"
proof -
  show "pic_device 0xFF 0xFF demo_machine" by (simp add: pic_device_def demo_machine_def)
  have "MOUSE_STATUS_PORT \<notin> {PIC1_DATA, PIC2_DATA}" "MOUSE_DATA_PORT \<notin> {PIC1_DATA, PIC2_DATA}"
    by (simp_all add: MOUSE_STATUS_PORT_def MOUSE_DATA_PORT_def PIC1_DATA_def PIC2_DATA_def)
  moreover have "MOUSE_DATA_PORT \<noteq> MOUSE_STATUS_PORT" by (simp add: MOUSE_STATUS_PORT_def MOUSE_DATA_PORT_def)
  ultimately show "ps2_mouse demo_machine"
    by (auto simp: ps2_mouse_def demo_machine_def demo_mouse_def Let_def)
qed


definition demo_frame :: "u64 \<Rightarrow> interrupt_frame" where
  "demo_frame n = \<lparr>r15 = 0, r14 = 0, r13 = 0, r12 = 0, r11 = 0, r10 = 0, r9 = 0, r8 = 0, rbp = 0, rdi = 0,
     rsi = 0, rdx = 0, rcx = 0, rbx = 0, rax = 0, int_no = n, error_code = 0, rip = 0, cs = 8, rflags = 0x202,
     rsp = 0, ss = 0x10\<rparr>"


end
