(* ===== verification/Boot_Traces.thy ===== *)
theory Boot_Traces
  imports Reports Interrupts
begin

text \<open>
  Which ports the log and the disk driver access: between two accesses of the interrupt controllers the
  trace is extended by accesses of other ports, which leave the controllers as they are.
\<close>

section \<open>Accesses\<close>

named_theorems extends_intros

lemma extends_refl [extends_intros]: "extends P t t"
  by (simp add: extends_def)

lemma extends_access [extends_intros]:
  assumes "port \<in> P" and "extends P t t'"
  shows "extends P t (outb port v8 t')" "extends P t (snd (inb dev port t'))"
    "extends P t (snd (inw dev port t'))" "extends P t (outl port v32 t')" "extends P t (snd (inl dev port t'))"
  using assms by (auto simp: extends_def port_defs)

lemma extends_fold:
  assumes "\<And>x t'. extends P t (p t') \<Longrightarrow> extends P t (p (f x t'))" and "extends P t (p a)"
  shows "extends P t (p (fold f xs a))"
  using assms(2) by (induction xs arbitrary: a) (auto intro: assms(1))

lemma extends_wait:
  assumes w: "wait_until test t = Some t'" and test: "\<And>t. extends P t (snd (test t))"
  shows "extends P t t'"
proof -
  have "(\<forall>t. extends P t (snd (test t))) \<longrightarrow> extends P t t'"
  proof (rule wait_until.raw_induct [OF _ w])
    fix wait_until test t t'
    assume IH: "\<And>test t t'. wait_until test t = Some t' \<Longrightarrow> (\<forall>t. extends P t (snd (test t))) \<longrightarrow> extends P t t'"
      and step: "(let (ready, t'') = test t in if ready then Some t'' else wait_until test t'') = Some t'"
    obtain r t'' where t: "test t = (r, t'')" by force
    show "(\<forall>t. extends P t (snd (test t))) \<longrightarrow> extends P t t'"
    proof
      assume all: "\<forall>t. extends P t (snd (test t))"
      then have "extends P t t''" by (metis t snd_conv)
      moreover have "t'' = t' \<or> wait_until test t'' = Some t'" using step by (simp add: t split: if_splits)
      ultimately show "extends P t t'" using IH all extends_trans by blast
    qed
  qed
  then show ?thesis using test by blast
qed

section \<open>The log\<close>

abbreviation com1_ports :: "u16 set" where
  "com1_ports \<equiv> {0x3F8..0x3FD}"

lemma write_byte_extends:
  assumes "serial_write_byte dev SERIAL_COM1 v t = Some t'"
  shows "extends com1_ports t t'"
proof -
  obtain t1 where 1: "wait_until (serial_is_transmit_ready dev SERIAL_COM1) t = Some t1" "t' = outb SERIAL_COM1 v t1"
    using assms by (auto simp: serial_write_byte_def SERIAL_DATA_def split: option.splits)
  have "extends com1_ports t t1"
    by (rule extends_wait [OF 1(1)])
      (auto simp: serial_is_transmit_ready_def split_beta Let_def SERIAL_COM1_def SERIAL_LINE_STAT_def intro!: extends_intros)
  then show ?thesis unfolding 1(2) by (intro extends_access) (simp_all add: SERIAL_COM1_def)
qed

lemma write_bytes_extends:
  "write_bytes dev SERIAL_COM1 bs t = Some t' \<Longrightarrow> extends com1_ports t t'"
proof (induction bs arbitrary: t)
  case (Cons b bs)
  then obtain t1 where 1: "serial_write_byte dev SERIAL_COM1 b t = Some t1" "write_bytes dev SERIAL_COM1 bs t1 = Some t'"
    by (auto split: option.splits)
  show ?case by (rule extends_trans [OF write_byte_extends [OF 1(1)] Cons.IH [OF 1(2)]])
qed (simp add: extends_refl)

lemma send_buffer_extends: "send_buffer dev out t = Some t' \<Longrightarrow> extends com1_ports t t'"
  by (simp add: send_buffer_def serial_write_string_def write_bytes_extends)

lemma printf_extends:
  "printf_serial dev fmt args s t = Some t' \<Longrightarrow> extends com1_ports t t'"
  by (auto simp: printf_serial_def send_buffer_extends extends_refl split: if_splits option.splits)

lemma log_printf_extends:
  "log_printf dev level fmt args s t = Some t' \<Longrightarrow> extends com1_ports t t'"
  by (auto simp: log_printf_def extends_refl split: if_splits option.splits
      dest!: printf_extends send_buffer_extends write_byte_extends intro: extends_trans)

lemma log_message_extends:
  "log_message dev level msg s t = Some t' \<Longrightarrow> extends com1_ports t t'"
  by (auto simp: log_message_def extends_refl split: if_splits dest!: printf_extends)

lemma run_log_extends: "run_log dev s calls t = Some t' \<Longrightarrow> extends com1_ports t t'"
proof (induction dev s calls t rule: run_log.induct)
  case (2 dev s level fmt args calls t)
  then show ?case by (auto split: option.splits dest!: log_printf_extends intro: extends_trans)
next
  case (3 dev s level msg calls t)
  then show ?case by (auto split: option.splits dest!: log_message_extends intro: extends_trans)
qed (simp add: extends_refl)

lemma serial_init_extends: "extends com1_ports t (snd (serial_init dev SERIAL_COM1 b t))"
  by (auto simp: serial_init_def Let_def split_beta SERIAL_COM1_def SERIAL_DATA_def SERIAL_INT_EN_def SERIAL_FIFO_CTRL_def
      SERIAL_LINE_CTRL_def SERIAL_MODEM_CTRL_def intro!: extends_intros)

lemma log_init_extends:
  assumes "log_init dev level s t = Some (r, s', t')"
  shows "extends com1_ports t t'"
proof -
  obtain r1 t1 where 1: "serial_init dev SERIAL_COM1 SERIAL_BAUD_115200 t = (r1, t1)" by force
  then have "extends com1_ports t t1" using serial_init_extends [of t dev SERIAL_BAUD_115200] by simp
  then show ?thesis using assms
    by (auto simp: log_init_def 1 Let_def split: if_splits dest!: log_message_extends intro: extends_trans)
qed

section \<open>The disk driver\<close>

definition drive_ports :: "u16 set" where
  "drive_ports = {0x1F0..0x1F7} \<union> {0x170..0x177} \<union> {0x3F6, 0x376, 0xCF8, 0xCFC}"

lemma drive_ports_simps [simp]:
  "PCI_CONFIG_ADDR \<in> drive_ports" "PCI_CONFIG_DATA \<in> drive_ports" "ATA_PRIMARY_STATUS \<in> drive_ports"
  "ATA_SECONDARY_STATUS \<in> drive_ports" "ATA_PRIMARY_CONTROL \<in> drive_ports" "ATA_SECONDARY_CONTROL \<in> drive_ports"
  by (simp_all add: drive_ports_def PCI_CONFIG_ADDR_def PCI_CONFIG_DATA_def ATA_PRIMARY_STATUS_def ATA_SECONDARY_STATUS_def
      ATA_PRIMARY_CONTROL_def ATA_SECONDARY_CONTROL_def)

lemma pci_read_extends [extends_intros]:
  "extends drive_ports t (pci_io s) \<Longrightarrow> extends drive_ports t (pci_io (snd (pci_read_config_dword dev b d f off s)))"
  by (auto simp: pci_read_config_dword_def Let_def split_beta intro!: extends_intros)

lemma pci_write_extends [extends_intros]:
  "extends drive_ports t (pci_io s) \<Longrightarrow> extends drive_ports t (pci_io (pci_write_config_dword b d f off v s))"
  by (auto simp: pci_write_config_dword_def Let_def split_beta intro!: extends_intros)

lemma store_device_io [simp]: "pci_io (store_device b d f vendor class_rev s) = pci_io s"
  by (simp add: store_device_def)

lemma scan_function_extends [extends_intros]:
  "extends drive_ports t (pci_io s) \<Longrightarrow> extends drive_ports t (pci_io (scan_function dev b d vendor f s))"
  by (auto simp: scan_function_def Let_def split_beta intro!: extends_intros)

lemma scan_device_extends [extends_intros]:
  "extends drive_ports t (pci_io s) \<Longrightarrow> extends drive_ports t (pci_io (scan_device dev b d s))"
  by (auto simp: scan_device_def Let_def split_beta intro!: extends_intros extends_fold [where p = pci_io])

lemma pci_init_extends [extends_intros]:
  "extends drive_ports t (pci_io s) \<Longrightarrow> extends drive_ports t (pci_io (pci_init dev s))"
  unfolding pci_init_def pci_scan_bus_def
  by (intro extends_fold [where p = pci_io] extends_intros) simp_all

lemma pci_get_bar_extends [extends_intros]:
  "extends drive_ports t (pci_io s) \<Longrightarrow> extends drive_ports t (pci_io (snd (pci_get_bar dev c i s)))"
  by (auto simp: pci_get_bar_def Let_def split_beta split: option.split intro!: extends_intros)

lemma enable_controller_extends [extends_intros]:
  "extends drive_ports t (pci_io s) \<Longrightarrow> extends drive_ports t (pci_io (enable_controller dev s))"
  by (auto simp: enable_controller_def Let_def split_beta split: option.split intro!: extends_intros)

lemma wait_not_busy_extends [extends_intros]:
  "port \<in> P \<Longrightarrow> extends P t t' \<Longrightarrow> extends P t (snd (ata_wait_not_busy dev port n t'))"
  by (induction n arbitrary: t') (auto simp: Let_def split_beta intro!: extends_intros)

lemma wait_drq_extends [extends_intros]:
  "port \<in> P \<Longrightarrow> port - 7 \<in> P \<Longrightarrow> extends P t t' \<Longrightarrow> extends P t (snd (ata_wait_drq dev port n t'))"
  by (induction n arbitrary: t') (auto simp: Let_def split_beta intro!: extends_intros)

lemma read_words_extends [extends_intros]:
  "port \<in> P \<Longrightarrow> extends P t t' \<Longrightarrow> extends P t (snd (read_words dev port n t'))"
  by (induction n arbitrary: t') (auto simp: Let_def split_beta intro!: extends_intros)

lemma delay_extends [extends_intros]:
  "port + 7 \<in> P \<Longrightarrow> extends P t t' \<Longrightarrow> extends P t (ata_400ns_delay dev port t')"
  unfolding ata_400ns_delay_def by (intro extends_fold [where p = "\<lambda>t. t"] extends_intros)

lemma reset_extends [extends_intros]:
  "control \<in> {ATA_PRIMARY_CONTROL, ATA_SECONDARY_CONTROL} \<Longrightarrow> extends drive_ports t t'
    \<Longrightarrow> extends drive_ports t (ata_software_reset dev control t')"
  by (auto simp: ata_software_reset_def Let_def split_beta intro!: extends_intros)

lemma detect_extends [extends_intros]:
  assumes "(bas, control) \<in> {(ATA_PRIMARY_DATA, ATA_PRIMARY_CONTROL), (ATA_SECONDARY_DATA, ATA_SECONDARY_CONTROL)}"
    and "extends drive_ports t (ata_io s)"
  shows "extends drive_ports t (ata_io (ata_detect_drive dev bas control master s))"
proof -
  have p: "bas \<in> drive_ports" "bas + 4 \<in> drive_ports" "bas + 5 \<in> drive_ports" "bas + 6 \<in> drive_ports" "bas + 7 \<in> drive_ports"
    "bas + 7 - 7 \<in> drive_ports" "control \<in> {ATA_PRIMARY_CONTROL, ATA_SECONDARY_CONTROL}"
    using assms(1) by (auto simp: drive_ports_def ATA_PRIMARY_DATA_def ATA_SECONDARY_DATA_def)
  show ?thesis using assms(2)
    by (auto simp: ata_detect_drive_def Let_def split_beta split: option.split intro!: extends_intros p)
qed

lemma ata_init_extends:
  assumes "extends drive_ports t (ata_io s)"
  shows "extends drive_ports t (ata_io (fst (ata_init dev (s, p))))"
  using assms unfolding ata_init_def Let_def split_beta fst_conv snd_conv
  by (intro detect_extends) (simp_all add: extends_intros)

section \<open>The mouse\<close>

abbreviation mouse_ports :: "u16 set" where
  "mouse_ports \<equiv> {MOUSE_DATA_PORT, MOUSE_STATUS_PORT, MOUSE_COMMAND_PORT}"

lemma poll_mouse_extends: "extends mouse_ports t (snd (output_full dev t))" "extends mouse_ports t (snd (input_empty dev t))"
  by (auto simp: output_full_def input_empty_def Let_def split_beta intro!: extends_intros)

lemma mouse_write_extends:
  assumes "mouse_write dev cmd t = Some t'"
  shows "extends mouse_ports t t'"
proof -
  obtain t1 t2 where w: "wait_until (input_empty dev) t = Some t1"
    "wait_until (input_empty dev) (outb MOUSE_COMMAND_PORT 0xD4 t1) = Some t2" "t' = outb MOUSE_DATA_PORT cmd t2"
    using assms by (auto simp: mouse_write_def split: option.splits)
  have "extends mouse_ports t t1" by (rule extends_wait [OF w(1) poll_mouse_extends(2)])
  then have "extends mouse_ports t (outb MOUSE_COMMAND_PORT 0xD4 t1)" by (intro extends_access) auto
  from extends_trans [OF this extends_wait [OF w(2) poll_mouse_extends(2)]] show ?thesis
    unfolding w(3) by (intro extends_access) auto
qed

lemma mouse_read_extends:
  assumes "mouse_read dev t = Some (v, t')"
  shows "extends mouse_ports t t'"
proof -
  obtain t1 where w: "wait_until (output_full dev) t = Some t1" "t' = snd (inb dev MOUSE_DATA_PORT t1)"
    using assms by (auto simp: mouse_read_def split: option.splits)
  from extends_wait [OF w(1) poll_mouse_extends(1)] show ?thesis unfolding w(2) by (intro extends_access) auto
qed

lemma mouse_command_extends:
  assumes "mouse_command dev c t = Some (ok, t')"
  shows "extends mouse_ports t t'"
proof -
  obtain t1 v where w: "mouse_write dev c t = Some t1" "mouse_read dev t1 = Some (v, t')"
    using assms by (auto simp: mouse_command_def mouse_wait_ack_def split: option.splits)
  show ?thesis by (rule extends_trans [OF mouse_write_extends [OF w(1)] mouse_read_extends [OF w(2)]])
qed

lemma mouse_commands_extends: "mouse_commands dev cmds t = Some (ok, t') \<Longrightarrow> extends mouse_ports t t'"
proof (induction cmds arbitrary: t)
  case (Cons c cmds)
  then obtain ok1 t1 where w: "mouse_command dev c t = Some (ok1, t1)"
    "t' = t1 \<or> mouse_commands dev cmds t1 = Some (ok, t')"
    by (auto split: option.splits if_splits)
  from w(2) mouse_command_extends [OF w(1)] show ?case using Cons.IH extends_trans by blast
qed (simp add: extends_refl)

lemma mouse_setup_extends:
  assumes "mouse_setup dev t = Some (ok, t')"
  shows "extends mouse_ports t t'"
proof -
  obtain t1 ok2 t2 where 1: "mouse_write dev MOUSE_CMD_DISABLE t = Some t1" "mouse_command dev MOUSE_CMD_RESET t1 = Some (ok2, t2)"
    and r: "t' = t2 \<or> (\<exists>v t3 v' t4. mouse_read dev t2 = Some (v, t3) \<and> mouse_read dev t3 = Some (v', t4)
      \<and> mouse_commands dev [MOUSE_CMD_DEFAULTS, MOUSE_CMD_SAMPLE_RATE, 100, MOUSE_CMD_ENABLE] t4 = Some (ok, t'))"
    using assms by (auto simp: mouse_setup_def simp del: mouse_commands.simps split: option.splits if_splits)
  have 2: "extends mouse_ports t t2"
    by (rule extends_trans [OF mouse_write_extends [OF 1(1)] mouse_command_extends [OF 1(2)]])
  show ?thesis using r
  proof
    assume "\<exists>v t3 v' t4. mouse_read dev t2 = Some (v, t3) \<and> mouse_read dev t3 = Some (v', t4)
      \<and> mouse_commands dev [MOUSE_CMD_DEFAULTS, MOUSE_CMD_SAMPLE_RATE, 100, MOUSE_CMD_ENABLE] t4 = Some (ok, t')"
    then obtain v t3 v' t4 where 3: "mouse_read dev t2 = Some (v, t3)" "mouse_read dev t3 = Some (v', t4)"
      "mouse_commands dev [MOUSE_CMD_DEFAULTS, MOUSE_CMD_SAMPLE_RATE, 100, MOUSE_CMD_ENABLE] t4 = Some (ok, t')" by blast
    show ?thesis
      by (rule extends_trans [OF 2 extends_trans [OF mouse_read_extends [OF 3(1)]
          extends_trans [OF mouse_read_extends [OF 3(2)] mouse_commands_extends [OF 3(3)]]]])
  qed (simp add: 2)
qed

section \<open>The interrupt controllers\<close>

lemma ports_apart: "com1_ports \<inter> pic_ports = {}" "mouse_ports \<inter> pic_ports = {}" "drive_ports \<inter> pic_ports = {}"
  "MOUSE_DATA_PORT \<notin> com1_ports" "MOUSE_COMMAND_PORT \<notin> com1_ports"
  by (simp_all add: drive_ports_def PIC1_COMMAND_def PIC1_DATA_def PIC2_COMMAND_def PIC2_DATA_def MOUSE_DATA_PORT_def MOUSE_COMMAND_PORT_def
      MOUSE_STATUS_PORT_def)

text \<open>The driver and the controllers agree, and exactly the lines of \<open>M\<close> are masked.\<close>

definition masked :: "u8 \<Rightarrow> u8 \<Rightarrow> nat set \<Rightarrow> pic_state \<Rightarrow> bool" where
  "masked m1 m2 M p \<longleftrightarrow> pic_sync m1 m2 p \<and> (\<forall>n < 16. bit (irq_mask p) n \<longleftrightarrow> n \<in> M)"

lemma masked_extends: "masked m1 m2 M p \<Longrightarrow> extends P (io p) t \<Longrightarrow> P \<inter> pic_ports = {} \<Longrightarrow> masked m1 m2 M (p\<lparr>io := t\<rparr>)"
  unfolding masked_def using pic_sync_extends by simp

lemma masked_unmask:
  assumes "pic_device m1 m2 dev" "masked m1 m2 M p" "irq < 16"
  shows "masked m1 m2 (M - {unat irq}) (pic_unmask_irq dev irq p)"
  using pic_unmask_irq_correct [OF assms(1) _ assms(3), of p] assms(2) unfolding masked_def by auto

lemma masked_init:
  assumes "pic_device m1 m2 dev" "extends P [] (io p)" "P \<inter> pic_ports = {}"
  shows "masked m1 m2 ({0, 1} \<union> {n. bit (mask_pair m1 m2) n} - {2}) (pic_init dev p)"
proof -
  have d: "port_of e \<notin> pic_ports" if "e \<in> set (io p)" for e using assms(2,3) that by (auto simp: extends_def)
  have c: "chip1 m1 (io p) = (0, m1)" "chip2 m2 (io p) = (0, m2)"
    by (rule chip_other_ports, insert d, simp)+
  show ?thesis using pic_init_correct [OF assms(1) c] unfolding masked_def by auto
qed

lemma timer_init_masked:
  assumes "pic_device m1 m2 dev" "masked m1 m2 M p" "f \<noteq> 0"
  shows "\<exists>p'. timer_init dev f (i, p) = Some (idt_register_handler IRQ_TIMER (Some Timer_Handler) i, p')
    \<and> masked m1 m2 (M - {0}) p' \<and> answers (io p') = answers (io p)"
proof -
  obtain t where t: "timer_set_frequency f (io p) = Some t" "extends {PIT_COMMAND, PIT_CHANNEL0} (io p) t"
    using assms(3) by (auto simp: timer_set_frequency_def Let_def intro!: extends_intros)
  have "masked m1 m2 M (p\<lparr>io := t\<rparr>)" by (rule masked_extends [OF assms(2) t(2) other_ports(1)])
  from masked_unmask [OF assms(1) this, of 0]
  have "masked m1 m2 (M - {0}) (pic_unmask_irq dev 0 (p\<lparr>io := t\<rparr>))" by simp
  moreover have "answers (io (pic_unmask_irq dev 0 (p\<lparr>io := t\<rparr>))) = answers (io p)"
    using answers_extends [OF pic_mask_extends(2) other_ports(2,3), of dev 0 "p\<lparr>io := t\<rparr>"]
      answers_extends [OF t(2) other_ports(4,5)] by simp
  ultimately show ?thesis by (simp add: timer_init_def t(1))
qed

end
