(* ===== verification/GDT.thy ===== *)
theory GDT
  imports Desc_Table
begin

text \<open>
  The global descriptor table and the task state segment, \<open>src/kernel/src/core/gdt.c\<close>, with the
  instructions of \<open>src/kernel/src/core/gdt.asm\<close>. The addresses of the table and of the task state
  segment are chosen by the linker: they are the parameters \<open>gdt_addr\<close> and \<open>tss_addr\<close>. The structures
  are packed, so two tables have the same bytes exactly if they are equal.
\<close>

section \<open>Data\<close>

record gdt_entry =
  limit_low :: u16
  base_low :: u16
  base_middle :: u8
  access :: u8
  granularity :: u8
  base_high :: u8

record tss_entry =
  reserved0 :: u32
  rsp0 :: u64
  rsp1 :: u64
  rsp2 :: u64
  reserved1 :: u64
  ist1 :: u64
  ist2 :: u64
  ist3 :: u64
  ist4 :: u64
  ist5 :: u64
  ist6 :: u64
  ist7 :: u64
  reserved2 :: u64
  reserved3 :: u16
  iopb_offset :: u16

definition GDT_NULL :: nat where "GDT_NULL = 0"
definition GDT_KERNEL_CODE :: nat where "GDT_KERNEL_CODE = 1"
definition GDT_KERNEL_DATA :: nat where "GDT_KERNEL_DATA = 2"
definition GDT_USER_CODE :: nat where "GDT_USER_CODE = 3"
definition GDT_USER_DATA :: nat where "GDT_USER_DATA = 4"
definition GDT_TSS :: nat where "GDT_TSS = 5"
definition GDT_REAL_ENTRIES_COUNT :: nat where "GDT_REAL_ENTRIES_COUNT = 7"

text \<open>The variables of the file and the registers of the processor that its instructions load.\<close>

record gdt_state =
  gdt :: "gdt_entry list"
  gdt_pointer :: table_ptr
  gdt_backup :: "gdt_entry list"
  gdt_pointer_backup :: table_ptr
  tss :: tss_entry
  gdtr :: table_ptr
  cs :: u16
  data_segs :: u16
  tr :: u16

definition zero_entry :: gdt_entry where
  "zero_entry = \<lparr>limit_low = 0, base_low = 0, base_middle = 0, access = 0, granularity = 0, base_high = 0\<rparr>"

definition zero_tss :: tss_entry where
  "zero_tss = \<lparr>reserved0 = 0, rsp0 = 0, rsp1 = 0, rsp2 = 0, reserved1 = 0, ist1 = 0, ist2 = 0, ist3 = 0,
     ist4 = 0, ist5 = 0, ist6 = 0, ist7 = 0, reserved2 = 0, reserved3 = 0, iopb_offset = 0\<rparr>"

text \<open>The state when the boot loader enters the kernel: its own table is loaded.\<close>

definition gdt_boot :: gdt_state where
  "gdt_boot = \<lparr>gdt = replicate 7 zero_entry, gdt_pointer = \<lparr>limit = 0, base = 0\<rparr>,
     gdt_backup = replicate 7 zero_entry, gdt_pointer_backup = \<lparr>limit = 0, base = 0\<rparr>,
     tss = zero_tss, gdtr = \<lparr>limit = 0, base = 0\<rparr>, cs = 0x28, data_segs = 0x30, tr = 0\<rparr>"

section \<open>Instructions\<close>

text \<open>
  The instructions of \<open>gdt.asm\<close>, from the architecture manual. A selector refers to the table in the
  register \<open>gdtr\<close>; an access to a table other than \<open>gdt\<close> is outside the model and, like a fault, is
  \<open>None\<close>. Loading a segment register needs a present descriptor of the right type and sets its
  accessed bit. Loading the task register needs an available task state segment and marks it busy.
\<close>

definition sees_gdt :: "u64 \<Rightarrow> gdt_state \<Rightarrow> bool" where
  "sees_gdt gdt_addr s \<longleftrightarrow> gdtr s = \<lparr>limit = 55, base = gdt_addr\<rparr>"

definition code_segment :: "gdt_entry \<Rightarrow> bool" where
  "code_segment e \<longleftrightarrow> access e AND 0xF8 = 0x98 \<and> granularity e AND 0x60 = 0x20"

definition data_segment :: "gdt_entry \<Rightarrow> bool" where
  "data_segment e \<longleftrightarrow> access e AND 0xFA = 0x92"

definition set_access :: "nat \<Rightarrow> u8 \<Rightarrow> gdt_state \<Rightarrow> gdt_state" where
  "set_access i bits s = s\<lparr>gdt := (gdt s)[i := (gdt s ! i)\<lparr>access := access (gdt s ! i) OR bits\<rparr>]\<rparr>"

definition gdt_load :: "u64 \<Rightarrow> gdt_state \<Rightarrow> gdt_state option" where
  "gdt_load gdt_addr s =
     (let s = s\<lparr>gdtr := gdt_pointer s\<rparr>
      in if sees_gdt gdt_addr s \<and> code_segment (gdt s ! 1) \<and> data_segment (gdt s ! 2)
         then Some (set_access 2 1 (set_access 1 1 s)\<lparr>cs := 0x08, data_segs := 0x10\<rparr>)
         else None)"

definition tss_load :: "u64 \<Rightarrow> u16 \<Rightarrow> gdt_state \<Rightarrow> gdt_state option" where
  "tss_load gdt_addr tss_segment s =
     (let i = unat (drop_bit 3 tss_segment)
      in if sees_gdt gdt_addr s \<and> i + 1 < 7 \<and> access (gdt s ! i) AND 0x9F = 0x89
         then Some (set_access i 2 s\<lparr>tr := tss_segment\<rparr>)
         else None)"

section \<open>Operations\<close>

text \<open>
  The callers pass the constants above as \<open>num\<close>, all of them inside the table.
\<close>

definition gdt_set_gate :: "nat \<Rightarrow> u64 \<Rightarrow> u32 \<Rightarrow> u8 \<Rightarrow> u8 \<Rightarrow> gdt_state \<Rightarrow> gdt_state" where
  "gdt_set_gate num bas lim acc gran s =
     s\<lparr>gdt := (gdt s)[num := (gdt s ! num)
         \<lparr>base_low := ucast (bas AND 0xFFFF),
          base_middle := ucast (drop_bit 16 bas AND 0xFF),
          base_high := ucast (drop_bit 24 bas AND 0xFF),
          limit_low := ucast (lim AND 0xFFFF),
          granularity := ucast (drop_bit 16 lim AND 0x0F) OR (gran AND 0xF0),
          access := acc\<rparr>]\<rparr>"

definition gdt_set_tss :: "nat \<Rightarrow> u64 \<Rightarrow> u32 \<Rightarrow> u8 \<Rightarrow> u8 \<Rightarrow> gdt_state \<Rightarrow> gdt_state" where
  "gdt_set_tss num bas lim acc gran s =
     (let s = gdt_set_gate num bas lim acc gran s
      in s\<lparr>gdt := (gdt s)[num + 1 := (gdt s ! (num + 1))
           \<lparr>limit_low := 0, base_low := 0, base_middle := 0, access := 0, granularity := 0, base_high := 0\<rparr>]\<rparr>)"

definition sizeof_tss :: nat where "sizeof_tss = 104"

definition tss_init :: "gdt_state \<Rightarrow> gdt_state" where
  "tss_init s = s\<lparr>tss := zero_tss\<lparr>iopb_offset := of_nat sizeof_tss\<rparr>\<rparr>"

definition gdt_save_backup :: "gdt_state \<Rightarrow> gdt_state" where
  "gdt_save_backup s = s\<lparr>gdt_backup := gdt s, gdt_pointer_backup := gdt_pointer s\<rparr>"

definition gdt_check_integrity :: "u64 \<Rightarrow> gdt_state \<Rightarrow> bool" where
  "gdt_check_integrity gdt_addr s =
     (if base (gdt_pointer s) \<noteq> gdt_addr then False
      else if limit (gdt_pointer s) \<noteq> of_nat (8 * GDT_REAL_ENTRIES_COUNT - 1) then False
      else if gdt s \<noteq> gdt_backup s then False
      else True)"

definition gdt_build :: "u64 \<Rightarrow> u64 \<Rightarrow> gdt_state \<Rightarrow> gdt_state" where
  "gdt_build gdt_addr tss_addr s =
     (let s = tss_init s;
          s = s\<lparr>gdt_pointer := \<lparr>limit = of_nat (8 * GDT_REAL_ENTRIES_COUNT - 1), base = gdt_addr\<rparr>\<rparr>;
          s = gdt_set_gate GDT_NULL 0 0 0 0 s;
          s = gdt_set_gate GDT_KERNEL_CODE 0 0xFFFFF 0x9A 0xA0 s;
          s = gdt_set_gate GDT_KERNEL_DATA 0 0xFFFFF 0x92 0x80 s;
          s = gdt_set_gate GDT_USER_CODE 0 0xFFFFF 0xFA 0xA0 s;
          s = gdt_set_gate GDT_USER_DATA 0 0xFFFFF 0xF2 0x80 s;
          s = gdt_set_tss GDT_TSS tss_addr (of_nat (sizeof_tss - 1)) 0x89 0x00 s
      in s\<lparr>gdt := (gdt s)[GDT_TSS + 1 := (gdt s ! (GDT_TSS + 1))
           \<lparr>limit_low := ucast (drop_bit 32 tss_addr AND 0xFFFF),
            base_low := ucast (drop_bit 48 tss_addr AND 0xFFFF)\<rparr>]\<rparr>)"

definition gdt_init :: "u64 \<Rightarrow> u64 \<Rightarrow> gdt_state \<Rightarrow> gdt_state option" where
  "gdt_init gdt_addr tss_addr s =
     (case gdt_load gdt_addr (gdt_save_backup (gdt_build gdt_addr tss_addr s)) of
        None \<Rightarrow> None
      | Some s \<Rightarrow> tss_load gdt_addr (of_nat (GDT_TSS * 8)) s)"

definition gdt_reload :: "u64 \<Rightarrow> gdt_state \<Rightarrow> gdt_state option" where
  "gdt_reload gdt_addr s =
     (case gdt_load gdt_addr s of
        None \<Rightarrow> None
      | Some s \<Rightarrow> tss_load gdt_addr (of_nat (GDT_TSS * 8)) s)"

definition gdt_recover :: "u64 \<Rightarrow> gdt_state \<Rightarrow> (bool \<times> gdt_state) option" where
  "gdt_recover gdt_addr s =
     (let s = s\<lparr>gdt := gdt_backup s\<rparr>;
          s = s\<lparr>gdt_pointer := gdt_pointer_backup s\<rparr>
      in case gdt_reload gdt_addr s of
           None \<Rightarrow> None
         | Some s \<Rightarrow> Some (gdt_check_integrity gdt_addr s, s))"

definition gdt_set_kernel_stack :: "u64 \<Rightarrow> gdt_state \<Rightarrow> gdt_state" where
  "gdt_set_kernel_stack stack s = s\<lparr>tss := (tss s)\<lparr>rsp0 := stack\<rparr>\<rparr>"

section \<open>The contract of the backup\<close>

abbreviation gdt_good :: "u64 \<Rightarrow> table_ptr" where
  "gdt_good gdt_addr \<equiv> \<lparr>limit = 55, base = gdt_addr\<rparr>"

interpretation gdt_table: backed_table gdt gdt_pointer gdt_backup gdt_pointer_backup "gdt_good gdt_addr"
    gdt_save_backup "gdt_check_integrity gdt_addr" for gdt_addr
proof
  fix s
  show "gdt (gdt_save_backup s) = gdt s" "gdt_pointer (gdt_save_backup s) = gdt_pointer s"
    "gdt_backup (gdt_save_backup s) = gdt s" "gdt_pointer_backup (gdt_save_backup s) = gdt_pointer s"
    by (simp_all add: gdt_save_backup_def)
  show "gdt_check_integrity gdt_addr s \<longleftrightarrow> gdt_pointer s = gdt_good gdt_addr \<and> gdt s = gdt_backup s"
    by (cases "gdt_pointer s") (auto simp: gdt_check_integrity_def GDT_REAL_ENTRIES_COUNT_def)
qed

section \<open>Descriptors\<close>

text \<open>How the processor reads a descriptor: base, limit, and the base of a task state segment.\<close>

definition entry_base :: "gdt_entry \<Rightarrow> u32" where
  "entry_base e = ucast (base_low e) OR push_bit 16 (ucast (base_middle e)) OR push_bit 24 (ucast (base_high e))"

definition entry_limit :: "gdt_entry \<Rightarrow> u32" where
  "entry_limit e = ucast (limit_low e) OR push_bit 16 (ucast (granularity e AND 0x0F))"

definition tss_base :: "gdt_entry \<Rightarrow> gdt_entry \<Rightarrow> u64" where
  "tss_base e e' = ucast (entry_base e) OR push_bit 32 (ucast (limit_low e')) OR push_bit 48 (ucast (base_low e'))"

lemma mask_numerals_16: "(0xFFFF :: u64) = mask 16" "(0xFF :: u64) = mask 8" "(0xFFFF :: u32) = mask 16"
    "(0x0F :: u32) = mask 4" "(0x0F :: u8) = mask 4" "(0xF0 :: u8) = push_bit 4 (mask 4)"
  by (simp_all add: mask_eq_exp_minus_1)

lemma base_roundtrip:
  "(ucast (ucast (b AND 0xFFFF) :: u16) OR push_bit 16 (ucast (ucast (drop_bit 16 b AND 0xFF) :: u8))
     OR push_bit 24 (ucast (ucast (drop_bit 24 b AND 0xFF) :: u8)) :: u32) = ucast (b :: u64)"
proof (intro bit_word_eqI)
  fix n assume "n < LENGTH(32)"
  then have n: "n < 32" by simp
  consider "n < 16" | "16 \<le> n" "n < 24" | "24 \<le> n" by linarith
  then show "bit (ucast (ucast (b AND 0xFFFF) :: u16) OR push_bit 16 (ucast (ucast (drop_bit 16 b AND 0xFF) :: u8))
     OR push_bit 24 (ucast (ucast (drop_bit 24 b AND 0xFF) :: u8)) :: u32) n = bit (ucast b :: u32) n"
    unfolding mask_numerals_16 using n by cases (auto simp: bit_simps)
qed

lemma limit_roundtrip:
  assumes "lim < 2 ^ 20"
  shows "(ucast (ucast (lim AND 0xFFFF) :: u16)
     OR push_bit 16 (ucast ((ucast (drop_bit 16 lim AND 0x0F) OR (gran AND 0xF0)) AND (0x0F :: u8))) :: u32) = lim"
proof (intro bit_word_eqI)
  fix n assume "n < LENGTH(32)"
  then have n: "n < 32" by simp
  have "unat lim < 2 ^ 20" using assms by (simp add: word_less_nat_alt)
  then have hi: "\<not> bit lim n" if "20 \<le> n" using that by (rule not_bit_ge)
  consider "n < 16" | "16 \<le> n" "n < 20" | "20 \<le> n" by linarith
  then show "bit (ucast (ucast (lim AND 0xFFFF) :: u16)
     OR push_bit 16 (ucast ((ucast (drop_bit 16 lim AND 0x0F) OR (gran AND 0xF0)) AND (0x0F :: u8))) :: u32) n
     = bit lim n"
    unfolding mask_numerals_16 using n hi by cases (auto simp: bit_simps)
qed

text \<open>A descriptor decodes to what was encoded, and the four flag bits are those of \<open>gran\<close>.\<close>

lemma gdt_set_gate_decodes:
  fixes bas :: u64 and acc gran :: u8
  assumes "num < length (gdt s)" and "lim < 2 ^ 20"
  defines "e \<equiv> gdt (gdt_set_gate num bas lim acc gran s) ! num"
  shows "entry_base e = ucast bas" "entry_limit e = lim" "access e = acc"
  using assms(1) base_roundtrip [of bas] limit_roundtrip [OF assms(2), of gran]
  by (simp_all add: e_def gdt_set_gate_def entry_base_def entry_limit_def)

section \<open>The table after initialisation\<close>

definition segment_entry :: "u8 \<Rightarrow> u8 \<Rightarrow> gdt_entry" where
  "segment_entry acc gran = \<lparr>limit_low = 0xFFFF, base_low = 0, base_middle = 0, access = acc,
     granularity = 0x0F OR gran, base_high = 0\<rparr>"

definition tss_low :: "u64 \<Rightarrow> u8 \<Rightarrow> gdt_entry" where
  "tss_low b acc = \<lparr>limit_low = 103, base_low = ucast (b AND 0xFFFF),
     base_middle = ucast (drop_bit 16 b AND 0xFF), access = acc, granularity = 0,
     base_high = ucast (drop_bit 24 b AND 0xFF)\<rparr>"

definition tss_high :: "u64 \<Rightarrow> gdt_entry" where
  "tss_high b = \<lparr>limit_low = ucast (drop_bit 32 b AND 0xFFFF), base_low = ucast (drop_bit 48 b AND 0xFFFF),
     base_middle = 0, access = 0, granularity = 0, base_high = 0\<rparr>"

text \<open>The table that is built and saved, and the table after the processor has read it.\<close>

definition built_table :: "u64 \<Rightarrow> gdt_entry list" where
  "built_table b = [zero_entry, segment_entry 0x9A 0xA0, segment_entry 0x92 0x80,
     segment_entry 0xFA 0xA0, segment_entry 0xF2 0x80, tss_low b 0x89, tss_high b]"

definition loaded_table :: "u64 \<Rightarrow> gdt_entry list" where
  "loaded_table b = [zero_entry, segment_entry 0x9B 0xA0, segment_entry 0x93 0x80,
     segment_entry 0xFA 0xA0, segment_entry 0xF2 0x80, tss_low b 0x8B, tss_high b]"

lemma length_7: "length xs = 7 \<Longrightarrow> \<exists>a b c d e f g. xs = [a, b, c, d, e, f, g]"
  by (auto simp: numeral_eq_Suc length_Suc_conv)

definition gate_entry :: "u64 \<Rightarrow> u32 \<Rightarrow> u8 \<Rightarrow> u8 \<Rightarrow> gdt_entry" where
  "gate_entry bas lim acc gran = \<lparr>limit_low = ucast (lim AND 0xFFFF), base_low = ucast (bas AND 0xFFFF),
     base_middle = ucast (drop_bit 16 bas AND 0xFF), access = acc,
     granularity = ucast (drop_bit 16 lim AND 0x0F) OR (gran AND 0xF0),
     base_high = ucast (drop_bit 24 bas AND 0xFF)\<rparr>"

lemma set_gate_list: "gdt (gdt_set_gate num bas lim acc gran s) = (gdt s)[num := gate_entry bas lim acc gran]"
  by (cases "gdt s ! num") (simp add: gdt_set_gate_def gate_entry_def)

lemma set_tss_list: "gdt (gdt_set_tss num bas lim acc gran s)
    = (gdt s)[num := gate_entry bas lim acc gran, num + 1 := zero_entry]"
  by (cases "gdt s ! (num + 1)") (simp add: gdt_set_tss_def set_gate_list Let_def zero_entry_def)

lemma gate_entry_seg: "gate_entry 0 0xFFFFF acc 0xA0 = segment_entry acc 0xA0"
    "gate_entry 0 0xFFFFF acc 0x80 = segment_entry acc 0x80"
  and gate_entry_null: "gate_entry 0 0 0 0 = zero_entry"
  and gate_entry_tss: "gate_entry b 103 acc 0 = tss_low b acc"
  by (simp_all add: gate_entry_def segment_entry_def zero_entry_def tss_low_def)

lemma gdt_build_table:
  assumes "length (gdt s) = 7"
  shows "gdt (gdt_build gdt_addr tss_addr s) = built_table tss_addr"
    and "gdt_pointer (gdt_build gdt_addr tss_addr s) = gdt_good gdt_addr"
    and "tss (gdt_build gdt_addr tss_addr s) = zero_tss\<lparr>iopb_offset := 104\<rparr>"
proof -
  obtain a b c d e f g where s: "gdt s = [a, b, c, d, e, f, g]" using length_7 [OF assms] by blast
  note defs = gdt_build_def tss_init_def Let_def GDT_REAL_ENTRIES_COUNT_def
  note nums = GDT_NULL_def GDT_KERNEL_CODE_def GDT_KERNEL_DATA_def GDT_USER_CODE_def GDT_USER_DATA_def
    GDT_TSS_def sizeof_tss_def
  show "gdt (gdt_build gdt_addr tss_addr s) = built_table tss_addr"
    by (simp add: defs nums set_gate_list set_tss_list s gate_entry_seg gate_entry_null gate_entry_tss
        built_table_def zero_entry_def tss_high_def)
  show "gdt_pointer (gdt_build gdt_addr tss_addr s) = gdt_good gdt_addr"
    "tss (gdt_build gdt_addr tss_addr s) = zero_tss\<lparr>iopb_offset := 104\<rparr>"
    by (simp_all add: defs sizeof_tss_def gdt_set_tss_def gdt_set_gate_def)
qed

text \<open>Loading the table that was built succeeds and leaves the marks of the processor in it.\<close>

lemma gdt_reload_built:
  assumes "gdt s = built_table b" and "gdt_pointer s = gdt_good gdt_addr"
  shows "gdt_reload gdt_addr s = Some (s\<lparr>gdt := loaded_table b, gdtr := gdt_good gdt_addr, cs := 0x08,
     data_segs := 0x10, tr := 0x28\<rparr>)"
  using assms
  by (simp add: gdt_reload_def gdt_load_def tss_load_def sees_gdt_def code_segment_def data_segment_def
      set_access_def built_table_def loaded_table_def segment_entry_def tss_low_def GDT_TSS_def
      Let_def)

lemma gdt_init_eq:
  "gdt_init gdt_addr tss_addr s = gdt_reload gdt_addr (gdt_save_backup (gdt_build gdt_addr tss_addr s))"
  by (simp add: gdt_init_def gdt_reload_def)

lemma gdt_init_state:
  assumes "length (gdt s) = 7"
  shows "\<exists>s'. gdt_init gdt_addr tss_addr s = Some s' \<and> gdt s' = loaded_table tss_addr
    \<and> gdt_backup s' = built_table tss_addr \<and> gdt_pointer s' = gdt_good gdt_addr
    \<and> gdt_pointer_backup s' = gdt_good gdt_addr \<and> gdtr s' = gdt_good gdt_addr
    \<and> cs s' = 0x08 \<and> data_segs s' = 0x10 \<and> tr s' = 0x28 \<and> tss s' = zero_tss\<lparr>iopb_offset := 104\<rparr>"
  using gdt_build_table [OF assms] gdt_reload_built [of "gdt_save_backup (gdt_build gdt_addr tss_addr s)"]
  by (simp add: gdt_init_eq gdt_save_backup_def)

lemma tss_base_roundtrip: "tss_base (tss_low b acc) (tss_high b) = b"
proof -
  have low: "entry_base (tss_low b acc) = ucast b"
    using base_roundtrip [of b] by (simp add: entry_base_def tss_low_def)
  have "bit (tss_base (tss_low b acc) (tss_high b)) n = bit b n" if n: "n < 64" for n
  proof -
    consider "n < 32" | "32 \<le> n" "n < 48" | "48 \<le> n" by linarith
    then show ?thesis
      unfolding tss_base_def low tss_high_def mask_numerals_16 using n by cases (auto simp: bit_simps)
  qed
  then show ?thesis by (intro bit_word_eqI) simp
qed

text \<open>A task register that was loaded leaves a busy segment behind.\<close>

lemma tss_load_busy:
  assumes "tss_load a sel s = Some s'" and "length (gdt s) = 7"
  shows "bit (access (gdt s' ! unat (drop_bit 3 sel))) 1" "\<not> bit (access (gdt s ! unat (drop_bit 3 sel))) 1"
proof -
  define i where "i = unat (drop_bit 3 sel)"
  have i: "i < 7" and acc: "access (gdt s ! i) AND 0x9F = 0x89"
    and s': "s' = set_access i 2 s\<lparr>tr := sel\<rparr>"
    using assms by (auto simp: tss_load_def i_def Let_def split: if_splits)
  have "bit (access (gdt s ! i) OR 2) 1" by (simp add: bit_simps)
  then show "bit (access (gdt s' ! unat (drop_bit 3 sel))) 1"
    using i assms(2) by (simp add: s' set_access_def i_def [symmetric])
  have "bit (access (gdt s ! i) AND 0x9F) 1 \<longleftrightarrow> bit (0x89 :: u8) 1" using acc by simp
  then show "\<not> bit (access (gdt s ! unat (drop_bit 3 sel))) 1"
    by (simp add: bit_simps i_def [symmetric])
qed

section \<open>Properties\<close>

text \<open>
  \<open>gdt_init\<close> returns with flat kernel and user segments that cover the whole address space, the
  ring and type each comment promises (but for the accessed bit, which the processor sets in the
  segments it loads), the two halves of the task state segment's descriptor that decode to its
  address and size, and the registers loaded from them.
\<close>

theorem gdt_init_descriptors:
  assumes "length (gdt s) = GDT_REAL_ENTRIES_COUNT"
  shows "\<exists>s'. gdt_init gdt_addr tss_addr s = Some s'
    \<and> gdtr s' = \<lparr>limit = 55, base = gdt_addr\<rparr> \<and> cs s' = 0x08 \<and> data_segs s' = 0x10 \<and> tr s' = 0x28
    \<and> gdt s' ! GDT_NULL = zero_entry
    \<and> (\<forall>(i, acc, flags) \<in> set [(GDT_KERNEL_CODE, 0x9A, 0xA0), (GDT_KERNEL_DATA, 0x92, 0x80),
          (GDT_USER_CODE, 0xFA, 0xA0), (GDT_USER_DATA, 0xF2, 0x80)].
         entry_base (gdt s' ! i) = 0 \<and> entry_limit (gdt s' ! i) = 0xFFFFF
         \<and> access (gdt s' ! i) AND 0xFE = acc \<and> granularity (gdt s' ! i) AND 0xF0 = flags)
    \<and> tss_base (gdt s' ! GDT_TSS) (gdt s' ! (GDT_TSS + 1)) = tss_addr
    \<and> entry_limit (gdt s' ! GDT_TSS) = of_nat (sizeof_tss - 1)
    \<and> iopb_offset (tss s') = of_nat sizeof_tss"
proof -
  have l: "length (gdt s) = 7" using assms by (simp add: GDT_REAL_ENTRIES_COUNT_def)
  note defs = GDT_NULL_def GDT_KERNEL_CODE_def GDT_KERNEL_DATA_def GDT_USER_CODE_def GDT_USER_DATA_def
    GDT_TSS_def loaded_table_def
  have nth: "loaded_table tss_addr ! GDT_NULL = zero_entry"
    "loaded_table tss_addr ! GDT_KERNEL_CODE = segment_entry 0x9B 0xA0"
    "loaded_table tss_addr ! GDT_KERNEL_DATA = segment_entry 0x93 0x80"
    "loaded_table tss_addr ! GDT_USER_CODE = segment_entry 0xFA 0xA0"
    "loaded_table tss_addr ! GDT_USER_DATA = segment_entry 0xF2 0x80"
    "loaded_table tss_addr ! GDT_TSS = tss_low tss_addr 0x8B"
    "loaded_table tss_addr ! (GDT_TSS + 1) = tss_high tss_addr"
    by (simp_all add: defs)
  have seg: "entry_base (segment_entry acc g) = 0" "access (segment_entry acc g) = acc"
    "entry_limit (segment_entry acc 0xA0) = 0xFFFFF" "entry_limit (segment_entry acc 0x80) = 0xFFFFF"
    "granularity (segment_entry acc 0xA0) AND 0xF0 = 0xA0" "granularity (segment_entry acc 0x80) AND 0xF0 = 0x80"
    for acc g by (simp_all add: entry_base_def entry_limit_def segment_entry_def)
  have lim: "entry_limit (tss_low tss_addr 0x8B) = 103" by (simp add: entry_limit_def tss_low_def)
  obtain s' where "gdt_init gdt_addr tss_addr s = Some s'" "gdt s' = loaded_table tss_addr"
    "gdtr s' = gdt_good gdt_addr" "cs s' = 0x08" "data_segs s' = 0x10" "tr s' = 0x28"
    "tss s' = zero_tss\<lparr>iopb_offset := 104\<rparr>"
    using gdt_init_state [OF l] by blast
  then show ?thesis
    by (intro exI [of _ s']) (simp add: nth seg lim tss_base_roundtrip sizeof_tss_def del: One_nat_def)
qed

theorem gdt_init_descriptors_witness:
  "\<exists>s'. gdt_init 0xFFFFFFFF80010000 0xFFFFFFFF80020040 gdt_boot = Some s'
    \<and> tss_base (gdt s' ! GDT_TSS) (gdt s' ! (GDT_TSS + 1)) = 0xFFFFFFFF80020040"
  using gdt_init_descriptors [of gdt_boot "0xFFFFFFFF80010000" "0xFFFFFFFF80020040"]
  by (auto simp: gdt_boot_def GDT_REAL_ENTRIES_COUNT_def)

text \<open>
  The integrity check compares the table with a backup that was taken before the processor
  marked the descriptors it loaded. So the check fails from the end of \<open>gdt_init\<close> on although nothing
  has been damaged, \<open>gdt_reload\<close> faults on the busy task state segment, and \<open>gdt_recover\<close>, which
  restores the table and loads it, never reports success, from no state at all.
\<close>

theorem gdt_integrity_never_holds:
  assumes "length (gdt s) = GDT_REAL_ENTRIES_COUNT"
  shows "(\<exists>s'. gdt_init gdt_addr tss_addr s = Some s' \<and> \<not> gdt_check_integrity gdt_addr s'
      \<and> gdt_reload gdt_addr s' = None
      \<and> (\<exists>s''. gdt_recover gdt_addr s' = Some (False, s'') \<and> gdt s'' = gdt s'))
    \<and> (\<forall>t r t'. length (gdt_backup t) = GDT_REAL_ENTRIES_COUNT \<longrightarrow> gdt_recover gdt_addr t = Some (r, t') \<longrightarrow> \<not> r)"
proof (intro conjI allI impI)
  have l: "length (gdt s) = 7" using assms by (simp add: GDT_REAL_ENTRIES_COUNT_def)
  obtain s' where s': "gdt_init gdt_addr tss_addr s = Some s'" "gdt s' = loaded_table tss_addr"
    "gdt_backup s' = built_table tss_addr" "gdt_pointer s' = gdt_good gdt_addr"
    "gdt_pointer_backup s' = gdt_good gdt_addr"
    using gdt_init_state [OF l] by blast
  have ne: "loaded_table tss_addr \<noteq> built_table tss_addr"
    by (simp add: loaded_table_def built_table_def segment_entry_def)
  have bad: "\<not> gdt_check_integrity gdt_addr s'" using s' ne by (simp add: gdt_table.check_iff)
  have rel: "gdt_reload gdt_addr s' = None"
    using s' by (simp add: gdt_reload_def gdt_load_def tss_load_def sees_gdt_def code_segment_def
        data_segment_def set_access_def loaded_table_def segment_entry_def tss_low_def GDT_TSS_def
        Let_def)
  have rec: "gdt_recover gdt_addr s' = Some (False, s'\<lparr>gdtr := gdt_good gdt_addr, cs := 0x08,
      data_segs := 0x10, tr := 0x28\<rparr>)"
    using s' ne gdt_reload_built [of "s'\<lparr>gdt := gdt_backup s', gdt_pointer := gdt_pointer_backup s'\<rparr>" tss_addr]
    by (simp add: gdt_recover_def gdt_table.check_iff)
  show "\<exists>s'. gdt_init gdt_addr tss_addr s = Some s' \<and> \<not> gdt_check_integrity gdt_addr s'
      \<and> gdt_reload gdt_addr s' = None
      \<and> (\<exists>s''. gdt_recover gdt_addr s' = Some (False, s'') \<and> gdt s'' = gdt s')"
    using s'(1) bad rel rec by (intro exI [of _ s']) simp
next
  fix t r t'
  assume l: "length (gdt_backup t) = GDT_REAL_ENTRIES_COUNT" and r: "gdt_recover gdt_addr t = Some (r, t')"
  define t0 where "t0 = t\<lparr>gdt := gdt_backup t, gdt_pointer := gdt_pointer_backup t\<rparr>"
  obtain t1 where t1: "gdt_load gdt_addr t0 = Some t1" "tss_load gdt_addr 0x28 t1 = Some t'"
    and chk: "r = gdt_check_integrity gdt_addr t'"
    using r by (auto simp: gdt_recover_def gdt_reload_def t0_def GDT_TSS_def split: option.splits)
  have 1: "gdt_backup t1 = gdt_backup t" "length (gdt t1) = 7" "gdt t1 ! 5 = gdt_backup t ! 5"
    using t1(1) l by (auto simp: gdt_load_def t0_def set_access_def Let_def GDT_REAL_ENTRIES_COUNT_def split: if_splits)
  have 2: "gdt_backup t' = gdt_backup t1"
    using t1(2) by (auto simp: tss_load_def set_access_def Let_def split: if_splits)
  have "gdt t' \<noteq> gdt_backup t'"
    using tss_load_busy [OF t1(2) 1(2)] 1 2 by auto
  then show "\<not> r" unfolding chk by (simp add: gdt_table.check_iff)
qed

theorem gdt_integrity_never_holds_witness:
  "\<exists>s'. gdt_init 0xFFFFFFFF80010000 0xFFFFFFFF80020040 gdt_boot = Some s'
    \<and> \<not> gdt_check_integrity 0xFFFFFFFF80010000 s'"
  using gdt_integrity_never_holds [of gdt_boot "0xFFFFFFFF80010000" "0xFFFFFFFF80020040"]
  by (auto simp: gdt_boot_def GDT_REAL_ENTRIES_COUNT_def)

end
