(* ===== verification/Bytes.thy ===== *)
theory Bytes
  imports Prelude
begin

text \<open>
  Buffers as lists of bytes: little endian numbers in them, and access to a part of a buffer. An access
  outside the buffer has the result \<open>None\<close>.
\<close>

fun le_word :: "u8 list \<Rightarrow> 'a::len word" where
  "le_word [] = 0"
| "le_word (b # bs) = ucast b OR push_bit 8 (le_word bs)"

fun le_bytes :: "nat \<Rightarrow> 'a::len word \<Rightarrow> u8 list" where
  "le_bytes 0 v = []"
| "le_bytes (Suc n) v = ucast v # le_bytes n (drop_bit 8 v)"

definition get_bytes :: "u8 list \<Rightarrow> nat \<Rightarrow> nat \<Rightarrow> u8 list option" where
  "get_bytes buf off n = (if off + n \<le> length buf then Some (take n (drop off buf)) else None)"

definition put_bytes :: "u8 list \<Rightarrow> nat \<Rightarrow> u8 list \<Rightarrow> u8 list option" where
  "put_bytes buf off bs =
     (if off + length bs \<le> length buf then Some (take off buf @ bs @ drop (off + length bs) buf) else None)"

definition get_le :: "u8 list \<Rightarrow> nat \<Rightarrow> nat \<Rightarrow> 'a::len word option" where
  "get_le buf off n = map_option le_word (get_bytes buf off n)"

lemma length_le_bytes [simp]: "length (le_bytes n v) = n"
  by (induction n arbitrary: v) simp_all

lemma bit_le_word:
  "bit (le_word bs :: 'a::len word) k \<longleftrightarrow> k < LENGTH('a) \<and> k < 8 * length bs \<and> bit (bs ! (k div 8)) (k mod 8)"
proof (induction bs arbitrary: k)
  case (Cons b bs)
  show ?case
  proof (cases "k < 8")
    case True
    then show ?thesis by (auto simp: bit_simps)
  next
    case False
    then obtain j where k: "k = j + 8" by (metis add.commute le_Suc_ex not_less)
    have d: "(j + 8) div 8 = Suc (j div 8)" by simp
    show ?thesis unfolding k using Cons [of j] by (auto simp: bit_simps not_bit_u8_ge d)
  qed
qed simp

lemma nth_le_bytes: "i < n \<Longrightarrow> le_bytes n v ! i = ucast (drop_bit (8 * i) v)"
  by (induction n arbitrary: v i) (auto simp: nth_Cons' drop_bit_drop_bit algebra_simps intro!: arg_cong [of _ _ ucast]
      arg_cong2 [of _ _ _ _ drop_bit])

lemma le_word_bytes:
  assumes "8 * n = LENGTH('a)"
  shows "le_word (le_bytes n (v :: 'a::len word)) = v"
proof (rule bit_word_eqI)
  fix k assume k: "k < LENGTH('a)"
  then have "k div 8 < n" using assms by (simp add: less_mult_imp_div_less mult.commute)
  moreover have "8 * (k div 8) + k mod 8 = k" by simp
  ultimately show "bit (le_word (le_bytes n v) :: 'a word) k = bit v k"
    using k assms by (simp add: bit_le_word nth_le_bytes bit_simps)
qed

lemma le_bytes_word:
  assumes "8 * length bs \<le> LENGTH('a)"
  shows "le_bytes (length bs) (le_word bs :: 'a::len word) = bs"
proof (rule nth_equalityI)
  fix i assume "i < length (le_bytes (length bs) (le_word bs :: 'a word))"
  then have i: "i < length bs" by simp
  show "le_bytes (length bs) (le_word bs :: 'a word) ! i = bs ! i"
  proof (rule bit_word_eqI)
    fix k assume "k < LENGTH(8)"
    then have k: "k < 8" by simp
    have "8 * i + k < 8 * length bs" using i k by linarith
    moreover have "(8 * i + k) div 8 = i" "(8 * i + k) mod 8 = k" using k by simp_all
    ultimately show "bit (le_bytes (length bs) (le_word bs :: 'a word) ! i) k = bit (bs ! i) k"
      using i k assms by (simp add: nth_le_bytes bit_simps bit_le_word)
  qed
qed simp

lemma get_bytes_length: "get_bytes buf off n = Some bs \<Longrightarrow> length bs = n"
  by (auto simp: get_bytes_def split: if_splits)

lemma put_bytes_length: "put_bytes buf off bs = Some buf' \<Longrightarrow> length buf' = length buf"
  by (auto simp: put_bytes_def split: if_splits)

text \<open>What is stored is found again, and everything else is kept.\<close>

lemma get_put_same: "put_bytes buf off bs = Some buf' \<Longrightarrow> get_bytes buf' off (length bs) = Some bs"
  by (auto simp: put_bytes_def get_bytes_def split: if_splits)

lemma get_put_other:
  assumes "put_bytes buf off bs = Some buf'" and "k + n \<le> off \<or> off + length bs \<le> k"
  shows "get_bytes buf' k n = get_bytes buf k n"
proof -
  have b: "buf' = take off buf @ bs @ drop (off + length bs) buf" "off + length bs \<le> length buf"
    using assms(1) by (auto simp: put_bytes_def split: if_splits)
  have len: "length buf' = length buf" using b by simp
  have "take n (drop k buf') = take n (drop k buf)" if "k + n \<le> length buf"
  proof (rule nth_equalityI)
    show "length (take n (drop k buf')) = length (take n (drop k buf))" by (simp add: len)
    fix i assume "i < length (take n (drop k buf'))"
    then have i: "i < n" "k + i < length buf" using len that by auto
    have "buf' ! (k + i) = buf ! (k + i)"
      using b assms(2) i by (auto simp: nth_append)
    then show "take n (drop k buf') ! i = take n (drop k buf) ! i" using i len by simp
  qed
  then show ?thesis by (simp add: get_bytes_def len)
qed

end
