(* ===== verification/Ext2_Block.thy ===== *)
theory Ext2_Block
  imports ATA Bytes PMM "HOL-Library.Monad_Syntax"
begin

text \<open>
  The state of the ext2 file system and its access to blocks, \<open>src/kernel/src/fs/ext2.c\<close> and
  \<open>ext2.h\<close>. An object that the driver allocates is its address and its contents: the input and output
  buffer of 8192 bytes, the pages of the cache, the superblock and the group descriptors; a null
  pointer is \<open>None\<close>. A function whose result is \<open>None\<close> is undefined there: it reads or writes outside an
  object, goes through a null pointer or divides by zero. A function that fills a buffer gives the bytes
  that it stores from the start of the buffer on. Log output is left out.
\<close>

section \<open>Structures\<close>

record ext2_superblock_t =
  s_inodes_count :: u32
  s_blocks_count :: u32
  s_r_blocks_count :: u32
  s_free_blocks_count :: u32
  s_free_inodes_count :: u32
  s_first_data_block :: u32
  s_log_block_size :: u32
  s_log_frag_size :: u32
  s_blocks_per_group :: u32
  s_frags_per_group :: u32
  s_inodes_per_group :: u32
  s_mtime :: u32
  s_wtime :: u32
  s_mnt_count :: u16
  s_max_mnt_count :: u16
  s_magic :: u16
  s_state :: u16
  s_errors :: u16
  s_minor_rev_level :: u16
  s_lastcheck :: u32
  s_checkinterval :: u32
  s_creator_os :: u32
  s_rev_level :: u32
  s_def_resuid :: u16
  s_def_resgid :: u16
  s_first_ino :: u32
  s_inode_size :: u16
  s_rest :: "u8 list"

record ext2_group_desc_t =
  bg_block_bitmap :: u32
  bg_inode_bitmap :: u32
  bg_inode_table :: u32
  bg_free_blocks_count :: u16
  bg_free_inodes_count :: u16
  bg_used_dirs_count :: u16
  bg_pad :: u16
  bg_reserved :: "u8 list"

record ext2_inode_t =
  i_mode :: u16
  i_uid :: u16
  i_size :: u32
  i_atime :: u32
  i_ctime :: u32
  i_mtime :: u32
  i_dtime :: u32
  i_gid :: u16
  i_links_count :: u16
  i_blocks :: u32
  i_flags :: u32
  i_osd1 :: u32
  i_block :: "u32 list"
  i_generation :: u32
  i_file_acl :: u32
  i_dir_acl :: u32
  i_faddr :: u32
  i_osd2 :: "u8 list"

record ext2_file_t =
  inode_num :: u32
  file_inode :: ext2_inode_t
  file_flags :: u32
  position :: u64
  is_open :: bool

record cache_entry =
  c_block_no :: u32
  c_data :: "(u64 \<times> u8 list) option"
  c_dirty :: bool
  c_valid :: bool

record ext2_state =
  ata :: ata_state
  frames :: pmm_state
  initialized :: bool
  mounted :: bool
  io_buffer :: "(u64 \<times> u8 list) option"
  drive_index :: u8
  block_size :: u32
  blocks_per_group :: u32
  inodes_per_group :: u32
  inode_size :: u32
  groups_count :: u32
  blocks_count :: u32
  inodes_count :: u32
  superblock :: "(u64 \<times> ext2_superblock_t) option"
  group_descs :: "(u64 \<times> ext2_group_desc_t list) option"
  open_files :: "ext2_file_t list"
  current_dir :: "u8 list"
  cache :: "cache_entry list"

definition EXT2_CACHE_SIZE :: nat where "EXT2_CACHE_SIZE = 32"
definition EXT2_MAX_FILES :: nat where "EXT2_MAX_FILES = 64"

section \<open>Sectors\<close>

text \<open>The bytes of words, as the data port delivers them.\<close>

definition bytes_of_words :: "u16 list \<Rightarrow> u8 list" where
  "bytes_of_words ws = concat (map (\<lambda>w. [ucast w, ucast (drop_bit 8 w)]) ws)"

definition read_sector :: "device \<Rightarrow> u8 \<Rightarrow> u32 \<Rightarrow> ata_state \<Rightarrow> bool \<times> u8 list \<times> ata_state" where
  "read_sector dev drive sector s =
     (let (ok, ws, s) = ata_read_sectors dev drive sector 1 False s in (ok, bytes_of_words ws, s))"

definition write_sector :: "device \<Rightarrow> u8 \<Rightarrow> u32 \<Rightarrow> u8 list \<Rightarrow> ata_state \<Rightarrow> (bool \<times> ata_state) option" where
  "write_sector dev drive sector buffer s = ata_write_sectors dev drive sector 1 (Some buffer) s"

text \<open>
  The loops over the sectors of a block, with \<open>k\<close> sectors left from sector \<open>i\<close> on, over the function
  that transfers one sector.
\<close>

fun read_run :: "(u32 \<Rightarrow> 's \<Rightarrow> bool \<times> u8 list \<times> 's) \<Rightarrow> u32 \<Rightarrow> nat \<Rightarrow> nat \<Rightarrow> 's \<Rightarrow> bool \<times> u8 list \<times> 's" where
  "read_run rd start 0 i s = (True, [], s)"
| "read_run rd start (Suc k) i s =
     (let (ok, bs, s) = rd (start + of_nat i) s
      in if \<not> ok then (False, bs, s)
         else let (ok, bs', s) = read_run rd start k (Suc i) s in (ok, bs @ bs', s))"

fun write_run ::
  "(u32 \<Rightarrow> u8 list \<Rightarrow> 's \<Rightarrow> (bool \<times> 's) option) \<Rightarrow> u32 \<Rightarrow> u8 list \<Rightarrow> nat \<Rightarrow> nat \<Rightarrow> 's \<Rightarrow> (bool \<times> 's) option" where
  "write_run wr start buffer 0 i s = Some (True, s)"
| "write_run wr start buffer (Suc k) i s = do {
     (ok, s) \<leftarrow> wr (start + of_nat i) (drop (i * 512) buffer) s;
     if \<not> ok then Some (False, s) else write_run wr start buffer k (Suc i) s
   }"

section \<open>Blocks\<close>

text \<open>The index of the first entry that satisfies a test, from index \<open>i\<close> on.\<close>

fun find_entry_from :: "(cache_entry \<Rightarrow> bool) \<Rightarrow> cache_entry list \<Rightarrow> nat \<Rightarrow> nat option" where
  "find_entry_from P [] i = None"
| "find_entry_from P (e # es) i = (if P e then Some i else find_entry_from P es (Suc i))"

definition cache_lookup :: "u32 \<Rightarrow> ext2_state \<Rightarrow> nat option" where
  "cache_lookup block_no s = find_entry_from (\<lambda>e. c_valid e \<and> c_block_no e = block_no) (cache s) 0"

text \<open>\<open>memcpy\<close> of a block to and from a page of the cache.\<close>

definition page_get :: "(u64 \<times> u8 list) option \<Rightarrow> nat \<Rightarrow> u8 list option" where
  "page_get page n = (case page of None \<Rightarrow> None | Some (_, d) \<Rightarrow> get_bytes d 0 n)"

definition page_put :: "(u64 \<times> u8 list) option \<Rightarrow> u8 list \<Rightarrow> (u64 \<times> u8 list) option option" where
  "page_put page bs = (case page of
     None \<Rightarrow> None
   | Some (a, d) \<Rightarrow> if length bs \<le> 4096 then Some (Some (a, bs)) else None)"

text \<open>
  A free entry of the cache or entry 0 is filled with a block that was read. A page is allocated if the
  entry has none.
\<close>

definition cache_insert :: "u32 \<Rightarrow> u8 list \<Rightarrow> ext2_state \<Rightarrow> ext2_state option" where
  "cache_insert block_no bs s =
     (let cache_idx = (case find_entry_from (\<lambda>e. \<not> c_valid e) (cache s) 0 of None \<Rightarrow> 0 | Some i \<Rightarrow> i);
          e = cache s ! cache_idx;
          (data, s) = (case c_data e of
              Some d \<Rightarrow> (Some d, s)
            | None \<Rightarrow> let (p, q) = pmm_alloc_page (frames s)
                      in (if p = NULL then None else Some (p, []), s\<lparr>frames := q\<rparr>))
      in case data of
           None \<Rightarrow> Some s
         | Some _ \<Rightarrow> do {
             data' \<leftarrow> page_put data (take (unat (block_size s)) bs);
             Some (s\<lparr>cache := (cache s)[cache_idx := \<lparr>c_block_no = block_no, c_data = data', c_dirty = False, c_valid = True\<rparr>]\<rparr>)
           })"

definition ext2_read_block ::
  "device \<Rightarrow> u8 \<Rightarrow> u32 \<Rightarrow> bool \<Rightarrow> ext2_state \<Rightarrow> (bool \<times> u8 list \<times> ext2_state) option" where
  "ext2_read_block dev drive block_no buffer_null s =
     (if buffer_null then Some (False, [], s)
      else case (if mounted s then cache_lookup block_no s else None) of
        Some i \<Rightarrow> do {
          bs \<leftarrow> page_get (c_data (cache s ! i)) (unat (block_size s));
          Some (True, bs, s)
        }
      | None \<Rightarrow>
          let sectors_per_block = block_size s div 512;
              start_sector = block_no * sectors_per_block;
              (ok, bs, a) = read_run (read_sector dev drive) start_sector (unat sectors_per_block) 0 (ata s);
              s = s\<lparr>ata := a\<rparr>
          in if \<not> ok then Some (False, bs, s)
             else if mounted s then do { s \<leftarrow> cache_insert block_no bs s; Some (True, bs, s) }
             else Some (True, bs, s))"

text \<open>Every valid entry for the block is updated and marked.\<close>

fun update_cached :: "u32 \<Rightarrow> u8 list \<Rightarrow> cache_entry list \<Rightarrow> cache_entry list option" where
  "update_cached block_no bs [] = Some []"
| "update_cached block_no bs (e # es) = do {
     e \<leftarrow> (if c_valid e \<and> c_block_no e = block_no
           then do { d \<leftarrow> page_put (c_data e) bs; Some (e\<lparr>c_data := d, c_dirty := True\<rparr>) }
           else Some e);
     es \<leftarrow> update_cached block_no bs es;
     Some (e # es)
   }"

definition ext2_write_block ::
  "device \<Rightarrow> u8 \<Rightarrow> u32 \<Rightarrow> u8 list option \<Rightarrow> ext2_state \<Rightarrow> (bool \<times> ext2_state) option" where
  "ext2_write_block dev drive block_no buffer s = (case buffer of
     None \<Rightarrow> Some (False, s)
   | Some buf \<Rightarrow> do {
       bs \<leftarrow> get_bytes buf 0 (unat (block_size s));
       es \<leftarrow> (if mounted s then update_cached block_no bs (cache s) else Some (cache s));
       let s = s\<lparr>cache := es\<rparr>;
       let sectors_per_block = block_size s div 512;
       let start_sector = block_no * sectors_per_block;
       (ok, a) \<leftarrow> write_run (write_sector dev drive) start_sector buf (unat sectors_per_block) 0 (ata s);
       Some (ok, s\<lparr>ata := a\<rparr>)
     })"

text \<open>Reading into the start of \<open>io_buffer\<close> and writing from it.\<close>

definition read_io :: "device \<Rightarrow> u8 \<Rightarrow> u32 \<Rightarrow> ext2_state \<Rightarrow> (bool \<times> ext2_state) option" where
  "read_io dev drive block_no s = do {
     (ok, bs, s) \<leftarrow> ext2_read_block dev drive block_no (io_buffer s = None) s;
     case io_buffer s of
       None \<Rightarrow> Some (ok, s)
     | Some (p, buf) \<Rightarrow> do {
         buf \<leftarrow> put_bytes buf 0 bs;
         Some (ok, s\<lparr>io_buffer := Some (p, buf)\<rparr>)
       }
   }"

definition write_io :: "device \<Rightarrow> u8 \<Rightarrow> u32 \<Rightarrow> ext2_state \<Rightarrow> (bool \<times> ext2_state) option" where
  "write_io dev drive block_no s = ext2_write_block dev drive block_no (map_option snd (io_buffer s)) s"

text \<open>Reads and stores in \<open>io_buffer\<close>.\<close>

definition io_get :: "nat \<Rightarrow> nat \<Rightarrow> ext2_state \<Rightarrow> u8 list option" where
  "io_get off n s = (case io_buffer s of None \<Rightarrow> None | Some (_, buf) \<Rightarrow> get_bytes buf off n)"

definition io_put :: "nat \<Rightarrow> u8 list \<Rightarrow> ext2_state \<Rightarrow> ext2_state option" where
  "io_put off bs s = (case io_buffer s of
     None \<Rightarrow> None
   | Some (p, buf) \<Rightarrow> map_option (\<lambda>buf. s\<lparr>io_buffer := Some (p, buf)\<rparr>) (put_bytes buf off bs))"

definition io_le :: "nat \<Rightarrow> nat \<Rightarrow> ext2_state \<Rightarrow> 'a::len word option" where
  "io_le off n s = map_option le_word (io_get off n s)"

end
