(* ===== verification/Ext2_Inode.thy ===== *)
theory Ext2_Inode
  imports Ext2_Block
begin

text \<open>
  Inodes, bitmaps and the block map of a file, \<open>src/kernel/src/fs/ext2.c\<close>. The pointers to an inode
  that the functions are called with are never null; a function that fills an inode gives it as an
  option, \<open>None\<close> for false.
\<close>

section \<open>Structures in memory\<close>

text \<open>\<open>sizeof(ext2_inode_t)\<close> is 128, \<open>sizeof(ext2_group_desc_t)\<close> 32, \<open>sizeof(ext2_superblock_t)\<close> 1024.\<close>

definition field :: "u8 list \<Rightarrow> nat \<Rightarrow> nat \<Rightarrow> 'a::len word" where
  "field bs off n = le_word (take n (drop off bs))"

definition inode_of_bytes :: "u8 list \<Rightarrow> ext2_inode_t" where
  "inode_of_bytes bs = \<lparr>i_mode = field bs 0 2, i_uid = field bs 2 2, i_size = field bs 4 4,
     i_atime = field bs 8 4, i_ctime = field bs 12 4, i_mtime = field bs 16 4, i_dtime = field bs 20 4,
     i_gid = field bs 24 2, i_links_count = field bs 26 2, i_blocks = field bs 28 4, i_flags = field bs 32 4,
     i_osd1 = field bs 36 4, i_block = map (\<lambda>k. field bs (40 + 4 * k) 4) [0..<15],
     i_generation = field bs 100 4, i_file_acl = field bs 104 4, i_dir_acl = field bs 108 4,
     i_faddr = field bs 112 4, i_osd2 = take 12 (drop 116 bs)\<rparr>"

definition inode_bytes :: "ext2_inode_t \<Rightarrow> u8 list" where
  "inode_bytes i = le_bytes 2 (i_mode i) @ le_bytes 2 (i_uid i) @ le_bytes 4 (i_size i) @ le_bytes 4 (i_atime i)
     @ le_bytes 4 (i_ctime i) @ le_bytes 4 (i_mtime i) @ le_bytes 4 (i_dtime i) @ le_bytes 2 (i_gid i)
     @ le_bytes 2 (i_links_count i) @ le_bytes 4 (i_blocks i) @ le_bytes 4 (i_flags i) @ le_bytes 4 (i_osd1 i)
     @ concat (map (le_bytes 4) (i_block i))
     @ le_bytes 4 (i_generation i) @ le_bytes 4 (i_file_acl i) @ le_bytes 4 (i_dir_acl i) @ le_bytes 4 (i_faddr i)
     @ i_osd2 i"

definition zero_inode :: ext2_inode_t where
  "zero_inode = inode_of_bytes (replicate 128 0)"

definition superblock_of_bytes :: "u8 list \<Rightarrow> ext2_superblock_t" where
  "superblock_of_bytes bs = \<lparr>s_inodes_count = field bs 0 4, s_blocks_count = field bs 4 4, s_r_blocks_count = field bs 8 4,
     s_free_blocks_count = field bs 12 4, s_free_inodes_count = field bs 16 4, s_first_data_block = field bs 20 4,
     s_log_block_size = field bs 24 4, s_log_frag_size = field bs 28 4, s_blocks_per_group = field bs 32 4,
     s_frags_per_group = field bs 36 4, s_inodes_per_group = field bs 40 4, s_mtime = field bs 44 4, s_wtime = field bs 48 4,
     s_mnt_count = field bs 52 2, s_max_mnt_count = field bs 54 2, s_magic = field bs 56 2, s_state = field bs 58 2,
     s_errors = field bs 60 2, s_minor_rev_level = field bs 62 2, s_lastcheck = field bs 64 4, s_checkinterval = field bs 68 4,
     s_creator_os = field bs 72 4, s_rev_level = field bs 76 4, s_def_resuid = field bs 80 2, s_def_resgid = field bs 82 2,
     s_first_ino = field bs 84 4, s_inode_size = field bs 88 2, s_rest = drop 90 bs\<rparr>"

definition group_of_bytes :: "u8 list \<Rightarrow> ext2_group_desc_t" where
  "group_of_bytes bs = \<lparr>bg_block_bitmap = field bs 0 4, bg_inode_bitmap = field bs 4 4, bg_inode_table = field bs 8 4,
     bg_free_blocks_count = field bs 12 2, bg_free_inodes_count = field bs 14 2, bg_used_dirs_count = field bs 16 2,
     bg_pad = field bs 18 2, bg_reserved = take 12 (drop 20 bs)\<rparr>"

section \<open>Reading and writing inodes\<close>

text \<open>\<open>group_descs[bg]\<close>, and changing it.\<close>

definition group_desc :: "u32 \<Rightarrow> ext2_state \<Rightarrow> ext2_group_desc_t option" where
  "group_desc bg s = (case group_descs s of
     None \<Rightarrow> None
   | Some (_, gs) \<Rightarrow> if unat bg < length gs then Some (gs ! unat bg) else None)"

definition update_group :: "u32 \<Rightarrow> (ext2_group_desc_t \<Rightarrow> ext2_group_desc_t) \<Rightarrow> ext2_state \<Rightarrow> ext2_state option" where
  "update_group bg f s = (case group_descs s of
     None \<Rightarrow> None
   | Some (p, gs) \<Rightarrow>
       if unat bg < length gs then Some (s\<lparr>group_descs := Some (p, gs[unat bg := f (gs ! unat bg)])\<rparr>) else None)"

definition checked_div :: "u32 \<Rightarrow> u32 \<Rightarrow> u32 option" where
  "checked_div a b = (if b = 0 then None else Some (a div b))"

text \<open>
  The block that holds an inode and the offset of the inode in it; the inner \<open>None\<close> for a group that
  does not exist.
\<close>

definition inode_place :: "u32 \<Rightarrow> ext2_state \<Rightarrow> (u32 \<times> nat) option option" where
  "inode_place inode_no s = do {
     block_group \<leftarrow> checked_div (inode_no - 1) (inodes_per_group s);
     let index = (inode_no - 1) mod inodes_per_group s;
     if groups_count s \<le> block_group then Some None
     else do {
       g \<leftarrow> group_desc block_group s;
       inodes_per_block \<leftarrow> checked_div (block_size s) (inode_size s);
       block_offset \<leftarrow> checked_div index inodes_per_block;
       let inode_offset = index mod inodes_per_block;
       Some (Some (bg_inode_table g + block_offset, unat (inode_offset * inode_size s)))
     }
   }"

definition ext2_read_inode ::
  "device \<Rightarrow> u8 \<Rightarrow> u32 \<Rightarrow> ext2_state \<Rightarrow> (ext2_inode_t option \<times> ext2_state) option" where
  "ext2_read_inode dev drive inode_no s =
     (if inode_no = 0 then Some (None, s)
      else do {
        place \<leftarrow> inode_place inode_no s;
        case place of
          None \<Rightarrow> Some (None, s)
        | Some (block, off) \<Rightarrow> do {
            (ok, s) \<leftarrow> read_io dev drive block s;
            if \<not> ok then Some (None, s)
            else do { bs \<leftarrow> io_get off 128 s; Some (Some (inode_of_bytes bs), s) }
          }
      })"

definition ext2_write_inode ::
  "device \<Rightarrow> u8 \<Rightarrow> u32 \<Rightarrow> ext2_inode_t \<Rightarrow> ext2_state \<Rightarrow> (bool \<times> ext2_state) option" where
  "ext2_write_inode dev drive inode_no inode s =
     (if inode_no = 0 then Some (False, s)
      else do {
        place \<leftarrow> inode_place inode_no s;
        case place of
          None \<Rightarrow> Some (False, s)
        | Some (block, off) \<Rightarrow> do {
            (ok, s) \<leftarrow> read_io dev drive block s;
            if \<not> ok then Some (False, s)
            else do { s \<leftarrow> io_put off (inode_bytes inode) s; write_io dev drive block s }
          }
      })"

section \<open>Bitmaps\<close>

text \<open>The inner loop over the bits of a byte, and the loop over the bytes.\<close>

definition first_zero_bit :: "u8 \<Rightarrow> nat option" where
  "first_zero_bit byte = List.find (\<lambda>j. byte AND push_bit j 1 = 0) [0..<8]"

fun find_free_bit :: "u8 list \<Rightarrow> nat \<Rightarrow> nat option" where
  "find_free_bit [] i = None"
| "find_free_bit (byte # bytes) i =
     (if byte = 0xFF then find_free_bit bytes (Suc i)
      else case first_zero_bit byte of
             Some j \<Rightarrow> Some (i * 8 + j)
           | None \<Rightarrow> find_free_bit bytes (Suc i))"

text \<open>\<open>bitmap[bit / 8] |= 1 << (bit % 8)\<close> in \<open>io_buffer\<close>.\<close>

definition io_set_bit :: "nat \<Rightarrow> ext2_state \<Rightarrow> ext2_state option" where
  "io_set_bit n s = do {
     bs \<leftarrow> io_get (n div 8) 1 s;
     io_put (n div 8) [hd bs OR push_bit (n mod 8) 1] s
   }"

definition sb_field :: "(ext2_superblock_t \<Rightarrow> 'a) \<Rightarrow> ext2_state \<Rightarrow> 'a option" where
  "sb_field f s = map_option (f \<circ> snd) (superblock s)"

definition update_sb :: "(ext2_superblock_t \<Rightarrow> ext2_superblock_t) \<Rightarrow> ext2_state \<Rightarrow> ext2_state option" where
  "update_sb f s = map_option (\<lambda>(p, sb). s\<lparr>superblock := Some (p, f sb)\<rparr>) (superblock s)"

text \<open>
  The search in the bitmap of one group: the number of the free bit that was found and marked.
  \<open>Skip\<close> is \<open>continue\<close>, \<open>Stop\<close> is \<open>return 0\<close>.
\<close>

datatype bit_search = Skip | Stop | Found nat

definition take_bit_in :: "device \<Rightarrow> u8 \<Rightarrow> u32 \<Rightarrow> ext2_state \<Rightarrow> (bit_search \<times> ext2_state) option" where
  "take_bit_in dev drive bitmap_block s = do {
     (ok, s) \<leftarrow> read_io dev drive bitmap_block s;
     if \<not> ok then Some (Skip, s)
     else do {
       bitmap \<leftarrow> io_get 0 (unat (block_size s)) s;
       case find_free_bit bitmap 0 of
         None \<Rightarrow> Some (Skip, s)
       | Some n \<Rightarrow> do {
           s \<leftarrow> io_set_bit n s;
           (ok, s) \<leftarrow> write_io dev drive bitmap_block s;
           Some (if ok then Found n else Stop, s)
         }
     }
   }"

text \<open>\<open>memset(io_buffer, 0, fs.block_size)\<close>\<close>

definition io_clear :: "ext2_state \<Rightarrow> ext2_state option" where
  "io_clear s = io_put 0 (replicate (unat (block_size s)) 0) s"

text \<open>The loop over the groups, with \<open>k\<close> groups left from group \<open>bg\<close> on.\<close>

fun allocate_block_from :: "device \<Rightarrow> u8 \<Rightarrow> nat \<Rightarrow> u32 \<Rightarrow> ext2_state \<Rightarrow> (u32 \<times> ext2_state) option" where
  "allocate_block_from dev drive 0 bg s = Some (0, s)"
| "allocate_block_from dev drive (Suc k) bg s = do {
     g \<leftarrow> group_desc bg s;
     if bg_free_blocks_count g = 0 then allocate_block_from dev drive k (bg + 1) s
     else do {
       (r, s) \<leftarrow> take_bit_in dev drive (bg_block_bitmap g) s;
       case r of
         Skip \<Rightarrow> allocate_block_from dev drive k (bg + 1) s
       | Stop \<Rightarrow> Some (0, s)
       | Found n \<Rightarrow> do {
           first \<leftarrow> sb_field s_first_data_block s;
           let block_no = bg * blocks_per_group s + of_nat n + first;
           s \<leftarrow> update_sb (\<lambda>sb. sb\<lparr>s_free_blocks_count := s_free_blocks_count sb - 1\<rparr>) s;
           s \<leftarrow> update_group bg (\<lambda>g. g\<lparr>bg_free_blocks_count := bg_free_blocks_count g - 1\<rparr>) s;
           s \<leftarrow> io_clear s;
           (_, s) \<leftarrow> write_io dev drive block_no s;
           Some (block_no, s)
         }
     }
   }"

definition ext2_allocate_block :: "device \<Rightarrow> u8 \<Rightarrow> ext2_state \<Rightarrow> (u32 \<times> ext2_state) option" where
  "ext2_allocate_block dev drive s =
     (if \<not> mounted s then Some (0, s)
      else do {
        free \<leftarrow> sb_field s_free_blocks_count s;
        if free = 0 then Some (0, s)
        else allocate_block_from dev drive (unat (groups_count s)) 0 s
      })"

fun allocate_inode_from :: "device \<Rightarrow> u8 \<Rightarrow> nat \<Rightarrow> u32 \<Rightarrow> ext2_state \<Rightarrow> (u32 \<times> ext2_state) option" where
  "allocate_inode_from dev drive 0 bg s = Some (0, s)"
| "allocate_inode_from dev drive (Suc k) bg s = do {
     g \<leftarrow> group_desc bg s;
     if bg_free_inodes_count g = 0 then allocate_inode_from dev drive k (bg + 1) s
     else do {
       (r, s) \<leftarrow> take_bit_in dev drive (bg_inode_bitmap g) s;
       case r of
         Skip \<Rightarrow> allocate_inode_from dev drive k (bg + 1) s
       | Stop \<Rightarrow> Some (0, s)
       | Found n \<Rightarrow> do {
           let inode_no = bg * inodes_per_group s + of_nat n + 1;
           s \<leftarrow> update_sb (\<lambda>sb. sb\<lparr>s_free_inodes_count := s_free_inodes_count sb - 1\<rparr>) s;
           s \<leftarrow> update_group bg (\<lambda>g. g\<lparr>bg_free_inodes_count := bg_free_inodes_count g - 1\<rparr>) s;
           (_, s) \<leftarrow> ext2_write_inode dev drive inode_no zero_inode s;
           Some (inode_no, s)
         }
     }
   }"

definition ext2_allocate_inode :: "device \<Rightarrow> u8 \<Rightarrow> ext2_state \<Rightarrow> (u32 \<times> ext2_state) option" where
  "ext2_allocate_inode dev drive s =
     (if \<not> mounted s then Some (0, s)
      else do {
        free \<leftarrow> sb_field s_free_inodes_count s;
        if free = 0 then Some (0, s)
        else allocate_inode_from dev drive (unat (groups_count s)) 0 s
      })"

section \<open>The block map\<close>

definition EXT2_NDIR_BLOCKS :: u32 where "EXT2_NDIR_BLOCKS = 12"
definition EXT2_IND_BLOCK :: nat where "EXT2_IND_BLOCK = 12"
definition EXT2_DIND_BLOCK :: nat where "EXT2_DIND_BLOCK = 13"
definition EXT2_TIND_BLOCK :: nat where "EXT2_TIND_BLOCK = 14"

text \<open>
  A pointer is followed through a list of indices, each in a block of pointers that is read into
  \<open>io_buffer\<close>; 0 when a pointer on the way is 0 or a block cannot be read. The function returns true
  exactly when the block number is not 0.
\<close>

fun follow :: "device \<Rightarrow> u32 \<Rightarrow> u32 list \<Rightarrow> ext2_state \<Rightarrow> (u32 \<times> ext2_state) option" where
  "follow dev block_no [] s = Some (block_no, s)"
| "follow dev block_no (i # is) s =
     (if block_no = 0 then Some (0, s)
      else do {
        (ok, s) \<leftarrow> read_io dev (drive_index s) block_no s;
        if \<not> ok then Some (0, s)
        else do { p \<leftarrow> io_le (4 * unat i) 4 s; follow dev p is s }
      })"

definition get_block_from_inode :: "device \<Rightarrow> ext2_inode_t \<Rightarrow> u32 \<Rightarrow> ext2_state \<Rightarrow> (u32 \<times> ext2_state) option" where
  "get_block_from_inode dev inode block_idx s = do {
     max_blocks \<leftarrow> checked_div (i_size inode + block_size s - 1) (block_size s);
     if max_blocks \<le> block_idx then Some (0, s)
     else if block_idx < EXT2_NDIR_BLOCKS then Some (i_block inode ! unat block_idx, s)
     else
     let block_idx = block_idx - EXT2_NDIR_BLOCKS;
         n = block_size s div 4
     in if block_idx < n then follow dev (i_block inode ! EXT2_IND_BLOCK) [block_idx] s
     else
     let block_idx = block_idx - n
     in if block_idx < n * n
        then follow dev (i_block inode ! EXT2_DIND_BLOCK) [block_idx div n, block_idx mod n] s
     else
     let block_idx = block_idx - n * n
     in if block_idx < n * n * n
        then let remain = block_idx mod (n * n)
             in follow dev (i_block inode ! EXT2_TIND_BLOCK) [block_idx div (n * n), remain div n, remain mod n] s
     else Some (0, s)
   }"

definition set_block_in_inode ::
  "device \<Rightarrow> ext2_inode_t \<Rightarrow> u32 \<Rightarrow> u32 \<Rightarrow> ext2_state \<Rightarrow> (bool \<times> ext2_inode_t \<times> ext2_state) option" where
  "set_block_in_inode dev inode block_idx block_no s =
     (if block_idx < EXT2_NDIR_BLOCKS
      then Some (True, inode\<lparr>i_block := (i_block inode)[unat block_idx := block_no]\<rparr>, s)
      else
      let block_idx = block_idx - EXT2_NDIR_BLOCKS
      in if block_idx < block_size s div 4
         then do {
           (inode, s) \<leftarrow>
             (if i_block inode ! EXT2_IND_BLOCK = 0
              then do {
                (b, s) \<leftarrow> ext2_allocate_block dev (drive_index s) s;
                let inode = inode\<lparr>i_block := (i_block inode)[EXT2_IND_BLOCK := b]\<rparr>;
                if b = 0 then Some (inode, s)
                else do {
                  s \<leftarrow> io_clear s;
                  (_, s) \<leftarrow> write_io dev (drive_index s) b s;
                  Some (inode, s)
                }
              }
              else Some (inode, s));
           let ind = i_block inode ! EXT2_IND_BLOCK;
           if ind = 0 then Some (False, inode, s)
           else do {
             (ok, s) \<leftarrow> read_io dev (drive_index s) ind s;
             if \<not> ok then Some (False, inode, s)
             else do {
               s \<leftarrow> io_put (4 * unat block_idx) (le_bytes 4 block_no) s;
               (ok, s) \<leftarrow> write_io dev (drive_index s) ind s;
               Some (ok, inode, s)
             }
           }
         }
         else Some (False, inode, s))"

end
