(* ===== verification/Ext2_Dir.thy ===== *)
theory Ext2_Dir
  imports Ext2_Inode Stdio
begin

text \<open>
  Paths and directories, \<open>src/kernel/src/fs/ext2.c\<close>. A string is the list of its bytes before the
  terminator. The loops over the blocks of a directory end because the block map does, which the
  function package is not asked to see: they are partial functions into \<open>option\<close>.
\<close>

section \<open>Paths\<close>

definition EXT2_MAX_PATH :: nat where "EXT2_MAX_PATH = 256"
definition EXT2_NAME_LEN :: nat where "EXT2_NAME_LEN = 255"
definition EXT2_ROOT_INO :: u32 where "EXT2_ROOT_INO = 2"

abbreviation slash :: u8 where
  "slash \<equiv> 0x2F"

text \<open>\<open>strtok_r\<close> with the delimiter \<open>"/"\<close>: the token and the string behind it.\<close>

definition next_token :: "u8 list \<Rightarrow> (u8 list \<times> u8 list) option" where
  "next_token str =
     (let r = dropWhile (\<lambda>c. c = slash) str
      in if r = [] then None
         else Some (takeWhile (\<lambda>c. c \<noteq> slash) r, drop 1 (dropWhile (\<lambda>c. c \<noteq> slash) r)))"

lemma next_token_length: "next_token str = Some (token, rest) \<Longrightarrow> length rest < length str"
proof -
  assume "next_token str = Some (token, rest)"
  then have r: "dropWhile (\<lambda>c. c = slash) str \<noteq> []"
    "rest = drop 1 (dropWhile (\<lambda>c. c \<noteq> slash) (dropWhile (\<lambda>c. c = slash) str))"
    by (auto simp: next_token_def Let_def split: if_splits)
  have "length rest \<le> length (dropWhile (\<lambda>c. c \<noteq> slash) (dropWhile (\<lambda>c. c = slash) str)) - 1" using r(2) by simp
  also have "\<dots> \<le> length (dropWhile (\<lambda>c. c = slash) str) - 1"
    using length_dropWhile_le [of "\<lambda>c. c \<noteq> slash" "dropWhile (\<lambda>c. c = slash) str"] by linarith
  also have "\<dots> < length (dropWhile (\<lambda>c. c = slash) str)" using r(1) by simp
  also have "\<dots> \<le> length str" by (rule length_dropWhile_le)
  finally show ?thesis .
qed

text \<open>\<open>strrchr\<close>: the index of the last occurrence.\<close>

fun strrchr_from :: "u8 \<Rightarrow> u8 list \<Rightarrow> nat \<Rightarrow> nat option \<Rightarrow> nat option" where
  "strrchr_from c [] i found = found"
| "strrchr_from c (d # ds) i found = strrchr_from c ds (Suc i) (if d = c then Some i else found)"

definition last_slash :: "u8 list \<Rightarrow> nat option" where
  "last_slash str = strrchr_from slash str 0 None"

function normalize_loop :: "u8 list \<Rightarrow> u8 list \<Rightarrow> u8 list" where
  "normalize_loop normalized rest = (case next_token rest of
     None \<Rightarrow> normalized
   | Some (token, rest') \<Rightarrow>
       if token = [0x2E] then normalize_loop normalized rest'
       else if token = [0x2E, 0x2E]
       then normalize_loop
              (case last_slash normalized of
                 Some i \<Rightarrow> if i \<noteq> 0 then take i normalized else normalized
               | None \<Rightarrow> normalized) rest'
       else normalize_loop (normalized @ [slash] @ token) rest')"
  by auto
termination
  by (relation "measure (\<lambda>(_, rest). length rest)") (auto dest: next_token_length)

declare normalize_loop.simps [simp del]

text \<open>
  The path that the components are taken from: relative paths are put behind the current directory,
  and 255 bytes are kept.
\<close>

definition absolute_path :: "u8 list \<Rightarrow> ext2_state \<Rightarrow> u8 list option" where
  "absolute_path path s =
     (if path = [] \<or> hd path \<noteq> slash
      then map_option (\<lambda>(out, _). takeWhile (\<lambda>c. c \<noteq> 0) out)
        (if mounted s
         then snprintf (of_nat EXT2_MAX_PATH) [0x25, 0x73, slash, 0x25, 0x73] [VA_str (Some (current_dir s)), VA_str (Some path)]
         else snprintf (of_nat EXT2_MAX_PATH) [slash, 0x25, 0x73] [VA_str (Some path)])
      else Some (take (EXT2_MAX_PATH - 1) path))"

definition ext2_normalize_path :: "u8 list \<Rightarrow> ext2_state \<Rightarrow> u8 list option" where
  "ext2_normalize_path path s = do {
     temp \<leftarrow> absolute_path path s;
     let normalized = normalize_loop [] temp;
     Some (if normalized = [] then [slash] else normalized)
   }"

section \<open>Searching a directory\<close>

definition EXT2_S_ISDIR :: "u16 \<Rightarrow> bool" where
  "EXT2_S_ISDIR m \<longleftrightarrow> m AND 0xF000 = 0x4000"

text \<open>\<open>strncmp(entry->name, name, n) == 0\<close>, with the name of the entry at a position of \<open>io_buffer\<close>.\<close>

fun name_eq :: "nat \<Rightarrow> u8 list \<Rightarrow> nat \<Rightarrow> ext2_state \<Rightarrow> bool option" where
  "name_eq pos name 0 s = Some True"
| "name_eq pos name (Suc n) s = do {
     bs \<leftarrow> io_get pos 1 s;
     let c = hd bs;
     let d = (case name of [] \<Rightarrow> 0 | d # _ \<Rightarrow> d);
     if c \<noteq> d then Some False
     else if c = 0 then Some True
     else name_eq (Suc pos) (tl name) n s
   }"

text \<open>The fields of the directory entry at an offset of \<open>io_buffer\<close>.\<close>

definition entry_inode :: "nat \<Rightarrow> ext2_state \<Rightarrow> u32 option" where
  "entry_inode off s = io_le off 4 s"

definition entry_rec_len :: "nat \<Rightarrow> ext2_state \<Rightarrow> u16 option" where
  "entry_rec_len off s = io_le (off + 4) 2 s"

definition entry_name_len :: "nat \<Rightarrow> ext2_state \<Rightarrow> u8 option" where
  "entry_name_len off s = io_le (off + 6) 1 s"

definition entry_has_name :: "nat \<Rightarrow> u8 list \<Rightarrow> ext2_state \<Rightarrow> bool option" where
  "entry_has_name off name s = do {
     name_len \<leftarrow> entry_name_len off s;
     if unat name_len = length name then name_eq (off + 8) name (unat name_len) s else Some False
   }"

text \<open>The loop over the entries of the block in \<open>io_buffer\<close>, from an offset on.\<close>

function find_in_block :: "u8 list \<Rightarrow> nat \<Rightarrow> ext2_state \<Rightarrow> u32 option option" where
  "find_in_block name off s =
     (if off < unat (block_size s)
      then do {
        rec_len \<leftarrow> entry_rec_len off s;
        if rec_len = 0 then Some None
        else do {
          ino \<leftarrow> entry_inode off s;
          hit \<leftarrow> (if ino \<noteq> 0 then entry_has_name off name s else Some False);
          if hit then Some (Some ino) else find_in_block name (off + unat rec_len) s
        }
      }
      else Some None)"
  by auto
termination
  by (relation "measure (\<lambda>(_, off, s). unat (block_size s) - off)")
    (auto simp: unat_gt_0 diff_less_mono2)

declare find_in_block.simps [simp del]

partial_function (option) find_dir_loop ::
  "device \<Rightarrow> u8 \<Rightarrow> ext2_inode_t \<Rightarrow> u8 list \<Rightarrow> u32 \<Rightarrow> u32 \<Rightarrow> ext2_state \<Rightarrow> (u32 \<times> ext2_state) option" where
  "find_dir_loop dev drive dir_inode name offset block_idx s =
     (if offset < i_size dir_inode
      then do {
        (block_no, s) \<leftarrow> get_block_from_inode dev dir_inode block_idx s;
        if block_no = 0 then Some (0, s)
        else do {
          (ok, s) \<leftarrow> read_io dev drive block_no s;
          if \<not> ok then Some (0, s)
          else do {
            found \<leftarrow> find_in_block name 0 s;
            case found of
              Some ino \<Rightarrow> Some (ino, s)
            | None \<Rightarrow> find_dir_loop dev drive dir_inode name (offset + block_size s) (block_idx + 1) s
          }
        }
      }
      else Some (0, s))"

definition find_file_in_dir :: "device \<Rightarrow> u8 \<Rightarrow> u32 \<Rightarrow> u8 list \<Rightarrow> ext2_state \<Rightarrow> (u32 \<times> ext2_state) option" where
  "find_file_in_dir dev drive dir_ino name s =
     (if dir_ino = 0 then Some (0, s)
      else do {
        (inode, s) \<leftarrow> ext2_read_inode dev drive dir_ino s;
        case inode of
          None \<Rightarrow> Some (0, s)
        | Some dir_inode \<Rightarrow>
            if \<not> EXT2_S_ISDIR (i_mode dir_inode) then Some (0, s)
            else find_dir_loop dev drive dir_inode name 0 0 s
      })"

text \<open>
  The loop over the characters of the normalised path: the inode so far, the characters since the last
  slash and the characters left. A component is looked up at a slash or at the end.
\<close>

fun lookup_loop :: "device \<Rightarrow> u8 \<Rightarrow> u32 \<Rightarrow> u8 list \<Rightarrow> u8 list \<Rightarrow> ext2_state \<Rightarrow> (u32 \<times> ext2_state) option" where
  "lookup_loop dev drive ino component [] s =
     (if component \<noteq> [] then find_file_in_dir dev drive ino (take EXT2_NAME_LEN component) s else Some (ino, s))"
| "lookup_loop dev drive ino component (c # cs) s =
     (if c \<noteq> slash then lookup_loop dev drive ino (component @ [c]) cs s
      else if component = [] then lookup_loop dev drive ino [] cs s
      else do {
        (ino, s) \<leftarrow> find_file_in_dir dev drive ino (take EXT2_NAME_LEN component) s;
        if ino = 0 then Some (0, s) else lookup_loop dev drive ino [] cs s
      })"

definition ext2_lookup_path :: "device \<Rightarrow> u8 \<Rightarrow> u8 list \<Rightarrow> ext2_state \<Rightarrow> (u32 \<times> ext2_state) option" where
  "ext2_lookup_path dev drive path s = do {
     norm_path \<leftarrow> ext2_normalize_path path s;
     if norm_path = [slash] then Some (EXT2_ROOT_INO, s)
     else lookup_loop dev drive EXT2_ROOT_INO []
            (if norm_path \<noteq> [] \<and> hd norm_path = slash then tl norm_path else norm_path) s
   }"

section \<open>Adding an entry\<close>

text \<open>\<open>(8 + n + 7) & ~7\<close>\<close>

definition entry_length :: "nat \<Rightarrow> nat" where
  "entry_length n = (8 + n + 7) div 8 * 8"

definition write_entry :: "nat \<Rightarrow> u32 \<Rightarrow> u16 \<Rightarrow> u8 list \<Rightarrow> u8 \<Rightarrow> ext2_state \<Rightarrow> ext2_state option" where
  "write_entry off ino rec_len name ty s =
     io_put off (le_bytes 4 ino @ le_bytes 2 rec_len @ [of_nat (length name), ty] @ name) s"

text \<open>
  The loop over the entries of the block in \<open>io_buffer\<close>: the entry goes to the end of the entries, to an
  unused entry that is long enough or behind an entry with room to spare. The result is whether one of
  them was found.
\<close>

function add_in_block :: "u32 \<Rightarrow> u8 list \<Rightarrow> u8 \<Rightarrow> nat \<Rightarrow> ext2_state \<Rightarrow> (bool \<times> ext2_state) option" where
  "add_in_block ino name ty off s =
     (if off < unat (block_size s)
      then do {
        rec_len \<leftarrow> entry_rec_len off s;
        entry_ino \<leftarrow> entry_inode off s;
        name_len \<leftarrow> entry_name_len off s;
        let entry_size = entry_length (length name);
        let actual_len = entry_length (unat name_len);
        if rec_len = 0 \<or> (entry_ino = 0 \<and> entry_size \<le> unat rec_len)
        then do { s \<leftarrow> write_entry off ino (of_nat entry_size) name ty s; Some (True, s) }
        else if actual_len + entry_size \<le> unat rec_len
        then do {
          s \<leftarrow> io_put (off + 4) (le_bytes 2 (of_nat actual_len :: u16)) s;
          s \<leftarrow> write_entry (off + actual_len) ino (rec_len - of_nat actual_len) name ty s;
          Some (True, s)
        }
        else add_in_block ino name ty (off + unat rec_len) s
      }
      else Some (False, s))"
  by auto
termination
  by (relation "measure (\<lambda>(_, _, _, off, s). unat (block_size s) - off)")
    (auto simp: unat_gt_0 diff_less_mono2)

declare add_in_block.simps [simp del]

text \<open>
  The loop over the blocks: the entry was added, there was no room up to a block index, or a block could
  not be written.
\<close>

datatype add_result = Added | Full u32 | Failed

partial_function (option) add_dir_loop ::
  "device \<Rightarrow> u8 \<Rightarrow> ext2_inode_t \<Rightarrow> u32 \<Rightarrow> u8 list \<Rightarrow> u8 \<Rightarrow> u32 \<Rightarrow> u32 \<Rightarrow> ext2_state \<Rightarrow> (add_result \<times> ext2_state) option" where
  "add_dir_loop dev drive dir_inode ino name ty offset block_idx s =
     (if offset < i_size dir_inode
      then do {
        (block_no, s) \<leftarrow> get_block_from_inode dev dir_inode block_idx s;
        if block_no = 0 then Some (Full block_idx, s)
        else do {
          (ok, s) \<leftarrow> read_io dev drive block_no s;
          if \<not> ok then Some (Full block_idx, s)
          else do {
            (added, s) \<leftarrow> add_in_block ino name ty 0 s;
            if added
            then do { (ok, s) \<leftarrow> write_io dev drive block_no s; Some (if ok then Added else Failed, s) }
            else add_dir_loop dev drive dir_inode ino name ty (offset + block_size s) (block_idx + 1) s
          }
        }
      }
      else Some (Full block_idx, s))"

text \<open>A block of its own for the entry.\<close>

definition add_dir_block ::
  "device \<Rightarrow> u8 \<Rightarrow> u32 \<Rightarrow> ext2_inode_t \<Rightarrow> u32 \<Rightarrow> u8 list \<Rightarrow> u8 \<Rightarrow> u32 \<Rightarrow> ext2_state \<Rightarrow> (bool \<times> ext2_state) option" where
  "add_dir_block dev drive dir_ino dir_inode ino name ty block_idx s = do {
     (block_no, s) \<leftarrow> ext2_allocate_block dev drive s;
     if block_no = 0 then Some (False, s)
     else do {
       s \<leftarrow> io_clear s;
       s \<leftarrow> write_entry 0 ino (ucast (block_size s)) name ty s;
       (ok, s) \<leftarrow> write_io dev drive block_no s;
       if \<not> ok then Some (False, s)
       else do {
         (ok, dir_inode, s) \<leftarrow> set_block_in_inode dev dir_inode block_idx block_no s;
         if \<not> ok then Some (False, s)
         else ext2_write_inode dev drive dir_ino
                (dir_inode\<lparr>i_size := i_size dir_inode + block_size s,
                           i_blocks := i_blocks dir_inode + block_size s div 512, i_mtime := 0\<rparr>) s
       }
     }
   }"

definition add_dir_entry ::
  "device \<Rightarrow> u8 \<Rightarrow> u32 \<Rightarrow> u8 list \<Rightarrow> u32 \<Rightarrow> u8 \<Rightarrow> ext2_state \<Rightarrow> (bool \<times> ext2_state) option" where
  "add_dir_entry dev drive dir_ino name ino ty s =
     (if dir_ino = 0 \<or> ino = 0 \<or> EXT2_NAME_LEN < length name then Some (False, s)
      else do {
        (inode, s) \<leftarrow> ext2_read_inode dev drive dir_ino s;
        case inode of
          None \<Rightarrow> Some (False, s)
        | Some dir_inode \<Rightarrow>
            if \<not> EXT2_S_ISDIR (i_mode dir_inode) then Some (False, s)
            else do {
              (r, s) \<leftarrow> add_dir_loop dev drive dir_inode ino name ty 0 0 s;
              case r of
                Added \<Rightarrow> Some (True, s)
              | Failed \<Rightarrow> Some (False, s)
              | Full block_idx \<Rightarrow> add_dir_block dev drive dir_ino dir_inode ino name ty block_idx s
            }
      })"

end
