(* ===== verification/Ext2_File.thy ===== *)
theory Ext2_File
  imports Ext2_Dir
begin

text \<open>
  Mounting, files and directories, \<open>src/kernel/src/fs/ext2.c\<close>. The parameter \<open>junk\<close> is what a page
  holds when it is allocated. The path arguments are not null: every function returns its error value
  on a null path before it does anything.
\<close>

section \<open>Start and mount\<close>

definition EXT2_SUPER_MAGIC :: u16 where "EXT2_SUPER_MAGIC = 0xEF53"

definition zero_file :: ext2_file_t where
  "zero_file = \<lparr>inode_num = 0, file_inode = zero_inode, file_flags = 0, position = 0, is_open = False\<rparr>"

definition zero_entry :: cache_entry where
  "zero_entry = \<lparr>c_block_no = 0, c_data = None, c_dirty = False, c_valid = False\<rparr>"

text \<open>\<open>memset(&fs, 0, sizeof(ext2_fs_t))\<close>\<close>

definition zero_fs :: "ext2_state \<Rightarrow> ext2_state" where
  "zero_fs s = s\<lparr>drive_index := 0, block_size := 0, blocks_per_group := 0, inodes_per_group := 0, inode_size := 0,
     groups_count := 0, blocks_count := 0, inodes_count := 0, superblock := None, group_descs := None,
     open_files := replicate EXT2_MAX_FILES zero_file, current_dir := [], cache := replicate EXT2_CACHE_SIZE zero_entry\<rparr>"

definition ext2_init :: "(u64 \<Rightarrow> u8 list) \<Rightarrow> ext2_state \<Rightarrow> bool \<times> ext2_state" where
  "ext2_init junk s =
     (let s = zero_fs s;
          (p, q) = pmm_alloc_pages 2 (frames s);
          s = s\<lparr>frames := q, io_buffer := (if p = NULL then None else Some (p, junk p))\<rparr>
      in if p = NULL then (False, s)
         else (True, s\<lparr>current_dir := [slash], initialized := True\<rparr>))"

text \<open>The loop over the blocks of the group descriptors, with \<open>k\<close> blocks left from block \<open>i\<close> on.\<close>

fun read_groups ::
  "device \<Rightarrow> u8 \<Rightarrow> u32 \<Rightarrow> nat \<Rightarrow> nat \<Rightarrow> ext2_state \<Rightarrow> (bool \<times> u8 list \<times> ext2_state) option" where
  "read_groups dev drive first 0 i s = Some (True, [], s)"
| "read_groups dev drive first (Suc k) i s = do {
     (ok, bs, s) \<leftarrow> ext2_read_block dev drive (first + of_nat i) False s;
     if \<not> ok then Some (False, bs, s)
     else do {
       (ok, bs', s) \<leftarrow> read_groups dev drive first k (Suc i) s;
       Some (ok, bs @ bs', s)
     }
   }"

definition groups_of_bytes :: "u8 list \<Rightarrow> ext2_group_desc_t list" where
  "groups_of_bytes bs = map (\<lambda>i. group_of_bytes (take 32 (drop (32 * i) bs))) [0..<length bs div 32]"

text \<open>The pages of the cache.\<close>

fun alloc_cache :: "cache_entry list \<Rightarrow> pmm_state \<Rightarrow> cache_entry list \<times> pmm_state" where
  "alloc_cache [] q = ([], q)"
| "alloc_cache (e # es) q =
     (let (e, q) = (case c_data e of
            Some _ \<Rightarrow> (e, q)
          | None \<Rightarrow> let (p, q) = pmm_alloc_page q in (e\<lparr>c_data := (if p = NULL then None else Some (p, []))\<rparr>, q));
          (es, q) = alloc_cache es q
      in (e # es, q))"

text \<open>The parameters of the file system, from the superblock.\<close>

definition set_parameters :: "ext2_superblock_t \<Rightarrow> ext2_state \<Rightarrow> ext2_state option" where
  "set_parameters sb s =
     (if 31 < s_log_block_size sb then None
      else do {
        let s = s\<lparr>block_size := push_bit (unat (s_log_block_size sb)) 1024,
                  blocks_per_group := s_blocks_per_group sb, inodes_per_group := s_inodes_per_group sb,
                  inode_size := (if 0 < s_inode_size sb then ucast (s_inode_size sb) else 128)\<rparr>;
        n \<leftarrow> checked_div (s_blocks_count sb + blocks_per_group s - 1) (blocks_per_group s);
        Some (s\<lparr>groups_count := n\<rparr>)
      })"

definition mount_groups :: "device \<Rightarrow> u8 \<Rightarrow> ext2_superblock_t \<Rightarrow> u64 \<Rightarrow> ext2_state \<Rightarrow> (bool \<times> ext2_state) option" where
  "mount_groups dev drive sb sb_page s = do {
     let bg_desc_block = s_first_data_block sb + 1;
     bg_desc_blocks \<leftarrow> checked_div (32 * groups_count s + block_size s - 1) (block_size s);
     let pages = (bg_desc_blocks * block_size s + 4095) div 4096;
     let (p, q) = pmm_alloc_pages (ucast pages) (frames s);
     let s = s\<lparr>frames := q\<rparr>;
     if p = NULL then Some (False, s\<lparr>group_descs := None, frames := pmm_free_page sb_page (frames s)\<rparr>)
     else if unat pages * 4096 < unat bg_desc_blocks * unat (block_size s) then None
     else do {
       (ok, bs, s) \<leftarrow> read_groups dev drive bg_desc_block (unat bg_desc_blocks) 0 s;
       let s = s\<lparr>group_descs := Some (p, groups_of_bytes bs)\<rparr>;
       if \<not> ok then Some (False, s\<lparr>frames := pmm_free_page sb_page (pmm_free_page p (frames s))\<rparr>)
       else
       let (es, q) = alloc_cache (cache s) (frames s)
       in Some (True, s\<lparr>cache := es, frames := q, mounted := True, current_dir := [slash],
                        blocks_count := s_blocks_count sb, inodes_count := s_inodes_count sb\<rparr>)
     }
   }"

definition ext2_mount :: "device \<Rightarrow> u8 \<Rightarrow> ext2_state \<Rightarrow> (bool \<times> ext2_state) option" where
  "ext2_mount dev drive s =
     (if \<not> initialized s \<or> mounted s then Some (False, s)
      else if \<not> ata_drive_present drive (ata s) then Some (False, s)
      else
      let s = s\<lparr>drive_index := drive\<rparr>
      in case io_buffer s of
           None \<Rightarrow> Some (False, s)
         | Some (p, buf) \<Rightarrow>
           let (ok, bs, a) = read_sector dev drive 2 (ata s)
           in do {
             buf \<leftarrow> put_bytes buf 0 bs;
             let s = s\<lparr>ata := a, io_buffer := Some (p, buf)\<rparr>;
             if \<not> ok then Some (False, s)
             else do {
               sb_bytes \<leftarrow> get_bytes buf 0 1024;
               let sb = superblock_of_bytes sb_bytes;
               if s_magic sb \<noteq> EXT2_SUPER_MAGIC then Some (False, s)
               else do {
                 s \<leftarrow> set_parameters sb s;
                 let (sp, q) = pmm_alloc_page (frames s);
                 let s = s\<lparr>frames := q\<rparr>;
                 if sp = NULL then Some (False, s\<lparr>superblock := None\<rparr>)
                 else mount_groups dev drive sb sp (s\<lparr>superblock := Some (sp, sb)\<rparr>)
               }
             }
           })"

text \<open>The loop over the cache when it is given up, with \<open>k\<close> entries left from entry \<open>i\<close> on.\<close>

fun flush_cache :: "device \<Rightarrow> nat \<Rightarrow> nat \<Rightarrow> ext2_state \<Rightarrow> ext2_state option" where
  "flush_cache dev 0 i s = Some s"
| "flush_cache dev (Suc k) i s = do {
     let e = cache s ! i;
     (_, s) \<leftarrow> (if c_valid e \<and> c_dirty e
               then ext2_write_block dev (drive_index s) (c_block_no e) (map_option snd (c_data e)) s
               else Some (True, s));
     let s = (case c_data (cache s ! i) of None \<Rightarrow> s | Some (p, _) \<Rightarrow> s\<lparr>frames := pmm_free_page p (frames s)\<rparr>);
     flush_cache dev k (Suc i)
       (s\<lparr>cache := (cache s)[i := (cache s ! i)\<lparr>c_data := None, c_valid := False, c_dirty := False\<rparr>]\<rparr>)
   }"

definition ext2_unmount :: "device \<Rightarrow> ext2_state \<Rightarrow> (bool \<times> ext2_state) option" where
  "ext2_unmount dev s =
     (if \<not> mounted s then Some (False, s)
      else do {
        s \<leftarrow> flush_cache dev EXT2_CACHE_SIZE 0 s;
        let s = s\<lparr>open_files := map (is_open_update (\<lambda>_. False)) (open_files s)\<rparr>;
        let s = (case superblock s of
                   None \<Rightarrow> s | Some (p, _) \<Rightarrow> s\<lparr>frames := pmm_free_page p (frames s), superblock := None\<rparr>);
        let s = (case group_descs s of
                   None \<Rightarrow> s | Some (p, _) \<Rightarrow> s\<lparr>frames := pmm_free_page p (frames s), group_descs := None\<rparr>);
        Some (True, s\<lparr>mounted := False\<rparr>)
      })"

section \<open>Creating files\<close>

definition EXT2_FT_REG_FILE :: u8 where "EXT2_FT_REG_FILE = 1"
definition EXT2_FT_DIR :: u8 where "EXT2_FT_DIR = 2"
definition EXT2_FT_CHRDEV :: u8 where "EXT2_FT_CHRDEV = 3"
definition EXT2_FT_BLKDEV :: u8 where "EXT2_FT_BLKDEV = 4"

text \<open>The directory and the last component of a normalised path.\<close>

definition split_path :: "u8 list \<Rightarrow> (u8 list \<times> u8 list) option" where
  "split_path norm_path = (case last_slash norm_path of
     None \<Rightarrow> None
   | Some i \<Rightarrow> Some (if i = 0 then [slash] else take i norm_path, take EXT2_NAME_LEN (drop (Suc i) norm_path)))"

definition file_mode :: "u8 \<Rightarrow> u16 option" where
  "file_mode ty =
     (if ty = EXT2_FT_REG_FILE then Some 0x8000
      else if ty = EXT2_FT_DIR then Some 0x4000
      else if ty = EXT2_FT_CHRDEV then Some 0x2000
      else if ty = EXT2_FT_BLKDEV then Some 0x6000
      else None)"

definition create_file :: "device \<Rightarrow> u8 \<Rightarrow> u8 list \<Rightarrow> u32 \<Rightarrow> u8 \<Rightarrow> ext2_state \<Rightarrow> (bool \<times> ext2_state) option" where
  "create_file dev drive path mode ty s = do {
     norm_path \<leftarrow> ext2_normalize_path path s;
     case split_path norm_path of
       None \<Rightarrow> Some (False, s)
     | Some (dir_path, filename) \<Rightarrow> do {
         (dir_ino, s) \<leftarrow> ext2_lookup_path dev drive dir_path s;
         if dir_ino = 0 then Some (False, s)
         else do {
           (existing, s) \<leftarrow> find_file_in_dir dev drive dir_ino filename s;
           if existing \<noteq> 0 then Some (False, s)
           else do {
             (ino, s) \<leftarrow> ext2_allocate_inode dev drive s;
             if ino = 0 then Some (False, s)
             else case file_mode ty of
               None \<Rightarrow> Some (False, s)
             | Some file_type \<Rightarrow> do {
                 let inode = zero_inode\<lparr>i_mode := file_type OR (ucast mode AND 0x1FF), i_links_count := 1\<rparr>;
                 (ok, s) \<leftarrow> ext2_write_inode dev drive ino inode s;
                 if \<not> ok then Some (False, s) else add_dir_entry dev drive dir_ino filename ino ty s
               }
           }
         }
       }
   }"

definition ext2_create_device ::
  "device \<Rightarrow> u8 \<Rightarrow> u8 list \<Rightarrow> u32 \<Rightarrow> u32 \<Rightarrow> ext2_state \<Rightarrow> (bool \<times> ext2_state) option" where
  "ext2_create_device dev drive path mode devno s =
     (if \<not> mounted s then Some (False, s)
      else case (if mode AND 0x2000 = 0x2000 then Some EXT2_FT_CHRDEV
                 else if mode AND 0x6000 = 0x6000 then Some EXT2_FT_BLKDEV else None) of
        None \<Rightarrow> Some (False, s)
      | Some ty \<Rightarrow> do {
          (ok, s) \<leftarrow> create_file dev drive path mode ty s;
          if \<not> ok then Some (False, s)
          else do {
            (ino, s) \<leftarrow> ext2_lookup_path dev drive path s;
            if ino = 0 then Some (False, s)
            else do {
              (inode, s) \<leftarrow> ext2_read_inode dev drive ino s;
              case inode of
                None \<Rightarrow> Some (False, s)
              | Some inode \<Rightarrow> ext2_write_inode dev drive ino (inode\<lparr>i_block := (i_block inode)[0 := devno]\<rparr>) s
            }
          }
        })"

text \<open>The first block of a new directory, with its two entries, and the inodes behind it.\<close>

definition mkdir_block :: "device \<Rightarrow> u32 \<Rightarrow> u32 \<Rightarrow> ext2_inode_t \<Rightarrow> ext2_state \<Rightarrow> (bool \<times> ext2_state) option" where
  "mkdir_block dev ino parent_ino inode s = do {
     (block_no, s) \<leftarrow> ext2_allocate_block dev (drive_index s) s;
     if block_no = 0 then Some (False, s)
     else do {
       s \<leftarrow> io_clear s;
       s \<leftarrow> write_entry 0 ino 12 [0x2E] EXT2_FT_DIR s;
       s \<leftarrow> write_entry 12 parent_ino (ucast (block_size s - 12)) [0x2E, 0x2E] EXT2_FT_DIR s;
       (ok, s) \<leftarrow> write_io dev (drive_index s) block_no s;
       if \<not> ok then Some (False, s)
       else do {
         let inode = inode\<lparr>i_block := (i_block inode)[0 := block_no], i_size := block_size s,
                           i_blocks := block_size s div 512, i_links_count := 2\<rparr>;
         (ok, s) \<leftarrow> ext2_write_inode dev (drive_index s) ino inode s;
         if \<not> ok then Some (False, s)
         else do {
           (parent, s) \<leftarrow> ext2_read_inode dev (drive_index s) parent_ino s;
           case parent of
             None \<Rightarrow> Some (False, s)
           | Some parent \<Rightarrow> do {
               bg \<leftarrow> checked_div (ino - 1) (inodes_per_group s);
               s \<leftarrow> update_group bg (\<lambda>g. g\<lparr>bg_used_dirs_count := bg_used_dirs_count g + 1\<rparr>) s;
               ext2_write_inode dev (drive_index s) parent_ino (parent\<lparr>i_links_count := i_links_count parent + 1\<rparr>) s
             }
         }
       }
     }
   }"

definition ext2_mkdir :: "device \<Rightarrow> u8 list \<Rightarrow> u32 \<Rightarrow> ext2_state \<Rightarrow> (bool \<times> ext2_state) option" where
  "ext2_mkdir dev path mode s =
     (if \<not> mounted s then Some (False, s)
      else do {
        (ok, s) \<leftarrow> create_file dev (drive_index s) path mode EXT2_FT_DIR s;
        if \<not> ok then Some (False, s)
        else do {
          (ino, s) \<leftarrow> ext2_lookup_path dev (drive_index s) path s;
          if ino = 0 then Some (False, s)
          else do {
            norm_path \<leftarrow> ext2_normalize_path path s;
            case split_path norm_path of
              None \<Rightarrow> Some (False, s)
            | Some (dir_path, _) \<Rightarrow> do {
                (parent_ino, s) \<leftarrow> ext2_lookup_path dev (drive_index s) dir_path s;
                if parent_ino = 0 then Some (False, s)
                else do {
                  (inode, s) \<leftarrow> ext2_read_inode dev (drive_index s) ino s;
                  case inode of
                    None \<Rightarrow> Some (False, s)
                  | Some inode \<Rightarrow> mkdir_block dev ino parent_ino inode s
                }
              }
          }
        }
      })"

section \<open>Open and close\<close>

definition EXT2_O_WRONLY :: u32 where "EXT2_O_WRONLY = 0x0002"
definition EXT2_O_RDWR :: u32 where "EXT2_O_RDWR = 0x0003"
definition EXT2_O_CREAT :: u32 where "EXT2_O_CREAT = 0x0100"

fun free_handle :: "ext2_file_t list \<Rightarrow> nat \<Rightarrow> nat option" where
  "free_handle [] i = None"
| "free_handle (f # fs) i = (if \<not> is_open f then Some i else free_handle fs (Suc i))"

text \<open>The inode of a path, created if the flags ask for it; 0 on failure.\<close>

definition open_inode :: "device \<Rightarrow> u8 list \<Rightarrow> u32 \<Rightarrow> ext2_state \<Rightarrow> (u32 \<times> ext2_state) option" where
  "open_inode dev path flags s = do {
     (inode_no, s) \<leftarrow> ext2_lookup_path dev (drive_index s) path s;
     if inode_no = 0 \<and> flags AND EXT2_O_CREAT \<noteq> 0
     then do {
       (ok, s) \<leftarrow> create_file dev (drive_index s) path 0x1A4 EXT2_FT_REG_FILE s;
       if \<not> ok then Some (0, s) else ext2_lookup_path dev (drive_index s) path s
     }
     else Some (inode_no, s)
   }"

definition ext2_open :: "device \<Rightarrow> u8 list \<Rightarrow> u32 \<Rightarrow> ext2_state \<Rightarrow> (int \<times> ext2_state) option" where
  "ext2_open dev path flags s =
     (if \<not> mounted s then Some (- 1, s)
      else case free_handle (open_files s) 0 of
        None \<Rightarrow> Some (- 1, s)
      | Some fd \<Rightarrow> do {
          (inode_no, s) \<leftarrow> open_inode dev path flags s;
          if inode_no = 0 then Some (- 1, s)
          else do {
            (inode, s) \<leftarrow> ext2_read_inode dev (drive_index s) inode_no s;
            case inode of
              None \<Rightarrow> Some (- 1, s)
            | Some inode \<Rightarrow>
                if EXT2_S_ISDIR (i_mode inode) \<and> flags AND (EXT2_O_WRONLY OR EXT2_O_RDWR) \<noteq> 0 then Some (- 1, s)
                else Some (int fd, s\<lparr>open_files := (open_files s)[fd :=
                       \<lparr>inode_num = inode_no, file_inode = inode, file_flags = flags, position = 0, is_open = True\<rparr>]\<rparr>)
          }
        })"

definition bad_handle :: "int \<Rightarrow> ext2_state \<Rightarrow> bool" where
  "bad_handle fd s \<longleftrightarrow> \<not> mounted s \<or> fd < 0 \<or> int EXT2_MAX_FILES \<le> fd \<or> \<not> is_open (open_files s ! nat fd)"

definition ext2_close :: "int \<Rightarrow> ext2_state \<Rightarrow> bool \<times> ext2_state" where
  "ext2_close fd s =
     (if bad_handle fd s then (False, s)
      else (True, s\<lparr>open_files := (open_files s)[nat fd := (open_files s ! nat fd)\<lparr>is_open := False\<rparr>]\<rparr>))"

section \<open>Reading and writing\<close>

text \<open>The bytes that are copied to the buffer of the caller, from block \<open>start_block\<close> on.\<close>

partial_function (option) file_read_loop ::
  "device \<Rightarrow> ext2_inode_t \<Rightarrow> u32 \<Rightarrow> u32 \<Rightarrow> u64 \<Rightarrow> ext2_state \<Rightarrow> (u8 list \<times> ext2_state) option" where
  "file_read_loop dev inode start_block block_offset remaining s =
     (if 0 < remaining
      then do {
        (block_no, s) \<leftarrow> get_block_from_inode dev inode start_block s;
        if block_no = 0 then Some ([], s)
        else do {
          (ok, s) \<leftarrow> read_io dev (drive_index s) block_no s;
          if \<not> ok then Some ([], s)
          else do {
            let to_copy = min (ucast (block_size s - block_offset)) remaining;
            bs \<leftarrow> io_get (unat block_offset) (unat to_copy) s;
            (bs', s) \<leftarrow> file_read_loop dev inode (start_block + 1) 0 (remaining - to_copy) s;
            Some (bs @ bs', s)
          }
        }
      }
      else Some ([], s))"

definition update_file :: "int \<Rightarrow> (ext2_file_t \<Rightarrow> ext2_file_t) \<Rightarrow> ext2_state \<Rightarrow> ext2_state" where
  "update_file fd f s = s\<lparr>open_files := (open_files s)[nat fd := f (open_files s ! nat fd)]\<rparr>"

definition ext2_read ::
  "device \<Rightarrow> int \<Rightarrow> bool \<Rightarrow> u64 \<Rightarrow> ext2_state \<Rightarrow> (int \<times> u8 list \<times> ext2_state) option" where
  "ext2_read dev fd buffer_null sz s =
     (if buffer_null \<or> bad_handle fd s then Some (- 1, [], s)
      else
      let file = open_files s ! nat fd; inode = file_inode file; pos = position file
      in if file_flags file AND EXT2_O_WRONLY \<noteq> 0 \<and> file_flags file AND EXT2_O_RDWR = 0 then Some (- 1, [], s)
      else if ucast (i_size inode) \<le> pos then Some (0, [], s)
      else do {
        let sz = (if ucast (i_size inode) < pos + sz then ucast (i_size inode) - pos else sz);
        let b = (ucast (block_size s) :: u64);
        if b = 0 then None
        else do {
          (bs, s) \<leftarrow> file_read_loop dev inode (ucast (pos div b)) (ucast (pos mod b)) sz s;
          let s = update_file fd (\<lambda>f. f\<lparr>position := pos + of_nat (length bs), file_inode := inode\<lparr>i_atime := 0\<rparr>\<rparr>) s;
          (_, s) \<leftarrow> ext2_write_inode dev (drive_index s) (inode_num file) (inode\<lparr>i_atime := 0\<rparr>) s;
          Some (int (length bs), bs, s)
        }
      })"

text \<open>A block for a position of the file that has none; the first component is 0 where the loop ends.\<close>

definition new_file_block ::
  "device \<Rightarrow> ext2_inode_t \<Rightarrow> u32 \<Rightarrow> ext2_state \<Rightarrow> (u32 \<times> ext2_inode_t \<times> ext2_state) option" where
  "new_file_block dev inode start_block s = do {
     (block_no, s) \<leftarrow> ext2_allocate_block dev (drive_index s) s;
     if block_no = 0 then Some (0, inode, s)
     else do {
       s \<leftarrow> io_clear s;
       (_, s) \<leftarrow> write_io dev (drive_index s) block_no s;
       (ok, inode, s) \<leftarrow> set_block_in_inode dev inode start_block block_no s;
       if \<not> ok then Some (0, inode, s)
       else Some (block_no, inode\<lparr>i_blocks := i_blocks inode + block_size s div 512\<rparr>, s)
     }
   }"

text \<open>The number of bytes written, and the inode with the blocks that were added.\<close>

partial_function (option) file_write_loop ::
  "device \<Rightarrow> u8 list \<Rightarrow> ext2_inode_t \<Rightarrow> u32 \<Rightarrow> u32 \<Rightarrow> u64 \<Rightarrow> u64 \<Rightarrow> ext2_state \<Rightarrow> (u64 \<times> ext2_inode_t \<times> ext2_state) option" where
  "file_write_loop dev buf inode start_block block_offset bytes_written remaining s =
     (if 0 < remaining
      then do {
        (block_no, s) \<leftarrow> get_block_from_inode dev inode start_block s;
        (block_no, inode, s) \<leftarrow> (if block_no = 0 then new_file_block dev inode start_block s else Some (block_no, inode, s));
        if block_no = 0 then Some (bytes_written, inode, s)
        else do {
          (ok, s) \<leftarrow> (if 0 < block_offset \<or> remaining < ucast (block_size s)
                     then read_io dev (drive_index s) block_no s else Some (True, s));
          if \<not> ok then Some (bytes_written, inode, s)
          else do {
            let to_copy = min (ucast (block_size s - block_offset)) remaining;
            bs \<leftarrow> get_bytes buf (unat bytes_written) (unat to_copy);
            s \<leftarrow> io_put (unat block_offset) bs s;
            (ok, s) \<leftarrow> write_io dev (drive_index s) block_no s;
            if \<not> ok then Some (bytes_written, inode, s)
            else file_write_loop dev buf inode (start_block + 1) 0 (bytes_written + to_copy) (remaining - to_copy) s
          }
        }
      }
      else Some (bytes_written, inode, s))"

definition ext2_write ::
  "device \<Rightarrow> int \<Rightarrow> u8 list option \<Rightarrow> u64 \<Rightarrow> ext2_state \<Rightarrow> (int \<times> ext2_state) option" where
  "ext2_write dev fd buffer sz s = (case buffer of
     None \<Rightarrow> Some (- 1, s)
   | Some buf \<Rightarrow>
     if bad_handle fd s then Some (- 1, s)
     else
     let file = open_files s ! nat fd; pos = position file
     in if file_flags file AND (EXT2_O_WRONLY OR EXT2_O_RDWR) = 0 then Some (- 1, s)
     else
     let b = (ucast (block_size s) :: u64)
     in if b = 0 then None
     else do {
       (n, inode, s) \<leftarrow> file_write_loop dev buf (file_inode file) (ucast (pos div b)) (ucast (pos mod b)) 0 sz s;
       let pos = pos + n;
       let inode = (if ucast (i_size inode) < pos then inode\<lparr>i_size := ucast pos\<rparr> else inode);
       let inode = inode\<lparr>i_mtime := 0\<rparr>;
       let s = update_file fd (\<lambda>f. f\<lparr>position := pos, file_inode := inode\<rparr>) s;
       (_, s) \<leftarrow> ext2_write_inode dev (drive_index s) (inode_num file) inode s;
       Some (uint n, s)
     })"

section \<open>Removing files and directories\<close>

text \<open>
  The loop over the entries of the block in \<open>io_buffer\<close>: the entry for the inode and the name is joined to
  the one before it, or marked as unused if it is the first. The result is whether it was found.
\<close>

function remove_in_block :: "u32 \<Rightarrow> u8 list \<Rightarrow> nat option \<Rightarrow> nat \<Rightarrow> ext2_state \<Rightarrow> (bool \<times> ext2_state) option" where
  "remove_in_block ino name prev off s =
     (if off < unat (block_size s)
      then do {
        rec_len \<leftarrow> entry_rec_len off s;
        if rec_len = 0 then Some (False, s)
        else do {
          entry_ino \<leftarrow> entry_inode off s;
          hit \<leftarrow> (if entry_ino = ino then entry_has_name off name s else Some False);
          if hit
          then (case prev of
                  Some p \<Rightarrow> do {
                    l \<leftarrow> entry_rec_len p s;
                    s \<leftarrow> io_put (p + 4) (le_bytes 2 (l + rec_len)) s;
                    Some (True, s)
                  }
                | None \<Rightarrow> do { s \<leftarrow> io_put off (le_bytes 4 (0 :: u32)) s; Some (True, s) })
          else remove_in_block ino name (Some off) (off + unat rec_len) s
        }
      }
      else Some (False, s))"
  by auto
termination
  by (relation "measure (\<lambda>(_, _, _, off, s). unat (block_size s) - off)")
    (auto simp: unat_gt_0 diff_less_mono2)

declare remove_in_block.simps [simp del]

partial_function (option) remove_loop ::
  "device \<Rightarrow> ext2_inode_t \<Rightarrow> u32 \<Rightarrow> u8 list \<Rightarrow> u32 \<Rightarrow> u32 \<Rightarrow> ext2_state \<Rightarrow> (bool \<times> ext2_state) option" where
  "remove_loop dev dir_inode ino name offset block_idx s =
     (if offset < i_size dir_inode
      then do {
        (block_no, s) \<leftarrow> get_block_from_inode dev dir_inode block_idx s;
        if block_no = 0 then Some (False, s)
        else do {
          (ok, s) \<leftarrow> read_io dev (drive_index s) block_no s;
          if \<not> ok then Some (False, s)
          else do {
            (found, s) \<leftarrow> remove_in_block ino name None 0 s;
            if found then write_io dev (drive_index s) block_no s
            else remove_loop dev dir_inode ino name (offset + block_size s) (block_idx + 1) s
          }
        }
      }
      else Some (False, s))"

text \<open>
  The inode of the directory and of its entry, for a normalised path; the entry's inode is 0 if one of
  them does not exist.
\<close>

definition find_in_parent :: "device \<Rightarrow> u8 list \<Rightarrow> u8 list \<Rightarrow> ext2_state \<Rightarrow> (u32 \<times> u32 \<times> ext2_state) option" where
  "find_in_parent dev dir_path name s = do {
     (dir_ino, s) \<leftarrow> ext2_lookup_path dev (drive_index s) dir_path s;
     if dir_ino = 0 then Some (0, 0, s)
     else do {
       (ino, s) \<leftarrow> find_file_in_dir dev (drive_index s) dir_ino name s;
       Some (dir_ino, ino, s)
     }
   }"

definition ext2_unlink :: "device \<Rightarrow> u8 list \<Rightarrow> ext2_state \<Rightarrow> (bool \<times> ext2_state) option" where
  "ext2_unlink dev path s =
     (if \<not> mounted s then Some (False, s)
      else do {
        norm_path \<leftarrow> ext2_normalize_path path s;
        case split_path norm_path of
          None \<Rightarrow> Some (False, s)
        | Some (dir_path, filename) \<Rightarrow> do {
            (dir_ino, file_ino, s) \<leftarrow> find_in_parent dev dir_path filename s;
            if file_ino = 0 then Some (False, s)
            else do {
              (inode, s) \<leftarrow> ext2_read_inode dev (drive_index s) file_ino s;
              case inode of
                None \<Rightarrow> Some (False, s)
              | Some inode \<Rightarrow>
                  if EXT2_S_ISDIR (i_mode inode) then Some (False, s)
                  else do {
                    (dir_inode, s) \<leftarrow> ext2_read_inode dev (drive_index s) dir_ino s;
                    case dir_inode of
                      None \<Rightarrow> Some (False, s)
                    | Some dir_inode \<Rightarrow> do {
                        (removed, s) \<leftarrow> remove_loop dev dir_inode file_ino filename 0 0 s;
                        if \<not> removed then Some (False, s)
                        else
                        let inode = inode\<lparr>i_links_count := i_links_count inode - 1\<rparr>;
                            inode = (if i_links_count inode = 0 then inode\<lparr>i_dtime := 0\<rparr> else inode)
                        in ext2_write_inode dev (drive_index s) file_ino inode s
                      }
                  }
            }
          }
      })"

text \<open>Whether the block in \<open>io_buffer\<close> has only unused entries and those for \<open>.\<close> and \<open>..\<close>, from an offset on.\<close>

definition is_dot_entry :: "nat \<Rightarrow> ext2_state \<Rightarrow> bool option" where
  "is_dot_entry off s = do {
     name_len \<leftarrow> entry_name_len off s;
     if name_len = 1 then do { c \<leftarrow> io_get (off + 8) 1 s; Some (c = [0x2E]) }
     else if name_len = 2 then do { c \<leftarrow> io_get (off + 8) 2 s; Some (c = [0x2E, 0x2E]) }
     else Some False
   }"

function empty_block :: "nat \<Rightarrow> ext2_state \<Rightarrow> bool option" where
  "empty_block off s =
     (if off < unat (block_size s)
      then do {
        rec_len \<leftarrow> entry_rec_len off s;
        if rec_len = 0 then Some True
        else do {
          ino \<leftarrow> entry_inode off s;
          dot \<leftarrow> (if ino \<noteq> 0 then is_dot_entry off s else Some True);
          if \<not> dot then Some False else empty_block (off + unat rec_len) s
        }
      }
      else Some True)"
  by auto
termination
  by (relation "measure (\<lambda>(off, s). unat (block_size s) - off)")
    (auto simp: unat_gt_0 diff_less_mono2)

declare empty_block.simps [simp del]

partial_function (option) empty_loop ::
  "device \<Rightarrow> ext2_inode_t \<Rightarrow> u32 \<Rightarrow> u32 \<Rightarrow> ext2_state \<Rightarrow> (bool \<times> ext2_state) option" where
  "empty_loop dev dir_inode offset block_idx s =
     (if offset < i_size dir_inode
      then do {
        (block_no, s) \<leftarrow> get_block_from_inode dev dir_inode block_idx s;
        if block_no = 0 then Some (True, s)
        else do {
          (ok, s) \<leftarrow> read_io dev (drive_index s) block_no s;
          if \<not> ok then Some (True, s)
          else do {
            e \<leftarrow> empty_block 0 s;
            if \<not> e then Some (False, s)
            else empty_loop dev dir_inode (offset + block_size s) (block_idx + 1) s
          }
        }
      }
      else Some (True, s))"

text \<open>An empty directory is taken out of its parent, and both inodes are written.\<close>

definition rmdir_remove ::
  "device \<Rightarrow> u32 \<Rightarrow> u32 \<Rightarrow> ext2_inode_t \<Rightarrow> u8 list \<Rightarrow> ext2_state \<Rightarrow> (bool \<times> ext2_state) option" where
  "rmdir_remove dev parent_ino dir_ino dir_inode dirname s = do {
     (parent, s) \<leftarrow> ext2_read_inode dev (drive_index s) parent_ino s;
     case parent of
       None \<Rightarrow> Some (False, s)
     | Some parent_inode \<Rightarrow> do {
         (removed, s) \<leftarrow> remove_loop dev parent_inode dir_ino dirname 0 0 s;
         if \<not> removed then Some (False, s)
         else do {
           bg \<leftarrow> checked_div (dir_ino - 1) (inodes_per_group s);
           s \<leftarrow> update_group bg (\<lambda>g. g\<lparr>bg_used_dirs_count := bg_used_dirs_count g - 1\<rparr>) s;
           (ok, s) \<leftarrow> ext2_write_inode dev (drive_index s) parent_ino
                       (parent_inode\<lparr>i_links_count := i_links_count parent_inode - 1\<rparr>) s;
           if \<not> ok then Some (False, s)
           else ext2_write_inode dev (drive_index s) dir_ino (dir_inode\<lparr>i_links_count := 0, i_dtime := 0\<rparr>) s
         }
       }
   }"

definition ext2_rmdir :: "device \<Rightarrow> u8 list \<Rightarrow> ext2_state \<Rightarrow> (bool \<times> ext2_state) option" where
  "ext2_rmdir dev path s =
     (if \<not> mounted s then Some (False, s)
      else do {
        norm_path \<leftarrow> ext2_normalize_path path s;
        case split_path norm_path of
          None \<Rightarrow> Some (False, s)
        | Some (parent_path, dirname) \<Rightarrow>
            if norm_path = [slash] then Some (False, s)
            else do {
              (parent_ino, dir_ino, s) \<leftarrow> find_in_parent dev parent_path dirname s;
              if dir_ino = 0 then Some (False, s)
              else do {
                (inode, s) \<leftarrow> ext2_read_inode dev (drive_index s) dir_ino s;
                case inode of
                  None \<Rightarrow> Some (False, s)
                | Some dir_inode \<Rightarrow>
                    if \<not> EXT2_S_ISDIR (i_mode dir_inode) then Some (False, s)
                    else do {
                      (is_empty, s) \<leftarrow> empty_loop dev dir_inode 0 0 s;
                      if \<not> is_empty then Some (False, s)
                      else rmdir_remove dev parent_ino dir_ino dir_inode dirname s
                    }
              }
            }
      })"

end
