(* ===== verification/Kernel_Calls.thy ===== *)
theory Kernel_Calls
  imports Ext2_File Task_Create
begin

text \<open>
  The state of the kernel as the system calls and the loader of files see it, and access to the memory
  of a caller. The file system and the memory managers share the one allocator of frames. A result
  \<open>None\<close> is a page fault, which halts the machine, or an access outside an object.
\<close>

section \<open>The state\<close>

text \<open>
  \<open>k_fs\<close> is the file system of \<open>ext2.c\<close>. \<open>k_ext2_fs\<close> is the object \<open>ext2_fs\<close> that \<open>syscalls.c\<close> defines, of
  the same type; the fields of the driver in it are not used. \<open>k_msr\<close> are the model specific registers.
\<close>

record kernel =
  k_sched :: sched_state
  k_fs :: ext2_state
  k_ext2_fs :: ext2_state
  k_msr :: "u32 \<Rightarrow> u64"

abbreviation k_vm :: "kernel \<Rightarrow> vmm_state" where
  "k_vm k \<equiv> vm (k_sched k)"

definition set_vm :: "vmm_state \<Rightarrow> kernel \<Rightarrow> kernel" where
  "set_vm v k = k\<lparr>k_sched := (k_sched k)\<lparr>vm := v\<rparr>\<rparr>"

text \<open>A call of the file system, with the frames that are free at the moment.\<close>

definition fs_call :: "(ext2_state \<Rightarrow> ('a \<times> ext2_state) option) \<Rightarrow> kernel \<Rightarrow> ('a \<times> kernel) option" where
  "fs_call f k = do {
     (r, s) \<leftarrow> f ((k_fs k)\<lparr>frames := pmm (k_vm k)\<rparr>);
     Some (r, set_vm ((k_vm k)\<lparr>pmm := frames s\<rparr>) (k\<lparr>k_fs := s\<rparr>))
   }"

definition read_call :: "device \<Rightarrow> int \<Rightarrow> u64 \<Rightarrow> kernel \<Rightarrow> ((int \<times> u8 list) \<times> kernel) option" where
  "read_call dev fd n = fs_call (\<lambda>s. map_option (\<lambda>(r, bs, s). ((r, bs), s)) (ext2_read dev fd False n s))"

definition close_call :: "int \<Rightarrow> kernel \<Rightarrow> (bool \<times> kernel) option" where
  "close_call fd = fs_call (\<lambda>s. Some (ext2_close fd s))"

section \<open>The memory of a caller\<close>

fun cpu_write :: "mmu \<Rightarrow> u64 \<Rightarrow> u8 list \<Rightarrow> vmm_state \<Rightarrow> vmm_state option" where
  "cpu_write mmu p [] v = Some v"
| "cpu_write mmu p (b # bs) v = do { v \<leftarrow> cpu_store mmu p b v; cpu_write mmu (p + 1) bs v }"

text \<open>A string, up to its terminator.\<close>

partial_function (option) cpu_string :: "mmu \<Rightarrow> u64 \<Rightarrow> vmm_state \<Rightarrow> u8 list option" where
  "cpu_string mmu p v = do {
     a \<leftarrow> mmu v p;
     if mem v a = 0 then Some [] else do { cs \<leftarrow> cpu_string mmu (p + 1) v; Some (mem v a # cs) }
   }"

text \<open>A buffer of \<open>n\<close> bytes that is read from, as far as it is mapped: whoever reads on faults.\<close>

definition cpu_buffer :: "mmu \<Rightarrow> u64 \<Rightarrow> nat \<Rightarrow> vmm_state \<Rightarrow> u8 list" where
  "cpu_buffer mmu p n v =
     map (cpu_mem mmu v) (takeWhile (\<lambda>a. mmu v a \<noteq> None) (map (\<lambda>i. p + of_nat i) [0..<n]))"

text \<open>Bytes are stored at a pointer of the caller.\<close>

definition copy_out :: "mmu \<Rightarrow> u64 \<Rightarrow> u8 list \<Rightarrow> kernel \<Rightarrow> kernel option" where
  "copy_out mmu p bs k = map_option (\<lambda>v. set_vm v k) (cpu_write mmu p bs (k_vm k))"

text \<open>\<open>strncpy(dest, src, n)\<close>: the bytes that are stored, for the bytes of \<open>src\<close> up to its terminator.\<close>

definition strncpy_bytes :: "u8 list \<Rightarrow> nat \<Rightarrow> u8 list" where
  "strncpy_bytes str n = take n str @ replicate (n - length str) 0"

end
