(* ===== verification/Syscalls.thy ===== *)
theory Syscalls
  imports Kernel_Calls
begin

text \<open>
  The system calls, \<open>src/kernel/src/core/exec/syscalls.c\<close> and \<open>syscalls.h\<close>. Log output is left out. A pointer
  of the caller is its address, and the memory behind it is reached through the processor's translation \<open>mmu\<close>.
\<close>

section \<open>Start\<close>

definition IA32_STAR :: u32 where "IA32_STAR = 0xC0000081"
definition IA32_LSTAR :: u32 where "IA32_LSTAR = 0xC0000082"
definition IA32_FMASK :: u32 where "IA32_FMASK = 0xC0000084"
definition IA32_EFER :: u32 where "IA32_EFER = 0xC0000080"

definition read_msr :: "u32 \<Rightarrow> kernel \<Rightarrow> u64" where
  "read_msr msr k = k_msr k msr"

definition write_msr :: "u32 \<Rightarrow> u64 \<Rightarrow> kernel \<Rightarrow> kernel" where
  "write_msr msr v k = k\<lparr>k_msr := (k_msr k)(msr := v)\<rparr>"

text \<open>The address of the entry point is the parameter.\<close>

definition syscalls_init :: "u64 \<Rightarrow> kernel \<Rightarrow> kernel" where
  "syscalls_init entry_addr k =
     (let star_value = push_bit 48 0x18 OR push_bit 32 0x08;
          k = write_msr IA32_STAR star_value k;
          k = write_msr IA32_LSTAR entry_addr k;
          k = write_msr IA32_FMASK (push_bit 9 1 OR push_bit 10 1) k;
          efer = read_msr IA32_EFER k
      in write_msr IA32_EFER (efer OR 1) k)"

section \<open>Files\<close>

definition sys_read :: "mmu \<Rightarrow> device \<Rightarrow> int \<Rightarrow> u64 \<Rightarrow> u64 \<Rightarrow> kernel \<Rightarrow> (int \<times> kernel) option" where
  "sys_read mmu dev fd buf count k =
     (if fd < 0 \<or> buf = NULL \<or> count = 0 then Some (- 1, k)
      else do {
        ((n, bs), k) \<leftarrow> read_call dev fd count k;
        k \<leftarrow> copy_out mmu buf bs k;
        Some (if n < 0 then - 1 else n, k)
      })"

definition sys_write :: "mmu \<Rightarrow> device \<Rightarrow> int \<Rightarrow> u64 \<Rightarrow> u64 \<Rightarrow> kernel \<Rightarrow> (int \<times> kernel) option" where
  "sys_write mmu dev fd buf count k =
     (if fd < 0 \<or> buf = NULL \<or> count = 0 then Some (- 1, k)
      else do {
        (n, k) \<leftarrow> fs_call (ext2_write dev fd (Some (cpu_buffer mmu buf (unat count) (k_vm k))) count) k;
        Some (if n < 0 then - 1 else n, k)
      })"

definition sys_open :: "mmu \<Rightarrow> device \<Rightarrow> u64 \<Rightarrow> u32 \<Rightarrow> kernel \<Rightarrow> (int \<times> kernel) option" where
  "sys_open mmu dev filename oflags k =
     (if filename = NULL then Some (- 1, k)
      else do {
        path \<leftarrow> cpu_string mmu filename (k_vm k);
        (fd, k) \<leftarrow> fs_call (ext2_open dev path oflags) k;
        Some (if fd < 0 then - 1 else fd, k)
      })"

definition sys_close :: "int \<Rightarrow> kernel \<Rightarrow> (int \<times> kernel) option" where
  "sys_close fd k =
     (if fd < 0 then Some (- 1, k)
      else do { (ok, k) \<leftarrow> close_call fd k; Some (if ok then 0 else - 1, k) })"

text \<open>\<open>ext2_fs.open_files[fd]\<close>\<close>

definition sys_file :: "int \<Rightarrow> kernel \<Rightarrow> ext2_file_t option" where
  "sys_file fd k =
     (if nat fd < length (open_files (k_ext2_fs k)) then Some (open_files (k_ext2_fs k) ! nat fd) else None)"

definition set_sys_file :: "int \<Rightarrow> ext2_file_t \<Rightarrow> kernel \<Rightarrow> kernel" where
  "set_sys_file fd f k = k\<lparr>k_ext2_fs := (k_ext2_fs k)\<lparr>open_files := (open_files (k_ext2_fs k))[nat fd := f]\<rparr>\<rparr>"

text \<open>
  The loop of \<open>sys_getdents\<close>. \<open>dent\<close> are the 263 bytes of the local \<open>ext2_dir_entry_t\<close>: what a read does not
  fill keeps its value. A read that fails does not end the loop.
\<close>

definition dirent_bytes :: "u8 list \<Rightarrow> u8 list" where
  "dirent_bytes dent =
     (let ino = (field dent 0 4 :: u32); rec_len = (field dent 4 2 :: u16)
      in le_bytes 8 (ucast ino :: u64) @ le_bytes 8 (ucast rec_len :: u64) @ le_bytes 2 rec_len)"

definition dirent_name :: "u8 list \<Rightarrow> u8 list" where
  "dirent_name dent =
     (let n = unat (field dent 6 1 :: u8)
      in strncpy_bytes (takeWhile (\<lambda>c. c \<noteq> 0) (take n (drop 8 dent))) n @ [0])"

partial_function (option) getdents_loop ::
  "mmu \<Rightarrow> device \<Rightarrow> int \<Rightarrow> u64 \<Rightarrow> u32 \<Rightarrow> u32 \<Rightarrow> u8 list \<Rightarrow> kernel \<Rightarrow> (u32 \<times> kernel) option" where
  "getdents_loop mmu dev fd dirp count bytes_read dent k =
     (if bytes_read < count
      then do {
        ((n, bs), k) \<leftarrow> read_call dev fd 263 k;
        if n = 0 then Some (bytes_read, k)
        else do {
          dent \<leftarrow> put_bytes dent 0 bs;
          if (field dent 0 4 :: u32) = 0 then getdents_loop mmu dev fd dirp count bytes_read dent k
          else do {
            let ldirp = dirp + ucast bytes_read;
            k \<leftarrow> copy_out mmu ldirp (dirent_bytes dent) k;
            k \<leftarrow> copy_out mmu (ldirp + 19) (dirent_name dent) k;
            getdents_loop mmu dev fd dirp count (bytes_read + ucast (field dent 4 2 :: u16)) dent k
          }
        }
      }
      else Some (bytes_read, k))"

definition sys_getdents :: "mmu \<Rightarrow> device \<Rightarrow> u8 list \<Rightarrow> int \<Rightarrow> u64 \<Rightarrow> u32 \<Rightarrow> kernel \<Rightarrow> (int \<times> kernel) option" where
  "sys_getdents mmu dev junk fd dirp count k =
     (if fd < 0 \<or> dirp = NULL \<or> count = 0 then Some (- 1, k)
      else do {
        f \<leftarrow> sys_file fd k;
        if \<not> is_open f \<or> \<not> EXT2_S_ISDIR (i_mode (file_inode f)) then Some (- 1, k)
        else do { (n, k) \<leftarrow> getdents_loop mmu dev fd dirp count 0 junk k; Some (uint n, k) }
      })"

definition sys_getcwd :: "mmu \<Rightarrow> u64 \<Rightarrow> u64 \<Rightarrow> kernel \<Rightarrow> (int \<times> kernel) option" where
  "sys_getcwd mmu buf sz k =
     (if buf = NULL \<or> sz = 0 then Some (- 1, k)
      else do {
        k \<leftarrow> copy_out mmu buf (strncpy_bytes (current_dir (k_ext2_fs k)) (unat sz)) k;
        k \<leftarrow> copy_out mmu (buf + sz - 1) [0] k;
        n \<leftarrow> cpu_strlen mmu buf 0 (k_vm k);
        Some (sint n, k)
      })"

definition sys_chdir :: "mmu \<Rightarrow> device \<Rightarrow> u64 \<Rightarrow> kernel \<Rightarrow> (int \<times> kernel) option" where
  "sys_chdir mmu dev path k =
     (if path = NULL then Some (- 1, k)
      else do {
        p \<leftarrow> cpu_string mmu path (k_vm k);
        let drive = drive_index (k_ext2_fs k);
        (ino, k) \<leftarrow> fs_call (ext2_lookup_path dev drive p) k;
        if ino = 0 then Some (- 1, k)
        else do {
          (inode, k) \<leftarrow> fs_call (ext2_read_inode dev drive ino) k;
          case inode of
            None \<Rightarrow> Some (- 1, k)
          | Some inode \<Rightarrow>
              if \<not> EXT2_S_ISDIR (i_mode inode) then Some (- 1, k)
              else Some (0, k\<lparr>k_ext2_fs := (k_ext2_fs k)\<lparr>current_dir := take (EXT2_MAX_PATH - 1) p\<rparr>\<rparr>)
        }
      })"

text \<open>\<open>struct stat\<close>, 13 numbers of 32 bits.\<close>

definition stat_bytes :: "ext2_file_t \<Rightarrow> u32 \<Rightarrow> u8 list" where
  "stat_bytes f bsize =
     concat (map (le_bytes 4) ([0, inode_num f, ucast (i_mode (file_inode f)), 0, 0, 0, 0, i_size (file_inode f),
       bsize, i_blocks (file_inode f), 0, 0, 0] :: u32 list))"

definition sys_fstat :: "mmu \<Rightarrow> int \<Rightarrow> u64 \<Rightarrow> kernel \<Rightarrow> (int \<times> kernel) option" where
  "sys_fstat mmu fd statbuf k =
     (if fd < 0 \<or> statbuf = NULL then Some (- 1, k)
      else do {
        f \<leftarrow> sys_file fd k;
        if \<not> is_open f then Some (- 1, k)
        else do { k \<leftarrow> copy_out mmu statbuf (stat_bytes f (block_size (k_ext2_fs k))) k; Some (0, k) }
      })"

definition SEEK_SET :: int where "SEEK_SET = 0"
definition SEEK_CUR :: int where "SEEK_CUR = 1"
definition SEEK_END :: int where "SEEK_END = 2"

definition sys_lseek :: "int \<Rightarrow> u64 \<Rightarrow> int \<Rightarrow> kernel \<Rightarrow> (int \<times> kernel) option" where
  "sys_lseek fd offset whence k =
     (if fd < 0 then Some (- 1, k)
      else do {
        f \<leftarrow> sys_file fd k;
        if \<not> is_open f then Some (- 1, k)
        else case (if whence = SEEK_SET then Some offset
                   else if whence = SEEK_CUR then Some (position f + offset)
                   else if whence = SEEK_END then Some (ucast (i_size (file_inode f)) + offset)
                   else None) of
          None \<Rightarrow> Some (- 1, k)
        | Some pos \<Rightarrow> Some (sint pos, set_sys_file fd (f\<lparr>position := pos\<rparr>) k)
      })"

definition path_call ::
  "mmu \<Rightarrow> (u8 list \<Rightarrow> ext2_state \<Rightarrow> (bool \<times> ext2_state) option) \<Rightarrow> u64 \<Rightarrow> kernel \<Rightarrow> (int \<times> kernel) option" where
  "path_call mmu f pathname k =
     (if pathname = NULL then Some (- 1, k)
      else do {
        path \<leftarrow> cpu_string mmu pathname (k_vm k);
        (ok, k) \<leftarrow> fs_call (f path) k;
        Some (if ok then 0 else - 1, k)
      })"

definition sys_mkdir :: "mmu \<Rightarrow> device \<Rightarrow> u64 \<Rightarrow> u32 \<Rightarrow> kernel \<Rightarrow> (int \<times> kernel) option" where
  "sys_mkdir mmu dev pathname mode k = path_call mmu (\<lambda>path. ext2_mkdir dev path mode) pathname k"

definition sys_rmdir :: "mmu \<Rightarrow> device \<Rightarrow> u64 \<Rightarrow> kernel \<Rightarrow> (int \<times> kernel) option" where
  "sys_rmdir mmu dev pathname k = path_call mmu (ext2_rmdir dev) pathname k"

definition sys_unlink :: "mmu \<Rightarrow> device \<Rightarrow> u64 \<Rightarrow> kernel \<Rightarrow> (int \<times> kernel) option" where
  "sys_unlink mmu dev pathname k = path_call mmu (ext2_unlink dev) pathname k"

section \<open>Memory\<close>

definition sys_brk :: "u64 \<Rightarrow> kernel \<Rightarrow> int \<times> kernel" where
  "sys_brk addr k =
     (let (new_brk, v) = vmm_allocate addr (VMM_FLAG_USER OR VMM_FLAG_WRITABLE) (k_vm k);
          k = set_vm v k
      in (if new_brk = NULL then - 1 else sint new_brk, k))"

definition sys_mmap :: "u64 \<Rightarrow> u64 \<Rightarrow> kernel \<Rightarrow> int \<times> kernel" where
  "sys_mmap addr len k =
     (if addr = NULL \<or> len = 0 then (- 1, k)
      else
      let (mapped_addr, v) = vmm_map_physical addr len (VMM_FLAG_USER OR VMM_FLAG_WRITABLE) (k_vm k);
          k = set_vm v k
      in (if mapped_addr = NULL then - 1 else sint mapped_addr, k))"

definition sys_munmap :: "u64 \<Rightarrow> u64 \<Rightarrow> kernel \<Rightarrow> int \<times> kernel" where
  "sys_munmap addr len k =
     (if addr = NULL \<or> len = 0 then (- 1, k)
      else (0, set_vm (vmm_unmap_physical addr len (k_vm k)) k))"

section \<open>Tasks\<close>

text \<open>
  How a system call ends: it returns, the processor continues in another task, or it waits for the
  lock of the scheduler for ever.
\<close>

datatype sys_result = SysReturn int kernel | SysSwitch kernel | SysDeadlock

definition sched_call :: "'a outcome \<Rightarrow> kernel \<Rightarrow> ('a \<Rightarrow> kernel \<Rightarrow> sys_result option) \<Rightarrow> sys_result option" where
  "sched_call r k f = (case r of
     Returns x s \<Rightarrow> f x (k\<lparr>k_sched := s\<rparr>)
   | Switches s \<Rightarrow> Some (SysSwitch (k\<lparr>k_sched := s\<rparr>))
   | Deadlock \<Rightarrow> Some SysDeadlock)"

definition sys_exit :: "u32 \<Rightarrow> kernel \<Rightarrow> sys_result option" where
  "sys_exit status k =
     (let yield = (\<lambda>k. sched_call (scheduler_yield (k_sched k)) k (\<lambda>_ k. Some (SysReturn 0 k)))
      in case scheduler_get_current_task (k_sched k) of
           None \<Rightarrow> yield k
         | Some t \<Rightarrow> sched_call (scheduler_terminate_task (tid (tsk (k_sched k) t)) status (k_sched k)) k (\<lambda>_. yield))"

definition sys_getpid :: "kernel \<Rightarrow> int" where
  "sys_getpid k = (case scheduler_get_current_task (k_sched k) of
     None \<Rightarrow> - 1 | Some t \<Rightarrow> uint (tid (tsk (k_sched k) t)))"

text \<open>The result is a \<open>uint32_t\<close>, so that its error value is 4294967295.\<close>

definition sys_fork :: "mmu \<Rightarrow> u64 \<Rightarrow> kernel \<Rightarrow> sys_result option" where
  "sys_fork mmu junk k =
     (let failed = SysReturn (uint (- 1 :: u32))
      in case scheduler_get_current_task (k_sched k) of
        None \<Rightarrow> Some (failed k)
      | Some c \<Rightarrow>
          let t = tsk (k_sched k) c
          in do {
            r \<leftarrow> scheduler_create_task mmu junk NULL 0 ''forked_task'' (base_priority t) (argc t) (argv t) (envp t) (k_sched k);
            sched_call r k (\<lambda>new_tid k.
              if new_tid = 0 then Some (failed k)
              else sched_call (scheduler_get_task_by_id new_tid (k_sched k)) k (\<lambda>n k. case n of
                  None \<Rightarrow> Some (failed k)
                | Some n \<Rightarrow>
                    Some (SysReturn (uint new_tid)
                      (k\<lparr>k_sched := upd n (\<lambda>x. x\<lparr>task_context := (task_context (tsk (k_sched k) c))\<lparr>rax := 0\<rparr>\<rparr>) (k_sched k)\<rparr>))))
          })"

definition sys_execve :: "u64 \<Rightarrow> u64 \<Rightarrow> u64 \<Rightarrow> kernel \<Rightarrow> sys_result option" where
  "sys_execve filename av ev k =
     (if filename = NULL then Some (SysReturn (- 1) k)
      else case scheduler_get_current_task (k_sched k) of
        None \<Rightarrow> Some (SysReturn (- 1) k)
      | Some t \<Rightarrow> sched_call (scheduler_execute_task (tid (tsk (k_sched k) t)) 0 av ev (k_sched k)) k
                    (\<lambda>ok k. Some (SysReturn (if ok then 0 else - 1) k)))"

partial_function (option) wait_loop :: "nat \<Rightarrow> sched_state \<Rightarrow> unit outcome option" where
  "wait_loop t s =
     (if state (tsk s t) \<noteq> TASK_STATE_TERMINATED
      then (case scheduler_yield s of
              Returns _ s \<Rightarrow> wait_loop t s
            | Switches s \<Rightarrow> Some (Switches s)
            | Deadlock \<Rightarrow> Some Deadlock)
      else Some (Returns () s))"

definition sys_waitpid :: "mmu \<Rightarrow> u32 \<Rightarrow> u64 \<Rightarrow> kernel \<Rightarrow> sys_result option" where
  "sys_waitpid mmu pid status k =
     (if sint pid < 0 \<or> status = NULL then Some (SysReturn (- 1) k)
      else sched_call (scheduler_get_task_by_id pid (k_sched k)) k (\<lambda>t k. case t of
          None \<Rightarrow> Some (SysReturn (- 1) k)
        | Some t \<Rightarrow> do {
            r \<leftarrow> wait_loop t (k_sched k);
            sched_call r k (\<lambda>_ k. do {
              k \<leftarrow> copy_out mmu status (le_bytes 4 (exit_code (tsk (k_sched k) t))) k;
              Some (SysReturn (sint pid) k)
            })
          }))"

section \<open>The handler\<close>

definition int_arg :: "u64 \<Rightarrow> int" where
  "int_arg a = sint (ucast a :: u32)"

text \<open>A call that does not go through the scheduler.\<close>

definition plain_call :: "(int \<times> kernel) option \<Rightarrow> sys_result option" where
  "plain_call r = map_option (\<lambda>(n, k). SysReturn n k) r"

text \<open>
  \<open>junk\<close> is the entry point that \<open>scheduler_create_task\<close> leaves unset, \<open>dirent\<close> the local buffer of
  \<open>sys_getdents\<close>.
\<close>

definition handle_syscall ::
  "mmu \<Rightarrow> device \<Rightarrow> u64 \<Rightarrow> u8 list \<Rightarrow> u64 \<Rightarrow> u64 \<Rightarrow> u64 \<Rightarrow> u64 \<Rightarrow> kernel \<Rightarrow> sys_result option" where
  "handle_syscall mmu dev junk dirent number arg1 arg2 arg3 k =
     (if number = 0 then plain_call (sys_read mmu dev (int_arg arg1) arg2 arg3 k)
      else if number = 1 then plain_call (sys_write mmu dev (int_arg arg1) arg2 arg3 k)
      else if number = 2 then plain_call (sys_open mmu dev arg1 (ucast arg2) k)
      else if number = 3 then plain_call (sys_close (int_arg arg1) k)
      else if number = 12 then plain_call (Some (sys_brk arg1 k))
      else if number = 60 then sys_exit (ucast arg1) k
      else if number = 39 then Some (SysReturn (sys_getpid k) k)
      else if number = 57 then sys_fork mmu junk k
      else if number = 59 then sys_execve arg1 arg2 arg3 k
      else if number = 61 then sys_waitpid mmu (ucast arg1) arg2 k
      else if number = 9 then plain_call (Some (sys_mmap arg1 arg2 k))
      else if number = 11 then plain_call (Some (sys_munmap arg1 arg2 k))
      else if number = 78 then plain_call (sys_getdents mmu dev dirent (int_arg arg1) arg2 (ucast arg3) k)
      else if number = 79 then plain_call (sys_getcwd mmu arg1 arg2 k)
      else if number = 80 then plain_call (sys_chdir mmu dev arg1 k)
      else if number = 5 then plain_call (sys_fstat mmu (int_arg arg1) arg2 k)
      else if number = 8 then plain_call (sys_lseek (int_arg arg1) arg2 (int_arg arg3) k)
      else if number = 83 then plain_call (sys_mkdir mmu dev arg1 (ucast arg2) k)
      else if number = 84 then plain_call (sys_rmdir mmu dev arg1 k)
      else if number = 87 then plain_call (sys_unlink mmu dev arg1 k)
      else Some (SysReturn (- 1) k))"

text \<open>
  The entry point calls the handler with the registers as the caller left them, except that \<open>r10\<close> is
  moved to \<open>rcx\<close>: the first parameter of the handler is \<open>rdi\<close>, the following ones \<open>rsi\<close>, \<open>rdx\<close> and \<open>rcx\<close>.
\<close>

definition syscall_entry :: "mmu \<Rightarrow> device \<Rightarrow> u64 \<Rightarrow> u8 list \<Rightarrow> cpu_context_t \<Rightarrow> kernel \<Rightarrow> sys_result option" where
  "syscall_entry mmu dev junk dirent regs k =
     handle_syscall mmu dev junk dirent (rdi regs) (rsi regs) (rdx regs) (r10 regs) k"

end
