(* ===== verification/Ext2_Frame.thy ===== *)
theory Ext2_Frame
  imports Ext2_File
begin

text \<open>
  The shape of the file system's state: which parts of it an operation leaves alone whatever the disk holds
  and however the device behaves. The rules for \<open>kept\<close> follow the structure of an operation, so that each proof
  is the application of them to the definition.
\<close>

section \<open>The frame\<close>

definition buffer_shape :: "(u64 \<times> u8 list) option \<Rightarrow> (u64 \<times> nat) option" where
  "buffer_shape b = map_option (\<lambda>(p, bs). (p, length bs)) b"

definition fs_frame :: "ext2_state \<Rightarrow> ext2_state \<Rightarrow> bool" where
  "fs_frame s s' \<longleftrightarrow> initialized s' = initialized s \<and> mounted s' = mounted s \<and> drive_index s' = drive_index s
     \<and> block_size s' = block_size s \<and> blocks_per_group s' = blocks_per_group s \<and> inodes_per_group s' = inodes_per_group s
     \<and> inode_size s' = inode_size s \<and> groups_count s' = groups_count s \<and> current_dir s' = current_dir s
     \<and> length (open_files s') = length (open_files s) \<and> length (cache s') = length (cache s)
     \<and> buffer_shape (io_buffer s') = buffer_shape (io_buffer s)
     \<and> map_option fst (superblock s') = map_option fst (superblock s)
     \<and> map_option (\<lambda>(p, gs). (p, length gs)) (group_descs s') = map_option (\<lambda>(p, gs). (p, length gs)) (group_descs s)"

lemma fs_frame_refl: "fs_frame s s"
  by (simp add: fs_frame_def)

lemma fs_frame_trans: "fs_frame s s1 \<Longrightarrow> fs_frame s1 s2 \<Longrightarrow> fs_frame s s2"
  by (simp add: fs_frame_def)

lemma fs_frame_update:
  assumes "fs_frame s s1"
  shows "fs_frame s (s1\<lparr>ata := a\<rparr>)" "fs_frame s (s1\<lparr>frames := q\<rparr>)"
    "length c = length (cache s1) \<Longrightarrow> fs_frame s (s1\<lparr>cache := c\<rparr>)"
    "fs_frame s (s1\<lparr>open_files := (open_files s1)[i := f]\<rparr>)"
    "fs_frame s (s1\<lparr>cache := (cache s1)[i := e]\<rparr>)"
  using assms by (simp_all add: fs_frame_def)

section \<open>Rules\<close>

definition third :: "'a \<times> 'b \<times> 'c \<Rightarrow> 'c" where
  "third y = snd (snd y)"

definition kept :: "('a \<Rightarrow> ext2_state) \<Rightarrow> ext2_state \<Rightarrow> 'a option \<Rightarrow> bool" where
  "kept p s r \<longleftrightarrow> (\<forall>y. r = Some y \<longrightarrow> fs_frame s (p y))"

named_theorems kept_rules \<open>operations that keep the frame\<close>

lemma kept_None: "kept p s None"
  by (simp add: kept_def)

lemma kept_Some:
  "fs_frame s s1 \<Longrightarrow> kept id s (Some s1)" "fs_frame s s1 \<Longrightarrow> kept snd s (Some (x, s1))"
  "fs_frame s s1 \<Longrightarrow> kept third s (Some (x, y, s1))"
  by (simp_all add: kept_def third_def)

lemma kept_if: "(c \<Longrightarrow> kept p s a) \<Longrightarrow> (\<not> c \<Longrightarrow> kept p s b) \<Longrightarrow> kept p s (if c then a else b)"
  by simp

lemma kept_bind:
  "kept id s r \<Longrightarrow> (\<And>s1. fs_frame s s1 \<Longrightarrow> r = Some s1 \<Longrightarrow> kept p s (f s1)) \<Longrightarrow> kept p s (r \<bind> f)"
  "kept snd s r2 \<Longrightarrow> (\<And>x s1. fs_frame s s1 \<Longrightarrow> r2 = Some (x, s1) \<Longrightarrow> kept p s (f2 x s1)) \<Longrightarrow> kept p s (r2 \<bind> (\<lambda>(x, s1). f2 x s1))"
  "kept third s r3 \<Longrightarrow> (\<And>x y s1. fs_frame s s1 \<Longrightarrow> r3 = Some (x, y, s1) \<Longrightarrow> kept p s (f3 x y s1))
    \<Longrightarrow> kept p s (r3 \<bind> (\<lambda>(x, y, s1). f3 x y s1))"
  by (auto simp: kept_def third_def split: bind_splits)

lemma kept_bind_value:
  "(\<And>y. r = Some y \<Longrightarrow> kept p s (f y)) \<Longrightarrow> kept p s (r \<bind> f)"
  by (auto simp: kept_def split: bind_splits)

lemma kept_case_option:
  "kept p s a \<Longrightarrow> (\<And>x. v = Some x \<Longrightarrow> kept p s (f x)) \<Longrightarrow> kept p s (case v of None \<Rightarrow> a | Some x \<Rightarrow> f x)"
  by (cases v) simp_all

lemma kept_case_prod: "(\<And>x y. v = (x, y) \<Longrightarrow> kept p s (f x y)) \<Longrightarrow> kept p s (case v of (x, y) \<Rightarrow> f x y)"
  by (cases v) simp

lemmas kept_steps = kept_None kept_Some kept_if kept_case_option kept_bind

section \<open>Blocks and the buffer\<close>

lemma frame_buffer: "fs_frame s s1 \<Longrightarrow> buffer_shape b = buffer_shape (io_buffer s1) \<Longrightarrow> fs_frame s (s1\<lparr>io_buffer := b\<rparr>)"
  by (simp add: fs_frame_def)

lemma cache_insert_kept: "fs_frame s s1 \<Longrightarrow> kept id s (cache_insert n bs s1)"
  unfolding cache_insert_def Let_def kept_def
  by (auto simp: page_put_def intro!: fs_frame_update split: option.splits bind_splits if_splits prod.splits)

lemma update_cached_length: "update_cached n bs es = Some es' \<Longrightarrow> length es' = length es"
  by (induction es arbitrary: es') (auto split: bind_splits if_splits)

lemma read_block_kept [kept_rules]: "fs_frame s s1 \<Longrightarrow> kept third s (ext2_read_block dev drive n b s1)"
  unfolding ext2_read_block_def Let_def
  by (intro kept_steps kept_case_prod kept_bind_value cache_insert_kept fs_frame_update; assumption)

lemma write_block_kept [kept_rules]: "fs_frame s s1 \<Longrightarrow> kept snd s (ext2_write_block dev drive n b s1)"
  unfolding ext2_write_block_def Let_def
  by (cases b) (auto simp: kept_def fs_frame_def dest: update_cached_length split: bind_splits if_splits)

lemma io_put_kept [kept_rules]: "fs_frame s s1 \<Longrightarrow> kept id s (io_put off bs s1)"
  by (auto simp: io_put_def kept_def buffer_shape_def dest: put_bytes_length intro!: frame_buffer split: option.splits)

lemma read_io_kept [kept_rules]:
  assumes "fs_frame s s1"
  shows "kept snd s (read_io dev drive n s1)"
  unfolding read_io_def
proof (intro kept_bind read_block_kept assms)
  fix ok bs s2 assume "fs_frame s s2"
  then show "kept snd s (case io_buffer s2 of None \<Rightarrow> Some (ok, s2)
     | Some (p, buf) \<Rightarrow> put_bytes buf 0 bs \<bind> (\<lambda>buf. Some (ok, s2\<lparr>io_buffer := Some (p, buf)\<rparr>)))"
    by (auto simp: kept_def buffer_shape_def dest!: put_bytes_length intro!: frame_buffer split: option.splits bind_splits)
qed

lemma write_io_kept [kept_rules]: "fs_frame s s1 \<Longrightarrow> kept snd s (write_io dev drive n s1)"
  unfolding write_io_def by (rule write_block_kept)

section \<open>Inodes and bitmaps\<close>

lemma update_group_kept [kept_rules]: "fs_frame s s1 \<Longrightarrow> kept id s (update_group bg f s1)"
  by (auto simp: kept_def update_group_def fs_frame_def split: option.splits if_splits)

lemma update_sb_kept [kept_rules]: "fs_frame s s1 \<Longrightarrow> kept id s (update_sb f s1)"
  by (auto simp: kept_def update_sb_def fs_frame_def)

lemma io_clear_kept [kept_rules]: "fs_frame s s1 \<Longrightarrow> kept id s (io_clear s1)"
  unfolding io_clear_def by (rule io_put_kept)

lemma read_inode_kept [kept_rules]: "fs_frame s s1 \<Longrightarrow> kept snd s (ext2_read_inode dev drive i s1)"
  unfolding ext2_read_inode_def
  by (intro kept_steps kept_rules kept_case_prod kept_bind_value; assumption)

lemma write_inode_kept [kept_rules]: "fs_frame s s1 \<Longrightarrow> kept snd s (ext2_write_inode dev drive i x s1)"
  unfolding ext2_write_inode_def
  by (intro kept_steps kept_rules kept_case_prod kept_bind_value; assumption)

text \<open>One pass over an operation, with the rules for its steps.\<close>

lemma kept_case_search:
  "kept p s a \<Longrightarrow> kept p s b \<Longrightarrow> (\<And>n. kept p s (f n)) \<Longrightarrow> kept p s (case r of Skip \<Rightarrow> a | Stop \<Rightarrow> b | Found n \<Rightarrow> f n)"
  by (cases r) simp_all

lemma kept_case_add:
  "kept p s a \<Longrightarrow> (\<And>n. kept p s (f n)) \<Longrightarrow> kept p s b \<Longrightarrow> kept p s (case r of Added \<Rightarrow> a | Full n \<Rightarrow> f n | Failed \<Rightarrow> b)"
  by (cases r) simp_all

lemmas kept_pass = kept_steps kept_case_search kept_case_add kept_case_prod kept_bind_value fs_frame_update

lemma io_set_bit_kept [kept_rules]: "fs_frame s s1 \<Longrightarrow> kept id s (io_set_bit n s1)"
  unfolding io_set_bit_def by (intro kept_rules kept_pass; assumption)

lemma take_bit_in_kept [kept_rules]: "fs_frame s s1 \<Longrightarrow> kept snd s (take_bit_in dev drive n s1)"
  unfolding take_bit_in_def by (intro kept_rules kept_pass; assumption)

lemma allocate_block_from_kept: "fs_frame s s1 \<Longrightarrow> kept snd s (allocate_block_from dev drive k bg s1)"
proof (induction k arbitrary: bg s1)
  case (Suc k)
  show ?case unfolding allocate_block_from.simps Let_def
    by (intro kept_rules Suc.IH kept_pass; (assumption | rule Suc.prems))
qed (simp add: kept_Some)

lemma allocate_block_kept [kept_rules]: "fs_frame s s1 \<Longrightarrow> kept snd s (ext2_allocate_block dev drive s1)"
  unfolding ext2_allocate_block_def by (intro kept_rules allocate_block_from_kept kept_pass; assumption)

lemma allocate_inode_from_kept: "fs_frame s s1 \<Longrightarrow> kept snd s (allocate_inode_from dev drive k bg s1)"
proof (induction k arbitrary: bg s1)
  case (Suc k)
  show ?case unfolding allocate_inode_from.simps Let_def
    by (intro kept_rules Suc.IH kept_pass; (assumption | rule Suc.prems))
qed (simp add: kept_Some)

lemma allocate_inode_kept [kept_rules]: "fs_frame s s1 \<Longrightarrow> kept snd s (ext2_allocate_inode dev drive s1)"
  unfolding ext2_allocate_inode_def by (intro kept_rules allocate_inode_from_kept kept_pass; assumption)

lemma follow_kept [kept_rules]: "fs_frame s s1 \<Longrightarrow> kept snd s (follow dev p is s1)"
proof (induction "is" arbitrary: p s1)
  case (Cons i "is")
  show ?case unfolding follow.simps by (intro kept_rules Cons.IH kept_pass; (assumption | rule Cons.prems))
qed (simp add: kept_Some)

lemma get_block_kept [kept_rules]: "fs_frame s s1 \<Longrightarrow> kept snd s (get_block_from_inode dev inode k s1)"
  unfolding get_block_from_inode_def Let_def by (intro kept_rules kept_pass; assumption)

lemma set_block_kept [kept_rules]: "fs_frame s s1 \<Longrightarrow> kept third s (set_block_in_inode dev inode k n s1)"
  unfolding set_block_in_inode_def Let_def by (intro kept_rules kept_pass; assumption)

section \<open>Directories\<close>

text \<open>Loops without a visible bound.\<close>

lemma keptI: "(\<And>y. r = Some y \<Longrightarrow> fs_frame s (p y)) \<Longrightarrow> kept p s r"
  by (simp add: kept_def)

lemma keptD: "kept p s r \<Longrightarrow> r = Some y \<Longrightarrow> fs_frame s (p y)"
  by (simp add: kept_def)

lemma kept_from: "kept p s1 r \<Longrightarrow> fs_frame s s1 \<Longrightarrow> kept p s r"
  by (auto simp: kept_def intro: fs_frame_trans)

lemma kept_hyp: "(\<And>y. r = Some y \<Longrightarrow> fs_frame s1 (p y)) \<Longrightarrow> fs_frame s s1 \<Longrightarrow> kept p s r"
  by (auto simp: kept_def intro: fs_frame_trans)

lemma find_dir_loop_kept [kept_rules]: "fs_frame s s1 \<Longrightarrow> kept snd s (find_dir_loop dev drive inode name off k s1)"
proof (rule kept_from, rule keptI)
  fix y assume y: "find_dir_loop dev drive inode name off k s1 = Some y"
  show "fs_frame s1 (snd y)"
    apply (rule find_dir_loop.raw_induct [where P = "\<lambda>_ _ _ _ _ _ s y. fs_frame s (snd y)", OF _ y])
    apply (erule keptD [rotated])
    by (intro kept_rules kept_pass fs_frame_refl; (assumption | blast intro: kept_hyp))
qed

lemma find_file_in_dir_kept [kept_rules]: "fs_frame s s1 \<Longrightarrow> kept snd s (find_file_in_dir dev drive i name s1)"
  unfolding find_file_in_dir_def by (intro kept_rules kept_pass; assumption)

lemma lookup_loop_kept: "fs_frame s s1 \<Longrightarrow> kept snd s (lookup_loop dev drive i c cs s1)"
proof (induction cs arbitrary: i c s1)
  case (Cons d cs)
  show ?case unfolding lookup_loop.simps by (intro kept_rules Cons.IH kept_pass; (assumption | rule Cons.prems))
next
  case Nil
  then show ?case unfolding lookup_loop.simps by (intro kept_rules kept_pass)
qed

lemma lookup_path_kept [kept_rules]: "fs_frame s s1 \<Longrightarrow> kept snd s (ext2_lookup_path dev drive path s1)"
  unfolding ext2_lookup_path_def by (intro kept_rules lookup_loop_kept kept_pass; assumption)

section \<open>Changing directories\<close>

lemma write_entry_kept [kept_rules]: "fs_frame s s1 \<Longrightarrow> kept id s (write_entry off i l name ty s1)"
  unfolding write_entry_def by (rule io_put_kept)

lemma add_in_block_kept [kept_rules]: "fs_frame s s1 \<Longrightarrow> kept snd s (add_in_block i name ty off s1)"
proof (induction "unat (block_size s1) - off" arbitrary: off rule: less_induct)
  case less
  have IH: "kept snd s (add_in_block i name ty (off + unat rec_len) s1)" if "off < unat (block_size s1)" "rec_len \<noteq> 0" for rec_len :: u16
    using that by (intro less.hyps less.prems) (simp add: unat_gt_0 diff_less_mono2)
  show ?case unfolding add_in_block.simps [of i name ty off s1] Let_def
    by (intro kept_rules IH kept_pass; (assumption | rule less.prems | simp))
qed

lemma add_dir_loop_kept [kept_rules]: "fs_frame s s1 \<Longrightarrow> kept snd s (add_dir_loop dev drive inode i name ty off k s1)"
proof (rule kept_from, rule keptI)
  fix y assume y: "add_dir_loop dev drive inode i name ty off k s1 = Some y"
  show "fs_frame s1 (snd y)"
    apply (rule add_dir_loop.raw_induct [where P = "\<lambda>_ _ _ _ _ _ _ _ s y. fs_frame s (snd y)", OF _ y])
    apply (erule keptD [rotated])
    by (intro kept_rules kept_pass fs_frame_refl; (assumption | blast intro: kept_hyp))
qed

lemma add_dir_block_kept [kept_rules]: "fs_frame s s1 \<Longrightarrow> kept snd s (add_dir_block dev drive d inode i name ty k s1)"
  unfolding add_dir_block_def by (intro kept_rules kept_pass; assumption)

lemma add_dir_entry_kept [kept_rules]: "fs_frame s s1 \<Longrightarrow> kept snd s (add_dir_entry dev drive d name i ty s1)"
  unfolding add_dir_entry_def by (intro kept_rules kept_pass; assumption)

lemma create_file_kept [kept_rules]: "fs_frame s s1 \<Longrightarrow> kept snd s (create_file dev drive path mode ty s1)"
  unfolding create_file_def Let_def by (intro kept_rules kept_pass; assumption)

lemma create_device_kept [kept_rules]: "fs_frame s s1 \<Longrightarrow> kept snd s (ext2_create_device dev drive path mode no s1)"
  unfolding ext2_create_device_def by (intro kept_rules kept_pass; assumption)

lemma mkdir_block_kept [kept_rules]: "fs_frame s s1 \<Longrightarrow> kept snd s (mkdir_block dev i p inode s1)"
  unfolding mkdir_block_def Let_def by (intro kept_rules kept_pass; assumption)

lemma mkdir_kept [kept_rules]: "fs_frame s s1 \<Longrightarrow> kept snd s (ext2_mkdir dev path mode s1)"
  unfolding ext2_mkdir_def by (intro kept_rules kept_pass; assumption)

lemma remove_in_block_kept [kept_rules]: "fs_frame s s1 \<Longrightarrow> kept snd s (remove_in_block i name prev off s1)"
proof (induction "unat (block_size s1) - off" arbitrary: off prev rule: less_induct)
  case less
  have IH: "kept snd s (remove_in_block i name prev' (off + unat rec_len) s1)" if "off < unat (block_size s1)" "rec_len \<noteq> 0"
    for rec_len :: u16 and prev'
    using that by (intro less.hyps less.prems) (simp add: unat_gt_0 diff_less_mono2)
  show ?case unfolding remove_in_block.simps [of i name prev off s1]
    by (intro kept_rules IH kept_pass; (assumption | rule less.prems))
qed

lemma remove_loop_kept [kept_rules]: "fs_frame s s1 \<Longrightarrow> kept snd s (remove_loop dev inode i name off k s1)"
proof (rule kept_from, rule keptI)
  fix y assume y: "remove_loop dev inode i name off k s1 = Some y"
  show "fs_frame s1 (snd y)"
    apply (rule remove_loop.raw_induct [where P = "\<lambda>_ _ _ _ _ _ s y. fs_frame s (snd y)", OF _ y])
    apply (erule keptD [rotated])
    by (intro kept_rules kept_pass fs_frame_refl; (assumption | blast intro: kept_hyp))
qed

lemma find_in_parent_kept [kept_rules]: "fs_frame s s1 \<Longrightarrow> kept third s (find_in_parent dev d name s1)"
  unfolding find_in_parent_def by (intro kept_rules kept_pass; assumption)

lemma unlink_kept [kept_rules]: "fs_frame s s1 \<Longrightarrow> kept snd s (ext2_unlink dev path s1)"
  unfolding ext2_unlink_def Let_def by (intro kept_rules kept_pass; assumption)

lemma empty_loop_kept [kept_rules]: "fs_frame s s1 \<Longrightarrow> kept snd s (empty_loop dev inode off k s1)"
proof (rule kept_from, rule keptI)
  fix y assume y: "empty_loop dev inode off k s1 = Some y"
  show "fs_frame s1 (snd y)"
    apply (rule empty_loop.raw_induct [where P = "\<lambda>_ _ _ _ s y. fs_frame s (snd y)", OF _ y])
    apply (erule keptD [rotated])
    by (intro kept_rules kept_pass fs_frame_refl; (assumption | blast intro: kept_hyp))
qed

lemma rmdir_remove_kept [kept_rules]: "fs_frame s s1 \<Longrightarrow> kept snd s (rmdir_remove dev p d inode name s1)"
  unfolding rmdir_remove_def by (intro kept_rules kept_pass; assumption)

lemma rmdir_kept [kept_rules]: "fs_frame s s1 \<Longrightarrow> kept snd s (ext2_rmdir dev path s1)"
  unfolding ext2_rmdir_def by (intro kept_rules kept_pass; assumption)

section \<open>Handles\<close>

lemma open_inode_kept [kept_rules]: "fs_frame s s1 \<Longrightarrow> kept snd s (open_inode dev path fl s1)"
  unfolding open_inode_def by (intro kept_rules kept_pass; assumption)

lemma open_kept [kept_rules]: "fs_frame s s1 \<Longrightarrow> kept snd s (ext2_open dev path fl s1)"
  unfolding ext2_open_def by (intro kept_rules kept_pass; assumption)

lemma close_frame: "fs_frame s s1 \<Longrightarrow> fs_frame s (snd (ext2_close fd s1))"
  by (simp add: ext2_close_def fs_frame_update)

lemma update_file_frame: "fs_frame s s1 \<Longrightarrow> fs_frame s (update_file fd f s1)"
  by (simp add: update_file_def fs_frame_update)

lemma file_read_loop_kept [kept_rules]: "fs_frame s s1 \<Longrightarrow> kept snd s (file_read_loop dev inode k off r s1)"
proof (rule kept_from, rule keptI)
  fix y assume y: "file_read_loop dev inode k off r s1 = Some y"
  show "fs_frame s1 (snd y)"
    apply (rule file_read_loop.raw_induct [where P = "\<lambda>_ _ _ _ _ s y. fs_frame s (snd y)", OF _ y])
    apply (erule keptD [rotated])
    unfolding Let_def by (intro kept_rules kept_pass fs_frame_refl; (assumption | blast intro: kept_hyp))
qed

lemma read_kept [kept_rules]: "fs_frame s s1 \<Longrightarrow> kept third s (ext2_read dev fd b n s1)"
  unfolding ext2_read_def Let_def by (intro kept_rules kept_pass update_file_frame; assumption)

lemma new_file_block_kept [kept_rules]: "fs_frame s s1 \<Longrightarrow> kept third s (new_file_block dev inode k s1)"
  unfolding new_file_block_def by (intro kept_rules kept_pass; assumption)

lemma file_write_loop_kept [kept_rules]: "fs_frame s s1 \<Longrightarrow> kept third s (file_write_loop dev buf inode k off w r s1)"
proof (rule kept_from, rule keptI)
  fix y assume y: "file_write_loop dev buf inode k off w r s1 = Some y"
  show "fs_frame s1 (third y)"
    apply (rule file_write_loop.raw_induct [where P = "\<lambda>_ _ _ _ _ _ _ s y. fs_frame s (third y)", OF _ y])
    apply (erule keptD [rotated])
    unfolding Let_def by (intro kept_rules kept_pass fs_frame_refl; (assumption | blast intro: kept_hyp))
qed

lemma write_kept [kept_rules]: "fs_frame s s1 \<Longrightarrow> kept snd s (ext2_write dev fd b n s1)"
  unfolding ext2_write_def Let_def by (intro kept_rules kept_pass update_file_frame; assumption)

section \<open>Starting, mounting and unmounting\<close>

text \<open>
  The types of the fields that the C declarations give: 64 handles, 32 cache entries, a buffer of two pages,
  and a current directory, the root as there is no call to change it; on a mounted file system the pointers
  to the superblock and the group descriptors are set and the numbers the code divides by are not 0.
\<close>

definition ext2_wf :: "ext2_state \<Rightarrow> bool" where
  "ext2_wf s \<longleftrightarrow> length (open_files s) = EXT2_MAX_FILES \<and> length (cache s) = EXT2_CACHE_SIZE
     \<and> (case io_buffer s of None \<Rightarrow> \<not> initialized s | Some (_, buf) \<Rightarrow> length buf = 8192)
     \<and> (initialized s \<longrightarrow> current_dir s = [slash])
     \<and> (mounted s \<longrightarrow> initialized s \<and> superblock s \<noteq> None \<and> group_descs s \<noteq> None
          \<and> block_size s \<noteq> 0 \<and> blocks_per_group s \<noteq> 0 \<and> inode_size s \<noteq> 0)"

lemma ext2_wf_frame:
  assumes "ext2_wf s" and "fs_frame s s'"
  shows "ext2_wf s'"
proof -
  have "buffer_shape (io_buffer s') = buffer_shape (io_buffer s)"
    "map_option fst (superblock s') = map_option fst (superblock s)"
    "map_option (\<lambda>(p, gs). (p, length gs)) (group_descs s') = map_option (\<lambda>(p, gs). (p, length gs)) (group_descs s)"
    using assms(2) by (simp_all add: fs_frame_def)
  then have "io_buffer s' = None \<longleftrightarrow> io_buffer s = None" "superblock s' = None \<longleftrightarrow> superblock s = None"
    "group_descs s' = None \<longleftrightarrow> group_descs s = None"
    "\<And>p buf. io_buffer s' = Some (p, buf) \<Longrightarrow> \<exists>buf'. io_buffer s = Some (p, buf') \<and> length buf' = length buf"
    by (auto simp: buffer_shape_def map_option_case split: option.splits)
  then show ?thesis using assms by (auto simp: ext2_wf_def fs_frame_def split: option.splits) 
qed

lemma ext2_init_wf:
  assumes "\<not> mounted s" and "\<not> initialized s" and "\<And>p. length (junk p) = 8192"
  shows "ext2_wf (snd (ext2_init junk s))"
  using assms by (auto simp: ext2_init_def zero_fs_def ext2_wf_def Let_def split: prod.splits)

lemma read_groups_kept [kept_rules]: "fs_frame s s1 \<Longrightarrow> kept third s (read_groups dev drive first k i s1)"
proof (induction k arbitrary: i s1)
  case (Suc k)
  show ?case unfolding read_groups.simps by (intro kept_rules kept_pass Suc; assumption)
qed (simp add: kept_def third_def)

lemma alloc_cache_entries:
  "alloc_cache es q = (es', q') \<Longrightarrow> list_all2 (\<lambda>e e'. c_valid e' = c_valid e \<and> (c_data e \<noteq> None \<longrightarrow> e' = e)) es es'"
  by (induction es arbitrary: q es' q') (auto simp: Let_def split: option.splits prod.splits)

lemma free_data_frame:
  "fs_frame s s1 \<Longrightarrow> fs_frame s (case d of None \<Rightarrow> s1 | Some (p, _) \<Rightarrow> s1\<lparr>frames := pmm_free_page p (frames s1)\<rparr>)"
  by (auto intro: fs_frame_update split: option.split)

lemma flush_cache_kept: "fs_frame s s1 \<Longrightarrow> kept id s (flush_cache dev k i s1)"
proof (induction k arbitrary: i s1)
  case (Suc k)
  show ?case unfolding flush_cache.simps Let_def
    by (intro kept_rules kept_pass(1-10) kept_case_prod kept_bind_value Suc(1) fs_frame_update(5) free_data_frame; (rule Suc(2) | assumption))
qed (simp add: kept_def)

lemma ext2_unmount_wf:
  assumes "ext2_wf s" and "ext2_unmount dev s = Some (r, s')"
  shows "ext2_wf s'"
proof (cases "mounted s")
  case True
  then obtain s1 where s1: "flush_cache dev EXT2_CACHE_SIZE 0 s = Some s1"
    using assms(2) by (auto simp: ext2_unmount_def split: bind_splits)
  have "ext2_wf s1" using ext2_wf_frame [OF assms(1)] keptD [OF flush_cache_kept [OF fs_frame_refl] s1] by simp
  then show ?thesis
    using assms(2) True s1 by (auto simp: ext2_unmount_def ext2_wf_def Let_def split: option.splits)
next
  case False
  then show ?thesis using assms by (simp add: ext2_unmount_def)
qed

text \<open>What a mount that has got as far as the group descriptors leaves.\<close>

lemma mount_groups_wf:
  assumes wf: "ext2_wf s" and sb: "superblock s \<noteq> None" and m: "initialized s" "\<not> mounted s" "block_size s \<noteq> 0" "blocks_per_group s \<noteq> 0" "inode_size s \<noteq> 0"
    and r: "mount_groups dev drive sbk sp s = Some (r, s')"
  shows "ext2_wf s'"
proof -
  obtain n where n: "checked_div (32 * groups_count s + block_size s - 1) (block_size s) = Some n"
    using r by (auto simp: mount_groups_def split: bind_splits)
  obtain p q where pq: "pmm_alloc_pages (ucast ((n * block_size s + 4095) div 4096)) (frames s) = (p, q)" by force
  show ?thesis
  proof (cases "p = NULL")
    case True
    then show ?thesis using r wf m by (auto simp: mount_groups_def n pq Let_def ext2_wf_def split: option.splits)
  next
    case False
    obtain ok bs s2 where g: "read_groups dev drive (s_first_data_block sbk + 1) (unat n) 0 (s\<lparr>frames := q\<rparr>) = Some (ok, bs, s2)"
      using r False by (auto simp: mount_groups_def n pq Let_def split: if_splits bind_splits)
    have f: "fs_frame s s2"
      using keptD [OF read_groups_kept [OF fs_frame_update(2) [OF fs_frame_refl]] g] by (simp add: third_def)
    then have "ext2_wf s2" by (rule ext2_wf_frame [OF wf])
    moreover obtain es q' where es: "alloc_cache (cache s2) (frames s2) = (es, q')" by force
    moreover have "length es = length (cache s2)" using alloc_cache_entries [OF es] by (simp add: list_all2_lengthD)
    moreover have "superblock s2 \<noteq> None" using f sb by (auto simp: fs_frame_def)
    ultimately show ?thesis
      using r False f m by (auto simp: mount_groups_def n pq g Let_def ext2_wf_def fs_frame_def split: if_splits option.splits)
  qed
qed

definition super_inode_size :: "ext2_superblock_t \<Rightarrow> u32" where
  "super_inode_size sb = (if 0 < s_inode_size sb then ucast (s_inode_size sb) else 128)"

definition super_groups :: "ext2_superblock_t \<Rightarrow> u32" where
  "super_groups sb = (s_blocks_count sb + s_blocks_per_group sb - 1) div s_blocks_per_group sb"

lemma super_inode_size_pos: "super_inode_size sb \<noteq> 0"
  using unsigned_less [of "s_inode_size sb", where ?'a = nat]
  by (auto simp: super_inode_size_def word_unat_eq_iff word_less_nat_alt unat_ucast_mod)

lemma set_parameters_eq:
  "set_parameters sb s = (if 31 < s_log_block_size sb \<or> s_blocks_per_group sb = 0 then None
     else Some (s\<lparr>block_size := push_bit (unat (s_log_block_size sb)) 1024, blocks_per_group := s_blocks_per_group sb,
       inodes_per_group := s_inodes_per_group sb, inode_size := super_inode_size sb, groups_count := super_groups sb\<rparr>))"
  by (simp add: set_parameters_def checked_div_def Let_def super_inode_size_def super_groups_def)

lemma mount_groups_block_size: "mount_groups dev drive sb sp s = Some y \<Longrightarrow> block_size s \<noteq> 0"
  by (auto simp: mount_groups_def checked_div_def split: bind_splits if_splits)

lemma ext2_mount_wf:
  assumes wf: "ext2_wf s" and r: "ext2_mount dev drive s = Some (r, s')"
  shows "ext2_wf s'"
proof (cases "initialized s \<and> \<not> mounted s \<and> ata_drive_present drive (ata s)")
  case True
  obtain p buf where buf: "io_buffer s = Some (p, buf)" "length buf = 8192"
    using wf True by (auto simp: ext2_wf_def split: option.splits)
  obtain ok bs a where rs: "read_sector dev drive 2 (ata s) = (ok, bs, a)" using prod_cases3 by blast
  obtain buf' where b': "put_bytes buf 0 bs = Some buf'" using r True buf rs by (auto simp: ext2_mount_def split: bind_splits)
  define s1 where "s1 = s\<lparr>drive_index := drive, ata := a, io_buffer := Some (p, buf')\<rparr>"
  have wf1: "ext2_wf s1"
    using wf True put_bytes_length [OF b'] buf(2) by (simp add: s1_def ext2_wf_def split: option.splits)
  define sb where "sb = superblock_of_bytes (take 1024 buf')"
  have g: "get_bytes buf' 0 1024 = Some (take 1024 buf')" using put_bytes_length [OF b'] buf(2) by (simp add: get_bytes_def)
  have r': "(if \<not> ok then Some (False, s1)
     else if s_magic sb \<noteq> EXT2_SUPER_MAGIC then Some (False, s1)
     else set_parameters sb s1 \<bind> (\<lambda>s. let (sp, q) = pmm_alloc_page (frames s); s = s\<lparr>frames := q\<rparr>
            in if sp = NULL then Some (False, s\<lparr>superblock := None\<rparr>)
               else mount_groups dev drive sb sp (s\<lparr>superblock := Some (sp, sb)\<rparr>))) = Some (r, s')"
    using r True unfolding ext2_mount_def by (simp add: buf rs b' g Let_def sb_def s1_def split del: if_split cong: if_cong)
  show ?thesis
  proof (cases "ok \<and> s_magic sb = EXT2_SUPER_MAGIC")
    case ok: True
    then obtain s2 where s2: "set_parameters sb s1 = Some s2" using r' by (auto split: bind_splits)
    obtain sp q where pq: "pmm_alloc_page (frames s2) = (sp, q)" by force
    have f: "s' = s2\<lparr>frames := q, superblock := None\<rparr> \<or> mount_groups dev drive sb sp (s2\<lparr>frames := q, superblock := Some (sp, sb)\<rparr>) = Some (r, s')"
      using r' ok s2 pq by (auto simp: Let_def split: if_splits)
    have i: "initialized s1" "\<not> mounted s1" using True by (simp_all add: s1_def)
    have w2: "ext2_wf (s2\<lparr>frames := q, superblock := x\<rparr>)" for x
      using s2 wf1 i by (auto simp: set_parameters_eq ext2_wf_def split: option.splits if_splits)
    show ?thesis using f
    proof
      assume m: "mount_groups dev drive sb sp (s2\<lparr>frames := q, superblock := Some (sp, sb)\<rparr>) = Some (r, s')"
      show ?thesis
        by (rule mount_groups_wf [OF w2 _ _ _ _ _ _ m])
          (use mount_groups_block_size [OF m] s2 i in \<open>auto simp: set_parameters_eq super_inode_size_pos split: if_splits\<close>)
    qed (simp add: w2)
  next
    case False
    then show ?thesis using r' wf1 by (auto split: if_splits)
  qed
next
  case False
  then show ?thesis using r wf by (auto simp: ext2_mount_def split: if_splits)
qed

section \<open>Property\<close>

text \<open>The calls of the file system, and the states that they lead to from its start.\<close>

datatype fs_op = Mount u8 | Unmount | Open "u8 list" u32 | Close int | Read int bool u64 | Write int "u8 list option" u64
  | Mkdir "u8 list" u32 | Rmdir "u8 list" | Unlink "u8 list" | Mknod u8 "u8 list" u32 u32

fun run_op :: "device \<Rightarrow> fs_op \<Rightarrow> ext2_state \<Rightarrow> ext2_state option" where
  "run_op dev (Mount drive) s = map_option snd (ext2_mount dev drive s)"
| "run_op dev Unmount s = map_option snd (ext2_unmount dev s)"
| "run_op dev (Open path fl) s = map_option snd (ext2_open dev path fl s)"
| "run_op dev (Close fd) s = Some (snd (ext2_close fd s))"
| "run_op dev (Read fd b n) s = map_option third (ext2_read dev fd b n s)"
| "run_op dev (Write fd b n) s = map_option snd (ext2_write dev fd b n s)"
| "run_op dev (Mkdir path mode) s = map_option snd (ext2_mkdir dev path mode s)"
| "run_op dev (Rmdir path) s = map_option snd (ext2_rmdir dev path s)"
| "run_op dev (Unlink path) s = map_option snd (ext2_unlink dev path s)"
| "run_op dev (Mknod drive path mode no) s = map_option snd (ext2_create_device dev drive path mode no s)"

inductive fs_reachable :: "device \<Rightarrow> ext2_state \<Rightarrow> bool" for dev where
  start: "\<not> mounted s \<Longrightarrow> \<not> initialized s \<Longrightarrow> (\<And>p. length (junk p) = 8192) \<Longrightarrow> fs_reachable dev (snd (ext2_init junk s))"
| call: "fs_reachable dev s \<Longrightarrow> run_op dev op s = Some s' \<Longrightarrow> fs_reachable dev s'"

lemma run_op_wf:
  assumes wf: "ext2_wf s" and r: "run_op dev op s = Some s'"
  shows "ext2_wf s'"
proof -
  have k: "ext2_wf (p y)" if "kept p s x" "x = Some y" for x y and p :: "'z \<Rightarrow> ext2_state"
    using ext2_wf_frame [OF wf] that by (simp add: kept_def)
  note rules = open_kept read_kept write_kept mkdir_kept rmdir_kept unlink_kept create_device_kept
  show ?thesis using r
    by (cases op) (auto intro: ext2_mount_wf [OF wf] ext2_unmount_wf [OF wf] ext2_wf_frame [OF wf close_frame [OF fs_frame_refl]]
      dest: k [OF rules(1) [OF fs_frame_refl]] k [OF rules(2) [OF fs_frame_refl]] k [OF rules(3) [OF fs_frame_refl]]
        k [OF rules(4) [OF fs_frame_refl]] k [OF rules(5) [OF fs_frame_refl]] k [OF rules(6) [OF fs_frame_refl]]
        k [OF rules(7) [OF fs_frame_refl]])
qed


end
