(* ===== verification/ATA_Disk.thy ===== *)
theory ATA_Disk
  imports ATA
begin

text \<open>
  The disk below the ATA driver. What the ATA standard says of a channel with its drives is an
  automaton over the port accesses; a device that behaves like it is a hypothesis of the theorems, and
  its latencies are a parameter. Under it the driver's transfers are reads and updates of the disk,
  which is the interface that the file system relies on.
\<close>

section \<open>The protocol\<close>

text \<open>
  A drive is idle, hands out the words of a read command, or takes the words of a sector of a write
  command: the address of that sector, the number of sectors left with it, and the words so far.
\<close>

datatype hd_mode = Idle | Reading "u16 list" | Writing nat nat "u16 list"

record hd =
  hd_sel :: u8
  hd_count :: u8
  hd_low :: u8
  hd_mid :: u8
  hd_high :: u8
  hd_busy :: nat
  hd_mode :: hd_mode
  hd_disk :: "bool \<Rightarrow> nat \<Rightarrow> u16 list"

definition hd_master :: "hd \<Rightarrow> bool" where
  "hd_master h \<longleftrightarrow> \<not> bit (hd_sel h) 4"

definition hd_lba :: "hd \<Rightarrow> nat" where
  "hd_lba h = unat (hd_low h) + 2 ^ 8 * unat (hd_mid h) + 2 ^ 16 * unat (hd_high h)
     + 2 ^ 24 * unat (hd_sel h AND 0x0F)"

definition hd_sectors :: "hd \<Rightarrow> nat" where
  "hd_sectors h = (if hd_count h = 0 then 256 else unat (hd_count h))"

text \<open>
  A command is taken when the drive is neither busy nor in the middle of a transfer, and ignored
  otherwise; then, and after every sector, the drive is busy for as many polls of its status as
  \<open>lat\<close> says.
\<close>

definition hd_command :: "(hd \<Rightarrow> nat) \<Rightarrow> u8 \<Rightarrow> hd \<Rightarrow> hd" where
  "hd_command lat v h =
     (if 0 < hd_busy h \<or> hd_mode h \<noteq> Idle then h
      else if v = 0x20
        then h\<lparr>hd_mode := Reading (concat (map (hd_disk h (hd_master h)) [hd_lba h..<hd_lba h + hd_sectors h])),
               hd_busy := lat h\<rparr>
      else if v = 0x30 then h\<lparr>hd_mode := Writing (hd_lba h) (hd_sectors h) [], hd_busy := lat h\<rparr>
      else h\<lparr>hd_busy := lat h\<rparr>)"

definition hd_take :: "(hd \<Rightarrow> nat) \<Rightarrow> hd \<Rightarrow> hd" where
  "hd_take lat h = (case hd_mode h of
     Reading (w # ws) \<Rightarrow>
       (if ws = [] then h\<lparr>hd_mode := Idle\<rparr>
        else if length ws mod 256 = 0 then h\<lparr>hd_mode := Reading ws, hd_busy := lat h\<rparr>
        else h\<lparr>hd_mode := Reading ws\<rparr>)
   | _ \<Rightarrow> h)"

definition hd_store :: "bool \<Rightarrow> nat \<Rightarrow> u16 list \<Rightarrow> (bool \<Rightarrow> nat \<Rightarrow> u16 list) \<Rightarrow> bool \<Rightarrow> nat \<Rightarrow> u16 list" where
  "hd_store m a ws D = D(m := (D m)(a := ws))"

definition hd_put :: "(hd \<Rightarrow> nat) \<Rightarrow> u16 \<Rightarrow> hd \<Rightarrow> hd" where
  "hd_put lat w h = (case hd_mode h of
     Writing a n ws \<Rightarrow>
       (if length ws < 255 then h\<lparr>hd_mode := Writing a n (ws @ [w])\<rparr>
        else h\<lparr>hd_disk := hd_store (hd_master h) a (ws @ [w]) (hd_disk h),
               hd_mode := (if n = 1 then Idle else Writing (Suc a) (n - 1) []), hd_busy := lat h\<rparr>)
   | _ \<Rightarrow> h)"

fun hd_step :: "(hd \<Rightarrow> nat) \<Rightarrow> u16 \<Rightarrow> io_event \<Rightarrow> hd \<Rightarrow> hd" where
  "hd_step lat b (Out8 p v) h =
     (if p = b + 2 then h\<lparr>hd_count := v\<rparr>
      else if p = b + 3 then h\<lparr>hd_low := v\<rparr>
      else if p = b + 4 then h\<lparr>hd_mid := v\<rparr>
      else if p = b + 5 then h\<lparr>hd_high := v\<rparr>
      else if p = b + 6 then h\<lparr>hd_sel := v\<rparr>
      else if p = b + 7 then hd_command lat v h
      else h)"
| "hd_step lat b (In8 p v) h = (if p = b + 7 then h\<lparr>hd_busy := hd_busy h - 1\<rparr> else h)"
| "hd_step lat b (In16 p v) h = (if p = b \<and> hd_busy h = 0 then hd_take lat h else h)"
| "hd_step lat b (Out16 p w) h = (if p = b \<and> hd_busy h = 0 then hd_put lat w h else h)"
| "hd_step lat b _ h = h"

definition hd_run :: "(hd \<Rightarrow> nat) \<Rightarrow> u16 \<Rightarrow> hd \<Rightarrow> io_trace \<Rightarrow> hd" where
  "hd_run lat b h tr = fold (hd_step lat b) tr h"

definition hd_status :: "hd \<Rightarrow> u8" where
  "hd_status h = (if 0 < hd_busy h then 0x80 else if hd_mode h = Idle then 0x40 else 0x48)"

text \<open>
  A device is such a channel: its status shows busy, ready, fault, data request and error as the
  automaton has them, and its data port the next word. A drive takes fewer polls than the driver waits.
\<close>

definition ata_channel :: "(hd \<Rightarrow> nat) \<Rightarrow> u16 \<Rightarrow> hd \<Rightarrow> device \<Rightarrow> bool" where
  "ata_channel lat b h0 dev \<longleftrightarrow>
     (\<forall>h. lat h < ATA_TIMEOUT)
     \<and> (\<forall>tr. dev8 dev tr (b + 7) AND 0xE9 = hd_status (hd_run lat b h0 tr))
     \<and> (\<forall>tr w ws. hd_busy (hd_run lat b h0 tr) = 0 \<longrightarrow> hd_mode (hd_run lat b h0 tr) = Reading (w # ws)
          \<longrightarrow> dev16 dev tr b = w)"

text \<open>The state between commands, with the disk it has.\<close>

definition hd_idle :: "hd \<Rightarrow> (bool \<Rightarrow> nat \<Rightarrow> u16 list) \<Rightarrow> bool" where
  "hd_idle h D \<longleftrightarrow> hd_mode h = Idle \<and> hd_busy h < ATA_TIMEOUT \<and> hd_disk h = D
     \<and> (\<forall>m a. length (D m a) = 256)"

lemma hd_run_append [simp]: "hd_run lat b h (tr @ tr') = hd_run lat b (hd_run lat b h tr) tr'"
  by (simp add: hd_run_def)

lemma hd_run_Nil [simp]: "hd_run lat b h [] = h"
  by (simp add: hd_run_def)

lemma hd_run_Cons [simp]: "hd_run lat b h (e # tr) = hd_run lat b (hd_step lat b e h) tr"
  by (simp add: hd_run_def)

section \<open>Waiting for the drive\<close>

lemma status_bits:
  assumes "s AND 0xE9 = (0x80 :: u8)"
  shows "s AND 0x80 \<noteq> 0" "s AND 0x01 = 0" "s \<noteq> 0" "s \<noteq> 0xFF" "s AND 0x20 = 0"
proof -
  have m: "0xE9 AND m = m \<Longrightarrow> s AND m = (s AND 0xE9) AND m" for m :: u8 by (simp add: and.assoc)
  from m [of "0x80"] m [of "0x01"] m [of "0x20"]
  show "s AND 0x80 \<noteq> 0" "s AND 0x01 = 0" "s AND 0x20 = 0" using assms by simp_all
  show "s \<noteq> 0" "s \<noteq> 0xFF" using assms by auto
qed

lemma status_ready_bits:
  assumes "s AND 0xE9 = (0x48 :: u8)"
  shows "s AND 0x80 = 0" "s AND 0x01 = 0" "s \<noteq> 0" "s \<noteq> 0xFF" "s AND 0x20 = 0" "s AND 0x08 \<noteq> 0"
proof -
  have m: "0xE9 AND m = m \<Longrightarrow> s AND m = (s AND 0xE9) AND m" for m :: u8 by (simp add: and.assoc)
  from m [of "0x80"] m [of "0x01"] m [of "0x20"] m [of "0x08"]
  show "s AND 0x80 = 0" "s AND 0x01 = 0" "s AND 0x20 = 0" "s AND 0x08 \<noteq> 0" using assms by simp_all
  show "s \<noteq> 0" "s \<noteq> 0xFF" using assms by auto
qed

lemma status_not_busy: "s AND 0xE9 = (0x40 :: u8) \<Longrightarrow> s AND 0x80 = 0"
proof -
  assume "s AND 0xE9 = 0x40"
  moreover have "s AND 0x80 = (s AND 0xE9) AND 0x80" by (simp add: and.assoc)
  ultimately show ?thesis by simp
qed

lemma hd_read_status:
  assumes "ata_channel lat b h0 dev"
  shows "fst (inb dev (b + 7) tr) AND 0xE9 = hd_status (hd_run lat b h0 tr)"
    "hd_run lat b h0 (snd (inb dev (b + 7) tr))
      = (hd_run lat b h0 tr)\<lparr>hd_busy := hd_busy (hd_run lat b h0 tr) - 1\<rparr>"
  using assms by (simp_all add: ata_channel_def inb_def Let_def)

lemma hd_busy_same: "hd_busy h = 0 \<Longrightarrow> h\<lparr>hd_busy := 0\<rparr> = h"
  by simp

lemma wait_not_busy_ends:
  assumes "ata_channel lat b h0 dev" and "hd_busy (hd_run lat b h0 tr) < n"
  shows "\<exists>tr'. ata_wait_not_busy dev (b + 7) n tr = (True, tr')
    \<and> hd_run lat b h0 tr' = (hd_run lat b h0 tr)\<lparr>hd_busy := 0\<rparr>"
  using assms(2)
proof (induction n arbitrary: tr)
  case (Suc n)
  note status = hd_read_status [OF assms(1), of tr]
  show ?case
  proof (cases "hd_busy (hd_run lat b h0 tr) = 0")
    case True
    have "fst (inb dev (b + 7) tr) AND 0x80 = 0"
      using status(1) True status_not_busy status_ready_bits(1) by (auto simp: hd_status_def split: if_splits)
    then show ?thesis using status(2) True by (auto simp: split_beta ATA_STATUS_BSY_def)
  next
    case False
    have "fst (inb dev (b + 7) tr) AND 0x80 \<noteq> 0"
      using status(1) False status_bits(1) by (simp add: hd_status_def)
    then show ?thesis using Suc.IH [of "snd (inb dev (b + 7) tr)"] Suc.prems status(2) False
      by (auto simp: split_beta ATA_STATUS_BSY_def)
  qed
qed simp

lemma wait_drq_ends:
  assumes "ata_channel lat b h0 dev" and "hd_busy (hd_run lat b h0 tr) < n" and "hd_mode (hd_run lat b h0 tr) \<noteq> Idle"
  shows "\<exists>tr'. ata_wait_drq dev (b + 7) n tr = (True, tr')
    \<and> hd_run lat b h0 tr' = (hd_run lat b h0 tr)\<lparr>hd_busy := 0\<rparr>"
  using assms(2,3)
proof (induction n arbitrary: tr)
  case (Suc n)
  note status = hd_read_status [OF assms(1), of tr]
  note bits = ATA_STATUS_BSY_def ATA_STATUS_DRQ_def ATA_STATUS_ERR_def ATA_STATUS_DF_def
  show ?case
  proof (cases "hd_busy (hd_run lat b h0 tr) = 0")
    case True
    have "fst (inb dev (b + 7) tr) AND 0xE9 = 0x48"
      using status(1) True Suc.prems(2) by (simp add: hd_status_def)
    from status_ready_bits [OF this] show ?thesis using status(2) True by (auto simp: split_beta bits)
  next
    case False
    have "fst (inb dev (b + 7) tr) AND 0xE9 = 0x80" using status(1) False by (simp add: hd_status_def)
    from status_bits [OF this] show ?thesis
      using Suc.IH [of "snd (inb dev (b + 7) tr)"] Suc.prems status(2) False by (auto simp: split_beta bits)
  qed
qed simp

section \<open>Transfers\<close>

lemma read_words_taken:
  assumes "ata_channel lat b h0 dev" and "hd_run lat b h0 tr = h" and "hd_busy h = 0"
    and "hd_mode h = Reading (us @ vs)" and "us \<noteq> []" and "length us \<le> 256" and "length vs mod 256 = 0"
  shows "\<exists>tr' d. read_words dev b (length us) tr = (us, tr') \<and> d < ATA_TIMEOUT
    \<and> hd_run lat b h0 tr' = h\<lparr>hd_mode := (if vs = [] then Idle else Reading vs), hd_busy := d\<rparr>"
  using assms(2-6)
proof (induction us arbitrary: tr h)
  case (Cons u us)
  define tr1 where "tr1 = tr @ [In16 b u]"
  have w: "inw dev b tr = (u, tr1)"
    using assms(1) Cons.prems by (simp add: ata_channel_def inw_def tr1_def)
  have r1: "hd_run lat b h0 tr1 = hd_take lat h" using Cons.prems(1,2) by (simp add: tr1_def)
  show ?case
  proof (cases us)
    case Nil
    obtain d where "d < ATA_TIMEOUT" "hd_take lat h = h\<lparr>hd_mode := (if vs = [] then Idle else Reading vs), hd_busy := d\<rparr>"
    proof (cases "vs = []")
      case True
      then have "hd_take lat h = h\<lparr>hd_mode := Idle, hd_busy := 0\<rparr>"
        using Cons.prems(2,3) Nil by (simp add: hd_take_def)
      with that [of 0] True show ?thesis by (simp add: ATA_TIMEOUT_def)
    next
      case False
      then show ?thesis using that [of "lat h"] Cons.prems(3) Nil assms(1,7)
        by (simp add: hd_take_def ata_channel_def)
    qed
    then show ?thesis using w r1 Nil by (auto simp: split_beta)
  next
    case (Cons u' us')
    have "length (us @ vs) mod 256 \<noteq> 0"
    proof -
      have "length (us @ vs) mod 256 = length us mod 256" using assms(7) by (simp add: mod_add_eq [symmetric])
      then show ?thesis using Cons.prems(5) Cons by simp
    qed
    then have "hd_take lat h = h\<lparr>hd_mode := Reading (us @ vs)\<rparr>"
      using Cons.prems(3) Cons by (simp add: hd_take_def)
    then have "\<exists>tr' d. read_words dev b (length us) tr1 = (us, tr') \<and> d < ATA_TIMEOUT
        \<and> hd_run lat b h0 tr' = (h\<lparr>hd_mode := Reading (us @ vs)\<rparr>)\<lparr>hd_mode := (if vs = [] then Idle else Reading vs), hd_busy := d\<rparr>"
      using r1 Cons.prems Cons by (intro Cons.IH) simp_all
    then show ?thesis using w by (auto simp: split_beta)
  qed
qed simp

lemma read_loop_taken:
  assumes "ata_channel lat b h0 dev" and "hd_run lat b h0 tr = h" and "hd_busy h < ATA_TIMEOUT"
    and "hd_mode h = (if ss = [] then Idle else Reading (concat ss))" and "\<forall>x\<in>set ss. length x = 256"
  shows "\<exists>tr' d. read_loop dev b (length ss) tr = (True, concat ss, tr') \<and> d < ATA_TIMEOUT
    \<and> hd_run lat b h0 tr' = h\<lparr>hd_mode := Idle, hd_busy := d\<rparr>"
  using assms(2-5)
proof (induction ss arbitrary: tr h)
  case Nil
  then show ?case by (auto intro!: exI [of _ "hd_busy h"])
next
  case (Cons x ss)
  have rest: "concat ss = [] \<longleftrightarrow> ss = []" using Cons.prems(4) by (cases ss) auto
  have len: "length (concat ss) mod 256 = 0" using Cons.prems(4) by (induction ss) (simp_all add: mod_add_eq [symmetric])
  obtain tr1 where 1: "ata_wait_drq dev (b + 7) ATA_TIMEOUT tr = (True, tr1)" "hd_run lat b h0 tr1 = h\<lparr>hd_busy := 0\<rparr>"
    using wait_drq_ends [OF assms(1), of tr ATA_TIMEOUT] Cons.prems by auto
  obtain tr2 d where 2: "read_words dev b 256 tr1 = (x, tr2)" "d < ATA_TIMEOUT"
    "hd_run lat b h0 tr2 = h\<lparr>hd_mode := (if ss = [] then Idle else Reading (concat ss)), hd_busy := d\<rparr>"
    using read_words_taken [OF assms(1) 1(2), of x "concat ss"] Cons.prems(3,4) len rest by force
  from Cons.IH [OF 2(3)] 2(2) Cons.prems(4) obtain tr3 d' where 3: "read_loop dev b (length ss) tr2 = (True, concat ss, tr3)"
    "d' < ATA_TIMEOUT" "hd_run lat b h0 tr3 = h\<lparr>hd_mode := Idle, hd_busy := d'\<rparr>" by auto
  then show ?case using 1(1) 2(1) by auto
qed

lemma put_words:
  assumes "ata_channel lat b h0 dev" and "hd_busy h = 0" and "hd_mode h = Writing a n ws" and "us \<noteq> []"
    and "length ws + length us = 256"
  shows "\<exists>d. d < ATA_TIMEOUT \<and> hd_run lat b h (map (Out16 b) us)
    = h\<lparr>hd_disk := hd_store (hd_master h) a (ws @ us) (hd_disk h),
        hd_mode := (if n = 1 then Idle else Writing (Suc a) (n - 1) []), hd_busy := d\<rparr>"
  using assms(2-5)
proof (induction us arbitrary: h ws)
  case (Cons u us)
  show ?case
  proof (cases "us = []")
    case True
    then have "length ws = 255" using Cons.prems(4) by simp
    then show ?thesis using Cons.prems(1,2) assms(1) True by (intro exI [of _ "lat h"]) (simp add: hd_put_def ata_channel_def)
  next
    case False
    then have "length ws < 255" using Cons.prems(4) by (cases us) auto
    then have "hd_put lat u h = h\<lparr>hd_mode := Writing a n (ws @ [u])\<rparr>" using Cons.prems(2) by (simp add: hd_put_def)
    moreover have "\<exists>d. d < ATA_TIMEOUT \<and> hd_run lat b (h\<lparr>hd_mode := Writing a n (ws @ [u])\<rparr>) (map (Out16 b) us)
      = h\<lparr>hd_mode := Writing a n (ws @ [u])\<rparr>
          \<lparr>hd_disk := hd_store (hd_master h) a ((ws @ [u]) @ us) (hd_disk h),
          hd_mode := (if n = 1 then Idle else Writing (Suc a) (n - 1) []), hd_busy := d\<rparr>"
      using Cons.IH [of "h\<lparr>hd_mode := Writing a n (ws @ [u])\<rparr>" "ws @ [u]"] Cons.prems False by (simp add: hd_master_def)
    ultimately show ?thesis using Cons.prems(1) by simp
  qed
qed simp

text \<open>A sector of a buffer, as words.\<close>

definition buffer_sector :: "u8 list \<Rightarrow> nat \<Rightarrow> u16 list" where
  "buffer_sector buf k = map (\<lambda>i. buffer_word buf (k * 256 + i)) [0..<256]"

lemma length_buffer_sector [simp]: "length (buffer_sector buf k) = 256"
  by (simp add: buffer_sector_def)

lemma fold_outw: "fold (\<lambda>i. outw p (f i)) is tr = tr @ map (\<lambda>i. Out16 p (f i)) is"
  by (induction "is" arbitrary: tr) (simp_all add: outw_def)

lemma flush_effect:
  assumes "ata_channel lat b h0 dev" and "hd_busy h < ATA_TIMEOUT"
  shows "\<exists>d. d < ATA_TIMEOUT \<and> hd_step lat b (Out8 (b + 7) ATA_CMD_CACHE_FLUSH) h = h\<lparr>hd_busy := d\<rparr>"
proof (cases "0 < hd_busy h \<or> hd_mode h \<noteq> Idle")
  case True
  then show ?thesis using assms(2) by (auto simp: hd_command_def intro!: exI [of _ "hd_busy h"])
next
  case False
  then show ?thesis using assms(1)
    by (auto simp: hd_command_def ATA_CMD_CACHE_FLUSH_def ata_channel_def intro!: exI [of _ "lat h"])
qed

text \<open>The sectors that a write command leaves on the disk.\<close>

definition hd_written ::
  "u8 list \<Rightarrow> bool \<Rightarrow> nat \<Rightarrow> nat \<Rightarrow> nat \<Rightarrow> (bool \<Rightarrow> nat \<Rightarrow> u16 list) \<Rightarrow> bool \<Rightarrow> nat \<Rightarrow> u16 list" where
  "hd_written buf m a k sec D m' x =
     (if m' = m \<and> a \<le> x \<and> x < a + k then buffer_sector buf (sec + (x - a)) else D m' x)"

lemma hd_written_0 [simp]: "hd_written buf m a 0 sec D = D"
  by (intro ext) (auto simp: hd_written_def)

lemma hd_written_Suc:
  "hd_written buf m (Suc a) k (Suc sec) (hd_store m a (buffer_sector buf sec) D) = hd_written buf m a (Suc k) sec D"
proof (intro ext)
  fix m' x
  show "hd_written buf m (Suc a) k (Suc sec) (hd_store m a (buffer_sector buf sec) D) m' x = hd_written buf m a (Suc k) sec D m' x"
    by (cases "x = a") (auto simp: hd_written_def hd_store_def Suc_le_eq Suc_diff_Suc)
qed

lemma write_loop_put:
  assumes "ata_channel lat b h0 dev" and "hd_run lat b h0 tr = h" and "hd_busy h < ATA_TIMEOUT"
    and "hd_mode h = (if k = 0 then Idle else Writing a k [])"
  shows "\<exists>tr' d. write_loop dev b buf k sec tr = (True, tr') \<and> d < ATA_TIMEOUT
    \<and> hd_run lat b h0 tr' = h\<lparr>hd_disk := hd_written buf (hd_master h) a k sec (hd_disk h),
          hd_mode := Idle, hd_busy := d\<rparr>"
  using assms(2-4)
proof (induction k arbitrary: tr h a sec)
  case 0
  then show ?case by (auto intro!: exI [of _ "hd_busy h"])
next
  case (Suc k)
  define D where "D = hd_store (hd_master h) a (buffer_sector buf sec) (hd_disk h)"
  obtain tr1 where 1: "ata_wait_drq dev (b + 7) ATA_TIMEOUT tr = (True, tr1)" "hd_run lat b h0 tr1 = h\<lparr>hd_busy := 0\<rparr>"
    using wait_drq_ends [OF assms(1), of tr ATA_TIMEOUT] Suc.prems by auto
  define tr2 where "tr2 = fold (\<lambda>i. outw b (buffer_word buf (sec * 256 + i))) [0..<256] tr1"
  have "tr2 = tr1 @ map (Out16 b) (buffer_sector buf sec)"
    unfolding tr2_def fold_outw by (simp add: buffer_sector_def o_def)
  moreover have "buffer_sector buf sec \<noteq> []" using length_buffer_sector [of buf sec] by (metis length_0_conv zero_neq_numeral)
  ultimately obtain d where 2: "d < ATA_TIMEOUT" "hd_run lat b h0 tr2
      = h\<lparr>hd_disk := D, hd_mode := (if k = 0 then Idle else Writing (Suc a) k []), hd_busy := d\<rparr>"
    using put_words [OF assms(1), of "h\<lparr>hd_busy := 0\<rparr>" a "Suc k" "[]" "buffer_sector buf sec"] Suc.prems 1(2)
    by (auto simp: D_def hd_master_def)
  define tr3 where "tr3 = outb (b + 7) ATA_CMD_CACHE_FLUSH tr2"
  obtain d' where 3: "d' < ATA_TIMEOUT" "hd_run lat b h0 tr3 = (hd_run lat b h0 tr2)\<lparr>hd_busy := d'\<rparr>"
    using flush_effect [OF assms(1), of "hd_run lat b h0 tr2"] 2 by (auto simp: tr3_def outb_def)
  obtain tr4 where 4: "ata_wait_not_busy dev (b + 7) ATA_TIMEOUT tr3 = (True, tr4)"
    "hd_run lat b h0 tr4 = h\<lparr>hd_disk := D, hd_mode := (if k = 0 then Idle else Writing (Suc a) k []), hd_busy := 0\<rparr>"
    using wait_not_busy_ends [OF assms(1), of tr3 ATA_TIMEOUT] 3 2(2) by auto
  have D: "hd_written buf (hd_master h) (Suc a) k (Suc sec) D = hd_written buf (hd_master h) a (Suc k) sec (hd_disk h)"
    by (simp add: D_def hd_written_Suc)
  have "\<exists>tr' d. write_loop dev b buf k (Suc sec) tr4 = (True, tr') \<and> d < ATA_TIMEOUT
    \<and> hd_run lat b h0 tr' = h\<lparr>hd_disk := hd_written buf (hd_master h) a (Suc k) sec (hd_disk h),
          hd_mode := Idle, hd_busy := d\<rparr>"
    using Suc.IH [OF 4(2), of "Suc a" "Suc sec"] D by (simp add: hd_master_def ATA_TIMEOUT_def)
  then show ?case using 1(1) 4(1) by (auto simp: tr2_def tr3_def)
qed

section \<open>Commands\<close>

text \<open>The registers hold the drive, the number of sectors and the low 28 bits of the address.\<close>

lemma lba_parts:
  "unat (ucast (lba AND 0xFF) :: u8) + 2 ^ 8 * unat (ucast (drop_bit 8 lba AND 0xFF) :: u8)
    + 2 ^ 16 * unat (ucast (drop_bit 16 lba AND 0xFF) :: u8) + 2 ^ 24 * unat (ucast (drop_bit 24 lba AND 0x0F) :: u8)
    = unat (lba :: u32) mod 2 ^ 28"
proof -
  have m: "(0xFF :: u32) = mask 8" "(0x0F :: u32) = mask 4" by (simp_all add: mask_eq_exp_minus_1)
  have byte: "unat (ucast (drop_bit k lba AND 0xFF) :: u8) = unat lba div 2 ^ k mod 2 ^ 8"
    "unat (ucast (drop_bit k lba AND 0x0F) :: u8) = unat lba div 2 ^ k mod 2 ^ 4" for k
    unfolding m by (simp_all add: unat_ucast_mod unat_and_mask unat_drop_bit)
  have "unat lba mod 2 ^ 28 = unat lba mod 2 ^ 8 + 2 ^ 8 * (unat lba div 2 ^ 8 mod 2 ^ 8)
      + 2 ^ 16 * (unat lba div 2 ^ 16 mod 2 ^ 8) + 2 ^ 24 * (unat lba div 2 ^ 24 mod 2 ^ 4)"
  proof -
    have "n mod 2 ^ (j + k) = 2 ^ j * (n div 2 ^ j mod 2 ^ k) + n mod 2 ^ j" for n j k :: nat
      unfolding power_add by (rule mod_mult2_eq)
    from this [of "unat lba" 8 20] this [of "unat lba div 2 ^ 8" 8 12] this [of "unat lba div 2 ^ 16" 8 4]
    show ?thesis by (simp add: div_mult2_eq [symmetric])
  qed
  then show ?thesis using byte(1) [of 0] byte(1) [of 8] byte(1) [of 16] byte(2) [of 24] by simp
qed

lemma drive_register:
  fixes lba :: u32 and v :: u8
  assumes v_def: "v = (if m then ATA_DEVICE_MASTER else ATA_DEVICE_SLAVE) OR ATA_DEVICE_LBA OR ucast (drop_bit 24 lba AND 0x0F)"
  shows "\<not> bit v 4 \<longleftrightarrow> m" "v AND 0x0F = ucast (drop_bit 24 lba AND 0x0F)"
proof -
  have mask4: "(0x0F :: u32) = mask 4" "(0x0F :: u8) = mask 4" by (simp_all add: mask_eq_exp_minus_1)
  show "\<not> bit v 4 \<longleftrightarrow> m"
    by (auto simp: v_def ATA_DEVICE_MASTER_def ATA_DEVICE_SLAVE_def ATA_DEVICE_LBA_def mask4 bit_or_iff bit_and_iff
        bit_unsigned_iff bit_mask_iff bit_numeral_rec)
  show "v AND 0x0F = ucast (drop_bit 24 lba AND 0x0F)"
  proof (rule bit_word_eqI)
    fix n assume "n < LENGTH(8)"
    show "bit (v AND 0x0F) n = bit (ucast (drop_bit 24 lba AND 0x0F) :: u8) n"
    proof (cases "n < 4")
      case True
      then have "n \<in> {0, 1, 2, 3}" by auto
      then show ?thesis
        by (auto simp: v_def ATA_DEVICE_MASTER_def ATA_DEVICE_SLAVE_def ATA_DEVICE_LBA_def bit_or_iff bit_and_iff
            bit_numeral_rec bit_unsigned_iff)
    qed (simp add: mask4 bit_and_iff bit_mask_iff bit_unsigned_iff)
  qed
qed

lemma select_sectors_effect:
  fixes lba :: u32
  defines "after \<equiv> \<lambda>lat b h0 m lba c tr. hd_run lat b h0 (select_sectors b m lba c tr)"
  shows "hd_mode (after lat b h0 m lba c tr) = hd_mode (hd_run lat b h0 tr)"
    "hd_busy (after lat b h0 m lba c tr) = hd_busy (hd_run lat b h0 tr)"
    "hd_disk (after lat b h0 m lba c tr) = hd_disk (hd_run lat b h0 tr)"
    "hd_master (after lat b h0 m lba c tr) = m" "hd_count (after lat b h0 m lba c tr) = c"
    "hd_lba (after lat b h0 m lba c tr) = unat lba mod 2 ^ 28"
  using drive_register [OF refl, of m lba] lba_parts [of lba]
  by (simp_all add: after_def select_sectors_def outb_def Let_def hd_master_def hd_lba_def)

text \<open>A whole command on an idle channel.\<close>

lemma ata_read_sectors_idle:
  assumes "ata_channel lat b h0 dev" and "ata_drive_present i s" and "ata_get_data_port (unat i) = b"
    and "hd_idle (hd_run lat b h0 (ata_io s)) D" and "count \<noteq> 0"
  shows "\<exists>s'. ata_read_sectors dev i lba count False s
      = (True, concat (map (D (ata_is_master (unat i))) [unat lba mod 2 ^ 28..<unat lba mod 2 ^ 28 + unat count]), s')
    \<and> hd_idle (hd_run lat b h0 (ata_io s')) D \<and> s' = s\<lparr>ata_io := ata_io s'\<rparr>"
proof -
  define a where "a = unat lba mod 2 ^ 28"
  define m where "m = ata_is_master (unat i)"
  obtain tr1 where 1: "ata_wait_not_busy dev (b + 7) ATA_TIMEOUT (ata_io s) = (True, tr1)"
    "hd_run lat b h0 tr1 = (hd_run lat b h0 (ata_io s))\<lparr>hd_busy := 0\<rparr>"
    using wait_not_busy_ends [OF assms(1)] assms(4) unfolding hd_idle_def by blast
  define h where "h = hd_run lat b h0 (select_sectors b m lba count tr1)"
  have h: "hd_run lat b h0 (select_sectors b m lba count tr1) = h" "hd_mode h = Idle" "hd_busy h = 0"
    "hd_disk h = D" "hd_master h = m" "hd_count h = count" "hd_lba h = a"
    unfolding h_def select_sectors_effect 1(2) using assms(4) by (simp_all add: hd_idle_def a_def)
  define ss where "ss = map (D m) [a..<a + unat count]"
  have "0 < unat count" using assms(5) by (simp add: unat_gt_0)
  then have ne: "ss \<noteq> []" by (simp add: ss_def)
  have len: "\<forall>x\<in>set ss. length x = 256" using assms(4) by (auto simp: ss_def hd_idle_def)
  define tr2 where "tr2 = outb (b + 7) ATA_CMD_READ_PIO (select_sectors b m lba count tr1)"
  have "hd_run lat b h0 tr2 = h\<lparr>hd_mode := Reading (concat ss), hd_busy := lat h\<rparr>"
    using h assms(5) by (simp add: tr2_def outb_def hd_command_def ATA_CMD_READ_PIO_def hd_sectors_def ss_def)
  then obtain tr3 d where 3: "read_loop dev b (unat count) tr2 = (True, concat ss, tr3)" "d < ATA_TIMEOUT"
    "hd_run lat b h0 tr3 = h\<lparr>hd_mode := Idle, hd_busy := d\<rparr>"
    using read_loop_taken [OF assms(1), of tr2 _ ss] len ne assms(1) by (auto simp: ss_def ata_channel_def)
  have "ata_read_sectors dev i lba count False s = (True, concat ss, s\<lparr>ata_io := tr3\<rparr>)"
    using assms(2,3,5) 1(1) 3(1) by (simp add: ata_read_sectors_def tr2_def m_def)
  moreover have "hd_idle (hd_run lat b h0 tr3) D" using 3(2,3) h(4) assms(4) by (simp add: hd_idle_def)
  ultimately show ?thesis unfolding ss_def m_def a_def by (intro exI [of _ "s\<lparr>ata_io := tr3\<rparr>"]) simp
qed

lemma ata_write_sectors_idle:
  assumes "ata_channel lat b h0 dev" and "ata_drive_present i s" and "ata_get_data_port (unat i) = b"
    and "hd_idle (hd_run lat b h0 (ata_io s)) D" and "count \<noteq> 0" and "512 * unat count \<le> length buf"
  shows "\<exists>s'. ata_write_sectors dev i lba count (Some buf) s = Some (True, s')
    \<and> hd_idle (hd_run lat b h0 (ata_io s'))
        (hd_written buf (ata_is_master (unat i)) (unat lba mod 2 ^ 28) (unat count) 0 D)
    \<and> s' = s\<lparr>ata_io := ata_io s'\<rparr>"
proof -
  define a where "a = unat lba mod 2 ^ 28"
  define m where "m = ata_is_master (unat i)"
  obtain tr1 where 1: "ata_wait_not_busy dev (b + 7) ATA_TIMEOUT (ata_io s) = (True, tr1)"
    "hd_run lat b h0 tr1 = (hd_run lat b h0 (ata_io s))\<lparr>hd_busy := 0\<rparr>"
    using wait_not_busy_ends [OF assms(1)] assms(4) unfolding hd_idle_def by blast
  define h where "h = hd_run lat b h0 (select_sectors b m lba count tr1)"
  have h: "hd_run lat b h0 (select_sectors b m lba count tr1) = h" "hd_mode h = Idle" "hd_busy h = 0"
    "hd_disk h = D" "hd_master h = m" "hd_count h = count" "hd_lba h = a"
    unfolding h_def select_sectors_effect 1(2) using assms(4) by (simp_all add: hd_idle_def a_def)
  have c: "0 < unat count" using assms(5) by (simp add: unat_gt_0)
  define tr2 where "tr2 = outb (b + 7) ATA_CMD_WRITE_PIO (select_sectors b m lba count tr1)"
  have "hd_run lat b h0 tr2 = h\<lparr>hd_mode := Writing a (unat count) [], hd_busy := lat h\<rparr>"
    using h assms(5) by (simp add: tr2_def outb_def hd_command_def ATA_CMD_WRITE_PIO_def hd_sectors_def)
  then obtain tr3 d where 3: "write_loop dev b buf (unat count) 0 tr2 = (True, tr3)" "d < ATA_TIMEOUT"
    "hd_run lat b h0 tr3 = h\<lparr>hd_disk := hd_written buf m a (unat count) 0 D, hd_mode := Idle, hd_busy := d\<rparr>"
    using write_loop_put [OF assms(1), of tr2 _ "unat count" a buf 0] c assms(1) h(4,5)
    by (auto simp: ata_channel_def hd_master_def)
  have "ata_write_sectors dev i lba count (Some buf) s = Some (True, s\<lparr>ata_io := tr3\<rparr>)"
    using assms(2,3,5,6) 1(1) 3(1) by (simp add: ata_write_sectors_def tr2_def m_def)
  moreover have "hd_idle (hd_run lat b h0 tr3) (hd_written buf m a (unat count) 0 D)"
    using 3(2,3) assms(4) by (simp add: hd_idle_def hd_written_def)
  ultimately show ?thesis unfolding m_def a_def by (intro exI [of _ "s\<lparr>ata_io := tr3\<rparr>"]) simp
qed

lemma ata_drive_present_io [simp]: "ata_drive_present i (s\<lparr>ata_io := tr\<rparr>) = ata_drive_present i s"
  by (simp add: ata_drive_present_def)

section \<open>Properties\<close>

lemma read_back_written:
  "map (hd_written buf m a k 0 D m) [a..<a + k] = map (buffer_sector buf) [0..<k]"
  by (rule nth_equalityI) (simp_all add: hd_written_def)


text \<open>A primary channel whose drives are busy for three polls at a time, with every word zero.\<close>

definition demo_hd :: hd where
  "demo_hd = \<lparr>hd_sel = 0, hd_count = 0, hd_low = 0, hd_mid = 0, hd_high = 0, hd_busy = 0, hd_mode = Idle,
     hd_disk = (\<lambda>_ _. replicate 256 0)\<rparr>"

definition hd_device :: "(hd \<Rightarrow> nat) \<Rightarrow> u16 \<Rightarrow> hd \<Rightarrow> device" where
  "hd_device lat b h0 = \<lparr>dev8 = (\<lambda>tr p. if p = b + 7 then hd_status (hd_run lat b h0 tr) else 0),
     dev16 = (\<lambda>tr p. case hd_mode (hd_run lat b h0 tr) of Reading (w # ws) \<Rightarrow> w | _ \<Rightarrow> 0),
     dev32 = (\<lambda>_ _. 0)\<rparr>"

lemma hd_device_channel: "\<forall>h. lat h < ATA_TIMEOUT \<Longrightarrow> ata_channel lat b h0 (hd_device lat b h0)"
  by (auto simp: ata_channel_def hd_device_def hd_status_def)

definition demo_ata :: ata_state where
  "demo_ata = \<lparr>ata_io = [], detected_drives = zero_drive\<lparr>drive_type := 1\<rparr> # replicate 7 zero_drive, drive_count = 1\<rparr>"

lemma demo_ata_ok:
  "ata_channel (\<lambda>_. 3) 0x1F0 demo_hd (hd_device (\<lambda>_. 3) 0x1F0 demo_hd)" "ata_drive_present 0 demo_ata"
  "ata_get_data_port 0 = 0x1F0" "hd_idle (hd_run lat b demo_hd (ata_io demo_ata)) (hd_disk demo_hd)"
  by (simp_all add: hd_device_channel ATA_TIMEOUT_def ata_drive_present_def demo_ata_def
      ata_get_data_port_def ATA_PRIMARY_DATA_def hd_idle_def demo_hd_def)


end
