(* ===== verification/Ext2_Cache.thy ===== *)
theory Ext2_Cache
  imports Ext2_Block ATA_Disk
begin

text \<open>
  What the file system relies on of a disk, as an interface; that the ATA driver provides it; and that
  the block layer with its cache implements a store of blocks on top of it.
\<close>

section \<open>A disk of sectors\<close>

text \<open>
  A state represents the sectors of a disk. Reading a sector and writing one always succeed, do what
  they say and keep the representation. \<open>addr\<close> is the sector that a sector number stands for.
\<close>

locale sector_disk =
  fixes rep :: "'s \<Rightarrow> (nat \<Rightarrow> u8 list) \<Rightarrow> bool"
    and rd :: "u32 \<Rightarrow> 's \<Rightarrow> bool \<times> u8 list \<times> 's"
    and wr :: "u32 \<Rightarrow> u8 list \<Rightarrow> 's \<Rightarrow> (bool \<times> 's) option"
    and addr :: "u32 \<Rightarrow> nat"
  assumes rd_rep: "rep s D \<Longrightarrow> \<exists>s'. rd n s = (True, D (addr n), s') \<and> rep s' D"
    and wr_rep: "rep s D \<Longrightarrow> 512 \<le> length bs \<Longrightarrow>
      \<exists>s'. wr n bs s = Some (True, s') \<and> rep s' (D(addr n := take 512 bs))"
    and sector_length: "rep s D \<Longrightarrow> length (D a) = 512"
begin

lemma read_run_rep:
  assumes "rep s D"
  shows "\<exists>s'. read_run rd start k i s = (True, concat (map (\<lambda>j. D (addr (start + of_nat j))) [i..<i + k]), s')
    \<and> rep s' D"
  using assms
proof (induction k arbitrary: i s)
  case (Suc k)
  obtain s1 where 1: "rd (start + of_nat i) s = (True, D (addr (start + of_nat i)), s1)" "rep s1 D"
    using rd_rep [OF Suc.prems] by blast
  from Suc.IH [OF 1(2), of "Suc i"] 1(1) show ?case
    by (auto simp: upt_conv_Cons simp del: upt_Suc)
qed simp

lemma write_run_rep:
  assumes "rep s D" and "(i + k) * 512 \<le> length buf"
  shows "\<exists>s'. write_run wr start buf k i s = Some (True, s')
    \<and> rep s' (fold (\<lambda>j D. D(addr (start + of_nat j) := take 512 (drop (j * 512) buf))) [i..<i + k] D)"
  using assms
proof (induction k arbitrary: i s D)
  case (Suc k)
  have "512 \<le> length (drop (i * 512) buf)" using Suc.prems(2) by (simp add: algebra_simps)
  from wr_rep [OF Suc.prems(1) this, of "start + of_nat i"]
  obtain s1 where 1: "wr (start + of_nat i) (drop (i * 512) buf) s = Some (True, s1)"
    "rep s1 (D(addr (start + of_nat i) := take 512 (drop (i * 512) buf)))" by blast
  have "(Suc i + k) * 512 \<le> length buf" using Suc.prems(2) by simp
  from Suc.IH [OF 1(2) this] 1(1) show ?case
    by (auto simp: upt_conv_Cons simp del: upt_Suc)
qed simp

end

section \<open>The ATA driver is such a disk\<close>

lemma length_bytes_of_words [simp]: "length (bytes_of_words ws) = 2 * length ws"
  by (induction ws) (simp_all add: bytes_of_words_def)

lemma word_bytes:
  fixes x y :: u8
  shows "(ucast (ucast x OR push_bit 8 (ucast y) :: u16) :: u8) = x"
    "(ucast (drop_bit 8 (ucast x OR push_bit 8 (ucast y) :: u16)) :: u8) = y"
  by (rule bit_word_eqI; auto simp: bit_simps not_bit_u8_ge)+

lemma buffer_word_bytes:
  "(ucast (buffer_word buf n) :: u8) = buf ! (2 * n)" "(ucast (drop_bit 8 (buffer_word buf n)) :: u8) = buf ! (2 * n + 1)"
  unfolding buffer_word_def by (rule word_bytes)+

lemma bytes_of_buffer_sector:
  assumes "512 \<le> length buf"
  shows "bytes_of_words (buffer_sector buf 0) = take 512 buf"
proof -
  have "bytes_of_words (map (\<lambda>i. buffer_word buf i) [0..<n]) = take (2 * n) buf" if "2 * n \<le> length buf" for n
    using that
  proof (induction n)
    case (Suc n)
    have "take (2 * Suc n) buf = take (2 * n) buf @ [buf ! (2 * n), buf ! (2 * n + 1)]"
      using Suc.prems by (simp add: take_Suc_conv_app_nth)
    then show ?case using Suc by (simp add: bytes_of_words_def buffer_word_bytes)
  qed (simp add: bytes_of_words_def)
  from this [of 256] show ?thesis using assms by (simp add: buffer_sector_def)
qed

definition ata_rep :: "(hd \<Rightarrow> nat) \<Rightarrow> u16 \<Rightarrow> hd \<Rightarrow> device \<Rightarrow> u8 \<Rightarrow> ata_state \<Rightarrow> (nat \<Rightarrow> u8 list) \<Rightarrow> bool" where
  "ata_rep lat b h0 dev i s D \<longleftrightarrow> ata_channel lat b h0 dev \<and> ata_drive_present i s
     \<and> ata_get_data_port (unat i) = b
     \<and> (\<exists>E. hd_idle (hd_run lat b h0 (ata_io s)) E \<and> D = (\<lambda>n. bytes_of_words (E (ata_is_master (unat i)) n)))"

definition ata_addr :: "u32 \<Rightarrow> nat" where
  "ata_addr n = unat n mod 2 ^ 28"

lemma ata_read_rep:
  assumes "ata_rep lat b h0 dev i s D"
  shows "\<exists>s'. read_sector dev i n s = (True, D (ata_addr n), s') \<and> ata_rep lat b h0 dev i s' D"
proof -
  obtain E where E: "ata_channel lat b h0 dev" "ata_drive_present i s" "ata_get_data_port (unat i) = b"
    "hd_idle (hd_run lat b h0 (ata_io s)) E" "D = (\<lambda>n. bytes_of_words (E (ata_is_master (unat i)) n))"
    using assms by (auto simp: ata_rep_def)
  obtain s' where s': "ata_read_sectors dev i n 1 False s = (True, E (ata_is_master (unat i)) (ata_addr n), s')"
    "hd_idle (hd_run lat b h0 (ata_io s')) E" "s' = s\<lparr>ata_io := ata_io s'\<rparr>"
    using ata_read_sectors_idle [OF E(1-4), of 1 n] by (auto simp: ata_addr_def)
  have "ata_drive_present i s'" by (subst s'(3)) (simp add: E(2))
  with s'(1,2) E show ?thesis by (auto simp: read_sector_def ata_rep_def)
qed

lemma ata_write_rep:
  assumes "ata_rep lat b h0 dev i s D" and "512 \<le> length bs"
  shows "\<exists>s'. write_sector dev i n bs s = Some (True, s') \<and> ata_rep lat b h0 dev i s' (D(ata_addr n := take 512 bs))"
proof -
  obtain E where E: "ata_channel lat b h0 dev" "ata_drive_present i s" "ata_get_data_port (unat i) = b"
    "hd_idle (hd_run lat b h0 (ata_io s)) E" "D = (\<lambda>n. bytes_of_words (E (ata_is_master (unat i)) n))"
    using assms(1) by (auto simp: ata_rep_def)
  define m where "m = ata_is_master (unat i)"
  obtain s' where s': "ata_write_sectors dev i n 1 (Some bs) s = Some (True, s')"
    "hd_idle (hd_run lat b h0 (ata_io s')) (hd_written bs m (ata_addr n) 1 0 E)" "s' = s\<lparr>ata_io := ata_io s'\<rparr>"
    using ata_write_sectors_idle [OF E(1-4), of 1 bs n] assms(2) by (auto simp: ata_addr_def m_def)
  have "ata_drive_present i s'" by (subst s'(3)) (simp add: E(2))
  moreover have "D(ata_addr n := take 512 bs) = (\<lambda>k. bytes_of_words (hd_written bs m (ata_addr n) 1 0 E m k))"
    by (rule ext) (auto simp: hd_written_def E(5) m_def bytes_of_buffer_sector [OF assms(2)])
  ultimately show ?thesis using s'(1,2) E(1,3) unfolding write_sector_def ata_rep_def m_def by blast
qed

interpretation ata_disk: sector_disk "ata_rep lat b h0 dev i" "read_sector dev i" "write_sector dev i" ata_addr
  for lat b h0 dev i
proof
  show "length (D a) = 512" if "ata_rep lat b h0 dev i s D" for s D a
    using that by (auto simp: ata_rep_def hd_idle_def)
qed (fact ata_read_rep ata_write_rep)+

section \<open>A store of blocks\<close>

text \<open>Block \<open>m\<close> of a disk, with so many sectors to a block.\<close>

definition disk_block :: "nat \<Rightarrow> (nat \<Rightarrow> u8 list) \<Rightarrow> nat \<Rightarrow> u8 list" where
  "disk_block k D m = concat (map (\<lambda>j. D (m * k + j)) [0..<k])"

abbreviation spb :: "ext2_state \<Rightarrow> nat" where
  "spb s \<equiv> unat (block_size s) div 512"

text \<open>The blocks that the driver can address.\<close>

definition nblocks :: "ext2_state \<Rightarrow> nat" where
  "nblocks s = 2 ^ 28 div spb s"

text \<open>Every valid entry of the cache holds the block that it names.\<close>

definition cache_ok :: "nat \<Rightarrow> (nat \<Rightarrow> u8 list) \<Rightarrow> cache_entry list \<Rightarrow> bool" where
  "cache_ok n B es \<longleftrightarrow> (\<forall>e\<in>set es. c_valid e \<longrightarrow> unat (c_block_no e) < n
     \<and> (\<exists>p. c_data e = Some (p, B (unat (c_block_no e)))))"

text \<open>
  A mounted file system represents a store of blocks: the disk has them, and the cache agrees with them.
\<close>

definition block_rep :: "(hd \<Rightarrow> nat) \<Rightarrow> u16 \<Rightarrow> hd \<Rightarrow> device \<Rightarrow> ext2_state \<Rightarrow> (nat \<Rightarrow> u8 list) \<Rightarrow> bool" where
  "block_rep lat b h0 dev s B \<longleftrightarrow>
     mounted s \<and> block_size s \<in> {1024, 2048, 4096} \<and> length (cache s) = EXT2_CACHE_SIZE
     \<and> (\<exists>D. ata_rep lat b h0 dev (drive_index s) (ata s) D \<and> (\<forall>m < nblocks s. B m = disk_block (spb s) D m))
     \<and> cache_ok (nblocks s) B (cache s)"

text \<open>What the block layer leaves alone.\<close>

definition same_fs :: "ext2_state \<Rightarrow> ext2_state \<Rightarrow> bool" where
  "same_fs s s' \<longleftrightarrow> (\<exists>a q c. s' = s\<lparr>ata := a, frames := q, cache := c\<rparr>)"

lemma same_fs_refl: "same_fs s s"
  unfolding same_fs_def by (rule exI [of _ "ata s"], rule exI [of _ "frames s"], rule exI [of _ "cache s"]) simp

lemma same_fs_trans: "same_fs s s' \<Longrightarrow> same_fs s' s'' \<Longrightarrow> same_fs s s''"
  unfolding same_fs_def by (elim exE, simp) blast

lemma same_fs_fields:
  assumes "same_fs s s'"
  shows "initialized s' = initialized s" "mounted s' = mounted s" "io_buffer s' = io_buffer s"
    "drive_index s' = drive_index s" "block_size s' = block_size s" "blocks_per_group s' = blocks_per_group s"
    "inodes_per_group s' = inodes_per_group s" "inode_size s' = inode_size s" "groups_count s' = groups_count s"
    "superblock s' = superblock s" "group_descs s' = group_descs s" "open_files s' = open_files s"
    "current_dir s' = current_dir s" "nblocks s' = nblocks s"
  using assms by (auto simp: same_fs_def nblocks_def)

lemma block_rep_spb:
  assumes "block_rep lat b h0 dev s B"
  shows "unat (block_size s) = 512 * spb s" "spb s \<in> {2, 4, 8}" "unat (block_size s div 512) = spb s"
  using assms by (auto simp: block_rep_def unat_div)

lemma disk_block_length: "(\<And>a. length (D a) = 512) \<Longrightarrow> length (disk_block k D m) = 512 * k"
  by (simp add: disk_block_def length_concat o_def sum_list_triv)

lemma block_rep_length:
  assumes "block_rep lat b h0 dev s B" and "m < nblocks s"
  shows "length (B m) = unat (block_size s)"
proof -
  obtain D where D: "ata_rep lat b h0 dev (drive_index s) (ata s) D" "B m = disk_block (spb s) D m"
    using assms by (auto simp: block_rep_def)
  have "length (B m) = 512 * spb s" unfolding D(2) by (rule disk_block_length) (rule ata_disk.sector_length [OF D(1)])
  then show ?thesis using block_rep_spb(1) [OF assms(1)] by simp
qed

text \<open>The sectors of a block.\<close>

lemma block_sector_addr:
  fixes n k :: u32
  assumes "unat n < 2 ^ 28 div unat k" and "j < unat k"
  shows "ata_addr (n * k + of_nat j) = unat n * unat k + j"
proof -
  have "(unat n + 1) * unat k \<le> 2 ^ 28 div unat k * unat k" using assms(1) by (intro mult_le_mono1) simp
  also have "\<dots> \<le> 2 ^ 28" by simp
  finally have le: "unat n * unat k + j < 2 ^ 28" using assms(2) by simp
  then have "unat (n * k) = unat n * unat k" by (intro unat_mult_no_wrap) simp
  moreover have "j < 2 ^ 32" using le by simp
  ultimately have "unat (n * k + of_nat j) = unat n * unat k + j"
    using le by (simp add: unat_word_ariths(1) unat_of_nat)
  then show ?thesis using le by (simp add: ata_addr_def)
qed

lemma read_run_block:
  assumes D: "ata_rep lat b h0 dev i a D" and "block_size s \<in> {1024, 2048, 4096}" and n: "unat n < nblocks s"
  shows "\<exists>a'. read_run (read_sector dev i) (n * (block_size s div 512)) (spb s) 0 a = (True, disk_block (spb s) D (unat n), a')
    \<and> ata_rep lat b h0 dev i a' D"
proof -
  have spb: "unat (block_size s div 512) = spb s" using assms(2) by (auto simp: unat_div)
  have "map (\<lambda>j. D (ata_addr (n * (block_size s div 512) + of_nat j))) [0..<spb s]
      = map (\<lambda>j. D (unat n * spb s + j)) [0..<spb s]"
    using n spb by (intro map_cong) (auto simp: block_sector_addr nblocks_def)
  then show ?thesis
    using ata_disk.read_run_rep [OF D, of "n * (block_size s div 512)" "spb s" 0]
    unfolding disk_block_def by (simp del: map_eq_conv)
qed

lemma fold_sectors:
  assumes "k \<le> k'" "\<And>j. j < k' \<Longrightarrow> a j = base + j"
  shows "fold (\<lambda>j D. D(a j := take 512 (drop (j * 512) buf))) [0..<k] D
    = (\<lambda>x. if base \<le> x \<and> x < base + k then take 512 (drop ((x - base) * 512) buf) else D x)"
  using assms(1)
proof (induction k)
  case (Suc k)
  then show ?case using assms(2) [of k] by (auto simp: fun_eq_iff)
qed (auto simp: fun_eq_iff)

lemma concat_sectors:
  "k * 512 \<le> length buf \<Longrightarrow> concat (map (\<lambda>j. take 512 (drop (j * 512) buf)) [0..<k]) = take (k * 512) buf"
proof (induction k)
  case (Suc k)
  then show ?case by (simp add: take_add add.commute [of 512])
qed simp

lemma disk_block_written:
  assumes "k * 512 \<le> length buf"
  shows "disk_block k (\<lambda>x. if n * k \<le> x \<and> x < n * k + k then take 512 (drop ((x - n * k) * 512) buf) else D x) m
    = (if m = n then take (k * 512) buf else disk_block k D m)"
proof (cases "m = n")
  case True
  have "map (\<lambda>j. if n * k \<le> n * k + j \<and> n * k + j < n * k + k
      then take 512 (drop ((n * k + j - n * k) * 512) buf) else D (n * k + j)) [0..<k]
    = map (\<lambda>j. take 512 (drop (j * 512) buf)) [0..<k]" by (rule map_cong) auto
  then show ?thesis unfolding True disk_block_def using concat_sectors [OF assms] by presburger
next
  case False
  have "\<not> (n * k \<le> m * k + j \<and> m * k + j < n * k + k)" if "j < k" for j
  proof
    assume "n * k \<le> m * k + j \<and> m * k + j < n * k + k"
    then have "n = (m * k + j) div k" using that by (intro div_nat_eqI [symmetric]) (auto simp: mult.commute)
    then show False using that False by simp
  qed
  then show ?thesis using False by (auto simp: disk_block_def intro!: arg_cong [of _ _ concat])
qed

text \<open>The cache.\<close>

lemma find_entry_from_Some:
  "find_entry_from P es i = Some j \<Longrightarrow> i \<le> j \<and> j - i < length es \<and> P (es ! (j - i))"
  by (induction es arbitrary: i) (force simp: nth_Cons' split: if_splits)+

lemma cache_lookup_Some:
  assumes "cache_lookup n s = Some i" and "cache_ok m B (cache s)"
  shows "\<exists>p. c_data (cache s ! i) = Some (p, B (unat n))"
proof -
  have i: "i < length (cache s)" "c_valid (cache s ! i)" "c_block_no (cache s ! i) = n"
    using find_entry_from_Some assms(1) unfolding cache_lookup_def by fastforce+
  with assms(2) show ?thesis unfolding cache_ok_def using nth_mem [OF i(1)] by metis
qed

lemma cache_ok_update: "cache_ok m B es \<Longrightarrow> cache_ok m B [e] \<Longrightarrow> cache_ok m B (es[i := e])"
  unfolding cache_ok_def by (auto dest: subsetD [OF set_update_subset_insert])

lemma cache_insert_ok:
  assumes "cache_ok m B (cache s)" "unat n < m" "length (B (unat n)) = unat (block_size s)" "block_size s \<le> 4096"
  shows "\<exists>q c. cache_insert n (B (unat n)) s = Some (s\<lparr>frames := q, cache := c\<rparr>) \<and> cache_ok m B c
    \<and> length c = length (cache s)"
proof -
  have len: "length (B (unat n)) \<le> 4096" using assms(3,4) by (simp add: word_le_nat_alt)
  define i where "i = (case find_entry_from (\<lambda>e. \<not> c_valid e) (cache s) 0 of None \<Rightarrow> 0 | Some i \<Rightarrow> i)"
  let ?c = "\<lambda>p. (cache s)[i := \<lparr>c_block_no = n, c_data = Some (p, B (unat n)), c_dirty = False, c_valid = True\<rparr>]"
  have ok: "cache_ok m B (?c p)" for p
    by (rule cache_ok_update [OF assms(1)]) (simp add: cache_ok_def assms(2))
  show ?thesis
  proof (cases "c_data (cache s ! i)")
    case (Some d)
    obtain p x where d: "d = (p, x)" by force
    have "cache_insert n (B (unat n)) s = Some (s\<lparr>frames := frames s, cache := ?c p\<rparr>)"
      using Some d len assms(3) unfolding cache_insert_def i_def [symmetric] by (simp add: page_put_def)
    with ok [of p] show ?thesis by (intro exI conjI) (assumption, assumption, simp)
  next
    case None
    obtain p q where pq: "pmm_alloc_page (frames s) = (p, q)" by force
    have "cache_insert n (B (unat n)) s = Some (s\<lparr>frames := q, cache := (if p = NULL then cache s else ?c p)\<rparr>)"
      using None pq len assms(3) unfolding cache_insert_def i_def [symmetric] by (simp add: page_put_def)
    moreover have "cache_ok m B (if p = NULL then cache s else ?c p)" using ok [of p] assms(1) by simp
    ultimately show ?thesis by (intro exI conjI) (assumption, assumption, simp)
  qed
qed

lemma update_cached_ok:
  assumes "cache_ok m B es" and "length bs \<le> 4096"
  shows "\<exists>es'. update_cached n bs es = Some es' \<and> cache_ok m (B(unat n := bs)) es' \<and> length es' = length es"
  using assms(1)
proof (induction es)
  case (Cons e es)
  have "cache_ok m B es" using Cons.prems by (simp add: cache_ok_def)
  from Cons.IH [OF this] obtain es' where es': "update_cached n bs es = Some es'"
    "cache_ok m (B(unat n := bs)) es'" "length es' = length es" by blast
  show ?case
  proof (cases "c_valid e \<and> c_block_no e = n")
    case True
    then obtain p where "c_data e = Some (p, B (unat n))" "unat n < m" using Cons.prems by (auto simp: cache_ok_def)
    with True es' assms(2) show ?thesis by (auto simp: page_put_def cache_ok_def)
  next
    case False
    have "cache_ok m (B(unat n := bs)) (e # es')" using False es'(2) Cons.prems by (auto simp: cache_ok_def word_unat_eq_iff)
    moreover have "update_cached n bs (e # es) = Some (e # es')" using False es'(1) by auto
    ultimately show ?thesis using es'(3) by (intro exI conjI) (assumption, assumption, simp)
  qed
qed (simp add: cache_ok_def)

text \<open>Reading and writing a block, on a state that represents a store.\<close>

lemma read_block_rep:
  assumes rep: "block_rep lat b h0 dev s B" and n: "unat n < nblocks s"
  shows "\<exists>s'. ext2_read_block dev (drive_index s) n False s = Some (True, B (unat n), s')
    \<and> block_rep lat b h0 dev s' B \<and> same_fs s s'"
proof -
  note spb = block_rep_spb [OF rep] and len = block_rep_length [OF rep n]
  have m: "mounted s" "block_size s \<le> 4096" "cache_ok (nblocks s) B (cache s)"
    using rep by (auto simp: block_rep_def)
  show ?thesis
  proof (cases "cache_lookup n s")
    case (Some i)
    obtain p where "c_data (cache s ! i) = Some (p, B (unat n))" using cache_lookup_Some [OF Some m(3)] by blast
    then show ?thesis using Some rep m(1) len
      by (auto simp: ext2_read_block_def page_get_def get_bytes_def same_fs_refl)
  next
    case None
    obtain D where D: "ata_rep lat b h0 dev (drive_index s) (ata s) D" "\<forall>m < nblocks s. B m = disk_block (spb s) D m"
      using rep by (auto simp: block_rep_def)
    obtain a where a: "read_run (read_sector dev (drive_index s)) (n * (block_size s div 512)) (spb s) 0 (ata s)
        = (True, disk_block (spb s) D (unat n), a)" "ata_rep lat b h0 dev (drive_index s) a D"
      using read_run_block [OF D(1) _ n] rep by (auto simp: block_rep_def)
    have B: "disk_block (spb s) D (unat n) = B (unat n)" using D(2) n by simp
    obtain q c where ins: "cache_insert n (B (unat n)) (s\<lparr>ata := a\<rparr>) = Some (s\<lparr>ata := a, frames := q, cache := c\<rparr>)"
      "cache_ok (nblocks s) B c" "length c = length (cache s)"
      using cache_insert_ok [of "nblocks s" B "s\<lparr>ata := a\<rparr>" n] m n len by auto
    define s' where "s' = s\<lparr>ata := a, frames := q, cache := c\<rparr>"
    have "ext2_read_block dev (drive_index s) n False s = Some (True, B (unat n), s')"
      unfolding ext2_read_block_def Let_def spb(3) a(1) B using None m(1) ins(1) by (simp add: s'_def)
    moreover have "block_rep lat b h0 dev s' B"
      using rep a(2) D(2) ins(2,3) by (auto simp: block_rep_def s'_def nblocks_def)
    moreover have "same_fs s s'" unfolding same_fs_def s'_def by blast
    ultimately show ?thesis by blast
  qed
qed

lemma write_block_rep:
  assumes rep: "block_rep lat b h0 dev s B" and n: "unat n < nblocks s" and buf: "unat (block_size s) \<le> length buf"
  shows "\<exists>s'. ext2_write_block dev (drive_index s) n (Some buf) s = Some (True, s')
    \<and> block_rep lat b h0 dev s' (B(unat n := take (unat (block_size s)) buf)) \<and> same_fs s s'"
proof -
  note spb = block_rep_spb [OF rep]
  let ?bs = "take (unat (block_size s)) buf"
  have m: "mounted s" "unat (block_size s) \<le> 4096" "cache_ok (nblocks s) B (cache s)"
    using rep by (auto simp: block_rep_def)
  have "length ?bs \<le> 4096" using m(2) by simp
  from update_cached_ok [OF m(3) this] obtain es where es: "update_cached n ?bs (cache s) = Some es"
    "cache_ok (nblocks s) (B(unat n := ?bs)) es" "length es = length (cache s)" by blast
  obtain D where D: "ata_rep lat b h0 dev (drive_index s) (ata s) D" "\<forall>m < nblocks s. B m = disk_block (spb s) D m"
    using rep by (auto simp: block_rep_def)
  have k: "(0 + spb s) * 512 \<le> length buf" using spb(1) buf by simp
  let ?a = "\<lambda>j. ata_addr (n * (block_size s div 512) + of_nat j)"
  let ?D = "\<lambda>x. if unat n * spb s \<le> x \<and> x < unat n * spb s + spb s
      then take 512 (drop ((x - unat n * spb s) * 512) buf) else D x"
  have addr: "?a j = unat n * spb s + j" if "j < spb s" for j
    using block_sector_addr [of n "block_size s div 512" j] that n spb(3) by (simp add: nblocks_def)
  obtain a where a: "write_run (write_sector dev (drive_index s)) (n * (block_size s div 512)) buf (spb s) 0 (ata s) = Some (True, a)"
    "ata_rep lat b h0 dev (drive_index s) a ?D"
    using ata_disk.write_run_rep [OF D(1) k, of "n * (block_size s div 512)"] fold_sectors [of "spb s" "spb s" ?a, OF _ addr, of buf D]
    by auto
  define s' where "s' = s\<lparr>cache := es, ata := a\<rparr>"
  have "ext2_write_block dev (drive_index s) n (Some buf) s = Some (True, s')"
    using a(1) es(1) buf m(1) spb(3) by (simp add: ext2_write_block_def get_bytes_def s'_def)
  moreover have "block_rep lat b h0 dev s' (B(unat n := ?bs))"
    using rep a(2) D(2) es(2,3) disk_block_written [of "spb s" buf "unat n" D] k spb(1)
    by (auto simp: block_rep_def s'_def nblocks_def mult.commute intro!: exI [of _ ?D])
  moreover have "same_fs s s'" unfolding same_fs_def s'_def by (rule exI [of _ a], rule exI [of _ "frames s"], rule exI [of _ es]) simp
  ultimately show ?thesis by blast
qed

section \<open>Properties\<close>

text \<open>Sequences of accesses to blocks: what the code returns for them, and what a store does.\<close>

datatype block_op = ReadBlock u32 | WriteBlock u32 "u8 list"

fun run_blocks :: "device \<Rightarrow> block_op list \<Rightarrow> ext2_state \<Rightarrow> ((bool \<times> u8 list) list \<times> ext2_state) option" where
  "run_blocks dev [] s = Some ([], s)"
| "run_blocks dev (ReadBlock n # ops) s = do {
     (ok, bs, s) \<leftarrow> ext2_read_block dev (drive_index s) n False s;
     (rs, s) \<leftarrow> run_blocks dev ops s;
     Some ((ok, bs) # rs, s)
   }"
| "run_blocks dev (WriteBlock n buf # ops) s = do {
     (ok, s) \<leftarrow> ext2_write_block dev (drive_index s) n (Some buf) s;
     (rs, s) \<leftarrow> run_blocks dev ops s;
     Some ((ok, []) # rs, s)
   }"

fun store_results :: "nat \<Rightarrow> block_op list \<Rightarrow> (nat \<Rightarrow> u8 list) \<Rightarrow> (bool \<times> u8 list) list" where
  "store_results k [] B = []"
| "store_results k (ReadBlock n # ops) B = (True, B (unat n)) # store_results k ops B"
| "store_results k (WriteBlock n buf # ops) B = (True, []) # store_results k ops (B(unat n := take k buf))"

fun store_after :: "nat \<Rightarrow> block_op list \<Rightarrow> (nat \<Rightarrow> u8 list) \<Rightarrow> nat \<Rightarrow> u8 list" where
  "store_after k [] B = B"
| "store_after k (ReadBlock n # ops) B = store_after k ops B"
| "store_after k (WriteBlock n buf # ops) B = store_after k ops (B(unat n := take k buf))"

fun op_ok :: "nat \<Rightarrow> nat \<Rightarrow> block_op \<Rightarrow> bool" where
  "op_ok m k (ReadBlock n) = (unat n < m)"
| "op_ok m k (WriteBlock n buf) = (unat n < m \<and> k \<le> length buf)"

lemma run_blocks_rep:
  assumes "block_rep lat b h0 dev s B" and "list_all (op_ok (nblocks s) (unat (block_size s))) ops"
  shows "\<exists>s'. run_blocks dev ops s = Some (store_results (unat (block_size s)) ops B, s')
    \<and> block_rep lat b h0 dev s' (store_after (unat (block_size s)) ops B) \<and> same_fs s s'"
  using assms
proof (induction ops arbitrary: s B)
  case (Cons op ops)
  show ?case
  proof (cases op)
    case (ReadBlock n)
    then obtain s1 where 1: "ext2_read_block dev (drive_index s) n False s = Some (True, B (unat n), s1)"
      "block_rep lat b h0 dev s1 B" "same_fs s s1"
      using read_block_rep [OF Cons.prems(1), of n] Cons.prems(2) by auto
    have ok: "list_all (op_ok (nblocks s1) (unat (block_size s1))) ops"
      using Cons.prems(2) by (simp add: same_fs_fields [OF 1(3)])
    from Cons.IH [OF 1(2) ok, unfolded same_fs_fields(5) [OF 1(3)]]
    obtain s2 where 2: "run_blocks dev ops s1 = Some (store_results (unat (block_size s)) ops B, s2)"
      "block_rep lat b h0 dev s2 (store_after (unat (block_size s)) ops B)" "same_fs s1 s2" by blast
    then show ?thesis using 1 same_fs_trans [OF 1(3) 2(3)] by (auto simp: ReadBlock)
  next
    case (WriteBlock n buf)
    let ?B = "B(unat n := take (unat (block_size s)) buf)"
    obtain s1 where 1: "ext2_write_block dev (drive_index s) n (Some buf) s = Some (True, s1)"
      "block_rep lat b h0 dev s1 ?B" "same_fs s s1"
      using write_block_rep [OF Cons.prems(1), of n buf] Cons.prems(2) WriteBlock by auto
    have ok: "list_all (op_ok (nblocks s1) (unat (block_size s1))) ops"
      using Cons.prems(2) by (simp add: same_fs_fields [OF 1(3)])
    from Cons.IH [OF 1(2) ok, unfolded same_fs_fields(5) [OF 1(3)]]
    obtain s2 where 2: "run_blocks dev ops s1 = Some (store_results (unat (block_size s)) ops ?B, s2)"
      "block_rep lat b h0 dev s2 (store_after (unat (block_size s)) ops ?B)" "same_fs s1 s2" by blast
    then show ?thesis using 1 same_fs_trans [OF 1(3) 2(3)] by (auto simp: WriteBlock simp del: fun_upd_apply)
  qed
qed (simp add: same_fs_refl)

text \<open>
  \<^bold>\<open>C10\<close>. On a drive that follows the ATA protocol the block layer of the mounted file system refines a
  store of blocks under every sequence of reads and writes: every access succeeds, a read gives the
  contents last written, whether the cache holds the block, has just given its entry to another block
  or could not get a page for it, and nothing else of the file system changes.
\<close>

theorem ext2_blocks_refine_store:
  assumes "block_rep lat b h0 dev s B" and "list_all (op_ok (nblocks s) (unat (block_size s))) ops"
  shows "\<exists>s'. run_blocks dev ops s = Some (store_results (unat (block_size s)) ops B, s')
    \<and> block_rep lat b h0 dev s' (store_after (unat (block_size s)) ops B) \<and> same_fs s s'"
  using assms by (rule run_blocks_rep)

text \<open>A file system with blocks of 1024 bytes on the first drive, with pages for its cache.\<close>

definition demo_fs :: ext2_state where
  "demo_fs = \<lparr>ata = demo_ata, frames = pmm_boot, initialized = True, mounted = True,
     io_buffer = Some (0x200000, replicate 8192 0), drive_index = 0, block_size = 1024, blocks_per_group = 8192,
     inodes_per_group = 32, inode_size = 128, groups_count = 1, blocks_count = 4096, inodes_count = 32,
     superblock = None, group_descs = None, open_files = [], current_dir = [0x2F],
     cache = replicate EXT2_CACHE_SIZE \<lparr>c_block_no = 0, c_data = Some (0x300000, []), c_dirty = False, c_valid = False\<rparr>\<rparr>"

text \<open>A channel whose drives are busy for three polls at a time, with the given sectors.\<close>

definition image_hd :: "(nat \<Rightarrow> u16 list) \<Rightarrow> hd" where
  "image_hd f = demo_hd\<lparr>hd_disk := (\<lambda>_. f)\<rparr>"

definition image_device :: "(nat \<Rightarrow> u16 list) \<Rightarrow> device" where
  "image_device f = hd_device (\<lambda>_. 3) 0x1F0 (image_hd f)"

definition image_block :: "(nat \<Rightarrow> u16 list) \<Rightarrow> nat \<Rightarrow> u8 list" where
  "image_block f m = bytes_of_words (f (2 * m)) @ bytes_of_words (f (2 * m + 1))"

lemma demo_ata_rep:
  assumes "\<And>n. length (f n) = 256"
  shows "ata_rep (\<lambda>_. 3) 0x1F0 (image_hd f) (image_device f) 0 demo_ata (\<lambda>n. bytes_of_words (f n))"
proof -
  have "hd_idle (hd_run (\<lambda>_. 3) 0x1F0 (image_hd f) (ata_io demo_ata)) (\<lambda>_. f)"
    using assms by (simp add: hd_idle_def image_hd_def demo_ata_def demo_hd_def ATA_TIMEOUT_def)
  then show ?thesis
    unfolding ata_rep_def image_device_def using demo_ata_ok(2,3) hd_device_channel [of "\<lambda>_. 3"]
    by (auto simp: ATA_TIMEOUT_def)
qed

lemma demo_block_rep:
  assumes "\<And>n. length (f n) = 256" and "s = demo_fs\<lparr>superblock := sb, group_descs := gs, open_files := fs, io_buffer := buf\<rparr>"
  shows "block_rep (\<lambda>_. 3) 0x1F0 (image_hd f) (image_device f) s (image_block f)"
proof -
  have "ata_rep (\<lambda>_. 3) 0x1F0 (image_hd f) (image_device f) 0 demo_ata (\<lambda>n. bytes_of_words (f n))"
    by (rule demo_ata_rep [OF assms(1)])
  moreover have "image_block f m = disk_block 2 (\<lambda>n. bytes_of_words (f n)) m" for m
    by (simp add: image_block_def disk_block_def upt_rec mult.commute)
  ultimately show ?thesis unfolding assms(2) block_rep_def by (auto simp: demo_fs_def cache_ok_def)
qed

theorem ext2_blocks_refine_store_witness:
  "\<exists>s'. run_blocks (image_device (\<lambda>_. replicate 256 0)) [ReadBlock 9, WriteBlock 9 (replicate 1024 0xAA), ReadBlock 9] demo_fs
      = Some ([(True, replicate 1024 0), (True, []), (True, replicate 1024 0xAA)], s')"
proof -
  let ?ops = "[ReadBlock 9, WriteBlock 9 (replicate 1024 0xAA), ReadBlock 9]"
  have rep: "block_rep (\<lambda>_. 3) 0x1F0 (image_hd (\<lambda>_. replicate 256 0)) (image_device (\<lambda>_. replicate 256 0))
      demo_fs (image_block (\<lambda>_. replicate 256 0))"
    by (rule demo_block_rep [where sb = None and gs = None and fs = "[]"]) (simp_all add: demo_fs_def)
  have bs: "unat (block_size demo_fs) = 1024" "nblocks demo_fs = 134217728" by (simp_all add: demo_fs_def nblocks_def)
  have "image_block (\<lambda>_. replicate 256 0) 9 = replicate 1024 0"
    by (simp add: image_block_def bytes_of_words_def map_replicate_const [symmetric] numeral_eq_Suc)
  then have r: "store_results 1024 ?ops (image_block (\<lambda>_. replicate 256 0))
      = [(True, replicate 1024 0), (True, []), (True, replicate 1024 0xAA)]"
    by simp
  show ?thesis using ext2_blocks_refine_store [OF rep, of ?ops] unfolding bs r by (auto simp del: replicate.simps)
qed

end
