(* ===== verification/Ext2_Store.thy ===== *)
theory Ext2_Store
  imports Ext2_Cache Ext2_Inode
begin

text \<open>
  The interface between the block layer of the file system and everything above it: a locale with what a
  mounted file system promises as a store of blocks, the laws of \<open>io_buffer\<close> that follow from it, and
  the block layer on an ATA drive as its instance.
\<close>

section \<open>The interface\<close>

text \<open>What the representation of a store depends on.\<close>

definition same_store :: "ext2_state \<Rightarrow> ext2_state \<Rightarrow> bool" where
  "same_store s s' \<longleftrightarrow> ata s' = ata s \<and> mounted s' = mounted s \<and> drive_index s' = drive_index s
     \<and> block_size s' = block_size s \<and> cache s' = cache s"

locale block_store =
  fixes dev :: device and rep :: "ext2_state \<Rightarrow> (nat \<Rightarrow> u8 list) \<Rightarrow> bool"
  assumes block_read: "rep s B \<Longrightarrow> unat n < nblocks s \<Longrightarrow>
      \<exists>s'. ext2_read_block dev (drive_index s) n False s = Some (True, B (unat n), s') \<and> rep s' B \<and> same_fs s s'"
    and block_write: "rep s B \<Longrightarrow> unat n < nblocks s \<Longrightarrow> unat (block_size s) \<le> length buf \<Longrightarrow>
      \<exists>s'. ext2_write_block dev (drive_index s) n (Some buf) s = Some (True, s')
        \<and> rep s' (B(unat n := take (unat (block_size s)) buf)) \<and> same_fs s s'"
    and block_length: "rep s B \<Longrightarrow> m < nblocks s \<Longrightarrow> length (B m) = unat (block_size s)"
    and block_sizes: "rep s B \<Longrightarrow> block_size s \<in> {1024, 2048, 4096}"
    and block_mounted: "rep s B \<Longrightarrow> mounted s"
    and block_frame: "rep s B \<Longrightarrow> same_store s s' \<Longrightarrow> rep s' B"

interpretation ext2_fs: block_store dev "block_rep lat b h0 dev" for lat b h0 dev
proof
  show "block_rep lat b h0 dev s' B" if "block_rep lat b h0 dev s B" "same_store s s'" for s B s'
    using that by (simp add: block_rep_def same_store_def nblocks_def)
  show "block_size s \<in> {1024, 2048, 4096}" "mounted s" if "block_rep lat b h0 dev s B" for s B
    using that by (simp_all add: block_rep_def)
qed (fact read_block_rep write_block_rep block_rep_length)+

section \<open>The buffer\<close>

text \<open>The state with another disk, cache and buffer, and otherwise the same.\<close>

definition same_meta :: "ext2_state \<Rightarrow> ext2_state \<Rightarrow> bool" where
  "same_meta s s' \<longleftrightarrow> (\<exists>a q c buf. s' = s\<lparr>ata := a, frames := q, cache := c, io_buffer := buf\<rparr>)"

lemma same_metaI: "s' = s\<lparr>ata := a, frames := q, cache := c, io_buffer := buf\<rparr> \<Longrightarrow> same_meta s s'"
  unfolding same_meta_def by blast

lemma same_meta_refl: "same_meta s s"
  by (rule same_metaI [where a = "ata s" and q = "frames s" and c = "cache s" and buf = "io_buffer s"]) simp

lemma same_meta_trans: "same_meta s s' \<Longrightarrow> same_meta s' s'' \<Longrightarrow> same_meta s s''"
  unfolding same_meta_def by (elim exE, simp) blast

lemma same_meta_io: "same_meta s (s\<lparr>io_buffer := buf\<rparr>)"
  by (rule same_metaI [where a = "ata s" and q = "frames s" and c = "cache s" and buf = buf]) simp

lemma same_fs_meta: "same_fs s s' \<Longrightarrow> same_meta s s'"
  unfolding same_fs_def by (elim exE) (rule same_metaI [where buf = "io_buffer s"], simp)

lemma same_meta_fields:
  assumes "same_meta s s'"
  shows "initialized s' = initialized s" "mounted s' = mounted s" "drive_index s' = drive_index s"
    "block_size s' = block_size s" "blocks_per_group s' = blocks_per_group s"
    "inodes_per_group s' = inodes_per_group s" "inode_size s' = inode_size s" "groups_count s' = groups_count s"
    "superblock s' = superblock s" "group_descs s' = group_descs s" "open_files s' = open_files s"
    "current_dir s' = current_dir s" "nblocks s' = nblocks s"
  using assms by (auto simp: same_meta_def nblocks_def)

text \<open>The buffer has its 8192 bytes; the first block of it.\<close>

definition io_ok :: "ext2_state \<Rightarrow> bool" where
  "io_ok s \<longleftrightarrow> (\<exists>p buf. io_buffer s = Some (p, buf) \<and> length buf = 8192)"

definition io_data :: "ext2_state \<Rightarrow> u8 list" where
  "io_data s = (case io_buffer s of None \<Rightarrow> [] | Some (_, buf) \<Rightarrow> take (unat (block_size s)) buf)"

lemma io_get_data:
  assumes "io_ok s" and "off + n \<le> unat (block_size s)" and "unat (block_size s) \<le> 8192"
  shows "io_get off n s = Some (take n (drop off (io_data s)))"
  using assms by (auto simp: io_ok_def io_get_def io_data_def get_bytes_def drop_take)

lemma io_put_data:
  assumes "io_ok s" and "off + length bs \<le> unat (block_size s)" and "unat (block_size s) \<le> 8192"
  shows "\<exists>s'. io_put off bs s = Some s' \<and> io_ok s' \<and> same_meta s s' \<and> same_store s s'
    \<and> io_data s' = take off (io_data s) @ bs @ drop (off + length bs) (io_data s)"
proof -
  obtain p buf where buf: "io_buffer s = Some (p, buf)" "length buf = 8192" using assms(1) by (auto simp: io_ok_def)
  define buf' where "buf' = take off buf @ bs @ drop (off + length bs) buf"
  define s' where "s' = s\<lparr>io_buffer := Some (p, buf')\<rparr>"
  have "io_put off bs s = Some s'"
    using buf assms(2,3) by (simp add: io_put_def put_bytes_def s'_def buf'_def)
  moreover have "io_ok s'" using buf(2) assms(2,3) by (simp add: io_ok_def s'_def buf'_def)
  moreover have "io_data s' = take off (io_data s) @ bs @ drop (off + length bs) (io_data s)"
    using buf assms(2,3) by (cases "unat (block_size s) = off") (auto simp: io_data_def s'_def buf'_def drop_take min_def)
  moreover have "same_meta s s'" unfolding s'_def by (rule same_meta_io)
  moreover have "same_store s s'" by (simp add: same_store_def s'_def)
  ultimately show ?thesis by blast
qed

context block_store
begin

text \<open>A store with the buffer.\<close>

definition io_rep :: "ext2_state \<Rightarrow> (nat \<Rightarrow> u8 list) \<Rightarrow> bool" where
  "io_rep s B \<longleftrightarrow> rep s B \<and> io_ok s"

lemma io_rep_facts:
  assumes "io_rep s B"
  shows "rep s B" "io_ok s" "mounted s" "unat (block_size s) \<le> 4096" "1024 \<le> unat (block_size s)" "block_size s \<noteq> 0"
  using assms block_sizes [of s B] block_mounted [of s B] by (auto simp: io_rep_def)

lemma read_io_rep:
  assumes rep: "io_rep s B" and n: "unat n < nblocks s"
  shows "\<exists>s'. read_io dev (drive_index s) n s = Some (True, s') \<and> io_rep s' B \<and> same_meta s s' \<and> io_data s' = B (unat n)"
proof -
  obtain s1 where 1: "ext2_read_block dev (drive_index s) n False s = Some (True, B (unat n), s1)" "rep s1 B" "same_fs s s1"
    using block_read [OF io_rep_facts(1) [OF rep] n] by blast
  obtain p buf where buf: "io_buffer s = Some (p, buf)" "length buf = 8192" using rep by (auto simp: io_rep_def io_ok_def)
  have len: "length (B (unat n)) = unat (block_size s)" by (rule block_length [OF io_rep_facts(1) [OF rep] n])
  define buf' where "buf' = B (unat n) @ drop (unat (block_size s)) buf"
  define s' where "s' = s1\<lparr>io_buffer := Some (p, buf')\<rparr>"
  have le: "unat (block_size s) \<le> 8192" using io_rep_facts(4) [OF rep] by simp
  have "read_io dev (drive_index s) n s = Some (True, s')"
    using 1(1) buf len le same_fs_fields(3) [OF 1(3)] by (simp add: read_io_def put_bytes_def s'_def buf'_def)
  moreover have "io_rep s' B"
    using block_frame [OF 1(2), of s'] buf(2) len le by (simp add: io_rep_def io_ok_def s'_def buf'_def same_store_def)
  moreover have "same_meta s s'"
    using same_meta_trans [OF same_fs_meta [OF 1(3)] same_meta_io] by (simp add: s'_def)
  moreover have "io_data s' = B (unat n)"
    using len same_fs_fields(5) [OF 1(3)] by (simp add: io_data_def s'_def buf'_def)
  ultimately show ?thesis by blast
qed

lemma write_io_rep:
  assumes rep: "io_rep s B" and n: "unat n < nblocks s"
  shows "\<exists>s'. write_io dev (drive_index s) n s = Some (True, s') \<and> io_rep s' (B(unat n := io_data s)) \<and> same_meta s s'"
proof -
  obtain p buf where buf: "io_buffer s = Some (p, buf)" "length buf = 8192" using rep by (auto simp: io_rep_def io_ok_def)
  have "unat (block_size s) \<le> length buf" using io_rep_facts(4) [OF rep] buf(2) by simp
  from block_write [OF io_rep_facts(1) [OF rep] n this]
  obtain s' where 1: "ext2_write_block dev (drive_index s) n (Some buf) s = Some (True, s')"
    "rep s' (B(unat n := take (unat (block_size s)) buf))" "same_fs s s'" by blast
  have "io_rep s' (B(unat n := io_data s))"
    using 1(2) buf same_fs_fields(3) [OF 1(3)] by (simp add: io_rep_def io_ok_def io_data_def)
  then show ?thesis using 1(1) buf(1) same_fs_meta [OF 1(3)] by (auto simp: write_io_def)
qed

lemma io_rep_put:
  assumes rep: "io_rep s B" and "off + length bs \<le> unat (block_size s)"
  shows "\<exists>s'. io_put off bs s = Some s' \<and> io_rep s' B \<and> same_meta s s'
    \<and> io_data s' = take off (io_data s) @ bs @ drop (off + length bs) (io_data s)"
proof -
  have "unat (block_size s) \<le> 8192" using io_rep_facts(4) [OF rep] by simp
  from io_put_data [OF io_rep_facts(2) [OF rep] assms(2) this] show ?thesis
    using block_frame [OF io_rep_facts(1) [OF rep]] by (auto simp: io_rep_def)
qed

lemma io_rep_get:
  assumes "io_rep s B" and "off + n \<le> unat (block_size s)"
  shows "io_get off n s = Some (take n (drop off (io_data s)))"
  using io_get_data io_rep_facts [OF assms(1)] assms(2) by simp

end

end
