(* ===== verification/Ext2_Inode_Correct.thy ===== *)
theory Ext2_Inode_Correct
  imports Ext2_Store
begin

text \<open>
  Inodes are an array on the disk: the layout of an inode, the places of the inodes in the tables of the
  groups, and reading and writing them.
\<close>

section \<open>The layout of an inode\<close>

definition inode_wf :: "ext2_inode_t \<Rightarrow> bool" where
  "inode_wf i \<longleftrightarrow> length (i_block i) = 15 \<and> length (i_osd2 i) = 12"

lemma length_concat_le: "length (concat (map (le_bytes n) ws)) = n * length ws"
  by (induction ws) simp_all

lemma drop_concat_le:
  "k \<le> length ws \<Longrightarrow> drop (n * k) (concat (map (le_bytes n) ws)) = concat (map (le_bytes n) (drop k ws))"
  by (induction ws arbitrary: k) (auto simp: drop_Cons' algebra_simps gr0_conv_Suc)

lemma take_concat_le:
  assumes "k < length ws"
  shows "take n (drop (n * k) (concat (map (le_bytes n) ws))) = le_bytes n (ws ! k)"
proof -
  have "drop k ws = ws ! k # drop (Suc k) ws" by (rule Cons_nth_drop_Suc [symmetric, OF assms])
  then show ?thesis using assms by (simp add: drop_concat_le)
qed

lemma length_inode_bytes: "inode_wf i \<Longrightarrow> length (inode_bytes i) = 128"
  by (simp add: inode_bytes_def inode_wf_def length_concat_le)

lemma le_word_le_bytes_16 [simp]: "le_word (le_bytes 2 (v :: u16)) = v"
  and le_word_le_bytes_32 [simp]: "le_word (le_bytes 4 (w :: u32)) = w"
  by (simp_all add: le_word_bytes)

lemma inode_of_inode_bytes:
  assumes "inode_wf i"
  shows "inode_of_bytes (inode_bytes i) = i"
proof -
  have b: "length (concat (map (le_bytes 4) (i_block i))) = 60" "length (i_block i) = 15" "length (i_osd2 i) = 12"
    using assms by (simp_all add: inode_wf_def length_concat_le)
  have field: "field (inode_bytes i) (40 + 4 * k) 4 = i_block i ! k" if "k < 15" for k
  proof -
    have "4 * k + 4 \<le> 60" using that by simp
    moreover have "take 4 (drop (4 * k) (concat (map (le_bytes 4) (i_block i)))) = le_bytes 4 (i_block i ! k)"
      using take_concat_le [of k "i_block i" 4] that b(2) by simp
    ultimately show ?thesis using b(1) by (simp add: field_def inode_bytes_def)
  qed
  have blocks: "map (\<lambda>k. field (inode_bytes i) (40 + 4 * k) 4) [0..<15] = i_block i"
    by (rule nth_equalityI) (simp_all add: b(2) field)
  show ?thesis
    unfolding inode_of_bytes_def blocks by (simp add: field_def inode_bytes_def b)
qed

lemma inode_wf_of_bytes: "length bs = 128 \<Longrightarrow> inode_wf (inode_of_bytes bs)"
  by (simp add: inode_wf_def inode_of_bytes_def)

lemma inode_wf_zero: "inode_wf zero_inode"
  by (simp add: zero_inode_def inode_wf_of_bytes)

section \<open>The places of the inodes\<close>

definition inode_table :: "ext2_state \<Rightarrow> nat \<Rightarrow> nat" where
  "inode_table s g = unat (bg_inode_table (snd (the (group_descs s)) ! g))"

definition per_block :: "ext2_state \<Rightarrow> nat" where
  "per_block s = unat (block_size s) div unat (inode_size s)"

definition table_blocks :: "ext2_state \<Rightarrow> nat" where
  "table_blocks s = (unat (inodes_per_group s) + per_block s - 1) div per_block s"

text \<open>
  The group descriptors are there, inodes are not larger than a block, and the tables of the groups are
  blocks of the disk and do not overlap.
\<close>

definition inodes_ok :: "ext2_state \<Rightarrow> bool" where
  "inodes_ok s \<longleftrightarrow> 128 \<le> inode_size s \<and> inode_size s \<le> block_size s \<and> inodes_per_group s \<noteq> 0
     \<and> (\<exists>p gs. group_descs s = Some (p, gs) \<and> unat (groups_count s) \<le> length gs)
     \<and> (\<forall>g < unat (groups_count s). inode_table s g + table_blocks s \<le> nblocks s)
     \<and> (\<forall>g < unat (groups_count s). \<forall>h < unat (groups_count s). g \<noteq> h \<longrightarrow>
          inode_table s g + table_blocks s \<le> inode_table s h \<or> inode_table s h + table_blocks s \<le> inode_table s g)"

definition inode_valid :: "ext2_state \<Rightarrow> u32 \<Rightarrow> bool" where
  "inode_valid s i \<longleftrightarrow> i \<noteq> 0 \<and> (unat i - 1) div unat (inodes_per_group s) < unat (groups_count s)"

definition inode_index :: "ext2_state \<Rightarrow> u32 \<Rightarrow> nat" where
  "inode_index s i = (unat i - 1) mod unat (inodes_per_group s)"

definition inode_block :: "ext2_state \<Rightarrow> u32 \<Rightarrow> nat" where
  "inode_block s i = inode_table s ((unat i - 1) div unat (inodes_per_group s)) + inode_index s i div per_block s"

definition inode_off :: "ext2_state \<Rightarrow> u32 \<Rightarrow> nat" where
  "inode_off s i = inode_index s i mod per_block s * unat (inode_size s)"

lemma per_block_pos: "inodes_ok s \<Longrightarrow> 0 < per_block s"
proof -
  assume "inodes_ok s"
  then have "128 \<le> unat (inode_size s)" "unat (inode_size s) \<le> unat (block_size s)"
    by (simp_all add: inodes_ok_def word_le_nat_alt)
  then show ?thesis by (simp add: per_block_def div_greater_zero_iff)
qed

lemma nblocks_le: "nblocks s \<le> 2 ^ 28"
  by (simp add: nblocks_def div_le_dividend)

lemma inode_index_block:
  assumes "inodes_ok s"
  shows "inode_index s i div per_block s < table_blocks s"
proof -
  have p: "0 < per_block s" by (rule per_block_pos [OF assms])
  have "0 < unat (inodes_per_group s)" using assms by (simp add: inodes_ok_def unat_gt_0)
  then have "inode_index s i < unat (inodes_per_group s)" by (simp add: inode_index_def)
  then have "(inode_index s i + per_block s) div per_block s \<le> (unat (inodes_per_group s) + per_block s - 1) div per_block s"
    by (intro div_le_mono) linarith
  moreover have "(inode_index s i + per_block s) div per_block s = inode_index s i div per_block s + 1"
    using p by (simp add: div_add_self2)
  ultimately show ?thesis by (simp add: table_blocks_def)
qed

lemma inode_size_ge: "inodes_ok s \<Longrightarrow> 128 \<le> unat (inode_size s)"
  by (simp add: inodes_ok_def word_le_nat_alt)

lemma inode_off_le:
  assumes "inodes_ok s"
  shows "inode_off s i + unat (inode_size s) \<le> unat (block_size s)"
proof -
  have "inode_index s i mod per_block s + 1 \<le> per_block s" using per_block_pos [OF assms] by (simp add: Suc_leI)
  then have "(inode_index s i mod per_block s + 1) * unat (inode_size s) \<le> per_block s * unat (inode_size s)"
    by (rule mult_le_mono1)
  also have "\<dots> \<le> unat (block_size s)" by (simp add: per_block_def)
  finally show "inode_off s i + unat (inode_size s) \<le> unat (block_size s)" by (simp add: inode_off_def)
qed

lemma inode_block_less:
  assumes "inodes_ok s" "inode_valid s i"
  shows "inode_block s i < nblocks s"
  using assms inode_index_block [OF assms(1), of i] unfolding inodes_ok_def inode_valid_def inode_block_def
  by (metis (no_types, lifting) add_less_cancel_left order_less_le_trans)

lemma inode_place_ok:
  assumes ok: "inodes_ok s" and v: "inode_valid s i"
  shows "inode_place i s = Some (Some (of_nat (inode_block s i), inode_off s i))"
proof -
  let ?g = "(i - 1) div inodes_per_group s"
  obtain p gs where gs: "group_descs s = Some (p, gs)" "unat (groups_count s) \<le> length gs" using ok by (auto simp: inodes_ok_def)
  have nz: "inodes_per_group s \<noteq> 0" "inode_size s \<noteq> 0" using ok by (auto simp: inodes_ok_def)
  have i: "unat (i - 1) = unat i - 1" using v by (simp add: inode_valid_def unat_minus_one)
  have g: "unat ?g = (unat i - 1) div unat (inodes_per_group s)" by (simp add: unat_div i)
  then have g': "?g < groups_count s" using v by (simp add: inode_valid_def word_less_nat_alt)
  have gd: "group_desc ?g s = Some (gs ! unat ?g)"
    using g' gs by (simp add: group_desc_def word_less_nat_alt)
  have pb: "unat (block_size s div inode_size s) = per_block s" by (simp add: unat_div per_block_def)
  then have pb0: "block_size s div inode_size s \<noteq> 0" using per_block_pos [OF ok] by auto
  have idx: "unat ((i - 1) mod inodes_per_group s) = inode_index s i" by (simp add: unat_mod i inode_index_def)
  have blk: "bg_inode_table (gs ! unat ?g) + (i - 1) mod inodes_per_group s div (block_size s div inode_size s) = of_nat (inode_block s i)"
    unfolding inode_block_def inode_table_def gs(1) g [symmetric] idx [symmetric] pb [symmetric]
    by (simp add: unat_div [symmetric])
  have "unat ((i - 1) mod inodes_per_group s mod (block_size s div inode_size s)) * unat (inode_size s) = inode_off s i"
    by (simp add: unat_mod pb idx [unfolded unat_mod] inode_off_def)
  moreover have "inode_off s i < 2 ^ 32"
    using inode_off_le [OF ok, of i] unsigned_less [of "block_size s", where ?'a = nat] inode_size_ge [OF ok] by simp
  ultimately have off: "unat ((i - 1) mod inodes_per_group s mod (block_size s div inode_size s) * inode_size s) = inode_off s i"
    by (simp add: unat_mult_no_wrap)
  show ?thesis using nz pb0 g' gd blk off by (simp add: inode_place_def checked_div_def Let_def not_le)
qed

lemma inode_place_apart:
  assumes ok: "inodes_ok s" and v: "inode_valid s i" "inode_valid s j" and "i \<noteq> j" and same: "inode_block s i = inode_block s j"
  shows "inode_off s i + 128 \<le> inode_off s j \<or> inode_off s j + 128 \<le> inode_off s i"
proof -
  let ?g = "\<lambda>i. (unat i - 1) div unat (inodes_per_group s)"
  have group: "?g i = ?g j"
  proof (rule ccontr)
    assume "?g i \<noteq> ?g j"
    then have "inode_table s (?g i) + table_blocks s \<le> inode_table s (?g j) \<or> inode_table s (?g j) + table_blocks s \<le> inode_table s (?g i)"
      using ok v unfolding inodes_ok_def inode_valid_def by blast
    then show False using same inode_index_block [OF ok, of i] inode_index_block [OF ok, of j] unfolding inode_block_def by linarith
  qed
  then have "inode_index s i div per_block s = inode_index s j div per_block s" using same by (simp add: inode_block_def)
  moreover have "inode_index s i \<noteq> inode_index s j"
  proof
    assume "inode_index s i = inode_index s j"
    then have "unat i - 1 = unat j - 1" using group by (metis inode_index_def div_mult_mod_eq)
    moreover have "0 < unat i" "0 < unat j" using v by (auto simp: inode_valid_def unat_gt_0)
    ultimately show False using \<open>i \<noteq> j\<close> by (simp add: word_unat_eq_iff)
  qed
  ultimately have "inode_index s i mod per_block s \<noteq> inode_index s j mod per_block s" by (metis div_mult_mod_eq)
  then have "(inode_index s i mod per_block s + 1) * unat (inode_size s) \<le> inode_off s j
      \<or> (inode_index s j mod per_block s + 1) * unat (inode_size s) \<le> inode_off s i"
    unfolding inode_off_def by (metis Suc_eq_plus1 Suc_leI linorder_neqE_nat mult_le_mono1)
  then show ?thesis using inode_size_ge [OF ok] by (auto simp: inode_off_def)
qed

section \<open>The inodes of a store\<close>

definition inode_of :: "ext2_state \<Rightarrow> (nat \<Rightarrow> u8 list) \<Rightarrow> u32 \<Rightarrow> ext2_inode_t" where
  "inode_of s B i = inode_of_bytes (take 128 (drop (inode_off s i) (B (inode_block s i))))"

definition put_inode :: "ext2_state \<Rightarrow> u32 \<Rightarrow> ext2_inode_t \<Rightarrow> (nat \<Rightarrow> u8 list) \<Rightarrow> nat \<Rightarrow> u8 list" where
  "put_inode s i x B = B(inode_block s i :=
     take (inode_off s i) (B (inode_block s i)) @ inode_bytes x @ drop (inode_off s i + 128) (B (inode_block s i)))"

lemma inode_of_put:
  assumes ok: "inodes_ok s" "inode_valid s i" "inode_valid s j" and x: "inode_wf x"
    and len: "length (B (inode_block s i)) = unat (block_size s)"
  shows "inode_of s (put_inode s i x B) j = (if j = i then x else inode_of s B j)"
proof -
  let ?old = "B (inode_block s i)"
  let ?new = "take (inode_off s i) ?old @ inode_bytes x @ drop (inode_off s i + 128) ?old"
  have le: "inode_off s i + 128 \<le> length ?old" using inode_off_le [OF ok(1), of i] inode_size_ge [OF ok(1)] len by linarith
  have put: "put_bytes ?old (inode_off s i) (inode_bytes x) = Some ?new"
    using le by (simp add: put_bytes_def length_inode_bytes [OF x])
  have get: "get_bytes bs off 128 = Some (take 128 (drop off bs))" if "off + 128 \<le> length bs" for bs off
    using that by (simp add: get_bytes_def)
  consider "j = i" | "inode_block s j \<noteq> inode_block s i" | "j \<noteq> i" "inode_block s j = inode_block s i" by blast
  then show ?thesis
  proof cases
    case 1
    have "take 128 (drop (inode_off s i) ?new) = inode_bytes x"
      using get_put_same [OF put] le by (simp add: get length_inode_bytes [OF x])
    then show ?thesis using 1 by (simp add: inode_of_def put_inode_def inode_of_inode_bytes [OF x])
  next
    case 2
    then show ?thesis by (auto simp: inode_of_def put_inode_def)
  next
    case 3
    have "inode_off s j + 128 \<le> length ?old" using inode_off_le [OF ok(1), of j] inode_size_ge [OF ok(1)] len by linarith
    moreover have "inode_off s j + 128 \<le> inode_off s i \<or> inode_off s i + 128 \<le> inode_off s j"
      using inode_place_apart [OF ok(1,2,3)] 3 by auto
    ultimately have "take 128 (drop (inode_off s j) ?new) = take 128 (drop (inode_off s j) ?old)"
      using get_put_other [OF put, of "inode_off s j" 128] le by (simp add: get length_inode_bytes [OF x])
    then show ?thesis using 3 by (simp add: inode_of_def put_inode_def)
  qed
qed

lemma same_meta_inodes:
  assumes "same_meta s s'"
  shows "inodes_ok s' = inodes_ok s" "inode_valid s' = inode_valid s" "inode_of s' = inode_of s" "put_inode s' = put_inode s"
    "inode_block s' = inode_block s"
  using same_meta_fields [OF assms]
  by (auto simp: inodes_ok_def inode_valid_def inode_of_def put_inode_def inode_off_def inode_block_def inode_index_def
      per_block_def table_blocks_def inode_table_def fun_eq_iff)

context block_store
begin

lemma read_inode_rep:
  assumes rep: "io_rep s B" and ok: "inodes_ok s" "inode_valid s i"
  shows "\<exists>s'. ext2_read_inode dev (drive_index s) i s = Some (Some (inode_of s B i), s') \<and> io_rep s' B \<and> same_meta s s'"
proof -
  have n: "unat (of_nat (inode_block s i) :: u32) = inode_block s i"
    using inode_block_less [OF ok] nblocks_le [of s] by (simp add: unat_of_nat)
  obtain s' where s': "read_io dev (drive_index s) (of_nat (inode_block s i)) s = Some (True, s')" "io_rep s' B" "same_meta s s'"
    "io_data s' = B (inode_block s i)"
    using read_io_rep [OF rep, of "of_nat (inode_block s i)"] inode_block_less [OF ok] n by auto
  have "io_get (inode_off s i) 128 s' = Some (take 128 (drop (inode_off s i) (B (inode_block s i))))"
    using io_rep_get [OF s'(2), of "inode_off s i" 128] inode_off_le [OF ok(1), of i] inode_size_ge [OF ok(1)] same_meta_fields(4) [OF s'(3)] s'(4) by simp
  then show ?thesis using s' ok(2) inode_place_ok [OF ok]
    by (auto simp: ext2_read_inode_def inode_of_def inode_valid_def)
qed

lemma write_inode_rep:
  assumes rep: "io_rep s B" and ok: "inodes_ok s" "inode_valid s i" and x: "inode_wf x"
  shows "\<exists>s'. ext2_write_inode dev (drive_index s) i x s = Some (True, s') \<and> io_rep s' (put_inode s i x B) \<and> same_meta s s'"
proof -
  have n: "unat (of_nat (inode_block s i) :: u32) = inode_block s i"
    using inode_block_less [OF ok] nblocks_le [of s] by (simp add: unat_of_nat)
  obtain s1 where 1: "read_io dev (drive_index s) (of_nat (inode_block s i)) s = Some (True, s1)" "io_rep s1 B" "same_meta s s1"
    "io_data s1 = B (inode_block s i)"
    using read_io_rep [OF rep, of "of_nat (inode_block s i)"] inode_block_less [OF ok] n by auto
  have "inode_off s i + length (inode_bytes x) \<le> unat (block_size s1)"
    using inode_off_le [OF ok(1), of i] inode_size_ge [OF ok(1)] length_inode_bytes [OF x] same_meta_fields(4) [OF 1(3)] by simp
  from io_rep_put [OF 1(2) this] obtain s2 where 2: "io_put (inode_off s i) (inode_bytes x) s1 = Some s2" "io_rep s2 B"
    "same_meta s1 s2" "io_data s2 = take (inode_off s i) (B (inode_block s i)) @ inode_bytes x @ drop (inode_off s i + 128) (B (inode_block s i))"
    by (auto simp: 1(4) length_inode_bytes [OF x])
  have m2: "same_meta s s2" by (rule same_meta_trans [OF 1(3) 2(3)])
  obtain s3 where 3: "write_io dev (drive_index s) (of_nat (inode_block s i)) s2 = Some (True, s3)"
    "io_rep s3 (put_inode s i x B)" "same_meta s2 s3"
    using write_io_rep [OF 2(2), of "of_nat (inode_block s i)"] inode_block_less [OF ok] n
    by (auto simp: 2(4) same_meta_fields [OF m2] put_inode_def)
  show ?thesis using 1(1) 2(1) 3 ok(2) inode_place_ok [OF ok] same_meta_trans [OF m2 3(3)]
    by (auto simp: ext2_write_inode_def inode_valid_def)
qed

end

section \<open>Properties\<close>

lemma inode_invalid:
  assumes "inodes_ok s" and "\<not> inode_valid s i"
  shows "ext2_read_inode dev drive i s = Some (None, s)" "ext2_write_inode dev drive i x s = Some (False, s)"
proof -
  have nz: "inodes_per_group s \<noteq> 0" using assms(1) by (simp add: inodes_ok_def)
  have "inode_place i s = Some None" if "i \<noteq> 0"
  proof -
    have "unat ((i - 1) div inodes_per_group s) = (unat i - 1) div unat (inodes_per_group s)"
      using that by (simp add: unat_div unat_minus_one)
    then have "groups_count s \<le> (i - 1) div inodes_per_group s"
      using assms(2) that by (simp add: inode_valid_def word_le_nat_alt not_less)
    then show ?thesis using nz by (simp add: inode_place_def checked_div_def Let_def)
  qed
  then show "ext2_read_inode dev drive i s = Some (None, s)" "ext2_write_inode dev drive i x s = Some (False, s)"
    by (simp_all add: ext2_read_inode_def ext2_write_inode_def)
qed

text \<open>
  \<^bold>\<open>C16\<close>. The inodes of a mounted file system are an array on the disk: reading inode \<open>i\<close> gives its entry
  and changes no block; writing it changes exactly this entry, so that it is read back bit for bit, every
  other inode is what it was, and so is every block other than the one that holds it. A number that no
  group has is refused without any access.
\<close>

theorem ext2_inodes_refine_array:
  assumes rep: "block_rep lat b h0 dev s B" "io_ok s" and ok: "inodes_ok s" "inode_valid s i" and x: "inode_wf x"
  shows "(\<exists>s'. ext2_read_inode dev (drive_index s) i s = Some (Some (inode_of s B i), s') \<and> block_rep lat b h0 dev s' B
        \<and> same_meta s s')
    \<and> (\<exists>s' B'. ext2_write_inode dev (drive_index s) i x s = Some (True, s') \<and> block_rep lat b h0 dev s' B' \<and> same_meta s s'
        \<and> (\<forall>j. inode_valid s j \<longrightarrow> inode_of s' B' j = (if j = i then x else inode_of s B j))
        \<and> (\<forall>n. n \<noteq> inode_block s i \<longrightarrow> B' n = B n))
    \<and> (\<forall>j. \<not> inode_valid s j \<longrightarrow> ext2_read_inode dev (drive_index s) j s = Some (None, s)
        \<and> ext2_write_inode dev (drive_index s) j x s = Some (False, s))"
proof (intro conjI allI impI)
  have io: "ext2_fs.io_rep lat b h0 dev s B" using rep by (simp add: ext2_fs.io_rep_def)
  show "\<exists>s'. ext2_read_inode dev (drive_index s) i s = Some (Some (inode_of s B i), s') \<and> block_rep lat b h0 dev s' B \<and> same_meta s s'"
    using ext2_fs.read_inode_rep [OF io ok] unfolding ext2_fs.io_rep_def by blast
  obtain s' where s': "ext2_write_inode dev (drive_index s) i x s = Some (True, s')"
    "block_rep lat b h0 dev s' (put_inode s i x B)" "same_meta s s'"
    using ext2_fs.write_inode_rep [OF io ok x] unfolding ext2_fs.io_rep_def by blast
  have "length (B (inode_block s i)) = unat (block_size s)" by (rule block_rep_length [OF rep(1) inode_block_less [OF ok]])
  then have "inode_of s' (put_inode s i x B) j = (if j = i then x else inode_of s B j)" if "inode_valid s j" for j
    unfolding same_meta_inodes [OF s'(3)] by (rule inode_of_put [OF ok that x])
  with s' show "\<exists>s' B'. ext2_write_inode dev (drive_index s) i x s = Some (True, s') \<and> block_rep lat b h0 dev s' B' \<and> same_meta s s'
        \<and> (\<forall>j. inode_valid s j \<longrightarrow> inode_of s' B' j = (if j = i then x else inode_of s B j))
        \<and> (\<forall>n. n \<noteq> inode_block s i \<longrightarrow> B' n = B n)"
    by (intro exI [of _ s'] exI [of _ "put_inode s i x B"]) (simp add: put_inode_def)
qed (simp_all add: inode_invalid [OF ok(1)])

text \<open>The example with the tables of one group: the bitmaps in blocks 3 and 4, the inodes from block 5 on.\<close>

definition demo_group :: ext2_group_desc_t where
  "demo_group = \<lparr>bg_block_bitmap = 3, bg_inode_bitmap = 4, bg_inode_table = 5, bg_free_blocks_count = 100,
     bg_free_inodes_count = 20, bg_used_dirs_count = 1, bg_pad = 0, bg_reserved = replicate 12 0\<rparr>"

definition demo_super :: ext2_superblock_t where
  "demo_super = (superblock_of_bytes (replicate 1024 0))\<lparr>s_free_blocks_count := 100, s_free_inodes_count := 20,
     s_first_data_block := 1\<rparr>"

definition demo_mounted :: "ext2_file_t list \<Rightarrow> ext2_state" where
  "demo_mounted fs = demo_fs\<lparr>superblock := Some (0x400000, demo_super), group_descs := Some (0x500000, [demo_group]), open_files := fs\<rparr>"

lemma demo_mounted_rep:
  "(\<And>n. length (f n) = 256) \<Longrightarrow> block_rep (\<lambda>_. 3) 0x1F0 (image_hd f) (image_device f) (demo_mounted fs) (image_block f)"
  by (rule demo_block_rep [where buf = "io_buffer demo_fs"]) (simp_all add: demo_mounted_def)

lemma demo_mounted_ok:
  "io_ok (demo_mounted fs)" "inodes_ok (demo_mounted fs)"
  "inode_valid (demo_mounted fs) i \<longleftrightarrow> 0 < unat i \<and> unat i \<le> 32"
  "inode_index (demo_mounted fs) i = (unat i - 1) mod 32" "per_block (demo_mounted fs) = 8"
  "inode_table (demo_mounted fs) 0 = 5" "drive_index (demo_mounted fs) = 0" "block_size (demo_mounted fs) = 1024"
  "nblocks (demo_mounted fs) = 134217728" "open_files (demo_mounted fs) = fs"
  by (auto simp: io_ok_def inodes_ok_def inode_valid_def inode_index_def demo_mounted_def demo_fs_def nblocks_def per_block_def
      table_blocks_def inode_table_def demo_group_def unat_gt_0 less_Suc_eq_le [symmetric])

theorem ext2_inodes_refine_array_witness:
  "\<exists>s'. ext2_write_inode (image_device (\<lambda>_. replicate 256 0)) 0 2 (zero_inode\<lparr>i_mode := 0x41ED, i_size := 1024\<rparr>) (demo_mounted [])
      = Some (True, s')"
proof -
  have x: "inode_wf (zero_inode\<lparr>i_mode := 0x41ED, i_size := 1024\<rparr>)" using inode_wf_zero by (simp add: inode_wf_def)
  have v: "inode_valid (demo_mounted []) 2" by (simp add: demo_mounted_ok)
  from ext2_inodes_refine_array [OF demo_mounted_rep demo_mounted_ok(1,2) v x, of "\<lambda>_. replicate 256 0"]
  show ?thesis by (auto simp: demo_mounted_ok)
qed

end
