(* ===== verification/Ext2_Mount_Correct.thy ===== *)
theory Ext2_Mount_Correct
  imports Ext2_Frame Ext2_Inode_Correct PMM_Properties
begin

text \<open>
  Mounting and unmounting on a drive that follows the ATA protocol: \<open>ext2_mount\<close> reads the superblock and the
  group descriptors that the disk holds and leaves a state that represents the store of the disk's blocks, which
  is what every operation on inodes, files and directories starts from; \<open>ext2_unmount\<close> leaves the blocks of
  that store on the disk.
\<close>

section \<open>The superblock of a disk\<close>

lemma field_append: "off + n \<le> length bs \<Longrightarrow> field (bs @ r) off n = field bs off n"
  by (simp add: field_def)

text \<open>The first sector of the superblock has every field that the code reads.\<close>

lemma superblock_of_sector:
  "length bs = 512 \<Longrightarrow> superblock_of_bytes (bs @ r) = (superblock_of_bytes bs)\<lparr>s_rest := drop 90 bs @ r\<rparr>"
  by (simp add: superblock_of_bytes_def field_append)

definition disk_super :: "(nat \<Rightarrow> u8 list) \<Rightarrow> ext2_superblock_t" where
  "disk_super D = superblock_of_bytes (D 2)"

definition super_size :: "ext2_superblock_t \<Rightarrow> nat" where
  "super_size sb = 1024 * 2 ^ unat (s_log_block_size sb)"

text \<open>The blocks of the group descriptors.\<close>

definition group_blocks :: "ext2_superblock_t \<Rightarrow> nat" where
  "group_blocks sb = (32 * unat (super_groups sb) + super_size sb - 1) div super_size sb"

definition group_table :: "ext2_superblock_t \<Rightarrow> (nat \<Rightarrow> u8 list) \<Rightarrow> ext2_group_desc_t list" where
  "group_table sb B = groups_of_bytes (concat (map (\<lambda>i. B (unat (s_first_data_block sb) + 1 + i)) [0..<group_blocks sb]))"

text \<open>A superblock that can be mounted, with its group descriptors where the driver can reach them.\<close>

definition super_ok :: "ext2_superblock_t \<Rightarrow> bool" where
  "super_ok sb \<longleftrightarrow> s_magic sb = EXT2_SUPER_MAGIC \<and> s_log_block_size sb \<le> 2 \<and> s_blocks_per_group sb \<noteq> 0
     \<and> 32 * unat (super_groups sb) + 8192 < 2 ^ 32
     \<and> unat (s_first_data_block sb) + 1 + group_blocks sb \<le> 2 ^ 28 div (super_size sb div 512)"

lemma super_ok_size:
  assumes "super_ok sb"
  shows "push_bit (unat (s_log_block_size sb)) (1024 :: u32) \<in> {1024, 2048, 4096}"
    "unat (push_bit (unat (s_log_block_size sb)) (1024 :: u32)) = super_size sb" "super_size sb \<in> {1024, 2048, 4096}"
proof -
  have "s_log_block_size sb \<le> 2" using assms by (simp add: super_ok_def)
  then have "unat (s_log_block_size sb) \<in> {0, 1, 2}" by (auto simp: word_le_nat_alt)
  then show "push_bit (unat (s_log_block_size sb)) (1024 :: u32) \<in> {1024, 2048, 4096}"
    "unat (push_bit (unat (s_log_block_size sb)) (1024 :: u32)) = super_size sb" "super_size sb \<in> {1024, 2048, 4096}"
    by (auto simp: super_size_def push_bit_eq_mult)
qed

section \<open>Reading the group descriptors\<close>

lemma read_block_unmounted:
  assumes "ata_rep lat b h0 dev i (ata s) D" "\<not> mounted s" "block_size s \<in> {1024, 2048, 4096}" "unat n < nblocks s"
  shows "\<exists>a. ext2_read_block dev i n False s = Some (True, disk_block (spb s) D (unat n), s\<lparr>ata := a\<rparr>)
    \<and> ata_rep lat b h0 dev i a D"
proof -
  have "unat (block_size s div 512) = spb s" using assms(3) by (auto simp: unat_div)
  then show ?thesis using read_run_block [OF assms(1,3,4)] assms(2) by (auto simp: ext2_read_block_def)
qed

lemma read_groups_unmounted:
  assumes "ata_rep lat b h0 dev i (ata s) D" "\<not> mounted s" "block_size s \<in> {1024, 2048, 4096}"
    "unat first + j + k \<le> nblocks s"
  shows "\<exists>a. read_groups dev i first k j s
      = Some (True, concat (map (\<lambda>l. disk_block (spb s) D (unat first + l)) [j..<j + k]), s\<lparr>ata := a\<rparr>)
    \<and> ata_rep lat b h0 dev i a D"
  using assms
proof (induction k arbitrary: j s)
  case 0
  then show ?case by (auto intro: exI [of _ "ata s"])
next
  case (Suc k)
  have "nblocks s \<le> 2 ^ 28" by (simp add: nblocks_def)
  then have n: "unat (first + of_nat j) = unat first + j" using Suc.prems(4) by (simp add: unat_word_ariths(1) unat_of_nat)
  have "unat (first + of_nat j) < nblocks s" using Suc.prems(4) by (simp add: n)
  from read_block_unmounted [OF Suc.prems(1-3) this] obtain a where
    a: "ext2_read_block dev i (first + of_nat j) False s = Some (True, disk_block (spb s) D (unat first + j), s\<lparr>ata := a\<rparr>)"
    "ata_rep lat b h0 dev i a D" by (auto simp: n)
  have up: "[j..<j + Suc k] = j # [Suc j..<Suc j + k]" by (simp add: upt_rec)
  show ?case
    using Suc.IH [of "s\<lparr>ata := a\<rparr>" "Suc j"] Suc.prems a unfolding up by (auto simp: nblocks_def)
qed

definition group_pages :: "ext2_superblock_t \<Rightarrow> u64" where
  "group_pages sb = of_nat ((group_blocks sb * super_size sb + 4095) div 4096)"

text \<open>The arithmetic of \<open>ext2_mount\<close> on 32 bits does not wrap around.\<close>

lemma group_numbers:
  assumes ok: "super_ok sb" and bs: "bs = push_bit (unat (s_log_block_size sb)) (1024 :: u32)"
    and n: "n = (32 * super_groups sb + bs - 1) div bs"
  shows "unat n = group_blocks sb" "ucast ((n * bs + 4095) div 4096) = group_pages sb"
    "unat n * unat bs \<le> unat ((n * bs + 4095) div 4096) * 4096"
proof -
  have b: "unat bs = super_size sb" "super_size sb \<in> {1024, 2048, 4096}" using super_ok_size [OF ok] bs by simp_all
  have g: "32 * unat (super_groups sb) + 8192 < 2 ^ 32" using ok by (simp add: super_ok_def)
  have 32: "unat (32 * super_groups sb) = 32 * unat (super_groups sb)" using g by (simp add: unat_mult_no_wrap)
  have a: "unat (32 * super_groups sb + bs) = 32 * unat (super_groups sb) + super_size sb"
    using g b by (subst unat_add_no_wrap) (auto simp: 32)
  have "(1 :: u32) \<le> 32 * super_groups sb + bs" unfolding word_le_nat_alt a using b(2) by auto
  then have "unat (32 * super_groups sb + bs - 1) = 32 * unat (super_groups sb) + super_size sb - 1"
    by (simp add: unat_sub_le a)
  then show un: "unat n = group_blocks sb" by (simp add: n unat_div group_blocks_def b(1))
  have "group_blocks sb * super_size sb \<le> 32 * unat (super_groups sb) + super_size sb - 1" by (simp add: group_blocks_def)
  then have le: "group_blocks sb * super_size sb + 4095 < 2 ^ 32" using g b(2) by auto
  have m: "unat (n * bs) = group_blocks sb * super_size sb" using le by (subst unat_mult_no_wrap) (simp_all add: un b(1))
  have "unat (n * bs + 4095) = group_blocks sb * super_size sb + 4095" using le by (subst unat_add_no_wrap) (simp_all add: m)
  then have d: "unat ((n * bs + 4095) div 4096) = (group_blocks sb * super_size sb + 4095) div 4096" by (simp add: unat_div)
  show "unat n * unat bs \<le> unat ((n * bs + 4095) div 4096) * 4096" unfolding d un b(1) by linarith
  have "(group_blocks sb * super_size sb + 4095) div 4096 < 2 ^ 32" using le by linarith
  then show "ucast ((n * bs + 4095) div 4096) = group_pages sb"
    by (simp add: word_unat_eq_iff unat_ucast_mod d group_pages_def unat_of_nat)
qed

definition all_invalid :: "cache_entry list \<Rightarrow> bool" where
  "all_invalid es \<longleftrightarrow> length es = EXT2_CACHE_SIZE \<and> (\<forall>e\<in>set es. \<not> c_valid e)"

lemma alloc_cache_invalid: "alloc_cache es q = (es', q') \<Longrightarrow> all_invalid es \<Longrightarrow> all_invalid es'"
  using alloc_cache_entries [of es q es' q']
  by (fastforce simp: all_invalid_def list_all2_conv_all_nth in_set_conv_nth)

text \<open>What a state has of the parameters of a superblock.\<close>

definition has_super :: "ext2_superblock_t \<Rightarrow> ext2_state \<Rightarrow> bool" where
  "has_super sb s \<longleftrightarrow> block_size s = push_bit (unat (s_log_block_size sb)) 1024
     \<and> blocks_per_group s = s_blocks_per_group sb \<and> inodes_per_group s = s_inodes_per_group sb
     \<and> inode_size s = super_inode_size sb \<and> groups_count s = super_groups sb"

lemma mount_groups_rep:
  assumes ok: "super_ok sb" and h: "has_super sb s" and m: "\<not> mounted s" "all_invalid (cache s)"
    and D: "ata_rep lat b h0 dev drive (ata s) D" "drive_index s = drive"
    and p: "pmm_alloc_pages (group_pages sb) (frames s) = (p, q)" "p \<noteq> NULL"
  shows "\<exists>a q' c. mount_groups dev drive sb sp s = Some (True, s\<lparr>ata := a, frames := q', cache := c, mounted := True,
        current_dir := [slash], group_descs := Some (p, group_table sb (disk_block (spb s) D)),
        blocks_count := s_blocks_count sb, inodes_count := s_inodes_count sb\<rparr>)
      \<and> ata_rep lat b h0 dev drive a D \<and> all_invalid c"
proof -
  define n where "n = (32 * super_groups sb + block_size s - 1) div block_size s"
  note num = group_numbers [OF ok _ n_def] and size = super_ok_size [OF ok]
  have bs: "block_size s = push_bit (unat (s_log_block_size sb)) 1024" "groups_count s = super_groups sb"
    using h by (simp_all add: has_super_def)
  have cd: "checked_div (32 * groups_count s + block_size s - 1) (block_size s) = Some n"
    using size(1) bs by (auto simp: checked_div_def n_def)
  have "nblocks s = 2 ^ 28 div (super_size sb div 512)" by (simp add: nblocks_def bs size)
  then have le: "unat (s_first_data_block sb) + 1 + unat n \<le> nblocks s" using ok num(1) [OF bs(1)] by (simp add: super_ok_def)
  moreover have "nblocks s \<le> 2 ^ 28" by (simp add: nblocks_def)
  ultimately have f: "unat (s_first_data_block sb + 1) = unat (s_first_data_block sb) + 1"
    by (subst unat_add_no_wrap) simp_all
  obtain a where a: "read_groups dev drive (s_first_data_block sb + 1) (unat n) 0 (s\<lparr>frames := q\<rparr>)
      = Some (True, concat (map (\<lambda>l. disk_block (spb s) D (unat (s_first_data_block sb) + 1 + l)) [0..<unat n]), s\<lparr>frames := q, ata := a\<rparr>)"
    "ata_rep lat b h0 dev drive a D"
    using read_groups_unmounted [of lat b h0 dev drive "s\<lparr>frames := q\<rparr>" D "s_first_data_block sb + 1" 0 "unat n"]
      D m le size(1) bs by (auto simp: nblocks_def f)
  obtain c q' where c: "alloc_cache (cache s) q = (c, q')" by force
  have "mount_groups dev drive sb sp s = Some (True, s\<lparr>ata := a, frames := q', cache := c, mounted := True,
        current_dir := [slash], group_descs := Some (p, group_table sb (disk_block (spb s) D)),
        blocks_count := s_blocks_count sb, inodes_count := s_inodes_count sb\<rparr>)"
    using num(3) [OF bs(1)] p(2) unfolding mount_groups_def cd
    by (simp add: num(2) [OF bs(1)] p(1) a(1) [unfolded num(1) [OF bs(1)]] c group_table_def num(1) [OF bs(1)] Let_def)
  then show ?thesis using a(2) alloc_cache_invalid [OF c m(2)] by blast
qed

section \<open>Mounting\<close>

text \<open>A file system that is not mounted, over a drive with the sectors \<open>D\<close>, with the pages that a mount needs.\<close>

definition unmounted_rep ::
  "(hd \<Rightarrow> nat) \<Rightarrow> u16 \<Rightarrow> hd \<Rightarrow> device \<Rightarrow> u8 \<Rightarrow> ext2_state \<Rightarrow> (nat \<Rightarrow> u8 list) \<Rightarrow> bool" where
  "unmounted_rep lat b h0 dev drive s D \<longleftrightarrow> initialized s \<and> \<not> mounted s \<and> io_ok s \<and> all_invalid (cache s)
     \<and> ata_rep lat b h0 dev drive (ata s) D"

definition mount_pages :: "ext2_superblock_t \<Rightarrow> pmm_state \<Rightarrow> bool" where
  "mount_pages sb q \<longleftrightarrow> (let (sp, q) = pmm_alloc_page q; (gp, _) = pmm_alloc_pages (group_pages sb) q in sp \<noteq> NULL \<and> gp \<noteq> NULL)"

definition mounted_on :: "ext2_superblock_t \<Rightarrow> (nat \<Rightarrow> u8 list) \<Rightarrow> ext2_state \<Rightarrow> bool" where
  "mounted_on sb B s \<longleftrightarrow> has_super sb s \<and> (\<exists>p r. superblock s = Some (p, sb\<lparr>s_rest := r\<rparr>))
     \<and> (\<exists>p. group_descs s = Some (p, group_table sb B))"

lemma has_super_rest: "has_super (sb\<lparr>s_rest := r\<rparr>) = has_super sb"
  by (simp add: has_super_def super_inode_size_def super_groups_def fun_eq_iff)

lemma super_rest_eqs:
  "super_ok (sb\<lparr>s_rest := r\<rparr>) = super_ok sb" "group_pages (sb\<lparr>s_rest := r\<rparr>) = group_pages sb"
  "group_table (sb\<lparr>s_rest := r\<rparr>) = group_table sb"
  by (simp_all add: super_ok_def group_pages_def group_table_def group_blocks_def super_size_def super_groups_def fun_eq_iff)

lemma ext2_mount_rep:
  assumes rep: "unmounted_rep lat b h0 dev drive s D" and ok: "super_ok (disk_super D)"
    and pages: "mount_pages (disk_super D) (frames s)"
  shows "\<exists>s'. ext2_mount dev drive s = Some (True, s') \<and> block_rep lat b h0 dev s' (disk_block (super_size (disk_super D) div 512) D)
    \<and> io_ok s' \<and> mounted_on (disk_super D) (disk_block (super_size (disk_super D) div 512) D) s'
    \<and> drive_index s' = drive \<and> initialized s' \<and> open_files s' = open_files s \<and> current_dir s' = [slash]"
proof -
  let ?sb = "disk_super D"
  obtain p buf where buf: "io_buffer s = Some (p, buf)" "length buf = 8192" and s: "initialized s" "\<not> mounted s"
    "all_invalid (cache s)" "ata_rep lat b h0 dev drive (ata s) D"
    using rep by (auto simp: unmounted_rep_def io_ok_def)
  obtain a where a: "read_sector dev drive 2 (ata s) = (True, D 2, a)" "ata_rep lat b h0 dev drive a D"
    using ata_read_rep [OF s(4), of 2] by (auto simp: ata_addr_def)
  have len: "length (D 2) = 512" by (rule ata_disk.sector_length [OF s(4)])
  define buf' where "buf' = D 2 @ drop 512 buf"
  define r where "r = drop 90 (D 2) @ take 512 (drop 512 buf)"
  have b': "put_bytes buf 0 (D 2) = Some buf'" "length buf' = 8192" using len buf(2) by (simp_all add: put_bytes_def buf'_def)
  have sb: "get_bytes buf' 0 1024 = Some (D 2 @ take 512 (drop 512 buf))"
    using len buf(2) by (simp add: get_bytes_def buf'_def)
  have sb': "superblock_of_bytes (D 2 @ take 512 (drop 512 buf)) = ?sb\<lparr>s_rest := r\<rparr>"
    using superblock_of_sector [OF len] by (simp add: disk_super_def r_def)
  have mag: "s_magic ?sb = EXT2_SUPER_MAGIC" "\<not> 31 < s_log_block_size ?sb" "s_blocks_per_group ?sb \<noteq> 0"
    using ok by (auto simp: super_ok_def word_le_nat_alt word_less_nat_alt)
  obtain sp q where sp: "pmm_alloc_page (frames s) = (sp, q)" by force
  obtain gp q1 where gp: "pmm_alloc_pages (group_pages ?sb) q = (gp, q1)" by force
  have nn: "sp \<noteq> NULL" "gp \<noteq> NULL" using pages sp gp by (auto simp: mount_pages_def)
  define s1 where "s1 = s\<lparr>drive_index := drive, ata := a, io_buffer := Some (p, buf'),
     block_size := push_bit (unat (s_log_block_size ?sb)) 1024, blocks_per_group := s_blocks_per_group ?sb,
     inodes_per_group := s_inodes_per_group ?sb, inode_size := super_inode_size ?sb, groups_count := super_groups ?sb,
     frames := q, superblock := Some (sp, ?sb\<lparr>s_rest := r\<rparr>)\<rparr>"
  have h: "has_super (?sb\<lparr>s_rest := r\<rparr>) s1" unfolding has_super_rest by (simp add: has_super_def s1_def)
  have pr: "ata_drive_present drive (ata s)" using s(4) by (simp add: ata_rep_def)
  have m: "ext2_mount dev drive s = mount_groups dev drive (?sb\<lparr>s_rest := r\<rparr>) sp s1"
    unfolding ext2_mount_def using s(1,2) pr mag nn(1)
    by (simp add: buf a(1) b' sb sb' set_parameters_eq sp s1_def super_inode_size_def super_groups_def Let_def)
  have size: "block_size s1 \<in> {1024, 2048, 4096}" "unat (block_size s1) = super_size ?sb"
    using super_ok_size [OF ok] by (simp_all add: s1_def)
  obtain a' q' c where r: "mount_groups dev drive (?sb\<lparr>s_rest := r\<rparr>) sp s1 = Some (True, s1\<lparr>ata := a', frames := q', cache := c,
        mounted := True, current_dir := [slash], group_descs := Some (gp, group_table ?sb (disk_block (spb s1) D)),
        blocks_count := s_blocks_count ?sb, inodes_count := s_inodes_count ?sb\<rparr>)"
    "ata_rep lat b h0 dev drive a' D" "all_invalid c"
    using mount_groups_rep [OF _ h, of lat b h0 dev drive D gp q1 sp] ok s(2,3) a(2) gp nn(2)
    by (auto simp: super_rest_eqs s1_def)
  define s' where "s' = s1\<lparr>ata := a', frames := q', cache := c, mounted := True, current_dir := [slash],
     group_descs := Some (gp, group_table ?sb (disk_block (spb s1) D)), blocks_count := s_blocks_count ?sb,
     inodes_count := s_inodes_count ?sb\<rparr>"
  have "block_rep lat b h0 dev s' (disk_block (super_size ?sb div 512) D)"
    using size r(2,3) by (auto simp: block_rep_def s'_def nblocks_def cache_ok_def all_invalid_def s1_def)
  moreover have "mounted_on ?sb (disk_block (super_size ?sb div 512) D) s'"
  proof -
    have "superblock s' = Some (sp, ?sb\<lparr>s_rest := r\<rparr>)" by (simp add: s'_def s1_def)
    moreover have "group_descs s' = Some (gp, group_table ?sb (disk_block (super_size ?sb div 512) D))" by (simp add: s'_def size(2))
    moreover have "has_super ?sb s'" by (simp add: has_super_def s'_def s1_def)
    ultimately show ?thesis unfolding mounted_on_def by blast
  qed
  moreover have "io_ok s'" using b'(2) by (simp add: io_ok_def s'_def s1_def)
  ultimately show ?thesis unfolding m r(1) s'_def [symmetric]
    using s(1) by (intro exI [of _ s'] conjI) (simp_all add: s'_def s1_def)
qed

section \<open>Unmounting\<close>

lemma update_cached_valid: "update_cached n bs es = Some es' \<Longrightarrow> map c_valid es' = map c_valid es"
  by (induction es arbitrary: es') (auto split: bind_splits if_splits)

lemma write_block_valid: "ext2_write_block dev drive n b s = Some (r, s') \<Longrightarrow> map c_valid (cache s') = map c_valid (cache s)"
  by (auto simp: ext2_write_block_def Let_def dest: update_cached_valid split: option.splits bind_splits if_splits)

lemma block_rep_drop_entry:
  assumes "block_rep lat b h0 dev s B"
  shows "block_rep lat b h0 dev (s\<lparr>frames := q, cache := (cache s)[i := e\<lparr>c_data := None, c_valid := False, c_dirty := False\<rparr>]\<rparr>) B"
proof -
  have "cache_ok (nblocks s) B ((cache s)[i := e\<lparr>c_data := None, c_valid := False, c_dirty := False\<rparr>])"
    using assms by (intro cache_ok_update) (simp_all add: block_rep_def cache_ok_def)
  then show ?thesis using assms by (simp add: block_rep_def nblocks_def)
qed

text \<open>A dirty entry holds what the disk holds already: writing it again changes nothing.\<close>

lemma flush_entry_rep:
  assumes rep: "block_rep lat b h0 dev s B" and i: "i < length (cache s)"
  shows "\<exists>r s'. (if c_valid (cache s ! i) \<and> c_dirty (cache s ! i)
        then ext2_write_block dev (drive_index s) (c_block_no (cache s ! i)) (map_option snd (c_data (cache s ! i))) s
        else Some (True, s)) = Some (r, s')
      \<and> block_rep lat b h0 dev s' B \<and> same_fs s s' \<and> map c_valid (cache s') = map c_valid (cache s)"
proof (cases "c_valid (cache s ! i) \<and> c_dirty (cache s ! i)")
  case True
  let ?n = "c_block_no (cache s ! i)"
  have "cache_ok (nblocks s) B (cache s)" using rep by (simp add: block_rep_def)
  then obtain p where p: "c_data (cache s ! i) = Some (p, B (unat ?n))" and n: "unat ?n < nblocks s"
    using True nth_mem [OF i] unfolding cache_ok_def by blast
  have len: "length (B (unat ?n)) = unat (block_size s)" by (rule block_rep_length [OF rep n])
  have "unat (block_size s) \<le> length (B (unat ?n))" by (simp add: len)
  from write_block_rep [OF rep n this] obtain s' where
    w: "ext2_write_block dev (drive_index s) ?n (Some (B (unat ?n))) s = Some (True, s')" "same_fs s s'"
    "block_rep lat b h0 dev s' (B(unat ?n := take (unat (block_size s)) (B (unat ?n))))" by blast
  have "block_rep lat b h0 dev s' B" using w(3) by (simp add: len)
  then show ?thesis using True p w(1,2) write_block_valid [OF w(1)] by (intro exI [of _ True] exI [of _ s']) simp
qed (use rep in \<open>auto simp: same_fs_refl\<close>)

lemma flush_cache_rep:
  assumes "block_rep lat b h0 dev s B" "i + k = EXT2_CACHE_SIZE"
  shows "\<exists>s'. flush_cache dev k i s = Some s' \<and> block_rep lat b h0 dev s' B \<and> same_fs s s'
    \<and> (\<forall>j < EXT2_CACHE_SIZE. c_valid (cache s' ! j) \<longrightarrow> j < i \<and> c_valid (cache s ! j))"
  using assms
proof (induction k arbitrary: i s)
  case 0
  then show ?case by (auto simp: same_fs_refl)
next
  case (Suc k)
  have i: "i < length (cache s)" "length (cache s) = EXT2_CACHE_SIZE" using Suc.prems by (auto simp: block_rep_def)
  from flush_entry_rep [OF Suc.prems(1) i(1)] obtain r s1 where
    1: "(if c_valid (cache s ! i) \<and> c_dirty (cache s ! i)
        then ext2_write_block dev (drive_index s) (c_block_no (cache s ! i)) (map_option snd (c_data (cache s ! i))) s
        else Some (True, s)) = Some (r, s1)"
    "block_rep lat b h0 dev s1 B" "same_fs s s1" "map c_valid (cache s1) = map c_valid (cache s)" by blast
  define q where "q = (case c_data (cache s1 ! i) of None \<Rightarrow> frames s1 | Some (p, _) \<Rightarrow> pmm_free_page p (frames s1))"
  let ?e = "(cache s1 ! i)\<lparr>c_data := None, c_valid := False, c_dirty := False\<rparr>"
  define s2 where "s2 = s1\<lparr>frames := q, cache := (cache s1)[i := ?e]\<rparr>"
  have f: "flush_cache dev (Suc k) i s = flush_cache dev k (Suc i) s2"
    by (simp add: 1(1) s2_def q_def split: option.split)
  have rep2: "block_rep lat b h0 dev s2 B" unfolding s2_def by (rule block_rep_drop_entry [OF 1(2)])
  have "same_fs s1 s2" unfolding same_fs_def s2_def
    by (rule exI [of _ "ata s1"], rule exI [of _ q], rule exI [of _ "(cache s1)[i := ?e]"]) simp
  then have same: "same_fs s s2" by (rule same_fs_trans [OF 1(3)])
  have l: "length (cache s1) = EXT2_CACHE_SIZE" using 1(2) by (simp add: block_rep_def)
  have v: "c_valid (cache s2 ! j) \<longleftrightarrow> j \<noteq> i \<and> c_valid (cache s ! j)" if "j < EXT2_CACHE_SIZE" for j
    using that arg_cong [OF 1(4), of "\<lambda>vs. vs ! j"] i(2) l by (cases "j = i") (simp_all add: s2_def)
  have "Suc i + k = EXT2_CACHE_SIZE" using Suc.prems(2) by simp
  from Suc.IH [OF rep2 this] obtain s' where s': "flush_cache dev k (Suc i) s2 = Some s'" "block_rep lat b h0 dev s' B"
    "same_fs s2 s'" "\<forall>j < EXT2_CACHE_SIZE. c_valid (cache s' ! j) \<longrightarrow> j < Suc i \<and> c_valid (cache s2 ! j)" by blast
  then show ?case unfolding f using same_fs_trans [OF same s'(3)] v by (auto simp: less_Suc_eq)
qed

lemma ext2_unmount_rep:
  assumes rep: "block_rep lat b h0 dev s B" and ok: "io_ok s" "initialized s"
  shows "\<exists>s' D. ext2_unmount dev s = Some (True, s') \<and> unmounted_rep lat b h0 dev (drive_index s) s' D
    \<and> (\<forall>m < nblocks s. disk_block (spb s) D m = B m) \<and> list_all (\<lambda>f. \<not> is_open f) (open_files s')"
proof -
  have "0 + EXT2_CACHE_SIZE = EXT2_CACHE_SIZE" by simp
  from flush_cache_rep [OF rep this] obtain s1 where s1: "flush_cache dev EXT2_CACHE_SIZE 0 s = Some s1"
    "block_rep lat b h0 dev s1 B" "same_fs s s1" "\<forall>j < EXT2_CACHE_SIZE. \<not> c_valid (cache s1 ! j)" by auto
  note same = same_fs_fields [OF s1(3)]
  obtain D where D: "ata_rep lat b h0 dev (drive_index s) (ata s1) D" "\<forall>m < nblocks s. B m = disk_block (spb s) D m"
    and len: "length (cache s1) = EXT2_CACHE_SIZE"
    using s1(2) by (auto simp: block_rep_def same)
  have inv: "all_invalid (cache s1)" using s1(4) len by (auto simp: all_invalid_def in_set_conv_nth)
  have m: "mounted s" using rep by (simp add: block_rep_def)
  obtain s' where u: "ext2_unmount dev s = Some (True, s')" "ata s' = ata s1" "cache s' = cache s1" "io_buffer s' = io_buffer s1"
    "initialized s' = initialized s1" "\<not> mounted s'" "open_files s' = map (is_open_update (\<lambda>_. False)) (open_files s1)"
    using m s1(1) by (cases "superblock s1"; cases "group_descs s1") (auto simp: ext2_unmount_def Let_def)
  have "unmounted_rep lat b h0 dev (drive_index s) s' D"
    using D(1) inv ok by (simp add: unmounted_rep_def io_ok_def u same)
  moreover have "list_all (\<lambda>f. \<not> is_open f) (open_files s')" by (simp add: u(7) list_all_iff)
  ultimately show ?thesis using u(1) D(2) by (intro exI [of _ s'] exI [of _ D]) simp
qed

section \<open>Properties\<close>

text \<open>A sector of a block, and the block with the superblock.\<close>

lemma disk_block_Suc: "concat (map (\<lambda>j. D (m * k + j)) [0..<Suc n]) = concat (map (\<lambda>j. D (m * k + j)) [0..<n]) @ D (m * k + n)"
  by simp

lemma disk_block_sector:
  assumes "\<And>a. length (D a) = 512" and "j < k"
  shows "take 512 (drop (512 * j) (disk_block k D m)) = D (m * k + j)"
proof -
  have "take 512 (drop (512 * j) (concat (map (\<lambda>j. D (m * k + j)) [0..<n]))) = D (m * k + j)" if "j < n" for n
    using that
  proof (induction n)
    case (Suc n)
    have l: "length (concat (map (\<lambda>j. D (m * k + j)) [0..<n])) = 512 * n"
      by (simp add: length_concat o_def sum_list_triv assms(1))
    show ?case
    proof (cases "j = n")
      case True
      then show ?thesis unfolding disk_block_Suc using l by (simp add: assms(1))
    next
      case False
      then have "j < n" using Suc.prems by simp
      then show ?thesis unfolding disk_block_Suc using Suc.IH l by simp
    qed
  qed simp
  then show ?thesis using assms(2) by (simp add: disk_block_def)
qed

definition super_block_no :: "ext2_superblock_t \<Rightarrow> nat" where
  "super_block_no sb = 1024 div super_size sb"

lemma disk_super_block:
  assumes "super_ok sb" and "\<And>a. length (D a) = 512" "\<And>a. length (D' a) = 512"
    and "disk_block (super_size sb div 512) D' (super_block_no sb) = disk_block (super_size sb div 512) D (super_block_no sb)"
  shows "disk_super D' = disk_super D"
proof -
  let ?k = "super_size sb div 512" and ?j = "2 mod (super_size sb div 512)"
  have "?j < ?k" "super_block_no sb * ?k + ?j = 2" using super_ok_size(3) [OF assms(1)] by (auto simp: super_block_no_def)
  then have "D' 2 = D 2"
    using disk_block_sector [of D ?j ?k, OF assms(2)] disk_block_sector [of D' ?j ?k, OF assms(3)] assms(4) by metis
  then show ?thesis by (simp add: disk_super_def)
qed

fun writes_to :: "nat \<Rightarrow> block_op \<Rightarrow> bool" where
  "writes_to m (ReadBlock n) = False"
| "writes_to m (WriteBlock n buf) = (unat n = m)"

lemma store_after_other: "list_all (\<lambda>op. \<not> writes_to m op) ops \<Longrightarrow> store_after k ops B m = B m"
  by (induction ops arbitrary: B rule: induct_list012) (auto elim: writes_to.elims)

lemma block_rep_cong:
  assumes "block_rep lat b h0 dev s B" and "\<And>m. m < nblocks s \<Longrightarrow> B' m = B m"
  shows "block_rep lat b h0 dev s B'"
  using assms by (fastforce simp: block_rep_def cache_ok_def)


section \<open>A disk\<close>

text \<open>Memory with its first \<open>m\<close> frames in use.\<close>

definition used_below :: "nat \<Rightarrow> pmm_state \<Rightarrow> bool" where
  "used_below m q \<longleftrightarrow> pmm_inv q \<and> m \<le> npages q \<and> (\<forall>i < npages q. page_used (static_bitmap q) i \<longleftrightarrow> i < m)"

lemma page_addr_not_null: "pmm_inv q \<Longrightarrow> i < npages q \<Longrightarrow> page_addr q i \<noteq> NULL"
  using unat_page_addr [of q i] by (auto simp: pmm_inv_def word_le_nat_alt word_unat_eq_iff)

lemma used_below_alloc:
  assumes "used_below m q" "m < npages q"
  shows "\<exists>p q'. pmm_alloc_page q = (p, q') \<and> p \<noteq> NULL \<and> used_below (Suc m) q' \<and> npages q' = npages q"
proof -
  have inv: "pmm_inv q" and u: "\<And>i. i < npages q \<Longrightarrow> page_used (static_bitmap q) i \<longleftrightarrow> i < m"
    using assms(1) by (auto simp: used_below_def)
  have "8 * STATIC_BITMAP_SIZE = 8 * length (static_bitmap q)" "npages q \<le> 8 * STATIC_BITMAP_SIZE"
    using inv by (simp_all add: pmm_inv_def)
  then have l: "m < 8 * length (static_bitmap q)" using assms(2) by simp
  show ?thesis using inv
  proof (cases rule: pmm_alloc_page_cases)
    case (hit i)
    have "i = m"
    proof (rule linorder_cases)
      assume "m < i"
      then show ?thesis using hit(3) u [OF assms(2)] by simp
    qed (use hit(1,2) u [of i] in simp_all)
    moreover have "pmm_inv (snd (pmm_alloc_page q))" by (rule pmm_alloc_page_inv [OF inv])
    ultimately show ?thesis using hit(4) u assms(2) page_addr_not_null [OF inv hit(1)]
      by (auto simp: used_below_def page_used_mark_used [OF l])
  next
    case miss
    then show ?thesis using u [of m] assms(2) by simp
  qed
qed

lemma used_below_mount_pages:
  assumes "used_below m q" "m + 2 \<le> npages q" "group_pages sb = 1"
  shows "mount_pages sb q"
proof -
  obtain p q1 where 1: "pmm_alloc_page q = (p, q1)" "p \<noteq> NULL" "used_below (Suc m) q1" "npages q1 = npages q"
    using used_below_alloc [OF assms(1)] assms(2) by auto
  obtain p' q2 where 2: "pmm_alloc_page q1 = (p', q2)" "p' \<noteq> NULL"
    using used_below_alloc [OF 1(3)] 1(4) assms(2) by auto
  have "page_bitmap_set q1" using 1(3) by (simp add: used_below_def pmm_inv_def)
  then show ?thesis using 1 2 assms(3) by (simp add: mount_pages_def pmm_alloc_pages_def)
qed

lemma demo_used_below: "used_below 256 demo_pmm"
  using demo_pmm_inv demo_page_used by (simp add: used_below_def)

text \<open>A disk of 4096 blocks of 1024 bytes in one group, otherwise empty.\<close>

definition super_words :: "u16 list" where
  "super_words = [32, 0, 4096, 0, 0, 0, 4000, 0, 20, 0, 1, 0, 0, 0, 0, 0, 8192, 0, 8192, 0, 32, 0, 0, 0, 0, 0, 0, 0, 0xEF53]"

definition super_image :: "nat \<Rightarrow> u16 list" where
  "super_image n = (if n = 2 then super_words @ replicate 227 0 else replicate 256 0)"

definition super_sectors :: "nat \<Rightarrow> u8 list" where
  "super_sectors n = bytes_of_words (super_image n)"

lemma super_sectors_super:
  "s_magic (disk_super super_sectors) = EXT2_SUPER_MAGIC" "s_log_block_size (disk_super super_sectors) = 0"
  "s_blocks_count (disk_super super_sectors) = 4096" "s_blocks_per_group (disk_super super_sectors) = 8192"
  "s_first_data_block (disk_super super_sectors) = 1"
  by (simp_all add: disk_super_def superblock_of_bytes_def super_sectors_def super_image_def super_words_def
      bytes_of_words_def field_def EXT2_SUPER_MAGIC_def)

lemma super_sectors_ok:
  "super_ok (disk_super super_sectors)" "group_pages (disk_super super_sectors) = 1"
  "super_size (disk_super super_sectors) = 1024" "super_block_no (disk_super super_sectors) = 1"
proof -
  have g: "super_groups (disk_super super_sectors) = 1" by (simp add: super_groups_def super_sectors_super)
  show size: "super_size (disk_super super_sectors) = 1024" by (simp add: super_size_def super_sectors_super)
  have b: "group_blocks (disk_super super_sectors) = 1" by (simp add: group_blocks_def size g)
  show "super_ok (disk_super super_sectors)" by (simp add: super_ok_def super_sectors_super g b size)
  show "group_pages (disk_super super_sectors) = 1" by (simp add: group_pages_def b size)
  show "super_block_no (disk_super super_sectors) = 1" by (simp add: super_block_no_def size)
qed

lemma used_below_alloc_pages:
  assumes u: "used_below m q" and n: "1 < n" "m + unat n \<le> npages q"
  shows "\<exists>p q'. pmm_alloc_pages n q = (p, q') \<and> p \<noteq> NULL \<and> used_below (m + unat n) q' \<and> npages q' = npages q"
proof -
  have inv: "pmm_inv q" and used: "\<And>i. i < npages q \<Longrightarrow> page_used (static_bitmap q) i \<longleftrightarrow> i < m"
    using u by (auto simp: used_below_def)
  have "npages q \<le> 8 * length (static_bitmap q)" using inv by (simp add: pmm_inv_def)
  then have l: "m + unat n \<le> 8 * length (static_bitmap q)" using n(2) by simp
  have n0: "0 < unat n" using n(1) by (simp add: word_less_nat_alt)
  have "\<not> run_free (static_bitmap q) (unat n) k" if "k < m" for k
    unfolding run_free_def using that n0 n(2) used [of k] by (auto intro!: exI [of _ 0])
  then have "first_fit (static_bitmap q) (npages q) (unat n) = Some m"
    using n(2) used by (auto simp: first_fit_Some run_free_def)
  then have "pmm_alloc_pages n q = (page_addr q m, q\<lparr>static_bitmap := mark_run m (unat n) (static_bitmap q),
      total_allocations := total_allocations q + 1\<rparr>)"
    by (simp add: pmm_alloc_pages_eq [OF inv n(1)])
  moreover have "pmm_inv (snd (pmm_alloc_pages n q))" by (rule pmm_alloc_pages_inv [OF inv])
  ultimately show ?thesis using used n n0 page_addr_not_null [OF inv, of m]
    by (auto simp: used_below_def page_used_mark_run [OF l])
qed

text \<open>The state before the file system starts, and after: it has used two pages.\<close>

definition demo_boot :: ext2_state where
  "demo_boot = demo_fs\<lparr>frames := demo_pmm, initialized := False, mounted := False\<rparr>"

definition demo_started :: ext2_state where
  "demo_started = snd (ext2_init (\<lambda>_. replicate 8192 0) demo_boot)"

lemma demo_started_ok:
  "unmounted_rep (\<lambda>_. 3) 0x1F0 (image_hd super_image) (image_device super_image) 0 demo_started super_sectors"
  "mount_pages (disk_super super_sectors) (frames demo_started)" "\<not> mounted demo_started"
proof -
  have "(1 :: u64) < 2" "256 + unat (2 :: u64) \<le> npages demo_pmm" by simp_all
  from used_below_alloc_pages [OF demo_used_below this] obtain p q where
    q: "pmm_alloc_pages 2 demo_pmm = (p, q)" "p \<noteq> NULL" "used_below 258 q" "npages q = 1024" by auto
  have s: "demo_started = zero_fs demo_boot\<lparr>frames := q, io_buffer := Some (p, replicate 8192 0), current_dir := [slash], initialized := True\<rparr>"
    using q by (simp add: demo_started_def ext2_init_def zero_fs_def demo_boot_def)
  have f: "length (super_image n) = 256" for n by (simp add: super_image_def super_words_def)
  show "unmounted_rep (\<lambda>_. 3) 0x1F0 (image_hd super_image) (image_device super_image) 0 demo_started super_sectors"
    using demo_ata_rep [OF f] unfolding unmounted_rep_def s super_sectors_def
    by (simp add: zero_fs_def demo_boot_def demo_fs_def io_ok_def all_invalid_def zero_entry_def del: replicate.simps)
  show "mount_pages (disk_super super_sectors) (frames demo_started)"
    using used_below_mount_pages [OF q(3) _ super_sectors_ok(2)] by (simp add: s q(4))
  show "\<not> mounted demo_started" by (simp add: s zero_fs_def demo_boot_def)
qed



end
