(* ===== verification/Kernel_Entry.thy ===== *)
theory Kernel_Entry
  imports Boot_Traces GDT Syscalls Ext2_Mount_Correct
begin

text \<open>
  The entry of the kernel, \<open>src/kernel/src/main.c\<close>: \<open>kmain\<close> starts every component. The state of the
  system is that of its components. All drivers access the same ports, so the one trace of accesses is
  handed on from driver to driver; it is the trace in the state of the interrupt controllers. Of the log
  output that of \<open>main.c\<close> and \<open>sysinfo.c\<close> is modelled. No interrupt arrives between the calls.

  The theorems: \<open>kmain\<close> reaches its main loop with every component in its initial state, or stops before
  it touches what it has no information on.
\<close>

section \<open>State\<close>

record system =
  sys_log :: log_state
  sys_gdt :: gdt_state
  sys_int :: Interrupts.kernel
  sys_pci :: pci_state
  sys_kernel :: Kernel_Calls.kernel

abbreviation sys_trace :: "system \<Rightarrow> io_trace" where
  "sys_trace k \<equiv> io (pic (sys_int k))"

definition set_trace :: "io_trace \<Rightarrow> system \<Rightarrow> system" where
  "set_trace t k = k\<lparr>sys_int := (sys_int k)\<lparr>pic := (pic (sys_int k))\<lparr>io := t\<rparr>\<rparr>\<rparr>"

abbreviation sys_vm :: "system \<Rightarrow> vmm_state" where
  "sys_vm k \<equiv> k_vm (sys_kernel k)"

text \<open>
  What the kernel finds: the answers of the boot loader, where \<open>None\<close> is a request without a response, what
  \<open>cpuid\<close> reports, and the addresses that the linker chose.
\<close>

record limine_framebuffer =
  fb_address :: u64
  fb_width :: u64
  fb_height :: u64
  fb_pitch :: u64
  fb_bpp :: u16

record boot_info =
  framebuffer_response :: "limine_framebuffer list option"
  boot_answers :: boot_answers
  hhdm_response :: "u64 option"
  cpuid_edx :: u32
  link_gdt :: u64
  link_tss :: u64
  link_idt :: u64
  link_isr :: "nat \<Rightarrow> u64"
  link_irq :: "nat \<Rightarrow> u64"
  link_syscall :: u64

text \<open>
  How a step of the start ends: the kernel goes on, or it stops in \<open>hcf\<close>. The result \<open>None\<close> is a fault or a
  wait for a device without an end.
\<close>

datatype boot_outcome = Going system | Stopped system

definition hcf :: "system \<Rightarrow> boot_outcome" where
  "hcf k = Stopped k"

fun and_then :: "boot_outcome option \<Rightarrow> (system \<Rightarrow> boot_outcome option) \<Rightarrow> boot_outcome option" where
  "and_then (Some (Going k)) f = f k"
| "and_then r f = r"

definition going :: "system option \<Rightarrow> boot_outcome option" where
  "going r = map_option Going r"

definition log_calls :: "device \<Rightarrow> log_call list \<Rightarrow> system \<Rightarrow> system option" where
  "log_calls dev calls k = map_option (\<lambda>t. set_trace t k) (run_log dev (sys_log k) calls (sys_trace k))"

section \<open>The steps\<close>

definition start_log :: "device \<Rightarrow> system \<Rightarrow> system option" where
  "start_log dev k = map_option (\<lambda>(_, l, t). set_trace t (k\<lparr>sys_log := l\<rparr>))
     (log_init dev LOG_LEVEL_DEBUG (sys_log k) (sys_trace k))"

definition setup_fb :: "mmu \<Rightarrow> device \<Rightarrow> boot_info \<Rightarrow> system \<Rightarrow> boot_outcome option" where
  "setup_fb mmu dev b k =
     (case framebuffer_response b of
        Some (fb # _) \<Rightarrow> going (do {
          k \<leftarrow> log_calls dev [LOG_INFO ''Framebuffer: %dx%d, pitch: %d, bpp: %d''
                 [low_half (fb_width fb), low_half (fb_height fb), low_half (fb_pitch fb), VA_int (ucast (fb_bpp fb))]] k;
          v \<leftarrow> cpu_memset mmu (fb_address fb) 0 (unat (fb_pitch fb * fb_height fb)) (sys_vm k);
          Some (k\<lparr>sys_kernel := set_vm v (sys_kernel k)\<rparr>) })
      | _ \<Rightarrow> map_option hcf (log_calls dev [Log_message LOG_LEVEL_CRITICAL (bytes_of ''No framebuffer available'')] k))"

definition start_tables :: "device \<Rightarrow> boot_info \<Rightarrow> system \<Rightarrow> system option" where
  "start_tables dev b k = do {
     g \<leftarrow> gdt_init (link_gdt b) (link_tss b) (sys_gdt k);
     let (i, p) = idt_init dev (link_idt b) (link_isr b) (link_irq b) (idts (sys_int k), pic (sys_int k));
     Some (k\<lparr>sys_gdt := g, sys_int := (sys_int k)\<lparr>idts := i, pic := p\<rparr>\<rparr>)
   }"

text \<open>\<open>vmm_init\<close> registers the handler of page faults.\<close>

definition start_memory :: "boot_info \<Rightarrow> memmap_entry list \<Rightarrow> system \<Rightarrow> system option" where
  "start_memory b memmap k = do {
     q \<leftarrow> pmm_init (Some memmap) (pmm (sys_vm k));
     let v = vmm_init (hhdm_response b) (kernel_addr_response (boot_answers b)) (cpuid_edx b) ((sys_vm k)\<lparr>pmm := q\<rparr>);
     let i = idt_register_handler 14 (Some Page_Fault_Handler) (idts (sys_int k));
     Some (k\<lparr>sys_kernel := set_vm v (sys_kernel k), sys_int := (sys_int k)\<lparr>idts := i\<rparr>\<rparr>)
   }"

definition start_drivers :: "device \<Rightarrow> system \<Rightarrow> system option" where
  "start_drivers dev k = do {
     (i, p) \<leftarrow> timer_init dev 100 (idts (sys_int k), pic (sys_int k));
     k \<leftarrow> log_calls dev [LOG_INFO_MSG ''Initializing I/O Drivers (KB, Mouse)'']
            (k\<lparr>sys_int := (sys_int k)\<lparr>idts := i, pic := p\<rparr>\<rparr>);
     (i, p) \<leftarrow> mouse_init dev (keyboard_init dev (idts (sys_int k), pic (sys_int k)));
     k \<leftarrow> log_calls dev [LOG_INFO_MSG ''Enabling interrupts''] (k\<lparr>sys_int := (sys_int k)\<lparr>idts := i, pic := p\<rparr>\<rparr>);
     Some (k\<lparr>sys_int := (sys_int k)\<lparr>idts := interrupt_enable (idts (sys_int k))\<rparr>,
       sys_kernel := (sys_kernel k)\<lparr>k_sched := (k_sched (sys_kernel k))\<lparr>interrupts_on := True\<rparr>\<rparr>\<rparr>)
   }"

text \<open>\<open>ata_init\<close> with the drives in the state of the file system.\<close>

definition start_disks :: "device \<Rightarrow> system \<Rightarrow> system" where
  "start_disks dev k =
     (let f = k_fs (sys_kernel k);
          (a, p) = ata_init dev ((ata f)\<lparr>ata_io := sys_trace k\<rparr>, sys_pci k)
      in set_trace (ata_io a) (k\<lparr>sys_pci := p, sys_kernel := (sys_kernel k)\<lparr>k_fs := f\<lparr>ata := a\<rparr>\<rparr>\<rparr>))"

text \<open>\<open>junk p\<close> is what the two pages at \<open>p\<close> contain when \<open>ext2_init\<close> gets them.\<close>

definition start_files :: "(u64 \<Rightarrow> u8 list) \<Rightarrow> system \<Rightarrow> system option" where
  "start_files junk k = do {
     (ok, q) \<leftarrow> fs_call (\<lambda>s. Some (ext2_init junk s)) (sys_kernel k);
     Some (k\<lparr>sys_kernel := q\<rparr>)
   }"

definition start_tasks :: "device \<Rightarrow> boot_info \<Rightarrow> system \<Rightarrow> system option" where
  "start_tasks dev b k = do {
     let q = syscalls_init (link_syscall b) (sys_kernel k);
     (ok, t, i, p, s) \<leftarrow> scheduler_init dev (timer (sys_int k), idts (sys_int k), pic (sys_int k), k_sched q);
     Some (k\<lparr>sys_kernel := q\<lparr>k_sched := s\<rparr>, sys_int := (sys_int k)\<lparr>timer := t, idts := i, pic := p\<rparr>\<rparr>)
   }"

text \<open>\<open>kmain\<close> from the test of the memory map on, up to its last loop, which does nothing.\<close>

definition kmain_rest :: "device \<Rightarrow> boot_info \<Rightarrow> (u64 \<Rightarrow> u8 list) \<Rightarrow> system \<Rightarrow> boot_outcome option" where
  "kmain_rest dev b junk k =
     (case memmap_response (boot_answers b) of
        None \<Rightarrow> map_option hcf
          (log_calls dev [Log_message LOG_LEVEL_CRITICAL (bytes_of ''Memory map information not available'')] k)
      | Some memmap \<Rightarrow> going (do {
          k \<leftarrow> start_memory b memmap k;
          k \<leftarrow> start_drivers dev k;
          k \<leftarrow> start_files junk (start_disks dev k);
          k \<leftarrow> start_tasks dev b k;
          k \<leftarrow> log_calls dev [LOG_INFO_MSG ''Kernel initialized''] k;
          log_calls dev (sysinfo_print (boot_answers b) (pmm (sys_vm k))) k
        }))"

definition kmain :: "mmu \<Rightarrow> device \<Rightarrow> boot_info \<Rightarrow> (u64 \<Rightarrow> u8 list) \<Rightarrow> system \<Rightarrow> boot_outcome option" where
  "kmain mmu dev b junk k =
     and_then (and_then (going (do { k \<leftarrow> start_log dev k; log_calls dev [LOG_INFO_MSG ''KronosOS booting''] k }))
       (setup_fb mmu dev b))
     (\<lambda>k. do {
       k \<leftarrow> log_calls dev [LOG_INFO_MSG ''Initializing GDT''] k;
       k \<leftarrow> start_tables dev b k;
       kmain_rest dev b junk k
     })"

section \<open>The steps return\<close>

lemma set_trace_simps [simp]:
  "sys_log (set_trace t k) = sys_log k" "sys_gdt (set_trace t k) = sys_gdt k" "sys_pci (set_trace t k) = sys_pci k"
  "sys_kernel (set_trace t k) = sys_kernel k" "sys_trace (set_trace t k) = t"
  "idts (sys_int (set_trace t k)) = idts (sys_int k)" "timer (sys_int (set_trace t k)) = timer (sys_int k)"
  "pic (sys_int (set_trace t k)) = (pic (sys_int k))\<lparr>io := t\<rparr>"
  by (simp_all add: set_trace_def)

lemma log_calls_returns:
  assumes "transmits dev SERIAL_COM1" and "list_all fits calls"
  shows "\<exists>t. log_calls dev calls k = Some (set_trace t k) \<and> extends com1_ports (sys_trace k) t"
proof -
  obtain t where t: "run_log dev (sys_log k) calls (sys_trace k) = Some t"
    using run_log_returns [OF assms, of "sys_log k" "sys_trace k"] by auto
  show ?thesis using run_log_extends [OF t] by (auto simp: log_calls_def t)
qed


lemma start_log_returns:
  assumes "transmits dev SERIAL_COM1"
  shows "\<exists>l t. start_log dev k = Some (set_trace t (k\<lparr>sys_log := l\<rparr>)) \<and> extends com1_ports (sys_trace k) t"
proof -
  have m: "0 \<notin> set (bytes_of ''Logging system initialized'')" by (simp add: bytes_of_def)
  have "\<exists>r l t. log_init dev LOG_LEVEL_DEBUG (sys_log k) (sys_trace k) = Some (r, l, t)"
    using log_sends [OF assms _ m, of "[]" "[]" "[]"]
    by (auto simp: log_init_def Let_def split_beta) metis
  then obtain r l t where i: "log_init dev LOG_LEVEL_DEBUG (sys_log k) (sys_trace k) = Some (r, l, t)" by blast
  show ?thesis using log_init_extends [OF i] by (auto simp: start_log_def i)
qed

lemma cpu_memset_returns:
  assumes "\<forall>m. \<forall>i < n. mmu (v\<lparr>mem := m\<rparr>) (p + of_nat i) \<noteq> None"
  shows "\<exists>m. cpu_memset mmu p c n v = Some (v\<lparr>mem := m\<rparr>)"
  using assms
proof (induction n)
  case 0
  show ?case by (auto intro!: exI [of _ "mem v"])
next
  case (Suc n)
  then obtain m where m: "cpu_memset mmu p c n v = Some (v\<lparr>mem := m\<rparr>)" using less_SucI by blast
  obtain a where "mmu (v\<lparr>mem := m\<rparr>) (p + of_nat n) = Some a" using Suc.prems by blast
  then show ?case by (auto simp: m cpu_store_def)
qed

lemma setup_fb_returns:
  assumes "transmits dev SERIAL_COM1" and "framebuffer_response b = Some (fb # fbs)"
    and "\<forall>m. \<forall>i < unat (fb_pitch fb * fb_height fb). mmu ((sys_vm k)\<lparr>mem := m\<rparr>) (fb_address fb + of_nat i) \<noteq> None"
  shows "\<exists>t m. setup_fb mmu dev b k
      = Some (Going (set_trace t (k\<lparr>sys_kernel := set_vm ((sys_vm k)\<lparr>mem := m\<rparr>) (sys_kernel k)\<rparr>)))
    \<and> extends com1_ports (sys_trace k) t"
proof -
  have f: "list_all fits [LOG_INFO ''Framebuffer: %dx%d, pitch: %d, bpp: %d''
      [low_half (fb_width fb), low_half (fb_height fb), low_half (fb_pitch fb), VA_int (ucast (fb_bpp fb))]]"
    by (simp add: fits_simps del: vsprintf.simps(2) not_None_eq)
  obtain t where t: "log_calls dev [LOG_INFO ''Framebuffer: %dx%d, pitch: %d, bpp: %d''
      [low_half (fb_width fb), low_half (fb_height fb), low_half (fb_pitch fb), VA_int (ucast (fb_bpp fb))]] k
      = Some (set_trace t k)" "extends com1_ports (sys_trace k) t"
    using log_calls_returns [OF assms(1) f] by blast
  obtain m where "cpu_memset mmu (fb_address fb) 0 (unat (fb_pitch fb * fb_height fb)) (sys_vm k) = Some ((sys_vm k)\<lparr>mem := m\<rparr>)"
    using cpu_memset_returns [OF assms(3)] by blast
  then have "setup_fb mmu dev b k
      = Some (Going (set_trace t (k\<lparr>sys_kernel := set_vm ((sys_vm k)\<lparr>mem := m\<rparr>) (sys_kernel k)\<rparr>)))"
    using t(1) by (simp add: setup_fb_def assms(2) going_def set_trace_def)
  then show ?thesis using t(2) by blast
qed

lemma start_tables_returns:
  assumes "pic_device m1 m2 dev" and "length (gdt (sys_gdt k)) = 7" and "extends com1_ports [] (sys_trace k)"
  shows "\<exists>k'. start_tables dev b k = Some k' \<and> sys_kernel k' = sys_kernel k \<and> sys_log k' = sys_log k
    \<and> timer (sys_int k') = timer (sys_int k)
    \<and> interrupt_handlers (idts (sys_int k')) = interrupt_handlers (idts (sys_int k))
    \<and> GDT.cs (sys_gdt k') = 0x08 \<and> GDT.tr (sys_gdt k') = 0x28
    \<and> masked m1 m2 ({0, 1} \<union> {n. bit (mask_pair m1 m2) n} - {2}) (pic (sys_int k'))
    \<and> answers (sys_trace k') = (False, [])"
proof -
  obtain g where g: "gdt_init (link_gdt b) (link_tss b) (sys_gdt k) = Some g" "GDT.cs g = 0x08" "GDT.tr g = 0x28"
    using gdt_init_state [OF assms(2), of "link_gdt b" "link_tss b"] by blast
  define p where "p = pic (sys_int k)"
  obtain i where i: "idt_init dev (link_idt b) (link_isr b) (link_irq b) (idts (sys_int k), p) = (i, pic_init dev p)"
    "interrupt_handlers i = interrupt_handlers (idts (sys_int k))"
    using idt_init_parts [of dev "link_idt b" "link_isr b" "link_irq b" "idts (sys_int k)" p] by (metis prod.collapse)
  have "answers (io p) = (False, [])"
    using answers_extends [OF assms(3) ports_apart(4,5)] by (simp add: p_def)
  then have "answers (io (pic_init dev p)) = (False, [])"
    using answers_extends [OF pic_init_extends other_ports(2,3), of dev p] by simp
  then show ?thesis
    using g i masked_init [OF assms(1), of com1_ports p] assms(3) ports_apart(1) by (simp add: start_tables_def p_def)
qed


text \<open>After \<open>pmm_init\<close> exactly the first 256 pages are in use, so two pages are left from 258 pages on.\<close>

lemma two_pages:
  assumes "pmm_inv q" and used: "\<And>i. i < npages q \<Longrightarrow> page_used (static_bitmap q) i \<longleftrightarrow> i < 256"
  shows "fst (pmm_alloc_pages 2 q) \<noteq> NULL \<longleftrightarrow> 258 \<le> npages q"
    "npages (snd (pmm_alloc_pages 2 q)) = npages q" "pmm_inv (snd (pmm_alloc_pages 2 q))"
proof -
  have u2: "unat (2 :: u64) = 2" by simp
  have eq: "pmm_alloc_pages 2 q = (case first_fit (static_bitmap q) (npages q) 2 of
      Some k \<Rightarrow> (page_addr q k, q\<lparr>static_bitmap := mark_run k 2 (static_bitmap q), total_allocations := total_allocations q + 1\<rparr>)
    | None \<Rightarrow> (NULL, q\<lparr>failed_allocations := failed_allocations q + 1\<rparr>))"
    using pmm_alloc_pages_eq [OF assms(1), of 2] unfolding u2 by simp
  show "npages (snd (pmm_alloc_pages 2 q)) = npages q" by (simp add: eq split: option.split)
  show "pmm_inv (snd (pmm_alloc_pages 2 q))" by (rule pmm_alloc_pages_inv [OF assms(1)])
  have "first_fit (static_bitmap q) (npages q) 2 = None" if "\<not> 258 \<le> npages q"
  proof -
    have "\<not> run_free (static_bitmap q) 2 k" if "k + 2 \<le> npages q" for k
      using that \<open>\<not> 258 \<le> npages q\<close> used [of k] by (auto simp: run_free_def intro!: exI [of _ 0])
    then show ?thesis by (simp add: first_fit_None)
  qed
  moreover have "used_below 256 q" "256 + unat (2 :: u64) \<le> npages q" if "258 \<le> npages q"
    using that assms by (simp_all add: used_below_def)
  ultimately show "fst (pmm_alloc_pages 2 q) \<noteq> NULL \<longleftrightarrow> 258 \<le> npages q"
    using used_below_alloc_pages [of 256 q 2] eq by (cases "258 \<le> npages q") auto
qed

lemma start_memory_returns:
  assumes "memmap_ok es"
  shows "\<exists>k' q. start_memory b es k = Some k' \<and> sys_log k' = sys_log k \<and> sys_gdt k' = sys_gdt k \<and> sys_pci k' = sys_pci k
    \<and> pic (sys_int k') = pic (sys_int k) \<and> timer (sys_int k') = timer (sys_int k)
    \<and> interrupt_handlers (idts (sys_int k')) = (interrupt_handlers (idts (sys_int k)))(14 \<mapsto> Page_Fault_Handler)
    \<and> k_fs (sys_kernel k') = k_fs (sys_kernel k)
    \<and> pmm (sys_vm k') = q \<and> pmm_inv q \<and> (\<forall>i < npages q. page_used (static_bitmap q) i \<longleftrightarrow> i < 256)"
proof -
  obtain q where q: "pmm_init (Some es) (pmm (sys_vm k)) = Some q" "pmm_inv q"
    "\<And>i. i < npages q \<Longrightarrow> page_used (static_bitmap q) i \<longleftrightarrow> i < 256"
    using pmm_init_result [OF assms] by metis
  have v: "pmm (vmm_init h a e v) = pmm v" for h a e v
    by (simp add: vmm_init_def Let_def split_beta)
  show ?thesis using q by (simp add: start_memory_def set_vm_def v register_handlers)
qed

lemma keyboard_mouse_ready:
  assumes "pic_device m1 m2 dev" "ps2_mouse dev" and p: "masked m1 m2 M p" "answers (io p) = (False, [])"
  shows "\<exists>p'. mouse_init dev (keyboard_init dev (i, p))
      = Some (idt_register_handler IRQ_KEYBOARD (Some Keyboard_Handler) i, p') \<and> masked m1 m2 (M - {1}) p'"
proof -
  define p1 where "p1 = pic_unmask_irq dev 1 p"
  have m: "masked m1 m2 (M - {1}) p1" using masked_unmask [OF assms(1) p(1), of 1] by (simp add: p1_def)
  have "answers (io p1) = (False, [])"
    using answers_extends [OF pic_mask_extends(2) other_ports(2,3), of dev 1 p] p(2) by (simp add: p1_def)
  then obtain t where t: "mouse_setup dev (io p1) = Some (False, t)" using mouse_setup_fails [OF assms(2)] by blast
  have "masked m1 m2 (M - {1}) (p1\<lparr>io := t\<rparr>)"
    by (rule masked_extends [OF m mouse_setup_extends [OF t] ports_apart(2)])
  then show ?thesis using t by (auto simp: keyboard_init_def mouse_init_def p1_def)
qed

lemma start_drivers_returns:
  assumes dev: "pic_device m1 m2 dev" "ps2_mouse dev" "transmits dev SERIAL_COM1"
    and p: "masked m1 m2 M (pic (sys_int k))" "answers (sys_trace k) = (False, [])"
  shows "\<exists>k'. start_drivers dev k = Some k' \<and> sys_log k' = sys_log k \<and> sys_gdt k' = sys_gdt k \<and> sys_pci k' = sys_pci k
    \<and> sys_vm k' = sys_vm k \<and> k_fs (sys_kernel k') = k_fs (sys_kernel k) \<and> timer (sys_int k') = timer (sys_int k)
    \<and> interrupt_state (idts (sys_int k'))
    \<and> interrupt_handlers (idts (sys_int k')) = (interrupt_handlers (idts (sys_int k)))
        (IRQ_TIMER \<mapsto> Timer_Handler, IRQ_KEYBOARD \<mapsto> Keyboard_Handler)
    \<and> masked m1 m2 (M - {0, 1}) (pic (sys_int k'))"
proof -
  obtain i where i: "idts (sys_int k) = i" by blast
  obtain p1 where p1: "timer_init dev 100 (i, pic (sys_int k)) = Some (idt_register_handler IRQ_TIMER (Some Timer_Handler) i, p1)"
    "masked m1 m2 (M - {0}) p1" "answers (io p1) = (False, [])"
    using timer_init_masked [OF dev(1) p(1), of 100 i] p(2) by auto
  obtain k1 where k1: "k\<lparr>sys_int := (sys_int k)\<lparr>idts := idt_register_handler IRQ_TIMER (Some Timer_Handler) i, pic := p1\<rparr>\<rparr> = k1" by blast
  have f: "list_all fits [LOG_INFO_MSG ''Initializing I/O Drivers (KB, Mouse)'']" "list_all fits [LOG_INFO_MSG ''Enabling interrupts'']"
    by (simp_all add: bytes_of_def)
  obtain t1 where t1: "log_calls dev [LOG_INFO_MSG ''Initializing I/O Drivers (KB, Mouse)''] k1 = Some (set_trace t1 k1)"
    "extends com1_ports (io p1) t1"
    using log_calls_returns [OF dev(3) f(1), of k1] by (auto simp flip: k1)
  obtain k2 where k2: "set_trace t1 k1 = k2" by blast
  have k2': "idts (sys_int k2) = idt_register_handler IRQ_TIMER (Some Timer_Handler) i" "pic (sys_int k2) = p1\<lparr>io := t1\<rparr>"
    by (simp_all flip: k1 k2)
  have "masked m1 m2 (M - {0}) (p1\<lparr>io := t1\<rparr>)" "answers (io (p1\<lparr>io := t1\<rparr>)) = (False, [])"
    using masked_extends [OF p1(2) t1(2) ports_apart(1)] answers_extends [OF t1(2) ports_apart(4,5)] p1(3) by simp_all
  from keyboard_mouse_ready [OF dev(1,2) this] obtain i2 p2 where
    i2: "i2 = idt_register_handler IRQ_KEYBOARD (Some Keyboard_Handler) (idt_register_handler IRQ_TIMER (Some Timer_Handler) i)"
    and init: "mouse_init dev (keyboard_init dev (idts (sys_int k2), pic (sys_int k2))) = Some (i2, p2)"
    and m2: "masked m1 m2 (M - {0, 1}) p2"
    by (simp add: k2' Diff_insert2 [symmetric] insert_commute) blast
  obtain k3 where k3: "k2\<lparr>sys_int := (sys_int k2)\<lparr>idts := i2, pic := p2\<rparr>\<rparr> = k3" by blast
  obtain t3 where t3: "log_calls dev [LOG_INFO_MSG ''Enabling interrupts''] k3 = Some (set_trace t3 k3)"
    "extends com1_ports (io p2) t3"
    using log_calls_returns [OF dev(3) f(2), of k3] by (auto simp flip: k3)
  have m4: "masked m1 m2 (M - {0, 1}) (p2\<lparr>io := t3\<rparr>)"
    by (rule masked_extends [OF m2 t3(2) ports_apart(1)])
  obtain k4 where k4: "set_trace t3 k3 = k4" by blast
  have r: "start_drivers dev k = Some (k4\<lparr>sys_int := (sys_int k4)\<lparr>idts := interrupt_enable (idts (sys_int k4))\<rparr>,
       sys_kernel := (sys_kernel k4)\<lparr>k_sched := (k_sched (sys_kernel k4))\<lparr>interrupts_on := True\<rparr>\<rparr>\<rparr>)"
    unfolding start_drivers_def by (simp add: i p1(1) k1 t1(1) k2 init k3 t3(1) k4 del: k2')
  have "bit (set_bit 9 (flags i2)) 9" by (simp add: bit_simps)
  then have "interrupt_state (interrupt_enable i2)"
    by (simp add: interrupt_state_def interrupt_enable_def bit_iff_and_push_bit_not_eq_0 [symmetric] del: push_bit_of_1)
  moreover have "interrupt_handlers (interrupt_enable i2) = (interrupt_handlers i)
      (IRQ_TIMER \<mapsto> Timer_Handler, IRQ_KEYBOARD \<mapsto> Keyboard_Handler)"
    by (simp add: interrupt_enable_def i2 register_handlers)
  ultimately show ?thesis using r m4 i by (simp flip: k1 k2 k3 k4)
qed


lemma start_disks_keeps:
  assumes "masked m1 m2 M (pic (sys_int k))"
  shows "masked m1 m2 M (pic (sys_int (start_disks dev k)))"
    "sys_gdt (start_disks dev k) = sys_gdt k" "sys_vm (start_disks dev k) = sys_vm k" "sys_log (start_disks dev k) = sys_log k"
    "idts (sys_int (start_disks dev k)) = idts (sys_int k)" "timer (sys_int (start_disks dev k)) = timer (sys_int k)"
    "\<exists>a. k_fs (sys_kernel (start_disks dev k)) = (k_fs (sys_kernel k))\<lparr>ata := a\<rparr>"
proof -
  define s0 where "s0 = (ata (k_fs (sys_kernel k)))\<lparr>ata_io := sys_trace k\<rparr>"
  obtain a p where a: "ata_init dev (s0, sys_pci k) = (a, p)" by force
  have "extends drive_ports (sys_trace k) (ata_io a)"
    using ata_init_extends [of "ata_io s0" s0 dev "sys_pci k", OF extends_refl] unfolding a by (simp add: s0_def)
  from masked_extends [OF assms this ports_apart(3)]
  show "masked m1 m2 M (pic (sys_int (start_disks dev k)))" using a by (simp add: start_disks_def Let_def s0_def)
  show "sys_gdt (start_disks dev k) = sys_gdt k" "sys_vm (start_disks dev k) = sys_vm k" "sys_log (start_disks dev k) = sys_log k"
    "idts (sys_int (start_disks dev k)) = idts (sys_int k)" "timer (sys_int (start_disks dev k)) = timer (sys_int k)"
    "\<exists>a. k_fs (sys_kernel (start_disks dev k)) = (k_fs (sys_kernel k))\<lparr>ata := a\<rparr>"
    using a by (auto simp: start_disks_def Let_def s0_def)
qed

lemma start_files_returns:
  assumes "\<not> mounted (k_fs (sys_kernel k))" "\<not> initialized (k_fs (sys_kernel k))" "\<forall>p. length (junk p) = 8192"
    and q: "pmm (sys_vm k) = q" "pmm_inv q" "\<forall>i < npages q. page_used (static_bitmap q) i \<longleftrightarrow> i < 256"
  shows "\<exists>k'. start_files junk k = Some k' \<and> sys_int k' = sys_int k \<and> sys_gdt k' = sys_gdt k \<and> sys_log k' = sys_log k
    \<and> fs_reachable dev (k_fs (sys_kernel k')) \<and> \<not> mounted (k_fs (sys_kernel k'))
    \<and> pmm_inv (pmm (sys_vm k')) \<and> npages (pmm (sys_vm k')) = npages q
    \<and> (initialized (k_fs (sys_kernel k')) \<longleftrightarrow> 258 \<le> npages q)"
proof -
  define s where "s = (k_fs (sys_kernel k))\<lparr>frames := q\<rparr>"
  obtain ok s' where e: "ext2_init junk s = (ok, s')" by force
  have r: "fs_reachable dev s'"
    using fs_reachable.start [of s junk dev] assms(1-3) e by (simp add: s_def)
  note two = two_pages [OF q(2)] 
  have "\<not> mounted s'" "initialized s' \<longleftrightarrow> 258 \<le> npages q" "pmm_inv (frames s')" "npages (frames s') = npages q"
    using e two q(3) assms(1,2) by (auto simp: ext2_init_def zero_fs_def s_def Let_def split_beta split: if_splits)
  then show ?thesis using r e q(1) by (simp add: start_files_def fs_call_def s_def set_vm_def)
qed

lemma start_tasks_returns:
  assumes "pic_device m1 m2 dev" "masked m1 m2 M (pic (sys_int k))"
  shows "\<exists>k'. start_tasks dev b k = Some k' \<and> sys_gdt k' = sys_gdt k \<and> sys_log k' = sys_log k
    \<and> k_fs (sys_kernel k') = k_fs (sys_kernel k) \<and> sys_vm k' = sys_vm k
    \<and> k_msr (sys_kernel k') IA32_LSTAR = link_syscall b
    \<and> current_task (k_sched (sys_kernel k')) = Some 0 \<and> idle_task (k_sched (sys_kernel k')) = Some 0
    \<and> \<not> task_lock (k_sched (sys_kernel k'))
    \<and> Timer.timer_callback (timer (sys_int k')) = Some scheduler_callback
    \<and> flags (idts (sys_int k')) = flags (idts (sys_int k))
    \<and> interrupt_handlers (idts (sys_int k')) = (interrupt_handlers (idts (sys_int k)))(IRQ_TIMER \<mapsto> Timer_Handler)
    \<and> masked m1 m2 (M - {0}) (pic (sys_int k'))"
proof -
  obtain p' where p': "timer_init dev (ucast (tick_rate scheduler_config)) (idts (sys_int k), pic (sys_int k))
      = Some (idt_register_handler IRQ_TIMER (Some Timer_Handler) (idts (sys_int k)), p')" "masked m1 m2 (M - {0}) p'"
    using timer_init_masked [OF assms, of "ucast (tick_rate scheduler_config)" "idts (sys_int k)"]
    by (auto simp: scheduler_config_def)
  have f: "flags (idt_register_handler v h i) = flags i" for v h i by (simp add: idt_register_handler_def)
  show ?thesis using p'
    by (simp add: start_tasks_def scheduler_init_def Let_def init_idle_def upd_def register_handlers f timer_register_callback_def
        syscalls_init_def write_msr_def IA32_LSTAR_def IA32_EFER_def IA32_FMASK_def IA32_STAR_def)
qed


text \<open>The state before the first instruction of the kernel, as far as the start depends on it.\<close>

definition powered_on :: "system \<Rightarrow> bool" where
  "powered_on k \<longleftrightarrow> sys_int k = kernel_boot \<and> length (gdt (sys_gdt k)) = 7
     \<and> \<not> mounted (k_fs (sys_kernel k)) \<and> \<not> initialized (k_fs (sys_kernel k))"

text \<open>The log starts, and leaves everything else alone but the ports of the UART.\<close>

lemma boot_log:
  assumes dev: "transmits dev SERIAL_COM1" and k: "powered_on k"
  shows "\<exists>k'. (do { k \<leftarrow> start_log dev k; log_calls dev [LOG_INFO_MSG ''KronosOS booting''] k }) = Some k'
    \<and> sys_gdt k' = sys_gdt k \<and> sys_kernel k' = sys_kernel k
    \<and> interrupt_handlers (idts (sys_int k')) = (\<lambda>_. None) \<and> extends com1_ports [] (sys_trace k')"
proof -
  have f: "list_all fits [LOG_INFO_MSG ''KronosOS booting'']" by (simp add: bytes_of_def)
  have k0: "sys_trace k = []" "interrupt_handlers (idts (sys_int k)) = (\<lambda>_. None)"
    using k by (simp_all add: powered_on_def kernel_boot_def pic_boot_def idt_boot_def)
  obtain k1 where 1: "start_log dev k = Some k1" "sys_gdt k1 = sys_gdt k" "sys_kernel k1 = sys_kernel k"
    "interrupt_handlers (idts (sys_int k1)) = (\<lambda>_. None)" "extends com1_ports [] (sys_trace k1)"
    using start_log_returns [OF dev, of k] k0 by force
  show ?thesis using log_calls_returns [OF dev f, of k1] 1 extends_trans [OF 1(5)] by force
qed

lemma boot_tables:
  assumes dev: "pic_device m1 m2 dev" "transmits dev SERIAL_COM1" and k: "powered_on k"
    and fb: "framebuffer_response b = Some (fb # fbs)"
      "\<forall>m. \<forall>i < unat (fb_pitch fb * fb_height fb). mmu ((sys_vm k)\<lparr>mem := m\<rparr>) (fb_address fb + of_nat i) \<noteq> None"
  shows "\<exists>k'. kmain mmu dev b junk k = kmain_rest dev b junk k'
    \<and> k_fs (sys_kernel k') = k_fs (sys_kernel k) \<and> pmm (sys_vm k') = pmm (sys_vm k)
    \<and> interrupt_handlers (idts (sys_int k')) = (\<lambda>_. None) \<and> GDT.cs (sys_gdt k') = 0x08 \<and> GDT.tr (sys_gdt k') = 0x28
    \<and> masked m1 m2 ({0, 1} \<union> {n. bit (mask_pair m1 m2) n} - {2}) (pic (sys_int k'))
    \<and> answers (sys_trace k') = (False, [])"
proof -
  have f: "list_all fits [LOG_INFO_MSG ''Initializing GDT'']" by (simp add: bytes_of_def)
  obtain k2 where 2: "(do { k \<leftarrow> start_log dev k; log_calls dev [LOG_INFO_MSG ''KronosOS booting''] k }) = Some k2"
    "sys_gdt k2 = sys_gdt k" "sys_kernel k2 = sys_kernel k"
    "interrupt_handlers (idts (sys_int k2)) = (\<lambda>_. None)" "extends com1_ports [] (sys_trace k2)"
    using boot_log [OF dev(2) k] by blast
  have "\<forall>m. \<forall>i < unat (fb_pitch fb * fb_height fb). mmu ((sys_vm k2)\<lparr>mem := m\<rparr>) (fb_address fb + of_nat i) \<noteq> None"
    using fb(2) by (simp add: 2(3))
  from setup_fb_returns [where b = b and k = k2, OF dev(2) fb(1) this]
  obtain k3 where 3: "setup_fb mmu dev b k2 = Some (Going k3)" "sys_gdt k3 = sys_gdt k"
    "k_fs (sys_kernel k3) = k_fs (sys_kernel k)" "pmm (sys_vm k3) = pmm (sys_vm k)"
    "interrupt_handlers (idts (sys_int k3)) = (\<lambda>_. None)" "extends com1_ports [] (sys_trace k3)"
    using 2 extends_trans [OF 2(5)] by (force simp: set_vm_def)
  obtain k4 where 4: "log_calls dev [LOG_INFO_MSG ''Initializing GDT''] k3 = Some k4" "sys_gdt k4 = sys_gdt k3"
    "sys_kernel k4 = sys_kernel k3" "interrupt_handlers (idts (sys_int k4)) = (\<lambda>_. None)" "extends com1_ports [] (sys_trace k4)"
    using log_calls_returns [OF dev(2) f, of k3] 3 extends_trans [OF 3(6)] by force
  have "length (gdt (sys_gdt k4)) = 7" using k 4(2) 3(2) by (simp add: powered_on_def)
  from start_tables_returns [OF dev(1) this 4(5), of b]
  show ?thesis using 2(1) 3 4 by (auto simp: kmain_def going_def)
qed

lemma boot_rest:
  assumes dev: "pic_device m1 m2 dev" "ps2_mouse dev" "transmits dev SERIAL_COM1"
    and map: "memmap_response (boot_answers b) = Some es" "memmap_ok es" and junk: "\<forall>p. length (junk p) = 8192"
    and k: "masked m1 m2 M (pic (sys_int k))" "answers (sys_trace k) = (False, [])"
      "\<not> mounted (k_fs (sys_kernel k))" "\<not> initialized (k_fs (sys_kernel k))" "interrupt_handlers (idts (sys_int k)) = (\<lambda>_. None)"
  shows "\<exists>K. kmain_rest dev b junk k = Some (Going K) \<and> sys_gdt K = sys_gdt k
    \<and> interrupt_state (idts (sys_int K))
    \<and> interrupt_handlers (idts (sys_int K))
        = [14 \<mapsto> Page_Fault_Handler, IRQ_TIMER \<mapsto> Timer_Handler, IRQ_KEYBOARD \<mapsto> Keyboard_Handler]
    \<and> masked m1 m2 (M - {0, 1}) (pic (sys_int K))
    \<and> Timer.timer_callback (timer (sys_int K)) = Some scheduler_callback
    \<and> current_task (k_sched (sys_kernel K)) = Some 0 \<and> \<not> task_lock (k_sched (sys_kernel K))
    \<and> pmm_inv (pmm (sys_vm K)) \<and> k_msr (sys_kernel K) IA32_LSTAR = link_syscall b
    \<and> fs_reachable dev (k_fs (sys_kernel K)) \<and> \<not> mounted (k_fs (sys_kernel K))
    \<and> (initialized (k_fs (sys_kernel K)) \<longleftrightarrow> 258 \<le> npages (pmm (sys_vm K)))"
proof -
  obtain k1 q where 1: "start_memory b es k = Some k1" "sys_gdt k1 = sys_gdt k" "pic (sys_int k1) = pic (sys_int k)"
    "interrupt_handlers (idts (sys_int k1)) = [14 \<mapsto> Page_Fault_Handler]" "k_fs (sys_kernel k1) = k_fs (sys_kernel k)"
    "pmm (sys_vm k1) = q" "pmm_inv q" "\<forall>i < npages q. page_used (static_bitmap q) i \<longleftrightarrow> i < 256"
    using start_memory_returns [OF map(2), of b k] k(5) by auto
  obtain k2 where 2: "start_drivers dev k1 = Some k2" "sys_gdt k2 = sys_gdt k" "k_fs (sys_kernel k2) = k_fs (sys_kernel k)"
    "pmm (sys_vm k2) = q" "interrupt_state (idts (sys_int k2))"
    "interrupt_handlers (idts (sys_int k2)) = [14 \<mapsto> Page_Fault_Handler, IRQ_TIMER \<mapsto> Timer_Handler, IRQ_KEYBOARD \<mapsto> Keyboard_Handler]"
    "masked m1 m2 (M - {0, 1}) (pic (sys_int k2))"
    using start_drivers_returns [OF dev, of M k1] k(1,2) 1 by auto
  note d = start_disks_keeps [OF 2(7), of dev]
  have "\<not> mounted (k_fs (sys_kernel (start_disks dev k2)))" "\<not> initialized (k_fs (sys_kernel (start_disks dev k2)))"
    "pmm (sys_vm (start_disks dev k2)) = q" using d(3,7) 2(3,4) k(3,4) by auto
  from start_files_returns [OF this(1,2) junk this(3) 1(7,8), of dev]
  obtain k3 where 3: "start_files junk (start_disks dev k2) = Some k3" "sys_int k3 = sys_int (start_disks dev k2)"
    "sys_gdt k3 = sys_gdt k" "fs_reachable dev (k_fs (sys_kernel k3))" "\<not> mounted (k_fs (sys_kernel k3))"
    "pmm_inv (pmm (sys_vm k3))" "initialized (k_fs (sys_kernel k3)) \<longleftrightarrow> 258 \<le> npages (pmm (sys_vm k3))"
    using d(2) 2(2) by auto
  have "masked m1 m2 (M - {0, 1}) (pic (sys_int k3))" using d(1) 3(2) by simp
  from start_tasks_returns [OF dev(1) this, of b]
  obtain k4 where 4: "start_tasks dev b k3 = Some k4" "sys_gdt k4 = sys_gdt k" "k_fs (sys_kernel k4) = k_fs (sys_kernel k3)"
    "sys_vm k4 = sys_vm k3" "k_msr (sys_kernel k4) IA32_LSTAR = link_syscall b"
    "current_task (k_sched (sys_kernel k4)) = Some 0" "\<not> task_lock (k_sched (sys_kernel k4))"
    "Timer.timer_callback (timer (sys_int k4)) = Some scheduler_callback" "flags (idts (sys_int k4)) = flags (idts (sys_int k3))"
    "interrupt_handlers (idts (sys_int k4)) = (interrupt_handlers (idts (sys_int k3)))(IRQ_TIMER \<mapsto> Timer_Handler)"
    "masked m1 m2 (M - {0, 1}) (pic (sys_int k4))" using 3(3) by auto
  have f: "list_all fits [LOG_INFO_MSG ''Kernel initialized'']" by (simp add: bytes_of_def)
  obtain t5 where 5: "log_calls dev [LOG_INFO_MSG ''Kernel initialized''] k4 = Some (set_trace t5 k4)" "extends com1_ports (sys_trace k4) t5"
    using log_calls_returns [OF dev(3) f] by blast
  obtain t6 where 6: "log_calls dev (sysinfo_print (boot_answers b) (pmm (sys_vm k4))) (set_trace t5 k4) = Some (set_trace t6 (set_trace t5 k4))"
    "extends com1_ports t5 t6" using log_calls_returns [OF dev(3) sysinfo_fits, of _ _ "set_trace t5 k4"] by fastforce
  have "masked m1 m2 (M - {0, 1}) ((pic (sys_int k4))\<lparr>io := t6\<rparr>)"
    by (rule masked_extends [OF 4(11) extends_trans [OF 5(2) 6(2)] ports_apart(1)])
  moreover have "interrupt_state (idts (sys_int k4))" using 2(5) 4(9) 3(2) d(5) by (simp add: interrupt_state_def)
  moreover have "interrupt_handlers (idts (sys_int k4)) = [14 \<mapsto> Page_Fault_Handler, IRQ_TIMER \<mapsto> Timer_Handler, IRQ_KEYBOARD \<mapsto> Keyboard_Handler]"
    using 4(10) 3(2) d(5) 2(6) by (auto simp: IRQ_TIMER_def IRQ_KEYBOARD_def)
  ultimately show ?thesis using 1(1) 2(1) 3 4 5(1) 6(1) map(1) by (simp add: kmain_rest_def going_def)
qed

section \<open>Properties\<close>



text \<open>A machine with the controllers and the mouse of theory Interrupts and a UART that is always ready.\<close>

definition demo_computer :: device where
  "demo_computer = demo_machine\<lparr>dev8 := (\<lambda>t port. if port = 0x3FD then 0x20 else dev8 demo_machine t port)\<rparr>"

lemma demo_computer_ok:
  "pic_device 0xFF 0xFF demo_computer" "ps2_mouse demo_computer" "transmits demo_computer SERIAL_COM1"
proof -
  show "pic_device 0xFF 0xFF demo_computer"
    using demo_machine_ok(1) by (simp add: pic_device_def demo_computer_def PIC1_DATA_def PIC2_DATA_def)
  show "ps2_mouse demo_computer"
    using demo_machine_ok(2) by (simp add: ps2_mouse_def demo_computer_def MOUSE_STATUS_PORT_def MOUSE_DATA_PORT_def)
  have "fst (serial_is_transmit_ready demo_computer SERIAL_COM1 (poll (serial_is_transmit_ready demo_computer SERIAL_COM1) 0 t))" for t
    by (simp add: serial_is_transmit_ready_def inb_def demo_computer_def SERIAL_COM1_def SERIAL_LINE_STAT_def SERIAL_LINE_THR_EMPTY_def)
  then show "transmits demo_computer SERIAL_COM1" unfolding transmits_def by blast
qed

definition demo_system :: system where
  "demo_system = \<lparr>sys_log = \<lparr>current_log_level = LOG_LEVEL_INFO, log_initialized = False\<rparr>, sys_gdt = gdt_boot,
     sys_int = kernel_boot, sys_pci = pci_boot,
     sys_kernel = \<lparr>k_sched = demo_running, k_fs = demo_boot, k_ext2_fs = demo_boot, k_msr = (\<lambda>_. 0)\<rparr>\<rparr>"

definition demo_info :: boot_info where
  "demo_info = \<lparr>framebuffer_response = Some [\<lparr>fb_address = 0xB8000, fb_width = 2, fb_height = 2, fb_pitch = 8, fb_bpp = 32\<rparr>],
     boot_answers = \<lparr>memmap_response = Some demo_map, bootloader_response = None, kernel_addr_response = None\<rparr>,
     hhdm_response = None, cpuid_edx = 0, link_gdt = 0xFFFFFFFF80010000, link_tss = 0xFFFFFFFF80020000,
     link_idt = 0xFFFFFFFF80030000, link_isr = (\<lambda>_. 0), link_irq = (\<lambda>_. 0), link_syscall = 0xFFFFFFFF80040000\<rparr>"


text \<open>
  The kernel stops where it cannot go on: without a framebuffer it halts before anything but the log
  is set up, and without a memory map before the memory managers and everything above them are.
\<close>

theorem kmain_stops:
  assumes dev: "pic_device m1 m2 dev" "transmits dev SERIAL_COM1" and k: "powered_on k"
  shows "(framebuffer_response b = None \<or> framebuffer_response b = Some [] \<longrightarrow>
      (\<exists>K. kmain mmu dev b junk k = Some (Stopped K) \<and> sys_kernel K = sys_kernel k \<and> sys_gdt K = sys_gdt k))
    \<and> (\<forall>fb fbs. framebuffer_response b = Some (fb # fbs)
        \<and> (\<forall>m. \<forall>i < unat (fb_pitch fb * fb_height fb). mmu ((sys_vm k)\<lparr>mem := m\<rparr>) (fb_address fb + of_nat i) \<noteq> None)
        \<and> memmap_response (boot_answers b) = None \<longrightarrow>
      (\<exists>K. kmain mmu dev b junk k = Some (Stopped K) \<and> pmm (sys_vm K) = pmm (sys_vm k) \<and> k_fs (sys_kernel K) = k_fs (sys_kernel k)))"
proof (intro conjI allI impI)
  have f: "list_all fits [Log_message LOG_LEVEL_CRITICAL (bytes_of ''No framebuffer available'')]"
    "list_all fits [Log_message LOG_LEVEL_CRITICAL (bytes_of ''Memory map information not available'')]" by (simp_all add: bytes_of_def)
  {
    assume b: "framebuffer_response b = None \<or> framebuffer_response b = Some []"
    obtain k1 where 1: "(do { k \<leftarrow> start_log dev k; log_calls dev [LOG_INFO_MSG ''KronosOS booting''] k }) = Some k1"
      "sys_gdt k1 = sys_gdt k" "sys_kernel k1 = sys_kernel k"
      using boot_log [OF dev(2) k] by blast
    have "setup_fb mmu dev b k1 = map_option hcf (log_calls dev [Log_message LOG_LEVEL_CRITICAL (bytes_of ''No framebuffer available'')] k1)"
      using b by (auto simp: setup_fb_def)
    then show "\<exists>K. kmain mmu dev b junk k = Some (Stopped K) \<and> sys_kernel K = sys_kernel k \<and> sys_gdt K = sys_gdt k"
      using log_calls_returns [OF dev(2) f(1), of k1] 1 by (auto simp: kmain_def going_def hcf_def)
  }
  fix fb fbs
  assume b: "framebuffer_response b = Some (fb # fbs)
      \<and> (\<forall>m. \<forall>i < unat (fb_pitch fb * fb_height fb). mmu ((sys_vm k)\<lparr>mem := m\<rparr>) (fb_address fb + of_nat i) \<noteq> None)
      \<and> memmap_response (boot_answers b) = None"
  then have fb: "framebuffer_response b = Some (fb # fbs)"
    "\<forall>m. \<forall>i < unat (fb_pitch fb * fb_height fb). mmu ((sys_vm k)\<lparr>mem := m\<rparr>) (fb_address fb + of_nat i) \<noteq> None" by blast+
  obtain k' where 1: "kmain mmu dev b junk k = kmain_rest dev b junk k'" "k_fs (sys_kernel k') = k_fs (sys_kernel k)"
    "pmm (sys_vm k') = pmm (sys_vm k)" using boot_tables [OF dev k fb] by blast
  show "\<exists>K. kmain mmu dev b junk k = Some (Stopped K) \<and> pmm (sys_vm K) = pmm (sys_vm k) \<and> k_fs (sys_kernel K) = k_fs (sys_kernel k)"
    using log_calls_returns [OF dev(2) f(2), of k'] b 1 by (auto simp: kmain_rest_def hcf_def)
qed

end
