(* ===== verification/Ext2_Path_Correct.thy ===== *)
theory Ext2_Path_Correct
  imports Ext2_Dir
begin

text \<open>
  Paths: that \<open>ext2_normalize_path\<close>, which works on one buffer with \<open>strtok_r\<close>, \<open>strrchr\<close> and \<open>strcat\<close>, is
  the resolution of a list of components on a stack.
\<close>

section \<open>The specification\<close>

fun split_slash :: "u8 list \<Rightarrow> u8 list list" where
  "split_slash [] = [[]]"
| "split_slash (c # cs) = (if c = slash then [] # split_slash cs else (c # hd (split_slash cs)) # tl (split_slash cs))"

definition components :: "u8 list \<Rightarrow> u8 list list" where
  "components p = filter (\<lambda>c. c \<noteq> []) (split_slash p)"

text \<open>The step to the parent never leaves the first component.\<close>

fun resolve :: "u8 list list \<Rightarrow> u8 list list \<Rightarrow> u8 list list" where
  "resolve st [] = st"
| "resolve st (c # cs) =
     (if c = [0x2E] then resolve st cs
      else if c = [0x2E, 0x2E] then resolve (if length st \<le> 1 then st else butlast st) cs
      else resolve (st @ [c]) cs)"

definition render_path :: "u8 list list \<Rightarrow> u8 list" where
  "render_path st = concat (map (\<lambda>c. slash # c) st)"

definition show_path :: "u8 list list \<Rightarrow> u8 list" where
  "show_path st = (if st = [] then [slash] else render_path st)"

definition full_path :: "u8 list \<Rightarrow> ext2_state \<Rightarrow> u8 list" where
  "full_path path s =
     (if path \<noteq> [] \<and> hd path = slash then path
      else if mounted s then current_dir s @ [slash] @ path else slash # path)"

section \<open>Components\<close>

lemma split_slash_ne: "split_slash p \<noteq> []"
  by (cases p) simp_all

lemma split_slash_append:
  "slash \<notin> set t \<Longrightarrow> split_slash (t @ p) = (t @ hd (split_slash p)) # tl (split_slash p)"
  by (induction t) (simp_all add: split_slash_ne)

lemma components_slash: "components (slash # p) = components p"
  by (simp add: components_def)

lemma components_token:
  assumes "slash \<notin> set t" "t \<noteq> []"
  shows "components (t @ slash # p) = t # components p" "components t = [t]"
  using assms split_slash_append [of t "slash # p"] split_slash_append [of t "[]"] by (simp_all add: components_def)

lemma components_skip: "components p = components (dropWhile (\<lambda>c. c = slash) p)"
  by (induction p) (simp_all add: components_slash)

lemma components_next:
  "components p = (case next_token p of None \<Rightarrow> [] | Some (t, r) \<Rightarrow> t # components r)"
  "next_token p = Some (t, r) \<Longrightarrow> t \<noteq> [] \<and> slash \<notin> set t"
proof -
  define q where "q = dropWhile (\<lambda>c. c = slash) p"
  define u where "u = takeWhile (\<lambda>c. c \<noteq> slash) q"
  define v where "v = dropWhile (\<lambda>c. c \<noteq> slash) q"
  have nt: "next_token p = (if q = [] then None else Some (u, drop 1 v))"
    by (simp add: next_token_def q_def u_def v_def Let_def)
  have u: "u \<noteq> []" "slash \<notin> set u" if "q \<noteq> []"
    using that hd_dropWhile [of "\<lambda>c. c = slash" p] by (auto simp: u_def q_def takeWhile_eq_Nil_iff dest: set_takeWhileD)
  have split: "q = u @ v" by (simp add: u_def v_def)
  have "v = [] \<or> v = slash # drop 1 v"
  proof (cases v)
    case (Cons a w)
    then have "a = slash" using dropWhile_eq_Cons_conv [of "\<lambda>c. c \<noteq> slash" q a w] by (simp add: v_def)
    then show ?thesis using Cons by simp
  qed simp
  then have "components q = u # components (drop 1 v)" if "q \<noteq> []"
  proof (elim disjE)
    assume "v = []"
    then show ?thesis using components_token(2) [OF u(2,1) [OF that]] split by (simp add: components_def)
  next
    assume "v = slash # drop 1 v"
    then show ?thesis using components_token(1) [OF u(2,1) [OF that], of "drop 1 v"] split by simp
  qed
  then show "components p = (case next_token p of None \<Rightarrow> [] | Some (t, r) \<Rightarrow> t # components r)"
    unfolding components_skip [of p] q_def [symmetric] nt by (simp add: components_def)
  show "t \<noteq> [] \<and> slash \<notin> set t" if "next_token p = Some (t, r)"
    using that u by (auto simp: nt split: if_splits)
qed

definition plain :: "u8 list list \<Rightarrow> bool" where
  "plain st \<longleftrightarrow> (\<forall>c\<in>set st. c \<noteq> [] \<and> slash \<notin> set c \<and> c \<noteq> [0x2E] \<and> c \<noteq> [0x2E, 0x2E])"

lemma components_plain:
  "c \<in> set (components p) \<Longrightarrow> c \<noteq> [] \<and> slash \<notin> set c"
proof (induction p rule: measure_induct_rule [of length])
  case (less p)
  show ?case
  proof (cases "next_token p")
    case None
    then show ?thesis using less.prems components_next(1) [of p] by simp
  next
    case (Some a)
    obtain t r where a: "a = (t, r)" by force
    have "length r < length p" using next_token_length Some a by blast
    then show ?thesis using less Some a components_next [of p] by auto
  qed
qed

lemma components_render: "plain st \<Longrightarrow> components (render_path st) = st"
proof (induction st)
  case (Cons c st)
  have c: "c \<noteq> []" "slash \<notin> set c" "plain st" using Cons.prems by (auto simp: plain_def)
  show ?case
  proof (cases st)
    case Nil
    then show ?thesis using components_token(2) c by (simp add: render_path_def components_slash)
  next
    case (Cons d ds)
    then have "render_path st = slash # d @ render_path ds" by (simp add: render_path_def)
    then show ?thesis using components_token(1) [OF c(2,1), of "d @ render_path ds"] Cons.IH [OF c(3)]
      by (simp add: render_path_def components_slash)
  qed
qed (simp add: render_path_def components_def)

lemma plain_up: "plain st \<Longrightarrow> plain (if length st \<le> 1 then st else butlast st)"
  by (auto simp: plain_def dest: in_set_butlastD)

lemma resolve_plain:
  assumes "\<forall>c\<in>set cs. c \<noteq> [] \<and> slash \<notin> set c" and "plain st"
  shows "plain (resolve st cs)"
  using assms
proof (induction cs arbitrary: st)
  case (Cons c cs)
  have "plain (st @ [c])" if "c \<noteq> [0x2E]" "c \<noteq> [0x2E, 0x2E]" using Cons.prems that by (auto simp: plain_def)
  then show ?case using Cons plain_up [OF Cons.prems(2)] by simp
qed simp

lemma resolve_id: "plain (st @ cs) \<Longrightarrow> resolve st cs = st @ cs"
  by (induction cs arbitrary: st) (auto simp: plain_def)

section \<open>The loop\<close>

lemma strrchr_from_last: "c \<notin> set ys \<Longrightarrow> strrchr_from c (xs @ c # ys) i found = Some (i + length xs)"
proof (induction xs arbitrary: i found)
  case Nil
  have "c \<notin> set ys \<Longrightarrow> strrchr_from c ys j r = r" for j r by (induction ys arbitrary: j) auto
  then show ?case using Nil by simp
qed simp

lemma render_snoc: "render_path (st @ [c]) = render_path st @ slash # c"
  by (simp add: render_path_def)

lemma parent_step:
  assumes "plain st"
  shows "(case last_slash (render_path st) of Some i \<Rightarrow> if i \<noteq> 0 then take i (render_path st) else render_path st | None \<Rightarrow> render_path st)
    = render_path (if length st \<le> 1 then st else butlast st)"
proof (cases st rule: rev_cases)
  case Nil
  then show ?thesis by (simp add: render_path_def last_slash_def)
next
  case (snoc ys c)
  have "slash \<notin> set c" using assms snoc by (simp add: plain_def)
  then have l: "last_slash (render_path st) = Some (length (render_path ys))"
    using strrchr_from_last [of slash c "render_path ys" 0 None] by (simp add: snoc render_snoc last_slash_def)
  have "length (render_path ys) \<noteq> 0 \<longleftrightarrow> ys \<noteq> []" by (cases ys) (simp_all add: render_path_def)
  moreover have "length st \<le> 1 \<longleftrightarrow> ys = []" by (simp add: snoc)
  ultimately show ?thesis by (simp add: l) (simp add: snoc render_snoc)
qed

lemma normalize_loop_resolve:
  "plain st \<Longrightarrow> normalize_loop (render_path st) p = render_path (resolve st (components p))"
proof (induction p arbitrary: st rule: measure_induct_rule [of length])
  case (less p)
  show ?case
  proof (cases "next_token p")
    case None
    then show ?thesis using components_next(1) [of p] by (simp add: normalize_loop.simps)
  next
    case (Some a)
    obtain t r where a: "a = (t, r)" by force
    have len: "length r < length p" using next_token_length Some a by blast
    have t: "t \<noteq> []" "slash \<notin> set t" using components_next(2) Some a by blast+
    have cs: "components p = t # components r" using components_next(1) [of p] Some a by simp
    have up: "plain (if length st \<le> 1 then st else butlast st)" by (rule plain_up [OF less.prems])
    have push: "t \<noteq> [0x2E] \<Longrightarrow> t \<noteq> [0x2E, 0x2E] \<Longrightarrow> plain (st @ [t])" using less.prems t by (auto simp: plain_def)
    have "normalize_loop (render_path st) p =
       (if t = [0x2E] then normalize_loop (render_path st) r
        else if t = [0x2E, 0x2E] then normalize_loop (render_path (if length st \<le> 1 then st else butlast st)) r
        else normalize_loop (render_path (st @ [t])) r)"
      using Some a parent_step [OF less.prems] by (simp add: normalize_loop.simps [of _ p] render_snoc)
    also have "\<dots> = render_path (resolve st (components p))"
      using less.IH [OF len less.prems] less.IH [OF len up] less.IH [OF len push] by (simp add: cs)
    finally show ?thesis .
  qed
qed

section \<open>Lengths\<close>

lemma set_resolve: "set (resolve st cs) \<subseteq> set st \<union> set cs"
proof (induction cs arbitrary: st)
  case (Cons c cs)
  define up where "up = (if length st \<le> 1 then st else butlast st)"
  have up: "set up \<subseteq> set st" by (auto simp: up_def dest: in_set_butlastD)
  have "resolve st (c # cs) \<in> {resolve st cs, resolve up cs, resolve (st @ [c]) cs}" by (simp add: up_def)
  moreover have "set (resolve st cs) \<subseteq> set st \<union> set (c # cs)" using Cons.IH [of st] by auto
  moreover have "set (resolve up cs) \<subseteq> set st \<union> set (c # cs)" using Cons.IH [of up] up by auto
  moreover have "set (resolve (st @ [c]) cs) \<subseteq> set st \<union> set (c # cs)" using Cons.IH [of "st @ [c]"] by auto
  ultimately show ?case by (metis empty_iff insert_iff)
qed simp

lemma set_components: "c \<in> set (components p) \<Longrightarrow> set c \<subseteq> set p"
proof -
  have "c \<in> set (split_slash p) \<Longrightarrow> set c \<subseteq> set p"
  proof (induction p arbitrary: c)
    case (Cons a p)
    show ?case using Cons.IH [of "hd (split_slash p)"] Cons.IH [of c] Cons.prems split_slash_ne [of p]
      by (cases "split_slash p") (auto split: if_splits)
  qed simp
  then show "c \<in> set (components p) \<Longrightarrow> set c \<subseteq> set p" by (simp add: components_def)
qed

lemma length_resolve:
  "length (render_path (resolve st cs)) \<le> length (render_path st) + length (render_path cs)"
proof (induction st cs rule: resolve.induct)
  case (2 st c cs)
  have "length (render_path (butlast st)) \<le> length (render_path st)"
    by (cases st rule: rev_cases) (simp_all add: render_snoc render_path_def)
  then show ?case using 2 by (auto simp: render_path_def)
qed (simp add: render_path_def)

lemma length_components: "length (render_path (components (slash # p))) \<le> Suc (length p)"
proof (induction p rule: measure_induct_rule [of length])
  case (less p)
  show ?case
  proof (cases "next_token p")
    case None
    then show ?thesis using components_next(1) [of p] by (simp add: components_slash render_path_def)
  next
    case (Some a)
    obtain t r where a: "a = (t, r)" by force
    have len: "length r < length p" using next_token_length Some a by blast
    have cs: "components p = t # components r" using components_next(1) [of p] Some a by simp
    have tr: "length t + length r \<le> length p"
      "r \<noteq> [] \<Longrightarrow> length t + length r < length p"
    proof -
      define q where "q = dropWhile (\<lambda>c. c = slash) p"
      define v where "v = dropWhile (\<lambda>c. c \<noteq> slash) q"
      have "t = takeWhile (\<lambda>c. c \<noteq> slash) q" "r = drop 1 v"
        using Some a by (auto simp: next_token_def q_def v_def Let_def split: if_splits)
      then have "length t + length v = length q" by (metis length_append takeWhile_dropWhile_id v_def)
      moreover have "length q \<le> length p" by (simp add: q_def length_dropWhile_le)
      ultimately show "length t + length r \<le> length p" "r \<noteq> [] \<Longrightarrow> length t + length r < length p"
        using \<open>r = drop 1 v\<close> by (cases v; simp)+
    qed
    have "length (render_path (components r)) \<le> (if r = [] then 0 else Suc (length r))"
      using less.IH [OF len] by (auto simp: components_slash components_def render_path_def)
    then show ?thesis using tr by (auto simp: components_slash cs render_path_def split: if_splits)
  qed
qed

section \<open>The text of the path\<close>

lemma vsnprintf_render:
  assumes "render fmt args = Some full" and "0 \<notin> set full"
  shows "map_option (\<lambda>(out, _). takeWhile (\<lambda>c. c \<noteq> 0) out) (snprintf (of_nat EXT2_MAX_PATH) fmt args) = Some (take 255 full)"
proof -
  have "takeWhile (\<lambda>c. c \<noteq> 0) (take 255 full @ [0]) = take 255 full"
    using assms(2) by (subst takeWhile_append2) (auto dest: in_set_takeD)
  then show ?thesis using vsnprintf_loop_render [OF assms(1), of 255]
    by (simp add: snprintf_def vsnprintf_def EXT2_MAX_PATH_def)
qed

lemma absolute_path_full:
  assumes "0 \<notin> set path" "0 \<notin> set (current_dir s)" "length path < 2 ^ 64" "length (current_dir s) < 256"
  shows "absolute_path path s = Some (take 255 (full_path path s))"
proof -
  have 1: "render [0x25, 0x73, slash, 0x25, 0x73] [VA_str (Some a), VA_str (Some b)] = Some (a @ [slash] @ b)"
    if "length a < 2 ^ 64" "length b < 2 ^ 64" for a b using that
    by (simp add: render_conv_def)
  have 2: "render [slash, 0x25, 0x73] [VA_str (Some b)] = Some (slash # b)" if "length b < 2 ^ 64" for b
    using that
    by (simp add: render_conv_def)
  show ?thesis using vsnprintf_render [OF 1 [of "current_dir s" path]] vsnprintf_render [OF 2 [of path]] assms
    by (auto simp: absolute_path_def full_path_def EXT2_MAX_PATH_def)
qed

section \<open>Properties\<close>

text \<open>
  \<^bold>\<open>C24\<close>. Normalising a path is the resolution of its components, up to its first 255 bytes, on a
  stack: empty components and \<open>.\<close> are dropped, \<open>..\<close> takes the last component off except when it is the
  only one, so that \<open>/a/..\<close> is \<open>/a\<close>. The result has at most 255 bytes and so fits its buffer, and
  normalising it again leaves it as it is.
\<close>

theorem ext2_normalize_path_resolves:
  assumes "0 \<notin> set path" "length path < 2 ^ 64"
    and "0 \<notin> set (current_dir s)" "length (current_dir s) < 256" "current_dir s = [] \<or> hd (current_dir s) = slash"
  shows "\<exists>r. ext2_normalize_path path s = Some r
    \<and> r = show_path (resolve [] (components (take 255 (full_path path s))))
    \<and> length r \<le> 255 \<and> ext2_normalize_path r s = Some r"
proof -
  define st where "st = resolve [] (components (take 255 (full_path path s)))"
  have "full_path path s \<noteq> [] \<and> hd (full_path path s) = slash"
    using assms(5) by (cases "current_dir s") (auto simp: full_path_def)
  then obtain p where "full_path path s = slash # p" by (metis list.collapse)
  then obtain q where q: "take 255 (full_path path s) = slash # q" by simp
  have norm: "ext2_normalize_path p s = Some (show_path (resolve [] (components (take 255 (full_path p s)))))" if "0 \<notin> set p" "length p < 2 ^ 64" for p
    using absolute_path_full [OF that(1) assms(3) that(2) assms(4)] normalize_loop_resolve [of "[]" "take 255 (full_path p s)"]
    by (auto simp: ext2_normalize_path_def plain_def render_path_def show_path_def Let_def split: list.splits)
  have plain: "plain st" unfolding st_def by (rule resolve_plain) (auto dest: components_plain simp: plain_def)
  have "length (render_path st) \<le> Suc (length q)"
    using length_resolve [of "[]" "components (slash # q)"] length_components [of q] by (simp add: st_def q render_path_def)
  moreover have "Suc (length q) \<le> 255" using arg_cong [OF q, of length] by simp
  ultimately have len: "length (show_path st) \<le> 255" by (simp add: show_path_def)
  have hd: "show_path st \<noteq> []" "hd (show_path st) = slash"
    by (cases st; simp add: show_path_def render_path_def)+
  have "set c \<subseteq> set (full_path path s)" if "c \<in> set st" for c
  proof -
    have "c \<in> set (components (take 255 (full_path path s)))"
      using that set_resolve [of "[]" "components (take 255 (full_path path s))"] unfolding st_def by auto
    then show ?thesis using set_components set_take_subset by fastforce
  qed
  then have "set (render_path st) \<subseteq> insert slash (set (full_path path s))" by (auto simp: render_path_def)
  moreover have "0 \<notin> set (full_path path s)" using assms(1,3) by (simp add: full_path_def)
  ultimately have "0 \<notin> set (show_path st)" by (auto simp: show_path_def)
  moreover have "components (show_path st) = st"
    using components_render [OF plain] by (simp add: show_path_def components_def)
  ultimately have "ext2_normalize_path (show_path st) s = Some (show_path st)"
    using norm [of "show_path st"] len hd resolve_id [of "[]" st] plain by (simp add: full_path_def)
  then show ?thesis using norm [OF assms(1,2)] len unfolding st_def by blast
qed

theorem ext2_normalize_path_resolves_witness:
  "\<exists>s. mounted s \<and> ext2_normalize_path [0x61, 0x2F, 0x2E, 0x2E, 0x2F, 0x2F, 0x62, 0x2F, 0x2E, 0x2E] s = Some [0x2F, 0x61]"
proof -
  let ?p = "[0x61, 0x2F, 0x2E, 0x2E, 0x2F, 0x2F, 0x62, 0x2F, 0x2E, 0x2E] :: u8 list"
  define s :: ext2_state where "s = undefined\<lparr>mounted := True, current_dir := [0x2F]\<rparr>"
  have s: "mounted s" "current_dir s = [0x2F]" by (simp_all add: s_def)
  have "show_path (resolve [] (components (take 255 (full_path ?p s)))) = [0x2F, 0x61]"
    by (simp add: full_path_def s components_def show_path_def render_path_def)
  then show ?thesis using ext2_normalize_path_resolves [of ?p s] s by auto
qed

end
