(* ===== verification/Ext2_Map_Correct.thy ===== *)
theory Ext2_Map_Correct
  imports Ext2_Inode_Correct
begin

text \<open>
  The block map of a file: the direct and indirect blocks as a function on the store of blocks, that
  \<open>get_block_from_inode\<close> computes it, and the contents of a file.
\<close>

section \<open>The map as a function\<close>

text \<open>The pointers along a path of indices.\<close>

definition ptr_at :: "(nat \<Rightarrow> u8 list) \<Rightarrow> nat \<Rightarrow> nat \<Rightarrow> u32" where
  "ptr_at B n i = le_word (take 4 (drop (4 * i) (B n)))"

fun map_ptr :: "(nat \<Rightarrow> u8 list) \<Rightarrow> u32 \<Rightarrow> nat list \<Rightarrow> u32" where
  "map_ptr B p [] = p"
| "map_ptr B p (i # is) = (if p = 0 then 0 else map_ptr B (ptr_at B (unat p) i) is)"

fun path_ok :: "(nat \<Rightarrow> bool) \<Rightarrow> (nat \<Rightarrow> u8 list) \<Rightarrow> u32 \<Rightarrow> nat list \<Rightarrow> bool" where
  "path_ok P B p [] = True"
| "path_ok P B p (i # is) = (p \<noteq> 0 \<longrightarrow> P (unat p) \<and> path_ok P B (ptr_at B (unat p) i) is)"

text \<open>
  Where the map keeps block \<open>k\<close> of a file, with \<open>n\<close> pointers to a block: the slot of the inode, and the
  indices from there.
\<close>

definition block_path :: "nat \<Rightarrow> nat \<Rightarrow> nat \<times> nat list" where
  "block_path n k =
     (if k < 12 then (k, [])
      else if k - 12 < n then (12, [k - 12])
      else if k - 12 - n < n * n then (13, [(k - 12 - n) div n, (k - 12 - n) mod n])
      else let r = k - 12 - n - n * n in (14, [r div (n * n), r mod (n * n) div n, r mod (n * n) mod n]))"

text \<open>The number of blocks that the map can hold.\<close>

definition map_size :: "nat \<Rightarrow> nat" where
  "map_size n = 12 + n + n * n + n * n * n"

definition ptrs :: "ext2_state \<Rightarrow> nat" where
  "ptrs s = unat (block_size s) div 4"

definition file_block :: "ext2_state \<Rightarrow> (nat \<Rightarrow> u8 list) \<Rightarrow> ext2_inode_t \<Rightarrow> nat \<Rightarrow> u32" where
  "file_block s B inode k = (let (slot, is) = block_path (ptrs s) k in map_ptr B (i_block inode ! slot) is)"

definition map_ok :: "(nat \<Rightarrow> bool) \<Rightarrow> ext2_state \<Rightarrow> (nat \<Rightarrow> u8 list) \<Rightarrow> ext2_inode_t \<Rightarrow> nat \<Rightarrow> bool" where
  "map_ok P s B inode k \<longleftrightarrow> (let (slot, is) = block_path (ptrs s) k in path_ok P B (i_block inode ! slot) is)"

lemma path_same:
  "(\<And>n. P n \<Longrightarrow> B' n = B n) \<Longrightarrow> path_ok P B p is \<Longrightarrow> map_ptr B' p is = map_ptr B p is \<and> path_ok P B' p is"
  by (induction "is" arbitrary: p) (auto simp: ptr_at_def)

lemma map_same:
  assumes "\<And>n. P n \<Longrightarrow> B' n = B n" and "map_ok P s B inode k"
  shows "file_block s B' inode k = file_block s B inode k" "map_ok P s B' inode k"
  using assms(2) path_same [of P B' B, OF assms(1)] by (auto simp: map_ok_def file_block_def split_beta)

section \<open>The code computes it\<close>

context block_store
begin

lemma follow_rep:
  assumes "io_rep s B" and "path_ok (\<lambda>n. n < nblocks s) B p (map unat is)" and "\<forall>i\<in>set is. unat i < ptrs s"
  shows "\<exists>s'. follow dev p is s = Some (map_ptr B p (map unat is), s') \<and> io_rep s' B \<and> same_meta s s'"
  using assms
proof (induction "is" arbitrary: p s)
  case (Cons i "is")
  show ?case
  proof (cases "p = 0")
    case True
    then show ?thesis using Cons.prems(1) by (auto simp: same_meta_refl)
  next
    case False
    then obtain s1 where 1: "read_io dev (drive_index s) p s = Some (True, s1)" "io_rep s1 B" "same_meta s s1" "io_data s1 = B (unat p)"
      using read_io_rep [OF Cons.prems(1), of p] Cons.prems(2) by auto
    have "4 * unat i + 4 \<le> unat (block_size s)" using Cons.prems(3) unfolding ptrs_def by (simp add: less_eq_div_iff_mult_less_eq Suc_le_eq [symmetric])
    then have "io_le (4 * unat i) 4 s1 = Some (ptr_at B (unat p) (unat i))"
      using io_rep_get [OF 1(2), of "4 * unat i" 4] same_meta_fields(4) [OF 1(3)] 1(4) by (simp add: io_le_def ptr_at_def)
    note io = this
    have ok: "path_ok (\<lambda>n. n < nblocks s1) B (ptr_at B (unat p) (unat i)) (map unat is)" "\<forall>i\<in>set is. unat i < ptrs s1"
      using Cons.prems(2,3) False same_meta_fields [OF 1(3)] by (auto simp: ptrs_def)
    obtain s2 where "follow dev (ptr_at B (unat p) (unat i)) is s1 = Some (map_ptr B (ptr_at B (unat p) (unat i)) (map unat is), s2)"
      "io_rep s2 B" "same_meta s1 s2" using Cons.IH [OF 1(2) ok] by blast
    with io 1(1) False same_meta_trans [OF 1(3)] show ?thesis by simp
  qed
qed (auto simp: same_meta_refl)

end

text \<open>The indices of the code are those of the map.\<close>

lemma unat_prods:
  fixes n :: u32
  assumes "unat n \<le> 1024"
  shows "unat (n * n) = unat n * unat n" "unat (n * n * n) = unat n * unat n * unat n" "unat n * unat n * unat n \<le> 2 ^ 30"
    "unat n * unat n \<le> 2 ^ 20"
proof -
  have 1: "unat n * unat n \<le> 1024 * 1024" by (intro mult_le_mono assms)
  then have 2: "unat n * unat n * unat n \<le> 1024 * 1024 * 1024" by (intro mult_le_mono assms)
  show nn: "unat (n * n) = unat n * unat n" by (rule unat_mult_no_wrap) (use 1 in simp)
  show "unat (n * n * n) = unat n * unat n * unat n" using unat_mult_no_wrap [of "n * n" n] 2 by (simp add: nn)
  show "unat n * unat n * unat n \<le> 2 ^ 30" "unat n * unat n \<le> 2 ^ 20" using 1 2 by simp_all
qed

lemma unat_sub_ge: "unat (b :: u32) \<le> unat a \<Longrightarrow> unat (a - b) = unat a - unat b"
  by (simp add: unat_sub word_le_nat_alt)

definition file_blocks :: "ext2_state \<Rightarrow> ext2_inode_t \<Rightarrow> nat" where
  "file_blocks s inode = (unat (i_size inode) + unat (block_size s) - 1) div unat (block_size s)"

lemma file_blocks_word:
  assumes "unat (i_size inode) + unat (block_size s) \<le> 2 ^ 32" and "block_size s \<noteq> 0"
  shows "unat ((i_size inode + block_size s - 1) div block_size s) = file_blocks s inode"
proof -
  have b: "0 < unat (block_size s)" using assms(2) by (simp add: unat_gt_0)
  have "unat (i_size inode + (block_size s - 1)) = unat (i_size inode) + (unat (block_size s) - 1)"
    using assms b by (simp add: unat_word_ariths(1) unat_minus_one)
  then have "unat (i_size inode + block_size s - 1) = unat (i_size inode) + unat (block_size s) - 1"
    using b by (simp add: add_diff_eq)
  then show ?thesis by (simp add: unat_div file_blocks_def)
qed

context block_store
begin

lemma ptrs_word:
  assumes "io_rep s B"
  shows "unat (block_size s div 4) = ptrs s" "0 < ptrs s" "ptrs s \<le> 1024"
  using block_sizes [OF io_rep_facts(1) [OF assms]] by (auto simp: ptrs_def unat_div)

lemma map_follow:
  assumes "io_rep s B" and "map_ok (\<lambda>n. n < nblocks s) s B inode k"
    and "block_path (ptrs s) k = (slot, map unat is)" and "\<forall>i\<in>set is. unat i < ptrs s"
  shows "\<exists>s'. follow dev (i_block inode ! slot) is s = Some (file_block s B inode k, s') \<and> io_rep s' B \<and> same_meta s s'"
  using follow_rep [OF assms(1), of "i_block inode ! slot" "is"] assms(2-4) by (simp add: map_ok_def file_block_def)

lemma get_block_rep:
  assumes rep: "io_rep s B" and size: "unat (i_size inode) + unat (block_size s) \<le> 2 ^ 32"
    and k: "unat k < file_blocks s inode" "unat k < map_size (ptrs s)"
    and path: "map_ok (\<lambda>n. n < nblocks s) s B inode (unat k)"
  shows "\<exists>s'. get_block_from_inode dev inode k s = Some (file_block s B inode (unat k), s') \<and> io_rep s' B \<and> same_meta s s'"
proof -
  define n where "n = block_size s div 4"
  have n: "unat n = ptrs s" "0 < unat n" "unat n \<le> 1024" using ptrs_word [OF rep] by (simp_all add: n_def)
  note prods = unat_prods [OF n(3)]
  have bs: "block_size s \<noteq> 0" by (rule io_rep_facts(6) [OF rep])
  have "\<not> (i_size inode + block_size s - 1) div block_size s \<le> k"
    using k(1) file_blocks_word [OF size bs] by (simp add: word_le_nat_alt)
  then have get: "get_block_from_inode dev inode k s =
     (if k < 12 then Some (i_block inode ! unat k, s)
      else if k - 12 < n then follow dev (i_block inode ! 12) [k - 12] s
      else if k - 12 - n < n * n then follow dev (i_block inode ! 13) [(k - 12 - n) div n, (k - 12 - n) mod n] s
      else if k - 12 - n - n * n < n * n * n
      then let r = (k - 12 - n - n * n) mod (n * n) in follow dev (i_block inode ! 14) [(k - 12 - n - n * n) div (n * n), r div n, r mod n] s
      else Some (0, s))"
    using bs by (simp add: get_block_from_inode_def checked_div_def Let_def n_def EXT2_NDIR_BLOCKS_def EXT2_IND_BLOCK_def
        EXT2_DIND_BLOCK_def EXT2_TIND_BLOCK_def)
  note follow = map_follow [OF rep path, unfolded n(1) [symmetric]]
  consider (direct) "unat k < 12" | (single) "12 \<le> unat k" "unat k - 12 < unat n"
    | (double) "12 + unat n \<le> unat k" "unat k - 12 - unat n < unat n * unat n"
    | (triple) "12 + unat n + unat n * unat n \<le> unat k" by linarith
  then show ?thesis
  proof cases
    case direct
    then show ?thesis
      using rep by (auto simp: get word_less_nat_alt same_meta_refl file_block_def block_path_def n(1) [symmetric])
  next
    case single
    have u: "unat (k - 12) = unat k - 12" using single by (simp add: unat_sub_ge)
    have "get_block_from_inode dev inode k s = follow dev (i_block inode ! 12) [k - 12] s"
      using single by (simp add: get word_less_nat_alt u)
    then show ?thesis using follow [of 12 "[k - 12]"] single by (simp add: block_path_def u)
  next
    case double
    have u: "unat (k - 12) = unat k - 12" using double by (simp add: unat_sub_ge)
    have u2: "unat (k - 12 - n) = unat k - 12 - unat n" using double by (simp add: unat_sub_ge u)
    let ?is = "[(k - 12 - n) div n, (k - 12 - n) mod n]"
    have "get_block_from_inode dev inode k s = follow dev (i_block inode ! 13) ?is s"
    proof -
      have "\<not> k < 12" "\<not> k - 12 < n" "k - 12 - n < n * n"
        using double unfolding word_less_nat_alt u u2 prods by simp_all
      then show ?thesis by (simp add: get del: follow.simps)
    qed
    moreover have "block_path (unat n) (unat k) = (13, map unat ?is)"
      using double unfolding block_path_def by (simp add: u2 unat_div unat_mod)
    moreover have "\<forall>i\<in>set ?is. unat i < unat n"
      using double n(2) by (simp add: u2 unat_div unat_mod less_mult_imp_div_less)
    ultimately show ?thesis using follow [of 13 ?is] by simp
  next
    case triple
    have u: "unat (k - 12) = unat k - 12" using triple by (simp add: unat_sub_ge)
    have u2: "unat (k - 12 - n) = unat k - 12 - unat n" using triple by (simp add: unat_sub_ge u)
    define r where "r = k - 12 - n - n * n"
    have r: "unat r = unat k - 12 - unat n - unat n * unat n"
      unfolding r_def using triple by (simp add: unat_sub_ge u2 prods)
    have less: "unat r < unat n * unat n * unat n" using k(2) triple by (simp add: r map_size_def n(1))
    let ?is = "[r div (n * n), r mod (n * n) div n, r mod (n * n) mod n]"
    have "get_block_from_inode dev inode k s = follow dev (i_block inode ! 14) ?is s"
    proof -
      have "\<not> k < 12" "\<not> k - 12 < n" "\<not> k - 12 - n < n * n" "r < n * n * n"
        using triple less unfolding word_less_nat_alt u u2 prods by simp_all
      then show ?thesis by (simp add: get Let_def r_def [symmetric] del: follow.simps)
    qed
    moreover have "block_path (unat n) (unat k) = (14, map unat ?is)"
      using triple by (auto simp: block_path_def Let_def r unat_div unat_mod prods)
    moreover have "unat r div (unat n * unat n) < unat n" "unat r mod (unat n * unat n) div unat n < unat n"
      using less n(2) by (simp_all add: less_mult_imp_div_less mult.commute mult.left_commute)
    then have "\<forall>i\<in>set ?is. unat i < unat n"
      using n(2) by (simp add: unat_div unat_mod prods)
    ultimately show ?thesis using follow [of 14 ?is] by simp
  qed
qed

end

end
