(* ===== verification/Ext2_Read_Correct.thy ===== *)
theory Ext2_Read_Correct
  imports Ext2_Map_Correct Ext2_File
begin

text \<open>
  Reading a file: the contents of a file as a function on the store of blocks, and that \<open>ext2_read\<close>
  returns the part of them at the position of the handle.
\<close>

section \<open>The contents of a file\<close>

definition raw_data :: "ext2_state \<Rightarrow> (nat \<Rightarrow> u8 list) \<Rightarrow> ext2_inode_t \<Rightarrow> nat \<Rightarrow> u8 list" where
  "raw_data s B inode k = concat (map (\<lambda>j. B (unat (file_block s B inode j))) [k..<file_blocks s inode])"

definition file_data :: "ext2_state \<Rightarrow> (nat \<Rightarrow> u8 list) \<Rightarrow> ext2_inode_t \<Rightarrow> u8 list" where
  "file_data s B inode = take (unat (i_size inode)) (raw_data s B inode 0)"

text \<open>
  The map of a file has a block for every part of the file, and all of these blocks, the indirect ones
  too, satisfy a condition.
\<close>

definition file_ok :: "(nat \<Rightarrow> bool) \<Rightarrow> ext2_state \<Rightarrow> (nat \<Rightarrow> u8 list) \<Rightarrow> ext2_inode_t \<Rightarrow> bool" where
  "file_ok P s B inode \<longleftrightarrow> inode_wf inode \<and> unat (i_size inode) + unat (block_size s) \<le> 2 ^ 32
     \<and> file_blocks s inode \<le> map_size (ptrs s)
     \<and> (\<forall>k < file_blocks s inode. map_ok P s B inode k \<and> file_block s B inode k \<noteq> 0 \<and> P (unat (file_block s B inode k)))"

lemma map_ok_mono: "map_ok P s B inode k \<Longrightarrow> (\<And>n. P n \<Longrightarrow> Q n) \<Longrightarrow> map_ok Q s B inode k"
proof -
  have "path_ok P B p is \<Longrightarrow> (\<And>n. P n \<Longrightarrow> Q n) \<Longrightarrow> path_ok Q B p is" for p "is"
    by (induction "is" arbitrary: p) auto
  then show "map_ok P s B inode k \<Longrightarrow> (\<And>n. P n \<Longrightarrow> Q n) \<Longrightarrow> map_ok Q s B inode k"
    by (auto simp: map_ok_def)
qed

lemma file_same:
  assumes "\<And>n. P n \<Longrightarrow> B' n = B n" and "file_ok P s B inode"
  shows "file_ok P s B' inode" "file_data s B' inode = file_data s B inode"
proof -
  have same: "file_block s B' inode k = file_block s B inode k" "map_ok P s B' inode k" if "k < file_blocks s inode" for k
    using map_same [of P B' B, OF assms(1)] assms(2) that by (auto simp: file_ok_def)
  then show "file_ok P s B' inode" using assms(2) by (auto simp: file_ok_def)
  have "map (\<lambda>j. B' (unat (file_block s B' inode j))) [0..<file_blocks s inode]
      = map (\<lambda>j. B (unat (file_block s B inode j))) [0..<file_blocks s inode]"
    using same(1) assms by (intro map_cong) (auto simp: file_ok_def)
  then show "file_data s B' inode = file_data s B inode" unfolding file_data_def raw_data_def by presburger
qed

lemma same_meta_file:
  assumes "same_meta s s'"
  shows "file_ok P s' = file_ok P s" "file_data s' = file_data s" "file_blocks s' = file_blocks s"
    "file_block s' = file_block s" "raw_data s' = raw_data s" "map_ok P s' = map_ok P s" "ptrs s' = ptrs s"
  using same_meta_fields [OF assms]
  by (auto simp: file_ok_def file_data_def raw_data_def file_blocks_def file_block_def map_ok_def ptrs_def fun_eq_iff)

lemma raw_data_Cons: "k < file_blocks s inode \<Longrightarrow> raw_data s B inode k = B (unat (file_block s B inode k)) @ raw_data s B inode (Suc k)"
  by (simp add: raw_data_def upt_conv_Cons)

section \<open>The loop\<close>

lemma unat_ucast_u32: "unat (ucast (w :: u32) :: u64) = unat w"
  using unsigned_less [of w, where ?'a = nat] by (simp add: unat_ucast_mod)

lemma block_in_file:
  fixes b k sz :: nat
  assumes "k * b < sz" "0 < b"
  shows "k < (sz + b - 1) div b"
proof -
  have "Suc k * b \<le> sz + b - 1" using assms by simp
  then show ?thesis using assms(2) by (simp add: less_eq_div_iff_mult_less_eq Suc_le_eq [symmetric])
qed

lemma le_blocks: "0 < b \<Longrightarrow> a \<le> (a + b - 1) div b * (b :: nat)"
  using dividend_less_div_times [of b "a + b - 1"] by linarith

context block_store
begin

lemma file_read_loop_rep:
  assumes "io_rep s B" and "file_ok (\<lambda>n. n < nblocks s) s B inode"
    and "unat off < unat (block_size s)" and "unat k * unat (block_size s) + unat off + unat r \<le> unat (i_size inode)"
  shows "\<exists>s'. file_read_loop dev inode k off r s = Some (take (unat r) (drop (unat off) (raw_data s B inode (unat k))), s')
    \<and> io_rep s' B \<and> same_meta s s'"
  using assms
proof (induction "unat r" arbitrary: k off r s rule: less_induct)
  case less
  let ?b = "unat (block_size s)"
  show ?case
  proof (cases "r = 0")
    case True
    then show ?thesis using less.prems(1) by (auto simp: file_read_loop.simps same_meta_refl)
  next
    case False
    then have r: "0 < unat r" "0 < r" by (simp_all add: unat_gt_0 word_neq_0_conv)
    note facts = io_rep_facts [OF less.prems(1)]
    have "unat k * ?b < unat (i_size inode)" using less.prems(4) r(1) by linarith
    then have k: "unat k < file_blocks s inode" unfolding file_blocks_def using facts(5) by (intro block_in_file) auto
    define n where "n = file_block s B inode (unat k)"
    have n: "n \<noteq> 0" "unat n < nblocks s" using less.prems(2) k by (auto simp: file_ok_def n_def)
    obtain s1 where 1: "get_block_from_inode dev inode k s = Some (n, s1)" "io_rep s1 B" "same_meta s s1"
      using get_block_rep [OF less.prems(1), of inode k] less.prems(2) k by (auto simp: file_ok_def n_def)
    obtain s2 where 2: "read_io dev (drive_index s1) n s1 = Some (True, s2)" "io_rep s2 B" "same_meta s1 s2" "io_data s2 = B (unat n)"
      using read_io_rep [OF 1(2), of n] n(2) by (auto simp: same_meta_fields [OF 1(3)])
    note meta = same_meta_trans [OF 1(3) 2(3)]
    have len: "length (B (unat n)) = ?b" by (rule block_length [OF facts(1) n(2)])
    define c where "c = min (?b - unat off) (unat r)"
    have "unat (ucast (block_size s - off) :: u64) = ?b - unat off"
      using less.prems(3) by (simp add: unat_ucast_u32 unat_sub_ge)
    then have c: "unat (min (ucast (block_size s - off)) r) = c" by (simp add: c_def min_def word_le_nat_alt)
    have "unat off + c \<le> ?b" using less.prems(3) by (simp add: c_def)
    then have get: "io_get (unat off) c s2 = Some (take c (drop (unat off) (B (unat n))))"
      using io_rep_get [OF 2(2), of "unat off" c] 2(4) by (simp add: same_meta_fields [OF meta])
    define r' where "r' = r - min (ucast (block_size s - off)) r"
    have r': "unat r' = unat r - c" unfolding r'_def by (subst unat_sub) (simp_all add: c)
    have c0: "0 < c" using r(1) less.prems(3) by (simp add: c_def)
    have k1: "unat (k + 1) = Suc (unat k)"
    proof -
      have "unat k * 2 \<le> unat k * ?b" using facts(5) by (intro mult_le_mono2) simp
      moreover have "unat (i_size inode) < 4294967296" using unsigned_less [of "i_size inode", where ?'a = nat] by simp
      ultimately have "unat k < 4294967295" using \<open>unat k * ?b < unat (i_size inode)\<close> by linarith
      then show ?thesis by (simp add: unat_word_ariths(1))
    qed
    have pos: "unat (k + 1) * unat (block_size s2) + unat (0 :: u32) + unat r' \<le> unat (i_size inode)"
      if "0 < unat r'"
      using less.prems(3,4) that by (simp add: k1 r' c_def same_meta_fields [OF meta] min_def split: if_splits)
    show ?thesis
    proof (cases "unat r' = 0")
      case True
      have rc: "unat r = c" using True r' by (simp add: c_def)
      then have mn: "min (ucast (block_size s - off)) r = r" by (simp add: word_unat_eq_iff c)
      have "file_read_loop dev inode k off r s = Some (take c (drop (unat off) (B (unat n))), s2)"
        using 1(1) 2(1) get n(1) r(2)
        by (simp add: file_read_loop.simps [of dev inode k] file_read_loop.simps [of dev inode "k + 1"] mn rc same_meta_fields [OF meta])
      then show ?thesis using rc 2(2) meta len less.prems(3) \<open>unat off + c \<le> ?b\<close>
        by (simp add: raw_data_Cons [OF k] n_def)
    next
      case False
      have ok: "file_ok (\<lambda>n. n < nblocks s2) s2 B inode" "unat (0 :: u32) < unat (block_size s2)" "unat r' < unat r"
        using less.prems(2) facts(5) c0 r r' by (simp_all add: same_meta_fields [OF meta] same_meta_file [OF meta])
      obtain s3 where 3: "file_read_loop dev inode (k + 1) 0 r' s2
          = Some (take (unat r') (raw_data s B inode (Suc (unat k))), s3)" "io_rep s3 B" "same_meta s2 s3"
        using less.hyps [OF ok(3) 2(2) ok(1,2) pos] False by (auto simp: k1 same_meta_file [OF meta])
      have "file_read_loop dev inode k off r s
          = Some (take c (drop (unat off) (B (unat n))) @ take (unat r') (raw_data s B inode (Suc (unat k))), s3)"
        using 1(1) 2(1) get n(1) r(2) 3(1)
        by (simp add: file_read_loop.simps [of dev inode k] c r'_def same_meta_fields [OF meta])
      moreover have "c = ?b - unat off" "?b - unat off \<le> unat r" using False r' by (simp_all add: c_def split: if_splits)
      ultimately show ?thesis using 3(2) same_meta_trans [OF meta 3(3)] len less.prems(3) r'
        by (simp add: raw_data_Cons [OF k] n_def)
    qed
  qed
qed

end

section \<open>Handles\<close>

text \<open>
  An open handle as a stream: it has the contents of its file and a position in them. The blocks of
  the file are not those that hold its inode.
\<close>

definition handle_inode_apart :: "ext2_state \<Rightarrow> ext2_file_t \<Rightarrow> nat \<Rightarrow> bool" where
  "handle_inode_apart s f n \<longleftrightarrow> n < nblocks s \<and> n \<noteq> inode_block s (inode_num f)"

definition handle_rep ::
  "((nat \<Rightarrow> bool) \<Rightarrow> ext2_state \<Rightarrow> (nat \<Rightarrow> u8 list) \<Rightarrow> ext2_inode_t \<Rightarrow> bool) \<Rightarrow> (hd \<Rightarrow> nat) \<Rightarrow> u16 \<Rightarrow> hd \<Rightarrow> device \<Rightarrow>
   int \<Rightarrow> ext2_state \<Rightarrow> u8 list \<Rightarrow> nat \<Rightarrow> bool" where
  "handle_rep shape lat b h0 dev fd s data pos \<longleftrightarrow>
     0 \<le> fd \<and> fd < int EXT2_MAX_FILES \<and> length (open_files s) = EXT2_MAX_FILES
     \<and> io_ok s \<and> inodes_ok s
     \<and> (let f = open_files s ! nat fd
        in is_open f \<and> inode_valid s (inode_num f) \<and> unat (position f) = pos
           \<and> (\<exists>B. block_rep lat b h0 dev s B \<and> shape (handle_inode_apart s f) s B (file_inode f)
                \<and> data = file_data s B (file_inode f)))"

abbreviation file_rep :: "(hd \<Rightarrow> nat) \<Rightarrow> u16 \<Rightarrow> hd \<Rightarrow> device \<Rightarrow> int \<Rightarrow> ext2_state \<Rightarrow> u8 list \<Rightarrow> nat \<Rightarrow> bool" where
  "file_rep \<equiv> handle_rep file_ok"

text \<open>
  What a handle needs of the shape of its file: the map of the file is in place, and the shape depends on the blocks
  of the file, not on the times in the inode, and on nothing of the state but the size of a block.
\<close>

locale file_shape =
  fixes shape :: "(nat \<Rightarrow> bool) \<Rightarrow> ext2_state \<Rightarrow> (nat \<Rightarrow> u8 list) \<Rightarrow> ext2_inode_t \<Rightarrow> bool"
  assumes shape_ok: "shape P s B inode \<Longrightarrow> file_ok P s B inode"
    and shape_same: "(\<And>n. P n \<Longrightarrow> B' n = B n) \<Longrightarrow> shape P s B inode \<Longrightarrow> shape P s B' inode"
    and shape_times: "shape P s B (inode\<lparr>i_atime := t\<rparr>) = shape P s B inode" "shape P s B (inode\<lparr>i_mtime := t\<rparr>) = shape P s B inode"
    and shape_state: "block_size s' = block_size s \<Longrightarrow> shape P s' = shape P s"

text \<open>Nothing in the contents of a file depends on the times of the last access and change.\<close>

lemma file_times:
  "file_ok P s B (inode\<lparr>i_atime := t\<rparr>) = file_ok P s B inode" "file_data s B (inode\<lparr>i_atime := t\<rparr>) = file_data s B inode"
  "file_ok P s B (inode\<lparr>i_mtime := t\<rparr>) = file_ok P s B inode" "file_data s B (inode\<lparr>i_mtime := t\<rparr>) = file_data s B inode"
  by (simp_all add: file_ok_def file_data_def raw_data_def file_blocks_def file_block_def map_ok_def inode_wf_def)

lemma file_block_size: "block_size s' = block_size s \<Longrightarrow> file_ok P s' = file_ok P s"
  by (simp add: file_ok_def file_blocks_def file_block_def map_ok_def ptrs_def fun_eq_iff)

interpretation plain: file_shape file_ok
  by unfold_locales (fact file_same(1) file_times file_block_size | assumption)+

text \<open>What a change of the table of open files leaves alone.\<close>

lemma open_files_frame:
  fixes s :: ext2_state and fs :: "ext2_file_t list"
  defines "s' \<equiv> s\<lparr>open_files := fs\<rparr>"
  shows "io_ok s' = io_ok s" "inodes_ok s' = inodes_ok s" "inode_valid s' = inode_valid s" "inode_block s' = inode_block s"
    "put_inode s' = put_inode s" "nblocks s' = nblocks s" "file_ok P s' = file_ok P s" "file_data s' = file_data s" "same_store s s'"
  unfolding s'_def
  by (auto simp: io_ok_def inodes_ok_def inode_valid_def inode_block_def put_inode_def inode_off_def inode_index_def per_block_def
      table_blocks_def inode_table_def nblocks_def file_ok_def file_data_def raw_data_def file_blocks_def file_block_def map_ok_def
      ptrs_def same_store_def fun_eq_iff)

lemma length_file_data:
  assumes "\<And>n. n < nblocks s \<Longrightarrow> length (B n) = unat (block_size s)" and "file_ok P s B inode" "\<And>n. P n \<Longrightarrow> n < nblocks s" "block_size s \<noteq> 0"
  shows "length (file_data s B inode) = unat (i_size inode)"
proof -
  have "map (\<lambda>j. length (B (unat (file_block s B inode j)))) [0..<file_blocks s inode] = map (\<lambda>_. unat (block_size s)) [0..<file_blocks s inode]"
    using assms by (intro map_cong) (auto simp: file_ok_def)
  then have "length (raw_data s B inode 0) = file_blocks s inode * unat (block_size s)"
    by (simp add: raw_data_def length_concat o_def map_replicate_const sum_list_replicate)
  moreover have "unat (i_size inode) \<le> file_blocks s inode * unat (block_size s)"
    unfolding file_blocks_def using assms(4) by (intro le_blocks) (simp add: unat_gt_0)
  ultimately show ?thesis by (simp add: file_data_def)
qed

lemma raw_data_drop:
  assumes "\<And>n. n < nblocks s \<Longrightarrow> length (B n) = unat (block_size s)" and "file_ok (\<lambda>n. n < nblocks s) s B inode"
    and "k \<le> file_blocks s inode"
  shows "drop (k * unat (block_size s)) (raw_data s B inode 0) = raw_data s B inode k"
  using assms(3)
proof (induction k)
  case (Suc k)
  have "length (B (unat (file_block s B inode k))) = unat (block_size s)" using assms(1,2) Suc.prems by (auto simp: file_ok_def)
  moreover have "drop (Suc k * unat (block_size s)) (raw_data s B inode 0)
      = drop (unat (block_size s)) (drop (k * unat (block_size s)) (raw_data s B inode 0))" by (simp add: add.commute)
  moreover have "drop (k * unat (block_size s)) (raw_data s B inode 0) = raw_data s B inode k" using Suc by simp
  moreover have "raw_data s B inode k = B (unat (file_block s B inode k)) @ raw_data s B inode (Suc k)"
    using Suc.prems by (intro raw_data_Cons) simp
  ultimately show ?case by (metis append_eq_conv_conj)
qed simp

text \<open>A handle that was opened for writing only is not told apart from one for both.\<close>

lemma never_write_only: "\<not> (fl AND EXT2_O_WRONLY \<noteq> 0 \<and> fl AND EXT2_O_RDWR = 0)"
proof -
  have "fl AND EXT2_O_WRONLY = (fl AND EXT2_O_RDWR) AND EXT2_O_WRONLY"
    by (simp add: EXT2_O_WRONLY_def EXT2_O_RDWR_def and.assoc)
  then show ?thesis by auto
qed

lemma position_split:
  fixes pos :: u64 and b :: u32
  assumes "unat pos < 2 ^ 32" and "b \<noteq> 0"
  defines "k \<equiv> ucast (pos div ucast b) :: u32" and "off \<equiv> ucast (pos mod ucast b) :: u32"
  shows "unat k = unat pos div unat b" "unat off = unat pos mod unat b" "unat k * unat b + unat off = unat pos"
proof -
  have b: "0 < unat b" "unat b < 2 ^ 32" using assms(2) unsigned_less [of b, where ?'a = nat] by (simp_all add: unat_gt_0)
  have "unat pos div unat b < 2 ^ 32" using assms(1) div_le_dividend [of "unat pos" "unat b"] by linarith
  then show k: "unat k = unat pos div unat b" unfolding k_def by (subst unat_ucast_mod) (simp add: unat_div unat_ucast_u32)
  have "unat pos mod unat b < 2 ^ 32" using b mod_less_divisor [OF b(1), of "unat pos"] by linarith
  then show off: "unat off = unat pos mod unat b" unfolding off_def by (subst unat_ucast_mod) (simp add: unat_mod unat_ucast_u32)
  show "unat k * unat b + unat off = unat pos" by (simp add: k off)
qed

text \<open>The loop of \<open>ext2_read\<close>, in terms of the contents and the position.\<close>

lemma read_part:
  fixes pos n :: u64
  assumes rep: "ext2_fs.io_rep lat b h0 dev s B" and ok: "file_ok (\<lambda>n. n < nblocks s) s B inode"
    and n: "unat pos + unat n \<le> unat (i_size inode)"
  shows "\<exists>s'. file_read_loop dev inode (ucast (pos div ucast (block_size s))) (ucast (pos mod ucast (block_size s))) n s
      = Some (take (unat n) (drop (unat pos) (file_data s B inode)), s') \<and> ext2_fs.io_rep lat b h0 dev s' B \<and> same_meta s s'"
proof -
  let ?b = "unat (block_size s)"
  let ?k = "ucast (pos div ucast (block_size s)) :: u32" and ?off = "ucast (pos mod ucast (block_size s)) :: u32"
  note facts = ext2_fs.io_rep_facts [OF rep]
  have b: "0 < ?b" using facts(5) by simp
  have "unat pos < 2 ^ 32" using n unsigned_less [of "i_size inode", where ?'a = nat] by simp
  from position_split [OF this facts(6)] have k: "unat ?k = unat pos div ?b"
    and off: "unat ?off = unat pos mod ?b" and split: "unat ?k * ?b + unat ?off = unat pos" by simp_all
  have "unat ?off < ?b" "unat ?k * ?b + unat ?off + unat n \<le> unat (i_size inode)" using off b n split by simp_all
  from ext2_fs.file_read_loop_rep [OF rep ok this] obtain s' where s':
    "file_read_loop dev inode ?k ?off n s = Some (take (unat n) (drop (unat ?off) (raw_data s B inode (unat ?k))), s')"
    "ext2_fs.io_rep lat b h0 dev s' B" "same_meta s s'" by blast
  have "unat pos div ?b \<le> (unat (i_size inode) + ?b - 1) div ?b" using n b by (intro div_le_mono) linarith
  then have part: "drop (unat ?k * ?b) (raw_data s B inode 0) = raw_data s B inode (unat ?k)"
    by (intro raw_data_drop [OF _ ok]) (simp_all add: k file_blocks_def ext2_fs.block_length [OF facts(1)])
  have "drop (unat ?off) (raw_data s B inode (unat ?k)) = drop (unat ?off) (drop (unat ?k * ?b) (raw_data s B inode 0))"
    by (simp only: part)
  also have "\<dots> = drop (unat pos) (raw_data s B inode 0)" unfolding drop_drop using split by (simp only: add.commute)
  finally have "drop (unat ?off) (raw_data s B inode (unat ?k)) = drop (unat pos) (raw_data s B inode 0)" .
  then have "take (unat n) (drop (unat ?off) (raw_data s B inode (unat ?k))) = take (unat n) (drop (unat pos) (file_data s B inode))"
    using n by (simp add: file_data_def drop_take min_def)
  with s' show ?thesis by auto
qed

context file_shape
begin

text \<open>The end of a read or a write: the handle gets its position and its inode, and the inode goes to the disk.\<close>

lemma update_handle:
  fixes p :: u64
  assumes rep: "handle_rep shape lat b h0 dev fd s data pos" and io: "ext2_fs.io_rep lat b h0 dev s1 B" and meta: "same_meta s s1"
    and shape: "shape (handle_inode_apart s (open_files s ! nat fd)) s B inode"
  defines "f \<equiv> open_files s ! nat fd"
  defines "f' \<equiv> f\<lparr>position := p, file_inode := inode\<rparr>"
  shows "\<exists>s'. ext2_write_inode dev (drive_index s) (inode_num f) inode (s1\<lparr>open_files := (open_files s)[nat fd := f']\<rparr>) = Some (True, s')
    \<and> handle_rep shape lat b h0 dev fd s' (file_data s B inode) (unat p) \<and> open_files s' = (open_files s)[nat fd := f']"
proof -
  have h: "io_ok s" "inodes_ok s" "is_open f" "inode_valid s (inode_num f)"
    and fd: "0 \<le> fd" "fd < int EXT2_MAX_FILES" "length (open_files s) = EXT2_MAX_FILES"
    using rep unfolding handle_rep_def f_def Let_def by blast+
  note fields = same_meta_fields [OF meta]
  define s2 where "s2 = s1\<lparr>open_files := (open_files s)[nat fd := f']\<rparr>"
  note frame = open_files_frame [where s = s1 and fs = "(open_files s)[nat fd := f']", folded s2_def]
  have io2: "ext2_fs.io_rep lat b h0 dev s2 B"
    using io ext2_fs.block_frame [of lat b h0 dev s1 B s2] frame(1,9) by (simp add: ext2_fs.io_rep_def)
  have i2: "inodes_ok s2" "inode_valid s2 (inode_num f)" "drive_index s2 = drive_index s"
    using h(2,4) same_meta_inodes [OF meta] frame(2,3) fields(3) by (simp_all add: s2_def)
  have x: "inode_wf inode" using shape_ok [OF shape] by (simp add: file_ok_def)
  obtain s' where s': "ext2_write_inode dev (drive_index s) (inode_num f) inode s2 = Some (True, s')"
    "ext2_fs.io_rep lat b h0 dev s' (put_inode s2 (inode_num f) inode B)" "same_meta s2 s'"
    using ext2_fs.write_inode_rep [OF io2 i2(1,2) x] i2(3) by auto
  define B' where "B' = put_inode s2 (inode_num f) inode B"
  have same: "handle_inode_apart s f m \<Longrightarrow> B' m = B m" for m
    using frame(4) same_meta_inodes(5) [OF meta] by (simp add: B'_def put_inode_def handle_inode_apart_def)
  have apart: "handle_inode_apart s' f' = handle_inode_apart s f"
    using frame(4,6) same_meta_inodes(5) [OF meta] same_meta_inodes(5) [OF s'(3)] same_meta_fields(13) [OF s'(3)] fields(13)
    by (simp add: handle_inode_apart_def fun_eq_iff f'_def)
  have bs: "block_size s' = block_size s" using same_meta_fields(4) [OF s'(3)] fields(4) by (simp add: s2_def)
  have "shape (handle_inode_apart s' f') s' B' inode"
    unfolding apart shape_state [OF bs] using shape_same [OF same] shape by (simp add: f_def)
  moreover have "file_data s' B' inode = file_data s B inode"
    using file_same(2) [OF same shape_ok [OF shape [folded f_def]]]
    by (simp add: same_meta_file [OF s'(3)] frame(8) same_meta_file [OF meta])
  moreover have open': "open_files s' = (open_files s)[nat fd := f']" by (simp add: same_meta_fields [OF s'(3)] s2_def)
  moreover have "open_files s' ! nat fd = f'" "length (open_files s') = EXT2_MAX_FILES"
    using fd by (simp_all add: open' EXT2_MAX_FILES_def nat_less_iff)
  ultimately have "handle_rep shape lat b h0 dev fd s' (file_data s B inode) (unat p)"
    using fd(1,2) s'(2) i2(1,2) h(3) same_meta_inodes [OF s'(3)]
    unfolding handle_rep_def Let_def by (auto simp: f'_def ext2_fs.io_rep_def B'_def)
  then show ?thesis using s'(1) open' unfolding s2_def by blast
qed

text \<open>A handle after a read that stayed inside the file.\<close>

lemma read_handle:
  assumes rep: "handle_rep shape lat b h0 dev fd s data pos" and n: "0 < length data" "pos + unat n \<le> length data"
  defines "f \<equiv> open_files s ! nat fd"
  defines "f' \<equiv> f\<lparr>position := position f + n, file_inode := (file_inode f)\<lparr>i_atime := 0\<rparr>\<rparr>"
  shows "\<exists>s1 s'. file_read_loop dev (file_inode f) (ucast (position f div ucast (block_size s)))
        (ucast (position f mod ucast (block_size s))) n s = Some (take (unat n) (drop pos data), s1)
    \<and> drive_index s1 = drive_index s \<and> open_files s1 = open_files s
    \<and> ext2_write_inode dev (drive_index s) (inode_num f) ((file_inode f)\<lparr>i_atime := 0\<rparr>)
        (s1\<lparr>open_files := (open_files s)[nat fd := f']\<rparr>) = Some (True, s')
    \<and> handle_rep shape lat b h0 dev fd s' data (pos + unat n) \<and> open_files s' = (open_files s)[nat fd := f']"
proof -
  obtain B where B: "block_rep lat b h0 dev s B" "io_ok s" "unat (position f) = pos"
    "shape (handle_inode_apart s f) s B (file_inode f)" "data = file_data s B (file_inode f)"
    using rep unfolding handle_rep_def f_def Let_def by blast
  have io: "ext2_fs.io_rep lat b h0 dev s B" using B(1,2) by (simp add: ext2_fs.io_rep_def)
  have ok: "file_ok (\<lambda>n. n < nblocks s) s B (file_inode f)"
    using shape_ok [OF B(4)] map_ok_mono by (fastforce simp: file_ok_def handle_inode_apart_def)
  have len: "length data = unat (i_size (file_inode f))"
    unfolding B(5) by (rule length_file_data [OF block_rep_length [OF B(1)] ok]) (simp_all add: ext2_fs.io_rep_facts(6) [OF io])
  have "unat (position f) + unat n \<le> unat (i_size (file_inode f))" using n B(3) len by simp
  from read_part [OF io ok this] obtain s1 where s1: "file_read_loop dev (file_inode f) (ucast (position f div ucast (block_size s)))
        (ucast (position f mod ucast (block_size s))) n s = Some (take (unat n) (drop pos data), s1)"
    "ext2_fs.io_rep lat b h0 dev s1 B" "same_meta s s1" by (auto simp: B(3,5))
  have pos: "unat (position f + n) = pos + unat n"
    using n len B(3) unsigned_less [of "i_size (file_inode f)", where ?'a = nat] by (simp add: unat_word_ariths(1))
  have "shape (handle_inode_apart s (open_files s ! nat fd)) s B ((file_inode f)\<lparr>i_atime := 0\<rparr>)"
    using B(4) by (simp add: shape_times f_def)
  from update_handle [OF rep s1(2,3) this, of "position f + n", folded f_def f'_def, unfolded pos file_times B(5) [symmetric]] s1(1)
  show ?thesis using same_meta_fields(3,11) [OF s1(3)] unfolding f'_def by blast
qed

lemma read_streams:
  assumes rep: "handle_rep shape lat b h0 dev fd s data pos" and wrap: "pos + unat sz < 2 ^ 64"
  shows "\<exists>s'. ext2_read dev fd False sz s
      = Some (int (min (unat sz) (length data - pos)), take (unat sz) (drop pos data), s')
    \<and> handle_rep shape lat b h0 dev fd s' data (pos + min (unat sz) (length data - pos))
    \<and> file_flags (open_files s' ! nat fd) = file_flags (open_files s ! nat fd)"
proof -
  define f where "f = open_files s ! nat fd"
  obtain B where B: "block_rep lat b h0 dev s B" "io_ok s" "is_open f" "unat (position f) = pos"
    "shape (handle_inode_apart s f) s B (file_inode f)" "data = file_data s B (file_inode f)" "0 \<le> fd" "fd < int EXT2_MAX_FILES"
    using rep unfolding handle_rep_def f_def Let_def by blast
  have m: "mounted s" "block_size s \<noteq> 0"
    using ext2_fs.io_rep_facts(3,6) [of lat b h0 dev s B] B(1,2) by (simp_all add: ext2_fs.io_rep_def)
  have good: "\<not> bad_handle fd s" using m B(3,7,8) by (simp add: bad_handle_def f_def)
  have len: "length data = unat (i_size (file_inode f))"
    unfolding B(6) by (rule length_file_data [OF block_rep_length [OF B(1)] shape_ok [OF B(5)]]) (simp_all add: handle_inode_apart_def m(2))
  have size: "unat (ucast (i_size (file_inode f)) :: u64) = length data" by (simp add: unat_ucast_u32 len)
  show ?thesis
  proof (cases "length data \<le> pos")
    case True
    then have "ucast (i_size (file_inode f)) \<le> position f" by (simp add: word_le_nat_alt size B(4))
    then have "ext2_read dev fd False sz s = Some (0, [], s)"
      using good by (simp add: ext2_read_def Let_def f_def [symmetric] never_write_only)
    then show ?thesis using rep True by simp
  next
    case False
    define n where "n = (if ucast (i_size (file_inode f)) < position f + sz then ucast (i_size (file_inode f)) - position f else sz)"
    have "unat (position f + sz) = pos + unat sz" using wrap by (simp add: unat_word_ariths(1) B(4))
    moreover have "unat (ucast (i_size (file_inode f)) - position f) = length data - pos"
      using False by (subst unat_sub) (simp_all add: size B(4) word_le_nat_alt)
    ultimately have n: "unat n = min (unat sz) (length data - pos)"
      unfolding n_def by (auto simp: word_less_nat_alt size)
    have le: "pos + unat n \<le> length data" "0 < length data" using False n by linarith+
    let ?f = "f\<lparr>position := position f + n, file_inode := (file_inode f)\<lparr>i_atime := 0\<rparr>\<rparr>"
    from read_handle [OF rep le(2,1), folded f_def] obtain s1 s' where s: "file_read_loop dev (file_inode f)
        (ucast (position f div ucast (block_size s))) (ucast (position f mod ucast (block_size s))) n s = Some (take (unat n) (drop pos data), s1)"
      "drive_index s1 = drive_index s" "open_files s1 = open_files s"
      "ext2_write_inode dev (drive_index s) (inode_num f) ((file_inode f)\<lparr>i_atime := 0\<rparr>) (s1\<lparr>open_files := (open_files s)[nat fd := ?f]\<rparr>) = Some (True, s')"
      "handle_rep shape lat b h0 dev fd s' data (pos + unat n)" "open_files s' = (open_files s)[nat fd := ?f]" by blast
    have fl: "file_flags (open_files s' ! nat fd) = file_flags f"
      using s(5,6) by (cases "nat fd < length (open_files s)") (simp_all add: f_def list_update_beyond)
    have "length (take (unat n) (drop pos data)) = unat n" using le by simp
    moreover have "(ucast (block_size s) :: u64) \<noteq> 0" using m(2) by (metis unat_ucast_u32 unat_0 unat_eq_zero)
    ultimately have "ext2_read dev fd False sz s = Some (int (unat n), take (unat n) (drop pos data), s')"
      using good False s m(2)
      by (simp add: ext2_read_def Let_def f_def [symmetric] never_write_only word_le_nat_alt size B(4) n_def [symmetric] update_file_def)
    moreover have "take (unat n) (drop pos data) = take (unat sz) (drop pos data)" by (simp add: n min_def)
    ultimately show ?thesis using s(5) fl by (simp add: n f_def)
  qed
qed

end

section \<open>Properties\<close>


text \<open>A file of 1500 bytes in blocks 20 and 21, open at position 1000.\<close>

definition demo_file :: ext2_file_t where
  "demo_file = \<lparr>inode_num = 12, file_inode = zero_inode\<lparr>i_mode := 0x81A4, i_size := 1500, i_block := [20, 21] @ replicate 13 0\<rparr>,
     file_flags = 1, position = 1000, is_open = True\<rparr>"

definition demo_open :: ext2_state where
  "demo_open = demo_mounted (demo_file # replicate 63 zero_file)"

text \<open>Every sector of the disk has the same words.\<close>

abbreviation letters :: "nat \<Rightarrow> u16 list" where
  "letters \<equiv> (\<lambda>_. replicate 256 0x4241)"

lemma demo_file_ok:
  fixes q :: pmm_state
  defines "s \<equiv> demo_open\<lparr>frames := q\<rparr>"
  shows "block_rep (\<lambda>_. 3) 0x1F0 (image_hd letters) (image_device letters) s (image_block letters)" "io_ok s" "inodes_ok s"
    "inode_valid s 12" "length (open_files s) = EXT2_MAX_FILES" "open_files s ! 0 = demo_file"
    "file_ok (handle_inode_apart s demo_file) s (image_block letters) (file_inode demo_file)"
    "length (file_data s (image_block letters) (file_inode demo_file)) = 1500" "file_blocks s (file_inode demo_file) = 2"
    "k < 2 \<Longrightarrow> file_block s (image_block letters) (file_inode demo_file) k = (if k = 0 then 20 else 21)"
    "k < 2 \<Longrightarrow> map_ok P s (image_block letters) (file_inode demo_file) k"
proof -
  let ?B = "image_block letters" and ?i = "file_inode demo_file"
  have "block_rep (\<lambda>_. 3) 0x1F0 (image_hd letters) (image_device letters) demo_open ?B"
    unfolding demo_open_def by (rule demo_mounted_rep) simp
  then show rep: "block_rep (\<lambda>_. 3) 0x1F0 (image_hd letters) (image_device letters) s ?B"
    by (rule ext2_fs.block_frame) (simp add: s_def same_store_def)
  have meta: "same_meta demo_open s"
    by (rule same_metaI [where a = "ata demo_open" and q = q and c = "cache demo_open" and buf = "io_buffer demo_open"]) (simp add: s_def)
  note ok = demo_mounted_ok [of "demo_file # replicate 63 zero_file", folded demo_open_def]
  note ok = ok(2,3,7-10) [folded same_meta_fields [OF meta] same_meta_inodes [OF meta]] ok(4-6)
  show "io_ok s" by (simp add: io_ok_def s_def demo_open_def demo_mounted_def demo_fs_def)
  show "inodes_ok s" "inode_valid s 12" "length (open_files s) = EXT2_MAX_FILES" "open_files s ! 0 = demo_file"
    using ok by (simp_all add: EXT2_MAX_FILES_def)
  have blk: "inode_block s 12 = 6"
    using ok(7-9) unfolding same_meta_inodes(5) [OF meta] by (simp add: inode_block_def demo_open_def demo_mounted_def demo_fs_def)
  have n: "file_blocks s ?i = 2" "ptrs s = 256"
    using ok(4) by (simp_all add: file_blocks_def ptrs_def demo_file_def)
  show "file_blocks s ?i = 2" by (rule n(1))
  have "i_block ?i ! k = (if k = 0 then 20 else 21)" if "k < 2" for k
    using that by (auto simp: demo_file_def less_2_cases_iff)
  then have fb: "file_block s ?B ?i k = (if k = 0 then 20 else 21)" "map_ok P s ?B ?i k" if "k < 2" for k P
    using that by (simp_all add: file_block_def map_ok_def block_path_def n)
  then show "k < 2 \<Longrightarrow> file_block s ?B ?i k = (if k = 0 then 20 else 21)" "k < 2 \<Longrightarrow> map_ok P s ?B ?i k" by blast+
  have wf: "inode_wf ?i" using inode_wf_zero by (simp add: demo_file_def inode_wf_def)
  show fok: "file_ok (handle_inode_apart s demo_file) s ?B ?i"
    unfolding file_ok_def using wf fb ok(4,5) n blk
    by (auto simp: handle_inode_apart_def map_size_def demo_file_def)
  have "length (file_data s ?B ?i) = unat (i_size ?i)"
    by (rule length_file_data [OF block_rep_length [OF rep] fok]) (simp_all add: handle_inode_apart_def ok)
  then show "length (file_data s ?B ?i) = 1500" by (simp add: demo_file_def)
qed

lemma demo_handle_rep:
  fixes q :: pmm_state
  defines "s \<equiv> demo_open\<lparr>frames := q\<rparr>"
  assumes "shape (handle_inode_apart s demo_file) s (image_block letters) (file_inode demo_file)"
  shows "\<exists>data. length data = 1500 \<and> handle_rep shape (\<lambda>_. 3) 0x1F0 (image_hd letters) (image_device letters) 0 s data 1000"
  using demo_file_ok [where q = q, folded s_def] assms(2) unfolding handle_rep_def Let_def
  by (intro exI [of _ "file_data s (image_block letters) (file_inode demo_file)"]) (auto simp: EXT2_MAX_FILES_def demo_file_def)

lemma demo_file_rep:
  "\<exists>data. length data = 1500
    \<and> file_rep (\<lambda>_. 3) 0x1F0 (image_hd letters) (image_device letters) 0 (demo_open\<lparr>frames := q\<rparr>) data 1000"
  by (rule demo_handle_rep [where shape = file_ok, OF demo_file_ok(7)])


end
