(* ===== verification/Ext2_Write_Correct.thy ===== *)
theory Ext2_Write_Correct
  imports Ext2_Read_Correct
begin

text \<open>
  Writing inside a file: \<open>ext2_write\<close> overwrites the bytes at the position of the handle and nothing else, so that
  a handle is a stream that can be read and overwritten in any order.
\<close>

section \<open>Overwriting\<close>

definition overwrite :: "'a list \<Rightarrow> nat \<Rightarrow> 'a list \<Rightarrow> 'a list" where
  "overwrite xs p ys = take p xs @ ys @ drop (p + length ys) xs"

lemma length_overwrite [simp]: "p + length ys \<le> length xs \<Longrightarrow> length (overwrite xs p ys) = length xs"
  by (simp add: overwrite_def)

lemma overwrite_Nil [simp]: "overwrite xs p [] = xs"
  by (simp add: overwrite_def)

lemma overwrite_overwrite:
  "p + length ys + length zs \<le> length xs \<Longrightarrow> overwrite (overwrite xs p ys) (p + length ys) zs = overwrite xs p (ys @ zs)"
  by (simp add: overwrite_def add_ac)

lemma take_overwrite: "p + length ys \<le> n \<Longrightarrow> n \<le> length xs \<Longrightarrow> take n (overwrite xs p ys) = overwrite (take n xs) p ys"
  by (cases "n = p") (auto simp: overwrite_def min_def drop_take)

lemma overwrite_concat:
  assumes "\<And>x. x \<in> set xss \<Longrightarrow> length x = b" and "k < length xss" and "off + length ys \<le> b"
  shows "concat (xss[k := overwrite (xss ! k) off ys]) = overwrite (concat xss) (k * b + off) ys"
  using assms
proof (induction xss arbitrary: k)
  case (Cons x xss)
  have x: "length x = b" using Cons.prems(1) by simp
  show ?case
  proof (cases k)
    case 0
    then show ?thesis using Cons.prems(3) x by (simp add: overwrite_def)
  next
    case (Suc j)
    have "concat (xss[j := overwrite (xss ! j) off ys]) = overwrite (concat xss) (j * b + off) ys"
      using Cons.prems Suc by (intro Cons.IH) auto
    then show ?thesis using x by (simp add: Suc overwrite_def add.assoc)
  qed
qed simp

section \<open>Files whose blocks are apart\<close>

text \<open>
  The blocks of a file are different blocks, and none of them is an indirect block of the file; the latter
  satisfy \<open>Q\<close>.
\<close>

definition file_sep :: "(nat \<Rightarrow> bool) \<Rightarrow> ext2_state \<Rightarrow> (nat \<Rightarrow> u8 list) \<Rightarrow> ext2_inode_t \<Rightarrow> bool" where
  "file_sep P s B inode \<longleftrightarrow> file_ok P s B inode \<and> inj_on (file_block s B inode) {..<file_blocks s inode}
     \<and> (\<exists>Q. \<forall>k < file_blocks s inode. map_ok Q s B inode k \<and> \<not> Q (unat (file_block s B inode k)))"

lemma map_ok_conj: "map_ok P s B inode k \<Longrightarrow> map_ok Q s B inode k \<Longrightarrow> map_ok (\<lambda>n. P n \<and> Q n) s B inode k"
proof -
  have "path_ok P B p is \<Longrightarrow> path_ok Q B p is \<Longrightarrow> path_ok (\<lambda>n. P n \<and> Q n) B p is" for p "is"
    by (induction "is" arbitrary: p) auto
  then show "map_ok P s B inode k \<Longrightarrow> map_ok Q s B inode k \<Longrightarrow> map_ok (\<lambda>n. P n \<and> Q n) s B inode k"
    by (auto simp: map_ok_def)
qed

lemma file_sep_write:
  assumes sep: "file_sep P s B inode" and k: "k < file_blocks s inode"
    and len: "\<And>j. j < file_blocks s inode \<Longrightarrow> length (B (unat (file_block s B inode j))) = b"
    and off: "off + length ys \<le> b"
  defines "n \<equiv> unat (file_block s B inode k)"
  defines "B' \<equiv> B(n := overwrite (B n) off ys)"
  shows "file_sep P s B' inode" "\<And>j. j < file_blocks s inode \<Longrightarrow> file_block s B' inode j = file_block s B inode j"
    "raw_data s B' inode 0 = overwrite (raw_data s B inode 0) (k * b + off) ys"
proof -
  obtain Q where Q: "\<And>j. j < file_blocks s inode \<Longrightarrow> map_ok Q s B inode j \<and> \<not> Q (unat (file_block s B inode j))"
    using sep by (auto simp: file_sep_def)
  have ok: "file_ok P s B inode" and inj: "inj_on (file_block s B inode) {..<file_blocks s inode}"
    using sep by (auto simp: file_sep_def)
  have same: "Q m \<Longrightarrow> B' m = B m" for m using Q [OF k] by (auto simp: B'_def n_def)
  show fb: "file_block s B' inode j = file_block s B inode j" if "j < file_blocks s inode" for j
    using map_same(1) [of Q B' B, OF same] Q [OF that] by simp
  have mp: "map_ok (\<lambda>n. P n \<and> Q n) s B' inode j" if "j < file_blocks s inode" for j
    using map_same(2) [of "\<lambda>n. P n \<and> Q n" B' B] same Q [OF that] ok that map_ok_conj [of P s B inode j Q] by (auto simp: file_ok_def)
  have "map_ok P s B' inode j" "map_ok Q s B' inode j" if "j < file_blocks s inode" for j
    using map_ok_mono [OF mp [OF that]] by auto
  then have "file_ok P s B' inode" "\<forall>j < file_blocks s inode. map_ok Q s B' inode j \<and> \<not> Q (unat (file_block s B' inode j))"
    using ok Q fb by (auto simp: file_ok_def)
  moreover have "inj_on (file_block s B' inode) {..<file_blocks s inode}" using inj fb by (auto simp: inj_on_def)
  ultimately show "file_sep P s B' inode" unfolding file_sep_def by blast
  let ?bs = "map (\<lambda>j. B (unat (file_block s B inode j))) [0..<file_blocks s inode]"
  have "map (\<lambda>j. B' (unat (file_block s B' inode j))) [0..<file_blocks s inode] = ?bs[k := overwrite (?bs ! k) off ys]"
  proof (rule nth_equalityI)
    fix j assume "j < length (map (\<lambda>j. B' (unat (file_block s B' inode j))) [0..<file_blocks s inode])"
    then have j: "j < file_blocks s inode" by simp
    then have "unat (file_block s B inode j) = n \<longleftrightarrow> j = k" using inj k by (auto simp: n_def word_unat_eq_iff [symmetric] inj_on_def)
    then show "map (\<lambda>j. B' (unat (file_block s B' inode j))) [0..<file_blocks s inode] ! j = ?bs[k := overwrite (?bs ! k) off ys] ! j"
      using j k fb [OF j] by (auto simp: B'_def nth_list_update n_def)
  qed simp
  then show "raw_data s B' inode 0 = overwrite (raw_data s B inode 0) (k * b + off) ys"
  proof -
    have "length x = b" if "x \<in> set ?bs" for x using that len by auto
    from overwrite_concat [of ?bs b k off ys, OF this] show ?thesis
      using \<open>map _ _ = ?bs[k := _]\<close> k off unfolding raw_data_def by simp
  qed
qed

lemma same_meta_sep: "same_meta s s' \<Longrightarrow> file_sep P s' = file_sep P s"
  by (auto simp: file_sep_def same_meta_file fun_eq_iff)

section \<open>The loop\<close>

context block_store
begin

text \<open>One pass of the loop: the block is read if it is not written as a whole, and written with the new bytes.\<close>

lemma write_pass:
  assumes rep: "io_rep s B" and n: "unat n < nblocks s" and off: "off + length ys \<le> unat (block_size s)"
    and whole: "\<not> c \<Longrightarrow> off = 0 \<and> length ys = unat (block_size s)"
  shows "\<exists>s1 s2 s3. (if c then read_io dev (drive_index s) n s else Some (True, s)) = Some (True, s1)
    \<and> io_put off ys s1 = Some s2 \<and> write_io dev (drive_index s) n s2 = Some (True, s3)
    \<and> io_rep s3 (B(unat n := overwrite (B (unat n)) off ys)) \<and> same_meta s s1 \<and> same_meta s s2 \<and> same_meta s s3"
proof -
  obtain s1 where 1: "(if c then read_io dev (drive_index s) n s else Some (True, s)) = Some (True, s1)"
    "io_rep s1 B" "same_meta s s1" "c \<Longrightarrow> io_data s1 = B (unat n)"
    using read_io_rep [OF rep n] rep same_meta_refl [of s] by (cases c) auto
  have off1: "off + length ys \<le> unat (block_size s1)" using off by (simp add: same_meta_fields [OF 1(3)])
  obtain s2 where 2: "io_put off ys s1 = Some s2" "io_rep s2 B" "same_meta s1 s2" "io_data s2 = overwrite (io_data s1) off ys"
    using io_rep_put [OF 1(2) off1] by (auto simp: overwrite_def)
  note meta = same_meta_trans [OF 1(3) 2(3)]
  have len: "length (B (unat n)) = unat (block_size s)" by (rule block_length [OF io_rep_facts(1) [OF rep] n])
  have len1: "length (io_data s1) = unat (block_size s)"
    using io_rep_facts(2,4) [OF 1(2)] by (auto simp: io_ok_def io_data_def same_meta_fields [OF 1(3)])
  have data: "io_data s2 = overwrite (B (unat n)) off ys"
  proof (cases c)
    case False
    then show ?thesis using whole len len1 2(4) by (simp add: overwrite_def)
  qed (use 1(4) 2(4) in simp)
  have "unat n < nblocks s2" using n by (simp add: same_meta_fields [OF meta])
  from write_io_rep [OF 2(2) this] obtain s3 where 3: "write_io dev (drive_index s) n s2 = Some (True, s3)"
    "io_rep s3 (B(unat n := io_data s2))" "same_meta s2 s3" by (auto simp: same_meta_fields [OF meta])
  from 1(1,3) 2(1) 3 data meta same_meta_trans [OF meta 3(3)] show ?thesis by metis
qed

lemma file_write_loop_rep:
  assumes "io_rep s B" and "file_sep P s B inode" "\<And>n. P n \<Longrightarrow> n < nblocks s"
    and "unat off < unat (block_size s)" and "unat k * unat (block_size s) + unat off + unat r \<le> unat (i_size inode)"
    and "unat w + unat r \<le> length buf" "length buf < 2 ^ 64"
  shows "\<exists>s' B'. file_write_loop dev buf inode k off w r s = Some (w + r, inode, s') \<and> io_rep s' B' \<and> same_meta s s'
    \<and> file_sep P s B' inode \<and> (\<forall>n. \<not> P n \<longrightarrow> B' n = B n)
    \<and> raw_data s B' inode 0 = overwrite (raw_data s B inode 0) (unat k * unat (block_size s) + unat off) (take (unat r) (drop (unat w) buf))"
  using assms
proof (induction "unat r" arbitrary: k off w r s B rule: less_induct)
  case less
  let ?b = "unat (block_size s)"
  show ?case
  proof (cases "r = 0")
    case True
    then show ?thesis using less.prems(1,2) same_meta_refl [of s] by (auto simp: file_write_loop.simps)
  next
    case False
    then have r: "0 < unat r" "0 < r" by (simp_all add: unat_gt_0 word_neq_0_conv)
    note facts = io_rep_facts [OF less.prems(1)]
    have "unat k * ?b < unat (i_size inode)" using less.prems(5) r(1) by linarith
    then have k: "unat k < file_blocks s inode" unfolding file_blocks_def using facts(5) by (intro block_in_file) auto
    have ok: "file_ok P s B inode" using less.prems(2) by (simp add: file_sep_def)
    define n where "n = file_block s B inode (unat k)"
    have n: "n \<noteq> 0" "unat n < nblocks s" "P (unat n)" using ok k less.prems(3) by (auto simp: file_ok_def n_def)
    obtain s1 where 1: "get_block_from_inode dev inode k s = Some (n, s1)" "io_rep s1 B" "same_meta s s1"
      using get_block_rep [OF less.prems(1), of inode k] ok k map_ok_mono [of P s B inode "unat k" "\<lambda>n. n < nblocks s"] less.prems(3)
      by (auto simp: file_ok_def n_def)
    define c where "c = min (?b - unat off) (unat r)"
    have "unat (ucast (block_size s - off) :: u64) = ?b - unat off"
      using less.prems(4) by (simp add: unat_ucast_u32 unat_sub_ge)
    then have c: "unat (min (ucast (block_size s - off)) r) = c" by (simp add: c_def min_def word_le_nat_alt)
    have c0: "0 < c" "unat off + c \<le> ?b" "c \<le> unat r" using r(1) less.prems(4) by (simp_all add: c_def)
    define ys where "ys = take c (drop (unat w) buf)"
    have ys: "length ys = c" "get_bytes buf (unat w) c = Some ys" using less.prems(6) c0 by (simp_all add: ys_def get_bytes_def)
    let ?part = "0 < off \<or> r < ucast (block_size s)"
    have whole: "\<not> ?part \<Longrightarrow> unat off = 0 \<and> length ys = unat (block_size s1)"
      by (auto simp: ys(1) c_def word_less_nat_alt unat_ucast_u32 same_meta_fields [OF 1(3)])
    have pre: "unat n < nblocks s1" "unat off + length ys \<le> unat (block_size s1)"
      using n(2) c0(2) ys(1) by (simp_all add: same_meta_fields [OF 1(3)])
    define B1 where "B1 = B(unat n := overwrite (B (unat n)) (unat off) ys)"
    obtain s2 s3 s4 where p: "(if ?part then read_io dev (drive_index s) n s1 else Some (True, s1)) = Some (True, s2)"
      "io_put (unat off) ys s2 = Some s3" "write_io dev (drive_index s) n s3 = Some (True, s4)"
      "io_rep s4 B1" "same_meta s1 s2" "same_meta s1 s3" "same_meta s1 s4"
      using write_pass [OF 1(2) pre whole] unfolding same_meta_fields(3) [OF 1(3)] B1_def by blast
    note meta = same_meta_trans [OF 1(3) p(5)] same_meta_trans [OF 1(3) p(6)] same_meta_trans [OF 1(3) p(7)]
    have lens: "length (B (unat (file_block s B inode j))) = ?b" if "j < file_blocks s inode" for j
      using block_length [OF facts(1)] ok that less.prems(3) by (auto simp: file_ok_def)
    have "unat off + length ys \<le> ?b" using c0(2) ys(1) by simp
    note upd = file_sep_write [OF less.prems(2) k lens this, folded n_def, folded B1_def]
    define r' where "r' = r - min (ucast (block_size s - off)) r"
    define w' where "w' = w + min (ucast (block_size s - off)) r"
    have r': "unat r' = unat r - c" unfolding r'_def by (subst unat_sub) (simp_all add: c)
    have w': "unat w' = unat w + c" unfolding w'_def using less.prems(6,7) c0(3) by (subst unat_add_no_wrap) (simp_all add: c)
    have wr: "w' + r' = w + r" by (simp add: w'_def r'_def)
    have step: "file_write_loop dev buf inode k off w r s = file_write_loop dev buf inode (k + 1) 0 w' r' s4"
      using n(1) r(2)
      by (simp add: file_write_loop.simps [of dev buf inode k] 1(1) p(1) [folded same_meta_fields(3) [OF 1(3)]] p(2,3) ys(2) c w'_def r'_def same_meta_fields [OF 1(3)]
          same_meta_fields [OF meta(1)] same_meta_fields [OF meta(2)] Let_def split del: if_split)
    have split: "take (unat r) (drop (unat w) buf) = ys @ take (unat r') (drop (unat w') buf)"
      using c0(3) take_add [of c "unat r - c" "drop (unat w) buf"] by (simp add: ys_def r' w' add.commute)
    have B1: "\<not> P m \<Longrightarrow> B1 m = B m" for m using n(3) by (auto simp: B1_def)
    show ?thesis
    proof (cases "r' = 0")
      case True
      have "file_write_loop dev buf inode (k + 1) 0 w' r' s4 = Some (w + r, inode, s4)"
        using wr by (simp add: True file_write_loop.simps [of dev buf inode "k + 1"])
      then show ?thesis using step p(4) meta(3) upd(1,3) B1 split True by auto
    next
      case False
      then have "0 < unat r'" by (simp add: unat_gt_0)
      then have cb: "c = ?b - unat off" using r' by (auto simp: c_def split: if_splits)
      have "unat k * 2 \<le> unat k * ?b" using facts(5) by (intro mult_le_mono2) simp
      moreover have "unat (i_size inode) < 4294967296" using unsigned_less [of "i_size inode", where ?'a = nat] by simp
      ultimately have "unat k < 4294967295" using \<open>unat k * ?b < unat (i_size inode)\<close> by linarith
      then have k1: "unat (k + 1) = Suc (unat k)" by (simp add: unat_word_ariths(1))
      have pos: "unat (k + 1) * ?b = unat k * ?b + unat off + c" using less.prems(4) by (simp add: k1 cb)
      note f4 = same_meta_fields [OF meta(3)] same_meta_file [OF meta(3)] same_meta_sep [OF meta(3)]
      have "unat r' < unat r" using r' c0(1) r(1) by simp
      from less.hyps [OF this p(4), of "0" "k + 1" w'] obtain s' B' where
        s': "file_write_loop dev buf inode (k + 1) 0 w' r' s4 = Some (w' + r', inode, s')" "io_rep s' B'" "same_meta s4 s'"
          "file_sep P s B' inode" "\<forall>n. \<not> P n \<longrightarrow> B' n = B1 n"
          "raw_data s B' inode 0 = overwrite (raw_data s B1 inode 0) (unat (k + 1) * ?b) (take (unat r') (drop (unat w') buf))"
        using upd(1) less.prems(3-7) pos r' w' c0(3) facts(5) by (auto simp: f4)
      have "raw_data s B' inode 0 = overwrite (raw_data s B inode 0) (unat k * ?b + unat off) (take (unat r) (drop (unat w) buf))"
      proof -
        have "length (file_data s B inode) = unat (i_size inode)"
          by (rule length_file_data [OF block_length [OF facts(1)] ok less.prems(3) facts(6)])
        then have "unat (i_size inode) \<le> length (raw_data s B inode 0)" by (simp add: file_data_def)
        moreover have "length (take (unat r') (drop (unat w') buf)) = unat r - c" using less.prems(6) c0(3) by (simp add: r' w')
        ultimately have "overwrite (overwrite (raw_data s B inode 0) (unat k * ?b + unat off) ys) (unat k * ?b + unat off + length ys)
            (take (unat r') (drop (unat w') buf))
          = overwrite (raw_data s B inode 0) (unat k * ?b + unat off) (ys @ take (unat r') (drop (unat w') buf))"
          using less.prems(5) c0(3) ys(1) by (intro overwrite_overwrite) simp
        then show ?thesis unfolding s'(6) pos split using upd(3) ys(1) by simp
      qed
      then show ?thesis using step s' wr same_meta_trans [OF meta(3) s'(3)] B1 by auto
    qed
  qed
qed

end

section \<open>Handles\<close>

lemma file_sep_same:
  assumes "\<And>n. P n \<Longrightarrow> B' n = B n" and "file_sep P s B inode"
  shows "file_sep P s B' inode"
proof -
  obtain Q where Q: "\<And>j. j < file_blocks s inode \<Longrightarrow> map_ok Q s B inode j \<and> \<not> Q (unat (file_block s B inode j))"
    and ok: "file_ok P s B inode" and inj: "inj_on (file_block s B inode) {..<file_blocks s inode}"
    using assms(2) by (auto simp: file_sep_def)
  have m: "map_ok (\<lambda>n. P n \<and> Q n) s B inode j" if "j < file_blocks s inode" for j
    using Q [OF that] ok that map_ok_conj by (auto simp: file_ok_def)
  have fb: "file_block s B' inode j = file_block s B inode j" "map_ok (\<lambda>n. P n \<and> Q n) s B' inode j" if "j < file_blocks s inode" for j
    using map_same [of "\<lambda>n. P n \<and> Q n" B' B, OF _ m [OF that]] assms(1) by auto
  have "\<forall>j < file_blocks s inode. map_ok (\<lambda>n. P n \<and> Q n) s B' inode j \<and> \<not> (P (unat (file_block s B' inode j)) \<and> Q (unat (file_block s B' inode j)))"
    using fb Q by simp
  moreover have "inj_on (file_block s B' inode) {..<file_blocks s inode}" using inj fb(1) by (auto simp: inj_on_def)
  ultimately show ?thesis using file_same(1) [OF assms(1) ok] unfolding file_sep_def by blast
qed

lemma file_sep_times:
  "file_sep P s B (inode\<lparr>i_atime := t\<rparr>) = file_sep P s B inode" "file_sep P s B (inode\<lparr>i_mtime := t\<rparr>) = file_sep P s B inode"
  by (simp_all add: file_sep_def file_times) (simp_all add: file_blocks_def file_block_def [abs_def] map_ok_def)

lemma file_sep_block_size: "block_size s' = block_size s \<Longrightarrow> file_sep P s' = file_sep P s"
  by (simp add: file_sep_def file_ok_def file_blocks_def file_block_def [abs_def] map_ok_def ptrs_def fun_eq_iff)

interpretation sep: file_shape file_sep
proof
  show "file_ok P s B inode" if "file_sep P s B inode" for P s B inode using that by (simp add: file_sep_def)
qed (fact file_sep_same file_sep_times file_sep_block_size)+

text \<open>The test for a handle that may be written.\<close>

definition writable :: "int \<Rightarrow> ext2_state \<Rightarrow> bool" where
  "writable fd s \<longleftrightarrow> file_flags (open_files s ! nat fd) AND (EXT2_O_WRONLY OR EXT2_O_RDWR) \<noteq> 0"

abbreviation stream_rep :: "(hd \<Rightarrow> nat) \<Rightarrow> u16 \<Rightarrow> hd \<Rightarrow> device \<Rightarrow> int \<Rightarrow> ext2_state \<Rightarrow> u8 list \<Rightarrow> nat \<Rightarrow> bool" where
  "stream_rep \<equiv> handle_rep file_sep"

lemma write_stream:
  assumes rep: "stream_rep lat b h0 dev fd s data pos" and w: "writable fd s"
    and sz: "pos + unat sz \<le> length data" "unat sz \<le> length buf" "length buf < 2 ^ 64"
  shows "\<exists>s'. ext2_write dev fd (Some buf) sz s = Some (int (unat sz), s')
    \<and> stream_rep lat b h0 dev fd s' (overwrite data pos (take (unat sz) buf)) (pos + unat sz)
    \<and> file_flags (open_files s' ! nat fd) = file_flags (open_files s ! nat fd)"
proof -
  define f where "f = open_files s ! nat fd"
  let ?P = "handle_inode_apart s f" and ?i = "file_inode f"
  obtain B where B: "block_rep lat b h0 dev s B" "io_ok s" "is_open f" "unat (position f) = pos" "file_sep ?P s B ?i"
    "data = file_data s B ?i" and fd: "0 \<le> fd" "fd < int EXT2_MAX_FILES"
    using rep unfolding handle_rep_def f_def Let_def by blast
  have io: "ext2_fs.io_rep lat b h0 dev s B" using B(1,2) by (simp add: ext2_fs.io_rep_def)
  note facts = ext2_fs.io_rep_facts [OF io]
  have P: "?P n \<Longrightarrow> n < nblocks s" for n by (simp add: handle_inode_apart_def)
  have len: "length data = unat (i_size ?i)"
    unfolding B(6) by (rule length_file_data [OF block_rep_length [OF B(1)] sep.shape_ok [OF B(5)] P facts(6)])
  let ?k = "ucast (position f div ucast (block_size s)) :: u32" and ?off = "ucast (position f mod ucast (block_size s)) :: u32"
  have "unat (position f) < 2 ^ 32" using sz len B(4) unsigned_less [of "i_size ?i", where ?'a = nat] by simp
  note split = position_split [OF this facts(6)]
  have "unat ?off < unat (block_size s)" "unat ?k * unat (block_size s) + unat ?off + unat sz \<le> unat (i_size ?i)"
    "unat (0 :: u64) + unat sz \<le> length buf"
    using split sz(1,2) len B(4) facts(5) by simp_all
  from ext2_fs.file_write_loop_rep [OF io B(5) P this(1,2,3) sz(3)] obtain s1 B1 where
    1: "file_write_loop dev buf ?i ?k ?off 0 sz s = Some (sz, ?i, s1)" "ext2_fs.io_rep lat b h0 dev s1 B1" "same_meta s s1"
      "file_sep ?P s B1 ?i" "raw_data s B1 ?i 0 = overwrite (raw_data s B ?i 0) pos (take (unat sz) buf)"
    by (auto simp: split(3) B(4))
  let ?data = "overwrite data pos (take (unat sz) buf)" and ?f = "f\<lparr>position := position f + sz, file_inode := ?i\<lparr>i_mtime := 0\<rparr>\<rparr>"
  have "unat (i_size ?i) \<le> length (raw_data s B ?i 0)" using len by (simp add: B(6) file_data_def)
  then have data: "file_data s B1 ?i = ?data"
    unfolding B(6) file_data_def 1(5) using sz(1,2) len by (intro take_overwrite) simp_all
  have pos: "unat (position f + sz) = pos + unat sz"
    using sz(1) len B(4) unsigned_less [of "i_size ?i", where ?'a = nat] by (simp add: unat_word_ariths(1))
  have "file_sep (handle_inode_apart s (open_files s ! nat fd)) s B1 (?i\<lparr>i_mtime := 0\<rparr>)"
    using 1(4) by (simp add: file_sep_times f_def)
  from sep.update_handle [OF rep 1(2,3) this, of "position f + sz", folded f_def, unfolded pos file_times data]
  obtain s' where s': "ext2_write_inode dev (drive_index s) (inode_num f) (?i\<lparr>i_mtime := 0\<rparr>) (s1\<lparr>open_files := (open_files s)[nat fd := ?f]\<rparr>) = Some (True, s')"
    "stream_rep lat b h0 dev fd s' ?data (pos + unat sz)" "open_files s' = (open_files s)[nat fd := ?f]" by blast
  have "(ucast (block_size s) :: u64) \<noteq> 0" using facts(6) by (metis unat_ucast_u32 unat_0 unat_eq_zero)
  moreover have "\<not> bad_handle fd s" using facts(3) B(3) fd by (simp add: bad_handle_def f_def)
  moreover have "\<not> ucast (i_size ?i) < position f + sz" using sz(1) len by (simp add: word_less_nat_alt pos unat_ucast_u32)
  ultimately have "ext2_write dev fd (Some buf) sz s = Some (int (unat sz), s')"
    using w 1(1) s'(1) same_meta_fields [OF 1(3)]
    by (simp add: ext2_write_def writable_def f_def [symmetric] update_file_def Let_def)
  moreover have "file_flags (open_files s' ! nat fd) = file_flags f"
    using s'(3) by (cases "nat fd < length (open_files s)") (simp_all add: f_def list_update_beyond)
  ultimately show ?thesis using s'(2) by (auto simp: f_def)
qed

section \<open>Property\<close>

text \<open>Sequences of reads and writes through a handle: what the code returns, and what a stream does.\<close>

datatype stream_op = ReadBytes u64 | WriteBytes "u8 list"

fun run_stream :: "device \<Rightarrow> int \<Rightarrow> stream_op list \<Rightarrow> ext2_state \<Rightarrow> ((int \<times> u8 list) list \<times> ext2_state) option" where
  "run_stream dev fd [] s = Some ([], s)"
| "run_stream dev fd (ReadBytes n # ops) s = do {
     (r, bs, s) \<leftarrow> ext2_read dev fd False n s;
     (rs, s) \<leftarrow> run_stream dev fd ops s;
     Some ((r, bs) # rs, s)
   }"
| "run_stream dev fd (WriteBytes bs # ops) s = do {
     (r, s) \<leftarrow> ext2_write dev fd (Some bs) (of_nat (length bs)) s;
     (rs, s) \<leftarrow> run_stream dev fd ops s;
     Some ((r, []) # rs, s)
   }"

fun step_stream :: "stream_op \<Rightarrow> u8 list \<times> nat \<Rightarrow> (int \<times> u8 list) \<times> u8 list \<times> nat" where
  "step_stream (ReadBytes n) (data, pos) =
     (let k = min (unat n) (length data - pos) in ((int k, take (unat n) (drop pos data)), data, pos + k))"
| "step_stream (WriteBytes bs) (data, pos) = ((int (length bs), []), overwrite data pos bs, pos + length bs)"

fun stream_results :: "stream_op list \<Rightarrow> u8 list \<times> nat \<Rightarrow> (int \<times> u8 list) list \<times> u8 list \<times> nat" where
  "stream_results [] d = ([], d)"
| "stream_results (op # ops) d = (let (r, d) = step_stream op d; (rs, d) = stream_results ops d in (r # rs, d))"

text \<open>The writes stay inside the file, and the end of no read is beyond 64 bits.\<close>

fun op_fits :: "nat \<Rightarrow> nat \<Rightarrow> stream_op list \<Rightarrow> bool" where
  "op_fits len pos [] = True"
| "op_fits len pos (ReadBytes n # ops) = (pos + unat n < 2 ^ 64 \<and> op_fits len (pos + min (unat n) (len - pos)) ops)"
| "op_fits len pos (WriteBytes bs # ops) = (pos + length bs \<le> len \<and> op_fits len (pos + length bs) ops)"

text \<open>
  \<^bold>\<open>C1\<close>. A handle on a file whose blocks are different blocks refines a stream under every sequence of reads and
  of writes inside the file, on a drive that follows the ATA protocol: every call returns, a read gives the
  bytes at the position as the writes before it left them, a write replaces exactly the bytes at the position,
  whether it starts or ends inside a block, and both move the position by what they did.
\<close>

theorem ext2_handle_refines_stream:
  assumes "stream_rep lat b h0 dev fd s data pos" and "writable fd s" and "length data < 2 ^ 32"
    and "op_fits (length data) pos ops" and "stream_results ops (data, pos) = (rs, data', pos')"
  shows "\<exists>s'. run_stream dev fd ops s = Some (rs, s') \<and> stream_rep lat b h0 dev fd s' data' pos' \<and> writable fd s'"
  using assms
proof (induction ops arbitrary: s data pos rs)
  case (Cons op ops)
  show ?case
  proof (cases op)
    case (ReadBytes n)
    let ?k = "min (unat n) (length data - pos)"
    have fit: "pos + unat n < 2 ^ 64" "op_fits (length data) (pos + ?k) ops" using Cons.prems(4) by (simp_all add: ReadBytes)
    obtain s1 where 1: "ext2_read dev fd False n s = Some (int ?k, take (unat n) (drop pos data), s1)"
      "stream_rep lat b h0 dev fd s1 data (pos + ?k)" "writable fd s1"
      using sep.read_streams [OF Cons.prems(1) fit(1)] Cons.prems(2) by (auto simp: writable_def)
    obtain rs1 where rs: "rs = (int ?k, take (unat n) (drop pos data)) # rs1" "stream_results ops (data, pos + ?k) = (rs1, data', pos')"
      using Cons.prems(5) by (auto simp: ReadBytes Let_def split: prod.splits)
    show ?thesis using Cons.IH [OF 1(2,3) Cons.prems(3) fit(2) rs(2)] 1(1) by (auto simp: ReadBytes rs(1))
  next
    case (WriteBytes bs)
    have fit: "pos + length bs \<le> length data" "op_fits (length data) (pos + length bs) ops" using Cons.prems(4) by (simp_all add: WriteBytes)
    have n: "unat (of_nat (length bs) :: u64) = length bs" using fit(1) Cons.prems(3) by (simp add: unat_of_nat)
    obtain s1 where 1: "ext2_write dev fd (Some bs) (of_nat (length bs)) s = Some (int (length bs), s1)"
      "stream_rep lat b h0 dev fd s1 (overwrite data pos bs) (pos + length bs)" "writable fd s1"
      using write_stream [OF Cons.prems(1,2), of "of_nat (length bs)" bs] Cons.prems(2,3) fit(1) by (auto simp: n writable_def)
    have len: "length (overwrite data pos bs) = length data" using fit(1) by simp
    obtain rs1 where rs: "rs = (int (length bs), []) # rs1" "stream_results ops (overwrite data pos bs, pos + length bs) = (rs1, data', pos')"
      using Cons.prems(5) by (auto simp: WriteBytes Let_def split: prod.splits)
    show ?thesis using Cons.IH [OF 1(2,3) _ _ rs(2), unfolded len, OF Cons.prems(3) fit(2)] 1(1) by (auto simp: WriteBytes rs(1))
  qed
qed auto

theorem ext2_handle_refines_stream_witness:
  "\<exists>s' bs. run_stream (image_device letters) 0 [WriteBytes (replicate 100 0x5A), ReadBytes 50, WriteBytes [1, 2, 3]] demo_open
      = Some ([(100, []), (50, bs), (3, [])], s') \<and> writable 0 s'"
proof -
  have "demo_open\<lparr>frames := frames demo_open\<rparr> = demo_open" by simp
  note d = demo_file_ok [where q = "frames demo_open", unfolded this]
  have "inj_on (file_block demo_open (image_block letters) (file_inode demo_file)) {..<2}"
    using d(10) by (auto simp: inj_on_def)
  moreover have "\<forall>k < 2. map_ok (\<lambda>_. False) demo_open (image_block letters) (file_inode demo_file) k \<and> \<not> False"
    using d(11) by blast
  ultimately have "file_sep (handle_inode_apart demo_open demo_file) demo_open (image_block letters) (file_inode demo_file)"
    using d(7,9) unfolding file_sep_def by auto
  then obtain data where data: "length data = 1500"
    "stream_rep (\<lambda>_. 3) 0x1F0 (image_hd letters) (image_device letters) 0 demo_open data 1000"
    using demo_handle_rep [where shape = file_sep and q = "frames demo_open"] by auto
  have w: "writable 0 demo_open" by (simp add: writable_def d(6) demo_file_def EXT2_O_WRONLY_def EXT2_O_RDWR_def)
  let ?ops = "[WriteBytes (replicate 100 0x5A), ReadBytes 50, WriteBytes [1, 2, 3]]"
  have fits: "op_fits (length data) 1000 ?ops" "length data < 2 ^ 32" by (simp_all add: data(1))
  obtain rs d p where r: "stream_results ?ops (data, 1000) = (rs, d, p)" using prod_cases3 by blast
  then have "\<exists>bs. rs = [(100, []), (50, bs), (3, [])]" using data(1) by (auto simp: Let_def)
  then show ?thesis using ext2_handle_refines_stream [OF data(2) w fits(2,1) r] by blast
qed

end
