(* ===== verification/Ext2_Alloc_Correct.thy ===== *)
theory Ext2_Alloc_Correct
  imports Ext2_Inode_Correct PMM_Correct
begin

text \<open>
  The allocation of blocks: the bitmaps of the groups as a set of free blocks, and that \<open>ext2_allocate_block\<close> takes a
  block out of it, so that no block is handed out twice.
\<close>

section \<open>The search in a bitmap\<close>

lemma first_zero_bit_Some:
  "first_zero_bit byte = Some j \<longleftrightarrow> j < 8 \<and> \<not> bit byte j \<and> (\<forall>i < j. bit byte i)"
  by (auto simp: first_zero_bit_def find_Some_iff bit_facts)

lemma first_zero_bit_None: "first_zero_bit byte = None \<longleftrightarrow> byte = 0xFF"
proof -
  have "first_zero_bit byte = None \<longleftrightarrow> (\<forall>j < 8. bit byte j)" by (auto simp: first_zero_bit_def find_None_iff bit_facts)
  also have "\<dots> \<longleftrightarrow> byte = - 1" by (auto intro!: bit_word_eqI)
  also have "(- 1 :: u8) = 0xFF" by simp
  finally show ?thesis .
qed

lemma page_used_Cons: "page_used (b # bs) m \<longleftrightarrow> (if m < 8 then bit b m else page_used bs (m - 8))"
  by (simp add: page_used_bit nth_Cons' le_div_geq le_mod_geq)

lemma first_zero_bit_full: "first_zero_bit b = None \<Longrightarrow> j < 8 \<Longrightarrow> bit b j"
  by (auto simp: first_zero_bit_def find_None_iff bit_facts)

lemma find_free_bit_Cons:
  "find_free_bit (b # bs) i = (case first_zero_bit b of None \<Rightarrow> find_free_bit bs (Suc i) | Some j \<Rightarrow> Some (i * 8 + j))"
  using first_zero_bit_None [of b] by (cases "first_zero_bit b") auto

text \<open>The free bit is the first one; without one every byte is full.\<close>

lemma find_free_bit_Some:
  "find_free_bit bs i = Some n \<Longrightarrow> \<exists>m. n = 8 * i + m \<and> m < 8 * length bs \<and> \<not> page_used bs m \<and> (\<forall>l < m. page_used bs l)"
proof (induction bs arbitrary: i)
  case (Cons b bs)
  show ?case
  proof (cases "first_zero_bit b")
    case None
    then have "find_free_bit bs (Suc i) = Some n" using Cons.prems by (simp only: find_free_bit_Cons) simp
    from Cons.IH [OF this] obtain m where m: "n = 8 * Suc i + m" "m < 8 * length bs" "\<not> page_used bs m" "\<forall>l < m. page_used bs l" by blast
    have "page_used (b # bs) l" if "l < 8 + m" for l
      using m(4) that first_zero_bit_full [OF None] by (auto simp: page_used_Cons)
    then show ?thesis using m(1-3) by (intro exI [of _ "8 + m"]) (auto simp: page_used_Cons)
  next
    case (Some j)
    then have "n = i * 8 + j" using Cons.prems by (simp only: find_free_bit_Cons) simp
    then show ?thesis using Some by (intro exI [of _ j]) (auto simp: page_used_Cons first_zero_bit_Some)
  qed
qed simp

lemma find_free_bit_None: "find_free_bit bs i = None \<Longrightarrow> m < 8 * length bs \<Longrightarrow> page_used bs m"
proof (induction bs arbitrary: i m)
  case (Cons b bs)
  then have "first_zero_bit b = None" "find_free_bit bs (Suc i) = None"
    by (simp_all only: find_free_bit_Cons) (auto split: option.splits)
  then show ?case using Cons.IH [of "Suc i" "m - 8"] Cons.prems(2) first_zero_bit_full by (auto simp: page_used_Cons)
qed simp

context block_store
begin

lemma io_set_bit_rep:
  assumes "io_rep s B" and "io_data s = bm" and "n < 8 * length bm"
  shows "\<exists>s'. io_set_bit n s = Some s' \<and> io_rep s' B \<and> same_meta s s' \<and> io_data s' = mark_used bm n"
proof -
  have len: "length bm = unat (block_size s)"
    using io_rep_facts(2,4) [OF assms(1)] assms(2) by (auto simp: io_ok_def io_data_def)
  have i: "n div 8 < length bm" using assms(3) by auto
  then have get: "io_get (n div 8) 1 s = Some [bm ! (n div 8)]"
    using io_rep_get [OF assms(1), of "n div 8" 1] assms(2) len by (simp add: take_Suc_conv_app_nth Cons_nth_drop_Suc [symmetric])
  let ?b = "bm ! (n div 8) OR push_bit (n mod 8) 1"
  have "n div 8 + length [?b] \<le> unat (block_size s)" using i len by simp
  from io_rep_put [OF assms(1) this] obtain s' where s': "io_put (n div 8) [?b] s = Some s'" "io_rep s' B" "same_meta s s'"
    "io_data s' = take (n div 8) bm @ [?b] @ drop (n div 8 + 1) bm" by (auto simp: assms(2))
  have "take (n div 8) bm @ [?b] @ drop (n div 8 + 1) bm = mark_used bm n"
    using i by (simp add: mark_used_def upd_conv_take_nth_drop)
  then show ?thesis using s' get by (simp add: io_set_bit_def)
qed

lemma take_bit_rep:
  assumes rep: "io_rep s B" and bm: "unat bm < nblocks s"
  shows "\<exists>r s' B'. take_bit_in dev (drive_index s) bm s = Some (r, s') \<and> io_rep s' B' \<and> same_meta s s'
    \<and> (r = Skip \<and> B' = B \<and> (\<forall>n < 8 * length (B (unat bm)). page_used (B (unat bm)) n)
       \<or> (\<exists>n < 8 * length (B (unat bm)). r = Found n \<and> \<not> page_used (B (unat bm)) n \<and> B' = B(unat bm := mark_used (B (unat bm)) n)))"
proof -
  obtain s1 where 1: "read_io dev (drive_index s) bm s = Some (True, s1)" "io_rep s1 B" "same_meta s s1" "io_data s1 = B (unat bm)"
    using read_io_rep [OF rep bm] by auto
  have len: "length (B (unat bm)) = unat (block_size s)" by (rule block_length [OF io_rep_facts(1) [OF rep] bm])
  have get: "io_get 0 (unat (block_size s1)) s1 = Some (B (unat bm))"
    using io_rep_get [OF 1(2), of 0 "unat (block_size s1)"] 1(4) len by (simp add: same_meta_fields [OF 1(3)])
  show ?thesis
  proof (cases "find_free_bit (B (unat bm)) 0")
    case None
    then have "take_bit_in dev (drive_index s) bm s = Some (Skip, s1)" using 1(1) get by (simp add: take_bit_in_def)
    then show ?thesis using 1(2,3) find_free_bit_None [OF None] by blast
  next
    case (Some n)
    then have n: "n < 8 * length (B (unat bm))" "\<not> page_used (B (unat bm)) n" using find_free_bit_Some [OF Some] by auto
    from io_set_bit_rep [OF 1(2,4) n(1)] obtain s2 where 2: "io_set_bit n s1 = Some s2" "io_rep s2 B" "same_meta s1 s2"
      "io_data s2 = mark_used (B (unat bm)) n" by blast
    note meta = same_meta_trans [OF 1(3) 2(3)]
    have "unat bm < nblocks s2" using bm by (simp add: same_meta_fields [OF meta])
    from write_io_rep [OF 2(2) this] obtain s3 where 3: "write_io dev (drive_index s) bm s2 = Some (True, s3)"
      "io_rep s3 (B(unat bm := mark_used (B (unat bm)) n))" "same_meta s2 s3"
      by (auto simp: 2(4) same_meta_fields [OF meta])
    have "take_bit_in dev (drive_index s) bm s = Some (Found n, s3)"
      using 1(1) get Some 2(1) 3(1) by (simp add: take_bit_in_def)
    then show ?thesis using 3(2) same_meta_trans [OF meta 3(3)] n by blast
  qed
qed

end

section \<open>The free blocks of a store\<close>

definition bitmap_block :: "ext2_state \<Rightarrow> nat \<Rightarrow> nat" where
  "bitmap_block s g = unat (bg_block_bitmap (snd (the (group_descs s)) ! g))"

definition block_number :: "ext2_state \<Rightarrow> nat \<Rightarrow> nat \<Rightarrow> nat" where
  "block_number s g i = g * unat (blocks_per_group s) + i + unat (s_first_data_block (snd (the (superblock s))))"

definition bit_free :: "ext2_state \<Rightarrow> (nat \<Rightarrow> u8 list) \<Rightarrow> nat \<Rightarrow> nat \<Rightarrow> bool" where
  "bit_free s B g i \<longleftrightarrow> g < unat (groups_count s) \<and> i < 8 * unat (block_size s) \<and> \<not> page_used (B (bitmap_block s g)) i"

definition free_blocks :: "ext2_state \<Rightarrow> (nat \<Rightarrow> u8 list) \<Rightarrow> nat set" where
  "free_blocks s B = {block_number s g i | g i. bit_free s B g i}"

text \<open>
  The superblock and the group descriptors are there, the bitmaps are different blocks of the disk, and a free bit
  stands for a block of its group that the driver can reach and that is no bitmap. The last holds because the
  bits of the blocks with bitmaps and those behind the end of the group are set when the disk is formatted.
\<close>

definition alloc_ok :: "ext2_state \<Rightarrow> (nat \<Rightarrow> u8 list) \<Rightarrow> bool" where
  "alloc_ok s B \<longleftrightarrow> superblock s \<noteq> None
     \<and> (\<exists>p gs. group_descs s = Some (p, gs) \<and> unat (groups_count s) \<le> length gs)
     \<and> (\<forall>g < unat (groups_count s). bitmap_block s g < nblocks s) \<and> inj_on (bitmap_block s) {..<unat (groups_count s)}
     \<and> (\<forall>g i. bit_free s B g i \<longrightarrow> i < unat (blocks_per_group s) \<and> 0 < block_number s g i \<and> block_number s g i < nblocks s
          \<and> block_number s g i \<notin> bitmap_block s ` {..<unat (groups_count s)})"

text \<open>What an allocation leaves of the parameters.\<close>

definition same_layout :: "ext2_state \<Rightarrow> ext2_state \<Rightarrow> bool" where
  "same_layout s s' \<longleftrightarrow> block_size s' = block_size s \<and> drive_index s' = drive_index s \<and> groups_count s' = groups_count s
     \<and> blocks_per_group s' = blocks_per_group s
     \<and> map_option (s_first_data_block \<circ> snd) (superblock s') = map_option (s_first_data_block \<circ> snd) (superblock s)
     \<and> map_option (map bg_block_bitmap \<circ> snd) (group_descs s') = map_option (map bg_block_bitmap \<circ> snd) (group_descs s)"

lemma same_layout_trans: "same_layout s s' \<Longrightarrow> same_layout s' s'' \<Longrightarrow> same_layout s s''"
  by (simp add: same_layout_def)

lemma same_meta_layout: "same_meta s s' \<Longrightarrow> same_layout s s'"
  by (simp add: same_layout_def same_meta_fields)

lemma same_layout_facts:
  assumes "same_layout s s'" and "alloc_ok s B"
  shows "g < unat (groups_count s) \<Longrightarrow> bitmap_block s' g = bitmap_block s g" "block_number s' = block_number s" "nblocks s' = nblocks s"
    "bit_free s' = bit_free s" "free_blocks s' = free_blocks s" "alloc_ok s' B"
proof -
  obtain p gs where gs: "group_descs s = Some (p, gs)" "unat (groups_count s) \<le> length gs" using assms(2) by (auto simp: alloc_ok_def)
  obtain p' gs' where gs': "group_descs s' = Some (p', gs')" "map bg_block_bitmap gs' = map bg_block_bitmap gs"
    using assms(1) gs(1) by (auto simp: same_layout_def)
  have len: "length gs' = length gs" by (rule map_eq_imp_length_eq [OF gs'(2)])
  show bm: "bitmap_block s' g = bitmap_block s g" if "g < unat (groups_count s)" for g
    using arg_cong [OF gs'(2), of "\<lambda>xs. xs ! g"] that gs len by (simp add: bitmap_block_def gs'(1))
  have f: "block_size s' = block_size s" "groups_count s' = groups_count s" "blocks_per_group s' = blocks_per_group s"
    using assms(1) by (simp_all add: same_layout_def)
  obtain q sb q' sb' where sb: "superblock s = Some (q, sb)" "superblock s' = Some (q', sb')" "s_first_data_block sb' = s_first_data_block sb"
    using assms by (auto simp: alloc_ok_def same_layout_def)
  show nr: "block_number s' = block_number s" by (simp add: block_number_def fun_eq_iff f sb)
  show nb: "nblocks s' = nblocks s" by (simp add: nblocks_def f)
  show free: "bit_free s' = bit_free s" by (auto simp: bit_free_def fun_eq_iff f bm)
  show "free_blocks s' = free_blocks s" by (simp add: free_blocks_def fun_eq_iff free nr)
  have img: "bitmap_block s' ` {..<unat (groups_count s)} = bitmap_block s ` {..<unat (groups_count s)}"
    using bm by (intro image_cong) auto
  have inj: "inj_on (bitmap_block s') {..<unat (groups_count s)} = inj_on (bitmap_block s) {..<unat (groups_count s)}"
    using bm by (intro inj_on_cong) auto
  show "alloc_ok s' B"
    using assms(2) bm gs' gs len sb unfolding alloc_ok_def f nr nb free img inj by auto
qed

text \<open>The store after block \<open>n\<close> with bit \<open>i\<close> of group \<open>g\<close> is taken and cleared.\<close>

definition take_block :: "ext2_state \<Rightarrow> nat \<Rightarrow> nat \<Rightarrow> (nat \<Rightarrow> u8 list) \<Rightarrow> nat \<Rightarrow> u8 list" where
  "take_block s g i B = B(bitmap_block s g := mark_used (B (bitmap_block s g)) i,
     block_number s g i := replicate (unat (block_size s)) 0)"

lemma take_block_free:
  assumes ok: "alloc_ok s B" and free: "bit_free s B g i" and len: "length (B (bitmap_block s g)) = unat (block_size s)"
  shows "bit_free s (take_block s g i B) g' i' \<longleftrightarrow> bit_free s B g' i' \<and> (g', i') \<noteq> (g, i)"
    "alloc_ok s (take_block s g i B)" "free_blocks s (take_block s g i B) = free_blocks s B - {block_number s g i}"
proof -
  have g: "g < unat (groups_count s)" "i < 8 * length (B (bitmap_block s g))" using free len by (simp_all add: bit_free_def)
  have inj: "inj_on (bitmap_block s) {..<unat (groups_count s)}" using ok by (simp add: alloc_ok_def)
  have apart: "bitmap_block s h \<noteq> block_number s g i" if "h < unat (groups_count s)" for h
    using ok free that unfolding alloc_ok_def by (metis imageI lessThan_iff)
  show bf: "bit_free s (take_block s g i B) g' i' \<longleftrightarrow> bit_free s B g' i' \<and> (g', i') \<noteq> (g, i)" for g' i'
  proof (cases "g' < unat (groups_count s)")
    case True
    have "bitmap_block s g' = bitmap_block s g \<longleftrightarrow> g' = g" using inj True g(1) by (auto simp: inj_on_def)
    then show ?thesis using apart [OF True] page_used_mark_used [OF g(2)] by (auto simp: bit_free_def take_block_def)
  qed (simp add: bit_free_def)
  show "alloc_ok s (take_block s g i B)" using ok unfolding alloc_ok_def bf by blast
  have nr: "block_number s g' i' = block_number s g i \<longleftrightarrow> (g', i') = (g, i)" if "bit_free s B g' i'" for g' i'
  proof
    assume eq: "block_number s g' i' = block_number s g i"
    have "i < unat (blocks_per_group s)" "i' < unat (blocks_per_group s)" using ok free that by (auto simp: alloc_ok_def)
    then have "(g' * unat (blocks_per_group s) + i') div unat (blocks_per_group s) = g'"
      "(g * unat (blocks_per_group s) + i) div unat (blocks_per_group s) = g" by simp_all
    then show "(g', i') = (g, i)" using eq by (simp add: block_number_def)
  qed simp
  show "free_blocks s (take_block s g i B) = free_blocks s B - {block_number s g i}"
    using nr by (auto simp: free_blocks_def bf)
qed

text \<open>The outcomes of an allocation.\<close>

definition allocated :: "ext2_state \<Rightarrow> (nat \<Rightarrow> u8 list) \<Rightarrow> u32 \<Rightarrow> (nat \<Rightarrow> u8 list) \<Rightarrow> bool" where
  "allocated s B r B' \<longleftrightarrow> r = 0 \<and> B' = B \<or> (\<exists>g i. bit_free s B g i \<and> unat r = block_number s g i \<and> B' = take_block s g i B)"

lemma allocated_layout:
  assumes "same_layout s s'" and "alloc_ok s B"
  shows "allocated s' B = allocated s B"
proof -
  note lay = same_layout_facts [OF assms]
  have "take_block s' g i B = take_block s g i B" if "bit_free s B g i" for g i
    using that assms(1) by (simp add: take_block_def lay(1,2) bit_free_def same_layout_def)
  then show ?thesis unfolding allocated_def [abs_def] lay(2,4) by (intro ext) metis
qed

section \<open>The loop over the groups\<close>

context block_store
begin

lemma free_counts_rep:
  assumes rep: "io_rep s B" and ok: "alloc_ok s B0" and bg: "unat bg < unat (groups_count s)"
    and f: "\<And>sb. s_first_data_block (f sb) = s_first_data_block sb" and h: "\<And>g. bg_block_bitmap (h g) = bg_block_bitmap g"
  shows "\<exists>s1 s2. update_sb f s = Some s1 \<and> update_group bg h s1 = Some s2 \<and> io_rep s2 B \<and> same_layout s s2"
proof -
  obtain p gs q sb where gs: "group_descs s = Some (p, gs)" "unat (groups_count s) \<le> length gs" "superblock s = Some (q, sb)"
    using ok by (auto simp: alloc_ok_def)
  define s1 where "s1 = s\<lparr>superblock := Some (q, f sb)\<rparr>"
  define s2 where "s2 = s1\<lparr>group_descs := Some (p, gs[unat bg := h (gs ! unat bg)])\<rparr>"
  have "update_sb f s = Some s1" "update_group bg h s1 = Some s2"
    using gs bg by (simp_all add: update_sb_def update_group_def s1_def s2_def)
  moreover have "io_rep s2 B"
    using rep block_frame [of s B s2] by (simp add: io_rep_def io_ok_def s2_def s1_def same_store_def)
  moreover have "map bg_block_bitmap (gs[unat bg := h (gs ! unat bg)]) = map bg_block_bitmap gs"
    using gs(2) bg h by (simp add: map_update list_update_same_conv)
  then have "same_layout s s2" using gs f by (simp add: same_layout_def s2_def s1_def)
  ultimately show ?thesis by blast
qed

lemma io_clear_rep:
  assumes "io_rep s B"
  shows "\<exists>s'. io_clear s = Some s' \<and> io_rep s' B \<and> same_meta s s' \<and> io_data s' = replicate (unat (block_size s)) 0"
proof -
  have "length (io_data s) = unat (block_size s)"
    using io_rep_facts(2,4) [OF assms] by (auto simp: io_ok_def io_data_def)
  then show ?thesis
    using io_rep_put [OF assms, of 0 "replicate (unat (block_size s)) 0"] by (auto simp: io_clear_def)
qed

text \<open>The end of an allocation, once the bit is set.\<close>

lemma finish_block_rep:
  assumes rep: "io_rep s (B(bitmap_block s g := mark_used (B (bitmap_block s g)) i))" and ok: "alloc_ok s B" and free: "bit_free s B g i"
    and bg: "unat bg = g"
  shows "\<exists>first s1 s2 s3 s4. sb_field s_first_data_block s = Some first
    \<and> unat (bg * blocks_per_group s + of_nat i + first) = block_number s g i
    \<and> update_sb (\<lambda>sb. sb\<lparr>s_free_blocks_count := s_free_blocks_count sb - 1\<rparr>) s = Some s1
    \<and> update_group bg (\<lambda>g. g\<lparr>bg_free_blocks_count := bg_free_blocks_count g - 1\<rparr>) s1 = Some s2
    \<and> io_clear s2 = Some s3 \<and> write_io dev (drive_index s) (bg * blocks_per_group s + of_nat i + first) s3 = Some (True, s4)
    \<and> io_rep s4 (take_block s g i B) \<and> same_layout s s4"
proof -
  obtain q sb where sb: "superblock s = Some (q, sb)" using ok by (auto simp: alloc_ok_def)
  let ?n = "bg * blocks_per_group s + of_nat i + s_first_data_block sb"
  have lt: "block_number s g i < nblocks s" "g < unat (groups_count s)" using ok free by (auto simp: alloc_ok_def bit_free_def)
  have "?n = of_nat (block_number s g i)" by (simp add: block_number_def sb bg [symmetric])
  then have n: "unat ?n = block_number s g i" using lt(1) nblocks_le [of s] by (simp add: unat_of_nat)
  let ?B = "B(bitmap_block s g := mark_used (B (bitmap_block s g)) i)"
  let ?f = "\<lambda>sb. sb\<lparr>s_free_blocks_count := s_free_blocks_count sb - 1\<rparr>" and ?h = "\<lambda>g. g\<lparr>bg_free_blocks_count := bg_free_blocks_count g - 1\<rparr>"
  have "unat bg < unat (groups_count s)" using lt(2) by (simp add: bg)
  from free_counts_rep [OF rep ok this, of ?f ?h] obtain s1 s2 where
    2: "update_sb ?f s = Some s1" "update_group bg ?h s1 = Some s2" "io_rep s2 ?B" "same_layout s s2" by auto
  obtain s3 where 3: "io_clear s2 = Some s3" "io_rep s3 ?B" "same_meta s2 s3" "io_data s3 = replicate (unat (block_size s2)) 0"
    using io_clear_rep [OF 2(3)] by blast
  note lay = same_layout_trans [OF 2(4) same_meta_layout [OF 3(3)]]
  have "unat ?n < nblocks s3" using lt(1) by (simp add: n same_layout_facts(3) [OF lay ok])
  from write_io_rep [OF 3(2) this] obtain s4 where
    4: "write_io dev (drive_index s3) ?n s3 = Some (True, s4)" "io_rep s4 (?B(unat ?n := io_data s3))" "same_meta s3 s4" by blast
  have "?B(unat ?n := io_data s3) = take_block s g i B" using 2(4) by (simp add: take_block_def n 3(4) same_layout_def)
  moreover have "drive_index s3 = drive_index s" using lay by (simp add: same_layout_def)
  ultimately show ?thesis
    using 2(1,2) 3(1) 4 n same_layout_trans [OF lay same_meta_layout [OF 4(3)]] by (simp add: sb_field_def sb)
qed

lemma allocate_block_from_rep:
  assumes "io_rep s B" and "alloc_ok s B" and "g + k = unat (groups_count s)"
  shows "\<exists>r s' B'. allocate_block_from dev (drive_index s) k (of_nat g) s = Some (r, s') \<and> io_rep s' B' \<and> same_layout s s' \<and> allocated s B r B'"
  using assms
proof (induction k arbitrary: g s)
  case 0
  then show ?case by (auto simp: allocated_def same_layout_def)
next
  case (Suc k)
  obtain p gs where gs: "group_descs s = Some (p, gs)" "unat (groups_count s) \<le> length gs" using Suc.prems(2) by (auto simp: alloc_ok_def)
  have "unat (groups_count s) < 2 ^ 32" using unsigned_less [of "groups_count s", where ?'a = nat] by simp
  then have bg: "unat (of_nat g :: u32) = g" using Suc.prems(3) by (simp add: unat_of_nat)
  have g: "g < unat (groups_count s)" "Suc g + k = unat (groups_count s)" using Suc.prems(3) by simp_all
  have gd: "group_desc (of_nat g) s = Some (gs ! g)" using gs g(1) by (simp add: group_desc_def bg)
  have bm: "unat (bg_block_bitmap (gs ! g)) = bitmap_block s g" by (simp add: bitmap_block_def gs)
  have lt: "bitmap_block s g < nblocks s" using Suc.prems(2) g(1) by (simp add: alloc_ok_def)
  show ?case
  proof (cases "bg_free_blocks_count (gs ! g) = 0")
    case True
    then show ?thesis using Suc.IH [OF Suc.prems(1,2) g(2)] gd by (simp add: add.commute)
  next
    case False
    have "unat (bg_block_bitmap (gs ! g)) < nblocks s" using lt by (simp add: bm)
    from take_bit_rep [OF Suc.prems(1) this, unfolded bm] obtain r s1 B1 where
      1: "take_bit_in dev (drive_index s) (bg_block_bitmap (gs ! g)) s = Some (r, s1)" "io_rep s1 B1" "same_meta s s1"
        "r = Skip \<and> B1 = B \<or> (\<exists>n < 8 * length (B (bitmap_block s g)). r = Found n \<and> \<not> page_used (B (bitmap_block s g)) n
           \<and> B1 = B(bitmap_block s g := mark_used (B (bitmap_block s g)) n))" by blast
    note lay = same_layout_facts [OF same_meta_layout [OF 1(3)] Suc.prems(2)]
    have same: "drive_index s1 = drive_index s" "groups_count s1 = groups_count s" "blocks_per_group s1 = blocks_per_group s"
      "block_size s1 = block_size s" by (simp_all add: same_meta_fields [OF 1(3)])
    show ?thesis using 1(4)
    proof
      assume skip: "r = Skip \<and> B1 = B"
      then obtain r' s' B' where "allocate_block_from dev (drive_index s) k (of_nat (Suc g)) s1 = Some (r', s')" "io_rep s' B'"
        "same_layout s1 s'" "allocated s1 B r' B'"
        using Suc.IH [of s1 "Suc g"] 1(2) lay(6) g(2) by (auto simp: same)
      moreover have "allocated s1 B = allocated s B" by (rule allocated_layout [OF same_meta_layout [OF 1(3)] Suc.prems(2)])
      ultimately show ?thesis using skip gd False 1(1) same_layout_trans [OF same_meta_layout [OF 1(3)]] by (auto simp: add.commute)
    next
      assume "\<exists>n < 8 * length (B (bitmap_block s g)). r = Found n \<and> \<not> page_used (B (bitmap_block s g)) n
           \<and> B1 = B(bitmap_block s g := mark_used (B (bitmap_block s g)) n)"
      then obtain n where n: "n < 8 * length (B (bitmap_block s g))" "r = Found n" "\<not> page_used (B (bitmap_block s g)) n"
        "B1 = B(bitmap_block s g := mark_used (B (bitmap_block s g)) n)" by blast
      have "length (B (bitmap_block s g)) = unat (block_size s)" by (rule block_length [OF io_rep_facts(1) [OF Suc.prems(1)] lt])
      then have free: "bit_free s B g n" using n(1,3) g(1) by (simp add: bit_free_def)
      have "io_rep s1 (B(bitmap_block s1 g := mark_used (B (bitmap_block s1 g)) n))" "bit_free s1 B g n"
        using 1(2) n(4) free by (simp_all add: lay(1) [OF g(1)] lay(4))
      from finish_block_rep [OF this(1) lay(6) this(2) bg] obtain first s2 s3 s4 s5 where
        f: "sb_field s_first_data_block s1 = Some first" "unat (of_nat g * blocks_per_group s1 + of_nat n + first) = block_number s1 g n"
          "update_sb (\<lambda>sb. sb\<lparr>s_free_blocks_count := s_free_blocks_count sb - 1\<rparr>) s1 = Some s2"
          "update_group (of_nat g) (\<lambda>g. g\<lparr>bg_free_blocks_count := bg_free_blocks_count g - 1\<rparr>) s2 = Some s3"
          "io_clear s3 = Some s4" "write_io dev (drive_index s1) (of_nat g * blocks_per_group s1 + of_nat n + first) s4 = Some (True, s5)"
          "io_rep s5 (take_block s1 g n B)" "same_layout s1 s5" by blast
      have "allocate_block_from dev (drive_index s) (Suc k) (of_nat g) s = Some (of_nat g * blocks_per_group s1 + of_nat n + first, s5)"
        using gd False 1(1) n(2) f(1,3-6) by (simp add: same(1))
      moreover have "allocated s B (of_nat g * blocks_per_group s1 + of_nat n + first) (take_block s1 g n B)"
        unfolding allocated_layout [OF same_meta_layout [OF 1(3)] Suc.prems(2), symmetric] allocated_def
        using f(2) \<open>bit_free s1 B g n\<close> by blast
      ultimately show ?thesis using f(7) same_layout_trans [OF same_meta_layout [OF 1(3)] f(8)] by blast
    qed
  qed
qed

end

section \<open>Property\<close>

lemma allocate_block_rep:
  assumes rep: "ext2_fs.io_rep lat b h0 dev s B" and ok: "alloc_ok s B"
  shows "\<exists>r s' B'. ext2_allocate_block dev (drive_index s) s = Some (r, s') \<and> ext2_fs.io_rep lat b h0 dev s' B'
    \<and> same_layout s s' \<and> allocated s B r B'"
proof -
  have m: "mounted s" by (rule ext2_fs.io_rep_facts(3) [OF rep])
  obtain q sb where sb: "superblock s = Some (q, sb)" using ok by (auto simp: alloc_ok_def)
  show ?thesis
  proof (cases "s_free_blocks_count sb = 0")
    case True
    then have "ext2_allocate_block dev (drive_index s) s = Some (0, s)" using m sb by (simp add: ext2_allocate_block_def sb_field_def)
    then show ?thesis using rep by (auto simp: allocated_def same_layout_def)
  next
    case False
    then have "ext2_allocate_block dev (drive_index s) s = allocate_block_from dev (drive_index s) (unat (groups_count s)) (of_nat 0) s"
      using m sb by (simp add: ext2_allocate_block_def sb_field_def)
    then show ?thesis using ext2_fs.allocate_block_from_rep [OF rep ok, of 0] by simp
  qed
qed

lemma allocated_facts:
  assumes ok: "alloc_ok s B" and al: "allocated s B r B'" and len: "\<forall>m < nblocks s. length (B m) = unat (block_size s)"
  shows "alloc_ok s B'" "free_blocks s B' = free_blocks s B - unat ` ({r} - {0})" "unat ` ({r} - {0}) \<subseteq> free_blocks s B"
    "m \<notin> bitmap_block s ` {..<unat (groups_count s)} \<Longrightarrow> B' m = (if m \<in> unat ` ({r} - {0}) then replicate (unat (block_size s)) 0 else B m)"
proof -
  have "alloc_ok s B' \<and> free_blocks s B' = free_blocks s B - unat ` ({r} - {0}) \<and> unat ` ({r} - {0}) \<subseteq> free_blocks s B
    \<and> (m \<notin> bitmap_block s ` {..<unat (groups_count s)} \<longrightarrow> B' m = (if m \<in> unat ` ({r} - {0}) then replicate (unat (block_size s)) 0 else B m))"
  proof (cases "r = 0 \<and> B' = B")
    case True
    then show ?thesis using ok by simp
  next
    case False
    then obtain g i where gi: "bit_free s B g i" "unat r = block_number s g i" "B' = take_block s g i B" using al by (auto simp: allocated_def)
    have g: "g < unat (groups_count s)" "bitmap_block s g < nblocks s" "0 < block_number s g i"
      using ok gi(1) by (auto simp: alloc_ok_def bit_free_def)
    then have "r \<noteq> 0" using gi(2) by (intro notI) simp
    then have r: "unat ` ({r} - {0}) = {block_number s g i}" using gi(2) by simp
    have "B' m = (if m = block_number s g i then replicate (unat (block_size s)) 0 else B m)"
      if "m \<notin> bitmap_block s ` {..<unat (groups_count s)}" using that g(1) by (auto simp: gi(3) take_block_def)
    moreover have "block_number s g i \<in> free_blocks s B" using gi(1) unfolding free_blocks_def by blast
    ultimately show ?thesis using take_block_free(2,3) [OF ok gi(1) len [rule_format, OF g(2)]] unfolding r gi(3) by simp
  qed
  then show "alloc_ok s B'" "free_blocks s B' = free_blocks s B - unat ` ({r} - {0})" "unat ` ({r} - {0}) \<subseteq> free_blocks s B"
    "m \<notin> bitmap_block s ` {..<unat (groups_count s)} \<Longrightarrow> B' m = (if m \<in> unat ` ({r} - {0}) then replicate (unat (block_size s)) 0 else B m)"
    by simp_all
qed

fun allocate_many :: "device \<Rightarrow> nat \<Rightarrow> ext2_state \<Rightarrow> (u32 list \<times> ext2_state) option" where
  "allocate_many dev 0 s = Some ([], s)"
| "allocate_many dev (Suc k) s = do {
     (n, s) \<leftarrow> ext2_allocate_block dev (drive_index s) s;
     (ns, s) \<leftarrow> allocate_many dev k s;
     Some (n # ns, s)
   }"

text \<open>
  \<^bold>\<open>C8\<close>. Allocations of blocks on a drive that follows the ATA protocol. Each of any number of allocations returns;
  the blocks they give, 0 for a failure apart, are different blocks, were free before and are marked as used in the
  bitmaps afterwards; every other free block stays free; and no block changes except the bitmaps and the allocated
  blocks, which are cleared.
\<close>

theorem ext2_allocations_disjoint:
  assumes "block_rep lat b h0 dev s B" and "io_ok s" and "alloc_ok s B"
  shows "\<exists>ns s' B'. allocate_many dev k s = Some (ns, s') \<and> block_rep lat b h0 dev s' B' \<and> io_ok s' \<and> alloc_ok s' B'
    \<and> distinct (filter (\<lambda>n. n \<noteq> 0) ns) \<and> unat ` (set ns - {0}) \<subseteq> free_blocks s B
    \<and> free_blocks s' B' = free_blocks s B - unat ` (set ns - {0})
    \<and> (\<forall>m. m \<notin> bitmap_block s ` {..<unat (groups_count s)} \<longrightarrow>
          B' m = (if m \<in> unat ` (set ns - {0}) then replicate (unat (block_size s)) 0 else B m))"
  using assms
proof (induction k arbitrary: s B)
  case (Suc k)
  have "ext2_fs.io_rep lat b h0 dev s B" using Suc.prems by (simp add: ext2_fs.io_rep_def)
  from allocate_block_rep [OF this Suc.prems(3)] obtain r s1 B1 where 1: "ext2_allocate_block dev (drive_index s) s = Some (r, s1)"
    "block_rep lat b h0 dev s1 B1" "io_ok s1" "same_layout s s1" "allocated s B r B1" by (auto simp: ext2_fs.io_rep_def)
  have len: "\<forall>m < nblocks s. length (B m) = unat (block_size s)" using block_rep_length [OF Suc.prems(1)] by blast
  note f = allocated_facts [OF Suc.prems(3) 1(5) len]
  note lay = same_layout_facts [OF 1(4) f(1)]
  have bm: "bitmap_block s1 ` {..<unat (groups_count s1)} = bitmap_block s ` {..<unat (groups_count s)}" "block_size s1 = block_size s"
    using 1(4) lay(1) by (auto simp: same_layout_def intro!: image_cong)
  obtain ns s' B' where
    2: "allocate_many dev k s1 = Some (ns, s')" "block_rep lat b h0 dev s' B'" "io_ok s'" "alloc_ok s' B'"
      "distinct (filter (\<lambda>n. n \<noteq> 0) ns)" "unat ` (set ns - {0}) \<subseteq> free_blocks s B - unat ` ({r} - {0})"
      "free_blocks s' B' = free_blocks s B - unat ` ({r} - {0}) - unat ` (set ns - {0})"
      "\<forall>m. m \<notin> bitmap_block s ` {..<unat (groups_count s)} \<longrightarrow>
          B' m = (if m \<in> unat ` (set ns - {0}) then replicate (unat (block_size s)) 0 else B1 m)"
    using Suc.IH [OF 1(2,3) lay(6)] unfolding lay(5) f(2) bm by (elim exE conjE) (rule that; assumption)
  have set: "unat ` (set (r # ns) - {0}) = unat ` ({r} - {0}) \<union> unat ` (set ns - {0})" by auto
  have "distinct (filter (\<lambda>n. n \<noteq> 0) (r # ns))" using 2(5,6) by auto
  moreover have "unat ` (set (r # ns) - {0}) \<subseteq> free_blocks s B" unfolding set using 2(6) f(3) by blast
  moreover have "free_blocks s' B' = free_blocks s B - unat ` (set (r # ns) - {0})" unfolding set 2(7) by blast
  moreover have "\<forall>m. m \<notin> bitmap_block s ` {..<unat (groups_count s)} \<longrightarrow>
      B' m = (if m \<in> unat ` (set (r # ns) - {0}) then replicate (unat (block_size s)) 0 else B m)"
    unfolding set using 2(8) f(4) by simp
  moreover have "allocate_many dev (Suc k) s = Some (r # ns, s')" using 1(1) 2(1) by simp
  ultimately show ?case using 2(2-4) by (intro exI [of _ "r # ns"] exI [of _ s'] exI [of _ B'] conjI)
qed auto

text \<open>A disk whose bitmap, block 3, has its first eight blocks in use.\<close>

definition bitmap_image :: "nat \<Rightarrow> u16 list" where
  "bitmap_image n = (if n = 6 then 0x00FF # replicate 255 0 else replicate 256 0)"

lemma bitmap_image_ok:
  "io_ok (demo_mounted [])" "alloc_ok (demo_mounted []) (image_block bitmap_image)"
  "block_rep (\<lambda>_. 3) 0x1F0 (image_hd bitmap_image) (image_device bitmap_image) (demo_mounted []) (image_block bitmap_image)"
proof -
  let ?s = "demo_mounted []"
  show "block_rep (\<lambda>_. 3) 0x1F0 (image_hd bitmap_image) (image_device bitmap_image) ?s (image_block bitmap_image)"
    by (rule demo_mounted_rep) (simp add: bitmap_image_def)
  show "io_ok ?s" by (rule demo_mounted_ok(1))
  have s: "unat (groups_count ?s) = 1" "bitmap_block ?s 0 = 3" "unat (blocks_per_group ?s) = 8192" "unat (block_size ?s) = 1024"
    "nblocks ?s = 134217728" "block_number ?s 0 i = i + 1" for i
    by (simp_all add: bitmap_block_def block_number_def demo_mounted_def demo_fs_def demo_group_def demo_super_def nblocks_def)
  have "image_block bitmap_image 3 ! 0 = 0xFF"
    by (simp add: image_block_def bitmap_image_def bytes_of_words_def)
  then have used: "page_used (image_block bitmap_image 3) i" if "i < 8" for i
    using that by (simp add: page_used_bit) (auto simp: bit_simps less_Suc_eq numeral_eq_Suc)
  have "i < 8192 \<and> 0 < block_number ?s g i \<and> block_number ?s g i < 134217728 \<and> block_number ?s g i \<notin> bitmap_block ?s ` {..<1}"
    if "bit_free ?s (image_block bitmap_image) g i" for g i
  proof -
    have g: "g = 0" "i < 8192" using that by (simp_all add: bit_free_def s)
    have "8 \<le> i" using that used [of i] by (cases "i < 8") (auto simp: bit_free_def s)
    then show ?thesis using g(2) by (simp add: g(1) s lessThan_Suc)
  qed
  moreover have "superblock ?s \<noteq> None" "\<exists>p gs. group_descs ?s = Some (p, gs) \<and> 1 \<le> length gs" by (simp_all add: demo_mounted_def)
  ultimately show "alloc_ok ?s (image_block bitmap_image)"
    unfolding alloc_ok_def s(1,3,5) by (auto simp: s(2) inj_on_def)
qed

theorem ext2_allocations_disjoint_witness:
  "\<exists>ns s'. allocate_many (image_device bitmap_image) 5 (demo_mounted []) = Some (ns, s') \<and> distinct (filter (\<lambda>n. n \<noteq> 0) ns)"
  using ext2_allocations_disjoint [OF bitmap_image_ok(3,1,2), of 5] by blast

end
