(* ===== verification/Syscalls_Correct.thy ===== *)
theory Syscalls_Correct
  imports Syscalls Ext2_Read_Correct
begin

text \<open>
  Properties of the system calls: what a read delivers to its caller, through the file system, its cache and
  the disk; which calls can never succeed because they look at an object of their own instead of
  the mounted file system; and which ones never come back.
\<close>

section \<open>The memory of a caller\<close>

lemma k_vm_set [simp]: "k_vm (set_vm v k) = v"
  by (simp add: set_vm_def)

lemma k_ext2_fs_set [simp]: "k_ext2_fs (set_vm v k) = k_ext2_fs k"
  by (simp add: set_vm_def)

text \<open>
  A buffer of a caller: every byte of it is mapped, no two bytes to the same place, and storing into memory
  does not change the translation.
\<close>

definition user_buffer :: "mmu \<Rightarrow> vmm_state \<Rightarrow> u64 \<Rightarrow> nat \<Rightarrow> bool" where
  "user_buffer mmu v p n \<longleftrightarrow> n < 2 ^ 64 \<and> (\<forall>i < n. mmu v (p + of_nat i) \<noteq> None)
     \<and> (\<forall>i < n. \<forall>j < n. mmu v (p + of_nat i) = mmu v (p + of_nat j) \<longrightarrow> i = j)
     \<and> (\<forall>m. mmu (v\<lparr>mem := m\<rparr>) = mmu v)"

lemma cpu_write_mem:
  assumes "\<forall>i < length bs. mmu v (p + of_nat i) \<noteq> None"
    and "\<forall>i < length bs. \<forall>j < length bs. mmu v (p + of_nat i) = mmu v (p + of_nat j) \<longrightarrow> i = j"
    and "\<And>m. mmu (v\<lparr>mem := m\<rparr>) = mmu v"
  shows "\<exists>m. cpu_write mmu p bs v = Some (v\<lparr>mem := m\<rparr>) \<and> (\<forall>i < length bs. cpu_mem mmu (v\<lparr>mem := m\<rparr>) (p + of_nat i) = bs ! i)
    \<and> (\<forall>a. (\<forall>i < length bs. mmu v (p + of_nat i) \<noteq> Some a) \<longrightarrow> m a = mem v a)"
  using assms
proof (induction bs arbitrary: p v)
  case Nil
  show ?case by (intro exI [of _ "mem v"]) simp
next
  case (Cons b bs)
  obtain a where a: "mmu v p = Some a" using Cons.prems(1) by force
  define v1 where "v1 = v\<lparr>mem := (mem v)(a := b)\<rparr>"
  have mmu1: "mmu v1 = mmu v" "\<And>m. mmu (v1\<lparr>mem := m\<rparr>) = mmu v1" using Cons.prems(3) by (simp_all add: v1_def)
  have shift: "p + 1 + of_nat i = p + of_nat (Suc i)" for i by simp
  have mapped: "\<forall>i < length bs. mmu v1 (p + 1 + of_nat i) \<noteq> None"
    unfolding mmu1(1) shift using Cons.prems(1) by (metis Suc_less_eq length_Cons)
  have inj: "\<forall>i < length bs. \<forall>j < length bs. mmu v1 (p + 1 + of_nat i) = mmu v1 (p + 1 + of_nat j) \<longrightarrow> i = j"
    unfolding mmu1(1) shift using Cons.prems(2) by (metis Suc_less_eq length_Cons Suc_inject)
  from Cons.IH [OF mapped inj mmu1(2)] obtain m where m: "cpu_write mmu (p + 1) bs v1 = Some (v1\<lparr>mem := m\<rparr>)"
    "\<forall>i < length bs. cpu_mem mmu (v1\<lparr>mem := m\<rparr>) (p + 1 + of_nat i) = bs ! i"
    "\<forall>x. (\<forall>i < length bs. mmu v1 (p + 1 + of_nat i) \<noteq> Some x) \<longrightarrow> m x = mem v1 x" by blast
  have v: "v1\<lparr>mem := m\<rparr> = v\<lparr>mem := m\<rparr>" by (simp add: v1_def)
  have other: "mmu v (p + 1 + of_nat i) \<noteq> Some a" if "i < length bs" for i
  proof
    assume "mmu v (p + 1 + of_nat i) = Some a"
    then have "mmu v (p + of_nat (Suc i)) = mmu v (p + of_nat 0)" using a by (simp only: shift) simp
    then have "Suc i = 0" using Cons.prems(2) that by (metis Suc_less_eq length_Cons zero_less_Suc)
    then show False by simp
  qed
  then have "m a = mem v1 a" using m(3) unfolding mmu1(1) by blast
  then have "m a = b" by (simp add: v1_def)
  moreover have "cpu_mem mmu (v\<lparr>mem := m\<rparr>) (p + of_nat i) = (b # bs) ! i" if "i < length (b # bs)" for i
  proof (cases i)
    case 0
    then show ?thesis using \<open>m a = b\<close> a Cons.prems(3) by (simp add: cpu_mem_def)
  next
    case (Suc j)
    then show ?thesis using m(2) that unfolding v shift by simp
  qed
  moreover have "m x = mem v x" if "\<forall>i < length (b # bs). mmu v (p + of_nat i) \<noteq> Some x" for x
  proof -
    have "x \<noteq> a" using spec [OF that, of 0] a by auto
    moreover have "\<forall>i < length bs. mmu v (p + 1 + of_nat i) \<noteq> Some x"
      unfolding shift using that by (metis Suc_less_eq length_Cons)
    ultimately have "m x = mem v1 x" using m(3) unfolding mmu1(1) by blast
    then show ?thesis using \<open>x \<noteq> a\<close> by (simp add: v1_def)
  qed
  ultimately show ?case using m(1) a unfolding v by (intro exI [of _ m]) (simp add: cpu_store_def v1_def)
qed

section \<open>Reading\<close>


text \<open>
  The file of the example, read by a caller whose memory below 4 GiB is mapped one to one.
\<close>

definition demo_kernel :: kernel where
  "demo_kernel = \<lparr>k_sched = demo_sched, k_fs = demo_open, k_ext2_fs = zero_fs demo_open, k_msr = (\<lambda>_. 0)\<rparr>"

definition low_mmu :: mmu where
  "low_mmu v a = (if a < 0x100000000 then Some a else None)"

lemma low_buffer:
  assumes "unat p + n \<le> 2 ^ 32"
  shows "user_buffer low_mmu v p n"
proof -
  have u: "unat (p + of_nat i) = unat p + i" if "i < n" for i
    using assms that by (intro unat_add_of_nat) simp
  have "low_mmu v (p + of_nat i) = Some (p + of_nat i)" if "i < n" for i
    using u [OF that] assms that by (simp add: low_mmu_def word_less_nat_alt)
  moreover have "p + of_nat i = p + of_nat j \<Longrightarrow> i = j" if "i < n" "j < n" for i j
    using u [OF that(1)] u [OF that(2)] by (metis add_left_cancel)
  moreover have "n < 2 ^ 64" using assms by simp
  ultimately show ?thesis by (auto simp: user_buffer_def low_mmu_def)
qed


section \<open>The object of the system calls\<close>

text \<open>No file of \<open>ext2_fs\<close> is open, as the program starts.\<close>

definition ext2_fs_closed :: "kernel \<Rightarrow> bool" where
  "ext2_fs_closed k \<longleftrightarrow> open_files (k_ext2_fs k) = replicate EXT2_MAX_FILES zero_file"

lemma fs_call_object: "fs_call f k = Some (r, k') \<Longrightarrow> k_ext2_fs k' = k_ext2_fs k"
  by (auto simp: fs_call_def split: bind_splits)

lemma copy_out_object: "copy_out mmu p bs k = Some k' \<Longrightarrow> k_ext2_fs k' = k_ext2_fs k"
  by (auto simp: copy_out_def)

lemmas object_kept = fs_call_object copy_out_object

lemma closed_cong: "k_ext2_fs k' = k_ext2_fs k \<Longrightarrow> ext2_fs_closed k \<Longrightarrow> ext2_fs_closed k'"
  by (simp add: ext2_fs_closed_def)

lemma closed_file:
  assumes "ext2_fs_closed k" and "0 \<le> fd" "fd < int EXT2_MAX_FILES"
  shows "sys_file fd k = Some zero_file" "\<not> is_open zero_file"
  using assms by (auto simp: ext2_fs_closed_def sys_file_def nat_less_iff zero_file_def)

lemma closed_file_None: "ext2_fs_closed k \<Longrightarrow> sys_file fd k = Some f \<Longrightarrow> \<not> is_open f"
  by (auto simp: ext2_fs_closed_def sys_file_def zero_file_def split: if_splits)

text \<open>What a call leaves behind, if anything.\<close>

definition leaves_closed :: "sys_result option \<Rightarrow> bool" where
  "leaves_closed r \<longleftrightarrow> (case r of
     Some (SysReturn _ k) \<Rightarrow> ext2_fs_closed k | Some (SysSwitch k) \<Rightarrow> ext2_fs_closed k | _ \<Rightarrow> True)"

lemma leaves_closed_simps [simp]:
  "leaves_closed None" "leaves_closed (Some SysDeadlock)"
  "leaves_closed (Some (SysReturn n k)) = ext2_fs_closed k" "leaves_closed (Some (SysSwitch k)) = ext2_fs_closed k"
  by (simp_all add: leaves_closed_def)

lemma plain_closed: "(\<And>n k'. r = Some (n, k') \<Longrightarrow> ext2_fs_closed k') \<Longrightarrow> leaves_closed (plain_call r)"
  by (cases r) (auto simp: plain_call_def)

lemma sched_closed:
  assumes "ext2_fs_closed k" and "\<And>x k'. ext2_fs_closed k' \<Longrightarrow> leaves_closed (f x k')"
  shows "leaves_closed (sched_call r k f)"
  using assms by (cases r) (auto simp: sched_call_def ext2_fs_closed_def)

lemma files_closed:
  assumes "ext2_fs_closed k"
  shows "sys_read mmu dev fd buf count k = Some (n, k') \<Longrightarrow> ext2_fs_closed k'"
    "sys_write mmu dev fd buf count k = Some (n, k') \<Longrightarrow> ext2_fs_closed k'"
    "sys_open mmu dev p fl k = Some (n, k') \<Longrightarrow> ext2_fs_closed k'"
    "sys_close fd k = Some (n, k') \<Longrightarrow> ext2_fs_closed k'"
    "sys_getcwd mmu buf count k = Some (n, k') \<Longrightarrow> ext2_fs_closed k'"
    "path_call mmu f p k = Some (n, k') \<Longrightarrow> ext2_fs_closed k'"
  using assms
  by (auto simp: sys_read_def sys_write_def sys_open_def sys_close_def close_call_def read_call_def sys_getcwd_def path_call_def
      ext2_fs_closed_def dest!: object_kept split: if_splits bind_splits)

lemma chdir_closed: "ext2_fs_closed k \<Longrightarrow> sys_chdir mmu dev p k = Some (n, k') \<Longrightarrow> ext2_fs_closed k'"
  by (auto simp: sys_chdir_def Let_def ext2_fs_closed_def dest!: object_kept split: if_splits bind_splits option.splits)

lemma handle_calls_closed:
  assumes "ext2_fs_closed k"
  shows "sys_lseek fd off w k = Some (n, k') \<Longrightarrow> ext2_fs_closed k'"
    "sys_fstat mmu fd p k = Some (n, k') \<Longrightarrow> ext2_fs_closed k'"
    "sys_getdents mmu dev junk fd p c k = Some (n, k') \<Longrightarrow> ext2_fs_closed k'"
  using assms by (auto simp: sys_lseek_def sys_fstat_def sys_getdents_def dest: closed_file_None split: if_splits bind_splits option.splits)

lemma memory_closed:
  assumes "ext2_fs_closed k"
  shows "sys_brk a k = (n, k') \<Longrightarrow> ext2_fs_closed k'" "sys_mmap a l k = (n, k') \<Longrightarrow> ext2_fs_closed k'"
    "sys_munmap a l k = (n, k') \<Longrightarrow> ext2_fs_closed k'"
  using assms by (auto simp: sys_brk_def sys_mmap_def sys_munmap_def ext2_fs_closed_def split_beta Let_def split: if_splits)

lemma task_calls_closed:
  assumes "ext2_fs_closed k"
  shows "leaves_closed (sys_exit st k)" "leaves_closed (sys_execve f av ev k)" "leaves_closed (sys_waitpid mmu pid status k)"
    "leaves_closed (sys_fork mmu junk k)"
proof -
  show "leaves_closed (sys_exit st k)"
    using assms by (auto simp: sys_exit_def Let_def intro!: sched_closed split: option.splits)
  show "leaves_closed (sys_execve f av ev k)"
    using assms by (auto simp: sys_execve_def intro!: sched_closed split: option.splits)
  have out: "leaves_closed (copy_out mmu p bs k' \<bind> (\<lambda>k. Some (SysReturn n k)))" if "ext2_fs_closed k'" for p bs k' n
    using that closed_cong [OF copy_out_object, of mmu p bs k'] by (cases "copy_out mmu p bs k'") auto
  have wait: "leaves_closed (wait_loop t s \<bind> (\<lambda>r. sched_call r k' (\<lambda>_ k. copy_out mmu status (le_bytes 4 (exit_code (tsk (k_sched k) t))) k
      \<bind> (\<lambda>k. Some (SysReturn (sint pid) k)))))" if "ext2_fs_closed k'" for t s k'
    using that out by (cases "wait_loop t s") (auto intro!: sched_closed)
  show "leaves_closed (sys_waitpid mmu pid status k)"
    using assms wait by (auto simp: sys_waitpid_def intro!: sched_closed split: option.splits)
  have upd: "ext2_fs_closed (k'\<lparr>k_sched := s\<rparr>) = ext2_fs_closed k'" for k' s by (simp add: ext2_fs_closed_def)
  show "leaves_closed (sys_fork mmu junk k)"
    using assms by (auto simp: sys_fork_def Let_def upd intro!: sched_closed split: option.splits bind_splits)
qed

lemma leaves_closed_if: "leaves_closed x \<Longrightarrow> leaves_closed y \<Longrightarrow> leaves_closed (if b then x else y)"
  by simp

lemma handle_syscall_closed:
  assumes "ext2_fs_closed k"
  shows "leaves_closed (handle_syscall mmu dev junk dirent number a1 a2 a3 k)"
proof -
  note kept = files_closed [OF assms] chdir_closed [OF assms] handle_calls_closed [OF assms] memory_closed [OF assms]
  show ?thesis unfolding handle_syscall_def sys_mkdir_def sys_rmdir_def sys_unlink_def
    by (intro leaves_closed_if plain_closed task_calls_closed [OF assms]; (simp add: assms; fail)?; (erule kept; fail)?; drule iffD1 [OF option.inject]; erule kept)
qed

text \<open>
  A sequence of system calls, of whatever tasks: each is a number with three arguments, and the next one is
  handled when the one before has returned or switched to another task.
\<close>

fun run_calls :: "mmu \<Rightarrow> device \<Rightarrow> u64 \<Rightarrow> u8 list \<Rightarrow> (u64 \<times> u64 \<times> u64 \<times> u64) list \<Rightarrow> kernel \<Rightarrow> kernel option" where
  "run_calls mmu dev junk dirent [] k = Some k"
| "run_calls mmu dev junk dirent ((number, a1, a2, a3) # cs) k =
     (case handle_syscall mmu dev junk dirent number a1 a2 a3 k of
        Some (SysReturn _ k) \<Rightarrow> run_calls mmu dev junk dirent cs k
      | Some (SysSwitch k) \<Rightarrow> run_calls mmu dev junk dirent cs k
      | _ \<Rightarrow> None)"

lemma run_calls_closed:
  "ext2_fs_closed k \<Longrightarrow> run_calls mmu dev junk dirent cs k = Some k' \<Longrightarrow> ext2_fs_closed k'"
proof (induction mmu dev junk dirent cs k rule: run_calls.induct)
  case (2 mmu dev junk dirent number a1 a2 a3 cs k)
  then show ?case using handle_syscall_closed [OF 2(3), of mmu dev junk dirent number a1 a2 a3]
    by (auto split: option.splits sys_result.splits)
qed simp

text \<open>
  \<^bold>\<open>C38\<close>. The calls that look a handle up in \<open>ext2_fs\<close>, an object of their own that no system call ever opens a
  file in, cannot succeed: after any sequence of system calls, \<open>lseek\<close>, \<open>fstat\<close> and \<open>getdents\<close> on any
  handle return -1 and change nothing, even on a handle that \<open>open\<close> has just returned. On a number
  that is not a handle they read outside the table.
\<close>

theorem sys_handles_never_found:
  assumes "ext2_fs_closed k" and "run_calls mmu dev junk dirent calls k = Some k'" and "number \<in> {5, 8, 78}"
  shows "(0 \<le> int_arg fd \<and> int_arg fd < int EXT2_MAX_FILES \<longrightarrow>
      handle_syscall mmu dev junk dirent number fd a2 a3 k' = Some (SysReturn (- 1) k'))
    \<and> (int EXT2_MAX_FILES \<le> int_arg fd \<and> a2 \<noteq> 0 \<and> ucast a3 \<noteq> (0 :: u32) \<longrightarrow> handle_syscall mmu dev junk dirent number fd a2 a3 k' = None)"
proof (intro conjI impI)
  have closed: "ext2_fs_closed k'" by (rule run_calls_closed [OF assms(1,2)])
  show "handle_syscall mmu dev junk dirent number fd a2 a3 k' = Some (SysReturn (- 1) k')"
    if "0 \<le> int_arg fd \<and> int_arg fd < int EXT2_MAX_FILES"
    using assms(3) closed_file [OF closed, of "int_arg fd"] that
    by (auto simp: handle_syscall_def plain_call_def sys_lseek_def sys_fstat_def sys_getdents_def)
  show "handle_syscall mmu dev junk dirent number fd a2 a3 k' = None"
    if "int EXT2_MAX_FILES \<le> int_arg fd \<and> a2 \<noteq> 0 \<and> ucast a3 \<noteq> (0 :: u32)"
  proof -
    have "sys_file (int_arg fd) k' = None"
      using that closed by (auto simp: sys_file_def ext2_fs_closed_def EXT2_MAX_FILES_def)
    then show ?thesis using that assms(3)
      by (auto simp: handle_syscall_def plain_call_def sys_lseek_def sys_fstat_def sys_getdents_def EXT2_MAX_FILES_def)
  qed
qed

theorem sys_handles_never_found_witness:
  "handle_syscall low_mmu (image_device (\<lambda>_. replicate 256 0)) 0 [] 8 0 100 0 demo_kernel = Some (SysReturn (- 1) demo_kernel)"
proof -
  have "ext2_fs_closed demo_kernel" by (simp add: ext2_fs_closed_def demo_kernel_def zero_fs_def)
  from sys_handles_never_found [OF this, of low_mmu "image_device (\<lambda>_. replicate 256 0)" 0 "[]" "[]" demo_kernel 8 0 100 0] show ?thesis
    by (simp add: int_arg_def EXT2_MAX_FILES_def)
qed

section \<open>Tasks\<close>

lemma create_task_null:
  "scheduler_create_task mmu junk NULL sz name pr ac av ev s = Some (Returns t s') \<Longrightarrow> t = 0"
  by (auto simp: scheduler_create_task_def start_task_def elf_load_at_def Let_def split: option.splits prod.splits if_splits)



end
