(* ===== verification/ELF_File.thy ===== *)
theory ELF_File
  imports Kernel_Calls
begin

text \<open>
  Reading an ELF file from the file system, \<open>elf_parse_file\<close> of \<open>src/kernel/src/core/exec/elf.c\<close>. The buffer for
  the file is a run of frames whose physical address is used as a pointer. Neither the name of the file
  nor the structure is a null pointer: then the function returns false before it does anything.
\<close>

definition EXT2_O_RDONLY :: u32 where "EXT2_O_RDONLY = 0x0001"

text \<open>A header from its 64 bytes, and the number of pages for a number of bytes.\<close>

definition ehdr_of_bytes :: "u8 list \<Rightarrow> elf64_ehdr_t" where
  "ehdr_of_bytes bs = ehdr_at (\<lambda>a. bs ! unat a) 0"

definition pages_for :: "u64 \<Rightarrow> u64" where
  "pages_for sz = (sz + PAGE_SIZE_4K - 1) div PAGE_SIZE_4K"

definition alloc_call :: "u64 \<Rightarrow> kernel \<Rightarrow> u64 \<times> kernel" where
  "alloc_call sz k =
     (let (p, q) = pmm_alloc_pages (pages_for sz) (pmm (k_vm k)) in (p, set_vm ((k_vm k)\<lparr>pmm := q\<rparr>) k))"

definition free_call :: "u64 \<Rightarrow> u64 \<Rightarrow> kernel \<Rightarrow> kernel" where
  "free_call p sz k = set_vm ((k_vm k)\<lparr>pmm := pmm_free_pages p (pages_for sz) (pmm (k_vm k))\<rparr>) k"

text \<open>
  The loop that reads the file, with a buffer that grows by 64 KiB whenever it is full: the buffer and the
  number of bytes read, \<open>None\<close> when the buffer could not grow.
\<close>

partial_function (option) read_file_loop ::
  "mmu \<Rightarrow> device \<Rightarrow> int \<Rightarrow> u64 \<Rightarrow> u64 \<Rightarrow> u64 \<Rightarrow> kernel \<Rightarrow> ((u64 \<times> u64) option \<times> kernel) option" where
  "read_file_loop mmu dev fd file_data total_read buffer_size k = do {
     ((n, bs), k) \<leftarrow> read_call dev fd (buffer_size - total_read) k;
     k \<leftarrow> copy_out mmu (file_data + total_read) bs k;
     if n \<le> 0 then Some (Some (file_data, total_read), k)
     else do {
       let total_read = total_read + word_of_int n;
       if total_read < buffer_size then read_file_loop mmu dev fd file_data total_read buffer_size k
       else do {
         let new_size = buffer_size + 64 * 1024;
         let (new_data, k) = alloc_call new_size k;
         if new_data = NULL then Some (None, free_call file_data buffer_size k)
         else do {
           v \<leftarrow> cpu_memcpy mmu new_data file_data (unat total_read) (k_vm k);
           let k = free_call file_data buffer_size (set_vm v k);
           read_file_loop mmu dev fd new_data total_read new_size k
         }
       }
     }
   }"

text \<open>The part from the second time on that the file is opened.\<close>

definition parse_opened ::
  "mmu \<Rightarrow> device \<Rightarrow> int \<Rightarrow> elf_file_t \<Rightarrow> kernel \<Rightarrow> ((bool \<times> elf_file_t) \<times> kernel) option" where
  "parse_opened mmu dev fd elf k = do {
     let (file_data, k) = alloc_call (64 * 1024) k;
     if file_data = NULL then do { (_, k) \<leftarrow> close_call fd k; Some ((False, elf), k) }
     else do {
       (r, k) \<leftarrow> read_file_loop mmu dev fd file_data 0 (64 * 1024) k;
       (_, k) \<leftarrow> close_call fd k;
       case r of
         None \<Rightarrow> Some ((False, elf), k)
       | Some (file_data, total_read) \<Rightarrow>
           (case elf_parse_memory (cpu_mem mmu (k_vm k)) file_data total_read (Some elf) of
              (ok, elf') \<Rightarrow>
                Some ((ok, case elf' of None \<Rightarrow> elf | Some e \<Rightarrow> e), if ok then k else free_call file_data total_read k))
     }
   }"

definition elf_parse_file ::
  "mmu \<Rightarrow> device \<Rightarrow> u8 list \<Rightarrow> elf_file_t \<Rightarrow> kernel \<Rightarrow> ((bool \<times> elf_file_t) \<times> kernel) option" where
  "elf_parse_file mmu dev filename elf k = do {
     (fd, k) \<leftarrow> fs_call (ext2_open dev filename EXT2_O_RDONLY) k;
     if fd < 0 then Some ((False, elf), k)
     else do {
       ((header_bytes, bs), k) \<leftarrow> read_call dev fd ehdr_size k;
       if header_bytes \<noteq> uint ehdr_size \<or> \<not> elf_validate_header (ehdr_of_bytes bs)
       then do { (_, k) \<leftarrow> close_call fd k; Some ((False, elf), k) }
       else do {
         (_, k) \<leftarrow> close_call fd k;
         (fd, k) \<leftarrow> fs_call (ext2_open dev filename EXT2_O_RDONLY) k;
         if fd < 0 then Some ((False, elf), k) else parse_opened mmu dev fd elf k
       }
     }
   }"

end
