(* ===== verification/Spec2Isabelle.thy ===== *)
theory Spec2Isabelle
  imports ELF_Properties Task_Create Kernel_Entry Ext2_Path_Correct Ext2_Write_Correct Ext2_Alloc_Correct Syscalls_Correct ELF_File
begin

text \<open>
  \<^bold>\<open>A verification of the kernel of KronosOS\<close>

  KronosOS is a kernel in C for one x86-64 processor that a Limine boot loader starts. This development
  models the C code under \<open>src/kernel/src\<close>, function by function, as HOL functions and proves what
  they do. Each theory names its source file, and the definitions keep the names of the code.

  \<^bold>\<open>The parts of the program and how they interact.\<close> \<open>kmain\<close> (\<open>main.c\<close>) starts the log, the descriptor
  tables, the memory managers, the drivers, the file system, the system calls and the scheduler. The
  physical memory manager hands out frames; the virtual memory manager builds page tables in them; the
  ELF loader and the scheduler use both to give a program its memory and its stack. Interrupts go
  through the descriptor table and one dispatcher to the handlers that the timer, the keyboard and the
  mouse register, and are acknowledged at the interrupt controllers. The timer drives the scheduler. The
  ext2 file system reads and writes blocks through a cache and the ATA driver, which finds its
  controllers on the PCI bus. System calls connect tasks with the file system, memory and the scheduler.

  \<^bold>\<open>How the model relates to the code.\<close>
  \<^item> A structure is a \<open>record\<close>, an enumeration a \<open>datatype\<close>, an unsigned integer of \<open>n\<close> bits a word of that
    width with its wrap-around (\<open>u8\<close> to \<open>u64\<close>). The static variables of a source file are the record of its
    component, which the operations take and return.
  \<^item> A null pointer is the address 0 where addresses matter and \<open>None\<close> where an object is one of a few. A
    function result \<open>None\<close> is behaviour that the C standard or the processor does not let continue: an
    access outside an object, a division by zero, a page fault (the handler halts), or a loop without an
    end where the loop is a \<open>partial_function\<close>. That a function returns is then part of its theorem.
  \<^item> Loops are recursive functions over the loop variable; loops whose bound is visible are structural or
    have a termination proof, and a waiting loop of a driver counts the polls that the code counts.
    The remaining loops (\<open>file_read_loop\<close>, \<open>find_dir_loop\<close> and their kind) end because a file is finite.
  \<^item> A driver acts on ports. The accesses are a trace of events, and the device is a parameter that
    answers the reads from the trace so far (theory Port_IO); what a theorem needs of the hardware is a
    hypothesis about this parameter that says what the data sheet says: a UART that becomes ready
    (Serial), the ATA protocol as an automaton (ATA_Disk), configuration space (PCI).
  \<^item> Memory is a function from physical addresses to bytes (Memory). Accesses through a kernel pointer go
    through the translation of the processor, the parameter \<open>mmu\<close> (CPU_Access).
  \<^item> Log output is left out of every component but the log itself and the functions that only report.

  \<^bold>\<open>Theories and what their lemmas show.\<close>
  \<^item> Prelude, Memory, Bytes, Port_IO, CPU_Access: the shared vocabulary, with the facts on words, bits,
    lists, little endian numbers and buffers that the others use.
  \<^item> Strings and Strings_Correct: \<open>lib/string.c\<close>. Copies are right for every overlap; the operations on
    terminated strings are those on lists.
  \<^item> PMM, PMM_Correct, PMM_Properties: \<open>memory/pmm.c\<close>. The bitmap as a set of free frames; initialisation
    manages only usable memory; single allocations take the lowest frame, runs are first fit, and
    releases restore the bitmap; frames that are held never overlap. The locale \<open>frame_allocator\<close> is what
    the virtual memory manager relies on.
  \<^item> VMM, VMM_Walk, VMM_Correct, VMM_Range, VMM_Data, VMM_Properties: \<open>memory/vmm.c\<close>. The page tables as a
    tree, the software walks as lookups in it; mapping and unmapping change exactly their page and
    keep the invariant; ranges are mapped as a whole or not at all; frames with data keep their contents.
    Ranges are proved over the locales \<open>page_mapper\<close> and \<open>page_range\<close>.
  \<^item> PIC, Serial, Desc_Table, GDT, IDT, Timer, Keyboard, Mouse, Interrupts: \<open>drivers/\<close> and \<open>core/\<close>. What the
    drivers program into the devices; the state of the keyboard and the packets of the mouse as
    functions of the bytes received; every interrupt is acknowledged exactly once where it has to be,
    under every sequence of interrupts.
  \<^item> PCI, ATA, ATA_Disk: \<open>drivers/pci/pci.c\<close> and \<open>drivers/ata/ata.c\<close>. The scan of the bus; transfers of sectors
    against the automaton of the ATA protocol.
  \<^item> Scheduler, Ready_Queue, Scheduling, Task_Create: \<open>core/exec/scheduler.c\<close>. The linked ready queue is a FIFO
    queue; tasks take turns; and the operations that never return or always fail.
  \<^item> ELF, ELF_Correct, ELF_Unload, ELF_Properties, ELF_File: \<open>core/exec/elf.c\<close>. Which files are accepted, what
    memory a loaded program has, that unloading releases its frames, the search for symbols, and reading
    a file from the file system.
  \<^item> Stdio, Log: \<open>lib/stdio.c\<close> and \<open>utils/log.c\<close>. Formatting is the text of the format cut off to the buffer;
    the log sends its lines.
  \<^item> Reports: \<open>utils/sysinfo.c\<close> and the functions of other files that only print. Every report returns, the
    statistics are exact, and the dump of the page tables shows the mapping.
  \<^item> Ext2_Block, Ext2_Inode, Ext2_Dir, Ext2_File: \<open>fs/ext2.c\<close>, the whole driver, in the order of the file. Its
    state is \<open>ext2_state\<close>, with the state of the ATA driver and the free frames in it.
  \<^item> Ext2_Cache, Ext2_Store: the block layer. The locale \<open>sector_disk\<close> is what it relies on of a disk, with
    the ATA driver as its instance; the locale \<open>block_store\<close> is what everything above relies on, with the
    block layer and its cache as the instance. Every sequence of block accesses is that of a store.
  \<^item> Ext2_Inode_Correct, Ext2_Map_Correct, Ext2_Read_Correct, Ext2_Write_Correct, Ext2_Alloc_Correct, Ext2_Path_Correct: over
    \<open>block_store\<close>, inodes are an array, the block map is a function, a handle is a stream that can be read
    and, inside the file, overwritten (what a handle needs of the blocks of its file is the locale \<open>file_shape\<close>);
    allocations take blocks out of the free set of the bitmaps; paths are resolved on a stack of components.
  \<^item> Ext2_Frame, Ext2_Mount_Correct: every call of the file system keeps the types of its state, whatever the
    drive returns, by induction over the states that calls reach; mounting reads what the disk holds and
    establishes the store that \<open>block_store\<close> describes, and unmounting leaves the store on the disk.
  \<^item> Kernel_Calls, Syscalls, Syscalls_Correct: \<open>core/exec/syscalls.c\<close>. A read delivers the file to its caller,
    down to the sectors of the disk; and the calls that cannot succeed.
  \<^item> Boot_Traces, Kernel_Entry: \<open>main.c\<close>. Which ports the drivers access, so that they do not disturb each
    other, and \<open>kmain\<close> as a whole: it starts every component in its order and reaches its main loop.

  \<^bold>\<open>Bounds.\<close> No model has fuel. The numbers in the models are those of the code: 1000 polls of the ATA
  driver, 32 entries of the cache, 64 handles, 256 tasks, 48 gates. Hypotheses on sizes say that a number
  of the program does not wrap around (files below 4 GiB, addresses and lengths below 2 to the 64) or
  name the range that the driver can address (2 to the 28 sectors).

  \<^bold>\<open>Not modelled.\<close> The assembly files (\<open>gdt.asm\<close>, \<open>idt.asm\<close>, \<open>context.asm\<close> and the stack switch of the system
  call entry) appear only through their effect: loading a table, entering the dispatcher, switching to
  another task, calling the handler. The
  page fault handler halts, which is the outcome \<open>None\<close>; \<open>hcf\<close> of \<open>lib/asm.c\<close> is an outcome that ends the model.
  Concurrency is what one processor has:
  interrupts between operations, and a spin lock that nobody releases while somebody spins on it.
\<close>

end
